(* ===== verification/Prelude.thy ===== *)
theory Prelude
  imports Main "HOL-Library.State_Monad" "HOL-Library.AList" "HOL-Library.Multiset"
begin

text \<open>
  Shared vocabulary of the development: Go's error values and the result type of
  fallible calls, instants and durations, the unordered iteration over Go maps, and a
  small program logic for the state monad of \<open>HOL-Library\<close> in which the handlers that
  make many external calls are written. The rules of that logic are collected under
  \<open>keeps\<close> (invariants) and \<open>runs\<close> (results), so that a component proof is an
  application of those collections followed by one call of the simplifier.
\<close>

named_theorems keeps_intro "rules for invariant preservation of monadic handlers"
named_theorems wp_intro "postcondition rules of monadic commands"
named_theorems run_simps "equations that execute one monadic command"

subsection \<open>Errors\<close>

text \<open>
  A Go error is a message with the errors it wraps: \<open>fmt.Errorf\<close> with one or two
  \<open>%w\<close> verbs wraps one or two of them. \<open>errors.Is\<close> walks the tree of causes. An error
  the database server reports carries its number.
\<close>

datatype goerr = GoErr string "goerr list" | MySQLError nat string

type_synonym 'a result = "goerr + 'a"

abbreviation Errorf :: "string \<Rightarrow> goerr" where
  "Errorf m \<equiv> GoErr m []"

abbreviation Wrapf :: "string \<Rightarrow> goerr \<Rightarrow> goerr" where
  "Wrapf m e \<equiv> GoErr m [e]"

fun errors_Is :: "goerr \<Rightarrow> goerr \<Rightarrow> bool" where
  "errors_Is (GoErr m es) t = (GoErr m es = t \<or> list_ex (\<lambda>e. errors_Is e t) es)"
| "errors_Is (MySQLError n m) t = (MySQLError n m = t)"

text \<open>\<open>errors.AsType[*mysql.MySQLError]\<close>: the number of the first driver error of the tree.\<close>

fun as_MySQLError :: "goerr \<Rightarrow> nat option" where
  "as_MySQLError (MySQLError n m) = Some n"
| "as_MySQLError (GoErr m es) =
     foldr (\<lambda>e r. case as_MySQLError e of Some n \<Rightarrow> Some n | None \<Rightarrow> r) es None"

text \<open>The text of an error with the texts of its causes, as \<open>Error()\<close> returns it.\<close>

fun error_text :: "goerr \<Rightarrow> string" where
  "error_text (MySQLError n m) = m"
| "error_text (GoErr m es) = m @ concat (map (\<lambda>e. '': '' @ error_text e) es)"

lemma errors_Is_refl [simp]: "errors_Is e e"
  by (cases e) simp_all

lemma errors_Is_Wrapf: "errors_Is e t \<Longrightarrow> errors_Is (Wrapf m e) t"
  by simp

text \<open>The errors of an ended \<open>context.Context\<close>.\<close>

definition ContextCanceled :: goerr where "ContextCanceled = Errorf ''context canceled''"
definition ContextDeadline :: goerr where "ContextDeadline = Errorf ''context deadline exceeded''"

fun is_ok :: "'a result \<Rightarrow> bool" where
  "is_ok (Inl _) = False"
| "is_ok (Inr _) = True"

lemma is_ok_iff: "is_ok r \<longleftrightarrow> (\<exists>v. r = Inr v)"
  by (cases r) auto

lemma not_is_ok_iff: "\<not> is_ok r \<longleftrightarrow> (\<exists>e. r = Inl e)"
  by (cases r) auto

subsection \<open>Instants and durations\<close>

text \<open>
  An instant counts nanoseconds from Go's zero \<open>time.Time\<close>, so \<open>IsZero\<close> is
  equality with 0; a duration counts nanoseconds.
\<close>

type_synonym time = int
type_synonym duration = int

abbreviation Nanosecond :: duration where "Nanosecond \<equiv> 1"
abbreviation Microsecond :: duration where "Microsecond \<equiv> 1000"
abbreviation Millisecond :: duration where "Millisecond \<equiv> 1000000"
abbreviation Second :: duration where "Second \<equiv> 1000000000"
abbreviation Minute :: duration where "Minute \<equiv> 60 * Second"

definition IsZero :: "time \<Rightarrow> bool" where
  "IsZero t \<longleftrightarrow> t = 0"

subsection \<open>Maps and their iteration order\<close>

text \<open>
  Go iterates over a map in an unspecified order. A handler that ranges over a map takes
  the order from a parameter \<open>range\<close>, of which the theorems that need it assume only
  that it enumerates the given keys.
\<close>

definition range_ok :: "('k list \<Rightarrow> 'k list) \<Rightarrow> bool" where
  "range_ok f \<longleftrightarrow> (\<forall>xs. set (f xs) = set xs \<and> length (f xs) = length xs)"

lemma range_ok_set: "range_ok f \<Longrightarrow> set (f xs) = set xs"
  by (simp add: range_ok_def)

lemma range_ok_id: "range_ok id"
  by (simp add: range_ok_def)

text \<open>Reading a Go map of instants: the zero instant where the key is absent.\<close>

definition ts_get :: "('k \<rightharpoonup> time) \<Rightarrow> 'k \<Rightarrow> time" where
  "ts_get m k = (case m k of None \<Rightarrow> 0 | Some t \<Rightarrow> t)"

lemma ts_get_upd [simp]: "ts_get (m(k \<mapsto> t)) k' = (if k' = k then t else ts_get m k')"
  by (simp add: ts_get_def)

lemma ts_get_None [simp]: "m k = None \<Longrightarrow> ts_get m k = 0"
  by (simp add: ts_get_def)

lemma ts_get_Some [simp]: "m k = Some t \<Longrightarrow> ts_get m k = t"
  by (simp add: ts_get_def)

text \<open>The rows of an \<open>UPDATE ... WHERE\<close>.\<close>

definition update_where :: "('r \<Rightarrow> bool) \<Rightarrow> ('r \<Rightarrow> 'r) \<Rightarrow> 'r list \<Rightarrow> 'r list" where
  "update_where P h rs = map (\<lambda>r. if P r then h r else r) rs"

lemma set_update_where:
  "x \<in> set (update_where P h rs) \<longleftrightarrow> (\<exists>r \<in> set rs. x = (if P r then h r else r))"
  by (auto simp: update_where_def)

lemma bex_update_where:
  "(\<exists>x \<in> set (update_where P h rs). Q x) \<longleftrightarrow> (\<exists>r \<in> set rs. Q (if P r then h r else r))"
  by (auto simp: update_where_def)

lemma ball_update_where:
  "(\<forall>x \<in> set (update_where P h rs). Q x) \<longleftrightarrow> (\<forall>r \<in> set rs. Q (if P r then h r else r))"
  by (auto simp: update_where_def)

lemma length_update_where [simp]: "length (update_where P h rs) = length rs"
  by (simp add: update_where_def)

lemma map_update_where:
  "(\<And>r. P r \<Longrightarrow> K (h r) = K r) \<Longrightarrow> map K (update_where P h rs) = map K rs"
  by (simp add: update_where_def)

lemma image_update_where:
  "(\<And>r. P r \<Longrightarrow> K (h r) = K r) \<Longrightarrow> K ` set (update_where P h rs) = K ` set rs"
  by (metis list.set_map map_update_where)

lemma update_where_none: "\<forall>r \<in> set rs. \<not> P r \<Longrightarrow> update_where P h rs = rs"
  by (simp add: update_where_def map_idI)

lemma find_update_where:
  "(\<And>r. Q (if P r then h r else r) = Q r) \<Longrightarrow>
   find Q (update_where P h rs) = map_option (\<lambda>r. if P r then h r else r) (find Q rs)"
  by (induction rs) (auto simp: update_where_def)

lemma distinct_update_where:
  assumes "distinct (map J rs)" and "distinct (map F rs)" and "\<And>r. F (h r) = x"
    and "\<forall>r \<in> set rs. J r \<noteq> j \<longrightarrow> F r \<noteq> x"
  shows "distinct (map F (update_where (\<lambda>r. J r = j) h rs))"
  using assms
proof (induction rs)
  case (Cons r rs)
  show ?case
  proof (cases "J r = j")
    case True
    then have *: "\<forall>s \<in> set rs. J s \<noteq> j" using Cons.prems(1) by (force simp: image_iff)
    then have "x \<notin> F ` set rs" using Cons.prems(4) by auto
    with True * show ?thesis
      using Cons.prems update_where_none [of rs "\<lambda>r. J r = j" h] by (simp add: update_where_def)
  next
    case False
    then have "F r \<noteq> x" using Cons.prems(4) by auto
    moreover have "\<forall>s \<in> set rs. F s \<noteq> F r" using Cons.prems(2) by (force simp: image_iff)
    ultimately have "\<forall>s \<in> set (update_where (\<lambda>r. J r = j) h rs). F s \<noteq> F r"
      using Cons.prems(3) by (auto simp: set_update_where split: if_splits)
    then have "F r \<notin> set (map F (update_where (\<lambda>r. J r = j) h rs))" by (force simp: image_iff)
    with False show ?thesis using Cons by (simp add: update_where_def)
  qed
qed (simp add: update_where_def)

lemma filter_eq_self: "(\<And>x. x \<in> set xs \<Longrightarrow> P x) \<Longrightarrow> filter P xs = xs"
  by (rule filter_True) simp

subsection \<open>A program logic for the state monad\<close>

abbreviation ret :: "'a \<Rightarrow> ('s, 'a) state" where
  "ret \<equiv> State_Monad.return"

abbreviation gets :: "('s \<Rightarrow> 'a) \<Rightarrow> ('s, 'a) state" where
  "gets f \<equiv> State (\<lambda>s. (f s, s))"

abbreviation modify :: "('s \<Rightarrow> 's) \<Rightarrow> ('s, unit) state" where
  "modify f \<equiv> State (\<lambda>s. ((), f s))"

text \<open>A \<open>for ... range\<close> loop; \<open>continue\<close> ends the body.\<close>

fun for_each :: "'a list \<Rightarrow> ('a \<Rightarrow> ('s, unit) state) \<Rightarrow> ('s, unit) state" where
  "for_each [] body = ret ()"
| "for_each (x # xs) body = body x \<bind> (\<lambda>_. for_each xs body)"

definition keeps :: "('s \<Rightarrow> bool) \<Rightarrow> ('s, 'a) state \<Rightarrow> bool" where
  "keeps I m \<longleftrightarrow> (\<forall>s. I s \<longrightarrow> I (snd (run_state m s)))"

lemma keepsI: "(\<And>s. I s \<Longrightarrow> I (snd (run_state m s))) \<Longrightarrow> keeps I m"
  by (simp add: keeps_def)

lemma keepsD: "keeps I m \<Longrightarrow> I s \<Longrightarrow> I (snd (run_state m s))"
  by (simp add: keeps_def)

lemma keeps_return [keeps_intro]: "keeps I (ret x)"
  by (simp add: keeps_def)

lemma keeps_gets [keeps_intro]: "keeps I (gets f)"
  by (simp add: keeps_def)

lemma keeps_bind [keeps_intro]:
  "keeps I m \<Longrightarrow> (\<And>a. keeps I (f a)) \<Longrightarrow> keeps I (m \<bind> f)"
  by (simp add: keeps_def split: prod.split) (metis snd_conv)

lemma keeps_modify: "(\<And>s. I s \<Longrightarrow> I (f s)) \<Longrightarrow> keeps I (modify f)"
  by (simp add: keeps_def)

lemma keeps_if [keeps_intro]: "(b \<Longrightarrow> keeps I m) \<Longrightarrow> (\<not> b \<Longrightarrow> keeps I n) \<Longrightarrow> keeps I (if b then m else n)"
  by simp

lemma keeps_sum [keeps_intro]:
  "(\<And>e. keeps I (f e)) \<Longrightarrow> (\<And>v. keeps I (g v)) \<Longrightarrow>
   keeps I (case r of Inl e \<Rightarrow> f e | Inr v \<Rightarrow> g v)"
  by (cases r) auto

lemma keeps_option [keeps_intro]:
  "keeps I m \<Longrightarrow> (\<And>v. keeps I (g v)) \<Longrightarrow>
   keeps I (case r of None \<Rightarrow> m | Some v \<Rightarrow> g v)"
  by (cases r) auto

lemma keeps_prod [keeps_intro]:
  "(\<And>a b. keeps I (f a b)) \<Longrightarrow> keeps I (case p of (a, b) \<Rightarrow> f a b)"
  by (cases p) auto

lemma keeps_for_each [keeps_intro]:
  "(\<And>x. keeps I (body x)) \<Longrightarrow> keeps I (for_each xs body)"
  by (induction xs) (auto intro: keeps_intro)

lemma run_for_each_Nil [run_simps]: "run_state (for_each [] body) s = ((), s)"
  by simp

lemma run_for_each_Cons [run_simps]:
  "run_state (for_each (x # xs) body) s =
     run_state (for_each xs body) (snd (run_state (body x) s))"
  by (simp split: prod.split)

text \<open>
  Postconditions: \<open>wp m Q s\<close> says that running \<open>m\<close> from \<open>s\<close> gives a result and a state
  that satisfy \<open>Q\<close>. The rules follow the shape of the program, so that a handler's
  postcondition is reduced to its calls by \<open>intro wp_intro\<close>.
\<close>

definition wp :: "('s, 'a) state \<Rightarrow> ('a \<Rightarrow> 's \<Rightarrow> bool) \<Rightarrow> 's \<Rightarrow> bool" where
  "wp m Q s \<longleftrightarrow> Q (fst (run_state m s)) (snd (run_state m s))"

lemma wp_ret [wp_intro]: "Q x s \<Longrightarrow> wp (ret x) Q s"
  by (simp add: wp_def)

lemma wp_gets [wp_intro]: "Q (f s) s \<Longrightarrow> wp (gets f) Q s"
  by (simp add: wp_def)

lemma wp_modify [wp_intro]: "Q () (f s) \<Longrightarrow> wp (modify f) Q s"
  by (simp add: wp_def)

lemma run_bind: "run_state (m \<bind> f) s = run_state (f (fst (run_state m s))) (snd (run_state m s))"
  by (simp split: prod.split)

lemma wp_bind [wp_intro]: "wp m (\<lambda>r. wp (f r) Q) s \<Longrightarrow> wp (m \<bind> f) Q s"
  unfolding wp_def run_bind .

lemma wp_if [wp_intro]: "(b \<Longrightarrow> wp m Q s) \<Longrightarrow> (\<not> b \<Longrightarrow> wp n Q s) \<Longrightarrow> wp (if b then m else n) Q s"
  by simp

lemma wp_sum [wp_intro]:
  "(\<And>e. r = Inl e \<Longrightarrow> wp (f e) Q s) \<Longrightarrow> (\<And>v. r = Inr v \<Longrightarrow> wp (g v) Q s) \<Longrightarrow>
   wp (case r of Inl e \<Rightarrow> f e | Inr v \<Rightarrow> g v) Q s"
  by (cases r) auto

lemma wp_option [wp_intro]:
  "(r = None \<Longrightarrow> wp m Q s) \<Longrightarrow> (\<And>v. r = Some v \<Longrightarrow> wp (g v) Q s) \<Longrightarrow>
   wp (case r of None \<Rightarrow> m | Some v \<Rightarrow> g v) Q s"
  by (cases r) auto

lemma wp_prod [wp_intro]: "(\<And>a b. p = (a, b) \<Longrightarrow> wp (f a b) Q s) \<Longrightarrow> wp (case p of (a, b) \<Rightarrow> f a b) Q s"
  by (cases p) auto

lemma wp_let [wp_intro]: "(\<And>x. x = v \<Longrightarrow> wp (f x) Q s) \<Longrightarrow> wp (let x = v in f x) Q s"
  by simp

lemma wp_mono: "wp m P s \<Longrightarrow> (\<And>r t. P r t \<Longrightarrow> Q r t) \<Longrightarrow> wp m Q s"
  by (simp add: wp_def)

lemma wp_keeps: "keeps I m \<Longrightarrow> I s \<Longrightarrow> (\<And>r t. I t \<Longrightarrow> Q r t) \<Longrightarrow> wp m Q s"
  by (simp add: wp_def keeps_def)

lemma keeps_wp: "(\<And>s. I s \<Longrightarrow> wp m (\<lambda>_. I) s) \<Longrightarrow> keeps I m"
  by (simp add: wp_def keeps_def)

lemma wp_for_each:
  assumes "\<And>x s. x \<in> set xs \<Longrightarrow> I s \<Longrightarrow> wp (body x) (\<lambda>_. I) s" and "I s" and "\<And>t. I t \<Longrightarrow> Q () t"
  shows "wp (for_each xs body) Q s"
  using assms(1,2)
proof (induction xs arbitrary: s)
  case Nil
  then show ?case using assms(3) by (simp add: wp_def)
next
  case (Cons x xs)
  then have "I (snd (run_state (body x) s))" by (simp add: wp_def)
  then have "wp (for_each xs body) Q (snd (run_state (body x) s))" using Cons by simp
  then show ?case unfolding for_each.simps wp_def run_bind .
qed

end
