(* ===== verification/Store_Types.thy ===== *)
theory Store_Types
  imports Go_Strings
begin

text \<open>
  The data of \<open>internal/store/store.go\<close>: groups, messages, chats, scheduled tasks and
  their run logs, sessions and allowlist entries, with the validation methods. Go's string
  enumerations are open (a value of the type need not be one of its constants), so each
  datatype has a constructor for the other strings. The cron, duration and RFC 3339
  parsers are the record \<open>sched_lib\<close>, a parameter of everything that uses them.
\<close>

section \<open>Data\<close>

record AdditionalMount =
  HostPath :: string
  ContainerPath :: string
  ReadOnly :: bool

record ContainerConfig =
  cc_AdditionalMounts :: "AdditionalMount list"
  cc_Timeout :: int
  cc_Model :: string
  cc_Provider :: string

definition empty_ContainerConfig :: ContainerConfig where
  "empty_ContainerConfig =
     \<lparr>cc_AdditionalMounts = [], cc_Timeout = 0, cc_Model = [], cc_Provider = []\<rparr>"

record Group =
  g_JID :: string
  g_Name :: string
  g_Folder :: string
  g_TriggerPattern :: string
  g_AddedAt :: time
  g_ContainerConfig :: "ContainerConfig option"
  g_RequiresTrigger :: bool
  g_IsMain :: bool

record Message =
  m_ID :: string
  m_ChatJID :: string
  m_Sender :: string
  m_SenderName :: string
  m_Content :: string
  m_Timestamp :: time
  m_IsFromMe :: bool
  m_IsBotMessage :: bool

record Chat =
  c_JID :: string
  c_Name :: string
  c_Channel :: string
  c_IsGroup :: bool
  c_LastMessageTime :: time

datatype ScheduleType = ScheduleCron | ScheduleInterval | ScheduleOnce | OtherSchedule string
datatype ContextMode = ContextGroup | ContextIsolated | OtherContext string
datatype TaskStatus = TaskActive | TaskPaused | TaskCompleted | OtherStatus string

fun ScheduleType_of :: "string \<Rightarrow> ScheduleType" where
  "ScheduleType_of s =
     (if s = ''cron'' then ScheduleCron
      else if s = ''interval'' then ScheduleInterval
      else if s = ''once'' then ScheduleOnce
      else OtherSchedule s)"

fun ContextMode_of :: "string \<Rightarrow> ContextMode" where
  "ContextMode_of s =
     (if s = ''group'' then ContextGroup
      else if s = ''isolated'' then ContextIsolated
      else OtherContext s)"

record ScheduledTask =
  t_ID :: string
  t_GroupFolder :: string
  t_ChatJID :: string
  t_Prompt :: string
  t_ScheduleType :: ScheduleType
  t_ScheduleValue :: string
  t_ContextMode :: ContextMode
  t_NextRun :: "time option"
  t_LastRun :: "time option"
  t_LastResult :: "string option"
  t_Status :: TaskStatus
  t_CreatedAt :: time

datatype TaskRunStatus = RunSuccess | RunError

record TaskRunLog =
  l_ID :: int
  l_TaskID :: string
  l_GroupFolder :: string
  l_RunAt :: time
  l_DurationMs :: int
  l_Status :: TaskRunStatus
  l_Result :: "string option"
  l_Error :: "string option"

record Session =
  s_GroupFolder :: string
  s_SessionID :: string

datatype AllowlistMode = ModeTrigger | ModeDrop

record SenderAllowlistEntry =
  a_ID :: int
  a_ChatJID :: string
  a_AllowPattern :: string
  a_Mode :: AllowlistMode

definition ErrGroupNotFound :: goerr where
  "ErrGroupNotFound = Errorf ''group not found''"

section \<open>Validation\<close>

definition Group_Validate :: "Group \<Rightarrow> unit result" where
  "Group_Validate g =
     (if g_JID g = [] then Inl (Errorf ''group JID is required'')
      else if g_Folder g = [] then Inl (Errorf ''group folder is required'')
      else if g_RequiresTrigger g \<and> g_TriggerPattern g = []
        then Inl (Errorf ''trigger pattern required when requires_trigger is true'')
      else Inr ())"

record sched_lib =
  cron_Parse :: "string \<Rightarrow> (time \<Rightarrow> time) result"
  ParseDuration :: "string \<Rightarrow> duration result"
  ParseRFC3339 :: "string \<Rightarrow> time result"

definition ScheduledTask_Validate :: "sched_lib \<Rightarrow> ScheduledTask \<Rightarrow> unit result" where
  "ScheduledTask_Validate lib t =
     (if t_ID t = [] then Inl (Errorf ''task ID is required'')
      else case t_ScheduleType t of
        ScheduleCron \<Rightarrow>
          (case cron_Parse lib (t_ScheduleValue t) of
             Inl e \<Rightarrow> Inl (Wrapf ''invalid cron expression'' e)
           | Inr _ \<Rightarrow> Inr ())
      | ScheduleInterval \<Rightarrow>
          (case ParseDuration lib (t_ScheduleValue t) of
             Inl e \<Rightarrow> Inl (Errorf ''invalid interval'')
           | Inr d \<Rightarrow> if d \<le> 0 then Inl (Errorf ''invalid interval'') else Inr ())
      | ScheduleOnce \<Rightarrow>
          (case ParseRFC3339 lib (t_ScheduleValue t) of
             Inl e \<Rightarrow> Inl (Wrapf ''invalid once schedule'' e)
           | Inr _ \<Rightarrow> Inr ())
      | OtherSchedule s \<Rightarrow> Inl (Errorf ''unknown schedule type''))"

lemma Group_Validate_Inr:
  "Group_Validate g = Inr () \<longleftrightarrow>
     g_JID g \<noteq> [] \<and> g_Folder g \<noteq> [] \<and> (g_RequiresTrigger g \<longrightarrow> g_TriggerPattern g \<noteq> [])"
  by (auto simp: Group_Validate_def)

lemma ScheduledTask_Validate_known:
  "ScheduledTask_Validate lib t = Inr () \<Longrightarrow>
     t_ID t \<noteq> [] \<and> (\<forall>s. t_ScheduleType t \<noteq> OtherSchedule s)"
  by (auto simp: ScheduledTask_Validate_def split: if_splits ScheduleType.splits)

end
