(* ===== verification/Provider_Registry.thy ===== *)
theory Provider_Registry
  imports Go_Strings
begin

text \<open>
  \<open>internal/provider/registry.go\<close>: the table of AI providers and their models. The Go map
  is an association list keyed by provider id.
\<close>

definition ProviderAnthropic :: string where "ProviderAnthropic = ''anthropic''"
definition ProviderOpenAI :: string where "ProviderOpenAI = ''openai''"

datatype ProviderAuthMode = AuthModeAPIKey | AuthModeChatGPT | OtherAuthMode string

definition ProviderAuthMode_Valid :: "ProviderAuthMode \<Rightarrow> bool" where
  "ProviderAuthMode_Valid m = (case m of AuthModeAPIKey \<Rightarrow> True | AuthModeChatGPT \<Rightarrow> True | OtherAuthMode _ \<Rightarrow> False)"

record ModelInfo =
  mi_ID :: string
  mi_DisplayName :: string

record ProviderInfo =
  pi_ID :: string
  pi_DisplayName :: string
  pi_Models :: "ModelInfo list"
  pi_DefaultModel :: string
  pi_AuthMode :: ProviderAuthMode

type_synonym ProviderRegistry = "(string \<times> ProviderInfo) list"

abbreviation mi :: "string \<Rightarrow> string \<Rightarrow> ModelInfo" where
  "mi i n \<equiv> \<lparr>mi_ID = i, mi_DisplayName = n\<rparr>"

definition NewRegistry :: ProviderRegistry where
  "NewRegistry =
     [(ProviderAnthropic,
       \<lparr>pi_ID = ProviderAnthropic, pi_DisplayName = ''Anthropic'',
        pi_Models =
          [mi ''claude-opus-4-6'' ''Claude Opus 4.6'', mi ''claude-sonnet-4-6'' ''Claude Sonnet 4.6'',
           mi ''claude-haiku-4-5'' ''Claude Haiku 4.5'', mi ''claude-sonnet-4-5'' ''Claude Sonnet 4.5'',
           mi ''claude-opus-4-5'' ''Claude Opus 4.5'', mi ''claude-opus-4-1'' ''Claude Opus 4.1'',
           mi ''claude-sonnet-4-0'' ''Claude Sonnet 4'', mi ''claude-opus-4-0'' ''Claude Opus 4''],
        pi_DefaultModel = ''claude-sonnet-4-6'', pi_AuthMode = AuthModeAPIKey\<rparr>),
      (ProviderOpenAI,
       \<lparr>pi_ID = ProviderOpenAI, pi_DisplayName = ''OpenAI'',
        pi_Models =
          [mi ''gpt-5.5'' ''GPT-5.5'', mi ''gpt-5.4'' ''GPT-5.4'', mi ''gpt-5.4-mini'' ''GPT-5.4 Mini'',
           mi ''gpt-5.3-codex'' ''GPT-5.3 Codex'', mi ''gpt-5.3-codex-spark'' ''GPT-5.3 Codex Spark'',
           mi ''gpt-5.2-codex'' ''GPT-5.2 Codex'', mi ''gpt-5.2'' ''GPT-5.2'',
           mi ''gpt-5.1-codex-max'' ''GPT-5.1 Codex Max'', mi ''gpt-5.1'' ''GPT-5.1'',
           mi ''gpt-5-codex'' ''GPT-5 Codex'', mi ''gpt-5-codex-mini'' ''GPT-5 Codex Mini''],
        pi_DefaultModel = ''gpt-5.5'', pi_AuthMode = AuthModeChatGPT\<rparr>)]"

definition Provider_Get :: "ProviderRegistry \<Rightarrow> string \<Rightarrow> ProviderInfo option" where
  "Provider_Get r pid = map_of r pid"

definition DefaultProvider :: string where
  "DefaultProvider = ProviderAnthropic"

definition ValidateModel :: "ProviderRegistry \<Rightarrow> string \<Rightarrow> string \<Rightarrow> unit result" where
  "ValidateModel r providerID model =
     (case map_of r providerID of
        None \<Rightarrow> Inl (Errorf (''unknown provider '' @ Quote providerID))
      | Some p \<Rightarrow>
          if model = [] then Inr ()
          else if list_ex (\<lambda>m. mi_ID m = model) (pi_Models p) then Inr ()
          else Inl (Errorf (''model '' @ Quote model @ '' is not valid for provider '' @ Quote providerID)))"

definition Provider_Models :: "ProviderRegistry \<Rightarrow> string \<Rightarrow> ModelInfo list" where
  "Provider_Models r providerID =
     (case map_of r providerID of None \<Rightarrow> [] | Some p \<Rightarrow> pi_Models p)"

lemma ValidateModel_Inr:
  "ValidateModel r p m = Inr () \<longleftrightarrow>
     (\<exists>i. map_of r p = Some i \<and> (m = [] \<or> m \<in> mi_ID ` set (pi_Models i)))"
  by (auto simp: ValidateModel_def list_ex_iff split: option.splits)

text \<open>The built-in table: entries are keyed by their own id, list their default model, and name each model once.\<close>

lemma NewRegistry_consistent:
  "\<forall>(k, p) \<in> set NewRegistry. pi_ID p = k \<and> ProviderAuthMode_Valid (pi_AuthMode p) \<and>
     ValidateModel NewRegistry k (pi_DefaultModel p) = Inr () \<and> distinct (map mi_ID (pi_Models p))"
  by (simp add: NewRegistry_def ProviderAnthropic_def ProviderOpenAI_def ProviderAuthMode_Valid_def ValidateModel_def)

end
