(* ===== verification/Go_Runes.thy ===== *)
theory Go_Runes
  imports Go_Strings
begin

text \<open>
  UTF-8 as Go decodes it: the conversion of a string to runes, in which an invalid byte becomes
  the replacement character, and the padding verb of \<open>fmt\<close>, which counts runes. A rune is the
  string that encodes it.
\<close>

definition byte_in :: "nat \<Rightarrow> nat \<Rightarrow> char \<Rightarrow> bool" where
  "byte_in a b c \<longleftrightarrow> a \<le> of_char c \<and> of_char c \<le> b"

text \<open>Encodings of three and four bytes, without overlong forms, surrogates and values beyond the last code point.\<close>

definition three_ok :: "char \<Rightarrow> char \<Rightarrow> char \<Rightarrow> bool" where
  "three_ok b c d \<longleftrightarrow>
     (if byte_in 0xE0 0xE0 b then byte_in 0xA0 0xBF c else if byte_in 0xED 0xED b then byte_in 0x80 0x9F c else byte_in 0x80 0xBF c) \<and> byte_in 0x80 0xBF d"

definition four_ok :: "char \<Rightarrow> char \<Rightarrow> char \<Rightarrow> char \<Rightarrow> bool" where
  "four_ok b c d e \<longleftrightarrow> byte_in 0xF0 0xF4 b \<and>
     (if byte_in 0xF0 0xF0 b then byte_in 0x90 0xBF c else if byte_in 0xF4 0xF4 b then byte_in 0x80 0x8F c else byte_in 0x80 0xBF c) \<and>
     byte_in 0x80 0xBF d \<and> byte_in 0x80 0xBF e"

text \<open>The number of bytes of the encoding a string starts with; 0 when it starts with none.\<close>

fun rune_len :: "string \<Rightarrow> nat" where
  "rune_len (b # s) =
     (if byte_in 0 0x7F b then 1
      else case s of
        [] \<Rightarrow> 0
      | c # s \<Rightarrow>
          if byte_in 0xC2 0xDF b then (if byte_in 0x80 0xBF c then 2 else 0)
          else case s of
            [] \<Rightarrow> 0
          | d # s \<Rightarrow>
              if byte_in 0xE0 0xEF b then (if three_ok b c d then 3 else 0)
              else case s of [] \<Rightarrow> 0 | e # _ \<Rightarrow> if four_ok b c d e then 4 else 0)"
| "rune_len [] = 0"

definition RuneError :: string where
  "RuneError = [CHR 0xEF, CHR 0xBF, CHR 0xBD]"

function runes :: "string \<Rightarrow> string list" where
  "runes s = (if s = [] then [] else if rune_len s = 0 then RuneError # runes (tl s) else take (rune_len s) s # runes (drop (rune_len s) s))"
  by auto
termination
  by (relation "measure length") auto

declare runes.simps [simp del]

definition valid_utf8 :: "string \<Rightarrow> bool" where
  "valid_utf8 s \<longleftrightarrow> concat (runes s) = s"

lemma runes_Nil [simp]: "runes [] = []"
  by (simp add: runes.simps)

lemma runes_ascii: "(of_char b :: nat) < 128 \<Longrightarrow> runes (b # s) = [b] # runes s"
  by (subst runes.simps) (simp add: byte_in_def)

lemma runes_ascii_all: "\<forall>b \<in> set s. (of_char b :: nat) < 128 \<Longrightarrow> runes s = map (\<lambda>b. [b]) s"
  by (induction s) (simp_all add: runes_ascii)

lemma runes_nonempty: "r \<in> set (runes s) \<Longrightarrow> r \<noteq> []"
proof (induction s rule: runes.induct)
  case (1 s)
  show ?case
    using 1 by (subst (asm) (3) runes.simps) (auto simp: RuneError_def split: if_splits)
qed

lemma rune_len_prefix: "rune_len s \<noteq> 0 \<Longrightarrow> rune_len (take (rune_len s) s @ t) = rune_len s"
  by (cases s rule: rune_len.cases) (auto split: list.split_asm if_split_asm)

lemma rune_len_le: "rune_len s \<le> length s"
  by (cases s rule: rune_len.cases) (auto split: list.splits)

text \<open>The runes of a string put together again are the same runes, whatever follows them.\<close>

lemma runes_prefix: "runes (concat (take n (runes s)) @ t) = take n (runes s) @ runes t"
proof (induction s arbitrary: n rule: runes.induct)
  case (1 s)
  have first: "runes (r @ rest) = r # runes rest" if "rune_len (r @ rest) = length r" "r \<noteq> []" for r rest
    using that by (subst runes.simps) simp
  show ?case
  proof (cases n)
    case (Suc k)
    consider "s = []" | "s \<noteq> []" "rune_len s = 0" | "s \<noteq> []" "rune_len s \<noteq> 0"
      by blast
    then show ?thesis
    proof cases
      case 2
      then have "runes s = RuneError # runes (tl s)"
        by (subst runes.simps) simp
      moreover have "rune_len (RuneError @ rest) = 3" for rest
        by (simp add: RuneError_def byte_in_def three_ok_def)
      ultimately show ?thesis
        using 1(1) [OF 2] Suc first [of RuneError] by (simp add: RuneError_def)
    next
      case 3
      then have "runes s = take (rune_len s) s # runes (drop (rune_len s) s)"
        by (subst runes.simps) simp
      then show ?thesis
        using 1(2) [OF 3] Suc 3 rune_len_prefix [OF 3(2)] rune_len_le [of s] first [of "take (rune_len s) s"] by (simp add: min_def)
    qed simp
  qed simp
qed

text \<open>A blank ends every rune before it.\<close>

lemma rune_len_space: "s \<noteq> [] \<Longrightarrow> rune_len (s @ CHR '' '' # t) = rune_len s"
proof -
  have sp: "\<not> byte_in 0x80 0xBF (CHR '' '')" "\<not> three_ok b (CHR '' '') d" "\<not> three_ok b c (CHR '' '')" "\<not> four_ok b (CHR '' '') d e"
      "\<not> four_ok b c (CHR '' '') e" "\<not> four_ok b c d (CHR '' '')" for b c d e
    by (simp_all add: three_ok_def four_ok_def byte_in_def)
  assume "s \<noteq> []"
  then show ?thesis
    by (cases s) (auto simp: sp split: list.split)
qed

lemma runes_spaces: "runes (s @ replicate n (CHR '' '')) = runes s @ replicate n '' ''"
proof (induction s rule: runes.induct)
  case (1 s)
  have blanks: "runes (replicate n (CHR '' '')) = replicate n '' ''"
    by (simp add: runes_ascii_all)
  have len: "rune_len (s @ replicate n (CHR '' '')) = rune_len s" if "s \<noteq> []"
    using that rune_len_space by (cases n) simp_all
  show ?case
  proof (cases "s = []")
    case False
    then show ?thesis
      using 1 len rune_len_le [of s] by (subst (1 2) runes.simps) auto
  qed (simp add: blanks)
qed

text \<open>\<open>%-ns\<close> pads on the right to \<open>n\<close> runes.\<close>

definition pad_verb :: "nat \<Rightarrow> string \<Rightarrow> string" where
  "pad_verb n s = s @ replicate (n - length (runes s)) (CHR '' '')"

end
