(* ===== verification/Ipc_Model.thy ===== *)
theory Ipc_Model
  imports Go_Runes
begin

text \<open>
  \<open>internal/ipc/ipc.go\<close>, \<open>internal/ipc/nats_broker.go\<close> and the client of \<open>pkg/agent/ipc.go\<close>:
  stream and subject names, the broker's cache of provisioned streams, publishing in both
  directions, and the loop that drains a JetStream consumer into a Go channel. NATS
  JetStream is the record \<open>jetstream\<close> of the calls the program makes, over an arbitrary
  server state; SHA-256 and the JSON codec are parameters as well.
\<close>

section \<open>Names\<close>

type_synonym sha256 = "string \<Rightarrow> nat list"

definition SanitizeGroupID :: "sha256 \<Rightarrow> string \<Rightarrow> string" where
  "SanitizeGroupID sha groupJID = hex_encode (take 16 (sha groupJID))"

definition agent_id_char :: "char \<Rightarrow> bool" where
  "agent_id_char c \<longleftrightarrow> (let n = (of_char c :: nat) in
     (97 \<le> n \<and> n \<le> 122) \<or> (65 \<le> n \<and> n \<le> 90) \<or> (48 \<le> n \<and> n \<le> 57) \<or> c = CHR ''_'' \<or> c = CHR ''-'')"

text \<open>\<open>[^a-zA-Z0-9_-]\<close> matches one rune, also one of several bytes or one that is not valid.\<close>

definition safe_rune :: "string \<Rightarrow> char" where
  "safe_rune r = (case r of [c] \<Rightarrow> if agent_id_char c then c else CHR ''_'' | _ \<Rightarrow> CHR ''_'')"

definition SanitizeAgentID :: "string \<Rightarrow> string" where
  "SanitizeAgentID agentID =
     (let safe = map safe_rune (runes agentID)
      in if length safe > 32 then take 32 safe else safe)"

definition ipcStreamName :: "string \<Rightarrow> string" where
  "ipcStreamName sanitized = ''KRACLAW_IPC_'' @ ToUpper sanitized"

definition ipcInputSubject :: "string \<Rightarrow> string \<Rightarrow> string" where
  "ipcInputSubject sanitized agentID = ''kraclaw.ipc.'' @ sanitized @ ''.'' @ SanitizeAgentID agentID @ ''.input''"

definition ipcOutputSubject :: "string \<Rightarrow> string \<Rightarrow> string" where
  "ipcOutputSubject sanitized agentID = ''kraclaw.ipc.'' @ sanitized @ ''.'' @ SanitizeAgentID agentID @ ''.output''"

definition ipcOutputWildcard :: "string \<Rightarrow> string" where
  "ipcOutputWildcard sanitized = ''kraclaw.ipc.'' @ sanitized @ ''.*.output''"

section \<open>Messages and the server\<close>

datatype IPCMessageType = IPCMessageText | IPCSessionUpdate | IPCTaskCreate | IPCTaskUpdate
  | IPCTaskDelete | IPCSetModel | IPCShutdown | OtherIPC string

definition DefaultAgentID :: string where "DefaultAgentID = ''main''"

record IPCMessage =
  ipc_Group :: string
  ipc_AgentID :: string
  ipc_Type :: IPCMessageType
  ipc_Payload :: string
  ipc_ID :: string

datatype retention = LimitsPolicy | WorkQueuePolicy

record stream_config =
  sc_Name :: string
  sc_Subjects :: "string list"
  sc_Retention :: retention
  sc_MaxAge :: duration

record consumer_config =
  co_Durable :: string
  co_FilterSubject :: string

record jmsg =
  j_Subject :: string
  j_Data :: string
  j_MsgId :: string
  j_Seq :: nat

text \<open>A fetch of one message fails, yields a message, or ends without one.\<close>

datatype fetched = FetchError goerr | FetchMsg jmsg | FetchEnd "goerr option"

record 'x jetstream =
  js_Stream :: "string \<Rightarrow> 'x \<Rightarrow> unit result \<times> 'x"
  js_CreateOrUpdateStream :: "stream_config \<Rightarrow> 'x \<Rightarrow> unit result \<times> 'x"
  js_DeleteStream :: "string \<Rightarrow> 'x \<Rightarrow> unit result \<times> 'x"
  js_CreateOrUpdateConsumer :: "string \<Rightarrow> consumer_config \<Rightarrow> 'x \<Rightarrow> unit result \<times> 'x"
  js_DeleteConsumer :: "string \<Rightarrow> string \<Rightarrow> 'x \<Rightarrow> unit result \<times> 'x"
  js_Publish :: "string \<Rightarrow> string \<Rightarrow> 'x \<Rightarrow> unit result \<times> 'x"
  js_Fetch :: "string \<Rightarrow> string \<Rightarrow> 'x \<Rightarrow> fetched \<times> 'x"
  js_Ack :: "string \<Rightarrow> jmsg \<Rightarrow> 'x \<Rightarrow> unit result \<times> 'x"
  js_Info :: "string \<Rightarrow> 'x \<Rightarrow> (nat \<times> nat) result \<times> 'x"
  js_GetMsg :: "string \<Rightarrow> nat \<Rightarrow> 'x \<Rightarrow> string result \<times> 'x"

definition ErrStreamNotFound :: goerr where "ErrStreamNotFound = Errorf ''nats: stream not found''"
definition ErrConsumerNotFound :: goerr where "ErrConsumerNotFound = Errorf ''nats: consumer not found''"
definition ErrConsumerDeleted :: goerr where "ErrConsumerDeleted = Errorf ''nats: consumer deleted''"
definition ErrMsgNotFound :: goerr where "ErrMsgNotFound = Errorf ''nats: message not found''"
definition ErrMsgIteratorClosed :: goerr where "ErrMsgIteratorClosed = Errorf ''nats: messages iterator closed''"
definition ErrNoMessages :: goerr where "ErrNoMessages = Errorf ''nats: no messages''"
definition ErrNatsTimeout :: goerr where "ErrNatsTimeout = Errorf ''nats: timeout''"
definition ErrNoResponders :: goerr where "ErrNoResponders = Errorf ''nats: no responders available for request''"

section \<open>The broker\<close>

text \<open>The broker's own state is the set of groups whose stream it has provisioned.\<close>

record 'x broker =
  b_streamCreated :: "string list"
  b_js :: 'x

type_synonym marshal = "IPCMessage \<Rightarrow> string result"

definition call_js :: "('x \<Rightarrow> 'a \<times> 'x) \<Rightarrow> 'x broker \<Rightarrow> 'a \<times> 'x broker" where
  "call_js f b = (case f (b_js b) of (r, x) \<Rightarrow> (r, b\<lparr>b_js := x\<rparr>))"

definition ipc_stream_config :: "string \<Rightarrow> stream_config" where
  "ipc_stream_config sanitized =
     \<lparr>sc_Name = ipcStreamName sanitized,
      sc_Subjects = [''kraclaw.ipc.'' @ sanitized @ ''.*.input'', ''kraclaw.ipc.'' @ sanitized @ ''.*.output''],
      sc_Retention = LimitsPolicy, sc_MaxAge = 60 * Minute\<rparr>"

definition ipc_ensureStream :: "'x jetstream \<Rightarrow> sha256 \<Rightarrow> string \<Rightarrow> ('x broker, string result) state" where
  "ipc_ensureStream js sha grp =
     (let sanitized = SanitizeGroupID sha grp
      in do {
        created \<leftarrow> gets b_streamCreated;
        if sanitized \<in> set created then ret (Inr sanitized)
        else do {
          r \<leftarrow> State (call_js (js_CreateOrUpdateStream js (ipc_stream_config sanitized)));
          (case r of
             Inl err \<Rightarrow> ret (Inl (Wrapf (''ensure ipc stream '' @ ipcStreamName sanitized) err))
           | Inr _ \<Rightarrow> do {
               modify (\<lambda>b. b\<lparr>b_streamCreated := List.insert sanitized (b_streamCreated b)\<rparr>);
               ret (Inr sanitized) })
        }
      })"

definition agent_consumer_config :: "string \<Rightarrow> string \<Rightarrow> consumer_config" where
  "agent_consumer_config sanitized agentID =
     \<lparr>co_Durable = ''agent-'' @ SanitizeAgentID agentID, co_FilterSubject = ipcInputSubject sanitized agentID\<rparr>"

definition EnsureStreamForAgent :: "'x jetstream \<Rightarrow> sha256 \<Rightarrow> string \<Rightarrow> string \<Rightarrow> ('x broker, unit result) state" where
  "EnsureStreamForAgent js sha grp agentID = do {
     r \<leftarrow> ipc_ensureStream js sha grp;
     (case r of
        Inl err \<Rightarrow> ret (Inl (Wrapf ''ensure stream for agent'' err))
      | Inr sanitized \<Rightarrow> do {
          r \<leftarrow> State (call_js (js_CreateOrUpdateConsumer js (ipcStreamName sanitized) (agent_consumer_config sanitized agentID)));
          (case r of Inl err \<Rightarrow> ret (Inl (Wrapf ''ensure agent consumer'' err)) | Inr _ \<Rightarrow> ret (Inr ()))
        })
   }"

definition ipc_publish :: "'x jetstream \<Rightarrow> marshal \<Rightarrow> string \<Rightarrow> string \<Rightarrow> IPCMessage \<Rightarrow> ('x broker, unit result) state" where
  "ipc_publish js enc op subject msg =
     (case enc msg of
        Inl err \<Rightarrow> ret (Inl (Wrapf ''marshal ipc message'' err))
      | Inr data \<Rightarrow> do {
          r \<leftarrow> State (call_js (js_Publish js subject data));
          (case r of Inl err \<Rightarrow> ret (Inl (Wrapf op err)) | Inr _ \<Rightarrow> ret (Inr ())) })"

definition PublishOutput :: "'x jetstream \<Rightarrow> sha256 \<Rightarrow> marshal \<Rightarrow> string \<Rightarrow> string \<Rightarrow> IPCMessage \<Rightarrow> ('x broker, unit result) state" where
  "PublishOutput js sha enc grp agentID msg = do {
     r \<leftarrow> ipc_ensureStream js sha grp;
     (case r of
        Inl err \<Rightarrow> ret (Inl (Wrapf ''publish output'' err))
      | Inr sanitized \<Rightarrow> ipc_publish js enc ''publish output'' (ipcOutputSubject sanitized agentID) msg)
   }"

definition SendInput :: "'x jetstream \<Rightarrow> sha256 \<Rightarrow> marshal \<Rightarrow> string \<Rightarrow> string \<Rightarrow> IPCMessage \<Rightarrow> ('x broker, unit result) state" where
  "SendInput js sha enc grp agentID msg = do {
     r \<leftarrow> ipc_ensureStream js sha grp;
     (case r of
        Inl err \<Rightarrow> ret (Inl (Wrapf ''send input'' err))
      | Inr sanitized \<Rightarrow> ipc_publish js enc ''send input'' (ipcInputSubject sanitized agentID) msg)
   }"

definition DeleteStreams :: "'x jetstream \<Rightarrow> sha256 \<Rightarrow> string \<Rightarrow> ('x broker, unit result) state" where
  "DeleteStreams js sha grp =
     (let sanitized = SanitizeGroupID sha grp
      in do {
        r \<leftarrow> State (call_js (js_DeleteStream js (ipcStreamName sanitized)));
        (case r of
           Inl err \<Rightarrow>
             if errors_Is err ErrStreamNotFound
             then do { modify (\<lambda>b. b\<lparr>b_streamCreated := removeAll sanitized (b_streamCreated b)\<rparr>); ret (Inr ()) }
             else ret (Inl (Wrapf (''delete ipc stream '' @ ipcStreamName sanitized) err))
         | Inr _ \<Rightarrow> do { modify (\<lambda>b. b\<lparr>b_streamCreated := removeAll sanitized (b_streamCreated b)\<rparr>); ret (Inr ()) })
      })"

definition StreamExists :: "'x jetstream \<Rightarrow> sha256 \<Rightarrow> string \<Rightarrow> ('x broker, bool result) state" where
  "StreamExists js sha grp =
     (let sanitized = SanitizeGroupID sha grp
      in do {
        r \<leftarrow> State (call_js (js_Stream js (ipcStreamName sanitized)));
        (case r of
           Inl err \<Rightarrow>
             if errors_Is err ErrStreamNotFound then ret (Inr False)
             else ret (Inl (Wrapf (''lookup ipc stream '' @ ipcStreamName sanitized) err))
         | Inr _ \<Rightarrow> ret (Inr True))
      })"

section \<open>Draining a consumer\<close>

text \<open>
  One turn of the loop in \<open>consume\<close> as the scheduler and the server let it happen: whether
  the context or the broker is already closed, what \<open>iter.Next\<close> returns, which case of the
  final \<open>select\<close> is taken, and whether the acknowledgement succeeds.
\<close>

datatype sel = Sent | CtxDone | BrokerClosed

record turn =
  tn_stopped :: bool
  tn_next :: "jmsg result"
  tn_ctxErr :: bool
  tn_select :: sel
  tn_ackOk :: bool

record drained =
  dr_out :: "IPCMessage list"
  dr_sent :: "nat list"
  dr_acked :: "nat list"
  dr_naked :: "nat list"
  dr_errs :: "goerr list"
  dr_done :: bool


text \<open>The message is sent to the channel before it is acknowledged.\<close>

definition consume_turn :: "(string \<Rightarrow> IPCMessage result) \<Rightarrow> turn \<Rightarrow> drained \<Rightarrow> drained" where
  "consume_turn dec t r =
     (if dr_done r then r
      else if tn_stopped t then r\<lparr>dr_done := True\<rparr>
      else case tn_next t of
        Inl err \<Rightarrow>
          if tn_ctxErr t \<or> errors_Is err ContextCanceled \<or> errors_Is err ContextDeadline
          then r\<lparr>dr_done := True\<rparr>
          else r\<lparr>dr_errs := dr_errs r @ [err], dr_done := True\<rparr>
      | Inr j \<Rightarrow>
          (case dec (j_Data j) of
             Inl err \<Rightarrow> if tn_ackOk t then r\<lparr>dr_acked := dr_acked r @ [j_Seq j]\<rparr> else r
           | Inr msg \<Rightarrow>
               (case tn_select t of
                  Sent \<Rightarrow>
                    (let r = r\<lparr>dr_out := dr_out r @ [msg\<lparr>ipc_ID := j_MsgId j\<rparr>], dr_sent := dr_sent r @ [j_Seq j]\<rparr>
                     in if tn_ackOk t then r\<lparr>dr_acked := dr_acked r @ [j_Seq j]\<rparr>
                        else r\<lparr>dr_naked := dr_naked r @ [j_Seq j], dr_done := True\<rparr>)
                | CtxDone \<Rightarrow> r\<lparr>dr_naked := dr_naked r @ [j_Seq j], dr_done := True\<rparr>
                | BrokerClosed \<Rightarrow> r\<lparr>dr_naked := dr_naked r @ [j_Seq j], dr_done := True\<rparr>)))"

definition drained0 :: drained where
  "drained0 = \<lparr>dr_out = [], dr_sent = [], dr_acked = [], dr_naked = [], dr_errs = [], dr_done = False\<rparr>"

definition consume :: "(string \<Rightarrow> IPCMessage result) \<Rightarrow> turn list \<Rightarrow> drained" where
  "consume dec ts = fold (consume_turn dec) ts drained0"

section \<open>The agent's client\<close>

record IPCClient =
  ic_group :: string
  ic_agentID :: string
  ic_defensive :: bool

definition NewIPCClient :: "string \<Rightarrow> string \<Rightarrow> bool \<Rightarrow> IPCClient result" where
  "NewIPCClient grp agentID defensive =
     (if grp = [] then Inl (Errorf ''ipc client: group is required'')
      else Inr \<lparr>ic_group = grp, ic_agentID = (if agentID = [] then DefaultAgentID else agentID),
                ic_defensive = defensive\<rparr>)"

definition client_streamName :: "sha256 \<Rightarrow> IPCClient \<Rightarrow> string" where
  "client_streamName sha c = ''KRACLAW_IPC_'' @ ToUpper (SanitizeGroupID sha (ic_group c))"

definition client_inputSubject :: "sha256 \<Rightarrow> IPCClient \<Rightarrow> string" where
  "client_inputSubject sha c =
     ''kraclaw.ipc.'' @ SanitizeGroupID sha (ic_group c) @ ''.'' @ SanitizeAgentID (ic_agentID c) @ ''.input''"

definition client_outputSubject :: "sha256 \<Rightarrow> IPCClient \<Rightarrow> string" where
  "client_outputSubject sha c =
     ''kraclaw.ipc.'' @ SanitizeGroupID sha (ic_group c) @ ''.'' @ SanitizeAgentID (ic_agentID c) @ ''.output''"

text \<open>
  The bounded wait for the consumer the server provisions: the answers of up to five
  lookups, and whether the context ends during the pause after each.
\<close>

fun fetch_consumer :: "nat \<Rightarrow> (unit result \<times> bool) list \<Rightarrow> string \<Rightarrow> unit result" where
  "fetch_consumer attempt [] consName = Inl (Errorf (''fetch input consumer '' @ consName))"
| "fetch_consumer attempt ((r, cancelled) # rest) consName =
     (case r of
        Inr _ \<Rightarrow> Inr ()
      | Inl err \<Rightarrow>
          if \<not> errors_Is err ErrConsumerNotFound \<and> \<not> errors_Is err ErrStreamNotFound
          then Inl (Wrapf (''fetch input consumer '' @ consName) err)
          else if attempt = 5 then Inl (Wrapf (''fetch input consumer '' @ consName @ '' after retries'') err)
          else if cancelled then Inl (Wrapf (''fetch input consumer '' @ consName) ContextCanceled)
          else fetch_consumer (Suc attempt) rest consName)"

section \<open>Properties of the names\<close>

lemma safe_rune_char: "agent_id_char (safe_rune r)"
  by (auto simp: safe_rune_def agent_id_char_def split: list.split)

lemma SanitizeAgentID_chars: "c \<in> set (SanitizeAgentID a) \<Longrightarrow> agent_id_char c"
  by (auto simp: SanitizeAgentID_def Let_def safe_rune_char dest!: in_set_takeD split: if_splits)

text \<open>A name of at most 32 allowed characters is kept, so two such names are sanitized alike only when they are equal.\<close>

lemma SanitizeAgentID_safe:
  assumes "list_all agent_id_char a" and "length a \<le> 32"
  shows "SanitizeAgentID a = a"
proof -
  have "\<forall>b \<in> set a. (of_char b :: nat) < 128"
    using assms(1) by (auto simp: list_all_iff agent_id_char_def Let_def)
  then have "map safe_rune (runes a) = a"
    using assms(1) by (auto simp: runes_ascii_all comp_def safe_rune_def list_all_iff intro: map_idI)
  with assms(2) show ?thesis by (simp add: SanitizeAgentID_def Let_def)
qed

lemma hex_encode_chars: "c \<in> set (hex_encode bs) \<Longrightarrow> agent_id_char c"
proof (induction bs)
  case (Cons b bs)
  have "d < 16 \<Longrightarrow> agent_id_char (hex_digit d)" for d
    using of_char_hex_digit [of d] by (auto simp: agent_id_char_def Let_def split: if_splits)
  with Cons show ?case by auto
qed simp

lemma SanitizeGroupID_chars: "c \<in> set (SanitizeGroupID sha g) \<Longrightarrow> agent_id_char c"
  by (auto simp: SanitizeGroupID_def dest: hex_encode_chars)

lemma hex_digit_inj:
  assumes "d < 16" and "e < 16" and "hex_digit d = hex_digit e"
  shows "d = e"
proof -
  have "(if d < 10 then d + 48 else d + 87) = (if e < 10 then e + 48 else e + 87)"
    using of_char_hex_digit [OF assms(1)] of_char_hex_digit [OF assms(2)] unfolding assms(3) by (rule trans [OF sym])
  then show ?thesis using assms(1,2) by (cases "d < 10"; cases "e < 10") simp_all
qed

lemma hex_encode_inj:
  "list_all (\<lambda>b. b < 256) bs \<Longrightarrow> list_all (\<lambda>b. b < 256) cs \<Longrightarrow> hex_encode bs = hex_encode cs \<Longrightarrow> bs = cs"
proof (induction bs arbitrary: cs)
  case Nil
  then show ?case by (cases cs) simp_all
next
  case (Cons b bs)
  then obtain c cs' where cs: "cs = c # cs'" by (cases cs) simp_all
  then have "b div 16 mod 16 = c div 16 mod 16" "b mod 16 = c mod 16"
    using Cons.prems hex_digit_inj [of "b div 16 mod 16" "c div 16 mod 16"] hex_digit_inj [of "b mod 16" "c mod 16"] by simp_all
  moreover have "b div 16 < 16" "c div 16 < 16" using Cons.prems cs by auto
  ultimately have "b = c" by (metis div_mod_decomp mod_less)
  with Cons cs show ?case by simp
qed

text \<open>The names of two groups are equal exactly when the first half of their hashes is.\<close>

lemma SanitizeGroupID_inj:
  assumes "\<And>s. length (sha s) = 32 \<and> list_all (\<lambda>b. b < 256) (sha s)"
  shows "SanitizeGroupID sha g = SanitizeGroupID sha g' \<longleftrightarrow> take 16 (sha g) = take 16 (sha g')"
proof -
  have "list_all (\<lambda>b. b < 256) (take 16 (sha s))" for s
    using assms [of s] by (auto simp: list_all_iff dest: in_set_takeD)
  then show ?thesis by (auto simp: SanitizeGroupID_def dest: hex_encode_inj)
qed

lemma agent_id_char_no_sep: "agent_id_char c \<Longrightarrow> c \<noteq> CHR ''.'' \<and> c \<noteq> CHR ''*'' \<and> c \<noteq> CHR ''>'' \<and> c \<noteq> CHR '' ''"
  by (auto simp: agent_id_char_def)

lemmas Split_app = Split_Cons_sep [where sep = "CHR ''.''"]
lemmas Split_last = Split_no_sep [where sep = "CHR ''.''"]

lemma no_dot: "CHR ''.'' \<notin> set (SanitizeAgentID a)" "CHR ''.'' \<notin> set (SanitizeGroupID sha g)"
  using SanitizeAgentID_chars [of "CHR ''.''" a] SanitizeGroupID_chars [of "CHR ''.''" sha g] agent_id_char_no_sep [of "CHR ''.''"]
  by auto

lemma input_tokens:
  "Split (ipcInputSubject (SanitizeGroupID sha g) a) (CHR ''.'') =
     [''kraclaw'', ''ipc'', SanitizeGroupID sha g, SanitizeAgentID a, ''input'']"
  using Split_app [of "''kraclaw''"] Split_app [of "''ipc''"] Split_app [OF no_dot(2)] Split_app [OF no_dot(1)]
  by (simp add: ipcInputSubject_def)

lemma output_tokens:
  "Split (ipcOutputSubject (SanitizeGroupID sha g) a) (CHR ''.'') =
     [''kraclaw'', ''ipc'', SanitizeGroupID sha g, SanitizeAgentID a, ''output'']"
  using Split_app [of "''kraclaw''"] Split_app [of "''ipc''"] Split_app [OF no_dot(2)] Split_app [OF no_dot(1)]
  by (simp add: ipcOutputSubject_def)

text \<open>
  C25: Whatever the group and the agent call themselves, the subjects have exactly five tokens,
  with the truncated hash of the group third and the sanitized name of the agent fourth,
  neither of them longer than 32 characters or with a character that NATS gives a meaning.
  Two input subjects, or two output subjects, are equal exactly when hash and sanitized name
  are; no input subject is an output subject. So a name cannot reach the subjects of a group
  with another hash, and names of at most 32 allowed characters are kept apart. Sanitizing
  is not injective: other names of one group may share their subjects.
\<close>

theorem ipc_subject_isolation:
  assumes "\<And>s. length (sha s) = 32 \<and> list_all (\<lambda>b. b < 256) (sha s)"
  shows "Split (ipcInputSubject (SanitizeGroupID sha g) a) (CHR ''.'') =
      [''kraclaw'', ''ipc'', SanitizeGroupID sha g, SanitizeAgentID a, ''input''] \<and>
    Split (ipcOutputSubject (SanitizeGroupID sha g) a) (CHR ''.'') =
      [''kraclaw'', ''ipc'', SanitizeGroupID sha g, SanitizeAgentID a, ''output''] \<and>
    (ipcOutputSubject (SanitizeGroupID sha g) a = ipcOutputSubject (SanitizeGroupID sha g') a' \<longleftrightarrow>
       take 16 (sha g) = take 16 (sha g') \<and> SanitizeAgentID a = SanitizeAgentID a') \<and>
    (ipcInputSubject (SanitizeGroupID sha g) a = ipcInputSubject (SanitizeGroupID sha g') a' \<longleftrightarrow>
       take 16 (sha g) = take 16 (sha g') \<and> SanitizeAgentID a = SanitizeAgentID a') \<and>
    ipcInputSubject (SanitizeGroupID sha g) a \<noteq> ipcOutputSubject (SanitizeGroupID sha g') a' \<and>
    (list_all agent_id_char a \<and> length a \<le> 32 \<longrightarrow> SanitizeAgentID a = a) \<and>
    length (SanitizeGroupID sha g) = 32 \<and> length (SanitizeAgentID a) \<le> 32 \<and>
    (\<forall>c \<in> set (SanitizeGroupID sha g) \<union> set (SanitizeAgentID a). agent_id_char c)"
proof -
  have "ipcOutputSubject (SanitizeGroupID sha g) a = ipcOutputSubject (SanitizeGroupID sha g') a' \<longleftrightarrow>
      SanitizeGroupID sha g = SanitizeGroupID sha g' \<and> SanitizeAgentID a = SanitizeAgentID a'"
    by (intro iffI; (drule arg_cong [where f = "\<lambda>s. Split s (CHR ''.'')"], simp only: output_tokens list.inject)?; simp add: ipcOutputSubject_def)
  moreover have "ipcInputSubject (SanitizeGroupID sha g) a = ipcInputSubject (SanitizeGroupID sha g') a' \<longleftrightarrow>
      SanitizeGroupID sha g = SanitizeGroupID sha g' \<and> SanitizeAgentID a = SanitizeAgentID a'"
    by (intro iffI; (drule arg_cong [where f = "\<lambda>s. Split s (CHR ''.'')"], simp only: input_tokens list.inject)?; simp add: ipcInputSubject_def)
  moreover have "ipcInputSubject (SanitizeGroupID sha g) a \<noteq> ipcOutputSubject (SanitizeGroupID sha g') a'"
    using input_tokens [of sha g a] output_tokens [of sha g' a'] by auto
  moreover have "length (SanitizeGroupID sha g) = 32" "length (SanitizeAgentID a) \<le> 32"
    using assms by (simp_all add: SanitizeGroupID_def SanitizeAgentID_def Let_def)
  ultimately show ?thesis
    using SanitizeAgentID_chars [of _ a] SanitizeGroupID_chars [of _ sha g] SanitizeAgentID_safe [of a]
    by (auto simp only: input_tokens output_tokens SanitizeGroupID_inj [of sha, OF assms])
qed

definition demo_sha :: sha256 where
  "demo_sha s = replicate 31 0 @ [length s mod 256]"

theorem ipc_subject_isolation_witness:
  "Split (ipcInputSubject (SanitizeGroupID demo_sha ''g'') ''a.b >'') (CHR ''.'') =
     [''kraclaw'', ''ipc'', SanitizeGroupID demo_sha ''g'', ''a_b__'', ''input''] \<and>
   ipcInputSubject (SanitizeGroupID demo_sha ''g'') ''a.b'' = ipcInputSubject (SanitizeGroupID demo_sha ''g'') ''a_b''"
proof -
  have sha: "length (demo_sha s) = 32 \<and> list_all (\<lambda>b. b < 256) (demo_sha s)" for s
    by (simp add: demo_sha_def list_all_iff)
  have "SanitizeAgentID ''a.b >'' = ''a_b__''" "SanitizeAgentID ''a.b'' = SanitizeAgentID ''a_b''" by code_simp+
  with ipc_subject_isolation [of demo_sha "''g''" "''a.b >''" "''g''", OF sha] ipc_subject_isolation [of demo_sha "''g''" "''a.b''" "''g''" "''a_b''", OF sha]
  show ?thesis by simp
qed

text \<open>
  The server and the agent's client compute the same stream and subjects for the same group
  and agent, so what one publishes the other reads.
\<close>

theorem client_server_agree:
  assumes "NewIPCClient g a def = Inr c"
  shows "client_streamName sha c = ipcStreamName (SanitizeGroupID sha g) \<and>
    client_inputSubject sha c = ipcInputSubject (SanitizeGroupID sha g) (if a = [] then DefaultAgentID else a) \<and>
    client_outputSubject sha c = ipcOutputSubject (SanitizeGroupID sha g) (if a = [] then DefaultAgentID else a)"
  using assms
  by (auto simp: NewIPCClient_def client_streamName_def client_inputSubject_def client_outputSubject_def
      ipcStreamName_def ipcInputSubject_def ipcOutputSubject_def split: if_splits)

theorem client_server_agree_witness:
  "client_inputSubject demo_sha \<lparr>ic_group = ''g'', ic_agentID = ''main'', ic_defensive = False\<rparr> =
     ipcInputSubject (SanitizeGroupID demo_sha ''g'') ''main''"
  using client_server_agree [of "''g''" "[]" False "\<lparr>ic_group = ''g'', ic_agentID = ''main'', ic_defensive = False\<rparr>" demo_sha]
  by (simp add: NewIPCClient_def DefaultAgentID_def)

section \<open>Properties of the consumer loop\<close>

text \<open>
  What the loop has done so far: it acknowledged only what it handed over or could not read,
  it refused a message at most once, and only as the last thing it did.
\<close>

definition drain_inv :: "(string \<Rightarrow> IPCMessage result) \<Rightarrow> nat set \<Rightarrow> drained \<Rightarrow> bool" where
  "drain_inv dec bad r \<longleftrightarrow> length (dr_out r) = length (dr_sent r) \<and>
     set (dr_acked r) \<subseteq> set (dr_sent r) \<union> bad \<and>
     set (dr_sent r) \<subseteq> set (dr_acked r) \<union> set (dr_naked r) \<and>
     length (dr_naked r) + length (dr_errs r) \<le> 1 \<and>
     (\<not> dr_done r \<longrightarrow> dr_naked r = [] \<and> dr_errs r = [])"

definition malformed_seqs :: "(string \<Rightarrow> IPCMessage result) \<Rightarrow> turn list \<Rightarrow> nat set" where
  "malformed_seqs dec ts = {j_Seq j | t j. t \<in> set ts \<and> tn_next t = Inr j \<and> \<not> is_ok (dec (j_Data j))}"

lemma consume_turn_inv:
  assumes "drain_inv dec bad r" and "\<And>j. tn_next t = Inr j \<Longrightarrow> \<not> is_ok (dec (j_Data j)) \<Longrightarrow> j_Seq j \<in> bad"
  shows "drain_inv dec bad (consume_turn dec t r)"
  using assms
  by (cases "tn_next t"; cases "tn_select t"; cases "dec (j_Data (projr (tn_next t)))")
    (auto simp: consume_turn_def drain_inv_def Let_def)

lemma fold_consume_inv:
  "set ts \<subseteq> set all \<Longrightarrow> drain_inv dec (malformed_seqs dec all) r \<Longrightarrow>
   drain_inv dec (malformed_seqs dec all) (fold (consume_turn dec) ts r)"
proof (induction ts arbitrary: r)
  case (Cons t ts)
  have "drain_inv dec (malformed_seqs dec all) (consume_turn dec t r)"
    by (rule consume_turn_inv) (use Cons.prems in \<open>auto simp: malformed_seqs_def\<close>)
  with Cons show ?case by simp
qed simp

text \<open>
  C26: The loop that feeds a Go channel from JetStream acknowledges a message only after it
  handed it to the channel, or when the message cannot be decoded; every message it handed
  over is acknowledged or, once and as the loop ends, refused for redelivery; and it
  reports at most one error, so the report never blocks.
\<close>

theorem consume_acks_after_delivery:
  "set (dr_acked (consume dec ts)) \<subseteq> set (dr_sent (consume dec ts)) \<union> malformed_seqs dec ts \<and>
   set (dr_sent (consume dec ts)) \<subseteq> set (dr_acked (consume dec ts)) \<union> set (dr_naked (consume dec ts)) \<and>
   length (dr_out (consume dec ts)) = length (dr_sent (consume dec ts)) \<and>
   length (dr_naked (consume dec ts)) + length (dr_errs (consume dec ts)) \<le> 1"
  using fold_consume_inv [of ts ts dec drained0]
  by (auto simp: drain_inv_def drained0_def consume_def)

section \<open>Properties of the broker\<close>

text \<open>The broker has a stream in its cache only if the server confirmed it since the last delete.\<close>

lemma DeleteStreams_forgets:
  "fst (run_state (DeleteStreams js sha g) b) = Inr () \<Longrightarrow>
   SanitizeGroupID sha g \<notin> set (b_streamCreated (snd (run_state (DeleteStreams js sha g) b)))"
  by (auto simp: DeleteStreams_def Let_def call_js_def split: prod.splits sum.splits if_splits)

lemma ensureStream_Inr:
  assumes "run_state (ipc_ensureStream js sha g) b = (Inr s, b')"
  shows "s = SanitizeGroupID sha g \<and> s \<in> set (b_streamCreated b') \<and>
    (s \<notin> set (b_streamCreated b) \<longrightarrow> fst (js_CreateOrUpdateStream js (ipc_stream_config s) (b_js b)) = Inr ())"
  using assms by (auto simp: ipc_ensureStream_def Let_def call_js_def split: prod.splits sum.splits if_splits)

end
