(* ===== verification/Sandbox_Model.thy ===== *)
theory Sandbox_Model
  imports Store_Types Provider_Registry Ipc_Model Go_Runes
begin

text \<open>
  \<open>internal/sandbox/controller.go\<close>, \<open>cleanup.go\<close> and the event loop of \<open>watcher.go\<close>: the
  Kubernetes resources of an agent sandbox and their lifecycle. The resource is a record
  with the fields the program sets or reads (image pull policy and resource requests are
  left out); the API server is the record \<open>kube\<close> of the
  calls over an arbitrary cluster state.
\<close>

section \<open>Data\<close>

record SandboxConfig =
  sb_GroupFolder :: string
  sb_GroupJID :: string
  sb_SessionID :: string
  sb_IsMain :: bool
  sb_Timeout :: duration
  sb_Input :: string
  sb_AssistantName :: string
  sb_Model :: string
  sb_SessionsPVC :: string
  sb_GroupsPVC :: string
  sb_DataPVC :: string
  sb_ContainerConfig :: "ContainerConfig option"

definition SandboxConfig_Validate :: "SandboxConfig \<Rightarrow> unit result" where
  "SandboxConfig_Validate c =
     (if sb_GroupFolder c = [] then Inl (Errorf ''sandbox: GroupFolder is required'')
      else if sb_GroupJID c = [] then Inl (Errorf ''sandbox: GroupJID is required'')
      else Inr ())"

datatype SandboxState = StatePending | StateRunning | StateCompleted | StateFailed

record SandboxStatus =
  st_Name :: string
  st_Group :: string
  st_State :: SandboxState
  st_StartTime :: "time option"
  st_EndTime :: "time option"

record SandboxEvent =
  ev_Type :: string
  ev_Status :: SandboxStatus

record Condition =
  cd_Type :: string
  cd_Status :: string
  cd_Reason :: string
  cd_LastTransitionTime :: time

datatype env_value = Value string | SecretRef string string

record VolumeMount =
  vm_Name :: string
  vm_MountPath :: string
  vm_SubPathExpr :: string
  vm_ReadOnly :: bool

datatype volume_source = PVC string bool | HostDir string

record Container =
  ct_Name :: string
  ct_Image :: string
  ct_Command :: "string list"
  ct_WorkingDir :: string
  ct_Env :: "(string \<times> env_value) list"
  ct_VolumeMounts :: "VolumeMount list"
  ct_RunAsUser :: "int option"
  ct_AllowPrivilegeEscalation :: "bool option"

record Sandbox =
  sx_Name :: string
  sx_Namespace :: string
  sx_Labels :: "(string \<times> string) list"
  sx_Replicas :: int
  sx_ImagePullSecrets :: "string list"
  sx_RunAsNonRoot :: bool
  sx_RunAsUser :: int
  sx_AutomountToken :: bool
  sx_RestartNever :: bool
  sx_Init :: "Container list"
  sx_Containers :: "Container list"
  sx_Volumes :: "(string \<times> volume_source) list"
  sx_Conditions :: "Condition list"

record Controller =
  k_namespace :: string
  k_agentImages :: "(string \<times> string) list"
  k_natsURL :: string
  k_proxyURL :: string
  k_natsAuthSecret :: string
  k_fastStartEnabled :: bool

record 'k kube =
  k_Create :: "Sandbox \<Rightarrow> 'k \<Rightarrow> unit result \<times> 'k"
  k_Delete :: "string \<Rightarrow> 'k \<Rightarrow> unit result \<times> 'k"
  k_Get :: "string \<Rightarrow> 'k \<Rightarrow> Sandbox result \<times> 'k"
  k_List :: "(string \<times> string) list \<Rightarrow> 'k \<Rightarrow> Sandbox list result \<times> 'k"

section \<open>Building the resource\<close>

definition labelManagedBy :: string where "labelManagedBy = ''app.kubernetes.io/managed-by''"
definition labelRole :: string where "labelRole = ''kraclaw.io/role''"
definition labelGroup :: string where "labelGroup = ''kraclaw.io/group''"

definition no_agent_image :: "string \<Rightarrow> goerr" where
  "no_agent_image prov =
     Errorf (''no agent image configured for provider '' @ Quote prov @
       (if prov = ProviderAnthropic
        then '' (set AGENT_IMAGE_ANTHROPIC); legacy AGENT_IMAGE fallback is not supported with NATS''
        else '' (set AGENT_IMAGE_'' @ ToUpper prov @ '')''))"

definition agentImageForProvider :: "Controller \<Rightarrow> string \<Rightarrow> string result" where
  "agentImageForProvider c prov =
     (let prov = (if prov = [] then ProviderAnthropic else prov)
      in case map_of (k_agentImages c) prov of
           Some img \<Rightarrow> if img \<noteq> [] then Inr img else Inl (no_agent_image prov)
         | None \<Rightarrow> Inl (no_agent_image prov))"

definition isTransientError :: "goerr \<Rightarrow> bool" where
  "isTransientError err =
     (let msg = error_text err
      in Contains msg ''connection refused'' \<or> Contains msg ''timeout'' \<or> Contains msg ''deadline exceeded'' \<or>
         Contains msg ''unavailable'' \<or> Contains msg ''temporary'')"

definition name_char :: "char \<Rightarrow> char" where
  "name_char r = (let n = (of_char r :: nat) in
     if (97 \<le> n \<and> n \<le> 122) \<or> (48 \<le> n \<and> n \<le> 57) \<or> r = CHR ''-'' then r
     else if 65 \<le> n \<and> n \<le> 90 then char_of (n + 32)
     else CHR ''-'')"

text \<open>\<open>strings.Map\<close> maps rune by rune; a rune of several bytes is none of the kept characters.\<close>

definition name_rune :: "string \<Rightarrow> char" where
  "name_rune r = (case r of [c] \<Rightarrow> name_char c | _ \<Rightarrow> CHR ''-'')"

text \<open>The three random bytes, or the error of the random source, are an argument.\<close>

definition generateSandboxName :: "nat list result \<Rightarrow> string \<Rightarrow> string result" where
  "generateSandboxName rnd folder =
     (let safe = map name_rune (runes folder);
          safe = (if length safe > 40 then take 40 safe else safe)
      in case rnd of
           Inl err \<Rightarrow> Inl err
         | Inr b \<Rightarrow> Inr (''kraclaw-agent-'' @ safe @ ''-'' @ hex_encode b))"

definition pvcName :: "string \<Rightarrow> string \<Rightarrow> string" where
  "pvcName configured defaultName = (if configured \<noteq> [] then configured else defaultName)"

abbreviation vmount :: "string \<Rightarrow> string \<Rightarrow> string \<Rightarrow> bool \<Rightarrow> VolumeMount" where
  "vmount n p s ro \<equiv> \<lparr>vm_Name = n, vm_MountPath = p, vm_SubPathExpr = s, vm_ReadOnly = ro\<rparr>"

fun add_mounts :: "nat \<Rightarrow> AdditionalMount list \<Rightarrow> (string \<times> volume_source) list \<times> VolumeMount list" where
  "add_mounts i [] = ([], [])"
| "add_mounts i (m # ms) =
     (let volName = ''extra-'' @ show_nat i;
          mountPath = (if ContainerPath m = [] then HostPath m else ContainerPath m)
      in case add_mounts (Suc i) ms of
           (vs, vms) \<Rightarrow> ((volName, HostDir (HostPath m)) # vs, vmount volName mountPath [] (ReadOnly m) # vms))"

definition provider_env :: "string \<Rightarrow> string \<Rightarrow> (string \<times> env_value) list result" where
  "provider_env providerID model =
     (if providerID = ProviderOpenAI
      then Inr [(''OPENAI_MODEL'', Value model), (''HOME'', Value ''/home/nonroot'')]
      else if providerID = ProviderAnthropic \<or> providerID = []
      then Inr [(''ANTHROPIC_MODEL'', Value model), (''HOME'', Value ''/home/nonroot'')]
      else Inl (Errorf (''sandbox: unsupported provider '' @ Quote providerID)))"

definition base_env :: "Controller \<Rightarrow> SandboxConfig \<Rightarrow> string \<Rightarrow> (string \<times> env_value) list" where
  "base_env c cfg providerID =
     [(''GROUP_FOLDER'', Value (sb_GroupFolder cfg)), (''NATS_URL'', Value (k_natsURL c)),
      (''KRACLAW_AGENT_ID'', Value DefaultAgentID), (''KRACLAW_PROXY_URL'', Value (k_proxyURL c)),
      (''KRACLAW_PROVIDER'', Value providerID), (''KRACLAW_GROUP'', Value (sb_GroupJID cfg))] @
     (if k_natsAuthSecret c \<noteq> []
      then [(''NATS_USER'', SecretRef (k_natsAuthSecret c) ''NATS_USER''),
            (''NATS_PASSWORD'', SecretRef (k_natsAuthSecret c) ''NATS_PASSWORD'')]
      else [])"

definition init_containers :: "Controller \<Rightarrow> SandboxConfig \<Rightarrow> Container list" where
  "init_containers c cfg =
     (if k_fastStartEnabled c then []
      else [\<lparr>ct_Name = ''init-dirs'', ct_Image = ''busybox'',
             ct_Command = [''sh'', ''-c'', ''mkdir -p /sessions/$(GROUP_FOLDER)/.claude && mkdir -p /groups/$(GROUP_FOLDER)/archives''],
             ct_WorkingDir = [], ct_Env = [(''GROUP_FOLDER'', Value (sb_GroupFolder cfg))],
             ct_VolumeMounts = [vmount ''sessions'' ''/sessions'' [] False, vmount ''groups'' ''/groups'' [] False],
             ct_RunAsUser = Some 1000, ct_AllowPrivilegeEscalation = Some False\<rparr>])"

definition buildSandbox :: "Controller \<Rightarrow> string \<Rightarrow> SandboxConfig \<Rightarrow> Sandbox result" where
  "buildSandbox c name cfg =
     (let providerID = (case sb_ContainerConfig cfg of None \<Rightarrow> [] | Some cc \<Rightarrow> cc_Provider cc);
          model = (case sb_ContainerConfig cfg of None \<Rightarrow> [] | Some cc \<Rightarrow> cc_Model cc);
          mounts = (case sb_ContainerConfig cfg of None \<Rightarrow> [] | Some cc \<Rightarrow> cc_AdditionalMounts cc)
      in case agentImageForProvider c providerID of
           Inl err \<Rightarrow> Inl err
         | Inr img \<Rightarrow>
             (case provider_env providerID model of
                Inl err \<Rightarrow> Inl err
              | Inr penv \<Rightarrow>
                  (let envVars = base_env c cfg providerID @ penv @
                         (if k_fastStartEnabled c then [] else [(''KRACLAW_AGENT_DEFENSIVE_STREAM'', Value ''1'')]);
                       extra = add_mounts 0 mounts
                   in Inr \<lparr>sx_Name = name, sx_Namespace = k_namespace c,
                           sx_Labels = [(labelManagedBy, ''kraclaw''), (labelRole, ''agent''), (labelGroup, sb_GroupFolder cfg)],
                           sx_Replicas = 1, sx_ImagePullSecrets = [''ghcr-pull-secret''],
                           sx_RunAsNonRoot = True, sx_RunAsUser = 1000, sx_AutomountToken = False, sx_RestartNever = True,
                           sx_Init = init_containers c cfg,
                           sx_Containers =
                             [\<lparr>ct_Name = ''agent'', ct_Image = img, ct_Command = [], ct_WorkingDir = ''/workspace'', ct_Env = envVars,
                               ct_VolumeMounts =
                                 [vmount ''sessions'' ''/home/nonroot/.claude'' ''$(GROUP_FOLDER)/.claude'' False,
                                  vmount ''groups'' ''/workspace'' ''$(GROUP_FOLDER)'' False,
                                  vmount ''data'' ''/config'' [] True] @ snd extra,
                               ct_RunAsUser = None, ct_AllowPrivilegeEscalation = None\<rparr>],
                           sx_Volumes =
                             [(''sessions'', PVC (pvcName (sb_SessionsPVC cfg) ''kraclaw-sessions'') False),
                              (''groups'', PVC (pvcName (sb_GroupsPVC cfg) ''kraclaw-groups'') False),
                              (''data'', PVC (pvcName (sb_DataPVC cfg) ''kraclaw-data'') True)] @ fst extra,
                           sx_Conditions = []\<rparr>)))"

section \<open>Status\<close>

definition apply_condition :: "Condition \<Rightarrow> SandboxStatus \<Rightarrow> SandboxStatus" where
  "apply_condition cond s =
     (if cd_Type cond = ''Ready'' then
        if cd_Status cond = ''True'' then s\<lparr>st_State := StateRunning, st_StartTime := Some (cd_LastTransitionTime cond)\<rparr>
        else if cd_Reason cond = ''Succeeded'' then s\<lparr>st_State := StateCompleted, st_EndTime := Some (cd_LastTransitionTime cond)\<rparr>
        else if cd_Reason cond = ''Failed'' then s\<lparr>st_State := StateFailed, st_EndTime := Some (cd_LastTransitionTime cond)\<rparr>
        else s
      else s)"

definition sandboxToStatus :: "Sandbox \<Rightarrow> SandboxStatus" where
  "sandboxToStatus sb =
     fold apply_condition (sx_Conditions sb)
       \<lparr>st_Name = sx_Name sb,
        st_Group = (case map_of (sx_Labels sb) labelGroup of None \<Rightarrow> [] | Some g \<Rightarrow> g),
        st_State = StatePending, st_StartTime = None, st_EndTime = None\<rparr>"

section \<open>Operations\<close>

text \<open>
  The attempts of \<open>CreateSandbox\<close>. \<open>cancelled n\<close> says that the context ends during the
  pause before attempt \<open>n\<close>. The counter runs to \<open>sandboxCreateMaxRetries\<close> = 3.
\<close>

function create_attempts :: "'k kube \<Rightarrow> Controller \<Rightarrow> string \<Rightarrow> SandboxConfig \<Rightarrow> (nat \<Rightarrow> bool) \<Rightarrow> nat \<Rightarrow> goerr \<Rightarrow> 'k \<Rightarrow> SandboxStatus result \<times> 'k" where
  "create_attempts kb c name cfg cancelled attempt lastErr k =
     (if attempt > 3 then (Inl (Wrapf ''sandbox: create sandbox failed after 3 retries'' lastErr), k)
      else if attempt > 1 \<and> cancelled attempt then (Inl ContextCanceled, k)
      else case buildSandbox c name cfg of
        Inl err \<Rightarrow> (Inl (Wrapf ''sandbox: build sandbox'' err), k)
      | Inr sb \<Rightarrow>
          (case k_Create kb sb k of
             (Inl err, k') \<Rightarrow>
               if isTransientError err then create_attempts kb c name cfg cancelled (Suc attempt) err k'
               else (Inl (Wrapf ''sandbox: create sandbox'' err), k')
           | (Inr _, k') \<Rightarrow> (Inr (sandboxToStatus sb), k')))"
  by pat_completeness auto
termination
  by (relation "measure (\<lambda>(kb, c, name, cfg, cancelled, attempt, lastErr, k). 4 - attempt)") auto

declare create_attempts.simps [simp del]

definition CreateSandbox :: "'k kube \<Rightarrow> Controller \<Rightarrow> nat list result \<Rightarrow> (nat \<Rightarrow> bool) \<Rightarrow> SandboxConfig \<Rightarrow> 'k \<Rightarrow> SandboxStatus result \<times> 'k" where
  "CreateSandbox kb c rnd cancelled cfg k =
     (case SandboxConfig_Validate cfg of
        Inl err \<Rightarrow> (Inl err, k)
      | Inr _ \<Rightarrow>
          (case generateSandboxName rnd (sb_GroupFolder cfg) of
             Inl err \<Rightarrow> (Inl (Wrapf ''sandbox: generate name'' err), k)
           | Inr name \<Rightarrow> create_attempts kb c name cfg cancelled 1 (Errorf []) k))"

definition StopSandbox :: "'k kube \<Rightarrow> string \<Rightarrow> 'k \<Rightarrow> unit result \<times> 'k" where
  "StopSandbox kb name k =
     (case k_Delete kb name k of
        (Inl err, k') \<Rightarrow> (Inl (Wrapf (''sandbox: delete sandbox '' @ name) err), k')
      | (Inr _, k') \<Rightarrow> (Inr (), k'))"

definition GetSandbox :: "'k kube \<Rightarrow> string \<Rightarrow> 'k \<Rightarrow> SandboxStatus result \<times> 'k" where
  "GetSandbox kb name k =
     (case k_Get kb name k of
        (Inl err, k') \<Rightarrow> (Inl (Wrapf (''sandbox: get sandbox '' @ name) err), k')
      | (Inr sb, k') \<Rightarrow> (Inr (sandboxToStatus sb), k'))"

definition ListSandboxes :: "'k kube \<Rightarrow> 'k \<Rightarrow> SandboxStatus list result \<times> 'k" where
  "ListSandboxes kb k =
     (case k_List kb [(labelManagedBy, ''kraclaw'')] k of
        (Inl err, k') \<Rightarrow> (Inl (Wrapf ''sandbox: list sandboxes'' err), k')
      | (Inr items, k') \<Rightarrow> (Inr (map sandboxToStatus items), k'))"

definition HasActiveSandbox :: "'k kube \<Rightarrow> string \<Rightarrow> 'k \<Rightarrow> bool result \<times> 'k" where
  "HasActiveSandbox kb groupFolder k =
     (case k_List kb [(labelManagedBy, ''kraclaw''), (labelGroup, groupFolder)] k of
        (Inl err, k') \<Rightarrow> (Inl (Wrapf (''sandbox: list sandboxes for group '' @ groupFolder) err), k')
      | (Inr items, k') \<Rightarrow>
          (Inr (list_ex (\<lambda>s. st_State s = StatePending \<or> st_State s = StateRunning) (map sandboxToStatus items)), k'))"

fun cleanup_list :: "'k kube \<Rightarrow> SandboxStatus list \<Rightarrow> 'k \<Rightarrow> 'k" where
  "cleanup_list kb [] k = k"
| "cleanup_list kb (s # ss) k =
     (case st_State s of
        StateCompleted \<Rightarrow> cleanup_list kb ss (snd (StopSandbox kb (st_Name s) k))
      | StateFailed \<Rightarrow> cleanup_list kb ss (snd (StopSandbox kb (st_Name s) k))
      | StateRunning \<Rightarrow> cleanup_list kb ss k
      | StatePending \<Rightarrow> cleanup_list kb ss k)"

definition CleanupOrphans :: "'k kube \<Rightarrow> 'k \<Rightarrow> unit result \<times> 'k" where
  "CleanupOrphans kb k =
     (case ListSandboxes kb k of
        (Inl err, k') \<Rightarrow> (Inl (Wrapf ''sandbox: list orphans'' err), k')
      | (Inr ss, k') \<Rightarrow> (Inr (), cleanup_list kb ss k'))"

section \<open>The watch loop\<close>

datatype watch_type = Added | Modified | Deleted | OtherWatch

fun watch_name :: "watch_type \<Rightarrow> string option" where
  "watch_name Added = Some ''added''"
| "watch_name Modified = Some ''updated''"
| "watch_name Deleted = Some ''deleted''"
| "watch_name OtherWatch = None"

text \<open>
  One event of the watch on a channel with the given room: \<open>Some\<close> the events now in the
  channel, \<open>None\<close> when the send of a deletion has to wait for the reader.
\<close>

definition watch_event :: "nat \<Rightarrow> watch_type \<Rightarrow> Sandbox \<Rightarrow> SandboxEvent list \<Rightarrow> SandboxEvent list option" where
  "watch_event room wt sb ch =
     (case watch_name wt of
        None \<Rightarrow> Some ch
      | Some evType \<Rightarrow>
          if length ch < room then Some (ch @ [\<lparr>ev_Type = evType, ev_Status = sandboxToStatus sb\<rparr>])
          else if wt = Deleted then None
          else Some ch)"

section \<open>Properties\<close>

definition dns_char :: "char \<Rightarrow> bool" where
  "dns_char c \<longleftrightarrow> (let n = (of_char c :: nat) in (97 \<le> n \<and> n \<le> 122) \<or> (48 \<le> n \<and> n \<le> 57) \<or> c = CHR ''-'')"

lemma name_char_dns: "dns_char (name_char c)"
  by (auto simp: dns_char_def name_char_def Let_def)

lemma name_rune_dns: "dns_char (name_rune r)"
  using name_char_dns by (auto simp: name_rune_def dns_char_def split: list.split)

lemma hex_encode_dns: "c \<in> set (hex_encode bs) \<Longrightarrow> dns_char c"
proof (induction bs)
  case (Cons b bs)
  have "d < 16 \<Longrightarrow> dns_char (hex_digit d)" for d
    using of_char_hex_digit [of d] by (auto simp: dns_char_def Let_def split: if_splits)
  with Cons show ?case by auto
qed simp

lemma hex_encode_Nil_iff [simp]: "hex_encode bs = [] \<longleftrightarrow> bs = []"
  by (cases bs) auto

lemma last_hex_encode: "bs \<noteq> [] \<Longrightarrow> last (hex_encode bs) = hex_digit (last bs mod 16)"
  by (induction bs) auto

text \<open>
  Whatever the group's folder is called, the name of its sandbox is a valid DNS label: at
  most 61 characters, lower-case letters, digits and dashes only, starting with a letter
  and not ending in a dash.
\<close>

theorem sandbox_name_dns_label:
  assumes "generateSandboxName rnd folder = Inr name" and "\<And>b. rnd = Inr b \<Longrightarrow> length b = 3"
  shows "length name \<le> 61 \<and> (\<forall>c \<in> set name. dns_char c) \<and> hd name = CHR ''k'' \<and> last name \<noteq> CHR ''-''"
proof -
  obtain b where b: "rnd = Inr b" using assms(1) by (cases rnd) (auto simp: generateSandboxName_def)
  then have len: "length b = 3" using assms(2) by blast
  let ?safe = "if length (runes folder) > 40 then take 40 (map name_rune (runes folder)) else map name_rune (runes folder)"
  have name: "name = ''kraclaw-agent-'' @ ?safe @ ''-'' @ hex_encode b"
    using assms(1) b by (auto simp: generateSandboxName_def Let_def)
  have "length name \<le> 61" using len by (simp add: name)
  moreover have "\<forall>c \<in> set name. dns_char c"
  proof -
    have "\<forall>c \<in> set ''kraclaw-agent-''. dns_char c" by (simp add: dns_char_def)
    moreover have "\<forall>c \<in> set ?safe. dns_char c" using name_rune_dns by (auto dest!: in_set_takeD)
    ultimately show ?thesis using hex_encode_dns unfolding name by auto
  qed
  moreover have "last name \<noteq> CHR ''-''"
  proof -
    have ne: "b \<noteq> []" using len by auto
    then have "last name = hex_digit (last b mod 16)" using ne by (simp add: name last_hex_encode)
    moreover have "(of_char (hex_digit (last b mod 16)) :: nat) \<noteq> of_char (CHR ''-'')"
      using of_char_hex_digit [of "last b mod 16"] by (auto split: if_splits)
    ultimately show ?thesis by metis
  qed
  ultimately show ?thesis by (simp add: name)
qed

theorem sandbox_name_dns_label_witness:
  "generateSandboxName (Inr [1, 171, 255]) ''My Group!'' = Inr ''kraclaw-agent-my-group--01abff'' \<and>
   length ''kraclaw-agent-my-group--01abff'' \<le> 61"
proof -
  have "generateSandboxName (Inr [1, 171, 255]) ''My Group!'' = Inr ''kraclaw-agent-my-group--01abff''"
    by code_simp
  with sandbox_name_dns_label [OF this] show ?thesis by simp
qed

section \<open>Properties of the resource\<close>

lemma add_mounts_match: "map vm_Name (snd (add_mounts i ms)) = map fst (fst (add_mounts i ms))"
  by (induction i ms rule: add_mounts.induct) (auto simp: Let_def split: prod.split)

lemma add_mounts_sources: "(n, v) \<in> set (fst (add_mounts i ms)) \<Longrightarrow> \<exists>m \<in> set ms. v = HostDir (HostPath m)"
  by (induction i ms rule: add_mounts.induct) (auto simp: Let_def split: prod.splits)

text \<open>
  C38: The pod of a sandbox runs as a non-root user without a service account token and is never
  restarted, carries the group's folder as its label, mounts only volumes it declares, and
  mounts the shared configuration read-only. It reaches no host directory but those of the
  group's own configuration.
\<close>

theorem buildSandbox_confined:
  assumes "buildSandbox c name cfg = Inr sb"
  shows "sx_RunAsNonRoot sb \<and> sx_RunAsUser sb = 1000 \<and> \<not> sx_AutomountToken sb \<and> sx_RestartNever sb \<and>
    st_Group (sandboxToStatus sb) = sb_GroupFolder cfg \<and>
    (\<forall>ct \<in> set (sx_Init sb) \<union> set (sx_Containers sb). vm_Name ` set (ct_VolumeMounts ct) \<subseteq> fst ` set (sx_Volumes sb)) \<and>
    (\<forall>n v. (n, HostDir v) \<in> set (sx_Volumes sb) \<longrightarrow>
       (\<exists>cc m. sb_ContainerConfig cfg = Some cc \<and> m \<in> set (cc_AdditionalMounts cc) \<and> v = HostPath m)) \<and>
    (\<exists>pvc. (''data'', PVC pvc True) \<in> set (sx_Volumes sb))"
proof -
  define ms where "ms = (case sb_ContainerConfig cfg of None \<Rightarrow> [] | Some cc \<Rightarrow> cc_AdditionalMounts cc)"
  have vols: "sx_Volumes sb = [(''sessions'', PVC (pvcName (sb_SessionsPVC cfg) ''kraclaw-sessions'') False),
      (''groups'', PVC (pvcName (sb_GroupsPVC cfg) ''kraclaw-groups'') False),
      (''data'', PVC (pvcName (sb_DataPVC cfg) ''kraclaw-data'') True)] @ fst (add_mounts 0 ms)"
    and init: "sx_Init sb = init_containers c cfg"
    and cont: "map (map vm_Name \<circ> ct_VolumeMounts) (sx_Containers sb) =
      [[''sessions'', ''groups'', ''data''] @ map vm_Name (snd (add_mounts 0 ms))]"
    and flags: "sx_RunAsNonRoot sb" "sx_RunAsUser sb = 1000" "\<not> sx_AutomountToken sb" "sx_RestartNever sb"
      "sx_Conditions sb = []"
      "sx_Labels sb = [(labelManagedBy, ''kraclaw''), (labelRole, ''agent''), (labelGroup, sb_GroupFolder cfg)]"
    using assms by (auto simp: buildSandbox_def Let_def ms_def split: sum.splits option.splits)
  have "\<forall>ct \<in> set (sx_Containers sb). map vm_Name (ct_VolumeMounts ct) = [''sessions'', ''groups'', ''data''] @ map vm_Name (snd (add_mounts 0 ms))"
    using cont by (cases "sx_Containers sb") auto
  then have "\<forall>ct \<in> set (sx_Containers sb). vm_Name ` set (ct_VolumeMounts ct) \<subseteq> fst ` set (sx_Volumes sb)"
    unfolding vols by (auto simp: add_mounts_match simp flip: set_map)
  moreover have "\<forall>ct \<in> set (sx_Init sb). vm_Name ` set (ct_VolumeMounts ct) \<subseteq> fst ` set (sx_Volumes sb)"
    unfolding init vols by (simp add: init_containers_def)
  moreover have "\<exists>cc m. sb_ContainerConfig cfg = Some cc \<and> m \<in> set (cc_AdditionalMounts cc) \<and> v = HostPath m"
    if "(n, HostDir v) \<in> set (sx_Volumes sb)" for n v
    using that add_mounts_sources [of n "HostDir v" 0 ms] by (auto simp: vols ms_def split: option.splits)
  moreover have "st_Group (sandboxToStatus sb) = sb_GroupFolder cfg"
    by (simp add: sandboxToStatus_def flags labelManagedBy_def labelRole_def labelGroup_def)
  ultimately show ?thesis using flags vols by auto
qed

definition demo_controller :: Controller where
  "demo_controller = \<lparr>k_namespace = ''kraclaw'', k_agentImages = [(''anthropic'', ''img'')], k_natsURL = ''nats://n'',
     k_proxyURL = ''http://p'', k_natsAuthSecret = ''s'', k_fastStartEnabled = False\<rparr>"

definition demo_sandbox_config :: SandboxConfig where
  "demo_sandbox_config = \<lparr>sb_GroupFolder = ''main'', sb_GroupJID = ''tui:1'', sb_SessionID = [], sb_IsMain = True, sb_Timeout = 0,
     sb_Input = [], sb_AssistantName = ''bot'', sb_Model = [], sb_SessionsPVC = [], sb_GroupsPVC = [], sb_DataPVC = [],
     sb_ContainerConfig = Some \<lparr>cc_AdditionalMounts = [\<lparr>HostPath = ''/srv'', ContainerPath = [], ReadOnly = True\<rparr>],
       cc_Timeout = 0, cc_Model = [], cc_Provider = []\<rparr>\<rparr>"

lemma demo_build: "\<exists>sb. buildSandbox demo_controller ''n'' demo_sandbox_config = Inr sb"
  by (simp add: buildSandbox_def demo_sandbox_config_def demo_controller_def agentImageForProvider_def
      ProviderAnthropic_def ProviderOpenAI_def provider_env_def Let_def)

theorem buildSandbox_confined_witness:
  "\<exists>sb. buildSandbox demo_controller ''n'' demo_sandbox_config = Inr sb \<and> sx_RunAsNonRoot sb \<and>
     st_Group (sandboxToStatus sb) = ''main''"
proof -
  obtain sb where sb: "buildSandbox demo_controller ''n'' demo_sandbox_config = Inr sb" using demo_build by blast
  from buildSandbox_confined [OF sb] show ?thesis using sb by (auto simp: demo_sandbox_config_def)
qed

section \<open>Properties of creation and cleanup\<close>

text \<open>
  A cluster that records the calls made to it, with the answers of \<open>Create\<close> given in
  advance: what the controller does depends only on the answers.
\<close>

record call_log =
  cl_creates :: "Sandbox list"
  cl_deletes :: "string list"

definition log_kube :: "(nat \<Rightarrow> unit result) \<Rightarrow> (string \<Rightarrow> unit result) \<Rightarrow> Sandbox list result \<Rightarrow> call_log kube" where
  "log_kube answers del items =
     \<lparr>k_Create = (\<lambda>sb k. (answers (length (cl_creates k)), k\<lparr>cl_creates := cl_creates k @ [sb]\<rparr>)),
      k_Delete = (\<lambda>n k. (del n, k\<lparr>cl_deletes := cl_deletes k @ [n]\<rparr>)),
      k_Get = (\<lambda>n k. (case items of
          Inl err \<Rightarrow> Inl err
        | Inr sbs \<Rightarrow> (case find (\<lambda>sb. sx_Name sb = n) sbs of None \<Rightarrow> Inl (Errorf ''not found'') | Some sb \<Rightarrow> Inr sb), k)),
      k_List = (\<lambda>sel k. (items, k))\<rparr>"

lemma log_kube_ops:
  "k_Create (log_kube a d i) sb k = (a (length (cl_creates k)), k\<lparr>cl_creates := cl_creates k @ [sb]\<rparr>)"
  "k_Delete (log_kube a d i) n k = (d n, k\<lparr>cl_deletes := cl_deletes k @ [n]\<rparr>)"
  "k_List (log_kube a d i) sel k = (i, k)"
  by (simp_all add: log_kube_def)

definition transient_prefix :: "(nat \<Rightarrow> unit result) \<Rightarrow> nat \<Rightarrow> nat \<Rightarrow> bool" where
  "transient_prefix answers a b \<longleftrightarrow> (\<forall>i. a \<le> i \<and> i < b \<longrightarrow> (\<exists>e. answers i = Inl e \<and> isTransientError e))"

lemma transient_prefix_step:
  "answers n = Inl e \<Longrightarrow> isTransientError e \<Longrightarrow> transient_prefix answers (Suc n) m \<Longrightarrow> transient_prefix answers n m"
  unfolding transient_prefix_def by (metis Suc_leI le_neq_implies_less)

lemma create_attempts_spec:
  assumes "create_attempts (log_kube answers del items) c name cfg cancelled attempt lastErr k = (r, k')"
    and "1 \<le> attempt" and "attempt \<le> 4"
  shows "\<exists>sbs. cl_creates k' = cl_creates k @ sbs \<and> length sbs \<le> 4 - attempt \<and> (\<forall>sb \<in> set sbs. sx_Name sb = name) \<and>
    (is_ok r \<longleftrightarrow> sbs \<noteq> [] \<and> answers (length (cl_creates k') - 1) = Inr ()) \<and>
    transient_prefix answers (length (cl_creates k)) (length (cl_creates k') - 1)"
  using assms
proof (induction "log_kube answers del items" c name cfg cancelled attempt lastErr k arbitrary: r k' rule: create_attempts.induct)
  case (1 c name cfg cancelled attempt lastErr k)
  show ?case
  proof (cases "attempt > 3 \<or> attempt > 1 \<and> cancelled attempt \<or> \<not> is_ok (buildSandbox c name cfg)")
    case True
    with 1 have "k' = k \<and> \<not> is_ok r"
      by (subst (asm) (2) create_attempts.simps) (auto split: if_splits sum.splits)
    then show ?thesis by (auto simp: transient_prefix_def)
  next
    case False
    then obtain sb where sb: "buildSandbox c name cfg = Inr sb" by (auto simp: is_ok_iff)
    have name: "sx_Name sb = name" using sb by (auto simp: buildSandbox_def Let_def split: sum.splits)
    let ?k = "k\<lparr>cl_creates := cl_creates k @ [sb]\<rparr>" and ?a = "answers (length (cl_creates k))"
    show ?thesis
    proof (cases "\<exists>e. ?a = Inl e \<and> isTransientError e")
      case True
      then obtain e where e: "?a = Inl e" "isTransientError e" by blast
      have "create_attempts (log_kube answers del items) c name cfg cancelled (Suc attempt) e ?k = (r, k')"
        using "1.prems"(1) False sb e by (subst (asm) create_attempts.simps) (auto simp: log_kube_ops split: if_splits)
      from "1.hyps" [OF _ _ sb _ _ _ this] False e obtain sbs where
        "cl_creates k' = cl_creates ?k @ sbs \<and> length sbs \<le> 4 - Suc attempt \<and> (\<forall>sb \<in> set sbs. sx_Name sb = name) \<and>
         (is_ok r \<longleftrightarrow> sbs \<noteq> [] \<and> answers (length (cl_creates k') - 1) = Inr ()) \<and>
         transient_prefix answers (length (cl_creates ?k)) (length (cl_creates k') - 1)"
        by (auto simp: log_kube_ops)
      moreover from this have "is_ok r \<longleftrightarrow> answers (length (cl_creates k') - 1) = Inr ()" using e(1) by auto
      ultimately show ?thesis using transient_prefix_step [of answers, OF e] False name
        by (intro exI [of _ "sb # sbs"]) (elim conjE; simp; linarith)
    next
      case nt: False
      then have "k' = ?k \<and> (is_ok r \<longleftrightarrow> ?a = Inr ())"
        using "1.prems"(1) False sb
        by (subst (asm) create_attempts.simps) (auto simp: log_kube_ops split: sum.splits if_splits)
      then show ?thesis using False name by (intro exI [of _ "[sb]"]) (auto simp: transient_prefix_def)
    qed
  qed
qed

text \<open>
  \<open>CreateSandbox\<close> asks the API server at most three times, always for the same name, and
  again only after an error it takes for transient; it succeeds exactly when the last
  request did.
\<close>

theorem CreateSandbox_attempts:
  assumes "CreateSandbox (log_kube answers del items) c rnd cancelled cfg \<lparr>cl_creates = [], cl_deletes = []\<rparr> = (r, k')"
  shows "length (cl_creates k') \<le> 3 \<and>
    (\<forall>a \<in> set (cl_creates k'). \<forall>b \<in> set (cl_creates k'). sx_Name a = sx_Name b) \<and>
    (is_ok r \<longleftrightarrow> cl_creates k' \<noteq> [] \<and> answers (length (cl_creates k') - 1) = Inr ()) \<and>
    (\<forall>i < length (cl_creates k') - 1. \<exists>e. answers i = Inl e \<and> isTransientError e)"
proof -
  let ?k = "\<lparr>cl_creates = [], cl_deletes = []\<rparr> :: call_log"
  consider "k' = ?k \<and> \<not> is_ok r"
    | name where "create_attempts (log_kube answers del items) c name cfg cancelled 1 (Errorf []) ?k = (r, k')"
    using assms by (auto simp: CreateSandbox_def split: sum.splits)
  then show ?thesis
  proof cases
    case (2 name)
    from create_attempts_spec [OF 2] show ?thesis by (auto simp: transient_prefix_def)
  qed simp
qed

definition flaky :: "nat \<Rightarrow> unit result" where
  "flaky n = (if n = 0 then Inl (Errorf ''dial tcp: connection refused'') else Inr ())"

theorem CreateSandbox_attempts_witness:
  "\<exists>r k'. CreateSandbox (log_kube flaky (\<lambda>n. Inr ()) (Inr [])) demo_controller (Inr [1, 2, 3]) (\<lambda>n. False) demo_sandbox_config
       \<lparr>cl_creates = [], cl_deletes = []\<rparr> = (r, k') \<and> length (cl_creates k') \<le> 3"
proof -
  obtain r k' where "CreateSandbox (log_kube flaky (\<lambda>n. Inr ()) (Inr [])) demo_controller (Inr [1, 2, 3]) (\<lambda>n. False) demo_sandbox_config
       \<lparr>cl_creates = [], cl_deletes = []\<rparr> = (r, k')" by fastforce
  with CreateSandbox_attempts [OF this] show ?thesis by blast
qed

lemma cleanup_list_deletes:
  "cl_deletes (cleanup_list (log_kube a d i) ss k) =
     cl_deletes k @ map st_Name (filter (\<lambda>s. st_State s = StateCompleted \<or> st_State s = StateFailed) ss)"
  by (induction ss arbitrary: k)
    (auto simp: StopSandbox_def log_kube_ops split: SandboxState.split sum.split)

text \<open>
  The cleanup of orphans deletes exactly the sandboxes of the list that have completed or
  failed, each once and whatever the other deletions return; it never deletes one that is
  pending or running.
\<close>

theorem CleanupOrphans_terminal_only:
  "CleanupOrphans (log_kube a d (Inr items)) \<lparr>cl_creates = [], cl_deletes = []\<rparr> =
     (Inr (), \<lparr>cl_creates = [], cl_deletes =
        map sx_Name (filter (\<lambda>sb. st_State (sandboxToStatus sb) \<in> {StateCompleted, StateFailed}) items)\<rparr>)"
proof -
  have name: "st_Name (fold apply_condition cs s) = st_Name s" for cs s
    by (induction cs arbitrary: s) (simp_all add: apply_condition_def)
  have "map st_Name (filter (\<lambda>s. st_State s = StateCompleted \<or> st_State s = StateFailed) (map sandboxToStatus items)) =
    map sx_Name (filter (\<lambda>sb. st_State (sandboxToStatus sb) \<in> {StateCompleted, StateFailed}) items)"
    by (induction items) (auto simp: sandboxToStatus_def name)
  moreover have "cl_creates (cleanup_list (log_kube a d i) ss k) = cl_creates k" for i ss k
    by (induction ss arbitrary: k)
      (auto simp: StopSandbox_def log_kube_ops split: SandboxState.split sum.split)
  ultimately show ?thesis
    by (auto simp: CleanupOrphans_def ListSandboxes_def log_kube_ops cleanup_list_deletes intro!: call_log.equality)
qed

end
