(* ===== verification/Mysql_Store.thy ===== *)
theory Mysql_Store
  imports Store_Types
begin

text \<open>
  \<open>internal/store/mysql.go\<close>: the tables of the schema in \<open>migrations/\<close> as lists of rows
  and every statement the store executes as a function on them, with the keys and the
  cascading foreign keys the migrations declare. A list order stands for the order in
  which the server returns rows of a query without \<open>ORDER BY\<close>. Each operation takes the
  driver's answer for its statement as a \<open>fault\<close>: \<open>None\<close> when the statement runs, an
  error when it does not, in which case no row changes.
\<close>

type_synonym fault = "goerr option"

section \<open>Tables\<close>

record group_row =
  r_group :: Group
  r_is_active :: bool
  r_last_active_at :: "time option"

record db =
  db_groups :: "group_row list"
  db_messages :: "Message list"
  db_chats :: "Chat list"
  db_tasks :: "ScheduledTask list"
  db_logs :: "TaskRunLog list"
  db_next_log :: int
  db_sessions :: "Session list"
  db_state :: "(string \<times> string) list"
  db_allow :: "SenderAllowlistEntry list"
  db_next_allow :: int

definition empty_db :: db where
  "empty_db = \<lparr>db_groups = [], db_messages = [], db_chats = [], db_tasks = [], db_logs = [],
     db_next_log = 1, db_sessions = [], db_state = [], db_allow = [], db_next_allow = 1\<rparr>"

text \<open>Columns of type \<open>TIMESTAMP(6)\<close> round to microseconds, \<open>TIMESTAMP\<close> to seconds.\<close>

definition db_time6 :: "time \<Rightarrow> time" where
  "db_time6 t = (t + 500) div 1000 * 1000"

definition db_time0 :: "time \<Rightarrow> time" where
  "db_time0 t = (t + 500000000) div Second * Second"

abbreviation row_jid :: "group_row \<Rightarrow> string" where "row_jid r \<equiv> g_JID (r_group r)"
abbreviation row_folder :: "group_row \<Rightarrow> string" where "row_folder r \<equiv> g_Folder (r_group r)"

section \<open>Groups\<close>

definition GetGroup :: "fault \<Rightarrow> string \<Rightarrow> db \<Rightarrow> Group option result" where
  "GetGroup f jid d =
     (case f of Some e \<Rightarrow> Inl (Wrapf ''scan group'' e)
      | None \<Rightarrow> Inr (map_option r_group (find (\<lambda>r. row_jid r = jid) (db_groups d))))"

definition GetGroupByFolder :: "fault \<Rightarrow> string \<Rightarrow> db \<Rightarrow> Group option result" where
  "GetGroupByFolder f folder d =
     (case f of Some e \<Rightarrow> Inl (Wrapf ''scan group'' e)
      | None \<Rightarrow> Inr (map_option r_group (find (\<lambda>r. row_folder r = folder) (db_groups d))))"

definition ListGroups :: "fault \<Rightarrow> db \<Rightarrow> Group list result" where
  "ListGroups f d =
     (case f of Some e \<Rightarrow> Inl (Wrapf ''list groups'' e)
      | None \<Rightarrow> Inr (map r_group (db_groups d)))"

definition set_group_cols :: "Group \<Rightarrow> group_row \<Rightarrow> group_row" where
  "set_group_cols g r = r\<lparr>r_group := (r_group r)\<lparr>g_Name := g_Name g, g_Folder := g_Folder g,
     g_TriggerPattern := g_TriggerPattern g, g_IsMain := g_IsMain g,
     g_RequiresTrigger := g_RequiresTrigger g, g_ContainerConfig := g_ContainerConfig g\<rparr>\<rparr>"

definition cascade_folder :: "string \<Rightarrow> string \<Rightarrow> ScheduledTask list \<Rightarrow> ScheduledTask list" where
  "cascade_folder old new ts =
     update_where (\<lambda>t. t_GroupFolder t = old) (\<lambda>t. t\<lparr>t_GroupFolder := new\<rparr>) ts"

text \<open>
  \<open>INSERT ... ON DUPLICATE KEY UPDATE\<close>: the row with the same primary key is updated,
  otherwise the row with the same unique \<open>folder\<close>, otherwise a row is inserted. An update
  that would give two rows one folder is a duplicate-key error.
\<close>

definition UpsertGroup :: "fault \<Rightarrow> Group \<Rightarrow> db \<Rightarrow> unit result \<times> db" where
  "UpsertGroup f g d =
     (case f of Some e \<Rightarrow> (Inl (Wrapf ''upsert group'' e), d)
      | None \<Rightarrow>
        (case find (\<lambda>r. row_jid r = g_JID g) (db_groups d) of
           Some old \<Rightarrow>
             if list_ex (\<lambda>r. row_jid r \<noteq> g_JID g \<and> row_folder r = g_Folder g) (db_groups d)
             then (Inl (Wrapf ''upsert group'' (MySQLError 1062 ''duplicate entry'')), d)
             else (Inr (), d\<lparr>db_groups := update_where (\<lambda>r. row_jid r = g_JID g) (set_group_cols g) (db_groups d),
                             db_tasks := cascade_folder (row_folder old) (g_Folder g) (db_tasks d)\<rparr>)
         | None \<Rightarrow>
             if list_ex (\<lambda>r. row_folder r = g_Folder g) (db_groups d)
             then (Inr (), d\<lparr>db_groups := update_where (\<lambda>r. row_folder r = g_Folder g) (set_group_cols g) (db_groups d)\<rparr>)
             else (Inr (), d\<lparr>db_groups := db_groups d @
                     [\<lparr>r_group = g\<lparr>g_AddedAt := db_time0 (g_AddedAt g)\<rparr>,
                       r_is_active = False, r_last_active_at = None\<rparr>]\<rparr>)))"

text \<open>\<open>DELETE FROM groups\<close>; tasks of the group and their run logs go with it (\<open>ON DELETE CASCADE\<close>).\<close>

definition DeleteGroup :: "fault \<Rightarrow> string \<Rightarrow> db \<Rightarrow> unit result \<times> db" where
  "DeleteGroup f jid d =
     (case f of Some e \<Rightarrow> (Inl (Wrapf ''delete group'' e), d)
      | None \<Rightarrow>
        (let gone = map row_folder (filter (\<lambda>r. row_jid r = jid) (db_groups d));
             ts = filter (\<lambda>t. t_GroupFolder t \<notin> set gone) (db_tasks d)
         in (Inr (), d\<lparr>db_groups := filter (\<lambda>r. row_jid r \<noteq> jid) (db_groups d),
                       db_tasks := ts,
                       db_logs := filter (\<lambda>l. l_TaskID l \<in> t_ID ` set ts) (db_logs d)\<rparr>)))"

section \<open>Messages\<close>

definition same_key :: "Message \<Rightarrow> Message \<Rightarrow> bool" where
  "same_key m n \<longleftrightarrow> m_ID m = m_ID n \<and> m_ChatJID m = m_ChatJID n"

definition replace_message :: "Message \<Rightarrow> Message list \<Rightarrow> Message list" where
  "replace_message m ms =
     filter (\<lambda>n. \<not> same_key m n) ms @ [m\<lparr>m_Timestamp := db_time6 (m_Timestamp m)\<rparr>]"

definition StoreMessage :: "fault \<Rightarrow> Message \<Rightarrow> db \<Rightarrow> unit result \<times> db" where
  "StoreMessage f m d =
     (case f of Some e \<Rightarrow> (Inl (Wrapf ''store message'' e), d)
      | None \<Rightarrow> (Inr (), d\<lparr>db_messages := replace_message m (db_messages d)\<rparr>))"

text \<open>One transaction: the first failing insert, or a failing commit, rolls every row back.\<close>

fun batch_insert :: "(Message \<times> fault) list \<Rightarrow> Message list \<Rightarrow> Message list result" where
  "batch_insert [] ms = Inr ms"
| "batch_insert ((m, f) # rest) ms =
     (case f of Some e \<Rightarrow> Inl (Wrapf ''batch insert message'' e)
      | None \<Rightarrow> batch_insert rest (replace_message m ms))"

definition StoreBatch :: "fault \<Rightarrow> fault \<Rightarrow> fault \<Rightarrow> (Message \<times> fault) list \<Rightarrow> db \<Rightarrow> unit result \<times> db" where
  "StoreBatch f_begin f_prepare f_commit msgs d =
     (if msgs = [] then (Inr (), d)
      else case f_begin of Some e \<Rightarrow> (Inl (Wrapf ''begin tx'' e), d)
      | None \<Rightarrow> (case f_prepare of Some e \<Rightarrow> (Inl (Wrapf ''prepare batch insert'' e), d)
      | None \<Rightarrow> (case batch_insert msgs (db_messages d) of Inl e \<Rightarrow> (Inl e, d)
      | Inr ms \<Rightarrow> (case f_commit of Some e \<Rightarrow> (Inl (Wrapf ''commit batch'' e), d)
      | None \<Rightarrow> (Inr (), d\<lparr>db_messages := ms\<rparr>)))))"

definition DeleteMessage :: "fault \<Rightarrow> string \<Rightarrow> string \<Rightarrow> db \<Rightarrow> unit result \<times> db" where
  "DeleteMessage f mid jid d =
     (case f of Some e \<Rightarrow> (Inl (Wrapf ''delete message'' e), d)
      | None \<Rightarrow> (Inr (), d\<lparr>db_messages :=
          filter (\<lambda>m. \<not> (m_ID m = mid \<and> m_ChatJID m = jid)) (db_messages d)\<rparr>))"

text \<open>
  \<open>SELECT * FROM (SELECT ... ORDER BY timestamp DESC LIMIT n) sub ORDER BY timestamp\<close>:
  the newest \<open>n\<close> matching rows, oldest first.
\<close>

definition newest :: "nat \<Rightarrow> Message list \<Rightarrow> Message list" where
  "newest n ms = sort_key m_Timestamp (take n (rev (sort_key m_Timestamp ms)))"

definition visible :: "Message \<Rightarrow> bool" where
  "visible m \<longleftrightarrow> \<not> m_IsBotMessage m \<and> m_Content m \<noteq> []"

definition GetNewMessages :: "fault \<Rightarrow> string list \<Rightarrow> time \<Rightarrow> int \<Rightarrow> db \<Rightarrow> Message list result" where
  "GetNewMessages f jids since limit d =
     (if jids = [] then Inr []
      else case f of Some e \<Rightarrow> Inl (Wrapf ''get new messages'' e)
      | None \<Rightarrow>
        if limit < 0 then Inl (Wrapf ''get new messages'' (MySQLError 1064 ''syntax error''))
        else Inr (newest (nat limit) (filter (\<lambda>m. m_Timestamp m > since \<and> m_ChatJID m \<in> set jids \<and> visible m)
                                             (db_messages d))))"

definition GetMessagesSince :: "fault \<Rightarrow> string \<Rightarrow> time \<Rightarrow> int \<Rightarrow> db \<Rightarrow> Message list result" where
  "GetMessagesSince f jid since limit d =
     (case f of Some e \<Rightarrow> Inl (Wrapf ''get messages since'' e)
      | None \<Rightarrow>
        if limit < 0 then Inl (Wrapf ''get messages since'' (MySQLError 1064 ''syntax error''))
        else Inr (newest (nat limit) (filter (\<lambda>m. m_ChatJID m = jid \<and> m_Timestamp m > since \<and> visible m)
                                             (db_messages d))))"

section \<open>Chats\<close>

definition UpsertChat :: "fault \<Rightarrow> Chat \<Rightarrow> db \<Rightarrow> unit result \<times> db" where
  "UpsertChat f c d =
     (case f of Some e \<Rightarrow> (Inl (Wrapf ''upsert chat'' e), d)
      | None \<Rightarrow>
        if list_ex (\<lambda>r. c_JID r = c_JID c) (db_chats d)
        then (Inr (), d\<lparr>db_chats := update_where (\<lambda>r. c_JID r = c_JID c)
               (\<lambda>r. r\<lparr>c_Name := c_Name c, c_Channel := c_Channel c, c_IsGroup := c_IsGroup c,
                      c_LastMessageTime := max (c_LastMessageTime r) (db_time6 (c_LastMessageTime c))\<rparr>)
               (db_chats d)\<rparr>)
        else (Inr (), d\<lparr>db_chats := db_chats d @ [c\<lparr>c_LastMessageTime := db_time6 (c_LastMessageTime c)\<rparr>]\<rparr>))"

definition GetChat :: "fault \<Rightarrow> string \<Rightarrow> db \<Rightarrow> Chat option result" where
  "GetChat f jid d =
     (case f of Some e \<Rightarrow> Inl (Wrapf ''get chat'' e)
      | None \<Rightarrow> Inr (find (\<lambda>c. c_JID c = jid) (db_chats d)))"

definition ListChats :: "fault \<Rightarrow> db \<Rightarrow> Chat list result" where
  "ListChats f d =
     (case f of Some e \<Rightarrow> Inl (Wrapf ''list chats'' e)
      | None \<Rightarrow> Inr (rev (sort_key c_LastMessageTime (db_chats d))))"

section \<open>Scheduled tasks\<close>

definition enum_ok :: "ScheduledTask \<Rightarrow> bool" where
  "enum_ok t \<longleftrightarrow>
     (case t_ScheduleType t of OtherSchedule _ \<Rightarrow> False | _ \<Rightarrow> True) \<and>
     (case t_ContextMode t of OtherContext _ \<Rightarrow> False | _ \<Rightarrow> True) \<and>
     (case t_Status t of OtherStatus _ \<Rightarrow> False | _ \<Rightarrow> True)"

text \<open>
  \<open>INSERT INTO scheduled_tasks\<close> names neither \<open>last_run\<close> nor \<open>last_result\<close>; it fails on a
  used id, on a folder that is no group's (foreign key) and on a value outside an \<open>ENUM\<close>.
\<close>

definition CreateTask :: "fault \<Rightarrow> ScheduledTask \<Rightarrow> db \<Rightarrow> unit result \<times> db" where
  "CreateTask f t d =
     (case f of Some e \<Rightarrow> (Inl (Wrapf ''create task'' e), d)
      | None \<Rightarrow>
        if \<not> enum_ok t then (Inl (Wrapf ''create task'' (MySQLError 1265 ''data truncated'')), d)
        else if list_ex (\<lambda>u. t_ID u = t_ID t) (db_tasks d)
        then (Inl (Wrapf ''create task'' (MySQLError 1062 ''duplicate entry'')), d)
        else if \<not> list_ex (\<lambda>r. row_folder r = t_GroupFolder t) (db_groups d)
        then (Inl (Wrapf ''create task'' (MySQLError 1452 ''foreign key constraint fails'')), d)
        else (Inr (), d\<lparr>db_tasks := db_tasks d @
               [t\<lparr>t_NextRun := map_option db_time0 (t_NextRun t), t_LastRun := None, t_LastResult := None,
                  t_CreatedAt := db_time0 (t_CreatedAt t)\<rparr>]\<rparr>))"

definition task_in :: "string \<Rightarrow> string \<Rightarrow> ScheduledTask \<Rightarrow> bool" where
  "task_in tid folder t \<longleftrightarrow> t_ID t = tid \<and> t_GroupFolder t = folder"

definition GetTask :: "fault \<Rightarrow> string \<Rightarrow> string \<Rightarrow> db \<Rightarrow> ScheduledTask option result" where
  "GetTask f tid folder d =
     (case f of Some e \<Rightarrow> Inl (Wrapf ''scan task'' e)
      | None \<Rightarrow> Inr (find (task_in tid folder) (db_tasks d)))"

definition ListTasks :: "fault \<Rightarrow> db \<Rightarrow> ScheduledTask list result" where
  "ListTasks f d =
     (case f of Some e \<Rightarrow> Inl (Wrapf ''list tasks'' e)
      | None \<Rightarrow> Inr (rev (sort_key t_CreatedAt (db_tasks d))))"

definition ListTasksByGroup :: "fault \<Rightarrow> string \<Rightarrow> db \<Rightarrow> ScheduledTask list result" where
  "ListTasksByGroup f folder d =
     (case f of Some e \<Rightarrow> Inl (Wrapf ''list tasks by group'' e)
      | None \<Rightarrow> Inr (rev (sort_key t_CreatedAt (filter (\<lambda>t. t_GroupFolder t = folder) (db_tasks d)))))"

definition set_task_cols :: "ScheduledTask \<Rightarrow> ScheduledTask \<Rightarrow> ScheduledTask" where
  "set_task_cols t u = u\<lparr>t_Prompt := t_Prompt t, t_ScheduleType := t_ScheduleType t,
     t_ScheduleValue := t_ScheduleValue t, t_ContextMode := t_ContextMode t,
     t_NextRun := map_option db_time0 (t_NextRun t), t_LastRun := map_option db_time0 (t_LastRun t),
     t_LastResult := t_LastResult t, t_Status := t_Status t\<rparr>"

definition UpdateTask :: "fault \<Rightarrow> ScheduledTask \<Rightarrow> db \<Rightarrow> unit result \<times> db" where
  "UpdateTask f t d =
     (case f of Some e \<Rightarrow> (Inl (Wrapf ''update task'' e), d)
      | None \<Rightarrow>
        if \<not> enum_ok t \<and> list_ex (task_in (t_ID t) (t_GroupFolder t)) (db_tasks d)
        then (Inl (Wrapf ''update task'' (MySQLError 1265 ''data truncated'')), d)
        else (Inr (), d\<lparr>db_tasks := update_where (task_in (t_ID t) (t_GroupFolder t)) (set_task_cols t) (db_tasks d)\<rparr>))"

definition DeleteTask :: "fault \<Rightarrow> string \<Rightarrow> string \<Rightarrow> db \<Rightarrow> unit result \<times> db" where
  "DeleteTask f tid folder d =
     (case f of Some e \<Rightarrow> (Inl (Wrapf ''delete task'' e), d)
      | None \<Rightarrow>
        (let ts = filter (\<lambda>t. \<not> task_in tid folder t) (db_tasks d)
         in (Inr (), d\<lparr>db_tasks := ts,
                       db_logs := filter (\<lambda>l. l_TaskID l \<in> t_ID ` set ts) (db_logs d)\<rparr>)))"

definition is_due :: "time \<Rightarrow> ScheduledTask \<Rightarrow> bool" where
  "is_due now t \<longleftrightarrow> t_Status t = TaskActive \<and> (case t_NextRun t of None \<Rightarrow> False | Some n \<Rightarrow> n \<le> now)"

definition GetDueTasks :: "fault \<Rightarrow> time \<Rightarrow> db \<Rightarrow> ScheduledTask list result" where
  "GetDueTasks f now d =
     (case f of Some e \<Rightarrow> Inl (Wrapf ''get due tasks'' e)
      | None \<Rightarrow> Inr (sort_key (\<lambda>t. the (t_NextRun t)) (filter (is_due now) (db_tasks d))))"

definition LogTaskRun :: "fault \<Rightarrow> TaskRunLog \<Rightarrow> db \<Rightarrow> unit result \<times> db" where
  "LogTaskRun f l d =
     (case f of Some e \<Rightarrow> (Inl (Wrapf ''log task run'' e), d)
      | None \<Rightarrow>
        if \<not> list_ex (\<lambda>t. t_ID t = l_TaskID l) (db_tasks d)
        then (Inl (Wrapf ''log task run'' (MySQLError 1452 ''foreign key constraint fails'')), d)
        else (Inr (), d\<lparr>db_logs := db_logs d @ [l\<lparr>l_ID := db_next_log d, l_RunAt := db_time0 (l_RunAt l)\<rparr>],
                        db_next_log := db_next_log d + 1\<rparr>))"

definition GetTaskRunLogs :: "fault \<Rightarrow> string \<Rightarrow> string \<Rightarrow> int \<Rightarrow> db \<Rightarrow> TaskRunLog list result" where
  "GetTaskRunLogs f tid folder limit d =
     (case f of Some e \<Rightarrow> Inl (Wrapf ''get task run logs'' e)
      | None \<Rightarrow>
        if limit < 0 then Inl (Wrapf ''get task run logs'' (MySQLError 1064 ''syntax error''))
        else Inr (take (nat limit) (rev (sort_key l_RunAt
               (filter (\<lambda>l. l_TaskID l = tid \<and> l_GroupFolder l = folder) (db_logs d))))))"

section \<open>Sessions, router state, allowlist\<close>

definition GetSession :: "fault \<Rightarrow> string \<Rightarrow> db \<Rightarrow> Session option result" where
  "GetSession f folder d =
     (case f of Some e \<Rightarrow> Inl (Wrapf ''get session'' e)
      | None \<Rightarrow> Inr (find (\<lambda>s. s_GroupFolder s = folder) (db_sessions d)))"

definition UpsertSession :: "fault \<Rightarrow> Session \<Rightarrow> db \<Rightarrow> unit result \<times> db" where
  "UpsertSession f s d =
     (case f of Some e \<Rightarrow> (Inl (Wrapf ''upsert session'' e), d)
      | None \<Rightarrow> (Inr (), d\<lparr>db_sessions :=
          filter (\<lambda>r. s_GroupFolder r \<noteq> s_GroupFolder s) (db_sessions d) @ [s]\<rparr>))"

definition DeleteSession :: "fault \<Rightarrow> string \<Rightarrow> db \<Rightarrow> unit result \<times> db" where
  "DeleteSession f folder d =
     (case f of Some e \<Rightarrow> (Inl (Wrapf ''delete session'' e), d)
      | None \<Rightarrow> (Inr (), d\<lparr>db_sessions := filter (\<lambda>r. s_GroupFolder r \<noteq> folder) (db_sessions d)\<rparr>))"

definition GetState :: "fault \<Rightarrow> string \<Rightarrow> db \<Rightarrow> string result" where
  "GetState f key d =
     (case f of Some e \<Rightarrow> Inl (Wrapf ''get state'' e)
      | None \<Rightarrow> Inr (case map_of (db_state d) key of None \<Rightarrow> [] | Some v \<Rightarrow> v))"

definition SetState :: "fault \<Rightarrow> string \<Rightarrow> string \<Rightarrow> db \<Rightarrow> unit result \<times> db" where
  "SetState f key val d =
     (case f of Some e \<Rightarrow> (Inl (Wrapf ''set state'' e), d)
      | None \<Rightarrow> (Inr (), d\<lparr>db_state := filter (\<lambda>kv. fst kv \<noteq> key) (db_state d) @ [(key, val)]\<rparr>))"

definition GetAllowlist :: "fault \<Rightarrow> string \<Rightarrow> db \<Rightarrow> SenderAllowlistEntry list result" where
  "GetAllowlist f jid d =
     (case f of Some e \<Rightarrow> Inl (Wrapf ''get allowlist'' e)
      | None \<Rightarrow> Inr (filter (\<lambda>a. a_ChatJID a = jid) (db_allow d)))"

definition same_pattern :: "SenderAllowlistEntry \<Rightarrow> SenderAllowlistEntry \<Rightarrow> bool" where
  "same_pattern a b \<longleftrightarrow> a_ChatJID a = a_ChatJID b \<and> a_AllowPattern a = a_AllowPattern b"

definition UpsertAllowlistEntry :: "fault \<Rightarrow> SenderAllowlistEntry \<Rightarrow> db \<Rightarrow> unit result \<times> db" where
  "UpsertAllowlistEntry f a d =
     (case f of Some e \<Rightarrow> (Inl (Wrapf ''upsert allowlist entry'' e), d)
      | None \<Rightarrow>
        if list_ex (same_pattern a) (db_allow d)
        then (Inr (), d\<lparr>db_allow := update_where (same_pattern a) (\<lambda>b. b\<lparr>a_Mode := a_Mode a\<rparr>) (db_allow d)\<rparr>)
        else (Inr (), d\<lparr>db_allow := db_allow d @ [a\<lparr>a_ID := db_next_allow d\<rparr>],
                        db_next_allow := db_next_allow d + 1\<rparr>))"

definition DeleteAllowlistEntry :: "fault \<Rightarrow> int \<Rightarrow> db \<Rightarrow> unit result \<times> db" where
  "DeleteAllowlistEntry f aid d =
     (case f of Some e \<Rightarrow> (Inl (Wrapf ''delete allowlist entry'' e), d)
      | None \<Rightarrow> (Inr (), d\<lparr>db_allow := filter (\<lambda>a. a_ID a \<noteq> aid) (db_allow d)\<rparr>))"

section \<open>The active flag of a group\<close>

text \<open>
  The driver reports the rows an \<open>UPDATE\<close> changed, not the rows it matched, so a group
  that is already in the requested state counts 0 rows and is looked up again. The three
  faults are those of the update, of \<open>RowsAffected\<close> and of that second query.
\<close>

definition requireGroupExists :: "fault \<Rightarrow> string \<Rightarrow> string \<Rightarrow> db \<Rightarrow> unit result" where
  "requireGroupExists f jid op d =
     (case f of Some e \<Rightarrow> Inl (Wrapf (op @ '' check existence'') e)
      | None \<Rightarrow> if list_ex (\<lambda>r. row_jid r = jid) (db_groups d) then Inr ()
                else Inl (Wrapf op ErrGroupNotFound))"

definition update_rows :: "string \<Rightarrow> (group_row \<Rightarrow> group_row) \<Rightarrow> db \<Rightarrow> db" where
  "update_rows jid h d = d\<lparr>db_groups := update_where (\<lambda>r. row_jid r = jid) h (db_groups d)\<rparr>"

definition changed_rows :: "string \<Rightarrow> (group_row \<Rightarrow> group_row) \<Rightarrow> db \<Rightarrow> nat" where
  "changed_rows jid h d = length (filter (\<lambda>r. row_jid r = jid \<and> h r \<noteq> r) (db_groups d))"

definition mark_active :: "time \<Rightarrow> group_row \<Rightarrow> group_row" where
  "mark_active now r = r\<lparr>r_is_active := True, r_last_active_at := Some (now div Second * Second)\<rparr>"

definition MarkGroupActive :: "fault \<Rightarrow> fault \<Rightarrow> fault \<Rightarrow> time \<Rightarrow> string \<Rightarrow> db \<Rightarrow> unit result \<times> db" where
  "MarkGroupActive f f_rows f_exists now jid d =
     (case f of Some e \<Rightarrow> (Inl (Wrapf ''mark group active'' e), d)
      | None \<Rightarrow>
        (let d' = update_rows jid (mark_active now) d
         in case f_rows of Some e \<Rightarrow> (Inl (Wrapf ''mark group active rows affected'' e), d')
         | None \<Rightarrow> if changed_rows jid (mark_active now) d = 0
                   then (requireGroupExists f_exists jid ''mark group active'' d', d')
                   else (Inr (), d')))"

definition mark_inactive :: "group_row \<Rightarrow> group_row" where
  "mark_inactive r = r\<lparr>r_is_active := False\<rparr>"

definition MarkGroupInactive :: "fault \<Rightarrow> fault \<Rightarrow> fault \<Rightarrow> string \<Rightarrow> db \<Rightarrow> unit result \<times> db" where
  "MarkGroupInactive f f_rows f_exists jid d =
     (case f of Some e \<Rightarrow> (Inl (Wrapf ''mark group inactive'' e), d)
      | None \<Rightarrow>
        (let d' = update_rows jid mark_inactive d
         in case f_rows of Some e \<Rightarrow> (Inl (Wrapf ''mark group inactive rows affected'' e), d')
         | None \<Rightarrow> if changed_rows jid mark_inactive d = 0
                   then (requireGroupExists f_exists jid ''mark group inactive'' d', d')
                   else (Inr (), d')))"

definition IsGroupActive :: "fault \<Rightarrow> string \<Rightarrow> db \<Rightarrow> bool result" where
  "IsGroupActive f jid d =
     (case f of Some e \<Rightarrow> Inl (Wrapf ''is group active'' e)
      | None \<Rightarrow> Inr (case find (\<lambda>r. row_jid r = jid) (db_groups d) of
                       None \<Rightarrow> False | Some r \<Rightarrow> r_is_active r))"

definition ActiveGroupCount :: "fault \<Rightarrow> db \<Rightarrow> int result" where
  "ActiveGroupCount f d =
     (case f of Some e \<Rightarrow> Inl (Wrapf ''active group count'' e)
      | None \<Rightarrow> Inr (int (length (filter r_is_active (db_groups d)))))"

definition ActiveGroupJIDs :: "fault \<Rightarrow> db \<Rightarrow> string list result" where
  "ActiveGroupJIDs f d =
     (case f of Some e \<Rightarrow> Inl (Wrapf ''active group jids'' e)
      | None \<Rightarrow> Inr (map row_jid (filter r_is_active (db_groups d))))"

end
