(* ===== verification/Store_Props.thy ===== *)
theory Store_Props
  imports Mysql_Store
begin

text \<open>
  The schema invariant of the tables and that every statement of the store keeps it under
  every pattern of driver faults; the meaning of the message queries; group scoping of the
  task statements; and the interface \<open>active_store\<close> of the active flag, which the queue
  delegates to, with its interpretation by the store.
\<close>

section \<open>Schema invariant\<close>

definition groups_wf :: "group_row list \<Rightarrow> bool" where
  "groups_wf gs \<longleftrightarrow> distinct (map row_jid gs) \<and> distinct (map row_folder gs)"

definition msgs_wf :: "Message list \<Rightarrow> bool" where
  "msgs_wf ms \<longleftrightarrow> distinct (map (\<lambda>m. (m_ID m, m_ChatJID m)) ms)"

definition tasks_wf :: "group_row list \<Rightarrow> ScheduledTask list \<Rightarrow> bool" where
  "tasks_wf gs ts \<longleftrightarrow> distinct (map t_ID ts) \<and>
     (\<forall>t \<in> set ts. enum_ok t \<and> t_GroupFolder t \<in> row_folder ` set gs)"

definition logs_wf :: "ScheduledTask list \<Rightarrow> TaskRunLog list \<Rightarrow> bool" where
  "logs_wf ts ls \<longleftrightarrow> l_TaskID ` set ls \<subseteq> t_ID ` set ts"

definition allow_wf :: "int \<Rightarrow> SenderAllowlistEntry list \<Rightarrow> bool" where
  "allow_wf n as \<longleftrightarrow> distinct (map (\<lambda>a. (a_ChatJID a, a_AllowPattern a)) as) \<and>
     distinct (map a_ID as) \<and> (\<forall>a \<in> set as. a_ID a < n)"

definition db_wf :: "db \<Rightarrow> bool" where
  "db_wf d \<longleftrightarrow> groups_wf (db_groups d) \<and> msgs_wf (db_messages d) \<and>
     distinct (map c_JID (db_chats d)) \<and> tasks_wf (db_groups d) (db_tasks d) \<and>
     logs_wf (db_tasks d) (db_logs d) \<and> distinct (map s_GroupFolder (db_sessions d)) \<and>
     distinct (map fst (db_state d)) \<and> allow_wf (db_next_allow d) (db_allow d)"

text \<open>The writing statements of the store, and a run of them with the driver's answers.\<close>

datatype store_op =
    OpUpsertGroup fault Group
  | OpDeleteGroup fault string
  | OpStoreMessage fault Message
  | OpStoreBatch fault fault fault "(Message \<times> fault) list"
  | OpDeleteMessage fault string string
  | OpUpsertChat fault Chat
  | OpCreateTask fault ScheduledTask
  | OpUpdateTask fault ScheduledTask
  | OpDeleteTask fault string string
  | OpLogTaskRun fault TaskRunLog
  | OpUpsertSession fault Session
  | OpDeleteSession fault string
  | OpSetState fault string string
  | OpUpsertAllowlistEntry fault SenderAllowlistEntry
  | OpDeleteAllowlistEntry fault int
  | OpMarkGroupActive fault fault fault time string
  | OpMarkGroupInactive fault fault fault string

fun store_step :: "db \<Rightarrow> store_op \<Rightarrow> db" where
  "store_step d (OpUpsertGroup f g) = snd (UpsertGroup f g d)"
| "store_step d (OpDeleteGroup f j) = snd (DeleteGroup f j d)"
| "store_step d (OpStoreMessage f m) = snd (StoreMessage f m d)"
| "store_step d (OpStoreBatch f1 f2 f3 ms) = snd (StoreBatch f1 f2 f3 ms d)"
| "store_step d (OpDeleteMessage f i j) = snd (DeleteMessage f i j d)"
| "store_step d (OpUpsertChat f c) = snd (UpsertChat f c d)"
| "store_step d (OpCreateTask f t) = snd (CreateTask f t d)"
| "store_step d (OpUpdateTask f t) = snd (UpdateTask f t d)"
| "store_step d (OpDeleteTask f i j) = snd (DeleteTask f i j d)"
| "store_step d (OpLogTaskRun f l) = snd (LogTaskRun f l d)"
| "store_step d (OpUpsertSession f s) = snd (UpsertSession f s d)"
| "store_step d (OpDeleteSession f j) = snd (DeleteSession f j d)"
| "store_step d (OpSetState f k v) = snd (SetState f k v d)"
| "store_step d (OpUpsertAllowlistEntry f a) = snd (UpsertAllowlistEntry f a d)"
| "store_step d (OpDeleteAllowlistEntry f i) = snd (DeleteAllowlistEntry f i d)"
| "store_step d (OpMarkGroupActive f1 f2 f3 n j) = snd (MarkGroupActive f1 f2 f3 n j d)"
| "store_step d (OpMarkGroupInactive f1 f2 f3 j) = snd (MarkGroupInactive f1 f2 f3 j d)"

definition store_run :: "db \<Rightarrow> store_op list \<Rightarrow> db" where
  "store_run d ops = foldl store_step d ops"

subsection \<open>Rows and keys\<close>

lemma set_group_cols_simps [simp]:
  "row_jid (set_group_cols g r) = row_jid r"
  "row_folder (set_group_cols g r) = g_Folder g"
  "r_is_active (set_group_cols g r) = r_is_active r"
  "g_AddedAt (r_group (set_group_cols g r)) = g_AddedAt (r_group r)"
  by (simp_all add: set_group_cols_def)

lemma set_task_cols_simps [simp]:
  "t_ID (set_task_cols t u) = t_ID u"
  "t_GroupFolder (set_task_cols t u) = t_GroupFolder u"
  "t_ChatJID (set_task_cols t u) = t_ChatJID u"
  "t_Status (set_task_cols t u) = t_Status t"
  "enum_ok (set_task_cols t u) = enum_ok t"
  by (simp_all add: set_task_cols_def enum_ok_def)

lemma enum_ok_cols [simp]:
  "enum_ok (t\<lparr>t_GroupFolder := x\<rparr>) = enum_ok t" "enum_ok (t\<lparr>t_NextRun := n\<rparr>) = enum_ok t"
  "enum_ok (t\<lparr>t_LastRun := n\<rparr>) = enum_ok t" "enum_ok (t\<lparr>t_LastResult := r\<rparr>) = enum_ok t"
  "enum_ok (t\<lparr>t_CreatedAt := c\<rparr>) = enum_ok t"
  by (simp_all add: enum_ok_def)

lemma mark_simps [simp]:
  "r_group (mark_active now r) = r_group r" "r_group (mark_inactive r) = r_group r"
  "r_is_active (mark_active now r)" "\<not> r_is_active (mark_inactive r)"
  by (simp_all add: mark_active_def mark_inactive_def)

lemma find_row_jid:
  "find (\<lambda>r. row_jid r = j) gs = Some r \<Longrightarrow> r \<in> set gs \<and> row_jid r = j"
  by (auto simp: find_Some_iff in_set_conv_nth)

lemma find_None_jid: "find P xs = None \<longleftrightarrow> (\<forall>x \<in> set xs. \<not> P x)"
  by (auto simp: find_None_iff)

subsection \<open>Every statement keeps the invariant\<close>

lemma tasks_wf_mono:
  "tasks_wf gs ts \<Longrightarrow> row_folder ` set gs \<subseteq> row_folder ` set gs' \<Longrightarrow> tasks_wf gs' ts"
  by (auto simp: tasks_wf_def)

lemma tasks_wf_filter: "tasks_wf gs ts \<Longrightarrow> tasks_wf gs (filter P ts)"
  by (auto simp: tasks_wf_def distinct_map_filter)

lemma logs_wf_filter: "logs_wf ts (filter (\<lambda>l. l_TaskID l \<in> t_ID ` set ts) ls)"
  by (auto simp: logs_wf_def)

lemma logs_wf_ids: "t_ID ` set ts = t_ID ` set ts' \<Longrightarrow> logs_wf ts ls = logs_wf ts' ls"
  by (simp add: logs_wf_def)

lemma cascade_map_ids [simp]: "map t_ID (cascade_folder a b ts) = map t_ID ts"
  by (simp add: cascade_folder_def map_update_where)

lemma cascade_ids [simp]: "t_ID ` set (cascade_folder a b ts) = t_ID ` set ts"
  by (metis cascade_map_ids list.set_map)

lemma groups_wf_upd:
  assumes "groups_wf gs" and "\<forall>r \<in> set gs. row_jid r \<noteq> j \<longrightarrow> row_folder r \<noteq> g_Folder g"
  shows "groups_wf (update_where (\<lambda>r. row_jid r = j) (set_group_cols g) gs)"
  using assms distinct_update_where [of row_jid gs row_folder "set_group_cols g" "g_Folder g" j]
  by (simp add: groups_wf_def map_update_where)

lemma upd_folder_keys [simp]:
  "map row_folder (update_where (\<lambda>r. row_folder r = g_Folder g) (set_group_cols g) gs) = map row_folder gs"
  "map row_jid (update_where P (set_group_cols g) gs) = map row_jid gs"
  by (rule map_update_where, simp)+

lemma upd_folder_image [simp]:
  "row_folder ` set (update_where (\<lambda>r. row_folder r = g_Folder g) (set_group_cols g) gs) = row_folder ` set gs"
  by (metis list.set_map upd_folder_keys(1))

lemma UpsertGroup_cases:
  obtains (fail) e where "UpsertGroup f g d = (Inl e, d)"
  | (jid) old where "UpsertGroup f g d = (Inr (), d\<lparr>
        db_groups := update_where (\<lambda>r. row_jid r = g_JID g) (set_group_cols g) (db_groups d),
        db_tasks := cascade_folder (row_folder old) (g_Folder g) (db_tasks d)\<rparr>)"
      "find (\<lambda>r. row_jid r = g_JID g) (db_groups d) = Some old"
      "\<forall>r \<in> set (db_groups d). row_jid r \<noteq> g_JID g \<longrightarrow> row_folder r \<noteq> g_Folder g"
  | (folder) "UpsertGroup f g d = (Inr (), d\<lparr>
        db_groups := update_where (\<lambda>r. row_folder r = g_Folder g) (set_group_cols g) (db_groups d)\<rparr>)"
      "\<forall>r \<in> set (db_groups d). row_jid r \<noteq> g_JID g"
      "\<exists>r \<in> set (db_groups d). row_folder r = g_Folder g"
  | (new) "UpsertGroup f g d = (Inr (), d\<lparr>db_groups := db_groups d @
        [\<lparr>r_group = g\<lparr>g_AddedAt := db_time0 (g_AddedAt g)\<rparr>, r_is_active = False, r_last_active_at = None\<rparr>]\<rparr>)"
      "\<forall>r \<in> set (db_groups d). row_jid r \<noteq> g_JID g \<and> row_folder r \<noteq> g_Folder g"
proof (cases f)
  case None
  note f = this
  show thesis
  proof (cases "find (\<lambda>r. row_jid r = g_JID g) (db_groups d)")
    case None
    then have *: "\<forall>r \<in> set (db_groups d). row_jid r \<noteq> g_JID g" by (simp add: find_None_jid)
    show thesis
    proof (cases "\<exists>r \<in> set (db_groups d). row_folder r = g_Folder g")
      case True
      then show thesis using f None * by (intro folder) (simp_all add: UpsertGroup_def list_ex_iff)
    next
      case False
      then show thesis using f None * by (intro new) (simp_all add: UpsertGroup_def list_ex_iff)
    qed
  next
    case (Some old)
    show thesis
    proof (cases "\<exists>r \<in> set (db_groups d). row_jid r \<noteq> g_JID g \<and> row_folder r = g_Folder g")
      case True
      then show thesis using f Some by (intro fail) (simp add: UpsertGroup_def list_ex_iff)
    next
      case False
      then show thesis using f Some by (intro jid [of old]) (auto simp: UpsertGroup_def list_ex_iff)
    qed
  qed
next
  case (Some e)
  then show thesis by (intro fail) (simp add: UpsertGroup_def)
qed

lemma tasks_wf_cascade:
  assumes ts: "tasks_wf gs ts" and wf: "groups_wf gs"
    and old: "find (\<lambda>r. row_jid r = j) gs = Some old"
  shows "tasks_wf (update_where (\<lambda>r. row_jid r = j) (set_group_cols g) gs)
           (cascade_folder (row_folder old) (g_Folder g) ts)"
proof -
  let ?gs = "update_where (\<lambda>r. row_jid r = j) (set_group_cols g) gs"
  have o: "old \<in> set gs" "row_jid old = j" using find_row_jid [OF old] by auto
  have "set_group_cols g old \<in> set ?gs" using o by (auto simp: set_update_where)
  then have new: "g_Folder g \<in> row_folder ` set ?gs" by force
  have keep: "row_folder r \<in> row_folder ` set ?gs" if "r \<in> set gs" "row_folder r \<noteq> row_folder old" for r
  proof -
    have "row_jid r \<noteq> j" using that o wf by (auto simp: groups_wf_def distinct_map dest: inj_onD)
    then have "r \<in> set ?gs" using that by (auto simp: set_update_where)
    then show ?thesis by simp
  qed
  have "enum_ok t \<and> t_GroupFolder t \<in> row_folder ` set ?gs"
    if "t \<in> set (cascade_folder (row_folder old) (g_Folder g) ts)" for t
  proof -
    from that obtain u where u: "u \<in> set ts"
      "t = (if t_GroupFolder u = row_folder old then u\<lparr>t_GroupFolder := g_Folder g\<rparr> else u)"
      unfolding cascade_folder_def set_update_where by blast
    moreover obtain r where "r \<in> set gs" "t_GroupFolder u = row_folder r"
      using ts u(1) by (auto simp: tasks_wf_def)
    ultimately show ?thesis using ts new keep [of r] by (simp add: tasks_wf_def)
  qed
  then show ?thesis using ts unfolding tasks_wf_def cascade_map_ids by blast
qed

lemma UpsertGroup_wf:
  assumes "db_wf d"
  shows "db_wf (snd (UpsertGroup f g d))"
proof (cases f g d rule: UpsertGroup_cases)
  case (jid old)
  then show ?thesis using assms
    by (auto simp: db_wf_def logs_wf_def intro!: groups_wf_upd tasks_wf_cascade)
next
  case folder
  then show ?thesis using assms
    by (auto simp: db_wf_def groups_wf_def elim: tasks_wf_mono)
next
  case new
  then show ?thesis using assms
    by (auto simp: db_wf_def groups_wf_def tasks_wf_def)
qed (use assms in simp)

lemma DeleteGroup_wf: "db_wf d \<Longrightarrow> db_wf (snd (DeleteGroup f j d))"
proof (cases f)
  case None
  assume wf: "db_wf d"
  let ?gone = "map row_folder (filter (\<lambda>r. row_jid r = j) (db_groups d))"
  have "t_GroupFolder t \<in> row_folder ` set (filter (\<lambda>r. row_jid r \<noteq> j) (db_groups d))"
    if t: "t \<in> set (db_tasks d)" and out: "t_GroupFolder t \<notin> set ?gone" for t
  proof -
    obtain r where "r \<in> set (db_groups d)" "t_GroupFolder t = row_folder r"
      using t wf by (auto simp: db_wf_def tasks_wf_def)
    moreover have "row_jid r \<noteq> j"
    proof
      assume "row_jid r = j"
      with calculation have "t_GroupFolder t \<in> set ?gone" by (simp add: rev_image_eqI)
      with out show False ..
    qed
    ultimately show ?thesis by (simp add: rev_image_eqI)
  qed
  then show ?thesis
    using None wf
    by (auto simp: DeleteGroup_def Let_def db_wf_def groups_wf_def tasks_wf_def logs_wf_def distinct_map_filter)
qed (simp add: DeleteGroup_def)

lemma replace_message_wf: "msgs_wf ms \<Longrightarrow> msgs_wf (replace_message m ms)"
  by (auto simp: msgs_wf_def replace_message_def same_key_def distinct_map_filter)

lemma batch_insert_wf: "batch_insert xs ms = Inr ms' \<Longrightarrow> msgs_wf ms \<Longrightarrow> msgs_wf ms'"
  by (induction xs ms rule: batch_insert.induct) (auto simp: replace_message_wf split: option.splits)

lemma StoreMessage_wf: "db_wf d \<Longrightarrow> db_wf (snd (StoreMessage f m d))"
  by (auto simp: StoreMessage_def db_wf_def replace_message_wf split: option.split)

lemma StoreBatch_wf: "db_wf d \<Longrightarrow> db_wf (snd (StoreBatch f1 f2 f3 ms d))"
  by (auto simp: StoreBatch_def db_wf_def intro: batch_insert_wf split: option.split sum.split)

lemma DeleteMessage_wf: "db_wf d \<Longrightarrow> db_wf (snd (DeleteMessage f i j d))"
  by (auto simp: DeleteMessage_def db_wf_def msgs_wf_def distinct_map_filter split: option.split)

lemma UpsertChat_wf: "db_wf d \<Longrightarrow> db_wf (snd (UpsertChat f c d))"
  by (auto simp: UpsertChat_def db_wf_def map_update_where list_ex_iff split: option.split)

lemma CreateTask_wf: "db_wf d \<Longrightarrow> db_wf (snd (CreateTask f t d))"
  by (auto simp: CreateTask_def db_wf_def tasks_wf_def logs_wf_def list_ex_iff
      intro: rev_image_eqI split: option.split)

lemma UpdateTask_wf:
  assumes "db_wf d"
  shows "db_wf (snd (UpdateTask f t d))"
proof -
  let ?ts = "update_where (task_in (t_ID t) (t_GroupFolder t)) (set_task_cols t) (db_tasks d)"
  have "map t_ID ?ts = map t_ID (db_tasks d)" "t_ID ` set ?ts = t_ID ` set (db_tasks d)"
    by (simp_all add: map_update_where image_update_where)
  moreover have "\<forall>u \<in> set ?ts. enum_ok u \<and> t_GroupFolder u \<in> row_folder ` set (db_groups d)"
    if "enum_ok t \<or> \<not> list_ex (task_in (t_ID t) (t_GroupFolder t)) (db_tasks d)"
    using that assms by (auto simp: db_wf_def tasks_wf_def set_update_where list_ex_iff)
  ultimately show ?thesis
    using assms by (auto simp: UpdateTask_def db_wf_def tasks_wf_def logs_wf_def split: option.split)
qed

lemma DeleteTask_wf: "db_wf d \<Longrightarrow> db_wf (snd (DeleteTask f i j d))"
  by (auto simp: DeleteTask_def Let_def db_wf_def logs_wf_def intro: tasks_wf_filter split: option.split)

lemma LogTaskRun_wf: "db_wf d \<Longrightarrow> db_wf (snd (LogTaskRun f l d))"
  by (auto simp: LogTaskRun_def db_wf_def logs_wf_def list_ex_iff
      intro: rev_image_eqI split: option.split)

lemma session_wf:
  "db_wf d \<Longrightarrow> db_wf (snd (UpsertSession f s d))"
  "db_wf d \<Longrightarrow> db_wf (snd (DeleteSession f j d))"
  "db_wf d \<Longrightarrow> db_wf (snd (SetState f k v d))"
  by (auto simp: UpsertSession_def DeleteSession_def SetState_def db_wf_def distinct_map_filter split: option.split)

lemma UpsertAllowlistEntry_wf: "db_wf d \<Longrightarrow> db_wf (snd (UpsertAllowlistEntry f a d))"
  by (auto simp: UpsertAllowlistEntry_def db_wf_def allow_wf_def map_update_where set_update_where
      list_ex_iff same_pattern_def split: option.split) 

lemma DeleteAllowlistEntry_wf: "db_wf d \<Longrightarrow> db_wf (snd (DeleteAllowlistEntry f i d))"
  by (auto simp: DeleteAllowlistEntry_def db_wf_def allow_wf_def distinct_map_filter split: option.split)

lemma update_rows_wf:
  "(\<And>r. r_group (h r) = r_group r) \<Longrightarrow> db_wf d \<Longrightarrow> db_wf (update_rows j h d)"
  by (auto simp: update_rows_def db_wf_def groups_wf_def map_update_where image_update_where elim!: tasks_wf_mono)

lemma mark_wf:
  "db_wf d \<Longrightarrow> db_wf (snd (MarkGroupActive f1 f2 f3 n j d))"
  "db_wf d \<Longrightarrow> db_wf (snd (MarkGroupInactive f1 f2 f3 j d))"
  by (auto simp: MarkGroupActive_def MarkGroupInactive_def Let_def intro!: update_rows_wf split: option.split)

lemmas store_wf = UpsertGroup_wf DeleteGroup_wf StoreMessage_wf StoreBatch_wf DeleteMessage_wf
  UpsertChat_wf CreateTask_wf UpdateTask_wf DeleteTask_wf LogTaskRun_wf session_wf
  UpsertAllowlistEntry_wf DeleteAllowlistEntry_wf mark_wf

lemma store_step_wf: "db_wf d \<Longrightarrow> db_wf (store_step d x)"
  by (cases x) (simp_all add: store_wf)

text \<open>
  Whatever sequence of writing statements the store executes from the empty schema, and
  whichever of them the driver fails, the tables keep their keys: group ids and folders,
  message keys, task ids, sessions, state keys and allowlist patterns stay unique, every
  task belongs to a registered folder and every run log to a task.
\<close>

theorem store_schema_invariant: "db_wf (store_run empty_db ops)"
proof -
  have "db_wf d \<Longrightarrow> db_wf (store_run d ops)" for d
    by (induction ops arbitrary: d) (simp_all add: store_run_def store_step_wf)
  moreover have "db_wf empty_db"
    by (simp add: db_wf_def empty_db_def groups_wf_def msgs_wf_def tasks_wf_def logs_wf_def allow_wf_def)
  ultimately show ?thesis by blast
qed

section \<open>Message queries\<close>

lemma newest_mset:
  "mset (newest n ms) + mset (take (length ms - n) (sort_key m_Timestamp ms)) = mset ms"
proof -
  let ?s = "sort_key m_Timestamp ms"
  have "mset (newest n ms) = mset (drop (length ms - n) ?s)"
    by (simp add: newest_def take_rev)
  then show ?thesis
    by (metis add.commute append_take_drop_id mset_append mset_sort)
qed

lemma length_newest [simp]: "length (newest n ms) = min n (length ms)"
  by (simp add: newest_def)

lemma sorted_newest: "sorted (map m_Timestamp (newest n ms))"
  by (simp add: newest_def)

lemma newest_subset: "set (newest n ms) \<subseteq> set ms"
  by (auto simp: newest_def dest: in_set_takeD)

lemma newest_all: "length ms \<le> n \<Longrightarrow> mset (newest n ms) = mset ms"
  using newest_mset [of n ms] by simp

lemma newest_are_newest:
  assumes "x \<in># mset ms - mset (newest n ms)" and "y \<in> set (newest n ms)"
  shows "m_Timestamp x \<le> m_Timestamp y"
proof -
  let ?s = "sort_key m_Timestamp ms" and ?k = "length ms - n"
  have x: "x \<in> set (take ?k ?s)"
    using assms(1) newest_mset [of n ms] by (metis add_diff_cancel_left' set_mset_mset)
  have y: "y \<in> set (drop ?k ?s)"
    using assms(2) by (simp add: newest_def take_rev)
  have "sorted (map m_Timestamp (take ?k ?s @ drop ?k ?s))" by simp
  then show ?thesis using x y by (simp only: map_append sorted_append) auto
qed

definition pending :: "string \<Rightarrow> time \<Rightarrow> db \<Rightarrow> Message list" where
  "pending jid since d =
     filter (\<lambda>m. m_ChatJID m = jid \<and> m_Timestamp m > since \<and> visible m) (db_messages d)"

text \<open>
  \<open>GetMessagesSince\<close> returns messages of the requested chat newer than the cursor, in
  time order, and all of them when there are at most \<open>limit\<close>. When there are more, it
  returns \<open>limit\<close> of them and leaves out the oldest ones: every message left out is no
  newer than every message returned.
\<close>

theorem GetMessagesSince_newest:
  assumes "GetMessagesSince f jid since limit d = Inr ms"
  shows "sorted (map m_Timestamp ms) \<and> set ms \<subseteq> set (pending jid since d) \<and>
    length ms = min (nat limit) (length (pending jid since d)) \<and>
    (length (pending jid since d) \<le> nat limit \<longrightarrow> mset ms = mset (pending jid since d)) \<and>
    (\<forall>x \<in># mset (pending jid since d) - mset ms. \<forall>y \<in> set ms. m_Timestamp x \<le> m_Timestamp y)"
proof -
  have ms: "ms = newest (nat limit) (pending jid since d)"
    using assms by (auto simp: GetMessagesSince_def pending_def split: option.splits if_splits)
  show ?thesis
    by (simp add: ms sorted_newest newest_subset newest_all) (blast intro: newest_are_newest)
qed

definition demo_msg :: "string \<Rightarrow> string \<Rightarrow> time \<Rightarrow> Message" where
  "demo_msg i j t = \<lparr>m_ID = i, m_ChatJID = j, m_Sender = ''u'', m_SenderName = ''U'',
     m_Content = ''hello'', m_Timestamp = t, m_IsFromMe = False, m_IsBotMessage = False\<rparr>"

definition demo_db :: db where
  "demo_db = empty_db\<lparr>db_messages :=
     [demo_msg ''1'' ''g'' 1000, demo_msg ''2'' ''g'' 2000, demo_msg ''3'' ''h'' 2500, demo_msg ''4'' ''g'' 3000]\<rparr>"

lemmas demo_defs = demo_msg_def demo_db_def empty_db_def

theorem GetMessagesSince_newest_witness:
  "GetMessagesSince None ''g'' 500 2 demo_db = Inr [demo_msg ''2'' ''g'' 2000, demo_msg ''4'' ''g'' 3000] \<and>
   length (pending ''g'' 500 demo_db) = 3 \<and>
   sorted (map m_Timestamp [demo_msg ''2'' ''g'' 2000, demo_msg ''4'' ''g'' 3000])"
proof -
  have "GetMessagesSince None ''g'' 500 2 demo_db = Inr [demo_msg ''2'' ''g'' 2000, demo_msg ''4'' ''g'' 3000]"
    by (simp add: GetMessagesSince_def newest_def visible_def demo_defs)
  then show ?thesis
    using GetMessagesSince_newest [of None "''g''" 500 2 demo_db]
    by (simp add: pending_def visible_def demo_defs)
qed

section \<open>Group scoping of tasks\<close>

definition others_tasks :: "string \<Rightarrow> db \<Rightarrow> ScheduledTask list" where
  "others_tasks folder d = filter (\<lambda>u. t_GroupFolder u \<noteq> folder) (db_tasks d)"

lemma filter_update_where:
  "(\<And>u. P u \<Longrightarrow> \<not> Q u \<and> \<not> Q (h u)) \<Longrightarrow> filter Q (update_where P h us) = filter Q us"
  by (induction us) (auto simp: update_where_def)

lemma UpdateTask_others: "others_tasks (t_GroupFolder t) (snd (UpdateTask f t d)) = others_tasks (t_GroupFolder t) d"
  by (auto simp: UpdateTask_def others_tasks_def task_in_def intro!: filter_update_where split: option.split)

lemma DeleteTask_others: "others_tasks folder (snd (DeleteTask f tid folder d)) = others_tasks folder d"
  by (auto simp: DeleteTask_def others_tasks_def Let_def task_in_def intro!: filter_cong split: option.split)

lemma CreateTask_others: "others_tasks (t_GroupFolder t) (snd (CreateTask f t d)) = others_tasks (t_GroupFolder t) d"
  by (auto simp: CreateTask_def others_tasks_def split: option.split)

section \<open>The active flag as an interface\<close>

definition active_in :: "db \<Rightarrow> string \<Rightarrow> bool" where
  "active_in d jid \<longleftrightarrow> (\<exists>r \<in> set (db_groups d). row_jid r = jid \<and> r_is_active r)"

locale active_store =
  fixes inv :: "'s \<Rightarrow> bool"
    and active :: "'s \<Rightarrow> string \<Rightarrow> bool"
    and mark :: "'f \<Rightarrow> string \<Rightarrow> 's \<Rightarrow> unit result \<times> 's"
    and unmark :: "'f \<Rightarrow> string \<Rightarrow> 's \<Rightarrow> unit result \<times> 's"
    and count :: "'s \<Rightarrow> int"
  assumes inv_mark: "inv s \<Longrightarrow> inv (snd (mark f j s))"
    and inv_unmark: "inv s \<Longrightarrow> inv (snd (unmark f j s))"
    and mark_ok: "fst (mark f j s) = Inr () \<Longrightarrow> active (snd (mark f j s)) = (active s)(j := True)"
    and unmark_ok: "fst (unmark f j s) = Inr () \<Longrightarrow> active (snd (unmark f j s)) = (active s)(j := False)"
    and mark_frame: "k \<noteq> j \<Longrightarrow> active (snd (mark f j s)) k = active s k"
    and unmark_frame: "k \<noteq> j \<Longrightarrow> active (snd (unmark f j s)) k = active s k"
    and unmark_only: "active (snd (unmark f j s)) k \<Longrightarrow> active s k"
    and finite_active: "finite {j. active s j}"
    and count_card: "inv s \<Longrightarrow> count s = int (card {j. active s j})"
begin

lemma mark_then_active: "fst (mark f j s) = Inr () \<Longrightarrow> active (snd (mark f j s)) j"
  by (simp add: mark_ok)

lemma unmark_then_inactive: "fst (unmark f j s) = Inr () \<Longrightarrow> \<not> active (snd (unmark f j s)) j"
  by (simp add: unmark_ok)

lemma count_mark:
  assumes "inv s" and "fst (mark f j s) = Inr ()"
  shows "count (snd (mark f j s)) = (if active s j then count s else count s + 1)"
proof -
  have "{k. active (snd (mark f j s)) k} = insert j {k. active s k}"
    using assms(2) by (auto simp: mark_ok)
  then show ?thesis
    using assms finite_active [of s] by (auto simp: count_card inv_mark insert_absorb)
qed

lemma count_unmark_le: "inv s \<Longrightarrow> count (snd (unmark f j s)) \<le> count s"
proof -
  assume "inv s"
  moreover have "{k. active (snd (unmark f j s)) k} \<subseteq> {k. active s k}"
    using unmark_only by blast
  ultimately show ?thesis
    using card_mono [OF finite_active] by (simp add: count_card inv_unmark)
qed

lemma count_unmark:
  assumes "inv s" and "fst (unmark f j s) = Inr ()"
  shows "count (snd (unmark f j s)) = (if active s j then count s - 1 else count s)"
proof -
  have *: "{k. active (snd (unmark f j s)) k} = {k. active s k} - {j}"
    using assms(2) by (auto simp: unmark_ok)
  show ?thesis
  proof (cases "active s j")
    case True
    then have "int (card ({k. active s k} - {j})) = int (card {k. active s k}) - 1"
      using finite_active [of s] by (simp add: card_Suc_Diff1 [symmetric] del: card_Diff_insert)
    with True show ?thesis using assms by (simp add: count_card inv_unmark *)
  next
    case False
    with assms show ?thesis by (simp add: count_card inv_unmark *)
  qed
qed

end

lemma active_update_rows:
  assumes "\<And>r. r_group (h r) = r_group r" and "\<And>r. r_is_active (h r) = b"
  shows "active_in (update_rows j h d) k =
    (if k = j then b \<and> (\<exists>r \<in> set (db_groups d). row_jid r = j) else active_in d k)"
proof -
  have *: "active_in (update_rows j h d) k \<longleftrightarrow>
      (\<exists>r \<in> set (db_groups d). row_jid r = k \<and> (if row_jid r = j then b else r_is_active r))"
    unfolding active_in_def update_rows_def
    by (simp add: bex_update_where) (rule bex_cong [OF refl], simp add: assms)
  show ?thesis unfolding * by (auto simp: active_in_def)
qed

lemma row_exists_update_rows:
  "(\<And>r. r_group (h r) = r_group r) \<Longrightarrow>
   (\<exists>r \<in> set (db_groups (update_rows j h d)). row_jid r = k) \<longleftrightarrow> (\<exists>r \<in> set (db_groups d). row_jid r = k)"
  by (simp add: update_rows_def bex_update_where if_distrib cong: if_cong)

lemma changed_rows_exists: "changed_rows j h d \<noteq> 0 \<Longrightarrow> \<exists>r \<in> set (db_groups d). row_jid r = j"
  by (auto simp: changed_rows_def filter_empty_conv)

lemma requireGroupExists_Inr:
  "requireGroupExists f j op d = Inr () \<Longrightarrow> \<exists>r \<in> set (db_groups d). row_jid r = j"
  by (auto simp: requireGroupExists_def list_ex_iff split: option.splits if_splits)

lemma mark_cols [simp]:
  "r_group (mark_active n r) = r_group r" "r_is_active (mark_active n r)"
  "r_group (mark_inactive r) = r_group r" "\<not> r_is_active (mark_inactive r)"
  by (simp_all add: mark_active_def mark_inactive_def)

lemma MarkGroupActive_ok:
  "fst (MarkGroupActive f1 f2 f3 n j d) = Inr () \<Longrightarrow>
   snd (MarkGroupActive f1 f2 f3 n j d) = update_rows j (mark_active n) d \<and>
   (\<exists>r \<in> set (db_groups d). row_jid r = j)"
  using changed_rows_exists [of j "mark_active n" d] requireGroupExists_Inr [of f3 j _ "update_rows j (mark_active n) d"]
  by (auto simp: MarkGroupActive_def Let_def row_exists_update_rows mark_cols simp del: bex_simps split: option.splits if_splits)

lemma MarkGroupInactive_ok:
  "fst (MarkGroupInactive f1 f2 f3 j d) = Inr () \<Longrightarrow>
   snd (MarkGroupInactive f1 f2 f3 j d) = update_rows j mark_inactive d"
  by (auto simp: MarkGroupInactive_def Let_def split: option.splits if_splits)

lemma fault_MarkGroupActive: "fst (MarkGroupActive f1 f2 f3 n j d) = Inr () \<Longrightarrow> f1 = None"
  by (auto simp: MarkGroupActive_def split: option.splits)

lemma fault_MarkGroupInactive: "fst (MarkGroupInactive f1 f2 f3 j d) = Inr () \<Longrightarrow> f1 = None"
  by (auto simp: MarkGroupInactive_def split: option.splits)

lemma snd_Mark:
  "snd (MarkGroupActive f1 f2 f3 n j d) = (if f1 = None then update_rows j (mark_active n) d else d)"
  "snd (MarkGroupInactive f1 f2 f3 j d) = (if f1 = None then update_rows j mark_inactive d else d)"
  by (auto simp: MarkGroupActive_def MarkGroupInactive_def Let_def split: option.splits)

lemma active_Mark:
  "active_in (snd (MarkGroupActive f1 f2 f3 n j d)) k =
     (if f1 = None \<and> k = j then \<exists>r \<in> set (db_groups d). row_jid r = j else active_in d k)"
  "active_in (snd (MarkGroupInactive f1 f2 f3 j d)) k =
     (if f1 = None \<and> k = j then False else active_in d k)"
  by (simp_all add: snd_Mark active_update_rows [where b = True] active_update_rows [where b = False])

lemma active_set: "{j. active_in d j} = row_jid ` set (filter r_is_active (db_groups d))"
  by (auto simp: active_in_def)

lemma active_count_card:
  "db_wf d \<Longrightarrow> length (filter r_is_active (db_groups d)) = card {j. active_in d j}"
proof -
  assume "db_wf d"
  then have "distinct (map row_jid (filter r_is_active (db_groups d)))"
    by (simp add: db_wf_def groups_wf_def distinct_map_filter)
  then show ?thesis
    by (metis active_set distinct_card length_map list.set_map)
qed

type_synonym mark_faults = "fault \<times> fault \<times> fault \<times> time"

definition store_mark :: "mark_faults \<Rightarrow> string \<Rightarrow> db \<Rightarrow> unit result \<times> db" where
  "store_mark fs j d = (case fs of (f1, f2, f3, n) \<Rightarrow> MarkGroupActive f1 f2 f3 n j d)"

definition store_unmark :: "mark_faults \<Rightarrow> string \<Rightarrow> db \<Rightarrow> unit result \<times> db" where
  "store_unmark fs j d = (case fs of (f1, f2, f3, n) \<Rightarrow> MarkGroupInactive f1 f2 f3 j d)"

definition store_count :: "db \<Rightarrow> int" where
  "store_count d = (case ActiveGroupCount None d of Inr n \<Rightarrow> n | Inl _ \<Rightarrow> 0)"

lemmas store_mark_defs = store_mark_def store_unmark_def

interpretation mysql_active: active_store db_wf active_in store_mark store_unmark store_count
proof unfold_locales
  fix s f j k
  show "db_wf s \<Longrightarrow> db_wf (snd (store_mark f j s))" "db_wf s \<Longrightarrow> db_wf (snd (store_unmark f j s))"
    by (auto simp: store_mark_defs mark_wf split: prod.split)
  show "fst (store_mark f j s) = Inr () \<Longrightarrow> active_in (snd (store_mark f j s)) = (active_in s)(j := True)"
    using MarkGroupActive_ok fault_MarkGroupActive
    by (fastforce simp: store_mark_defs active_Mark fun_eq_iff split: prod.splits)
  show "fst (store_unmark f j s) = Inr () \<Longrightarrow> active_in (snd (store_unmark f j s)) = (active_in s)(j := False)"
    using fault_MarkGroupInactive by (fastforce simp: store_mark_defs active_Mark fun_eq_iff split: prod.splits)
  show "k \<noteq> j \<Longrightarrow> active_in (snd (store_mark f j s)) k = active_in s k"
    "k \<noteq> j \<Longrightarrow> active_in (snd (store_unmark f j s)) k = active_in s k"
    by (auto simp: store_mark_defs active_Mark split: prod.split)
  show "active_in (snd (store_unmark f j s)) k \<Longrightarrow> active_in s k"
    by (auto simp: store_mark_defs active_Mark split: prod.splits if_splits)
  show "finite {j. active_in s j}" by (simp add: active_set)
  show "db_wf s \<Longrightarrow> store_count s = int (card {j. active_in s j})"
    by (simp add: store_count_def ActiveGroupCount_def active_count_card)
qed

end
