(* ===== verification/Queue_Model.thy ===== *)
theory Queue_Model
  imports Ipc_Model Store_Props
begin

text \<open>
  \<open>internal/queue/nats_queue.go\<close>: one JetStream work queue per group, and the active set,
  which the queue keeps in the MySQL store. JetStream is a parameter; the theorem on the work queue
  assumes nothing of it. The active set is an interpretation of the interface \<open>active_store\<close>.
\<close>

section \<open>State and names\<close>

record QueueMessage =
  q_GroupJID :: string
  q_Content :: string
  q_Sender :: string
  q_Timestamp :: time
  q_IsTask :: bool
  q_TaskID :: string

definition NewQueueMessage :: "string \<Rightarrow> string \<Rightarrow> QueueMessage result" where
  "NewQueueMessage groupJID content =
     (if groupJID = [] then Inl (Errorf ''queue message: GroupJID must not be empty'')
      else Inr \<lparr>q_GroupJID = groupJID, q_Content = content, q_Sender = [], q_Timestamp = 0,
                q_IsTask = False, q_TaskID = []\<rparr>)"

record 'x nats_queue =
  nq_streams :: "string list"
  nq_consumers :: "string list"
  nq_js :: 'x

record queue_codec =
  q_marshal :: "QueueMessage \<Rightarrow> string result"
  q_unmarshal :: "string \<Rightarrow> QueueMessage result"

definition queueStreamName :: "string \<Rightarrow> string" where
  "queueStreamName sanitized = ''KRACLAW_QUEUE_'' @ ToUpper sanitized"

definition queueSubject :: "string \<Rightarrow> string" where
  "queueSubject sanitized = ''kraclaw.queue.'' @ sanitized"

definition queue_stream_config :: "string \<Rightarrow> stream_config" where
  "queue_stream_config sanitized =
     \<lparr>sc_Name = queueStreamName sanitized, sc_Subjects = [queueSubject sanitized],
      sc_Retention = WorkQueuePolicy, sc_MaxAge = 24 * 60 * Minute\<rparr>"

definition call_q :: "('x \<Rightarrow> 'a \<times> 'x) \<Rightarrow> ('x nats_queue, 'a) state" where
  "call_q f = State (\<lambda>q. case f (nq_js q) of (r, x) \<Rightarrow> (r, q\<lparr>nq_js := x\<rparr>))"

section \<open>Operations\<close>

definition q_ensureStream :: "'x jetstream \<Rightarrow> sha256 \<Rightarrow> string \<Rightarrow> ('x nats_queue, string result) state" where
  "q_ensureStream js sha groupJID =
     (let sanitized = SanitizeGroupID sha groupJID; name = queueStreamName sanitized;
          create = do {
            r \<leftarrow> call_q (js_CreateOrUpdateStream js (queue_stream_config sanitized));
            (case r of
               Inl err \<Rightarrow> ret (Inl (Wrapf (''ensure queue stream '' @ name) err))
             | Inr _ \<Rightarrow> do {
                 modify (\<lambda>q. q\<lparr>nq_streams := List.insert sanitized (nq_streams q)\<rparr>);
                 ret (Inr sanitized) })
          }
      in do {
        cached \<leftarrow> gets nq_streams;
        if sanitized \<in> set cached then do {
          r \<leftarrow> call_q (js_Stream js name);
          (case r of
             Inr _ \<Rightarrow> ret (Inr sanitized)
           | Inl _ \<Rightarrow> do {
               modify (\<lambda>q. q\<lparr>nq_streams := removeAll sanitized (nq_streams q)\<rparr>);
               create })
        } else create
      })"

definition Enqueue :: "'x jetstream \<Rightarrow> sha256 \<Rightarrow> queue_codec \<Rightarrow> string \<Rightarrow> QueueMessage \<Rightarrow> ('x nats_queue, unit result) state" where
  "Enqueue js sha cd groupJID msg = do {
     r \<leftarrow> q_ensureStream js sha groupJID;
     (case r of
        Inl err \<Rightarrow> ret (Inl (Wrapf ''enqueue ensure stream'' err))
      | Inr sanitized \<Rightarrow>
          (case q_marshal cd msg of
             Inl err \<Rightarrow> ret (Inl (Wrapf ''marshal queue message'' err))
           | Inr data \<Rightarrow> do {
               r \<leftarrow> call_q (js_Publish js (queueSubject sanitized) data);
               (case r of Inl err \<Rightarrow> ret (Inl (Wrapf ''publish queue message'' err)) | Inr _ \<Rightarrow> ret (Inr ())) }))
   }"

definition fatal_fetch :: "goerr \<Rightarrow> bool" where
  "fatal_fetch err \<longleftrightarrow> errors_Is err ErrConsumerNotFound \<or> errors_Is err ErrConsumerDeleted \<or> errors_Is err ErrStreamNotFound"

definition drop_consumer :: "string \<Rightarrow> ('x nats_queue, unit) state" where
  "drop_consumer sanitized = modify (\<lambda>q. q\<lparr>nq_consumers := removeAll sanitized (nq_consumers q)\<rparr>)"

text \<open>The cached consumer, or a new one; consumers are durable and named after the group.\<close>

definition queue_consumer :: "'x jetstream \<Rightarrow> string \<Rightarrow> ('x nats_queue, unit result) state" where
  "queue_consumer js sanitized = do {
     cached \<leftarrow> gets nq_consumers;
     if sanitized \<in> set cached then ret (Inr ())
     else do {
       r \<leftarrow> call_q (js_CreateOrUpdateConsumer js (queueStreamName sanitized)
              \<lparr>co_Durable = ''dequeue-'' @ sanitized, co_FilterSubject = []\<rparr>);
       (case r of
          Inl err \<Rightarrow> ret (Inl (Wrapf ''create dequeue consumer'' err))
        | Inr _ \<Rightarrow> do {
            modify (\<lambda>q. q\<lparr>nq_consumers := List.insert sanitized (nq_consumers q)\<rparr>);
            ret (Inr ()) })
     }
   }"

definition Dequeue :: "'x jetstream \<Rightarrow> sha256 \<Rightarrow> queue_codec \<Rightarrow> string \<Rightarrow> ('x nats_queue, QueueMessage option result) state" where
  "Dequeue js sha cd groupJID = do {
     r \<leftarrow> q_ensureStream js sha groupJID;
     (case r of
        Inl err \<Rightarrow> ret (Inl (Wrapf ''dequeue ensure stream'' err))
      | Inr sanitized \<Rightarrow> do {
          c \<leftarrow> queue_consumer js sanitized;
          (case c of
             Inl err \<Rightarrow> ret (Inl err)
           | Inr _ \<Rightarrow> do {
               m \<leftarrow> call_q (js_Fetch js (queueStreamName sanitized) (''dequeue-'' @ sanitized));
               (case m of
                  FetchError err \<Rightarrow> do {
                    (if fatal_fetch err then drop_consumer sanitized else ret ());
                    ret (Inl (Wrapf ''fetch queue message'' err)) }
                | FetchMsg msg \<Rightarrow>
                    (case q_unmarshal cd (j_Data msg) of
                       Inl _ \<Rightarrow> do {
                         a \<leftarrow> call_q (js_Ack js (queueStreamName sanitized) msg);
                         (case a of
                            Inl err \<Rightarrow> ret (Inl (Wrapf ''dequeue: malformed message ack'' err))
                          | Inr _ \<Rightarrow> ret (Inr None)) }
                     | Inr qm \<Rightarrow> do {
                         a \<leftarrow> call_q (js_Ack js (queueStreamName sanitized) msg);
                         (case a of
                            Inl err \<Rightarrow> ret (Inl (Wrapf ''dequeue: ack'' err))
                          | Inr _ \<Rightarrow> ret (Inr (Some qm))) })
                | FetchEnd None \<Rightarrow> ret (Inr None)
                | FetchEnd (Some err) \<Rightarrow>
                    if errors_Is err ErrMsgIteratorClosed then ret (Inr None)
                    else do {
                      (if fatal_fetch err \<or> errors_Is err ErrNoResponders then drop_consumer sanitized else ret ());
                      (if \<not> errors_Is err ErrNatsTimeout \<and> \<not> errors_Is err ErrNoMessages
                       then ret (Inl (Wrapf ''fetch error'' err)) else ret (Inr None)) }) }) })
   }"

definition Peek :: "'x jetstream \<Rightarrow> sha256 \<Rightarrow> queue_codec \<Rightarrow> string \<Rightarrow> ('x nats_queue, QueueMessage option result) state" where
  "Peek js sha cd groupJID = do {
     r \<leftarrow> q_ensureStream js sha groupJID;
     (case r of
        Inl err \<Rightarrow> ret (Inl (Wrapf ''peek ensure stream'' err))
      | Inr sanitized \<Rightarrow> do {
          _ \<leftarrow> call_q (js_DeleteConsumer js (queueStreamName sanitized) (''peek-'' @ sanitized));
          i \<leftarrow> call_q (js_Info js (queueStreamName sanitized));
          (case i of
             Inl err \<Rightarrow> ret (Inl (Wrapf ''peek: stream info'' err))
           | Inr (msgs, firstSeq) \<Rightarrow>
               if msgs = 0 then ret (Inr None)
               else do {
                 raw \<leftarrow> call_q (js_GetMsg js (queueStreamName sanitized) firstSeq);
                 (case raw of
                    Inl err \<Rightarrow>
                      if errors_Is err ErrMsgNotFound then ret (Inr None)
                      else ret (Inl (Wrapf ''peek: get msg'' err))
                  | Inr data \<Rightarrow>
                      (case q_unmarshal cd data of
                         Inl err \<Rightarrow> ret (Inl (Wrapf ''peek: unmarshal message'' err))
                       | Inr qm \<Rightarrow> ret (Inr (Some qm)))) }) })
   }"

definition Len :: "'x jetstream \<Rightarrow> sha256 \<Rightarrow> string \<Rightarrow> ('x nats_queue, int result) state" where
  "Len js sha groupJID = do {
     r \<leftarrow> q_ensureStream js sha groupJID;
     (case r of
        Inl err \<Rightarrow> ret (Inl (Wrapf ''len ensure stream'' err))
      | Inr sanitized \<Rightarrow> do {
          i \<leftarrow> call_q (js_Info js (queueStreamName sanitized));
          (case i of
             Inl err \<Rightarrow> ret (Inl (Wrapf ''stream info'' err))
           | Inr (msgs, firstSeq) \<Rightarrow> ret (Inr (int msgs))) })
   }"

section \<open>The active set\<close>

definition wrap_err :: "string \<Rightarrow> 'a result \<Rightarrow> 'a result" where
  "wrap_err m r = (case r of Inl e \<Rightarrow> Inl (Wrapf m e) | Inr v \<Rightarrow> Inr v)"

definition q_MarkActive :: "mark_faults \<Rightarrow> string \<Rightarrow> db \<Rightarrow> unit result \<times> db" where
  "q_MarkActive fs jid d = (case store_mark fs jid d of (r, d') \<Rightarrow> (wrap_err ''mark active'' r, d'))"

definition q_MarkInactive :: "mark_faults \<Rightarrow> string \<Rightarrow> db \<Rightarrow> unit result \<times> db" where
  "q_MarkInactive fs jid d = (case store_unmark fs jid d of (r, d') \<Rightarrow> (wrap_err ''mark inactive'' r, d'))"

definition q_IsActive :: "fault \<Rightarrow> string \<Rightarrow> db \<Rightarrow> bool result" where
  "q_IsActive f jid d = wrap_err ''is active'' (IsGroupActive f jid d)"

definition q_ActiveCount :: "fault \<Rightarrow> db \<Rightarrow> int result" where
  "q_ActiveCount f d = wrap_err ''active count'' (ActiveGroupCount f d)"

definition q_ActiveJIDs :: "fault \<Rightarrow> db \<Rightarrow> string list result" where
  "q_ActiveJIDs f d = wrap_err ''active jids'' (ActiveGroupJIDs f d)"

lemma wrap_err_Inr [simp]: "wrap_err m r = Inr v \<longleftrightarrow> r = Inr v"
  by (cases r) (simp_all add: wrap_err_def)

lemma q_mark_simps:
  "snd (q_MarkActive fs j d) = snd (store_mark fs j d)"
  "snd (q_MarkInactive fs j d) = snd (store_unmark fs j d)"
  "fst (q_MarkActive fs j d) = Inr () \<longleftrightarrow> fst (store_mark fs j d) = Inr ()"
  "fst (q_MarkInactive fs j d) = Inr () \<longleftrightarrow> fst (store_unmark fs j d) = Inr ()"
  by (simp_all add: q_MarkActive_def q_MarkInactive_def split: prod.split)

interpretation queue_active: active_store db_wf active_in q_MarkActive q_MarkInactive store_count
  by unfold_locales
    (simp_all add: q_mark_simps mysql_active.inv_mark mysql_active.inv_unmark mysql_active.mark_ok mysql_active.unmark_ok
      mysql_active.mark_frame mysql_active.unmark_frame mysql_active.unmark_only mysql_active.finite_active mysql_active.count_card)

lemma IsGroupActive_active_in: "db_wf d \<Longrightarrow> IsGroupActive None jid d = Inr (active_in d jid)"
proof -
  assume wf: "db_wf d"
  show ?thesis
  proof (cases "find (\<lambda>r. row_jid r = jid) (db_groups d)")
    case None
    then have "\<forall>r \<in> set (db_groups d). row_jid r \<noteq> jid" by (simp add: find_None_iff)
    with None show ?thesis by (auto simp: IsGroupActive_def active_in_def)
  next
    case (Some r)
    then have r: "r \<in> set (db_groups d)" "row_jid r = jid" by (auto simp: find_Some_iff)
    have "inj_on row_jid (set (db_groups d))"
      using wf by (simp add: db_wf_def groups_wf_def distinct_map)
    then have "s = r" if "s \<in> set (db_groups d)" "row_jid s = jid" for s
      using inj_onD [of row_jid "set (db_groups d)" s r] that r by simp
    then have "active_in d jid = r_is_active r" unfolding active_in_def using r by blast
    then show ?thesis using Some by (simp add: IsGroupActive_def)
  qed
qed

text \<open>
  C23: The active set behaves as a set: a successful \<open>MarkActive\<close> makes exactly this group
  active and raises the count by one unless it already was, a successful
  \<open>MarkInactive\<close> makes exactly this group inactive, and \<open>IsActive\<close> and
  \<open>ActiveCount\<close> report membership and size, whatever faults came before.
\<close>

theorem queue_active_set:
  assumes "db_wf d" and "fst (q_MarkActive fs j d) = Inr ()"
  defines "d' \<equiv> snd (q_MarkActive fs j d)"
  shows "q_IsActive None k d' = Inr (k = j \<or> active_in d k) \<and>
    q_ActiveCount None d' = Inr (store_count d + (if active_in d j then 0 else 1)) \<and>
    (fst (q_MarkInactive gs j d') = Inr () \<longrightarrow>
       q_IsActive None k (snd (q_MarkInactive gs j d')) = Inr (k \<noteq> j \<and> active_in d k))"
proof -
  have wf: "db_wf d'" unfolding d'_def by (rule queue_active.inv_mark [OF assms(1)])
  then have cnt: "q_ActiveCount None d' = Inr (store_count d')"
    by (simp add: q_ActiveCount_def store_count_def ActiveGroupCount_def wrap_err_def)
  have act: "active_in d' = (active_in d)(j := True)"
    unfolding d'_def by (rule queue_active.mark_ok [OF assms(2)])
  have "store_count d' = store_count d + (if active_in d j then 0 else 1)"
    unfolding d'_def using queue_active.count_mark [OF assms(1,2)] by simp
  moreover have "fst (q_MarkInactive gs j d') = Inr () \<Longrightarrow>
      q_IsActive None k (snd (q_MarkInactive gs j d')) = Inr (k \<noteq> j \<and> active_in d k)"
    using queue_active.unmark_ok [of gs j d'] queue_active.inv_unmark [OF wf, of gs j] act
    by (simp add: q_IsActive_def IsGroupActive_active_in)
  ultimately show ?thesis
    using cnt act wf by (auto simp: q_IsActive_def IsGroupActive_active_in)
qed

definition queue_demo_db :: db where
  "queue_demo_db = empty_db\<lparr>db_groups := [\<lparr>r_group = \<lparr>g_JID = ''g'', g_Name = ''G'', g_Folder = ''main'',
     g_TriggerPattern = ''@bot'', g_AddedAt = 0, g_ContainerConfig = None, g_RequiresTrigger = True, g_IsMain = False\<rparr>,
     r_is_active = False, r_last_active_at = None\<rparr>]\<rparr>"

theorem queue_active_set_witness:
  "q_ActiveCount None (snd (q_MarkActive (None, None, None, 0) ''g'' queue_demo_db)) = Inr 1"
proof -
  have "db_wf queue_demo_db"
    by (simp add: queue_demo_db_def empty_db_def db_wf_def groups_wf_def msgs_wf_def tasks_wf_def logs_wf_def allow_wf_def)
  moreover have "fst (q_MarkActive (None, None, None, 0) ''g'' queue_demo_db) = Inr ()"
    by (simp add: q_MarkActive_def store_mark_def MarkGroupActive_def changed_rows_def mark_active_def queue_demo_db_def wrap_err_def)
  ultimately show ?thesis
    using queue_active_set [of queue_demo_db "(None, None, None, 0)" "''g''" "''g''" "(None, None, None, 0)"]
    by (simp add: queue_demo_db_def store_count_def ActiveGroupCount_def active_in_def)
qed

section \<open>What the queue asks of JetStream\<close>

text \<open>
  Nothing is assumed of the server here. Its answers are arbitrary, and every call is written down
  with the answer it got, where the answer matters.
\<close>

datatype jcall =
    JStream string
  | JMakeStream stream_config
  | JDropStream string
  | JMakeConsumer string consumer_config
  | JDropConsumer string string
  | JPublish string string "unit result"
  | JFetch string string fetched
  | JAck string jmsg "unit result"
  | JInfo string
  | JGetMsg string nat

definition noting :: "('a \<Rightarrow> jcall) \<Rightarrow> ('x \<Rightarrow> 'a \<times> 'x) \<Rightarrow> 'x \<times> jcall list \<Rightarrow> 'a \<times> 'x \<times> jcall list" where
  "noting k f s = (case f (fst s) of (r, x) \<Rightarrow> (r, x, snd s @ [k r]))"

definition watched :: "'x jetstream \<Rightarrow> ('x \<times> jcall list) jetstream" where
  "watched js =
     \<lparr>js_Stream = (\<lambda>n. noting (\<lambda>_. JStream n) (js_Stream js n)),
      js_CreateOrUpdateStream = (\<lambda>c. noting (\<lambda>_. JMakeStream c) (js_CreateOrUpdateStream js c)),
      js_DeleteStream = (\<lambda>n. noting (\<lambda>_. JDropStream n) (js_DeleteStream js n)),
      js_CreateOrUpdateConsumer = (\<lambda>n c. noting (\<lambda>_. JMakeConsumer n c) (js_CreateOrUpdateConsumer js n c)),
      js_DeleteConsumer = (\<lambda>n c. noting (\<lambda>_. JDropConsumer n c) (js_DeleteConsumer js n c)),
      js_Publish = (\<lambda>s data. noting (JPublish s data) (js_Publish js s data)),
      js_Fetch = (\<lambda>n c. noting (JFetch n c) (js_Fetch js n c)),
      js_Ack = (\<lambda>n m. noting (JAck n m) (js_Ack js n m)),
      js_Info = (\<lambda>n. noting (\<lambda>_. JInfo n) (js_Info js n)),
      js_GetMsg = (\<lambda>n i. noting (\<lambda>_. JGetMsg n i) (js_GetMsg js n i))\<rparr>"

text \<open>
  The calls that move no message: looking at the group's own stream, and provisioning it and its
  consumers with the configuration of the group.
\<close>

fun looks :: "string \<Rightarrow> jcall \<Rightarrow> bool" where
  "looks s (JStream n) \<longleftrightarrow> n = queueStreamName s"
| "looks s (JMakeStream c) \<longleftrightarrow> c = queue_stream_config s"
| "looks s (JMakeConsumer n c) \<longleftrightarrow> n = queueStreamName s \<and> co_Durable c = ''dequeue-'' @ s"
| "looks s (JDropConsumer n c) \<longleftrightarrow> n = queueStreamName s \<and> c = ''peek-'' @ s"
| "looks s (JInfo n) \<longleftrightarrow> n = queueStreamName s"
| "looks s (JGetMsg n i) \<longleftrightarrow> n = queueStreamName s"
| "looks s _ \<longleftrightarrow> False"

abbreviation calls_of :: "('x \<times> jcall list) nats_queue \<Rightarrow> jcall list" where
  "calls_of q \<equiv> snd (nq_js q)"

text \<open>\<open>asks s q cs q'\<close>: on the way from \<open>q\<close> to \<open>q'\<close> only looks were added, and then \<open>cs\<close>.\<close>

definition asks :: "string \<Rightarrow> ('x \<times> jcall list) nats_queue \<Rightarrow> jcall list \<Rightarrow> ('x \<times> jcall list) nats_queue \<Rightarrow> bool" where
  "asks s q cs q' \<longleftrightarrow> (\<exists>pre. list_all (looks s) pre \<and> calls_of q' = calls_of q @ pre @ cs)"

lemma asks_refl: "asks s q [] q"
  by (simp add: asks_def exI [of _ "[]"])

lemma asks_trans: "asks s q [] q1 \<Longrightarrow> asks s q1 cs q2 \<Longrightarrow> asks s q cs q2"
  unfolding asks_def by (elim exE conjE) (rule_tac x = "pre @ prea" in exI, simp)

lemma run_call_q [run_simps]:
  "run_state (call_q f) q = (fst (f (nq_js q)), q\<lparr>nq_js := snd (f (nq_js q))\<rparr>)"
  by (simp add: call_q_def split_beta)

lemma noting_simps [simp]:
  "fst (noting k f s) = fst (f (fst s))" "snd (noting k f s) = (snd (f (fst s)), snd s @ [k (fst (f (fst s)))])"
  by (simp_all add: noting_def split_beta)

lemma asks_look: "list_all (looks s) cs \<Longrightarrow> calls_of q' = calls_of q @ cs \<Longrightarrow> asks s q [] q'"
  by (auto simp: asks_def)

lemma ensureStream_asks:
  assumes "run_state (q_ensureStream (watched js) sha g) q = (r, q')"
  shows "asks (SanitizeGroupID sha g) q [] q' \<and> (\<forall>s. r = Inr s \<longrightarrow> s = SanitizeGroupID sha g)"
proof -
  let ?s = "SanitizeGroupID sha g"
  have "\<exists>cs. list_all (looks ?s) cs \<and> calls_of q' = calls_of q @ cs \<and> (\<forall>s. r = Inr s \<longrightarrow> s = ?s)"
    using assms
    by (auto simp: q_ensureStream_def watched_def Let_def run_call_q split: sum.splits if_splits prod.splits)
  then show ?thesis by (auto intro: asks_look)
qed

lemma consumer_asks:
  assumes "run_state (queue_consumer (watched js) s) q = (r, q')"
  shows "asks s q [] q'"
  using assms asks_refl [of s q]
  by (auto simp: queue_consumer_def watched_def run_call_q asks_def split: sum.splits if_splits prod.splits)

text \<open>What the calls of an \<open>Enqueue\<close> and of a \<open>Dequeue\<close> say about its result.\<close>

definition enqueue_outcome :: "sha256 \<Rightarrow> queue_codec \<Rightarrow> string \<Rightarrow> QueueMessage \<Rightarrow> ('x \<times> jcall list) nats_queue \<Rightarrow> unit result \<Rightarrow>
    ('x \<times> jcall list) nats_queue \<Rightarrow> bool" where
  "enqueue_outcome sha cd g msg q r q' \<longleftrightarrow>
     (let s = SanitizeGroupID sha g
      in (\<not> is_ok r \<and> asks s q [] q') \<or>
         (\<exists>data a. q_marshal cd msg = Inr data \<and> asks s q [JPublish (queueSubject s) data a] q' \<and> (is_ok r \<longleftrightarrow> is_ok a)))"

definition dequeue_outcome :: "sha256 \<Rightarrow> queue_codec \<Rightarrow> string \<Rightarrow> ('x \<times> jcall list) nats_queue \<Rightarrow> QueueMessage option result \<Rightarrow>
    ('x \<times> jcall list) nats_queue \<Rightarrow> bool" where
  "dequeue_outcome sha cd g q r q' \<longleftrightarrow>
     (let s = SanitizeGroupID sha g; fetch = JFetch (queueStreamName s) (''dequeue-'' @ s); ack = JAck (queueStreamName s)
      in (\<not> is_ok r \<and> asks s q [] q') \<or>
         (\<exists>err. asks s q [fetch (FetchError err)] q' \<and> \<not> is_ok r) \<or>
         (\<exists>err. asks s q [fetch (FetchEnd err)] q' \<and> (r = Inr None \<or> err \<noteq> None \<and> \<not> is_ok r)) \<or>
         (\<exists>m a. asks s q [fetch (FetchMsg m), ack m a] q' \<and>
            (case a of Inl _ \<Rightarrow> \<not> is_ok r
             | Inr _ \<Rightarrow> r = Inr (case q_unmarshal cd (j_Data m) of Inr qm \<Rightarrow> Some qm | Inl _ \<Rightarrow> None))))"

lemma Enqueue_outcome:
  assumes run: "run_state (Enqueue (watched js) sha cd g msg) q = (r, q')"
  shows "enqueue_outcome sha cd g msg q r q'"
proof -
  let ?s = "SanitizeGroupID sha g"
  obtain a q1 where e: "run_state (q_ensureStream (watched js) sha g) q = (a, q1)" by fastforce
  note e' = ensureStream_asks [OF e]
  show ?thesis
  proof (cases "is_ok a \<and> is_ok (q_marshal cd msg)")
    case True
    then obtain data where data: "a = Inr ?s" "q_marshal cd msg = Inr data" using e' by (auto simp: is_ok_iff)
    let ?p = "js_Publish js (queueSubject ?s) data (fst (nq_js q1))"
    have "asks ?s q1 [JPublish (queueSubject ?s) data (fst ?p)] q'" "is_ok r \<longleftrightarrow> is_ok (fst ?p)"
      using run e data by (cases "fst ?p"; auto simp: Enqueue_def watched_def run_call_q asks_def)+
    then show ?thesis using asks_trans [OF e' [THEN conjunct1]] data(2) unfolding enqueue_outcome_def Let_def by blast
  next
    case False
    have "\<not> is_ok r \<and> q' = q1"
    proof (cases a)
      case (Inl err)
      then show ?thesis using run e by (auto simp: Enqueue_def)
    next
      case (Inr s)
      with False obtain err where "q_marshal cd msg = Inl err" by (cases "q_marshal cd msg") auto
      with Inr show ?thesis using run e by (auto simp: Enqueue_def)
    qed
    then show ?thesis using e' by (simp add: enqueue_outcome_def Let_def)
  qed
qed

lemma Dequeue_outcome:
  assumes run: "run_state (Dequeue (watched js) sha cd g) q = (r, q')"
  shows "dequeue_outcome sha cd g q r q'"
proof -
  let ?s = "SanitizeGroupID sha g"
  let ?n = "queueStreamName ?s" and ?c = "''dequeue-'' @ ?s"
  obtain a q1 where e: "run_state (q_ensureStream (watched js) sha g) q = (a, q1)" by fastforce
  obtain b q2 where c: "run_state (queue_consumer (watched js) ?s) q1 = (b, q2)" by fastforce
  note e' = ensureStream_asks [OF e]
  note both = asks_trans [OF e' [THEN conjunct1] consumer_asks [OF c]]
  show ?thesis
  proof (cases "is_ok a \<and> is_ok b")
    case True
    then have ok: "a = Inr ?s" "b = Inr ()" using e' by (auto simp: is_ok_iff)
    let ?f = "js_Fetch js ?n ?c (fst (nq_js q2))"
    let ?k = "\<lambda>m. js_Ack js ?n m (snd ?f)"
    show ?thesis
    proof (cases "fst ?f")
      case (FetchError err)
      then have "\<not> is_ok r" "calls_of q' = calls_of q2 @ [JFetch ?n ?c (FetchError err)]"
        using run e c ok by (auto simp: Dequeue_def watched_def run_call_q drop_consumer_def split: if_splits)
      then show ?thesis
        using asks_trans [OF both, of "[JFetch ?n ?c (FetchError err)]" q'] by (auto simp: dequeue_outcome_def Let_def asks_def)
    next
      case (FetchEnd err)
      then have "r = Inr None \<or> err \<noteq> None \<and> \<not> is_ok r" "calls_of q' = calls_of q2 @ [JFetch ?n ?c (FetchEnd err)]"
        using run e c ok by (auto simp: Dequeue_def watched_def run_call_q drop_consumer_def split: if_splits option.splits)
      then show ?thesis
        using asks_trans [OF both, of "[JFetch ?n ?c (FetchEnd err)]" q'] by (auto simp: dequeue_outcome_def Let_def asks_def)
    next
      case (FetchMsg m)
      then have "calls_of q' = calls_of q2 @ [JFetch ?n ?c (FetchMsg m), JAck ?n m (fst (?k m))]"
        "case fst (?k m) of Inl _ \<Rightarrow> \<not> is_ok r | Inr _ \<Rightarrow> r = Inr (case q_unmarshal cd (j_Data m) of Inr qm \<Rightarrow> Some qm | Inl _ \<Rightarrow> None)"
        using run e c ok
        by (cases "q_unmarshal cd (j_Data m)"; cases "fst (?k m)"; auto simp: Dequeue_def watched_def run_call_q)+
      then show ?thesis
        using asks_trans [OF both, of "[JFetch ?n ?c (FetchMsg m), JAck ?n m (fst (?k m))]" q']
        by (auto simp: dequeue_outcome_def Let_def asks_def)
    qed
  next
    case False
    then have "\<not> is_ok r \<and> (q' = q1 \<or> q' = q2)"
      using run e c e' by (cases a; cases b) (auto simp: Dequeue_def)
    then show ?thesis using e' both by (auto simp: dequeue_outcome_def Let_def)
  qed
qed

lemma Peek_asks:
  assumes run: "run_state (Peek (watched js) sha cd g) q = (r, q')"
  shows "asks (SanitizeGroupID sha g) q [] q'"
proof -
  obtain a q1 where e: "run_state (q_ensureStream (watched js) sha g) q = (a, q1)" by fastforce
  note e' = ensureStream_asks [OF e]
  have "\<exists>cs. list_all (looks (SanitizeGroupID sha g)) cs \<and> calls_of q' = calls_of q1 @ cs"
    using run e e' by (auto simp: Peek_def watched_def run_call_q split: sum.splits if_splits prod.splits)
  then show ?thesis using asks_trans [OF e' [THEN conjunct1]] by (auto intro: asks_look)
qed

lemma Len_asks:
  assumes run: "run_state (Len (watched js) sha g) q = (r, q')"
  shows "asks (SanitizeGroupID sha g) q [] q'"
proof -
  obtain a q1 where e: "run_state (q_ensureStream (watched js) sha g) q = (a, q1)" by fastforce
  note e' = ensureStream_asks [OF e]
  have "\<exists>cs. list_all (looks (SanitizeGroupID sha g)) cs \<and> calls_of q' = calls_of q1 @ cs"
    using run e e' by (auto simp: Len_def watched_def run_call_q split: sum.splits if_splits prod.splits)
  then show ?thesis using asks_trans [OF e' [THEN conjunct1]] by (auto intro: asks_look)
qed

text \<open>
  C24: Whatever JetStream answers, the queue of a group loses and invents nothing, and touches no
  stream, consumer or subject but the group's own. \<open>Enqueue\<close> publishes at most once, the encoded
  message, and succeeds exactly when the server confirmed it. \<open>Dequeue\<close> fetches at most once and
  acknowledges exactly what it fetched; it returns a message only when this was sent without
  an error, so a message whose acknowledgement failed is not handed out, and the one message it
  takes from the queue without returning it is one it cannot decode. \<open>Peek\<close> and \<open>Len\<close> publish,
  fetch and acknowledge nothing.
\<close>

theorem queue_calls:
  "case (run_state (Enqueue (watched js) sha cd g msg) q, run_state (Dequeue (watched js) sha cd g) q) of
     ((r, q1), (d, q2)) \<Rightarrow> enqueue_outcome sha cd g msg q r q1 \<and> dequeue_outcome sha cd g q d q2 \<and>
       asks (SanitizeGroupID sha g) q [] (snd (run_state (Peek (watched js) sha cd g) q)) \<and>
       asks (SanitizeGroupID sha g) q [] (snd (run_state (Len (watched js) sha g) q))"
proof -
  obtain r q1 where enq: "run_state (Enqueue (watched js) sha cd g msg) q = (r, q1)" by fastforce
  obtain d q2 where deq: "run_state (Dequeue (watched js) sha cd g) q = (d, q2)" by fastforce
  show ?thesis
    using Enqueue_outcome [OF enq] Dequeue_outcome [OF deq] enq deq
    by (simp add: Peek_asks [OF surjective_pairing] Len_asks [OF surjective_pairing])
qed

end
