(* ===== verification/Router_Model.thy ===== *)
theory Router_Model
  imports Store_Types
begin

text \<open>
  \<open>internal/router/router.go\<close>, \<open>internal/channel/channel.go\<close> and
  \<open>internal/channel/registry.go\<close>: outbound routing, the formatting of stored messages for
  the agent, the removal of internal tags, and the registry that connects the channels.
  A channel is a record of its methods over an arbitrary state of the outside world. The
  loop of \<open>stripInternalTags\<close> need not end; it is a partial function whose value
  \<open>None\<close> means that it runs forever.
\<close>

section \<open>Channels\<close>

record InboundMessage =
  im_ID :: string
  im_ChatJID :: string
  im_Sender :: string
  im_SenderName :: string
  im_Content :: string
  im_Timestamp :: time
  im_IsGroup :: bool

record 'w Channel =
  ch_Name :: string
  ch_Connect :: "'w \<Rightarrow> unit result \<times> 'w"
  ch_SendMessage :: "string \<Rightarrow> string \<Rightarrow> 'w \<Rightarrow> unit result \<times> 'w"
  ch_IsConnected :: "'w \<Rightarrow> bool"
  ch_OwnsJID :: "string \<Rightarrow> bool"
  ch_Disconnect :: "'w \<Rightarrow> unit result \<times> 'w"
  ch_SetTyping :: "string \<Rightarrow> bool \<Rightarrow> 'w \<Rightarrow> unit result \<times> 'w"

text \<open>A factory may answer with the nil channel: the channel is not configured.\<close>

type_synonym 'w Factory = "'w \<Rightarrow> 'w Channel option result \<times> 'w"

type_synonym 'w Registry = "(string \<times> 'w Factory) list"

definition Register :: "string \<Rightarrow> 'w Factory \<Rightarrow> 'w Registry \<Rightarrow> 'w Registry" where
  "Register name f r = AList.update name f r"

definition Registry_Get :: "string \<Rightarrow> 'w Registry \<Rightarrow> 'w Factory option" where
  "Registry_Get name r = map_of r name"

fun str_le :: "string \<Rightarrow> string \<Rightarrow> bool" where
  "str_le [] ys = True"
| "str_le (x # xs) [] = False"
| "str_le (x # xs) (y # ys) =
     ((of_char x :: nat) < of_char y \<or> x = y \<and> str_le xs ys)"

fun insert_str :: "string \<Rightarrow> string list \<Rightarrow> string list" where
  "insert_str x [] = [x]"
| "insert_str x (y # ys) = (if str_le x y then x # y # ys else y # insert_str x ys)"

definition sort_Strings :: "string list \<Rightarrow> string list" where
  "sort_Strings xs = foldr insert_str xs []"

definition Registry_Names :: "'w Registry \<Rightarrow> string list" where
  "Registry_Names r = sort_Strings (map fst r)"

definition disconnect_all :: "'w Channel list \<Rightarrow> 'w \<Rightarrow> 'w" where
  "disconnect_all chs w = fold (\<lambda>c w. snd (ch_Disconnect c w)) chs w"

fun connect_names :: "'w Registry \<Rightarrow> string list \<Rightarrow> 'w Channel list \<Rightarrow> 'w \<Rightarrow> 'w Channel list result \<times> 'w" where
  "connect_names r [] channels w = (Inr channels, w)"
| "connect_names r (name # names) channels w =
     (case map_of r name of
        None \<Rightarrow> connect_names r names channels w
      | Some factory \<Rightarrow>
          (case factory w of
             (Inl err, w1) \<Rightarrow>
               (Inl (Wrapf (''channel '' @ Quote name @ '': factory failed'') err), disconnect_all channels w1)
           | (Inr None, w1) \<Rightarrow> connect_names r names channels w1
           | (Inr (Some ch), w1) \<Rightarrow>
               (case ch_Connect ch w1 of
                  (Inl err, w2) \<Rightarrow>
                    (Inl (Wrapf (''channel '' @ Quote name @ '': connect failed'') err), disconnect_all channels w2)
                | (Inr _, w2) \<Rightarrow> connect_names r names (channels @ [ch]) w2)))"

definition ConnectAll :: "'w Registry \<Rightarrow> 'w \<Rightarrow> 'w Channel list result \<times> 'w" where
  "ConnectAll r w = connect_names r (Registry_Names r) [] w"

section \<open>Formatting\<close>

definition escapeXML :: "string \<Rightarrow> string" where
  "escapeXML s =
     (let s1 = ReplaceAll s ''&'' ''&amp;'';
          s2 = ReplaceAll s1 ''<'' ''&lt;'';
          s3 = ReplaceAll s2 ''>'' ''&gt;''
      in ReplaceAll s3 ''\"'' ''&quot;'')"

definition newline :: string where
  "newline = [CHR 0x0A]"

definition format_message :: "string \<Rightarrow> Message \<Rightarrow> string" where
  "format_message assistantName m =
     (let name = (if m_IsBotMessage m then assistantName else m_SenderName m)
      in ''<message sender='' @ Quote (escapeXML name) @ '' timestamp='' @
         Quote (FormatSeconds (m_Timestamp m)) @ ''>'' @ escapeXML (m_Content m) @ ''</message>'' @ newline)"

definition FormatMessagesForAgent :: "Message list \<Rightarrow> string \<Rightarrow> string" where
  "FormatMessagesForAgent messages assistantName =
     (if messages = [] then ''<messages>'' @ newline @ ''</messages>''
      else ''<messages>'' @ newline @ concat (map (format_message assistantName) messages) @ ''</messages>'')"

section \<open>Internal tags\<close>

definition open_tag :: string where "open_tag = ''<internal>''"
definition close_tag :: string where "close_tag = ''</internal>''"

partial_function (option) strip_loop :: "string \<Rightarrow> string option" where
  "strip_loop text =
     (case str_Index text open_tag of
        None \<Rightarrow> Some text
      | Some start \<Rightarrow>
          (case str_Index text close_tag of
             None \<Rightarrow> Some text
           | Some e \<Rightarrow> strip_loop (take start text @ drop (e + length close_tag) text)))"

definition stripInternalTags :: "string \<Rightarrow> string option" where
  "stripInternalTags text = map_option TrimSpace (strip_loop text)"

section \<open>Routing\<close>

fun first_owner :: "'w Channel list \<Rightarrow> string \<Rightarrow> 'w \<Rightarrow> 'w Channel option" where
  "first_owner [] jid w = None"
| "first_owner (ch # chs) jid w =
     (if ch_OwnsJID ch jid \<and> ch_IsConnected ch w then Some ch else first_owner chs jid w)"

text \<open>The outer \<open>None\<close>: the call never returns.\<close>

definition RouteOutbound :: "'w Channel list \<Rightarrow> string \<Rightarrow> string \<Rightarrow> 'w \<Rightarrow> (unit result \<times> 'w) option" where
  "RouteOutbound channels chatJID text w =
     (case stripInternalTags text of
        None \<Rightarrow> None
      | Some stripped \<Rightarrow>
          if stripped = [] then Some (Inr (), w)
          else (case first_owner channels chatJID w of
                  None \<Rightarrow> Some (Inl (Errorf (''no channel for JID: '' @ chatJID)), w)
                | Some ch \<Rightarrow> Some (ch_SendMessage ch chatJID stripped w)))"

definition MatchesTrigger :: "string \<Rightarrow> string \<Rightarrow> bool" where
  "MatchesTrigger content pattern =
     (if pattern = [] then True else HasPrefix (ToLower content) (ToLower pattern))"

section \<open>Escaping\<close>

definition esc_char :: "char \<Rightarrow> string" where
  "esc_char c =
     (if c = CHR ''&'' then ''&amp;'' else if c = CHR ''<'' then ''&lt;''
      else if c = CHR ''>'' then ''&gt;'' else if c = CHR ''\"'' then ''&quot;'' else [c])"

lemma escapeXML_simultaneous: "escapeXML s = concat (map esc_char s)"
  by (induction s) (auto simp: escapeXML_def ReplaceAll_single esc_char_def)

text \<open>What an XML reader makes of the four entities the router writes.\<close>

function unescapeXML :: "string \<Rightarrow> string" where
  "unescapeXML [] = []"
| "unescapeXML (c # cs) =
     (if HasPrefix (c # cs) ''&amp;'' then CHR ''&'' # unescapeXML (drop 5 (c # cs))
      else if HasPrefix (c # cs) ''&lt;'' then CHR ''<'' # unescapeXML (drop 4 (c # cs))
      else if HasPrefix (c # cs) ''&gt;'' then CHR ''>'' # unescapeXML (drop 4 (c # cs))
      else if HasPrefix (c # cs) ''&quot;'' then CHR ''\"'' # unescapeXML (drop 6 (c # cs))
      else c # unescapeXML cs)"
  by pat_completeness auto
termination by (relation "measure length") auto

lemma unescape_esc_char: "unescapeXML (esc_char c @ s) = c # unescapeXML s"
  by (simp add: esc_char_def)

lemma unescape_escape: "unescapeXML (escapeXML s) = s"
  by (induction s) (simp_all add: escapeXML_simultaneous unescape_esc_char)

lemma escaped_chars: "set (escapeXML s) \<inter> {CHR ''<'', CHR ''>'', CHR ''\"''} = {}"
  by (induction s) (auto simp: escapeXML_simultaneous esc_char_def)

text \<open>
  C36: The four replacements of \<open>escapeXML\<close>, applied one after the other, lose nothing and
  leave nothing that a reader could take for markup: the escaped text has no angle bracket
  and no double quote, and undoing the entities gives the text back.
\<close>

theorem escapeXML_safe:
  "unescapeXML (escapeXML s) = s \<and> CHR ''<'' \<notin> set (escapeXML s) \<and>
   CHR ''>'' \<notin> set (escapeXML s) \<and> CHR ''\"'' \<notin> set (escapeXML s)"
  using unescape_escape escaped_chars [of s] by auto

abbreviation angle :: "char set" where
  "angle \<equiv> {CHR ''<'', CHR ''>''}"

lemma angle_FormatSeconds: "x \<in> angle \<Longrightarrow> x \<notin> set (FormatSeconds t)"
  using FormatSeconds_chars [of x t] by (auto simp: is_digit_def)

lemma hex_digit_angle: "d < 16 \<Longrightarrow> hex_digit d \<notin> angle"
  using of_char_hex_digit [of d] by (auto split: if_splits)

lemma quote_char_cases:
  "quote_char c = [c] \<or> (x \<in> angle \<longrightarrow> c \<notin> angle \<and> x \<notin> set (quote_char c))"
proof -
  have "of_char c < (32::nat) \<or> of_char c = (127::nat) \<Longrightarrow>
      hex_digit (of_char c div 16) \<notin> angle \<and> hex_digit (of_char c mod 16) \<notin> angle"
    by (rule conjI; rule hex_digit_angle) auto
  then show ?thesis
    by (auto simp: quote_char_def Let_def)
qed

lemma count_quote_char:
  "x \<in> angle \<Longrightarrow> count_list (quote_char c) x = (if c = x then 1 else 0)"
  using quote_char_cases [of c x] by auto

lemma count_concat_map:
  "count_list (concat (map f xs)) x = sum_list (map (\<lambda>y. count_list (f y) x) xs)"
  by (induction xs) auto

lemma count_Quote: "x \<in> angle \<Longrightarrow> count_list (Quote s) x = count_list s x"
  by (induction s) (auto simp: Quote_def count_concat_map count_quote_char)

lemma count_escaped: "x \<in> angle \<Longrightarrow> count_list (escapeXML s) x = 0"
  using escaped_chars [of s] by (auto intro!: count_notin)

lemma count_format_message: "x \<in> angle \<Longrightarrow> count_list (format_message name m) x = 2"
  by (elim insertE emptyE)
    (simp_all add: format_message_def Let_def count_Quote count_escaped count_notin angle_FormatSeconds newline_def)

text \<open>
  Whatever the senders wrote, the text handed to the agent has exactly the tags the router
  wrote itself: two per message and the two of the enclosing element. No message content,
  sender name or assistant name can open or close an element.
\<close>

theorem FormatMessages_tags:
  "count_list (FormatMessagesForAgent ms name) (CHR ''<'') = 2 * length ms + 2 \<and>
   count_list (FormatMessagesForAgent ms name) (CHR ''>'') = 2 * length ms + 2"
proof -
  have "x \<in> angle \<Longrightarrow> count_list (FormatMessagesForAgent ms name) x = 2 * length ms + 2" for x
    by (auto simp: FormatMessagesForAgent_def count_concat_map count_format_message newline_def
        sum_list_triv comp_def)
  then show ?thesis by simp
qed

section \<open>Properties of the tag loop\<close>

lemma str_Index_first:
  "str_Index s sub = Some i \<Longrightarrow> HasPrefix (drop i s) sub \<and> (\<forall>k < i. \<not> HasPrefix (drop k s) sub)"
proof (induction s sub arbitrary: i rule: str_Index.induct)
  case (2 c cs sub)
  show ?case
  proof (cases "HasPrefix (c # cs) sub")
    case False
    with "2.prems" obtain j where j: "i = Suc j" "str_Index cs sub = Some j" by auto
    with "2.IH" [OF False j(2)] False show ?thesis by (auto simp: less_Suc_eq_0_disj)
  qed (use "2.prems" in simp)
qed (auto split: if_splits)

lemma str_IndexI:
  "HasPrefix (drop i s) sub \<Longrightarrow> i \<le> length s \<Longrightarrow> \<forall>k < i. \<not> HasPrefix (drop k s) sub \<Longrightarrow> str_Index s sub = Some i"
proof (induction s sub arbitrary: i rule: str_Index.induct)
  case (2 c cs sub)
  show ?case
  proof (cases i)
    case (Suc j)
    then have n: "\<not> HasPrefix (c # cs) sub" using "2.prems"(3) by force
    have "\<forall>k < j. \<not> HasPrefix (drop k cs) sub" using "2.prems"(3) Suc by force
    then show ?thesis using "2.IH" [OF n, of j] "2.prems" Suc n by simp
  qed (use "2.prems" in simp)
qed auto

lemma str_Index_None: "str_Index s sub = None \<Longrightarrow> k \<le> length s \<Longrightarrow> \<not> HasPrefix (drop k s) sub"
proof (induction s sub arbitrary: k rule: str_Index.induct)
  case (2 c cs sub)
  then show ?case by (cases k) (auto split: if_splits)
qed (auto split: if_splits)

lemma str_Index_exists:
  assumes "HasPrefix (drop k s) sub" and "k \<le> length s"
  shows "\<exists>i \<le> k. str_Index s sub = Some i"
proof (cases "str_Index s sub")
  case None
  with assms show ?thesis using str_Index_None by blast
next
  case (Some i)
  then have "\<not> k < i" using str_Index_first assms(1) by blast
  with Some show ?thesis by auto
qed

text \<open>
  The bad shape: the first closing tag comes before the first opening tag. The loop then
  cuts nothing out but repeats the part between them, and the shape stays.
\<close>

definition close_first :: "string \<Rightarrow> bool" where
  "close_first t \<longleftrightarrow> (\<exists>i j. str_Index t close_tag = Some i \<and> str_Index t open_tag = Some j \<and> i < j)"

lemmas tag_defs = open_tag_def close_tag_def

lemma HasPrefix_nth: "HasPrefix (drop k s) p \<Longrightarrow> k \<le> length s \<Longrightarrow> i < length p \<Longrightarrow> s ! (k + i) = p ! i"
  by (metis HasPrefix_def nth_drop nth_take)

lemma HasPrefix_length: "HasPrefix (drop k s) p \<Longrightarrow> p \<noteq> [] \<Longrightarrow> k + length p \<le> length s"
proof -
  assume "HasPrefix (drop k s) p" "p \<noteq> []"
  then have "length p = min (length p) (length s - k)" and "length p > 0"
    by (metis HasPrefix_def length_drop length_take min.commute, simp)
  then show ?thesis by linarith
qed

lemma HasPrefix_within:
  "k + length p \<le> n \<Longrightarrow> n \<le> length t \<Longrightarrow> HasPrefix (drop k (take n t @ r)) p \<longleftrightarrow> HasPrefix (drop k t) p"
  by (simp add: HasPrefix_def drop_take min_absorb1)

lemma length_tags [simp]: "length open_tag = 10" "length close_tag = 11"
  by (simp_all add: tag_defs)

lemma close_before_open:
  assumes i: "str_Index t close_tag = Some i" and j: "str_Index t open_tag = Some j" and "i < j"
  shows "i + 11 \<le> j"
proof (rule ccontr)
  assume "\<not> i + 11 \<le> j"
  then obtain k where k: "j = i + k" "0 < k" "k < 11" using \<open>i < j\<close> by (metis add_diff_inverse_nat less_diff_conv2 less_imp_le_nat not_le add.commute not_less zero_less_diff)
  have "HasPrefix (drop i t) close_tag" "HasPrefix (drop j t) open_tag"
    using str_Index_first i j by blast+
  then have "close_tag ! k = open_tag ! 0" and "i + 11 \<le> length t"
    using HasPrefix_nth [of i t close_tag k] HasPrefix_nth [of j t open_tag 0]
      HasPrefix_length [of i t close_tag] HasPrefix_length [of j t open_tag] k
    by (auto simp: tag_defs)
  moreover have "\<forall>k < 11. 0 < k \<longrightarrow> close_tag ! k \<noteq> open_tag ! 0" by (simp add: tag_defs All_less_Suc numeral_eq_Suc)
  ultimately show False using k by blast
qed

lemma close_first_step:
  assumes i: "str_Index t close_tag = Some i" and j: "str_Index t open_tag = Some j" and "i < j"
  shows "close_first (take j t @ drop (i + length close_tag) t)"
proof -
  let ?t = "take j t @ drop (i + length close_tag) t"
  have ij: "i + 11 \<le> j" by (rule close_before_open [OF assms])
  have o: "HasPrefix (drop j t) open_tag" "\<forall>k < j. \<not> HasPrefix (drop k t) open_tag"
    and c: "HasPrefix (drop i t) close_tag" "\<forall>k < i. \<not> HasPrefix (drop k t) close_tag"
    using str_Index_first i j by blast+
  have len: "j + 10 \<le> length t" using HasPrefix_length [OF o(1)] by (simp add: tag_defs)
  have "str_Index ?t close_tag = Some i"
  proof (rule str_IndexI)
    have same: "HasPrefix (drop k ?t) close_tag \<longleftrightarrow> HasPrefix (drop k t) close_tag" if "k \<le> i" for k
      by (rule HasPrefix_within) (use that ij len in simp_all)
    show "HasPrefix (drop i ?t) close_tag" "\<forall>k < i. \<not> HasPrefix (drop k ?t) close_tag"
      using c same by (blast intro: less_imp_le)+
  qed (use ij len in simp)
  moreover have "drop (j + (j - i - 11)) ?t = drop j t" using ij len by simp
  then have "HasPrefix (drop (j + (j - i - 11)) ?t) open_tag" using o(1) by simp
  then obtain j' where j': "str_Index ?t open_tag = Some j'"
    using str_Index_exists [of "j + (j - i - 11)" ?t open_tag] ij len by (auto simp: diff_le_mono)
  moreover have "i < j'"
  proof (rule ccontr)
    assume "\<not> i < j'"
    then have "HasPrefix (drop j' t) open_tag"
      using str_Index_first [OF j'] ij len HasPrefix_within [of j' open_tag j t] by simp
    with o(2) \<open>\<not> i < j'\<close> ij show False by auto
  qed
  ultimately show ?thesis by (auto simp: close_first_def)
qed

lemma strip_loop_ends: "strip_loop t = Some r \<Longrightarrow> \<not> close_first t"
proof (rule strip_loop.raw_induct [where P = "\<lambda>t r. \<not> close_first t"])
  fix loop t r
  assume IH: "\<And>t r. loop t = Some r \<Longrightarrow> \<not> close_first t"
    and body: "(case str_Index t open_tag of None \<Rightarrow> Some t
      | Some start \<Rightarrow> (case str_Index t close_tag of None \<Rightarrow> Some t
          | Some e \<Rightarrow> loop (take start t @ drop (e + length close_tag) t))) = Some r"
  show "\<not> close_first t"
  proof
    assume "close_first t"
    then obtain i j where ij: "str_Index t close_tag = Some i" "str_Index t open_tag = Some j" "i < j"
      by (auto simp: close_first_def)
    then have "loop (take j t @ drop (i + length close_tag) t) = Some r" using body by simp
    with IH close_first_step [OF ij] show False by blast
  qed
qed

text \<open>
  A text in which a closing \<open>internal\<close> tag precedes every opening one makes
  \<open>stripInternalTags\<close> run forever, and with it \<open>RouteOutbound\<close>: the caller never gets
  an answer and no channel is called.
\<close>

theorem stripInternalTags_diverges:
  assumes "str_Index text close_tag = Some i" and "str_Index text open_tag = Some j" and "i < j"
  shows "stripInternalTags text = None \<and> RouteOutbound channels jid text w = None"
proof -
  have "strip_loop text = None"
    using assms strip_loop_ends by (cases "strip_loop text") (auto simp: close_first_def)
  then show ?thesis by (simp add: stripInternalTags_def RouteOutbound_def)
qed

theorem stripInternalTags_diverges_witness:
  "stripInternalTags ''a</internal> b <internal>c'' = None"
  using stripInternalTags_diverges [of "''a</internal> b <internal>c''" 1 15 "[]" "[]" "()"]
  by (simp add: tag_defs)

subsection \<open>Well-formed texts\<close>

text \<open>Visible text without angle brackets, alternating with hidden parts.\<close>

fun render :: "(string \<times> string) list \<Rightarrow> string \<Rightarrow> string" where
  "render [] tail = tail"
| "render ((v, h) # segs) tail = v @ open_tag @ h @ close_tag @ render segs tail"

definition plain :: "string \<Rightarrow> bool" where
  "plain s \<longleftrightarrow> CHR ''<'' \<notin> set s"

definition hidden_ok :: "string \<Rightarrow> bool" where
  "hidden_ok h \<longleftrightarrow> str_Index (h @ close_tag) close_tag = Some (length h)"

lemma str_Index_skip:
  "plain p \<Longrightarrow> str_Index (p @ s) (CHR ''<'' # sub) = map_option (\<lambda>i. length p + i) (str_Index s (CHR ''<'' # sub))"
  by (cases "str_Index s (CHR ''<'' # sub)"; induction p) (auto simp: plain_def)

lemma str_Index_plain: "plain p \<Longrightarrow> str_Index p (CHR ''<'' # sub) = None"
  using str_Index_skip [of p "[]"] by simp

lemma hidden_ok_append: "hidden_ok h \<Longrightarrow> str_Index (h @ close_tag @ r) close_tag = Some (length h)"
  using str_Index_first [of "h @ close_tag" close_tag "length h"]
    HasPrefix_within [of _ close_tag "length h + 11" "h @ close_tag" r]
  by (intro str_IndexI) (auto simp: hidden_ok_def)

lemma Index_open: "plain p \<Longrightarrow> str_Index (p @ open_tag @ s) open_tag = Some (length p)"
  using str_Index_skip [of p "open_tag @ s" "''internal>''"] by (simp add: tag_defs)

lemma Index_close:
  "plain p \<Longrightarrow> hidden_ok h \<Longrightarrow>
   str_Index (p @ open_tag @ h @ close_tag @ r) close_tag = Some (length p + (10 + length h))"
  using str_Index_skip [of p "open_tag @ h @ close_tag @ r" "''/internal>''"] hidden_ok_append [of h r]
  by (simp add: tag_defs)

lemma plain_append [simp]: "plain (p @ q) \<longleftrightarrow> plain p \<and> plain q"
  by (auto simp: plain_def)

lemma strip_loop_render:
  assumes "plain p" and "\<forall>(v, h) \<in> set segs. plain v \<and> hidden_ok h" and "plain tail"
  shows "strip_loop (p @ render segs tail) = Some (p @ concat (map fst segs) @ tail)"
  using assms(1,2)
proof (induction segs arbitrary: p)
  case Nil
  then have "str_Index (p @ tail) open_tag = None"
    using str_Index_plain [of "p @ tail" "''internal>''"] assms(3) by (simp add: open_tag_def)
  then show ?case by (simp add: strip_loop.simps)
next
  case (Cons s segs)
  obtain v h where [simp]: "s = (v, h)" by (cases s)
  have p: "plain (p @ v)" and h: "hidden_ok h" using Cons.prems by auto
  have "strip_loop (p @ render (s # segs) tail) = strip_loop ((p @ v) @ render segs tail)"
    using Index_open [OF p] Index_close [OF p h] by (subst strip_loop.simps) simp
  then show ?case using Cons.IH [OF p] Cons.prems by simp
qed

text \<open>
  On a text whose internal parts are properly bracketed, \<open>stripInternalTags\<close> ends and
  returns the visible parts, in order and trimmed, with nothing of the internal ones.
\<close>

theorem stripInternalTags_visible:
  assumes "\<forall>(v, h) \<in> set segs. plain v \<and> hidden_ok h" and "plain tail"
  shows "stripInternalTags (render segs tail) = Some (TrimSpace (concat (map fst segs) @ tail))"
  using strip_loop_render [of "[]" segs tail] assms
  by (simp add: stripInternalTags_def plain_def)

theorem stripInternalTags_visible_witness:
  "render [('' Hi'', ''a <b> plan''), ('' there'', [])] ''! '' =
     '' Hi<internal>a <b> plan</internal> there<internal></internal>! '' \<and>
   stripInternalTags (render [('' Hi'', ''a <b> plan''), ('' there'', [])] ''! '') = Some ''Hi there!''"
  using stripInternalTags_visible [of "[('' Hi'', ''a <b> plan''), ('' there'', [])]" "''! ''"]
  by (simp add: plain_def hidden_ok_def tag_defs TrimSpace_def is_space_def)

section \<open>Properties of routing\<close>

lemma first_owner_Some:
  "first_owner chs jid w = Some ch \<Longrightarrow>
   \<exists>pre post. chs = pre @ ch # post \<and> ch_OwnsJID ch jid \<and> ch_IsConnected ch w \<and>
     (\<forall>c \<in> set pre. \<not> (ch_OwnsJID c jid \<and> ch_IsConnected c w))"
proof (induction chs)
  case (Cons c chs)
  show ?case
  proof (cases "ch_OwnsJID c jid \<and> ch_IsConnected c w")
    case True
    with Cons.prems show ?thesis by (intro exI [of _ "[]"] exI [of _ chs]) simp
  next
    case False
    with Cons obtain pre post where
      "chs = pre @ ch # post \<and> ch_OwnsJID ch jid \<and> ch_IsConnected ch w \<and>
       (\<forall>c \<in> set pre. \<not> (ch_OwnsJID c jid \<and> ch_IsConnected c w))" by auto
    with False show ?thesis by (intro exI [of _ "c # pre"] exI [of _ post]) auto
  qed
qed simp

lemma first_owner_None:
  "\<forall>c \<in> set chs. \<not> (ch_OwnsJID c jid \<and> ch_IsConnected c w) \<Longrightarrow> first_owner chs jid w = None"
  by (induction chs) auto

lemma first_owner_append:
  "\<forall>c \<in> set pre. \<not> (ch_OwnsJID c jid \<and> ch_IsConnected c w) \<Longrightarrow>
   first_owner (pre @ chs) jid w = first_owner chs jid w"
  by (induction pre) auto

lemma RouteOutbound_cases:
  assumes "stripInternalTags text = Some t"
  shows "RouteOutbound chs jid text w =
    (if t = [] then Some (Inr (), w)
     else case first_owner chs jid w of
       None \<Rightarrow> Some (Inl (Errorf (''no channel for JID: '' @ jid)), w)
     | Some ch \<Rightarrow> Some (ch_SendMessage ch jid t w))"
  using assms by (simp add: RouteOutbound_def)

text \<open>
  When the tags can be stripped, \<open>RouteOutbound\<close> makes at most one send: none and
  success for an empty text, none and an error when no connected channel owns the chat, and
  otherwise exactly the send of the first connected channel that owns it, whose answer is
  the answer of the call.
\<close>

theorem RouteOutbound_contract:
  assumes "stripInternalTags text = Some t"
  shows "(t = [] \<longrightarrow> RouteOutbound chs jid text w = Some (Inr (), w)) \<and>
    (t \<noteq> [] \<and> (\<forall>c \<in> set chs. \<not> (ch_OwnsJID c jid \<and> ch_IsConnected c w)) \<longrightarrow>
       RouteOutbound chs jid text w = Some (Inl (Errorf (''no channel for JID: '' @ jid)), w)) \<and>
    (\<forall>pre ch post. t \<noteq> [] \<and> chs = pre @ ch # post \<and> ch_OwnsJID ch jid \<and> ch_IsConnected ch w \<and>
       (\<forall>c \<in> set pre. \<not> (ch_OwnsJID c jid \<and> ch_IsConnected c w)) \<longrightarrow>
       RouteOutbound chs jid text w = Some (ch_SendMessage ch jid t w))"
  unfolding RouteOutbound_cases [OF assms] by (auto simp: first_owner_append first_owner_None)

definition demo_channel :: "string \<Rightarrow> bool \<Rightarrow> (string \<times> string) list Channel" where
  "demo_channel prefix up =
     \<lparr>ch_Name = prefix, ch_Connect = (\<lambda>w. (Inr (), w)),
      ch_SendMessage = (\<lambda>jid text w. (Inr (), w @ [(jid, text)])), ch_IsConnected = (\<lambda>w. up),
      ch_OwnsJID = (\<lambda>jid. HasPrefix jid prefix), ch_Disconnect = (\<lambda>w. (Inr (), w)),
      ch_SetTyping = (\<lambda>jid t w. (Inr (), w))\<rparr>"

theorem RouteOutbound_contract_witness:
  "RouteOutbound [demo_channel ''tg:'' True, demo_channel ''tui:'' False, demo_channel ''tui:'' True] ''tui:x'' '' hi '' [] =
   Some (Inr (), [(''tui:x'', ''hi'')])"
proof -
  have "strip_loop '' hi '' = Some '' hi ''"
    by (simp add: strip_loop.simps tag_defs)
  then have "stripInternalTags '' hi '' = Some ''hi''"
    by (simp add: stripInternalTags_def TrimSpace_def is_space_def)
  note c = RouteOutbound_contract [OF this, THEN conjunct2, THEN conjunct2, rule_format,
      of _ "[demo_channel ''tg:'' True, demo_channel ''tui:'' False]" "demo_channel ''tui:'' True" "[]" "''tui:x''" "[]"]
  show ?thesis using c by (simp add: demo_channel_def)
qed

section \<open>Properties of the registry\<close>

lemma set_insert_str [simp]: "set (insert_str x xs) = insert x (set xs)"
  by (induction xs) auto

lemma set_sort_Strings [simp]: "set (sort_Strings xs) = set xs"
  by (induction xs) (auto simp: sort_Strings_def)

lemma connect_names_error_disconnects:
  assumes "connect_names r names chs w = (Inl e, w')"
  shows "\<exists>chs' w1. w' = disconnect_all (chs @ chs') w1"
  using assms
proof (induction r names chs w rule: connect_names.induct)
  case (2 r name names channels w)
  then show ?case
    by (fastforce split: option.splits prod.splits sum.splits intro: exI [of _ "[]"] exI [of _ "_ # _"])
qed simp

end
