(* ===== verification/Auth_Model.thy ===== *)
theory Auth_Model
  imports Store_Props
begin

text \<open>
  \<open>internal/auth/auth.go\<close>: the sender allowlist. \<open>IsAllowed\<close> takes the store's
  \<open>GetAllowlist\<close> as its parameter; the properties instantiate it with the MySQL store.
\<close>

section \<open>The check\<close>

definition entry_matches :: "string \<Rightarrow> SenderAllowlistEntry \<Rightarrow> bool" where
  "entry_matches sender e \<longleftrightarrow> a_AllowPattern e = ''*'' \<or> a_AllowPattern e = sender"

fun first_match :: "string \<Rightarrow> SenderAllowlistEntry list \<Rightarrow> bool" where
  "first_match sender [] = False"
| "first_match sender (e # es) =
     (if entry_matches sender e then a_Mode e = ModeTrigger else first_match sender es)"

definition IsAllowed :: "(string \<Rightarrow> SenderAllowlistEntry list result) \<Rightarrow> string \<Rightarrow> string \<Rightarrow> bool result" where
  "IsAllowed getAllowlist chatJID sender =
     (case getAllowlist chatJID of
        Inl err \<Rightarrow> Inl err
      | Inr entries \<Rightarrow> if entries = [] then Inr True else Inr (first_match sender entries))"

section \<open>Properties\<close>

lemma first_match_True:
  "first_match sender es \<Longrightarrow> \<exists>e \<in> set es. entry_matches sender e \<and> a_Mode e = ModeTrigger"
  by (induction es) (auto split: if_splits)

text \<open>
  The allowlist fails closed: a sender is let in only when the chat has no entry at all or
  some entry of this very chat names the sender (or everyone) in trigger mode. A store
  failure and a list without a matching entry never let a sender in.
\<close>

theorem IsAllowed_sound:
  assumes "IsAllowed (\<lambda>j. GetAllowlist f j d) jid sender = Inr True"
  shows "f = None \<and> ((\<forall>a \<in> set (db_allow d). a_ChatJID a \<noteq> jid) \<or>
    (\<exists>a \<in> set (db_allow d). a_ChatJID a = jid \<and> entry_matches sender a \<and> a_Mode a = ModeTrigger))"
proof -
  let ?es = "filter (\<lambda>a. a_ChatJID a = jid) (db_allow d)"
  from assms have f: "f = None" and "?es = [] \<or> first_match sender ?es"
    by (auto simp: IsAllowed_def GetAllowlist_def split: option.splits if_splits)
  from this(2) show ?thesis
  proof
    assume "?es = []"
    then show ?thesis using f by (simp add: filter_empty_conv)
  next
    assume "first_match sender ?es"
    from first_match_True [OF this] show ?thesis using f by auto
  qed
qed

definition demo_entry :: "int \<Rightarrow> string \<Rightarrow> string \<Rightarrow> AllowlistMode \<Rightarrow> SenderAllowlistEntry" where
  "demo_entry i j p m = \<lparr>a_ID = i, a_ChatJID = j, a_AllowPattern = p, a_Mode = m\<rparr>"

theorem IsAllowed_sound_witness:
  "\<exists>a \<in> set [demo_entry 1 ''g'' ''bob'' ModeDrop, demo_entry 2 ''g'' ''eve'' ModeTrigger].
     a_ChatJID a = ''g'' \<and> entry_matches ''eve'' a \<and> a_Mode a = ModeTrigger"
  using IsAllowed_sound [of None "empty_db\<lparr>db_allow := [demo_entry 1 ''g'' ''bob'' ModeDrop, demo_entry 2 ''g'' ''eve'' ModeTrigger]\<rparr>" "''g''" "''eve''"]
  by (simp add: IsAllowed_def GetAllowlist_def entry_matches_def demo_entry_def)

text \<open>
  The decision depends on the order in which the store returns the rows when the entry for
  everyone and the entry for the sender disagree: with the same rows in the other order,
  the same sender is let in or refused.
\<close>

theorem IsAllowed_order_dependent:
  "\<exists>d d'. db_wf d \<and> db_wf d' \<and> mset (db_allow d) = mset (db_allow d') \<and>
     IsAllowed (\<lambda>j. GetAllowlist None j d) ''g'' ''eve'' = Inr True \<and>
     IsAllowed (\<lambda>j. GetAllowlist None j d') ''g'' ''eve'' = Inr False"
proof -
  let ?a = "demo_entry 1 ''g'' ''*'' ModeTrigger" and ?b = "demo_entry 2 ''g'' ''eve'' ModeDrop"
  let ?d = "\<lambda>es. empty_db\<lparr>db_allow := es, db_next_allow := 3\<rparr>"
  have "db_wf (?d [?a, ?b])" "db_wf (?d [?b, ?a])"
    by (simp_all add: db_wf_def empty_db_def groups_wf_def msgs_wf_def tasks_wf_def logs_wf_def allow_wf_def demo_entry_def)
  moreover have "IsAllowed (\<lambda>j. GetAllowlist None j (?d [?a, ?b])) ''g'' ''eve'' = Inr True"
    "IsAllowed (\<lambda>j. GetAllowlist None j (?d [?b, ?a])) ''g'' ''eve'' = Inr False"
    by (simp_all add: IsAllowed_def GetAllowlist_def entry_matches_def demo_entry_def)
  moreover have "mset (db_allow (?d [?a, ?b])) = mset (db_allow (?d [?b, ?a]))" by simp
  ultimately show ?thesis by blast
qed

end
