(* ===== verification/Rate_Limit.thy ===== *)
theory Rate_Limit
  imports Prelude Complex_Main
begin

text \<open>
  \<open>internal/orchestrator/rate_limit.go\<close>: the token bucket of a chat. Go keeps the tokens as
  a \<open>float64\<close>; the model computes with rationals, so that the bounds below are those of the
  exact computation.
\<close>

record TokenBucket =
  tb_capacity :: int
  tb_tokens :: rat
  tb_lastRefillAt :: time

definition newTokenBucket :: "int \<Rightarrow> time \<Rightarrow> TokenBucket" where
  "newTokenBucket capacity now =
     \<lparr>tb_capacity = capacity, tb_tokens = of_int capacity, tb_lastRefillAt = now\<rparr>"

definition TryAcquire :: "time \<Rightarrow> TokenBucket \<Rightarrow> bool \<times> TokenBucket" where
  "TryAcquire now tb =
     (let elapsed = of_int (now - tb_lastRefillAt tb) / of_int Second;
          tokens = min (of_int (tb_capacity tb)) (tb_tokens tb + elapsed * of_int (tb_capacity tb));
          tb = tb\<lparr>tb_tokens := tokens, tb_lastRefillAt := now\<rparr>
      in if tokens \<ge> 1 then (True, tb\<lparr>tb_tokens := tokens - 1\<rparr>) else (False, tb))"

text \<open>A sequence of requests at the given instants: how many were let through.\<close>

fun acquire_all :: "time list \<Rightarrow> TokenBucket \<Rightarrow> nat \<times> TokenBucket" where
  "acquire_all [] tb = (0, tb)"
| "acquire_all (t # ts) tb =
     (case TryAcquire t tb of
        (ok, tb') \<Rightarrow> (case acquire_all ts tb' of (n, tb'') \<Rightarrow> ((if ok then Suc n else n), tb'')))"

lemma TryAcquire_bucket:
  assumes "0 \<le> tb_tokens tb" and "tb_lastRefillAt tb \<le> now" and "0 \<le> tb_capacity tb"
  shows "tb_capacity (snd (TryAcquire now tb)) = tb_capacity tb \<and> tb_lastRefillAt (snd (TryAcquire now tb)) = now \<and>
    0 \<le> tb_tokens (snd (TryAcquire now tb)) \<and> tb_tokens (snd (TryAcquire now tb)) \<le> of_int (tb_capacity tb) \<and>
    tb_tokens (snd (TryAcquire now tb)) + (if fst (TryAcquire now tb) then 1 else 0) \<le>
      tb_tokens tb + of_int (tb_capacity tb) * (of_int (now - tb_lastRefillAt tb) / of_int Second)"
proof -
  have "0 \<le> (of_int (now - tb_lastRefillAt tb) / of_int Second :: rat) * of_int (tb_capacity tb)"
    using assms by (intro mult_nonneg_nonneg divide_nonneg_nonneg) (simp_all del: of_int_diff)
  then show ?thesis
    using assms by (auto simp: TryAcquire_def Let_def mult.commute min_def)
qed

lemma acquire_all_bound:
  assumes "0 \<le> tb_tokens tb" and "0 \<le> tb_capacity tb" and "sorted (tb_lastRefillAt tb # ts)"
  shows "of_nat (fst (acquire_all ts tb)) \<le> tb_tokens tb +
    of_int (tb_capacity tb) * (of_int (last (tb_lastRefillAt tb # ts) - tb_lastRefillAt tb) / of_int Second)"
  using assms
proof (induction ts arbitrary: tb)
  case (Cons t ts)
  define tb' where "tb' = snd (TryAcquire t tb)"
  have le: "tb_lastRefillAt tb \<le> t" using Cons.prems by simp
  note B = TryAcquire_bucket [OF Cons.prems(1) le Cons.prems(2), folded tb'_def]
  have IH: "of_nat (fst (acquire_all ts tb')) \<le> tb_tokens tb' +
      of_int (tb_capacity tb) * (of_int (last (t # ts) - t) / of_int Second)"
    using Cons.IH [of tb'] B Cons.prems by simp
  have "of_nat (fst (acquire_all (t # ts) tb)) =
      (of_nat (fst (acquire_all ts tb')) + (if fst (TryAcquire t tb) then 1 else 0) :: rat)"
    by (simp add: tb'_def split: prod.split)
  also have "\<dots> \<le> tb_tokens tb + of_int (tb_capacity tb) * (of_int (t - tb_lastRefillAt tb) / of_int Second) +
      of_int (tb_capacity tb) * (of_int (last (t # ts) - t) / of_int Second)"
    using IH B by linarith
  also have "\<dots> = tb_tokens tb + of_int (tb_capacity tb) * (of_int (last (t # ts) - tb_lastRefillAt tb) / of_int Second)"
    by (simp add: field_simps)
  finally show ?case by simp
qed simp

text \<open>
  C39: A new bucket of capacity \<open>c\<close> lets through, in any interval of \<open>s\<close> seconds from its
  creation, at most \<open>c + c * s\<close> messages, however the requests are spread over it.
\<close>

theorem token_bucket_bound:
  assumes "0 \<le> c" and "sorted (t0 # ts)"
  shows "(of_nat (fst (acquire_all ts (newTokenBucket c t0))) :: rat) \<le>
    of_int c + of_int c * (of_int (last (t0 # ts) - t0) / of_int Second)"
  using acquire_all_bound [of "newTokenBucket c t0" ts] assms by (simp add: newTokenBucket_def)

theorem token_bucket_bound_witness:
  "(of_nat (fst (acquire_all [0, 0, 0] (newTokenBucket 2 0))) :: rat) \<le> 2"
  using token_bucket_bound [of 2 0 "[0, 0, 0]"] by simp

end
