(* ===== verification/Scheduler_Model.thy ===== *)
theory Scheduler_Model
  imports Store_Props
begin

text \<open>
  \<open>internal/scheduler/scheduler.go\<close>: the next run of a task, one run of a task and one poll.
  The task store, the clock and the executor are the record \<open>sched_env\<close> of operations over
  an arbitrary world; the properties instantiate it with the MySQL store under an arbitrary
  pattern of driver faults, an arbitrary clock and an arbitrary executor. The poll runs the
  due tasks in the order given, one after the other: they touch different rows and the poll
  waits for all of them. \<open>acquires\<close> says which of them get a slot of the semaphore.
\<close>

section \<open>Errors\<close>

definition ErrBadConn :: goerr where "ErrBadConn = Errorf ''driver: bad connection''"

definition isTransientAdvanceError :: "goerr \<Rightarrow> bool" where
  "isTransientAdvanceError err =
     (if errors_Is err ErrBadConn \<or> errors_Is err ContextDeadline \<or> errors_Is err ContextCanceled then True
      else case as_MySQLError err of
        Some n \<Rightarrow> n = 1205 \<or> n = 1213
      | None \<Rightarrow> False)"

section \<open>The next run\<close>

text \<open>\<open>for !next.After(now) { next = next.Add(d) }\<close>; the caller has checked that \<open>d\<close> is positive.\<close>

function skip_forward :: "duration \<Rightarrow> time \<Rightarrow> time \<Rightarrow> time" where
  "skip_forward d now nxt = (if now < nxt \<or> d \<le> 0 then nxt else skip_forward d now (nxt + d))"
  by pat_completeness auto
termination
  by (relation "measure (\<lambda>(d, now, nxt). nat (now - nxt + 1))") auto

declare skip_forward.simps [simp del]

definition computeNextRun :: "sched_lib \<Rightarrow> time \<Rightarrow> ScheduledTask \<Rightarrow> time option result" where
  "computeNextRun lib now task =
     (case t_ScheduleType task of
        ScheduleCron \<Rightarrow>
          (case cron_Parse lib (t_ScheduleValue task) of
             Inl err \<Rightarrow> Inl (Wrapf ''parse cron expression'' err)
           | Inr sched \<Rightarrow> Inr (Some (sched now)))
      | ScheduleInterval \<Rightarrow>
          (case ParseDuration lib (t_ScheduleValue task) of
             Inl err \<Rightarrow> Inl (Wrapf ''parse interval'' err)
           | Inr d \<Rightarrow>
               if d \<le> 0 then Inl (Errorf (''interval '' @ Quote (t_ScheduleValue task) @ '' must be positive''))
               else (case t_LastRun task of
                  None \<Rightarrow> Inr (Some now)
                | Some lastRun \<Rightarrow>
                    (let lastScheduled = (case t_NextRun task of Some n \<Rightarrow> n | None \<Rightarrow> lastRun)
                     in Inr (Some (skip_forward d now lastScheduled)))))
      | ScheduleOnce \<Rightarrow>
          (case t_LastRun task of
             Some _ \<Rightarrow> Inr None
           | None \<Rightarrow>
               (case ParseRFC3339 lib (t_ScheduleValue task) of
                  Inl err \<Rightarrow> Inl (Wrapf ''parse once schedule'' err)
                | Inr t \<Rightarrow> Inr (Some t)))
      | OtherSchedule s \<Rightarrow> Inl (Errorf (''unknown schedule type '' @ Quote s)))"

section \<open>Running a task\<close>

record 'w sched_env =
  se_lib :: sched_lib
  se_Now :: "'w \<Rightarrow> time \<times> 'w"
  se_GetDueTasks :: "'w \<Rightarrow> ScheduledTask list result \<times> 'w"
  se_UpdateTask :: "ScheduledTask \<Rightarrow> 'w \<Rightarrow> unit result \<times> 'w"
  se_LogTaskRun :: "TaskRunLog \<Rightarrow> 'w \<Rightarrow> unit result \<times> 'w"
  se_executor :: "ScheduledTask \<Rightarrow> 'w \<Rightarrow> unit result \<times> 'w"

definition trunc_div :: "int \<Rightarrow> int \<Rightarrow> int" where
  "trunc_div a b = (if a < 0 then - ((- a) div b) else a div b)"

definition advance_task :: "time \<Rightarrow> time option \<Rightarrow> ScheduledTask \<Rightarrow> ScheduledTask" where
  "advance_task start nextRun task =
     (let task = task\<lparr>t_LastRun := Some start\<rparr>
      in if t_ScheduleType task = ScheduleOnce
         then task\<lparr>t_NextRun := None, t_Status := TaskCompleted\<rparr>
         else task\<lparr>t_NextRun := nextRun\<rparr>)"

text \<open>What \<open>runTask\<close> does once the executor has answered.\<close>

definition record_outcome :: "'w sched_env \<Rightarrow> time \<Rightarrow> unit result \<Rightarrow> ScheduledTask \<Rightarrow> ('w, unit) state" where
  "record_outcome e start r task = do {
     fin \<leftarrow> State (se_Now e);
     task \<leftarrow> (case r of
        Inl err \<Rightarrow>
          if t_ScheduleType task \<noteq> ScheduleOnce
          then do { now \<leftarrow> State (se_Now e); ret (task\<lparr>t_NextRun := Some (now + Minute)\<rparr>) }
          else ret task
      | Inr _ \<Rightarrow> ret task);
     let outcome = (case r of Inl err \<Rightarrow> error_text err | Inr _ \<Rightarrow> ''enqueued'');
     let errStr = (case r of Inl err \<Rightarrow> Some (error_text err) | Inr _ \<Rightarrow> None);
     let status = (case r of Inl _ \<Rightarrow> RunError | Inr _ \<Rightarrow> RunSuccess);
     _ \<leftarrow> State (se_LogTaskRun e
        \<lparr>l_ID = 0, l_TaskID = t_ID task, l_GroupFolder = t_GroupFolder task, l_RunAt = start,
         l_DurationMs = trunc_div (fin - start) Millisecond, l_Status = status,
         l_Result = Some outcome, l_Error = errStr\<rparr>);
     let task = task\<lparr>t_LastResult := Some outcome\<rparr>;
     task \<leftarrow> (if \<not> is_ok r \<and> t_ScheduleType task \<noteq> ScheduleOnce
        then do { now \<leftarrow> State (se_Now e);
                  ret (task\<lparr>t_NextRun := Some (now + Minute), t_Status := TaskActive\<rparr>) }
        else ret task);
     _ \<leftarrow> State (se_UpdateTask e task);
     ret ()
   }"

definition runTask :: "'w sched_env \<Rightarrow> ScheduledTask \<Rightarrow> ('w, unit) state" where
  "runTask e task = do {
     start \<leftarrow> State (se_Now e);
     now \<leftarrow> State (se_Now e);
     (case computeNextRun (se_lib e) now task of
        Inl err \<Rightarrow> do { _ \<leftarrow> State (se_UpdateTask e (task\<lparr>t_Status := TaskPaused\<rparr>)); ret () }
      | Inr nextRun \<Rightarrow> do {
          let task = advance_task start nextRun task;
          r \<leftarrow> State (se_UpdateTask e task);
          (case r of
             Inl err \<Rightarrow>
               if isTransientAdvanceError err then ret ()
               else do { _ \<leftarrow> State (se_UpdateTask e (task\<lparr>t_Status := TaskPaused\<rparr>)); ret () }
           | Inr _ \<Rightarrow> do {
               x \<leftarrow> State (se_executor e task);
               record_outcome e start x task
             })
        })
   }"

definition poll :: "'w sched_env \<Rightarrow> (ScheduledTask \<Rightarrow> bool) \<Rightarrow> ('w, unit) state" where
  "poll e acquires = do {
     r \<leftarrow> State (se_GetDueTasks e);
     (case r of
        Inl err \<Rightarrow> ret ()
      | Inr tasks \<Rightarrow> for_each tasks (\<lambda>t. if acquires t then runTask e t else ret ()))
   }"

text \<open>\<open>Start\<close>: one poll per tick until the context ends.\<close>

fun polls :: "'w sched_env \<Rightarrow> (ScheduledTask \<Rightarrow> bool) list \<Rightarrow> ('w, unit) state" where
  "polls e [] = ret ()"
| "polls e (a # as) = poll e a \<bind> (\<lambda>_. polls e as)"

section \<open>The scheduler on the MySQL store\<close>

text \<open>
  The world counts the statements and clock readings so far, and records the tasks handed
  to the executor. \<open>faults\<close>, \<open>clock\<close> and \<open>exec\<close> are arbitrary functions.
\<close>

record sched_world =
  sw_db :: db
  sw_tick :: nat
  sw_calls :: "ScheduledTask list"

definition mysql_env :: "sched_lib \<Rightarrow> (nat \<Rightarrow> fault) \<Rightarrow> (nat \<Rightarrow> time) \<Rightarrow> (ScheduledTask \<Rightarrow> unit result) \<Rightarrow> sched_world sched_env" where
  "mysql_env lib faults clock exec =
     \<lparr>se_lib = lib,
      se_Now = (\<lambda>w. (clock (sw_tick w), w\<lparr>sw_tick := Suc (sw_tick w)\<rparr>)),
      se_GetDueTasks = (\<lambda>w. (GetDueTasks (faults (sw_tick w)) (clock (sw_tick w)) (sw_db w),
                             w\<lparr>sw_tick := Suc (sw_tick w)\<rparr>)),
      se_UpdateTask = (\<lambda>t w. case UpdateTask (faults (sw_tick w)) t (sw_db w) of
                             (r, d) \<Rightarrow> (r, w\<lparr>sw_db := d, sw_tick := Suc (sw_tick w)\<rparr>)),
      se_LogTaskRun = (\<lambda>l w. case LogTaskRun (faults (sw_tick w)) l (sw_db w) of
                             (r, d) \<Rightarrow> (r, w\<lparr>sw_db := d, sw_tick := Suc (sw_tick w)\<rparr>)),
      se_executor = (\<lambda>t w. (exec t, w\<lparr>sw_calls := sw_calls w @ [t]\<rparr>))\<rparr>"

section \<open>Properties of the next run\<close>

lemma skip_forward_spec:
  "0 < d \<Longrightarrow> now < skip_forward d now nxt \<and> d dvd (skip_forward d now nxt - nxt) \<and>
     (nxt \<le> now \<longrightarrow> skip_forward d now nxt \<le> now + d)"
proof (induction d now nxt rule: skip_forward.induct)
  case (1 d now nxt)
  show ?case
  proof (cases "now < nxt")
    case True
    then show ?thesis by (simp add: skip_forward.simps)
  next
    case False
    with 1 have IH: "now < skip_forward d now (nxt + d)" "d dvd (skip_forward d now (nxt + d) - (nxt + d))"
      "nxt + d \<le> now \<longrightarrow> skip_forward d now (nxt + d) \<le> now + d" by auto
    moreover have "skip_forward d now (nxt + d) = nxt + d" if "now < nxt + d"
      using that by (simp add: skip_forward.simps)
    moreover have "d dvd (skip_forward d now (nxt + d) - nxt)"
      using IH(2) by (metis diff_diff_eq dvd_diff_commute dvd_add_right_iff dvd_refl diff_add_cancel add.commute add_diff_eq)
    ultimately show ?thesis using False \<open>0 < d\<close>
      by (subst (1 2 3) skip_forward.simps) auto
  qed
qed

lemma skip_forward_least:
  assumes "0 < d" and "now < g" and "nxt \<le> g" and "d dvd (g - nxt)"
  shows "skip_forward d now nxt \<le> g"
  using assms
proof (induction d now nxt rule: skip_forward.induct)
  case (1 d now nxt)
  show ?case
  proof (cases "now < nxt")
    case True
    with 1 show ?thesis by (simp add: skip_forward.simps)
  next
    case False
    then have "d \<le> g - nxt" using 1(3,5) by (intro zdvd_imp_le) auto
    moreover have "g - (nxt + d) = (g - nxt) - d" by simp
    then have "d dvd (g - (nxt + d))" using 1(5) by (metis dvd_diff dvd_refl)
    ultimately have "skip_forward d now (nxt + d) \<le> g" using 1 False by simp
    with 1(2) False show ?thesis by (subst skip_forward.simps) simp
  qed
qed

lemma skip_forward_ge: "0 < d \<Longrightarrow> nxt \<le> skip_forward d now nxt"
proof (induction d now nxt rule: skip_forward.induct)
  case (1 d now nxt)
  then show ?case by (cases "now < nxt"; subst skip_forward.simps) auto
qed

text \<open>
  C22: The next run of an interval task, in every case. The only errors are a duration that
  cannot be read or is not positive. A task that has never run is due now. Otherwise the next
  run is anchored at the scheduled time, or at the last run when there is none, and is the first
  point of the grid of intervals from the anchor on that lies after now: so an anchor in the
  future is kept, a passed one is left by whole intervals, and no run drifts.
\<close>

theorem computeNextRun_interval:
  assumes "t_ScheduleType task = ScheduleInterval"
  shows "case computeNextRun lib now task of
      Inl _ \<Rightarrow> (case ParseDuration lib (t_ScheduleValue task) of Inl _ \<Rightarrow> True | Inr d \<Rightarrow> d \<le> 0)
    | Inr None \<Rightarrow> False
    | Inr (Some n) \<Rightarrow> (\<exists>d. ParseDuration lib (t_ScheduleValue task) = Inr d \<and> 0 < d \<and>
        (case (t_LastRun task, t_NextRun task) of
           (None, _) \<Rightarrow> n = now
         | (Some l, nr) \<Rightarrow>
             let anchor = (case nr of Some s \<Rightarrow> s | None \<Rightarrow> l)
             in now < n \<and> anchor \<le> n \<and> d dvd (n - anchor) \<and>
                (\<forall>g. now < g \<and> anchor \<le> g \<and> d dvd (g - anchor) \<longrightarrow> n \<le> g)))"
proof (cases "ParseDuration lib (t_ScheduleValue task)")
  case (Inr d)
  show ?thesis
  proof (cases "0 < d")
    case True
    note s = skip_forward_spec [OF True, of now] skip_forward_ge [OF True, of _ now] skip_forward_least [OF True, of now]
    show ?thesis
      using assms Inr True s
      by (cases "t_LastRun task"; cases "t_NextRun task") (auto simp: computeNextRun_def Let_def)
  qed (use assms Inr in \<open>simp add: computeNextRun_def\<close>)
qed (use assms in \<open>simp add: computeNextRun_def\<close>)

definition demo_lib :: sched_lib where
  "demo_lib = \<lparr>cron_Parse = (\<lambda>s. Inr (\<lambda>t. t + Minute)),
     ParseDuration = (\<lambda>s. if s = ''10m'' then Inr (10 * Minute) else Inl (Errorf ''time: invalid duration'')),
     ParseRFC3339 = (\<lambda>s. Inr 0)\<rparr>"

definition demo_task :: "ScheduleType \<Rightarrow> string \<Rightarrow> ScheduledTask" where
  "demo_task ty v = \<lparr>t_ID = ''t1'', t_GroupFolder = ''main'', t_ChatJID = ''tui:1'', t_Prompt = ''p'',
     t_ScheduleType = ty, t_ScheduleValue = v, t_ContextMode = ContextGroup,
     t_NextRun = Some (100 * Second), t_LastRun = None, t_LastResult = None,
     t_Status = TaskActive, t_CreatedAt = 0\<rparr>"

theorem computeNextRun_interval_witness:
  "\<exists>n. computeNextRun demo_lib (2000 * Second) ((demo_task ScheduleInterval ''10m'')\<lparr>t_LastRun := Some (100 * Second)\<rparr>)
      = Inr (Some n) \<and> 2000 * Second < n \<and> n \<le> 2500 * Second \<and> 10 * Minute dvd (n - 100 * Second)"
proof -
  let ?t = "(demo_task ScheduleInterval ''10m'')\<lparr>t_LastRun := Some (100 * Second)\<rparr>"
  have ty: "t_ScheduleType ?t = ScheduleInterval" by (simp add: demo_task_def)
  obtain n where n: "computeNextRun demo_lib (2000 * Second) ?t = Inr (Some n)"
    by (simp add: computeNextRun_def demo_lib_def demo_task_def)
  have "10 * Minute dvd (2500 * Second - 100 * Second)"
    by (simp add: dvd_def)
  with computeNextRun_interval [OF ty, of demo_lib "2000 * Second"] n show ?thesis
    by (auto simp: demo_lib_def demo_task_def Let_def)
qed

section \<open>Once tasks run at most once\<close>

definition shape :: "db \<Rightarrow> (string \<times> string) list" where
  "shape d = map (\<lambda>u. (t_ID u, t_GroupFolder u)) (db_tasks d)"

definition other_rows :: "string \<Rightarrow> db \<Rightarrow> ScheduledTask list" where
  "other_rows i d = filter (\<lambda>u. t_ID u \<noteq> i) (db_tasks d)"

definition has_status :: "string \<Rightarrow> TaskStatus \<Rightarrow> db \<Rightarrow> bool" where
  "has_status i s d \<longleftrightarrow> (\<forall>u \<in> set (db_tasks d). t_ID u = i \<longrightarrow> t_Status u = s)"

lemma set_task_cols_key [simp]: "t_ID (set_task_cols t u) = t_ID u" "t_GroupFolder (set_task_cols t u) = t_GroupFolder u"
  "t_Status (set_task_cols t u) = t_Status t"
  by (simp_all add: set_task_cols_def)

lemma shape_UpdateTask: "shape (snd (UpdateTask f t d)) = shape d"
  by (auto simp: UpdateTask_def shape_def intro!: map_update_where split: option.split)

lemma shape_LogTaskRun: "shape (snd (LogTaskRun f l d)) = shape d"
  by (auto simp: LogTaskRun_def shape_def split: option.split)

lemma other_rows_UpdateTask: "other_rows (t_ID t) (snd (UpdateTask f t d)) = other_rows (t_ID t) d"
  by (auto simp: UpdateTask_def other_rows_def task_in_def intro!: filter_update_where split: option.split)

lemma tasks_LogTaskRun [simp]: "db_tasks (snd (LogTaskRun f l d)) = db_tasks d"
  by (auto simp: LogTaskRun_def split: option.split)

lemma UpdateTask_Inl: "fst (UpdateTask f t d) = Inl e \<Longrightarrow> snd (UpdateTask f t d) = d"
  by (auto simp: UpdateTask_def split: option.splits if_splits)

text \<open>A row is identified by its id alone (primary key), so the update of a known row hits it.\<close>

definition known :: "ScheduledTask \<Rightarrow> db \<Rightarrow> bool" where
  "known t d \<longleftrightarrow> db_wf d \<and> (t_ID t, t_GroupFolder t) \<in> set (shape d)"

lemma known_row:
  assumes "known t d" and "u \<in> set (db_tasks d)" and "t_ID u = t_ID t"
  shows "t_GroupFolder u = t_GroupFolder t"
proof -
  obtain v where v: "v \<in> set (db_tasks d)" "t_ID v = t_ID t" "t_GroupFolder v = t_GroupFolder t"
    using assms(1) by (auto simp: known_def shape_def)
  have "inj_on t_ID (set (db_tasks d))"
    using assms(1) by (simp add: known_def db_wf_def tasks_wf_def distinct_map)
  then have "u = v" using assms v by (metis inj_onD)
  with v show ?thesis by simp
qed

lemma status_UpdateTask:
  assumes "known t d" and "fst (UpdateTask f t d) = Inr ()"
  shows "has_status (t_ID t) (t_Status t) (snd (UpdateTask f t d))"
  using assms(2) known_row [OF assms(1)]
  by (auto simp: UpdateTask_def has_status_def ball_update_where task_in_def split: option.splits if_splits)

lemma status_UpdateTask_same:
  assumes "has_status (t_ID t) (t_Status t) d"
  shows "has_status (t_ID t) (t_Status t) (snd (UpdateTask f t d))"
  using assms
  by (auto simp: UpdateTask_def has_status_def ball_update_where task_in_def split: option.splits if_splits)

lemma known_UpdateTask: "known t d \<Longrightarrow> known t (snd (UpdateTask f t' d))"
  by (simp add: known_def shape_UpdateTask UpdateTask_wf)

lemma known_LogTaskRun: "known t d \<Longrightarrow> known t (snd (LogTaskRun f l d))"
  by (simp add: known_def shape_LogTaskRun LogTaskRun_wf)

lemma mysql_ops:
  "se_lib (mysql_env lib faults clock exec) = lib"
  "se_Now (mysql_env lib faults clock exec) w = (clock (sw_tick w), w\<lparr>sw_tick := Suc (sw_tick w)\<rparr>)"
  "se_GetDueTasks (mysql_env lib faults clock exec) w =
     (GetDueTasks (faults (sw_tick w)) (clock (sw_tick w)) (sw_db w), w\<lparr>sw_tick := Suc (sw_tick w)\<rparr>)"
  "se_UpdateTask (mysql_env lib faults clock exec) t w =
     (fst (UpdateTask (faults (sw_tick w)) t (sw_db w)),
      w\<lparr>sw_db := snd (UpdateTask (faults (sw_tick w)) t (sw_db w)), sw_tick := Suc (sw_tick w)\<rparr>)"
  "se_LogTaskRun (mysql_env lib faults clock exec) l w =
     (fst (LogTaskRun (faults (sw_tick w)) l (sw_db w)),
      w\<lparr>sw_db := snd (LogTaskRun (faults (sw_tick w)) l (sw_db w)), sw_tick := Suc (sw_tick w)\<rparr>)"
  "se_executor (mysql_env lib faults clock exec) t w = (exec t, w\<lparr>sw_calls := sw_calls w @ [t]\<rparr>)"
  by (simp_all add: mysql_env_def split_beta)

text \<open>The rows of the other tasks, the keys and the schema through a whole run.\<close>

definition frame :: "string \<Rightarrow> db \<Rightarrow> sched_world \<Rightarrow> bool" where
  "frame i d w \<longleftrightarrow> db_wf (sw_db w) \<and> shape (sw_db w) = shape d \<and> other_rows i (sw_db w) = other_rows i d"

lemma frame_Now: "keeps (frame i d) (State (se_Now (mysql_env lib faults clock exec)))"
  by (simp add: keeps_def frame_def mysql_ops)

lemma frame_Update:
  "t_ID t = i \<Longrightarrow> keeps (frame i d) (State (se_UpdateTask (mysql_env lib faults clock exec) t))"
  using other_rows_UpdateTask [of t]
  by (auto simp: keeps_def frame_def mysql_ops shape_UpdateTask UpdateTask_wf split_beta)

lemma frame_Log: "keeps (frame i d) (State (se_LogTaskRun (mysql_env lib faults clock exec) l))"
  by (simp add: keeps_def frame_def mysql_ops shape_LogTaskRun LogTaskRun_wf other_rows_def split_beta)

lemma frame_exec: "keeps (frame i d) (State (se_executor (mysql_env lib faults clock exec) t))"
  by (simp add: keeps_def frame_def mysql_ops)

lemmas frame_keeps = frame_Now frame_Update frame_Log frame_exec

lemma advance_task_key [simp]:
  "t_ID (advance_task s n t) = t_ID t" "t_GroupFolder (advance_task s n t) = t_GroupFolder t"
  "t_ScheduleType (advance_task s n t) = t_ScheduleType t"
  "t_ScheduleType t = ScheduleOnce \<Longrightarrow> t_Status (advance_task s n t) = TaskCompleted"
  by (auto simp: advance_task_def Let_def)

lemma frame_record:
  "t_ID t = i \<Longrightarrow> keeps (frame i d) (record_outcome (mysql_env lib faults clock exec) s r t)"
  unfolding record_outcome_def Let_def
  by (cases r; cases "t_ScheduleType t = ScheduleOnce"; simp; intro keeps_intro frame_keeps) simp_all

lemma frame_runTask: "keeps (frame (t_ID t) d) (runTask (mysql_env lib faults clock exec) t)"
  unfolding runTask_def Let_def
  by (intro keeps_intro frame_keeps frame_record) simp_all

definition settled :: "string \<Rightarrow> ScheduledTask list \<Rightarrow> sched_world \<Rightarrow> bool" where
  "settled i cs w \<longleftrightarrow> has_status i TaskCompleted (sw_db w) \<and> sw_calls w = cs"

lemma settled_keeps:
  "keeps (settled i cs) (State (se_Now (mysql_env lib faults clock exec)))"
  "keeps (settled i cs) (State (se_LogTaskRun (mysql_env lib faults clock exec) l))"
  "t_ID t = i \<Longrightarrow> t_Status t = TaskCompleted \<Longrightarrow>
   keeps (settled i cs) (State (se_UpdateTask (mysql_env lib faults clock exec) t))"
  using status_UpdateTask_same [of t]
  by (auto simp: keeps_def settled_def mysql_ops split_beta has_status_def)

lemma settled_record:
  "t_ID t = i \<Longrightarrow> t_Status t = TaskCompleted \<Longrightarrow> t_ScheduleType t = ScheduleOnce \<Longrightarrow>
   keeps (settled i cs) (record_outcome (mysql_env lib faults clock exec) s r t)"
  unfolding record_outcome_def Let_def
  by (cases r; simp; intro keeps_intro settled_keeps) simp_all

lemma calls_keeps:
  "keeps (\<lambda>w. sw_calls w = cs) (State (se_Now (mysql_env lib faults clock exec)))"
  "keeps (\<lambda>w. sw_calls w = cs) (State (se_LogTaskRun (mysql_env lib faults clock exec) l))"
  "keeps (\<lambda>w. sw_calls w = cs) (State (se_UpdateTask (mysql_env lib faults clock exec) t))"
  by (auto simp: keeps_def mysql_ops split_beta)

lemma calls_record: "keeps (\<lambda>w. sw_calls w = cs) (record_outcome (mysql_env lib faults clock exec) s r t)"
  unfolding record_outcome_def Let_def
  by (cases r; cases "t_ScheduleType t = ScheduleOnce"; simp; intro keeps_intro calls_keeps)

text \<open>One run calls the executor at most once, and a once task only after its row is completed.\<close>

definition executed :: "ScheduledTask \<Rightarrow> sched_world \<Rightarrow> sched_world \<Rightarrow> bool" where
  "executed t w w' \<longleftrightarrow> (\<exists>c. sw_calls w' = sw_calls w @ [c] \<and> t_ID c = t_ID t \<and> t_ScheduleType c = t_ScheduleType t \<and>
     (t_ScheduleType t = ScheduleOnce \<longrightarrow> has_status (t_ID t) TaskCompleted (sw_db w')))"

lemma executed_after:
  assumes "known t (sw_db w)" and "fst (UpdateTask f (advance_task s n t) (sw_db w)) = Inr ()"
    and w1_def: "w1 = w\<lparr>sw_db := snd (UpdateTask f (advance_task s n t) (sw_db w)), sw_tick := k,
                       sw_calls := sw_calls w @ [advance_task s n t]\<rparr>"
  shows "executed t w (snd (run_state (record_outcome (mysql_env lib faults clock exec) s r (advance_task s n t)) w1))"
proof -
  let ?t = "advance_task s n t" and ?m = "record_outcome (mysql_env lib faults clock exec) s r (advance_task s n t)"
  have "known ?t (sw_db w)" using assms(1) by (simp add: known_def)
  then have st: "has_status (t_ID t) (t_Status ?t) (sw_db w1)"
    using status_UpdateTask [of ?t "sw_db w" f] assms(2) by (simp add: w1_def)
  have calls: "sw_calls (snd (run_state ?m w1)) = sw_calls w @ [?t]"
    using calls_record by (rule keepsD) (simp add: w1_def)
  have "has_status (t_ID t) TaskCompleted (sw_db (snd (run_state ?m w1)))" if "t_ScheduleType t = ScheduleOnce"
  proof -
    have "settled (t_ID t) (sw_calls w1) w1" using st that by (simp add: settled_def)
    with that show ?thesis
      using keepsD [OF settled_record [of ?t "t_ID t"]] by (simp add: settled_def)
  qed
  with calls show ?thesis by (simp add: executed_def)
qed

lemma runTask_executes:
  assumes "known t (sw_db w)"
    and w'_def: "w' = snd (run_state (runTask (mysql_env lib faults clock exec) t) w)"
  shows "sw_calls w' = sw_calls w \<or> executed t w w'"
proof (cases "computeNextRun lib (clock (Suc (sw_tick w))) t")
  case (Inl e)
  then show ?thesis by (simp add: w'_def runTask_def mysql_ops Let_def)
next
  case (Inr n)
  let ?t = "advance_task (clock (sw_tick w)) n t" and ?f = "faults (Suc (Suc (sw_tick w)))"
  show ?thesis
  proof (cases "fst (UpdateTask ?f ?t (sw_db w))")
    case (Inl e)
    then show ?thesis
      using \<open>computeNextRun _ _ _ = _\<close> by (simp add: w'_def runTask_def mysql_ops Let_def)
  next
    case (Inr u)
    then have "executed t w w'"
      using \<open>computeNextRun _ _ _ = _\<close> executed_after [OF assms(1), where f = ?f]
      by (simp add: w'_def runTask_def mysql_ops Let_def)
    then show ?thesis ..
  qed
qed

text \<open>The once tasks handed to the executor so far, and the invariant of the polls.\<close>

definition once_ids :: "sched_world \<Rightarrow> string list" where
  "once_ids w = map t_ID (filter (\<lambda>c. t_ScheduleType c = ScheduleOnce) (sw_calls w))"

definition once_inv :: "sched_world \<Rightarrow> bool" where
  "once_inv w \<longleftrightarrow> db_wf (sw_db w) \<and> distinct (once_ids w) \<and>
     (\<forall>u \<in> set (db_tasks (sw_db w)). t_ID u \<in> set (once_ids w) \<longrightarrow> t_Status u \<noteq> TaskActive)"

definition pending_ok :: "ScheduledTask list \<Rightarrow> sched_world \<Rightarrow> bool" where
  "pending_ok ts w \<longleftrightarrow> (\<forall>t \<in> set ts. known t (sw_db w) \<and> t_ID t \<notin> set (once_ids w))"

lemma other_rows_mem: "other_rows i d' = other_rows i d \<Longrightarrow> u \<in> set (db_tasks d') \<Longrightarrow> t_ID u \<noteq> i \<Longrightarrow> u \<in> set (db_tasks d)"
proof -
  assume eq: "other_rows i d' = other_rows i d" and u: "u \<in> set (db_tasks d')" "t_ID u \<noteq> i"
  from u have "u \<in> set (other_rows i d')" by (simp add: other_rows_def)
  then have "u \<in> set (other_rows i d)" unfolding eq .
  then show ?thesis by (simp add: other_rows_def)
qed

lemma run_step_inv:
  assumes inv: "once_inv w" and "known t (sw_db w)" and fresh: "t_ID t \<notin> set (once_ids w)"
    and fr: "frame (t_ID t) (sw_db w) w'" and ex: "sw_calls w' = sw_calls w \<or> executed t w w'"
  shows "once_inv w' \<and> set (once_ids w') \<subseteq> insert (t_ID t) (set (once_ids w))"
proof -
  have ids: "once_ids w' = once_ids w \<or>
      once_ids w' = once_ids w @ [t_ID t] \<and> has_status (t_ID t) TaskCompleted (sw_db w')"
    using ex by (auto simp: once_ids_def executed_def split: if_splits)
  have "t_Status u \<noteq> TaskActive" if u: "u \<in> set (db_tasks (sw_db w'))" "t_ID u \<in> set (once_ids w')" for u
  proof (cases "t_ID u = t_ID t")
    case True
    with u ids fresh show ?thesis by (auto simp: has_status_def)
  next
    case False
    then have "u \<in> set (db_tasks (sw_db w))"
      using fr u(1) other_rows_mem by (metis frame_def)
    then show ?thesis using inv ids False u(2) by (auto simp: once_inv_def)
  qed
  then show ?thesis using ids inv fresh fr by (auto simp: once_inv_def frame_def)
qed

lemma runTask_inv:
  assumes inv: "once_inv w" and k: "known t (sw_db w)" and fresh: "t_ID t \<notin> set (once_ids w)"
    and w': "w' = snd (run_state (runTask (mysql_env lib faults clock exec) t) w)"
  shows "once_inv w' \<and> set (once_ids w') \<subseteq> insert (t_ID t) (set (once_ids w)) \<and> shape (sw_db w') = shape (sw_db w)"
proof -
  have fr: "frame (t_ID t) (sw_db w) w'"
    unfolding w' by (rule keepsD [OF frame_runTask]) (use inv in \<open>simp add: frame_def once_inv_def\<close>)
  then show ?thesis
    using run_step_inv [OF inv k fresh fr runTask_executes [OF k w']] by (simp add: frame_def)
qed

lemma loop_inv:
  "once_inv w \<Longrightarrow> pending_ok ts w \<Longrightarrow> distinct (map t_ID ts) \<Longrightarrow>
   once_inv (snd (run_state (for_each ts (\<lambda>t. if acq t then runTask (mysql_env lib faults clock exec) t else ret ())) w))"
proof (induction ts arbitrary: w)
  case (Cons t ts)
  show ?case
  proof (cases "acq t")
    case False
    with Cons show ?thesis by (simp add: pending_ok_def)
  next
    case True
    define w1 where "w1 = snd (run_state (runTask (mysql_env lib faults clock exec) t) w)"
    have step: "once_inv w1 \<and> set (once_ids w1) \<subseteq> insert (t_ID t) (set (once_ids w)) \<and> shape (sw_db w1) = shape (sw_db w)"
      using Cons.prems by (intro runTask_inv [OF _ _ _ w1_def]) (auto simp: pending_ok_def)
    moreover have "t_ID u \<noteq> t_ID t" if "u \<in> set ts" for u
      using Cons.prems(3) that by (auto simp: image_iff)
    ultimately have "pending_ok ts w1"
      using Cons.prems(2) by (fastforce simp: pending_ok_def known_def once_inv_def)
    with Cons True step show ?thesis by (simp add: run_simps w1_def del: for_each.simps)
  qed
qed simp

lemma distinct_map_sort_key: "distinct (map f (sort_key k xs)) \<longleftrightarrow> distinct (map f xs)"
  by (metis mset_map mset_eq_imp_distinct_iff mset_sort)

lemma poll_inv: "keeps once_inv (poll (mysql_env lib faults clock exec) acq)"
proof (rule keepsI)
  fix w assume inv: "once_inv w"
  let ?w = "w\<lparr>sw_tick := Suc (sw_tick w)\<rparr>" and ?r = "GetDueTasks (faults (sw_tick w)) (clock (sw_tick w)) (sw_db w)"
  have w: "once_inv ?w" using inv by (simp add: once_inv_def once_ids_def)
  show "once_inv (snd (run_state (poll (mysql_env lib faults clock exec) acq) w))"
  proof (cases ?r)
    case (Inl e)
    then show ?thesis using w by (simp add: poll_def mysql_ops)
  next
    case (Inr ts)
    then have ts: "ts = sort_key (\<lambda>t. the (t_NextRun t)) (filter (is_due (clock (sw_tick w))) (db_tasks (sw_db w)))"
      by (auto simp: GetDueTasks_def split: option.splits)
    have "distinct (map t_ID ts)"
      using inv unfolding ts distinct_map_sort_key
      by (simp add: once_inv_def db_wf_def tasks_wf_def distinct_map_filter)
    moreover have "pending_ok ts ?w"
      using inv by (auto simp: pending_ok_def ts known_def shape_def once_inv_def once_ids_def is_due_def)
    ultimately show ?thesis using loop_inv [OF w] Inr by (simp add: poll_def mysql_ops)
  qed
qed

text \<open>
  C21: Over any number of polls, and whatever statements the driver fails, however the clock
  moves and whatever the executor answers, a once task is handed to the executor at most
  once: it is completed in the store before it is executed, and never again due.
\<close>

theorem once_tasks_at_most_once:
  assumes "db_wf d"
  shows "let w = snd (run_state (polls (mysql_env lib faults clock exec) acqs) \<lparr>sw_db = d, sw_tick = 0, sw_calls = []\<rparr>)
    in distinct (map t_ID (filter (\<lambda>c. t_ScheduleType c = ScheduleOnce) (sw_calls w)))"
proof -
  have "keeps once_inv (polls (mysql_env lib faults clock exec) acqs)"
    by (induction acqs) (auto intro: keeps_intro poll_inv)
  moreover have "once_inv \<lparr>sw_db = d, sw_tick = 0, sw_calls = []\<rparr>"
    using assms by (simp add: once_inv_def once_ids_def)
  ultimately have "once_inv (snd (run_state (polls (mysql_env lib faults clock exec) acqs) \<lparr>sw_db = d, sw_tick = 0, sw_calls = []\<rparr>))"
    by (rule keepsD)
  then show ?thesis by (simp add: once_inv_def once_ids_def Let_def)
qed

definition demo_group :: "string \<Rightarrow> string \<Rightarrow> Group" where
  "demo_group j fo = \<lparr>g_JID = j, g_Name = ''G'', g_Folder = fo, g_TriggerPattern = ''@bot'', g_AddedAt = 0,
     g_ContainerConfig = None, g_RequiresTrigger = True, g_IsMain = False\<rparr>"

definition task_db :: "ScheduledTask list \<Rightarrow> db" where
  "task_db ts = empty_db\<lparr>db_groups := [\<lparr>r_group = demo_group ''tui:1'' ''main'', r_is_active = False, r_last_active_at = None\<rparr>],
     db_tasks := ts\<rparr>"

lemmas task_db_defs = task_db_def demo_group_def demo_task_def empty_db_def

lemma task_db_wf: "ty \<in> {ScheduleCron, ScheduleInterval, ScheduleOnce} \<Longrightarrow> db_wf (task_db [demo_task ty v])"
  by (auto simp: task_db_defs db_wf_def groups_wf_def msgs_wf_def tasks_wf_def logs_wf_def allow_wf_def enum_ok_def)

theorem once_tasks_at_most_once_witness:
  "db_wf (task_db [demo_task ScheduleOnce ''x'']) \<and>
   distinct (map t_ID (filter (\<lambda>c. t_ScheduleType c = ScheduleOnce)
     (sw_calls (snd (run_state (polls (mysql_env demo_lib (\<lambda>n. None) (\<lambda>n. 200 * Second) (\<lambda>t. Inr ())) [\<lambda>t. True, \<lambda>t. True])
        \<lparr>sw_db = task_db [demo_task ScheduleOnce ''x''], sw_tick = 0, sw_calls = []\<rparr>)))))"
  using once_tasks_at_most_once [of "task_db [demo_task ScheduleOnce ''x'']"] task_db_wf [of ScheduleOnce]
  by (simp add: Let_def del: polls.simps)

lemma UpdateTask_hits:
  "enum_ok t \<Longrightarrow> u \<in> set (db_tasks d) \<Longrightarrow> task_in (t_ID t) (t_GroupFolder t) u \<Longrightarrow>
   fst (UpdateTask None t d) = Inr () \<and> set_task_cols t u \<in> set (db_tasks (snd (UpdateTask None t d)))"
  by (auto simp: UpdateTask_def set_update_where)

lemma db_time0_le: "db_time0 now \<le> now + Second"
proof -
  have "0 \<le> (now + 500000000) mod Second" by simp
  then show ?thesis unfolding db_time0_def minus_mod_eq_div_mult [symmetric] by simp
qed

text \<open>
  An interval task that has never run is not moved forward by its first run: the run
  executes it and leaves it due, so the next poll executes it again at once.
\<close>

theorem interval_first_run_stays_due:
  fixes task :: ScheduledTask
  assumes "db_wf d" and "task \<in> set (db_tasks d)" and "t_Status task = TaskActive"
    and "t_ScheduleType task = ScheduleInterval" and "t_LastRun task = None"
    and "ParseDuration lib (t_ScheduleValue task) = Inr dur" and "0 < dur"
    and "later \<ge> now + Second"
  shows "let w = snd (run_state (runTask (mysql_env lib (\<lambda>n. None) (\<lambda>n. now) (\<lambda>t. Inr ())) task)
                 \<lparr>sw_db = d, sw_tick = 0, sw_calls = []\<rparr>)
    in length (sw_calls w) = 1 \<and> (\<exists>u \<in> set (db_tasks (sw_db w)). t_ID u = t_ID task \<and> is_due later u)"
proof -
  have next_now: "computeNextRun lib now task = Inr (Some now)"
    using assms by (simp add: computeNextRun_def)
  let ?t1 = "advance_task now (Some now) task"
  let ?t2 = "?t1\<lparr>t_LastResult := Some ''enqueued''\<rparr>"
  have enum: "enum_ok task" using assms(1,2) by (simp add: db_wf_def tasks_wf_def)
  have enums: "enum_ok ?t1" "enum_ok ?t2"
    using enum assms(4) by (simp_all add: enum_ok_def advance_task_def)
  let ?d1 = "snd (UpdateTask None ?t1 d)"
  have 1: "fst (UpdateTask None ?t1 d) = Inr ()" "set_task_cols ?t1 task \<in> set (db_tasks ?d1)"
    using UpdateTask_hits [of ?t1 task d] enums assms(2) by (simp_all add: task_in_def)
  have 2: "set_task_cols ?t2 (set_task_cols ?t1 task) \<in> set (db_tasks (snd (UpdateTask None ?t2 (snd (LogTaskRun None l ?d1)))))" for l
    using UpdateTask_hits [of ?t2 "set_task_cols ?t1 task" "snd (LogTaskRun None l ?d1)"] enums 1(2) by (simp add: task_in_def)
  have "is_due later (set_task_cols ?t2 (set_task_cols ?t1 task))"
    using assms db_time0_le [of now] by (simp add: is_due_def set_task_cols_def advance_task_def)
  then show ?thesis
    using 1 2 next_now assms(4)
    by (simp add: Let_def runTask_def record_outcome_def mysql_ops)
      (rule bexI [of _ "set_task_cols ?t2 (set_task_cols ?t1 task)"], simp_all)
qed

theorem interval_first_run_stays_due_witness:
  "let w = snd (run_state (runTask (mysql_env demo_lib (\<lambda>n. None) (\<lambda>n. 200 * Second) (\<lambda>t. Inr ()))
                  (demo_task ScheduleInterval ''10m''))
                 \<lparr>sw_db = task_db [demo_task ScheduleInterval ''10m''], sw_tick = 0, sw_calls = []\<rparr>)
    in length (sw_calls w) = 1 \<and> (\<exists>u \<in> set (db_tasks (sw_db w)). t_ID u = ''t1'' \<and> is_due (260 * Second) u)"
  using interval_first_run_stays_due [of "task_db [demo_task ScheduleInterval ''10m'']" "demo_task ScheduleInterval ''10m''"
      demo_lib "10 * Minute" "200 * Second" "260 * Second"] task_db_wf [of ScheduleInterval "''10m''"]
  by (simp add: task_db_def demo_lib_def demo_task_def)

end
