(* ===== verification/Orch_State.thy ===== *)
theory Orch_State
  imports Sandbox_Model Queue_Model Router_Model Auth_Model Rate_Limit Scheduler_Model
begin

text \<open>
  The state of \<open>internal/orchestrator/orchestrator.go\<close>: the fields of \<open>Orchestrator\<close>, the
  goroutines it has started and the state \<open>'x\<close> of everything outside (database, NATS,
  Kubernetes, channels, clock, random source). The interfaces the orchestrator calls are
  the fields of \<open>orch_env\<close>, each an arbitrary function of its arguments and of that state,
  so a theorem about a handler holds for every behaviour of its dependencies, failures
  included. Log calls and metrics are left out.
\<close>

section \<open>State\<close>

text \<open>The goroutines a handler starts, with the arguments they close over.\<close>

datatype goroutine =
    GoProcess string
  | GoWatch string
  | GoRecover string "QueueMessage option" bool
  | GoScheduler
  | GoOrphanCleanup
  | GoSandboxWatcher
  | GoStreamReconciler
  | GoMessageLoop
  | GoCursorFlusher

record 'x world =
  lastTimestamp :: time
  lastAgentTimestamp :: "string \<rightharpoonup> time"
  lastConfirmedTimestamp :: "string \<rightharpoonup> time"
  sessions :: "string \<rightharpoonup> string"
  registeredGroups :: "(string \<times> Group) list"
  activeSandboxes :: "string \<rightharpoonup> string"
  spawnStart :: "string \<rightharpoonup> time"
  inflight :: "string list"
  confirmedCursorDirty :: bool
  rateLimiters :: "string \<rightharpoonup> TokenBucket"
  prevLastTimestampStr :: string
  prevAgentTsJSON :: string
  prevConfirmedTsJSON :: string
  notify :: bool
  goroutines :: "goroutine list"
  ext :: 'x

record orch_config =
  oc_MessageLimit :: int
  oc_MaxConcurrent :: int
  oc_IdleTimeout :: duration
  oc_RateLimitTokensPerSec :: int
  oc_MaxMessageSizeBytes :: int
  oc_AssistantName :: string
  oc_SessionsPVC :: string
  oc_GroupsPVC :: string
  oc_DataPVC :: string
  oc_FastStartEnabled :: bool

text \<open>Time layouts and JSON, as the functions the handlers use of them.\<close>

record orch_codec =
  cj_fmtTs :: "time \<Rightarrow> string"
  cj_parseTs :: "string \<Rightarrow> time result"
  cj_encMap :: "(string \<rightharpoonup> string) \<Rightarrow> string result"
  cj_decMap :: "string \<Rightarrow> (string \<rightharpoonup> string) result"
  cj_encMessages :: "string \<Rightarrow> string result"
  cj_encModel :: "string \<Rightarrow> string result"
  cj_decText :: "string \<Rightarrow> string result"
  cj_decSession :: "string \<Rightarrow> string result"
  cj_decTask :: "string \<Rightarrow> ScheduledTask result"
  cj_decID :: "string \<Rightarrow> string result"

record 'x orch_env =
  oe_cfg :: orch_config
  oe_codec :: orch_codec
  oe_lib :: sched_lib
  oe_range :: "string list \<Rightarrow> string list"
  oe_Now :: "'x \<Rightarrow> time \<times> 'x"
  oe_NewUUID :: "'x \<Rightarrow> string \<times> 'x"
  oe_GetState :: "string \<Rightarrow> 'x \<Rightarrow> string result \<times> 'x"
  oe_SetState :: "string \<Rightarrow> string \<Rightarrow> 'x \<Rightarrow> unit result \<times> 'x"
  oe_ListGroups :: "'x \<Rightarrow> Group list result \<times> 'x"
  oe_GetGroup :: "string \<Rightarrow> 'x \<Rightarrow> Group option result \<times> 'x"
  oe_UpsertGroup :: "Group \<Rightarrow> 'x \<Rightarrow> unit result \<times> 'x"
  oe_GetSession :: "string \<Rightarrow> 'x \<Rightarrow> Session option result \<times> 'x"
  oe_UpsertSession :: "Session \<Rightarrow> 'x \<Rightarrow> unit result \<times> 'x"
  oe_DeleteSession :: "string \<Rightarrow> 'x \<Rightarrow> unit result \<times> 'x"
  oe_StoreMessage :: "Message \<Rightarrow> 'x \<Rightarrow> unit result \<times> 'x"
  oe_DeleteMessage :: "string \<Rightarrow> string \<Rightarrow> 'x \<Rightarrow> unit result \<times> 'x"
  oe_GetNewMessages :: "string list \<Rightarrow> time \<Rightarrow> int \<Rightarrow> 'x \<Rightarrow> Message list result \<times> 'x"
  oe_GetMessagesSince :: "string \<Rightarrow> time \<Rightarrow> int \<Rightarrow> 'x \<Rightarrow> Message list result \<times> 'x"
  oe_UpsertChat :: "Chat \<Rightarrow> 'x \<Rightarrow> unit result \<times> 'x"
  oe_CreateTask :: "ScheduledTask \<Rightarrow> 'x \<Rightarrow> unit result \<times> 'x"
  oe_UpdateTask :: "ScheduledTask \<Rightarrow> 'x \<Rightarrow> unit result \<times> 'x"
  oe_DeleteTask :: "string \<Rightarrow> string \<Rightarrow> 'x \<Rightarrow> unit result \<times> 'x"
  oe_GetAllowlist :: "string \<Rightarrow> 'x \<Rightarrow> SenderAllowlistEntry list result \<times> 'x"
  oe_Enqueue :: "string \<Rightarrow> QueueMessage \<Rightarrow> 'x \<Rightarrow> unit result \<times> 'x"
  oe_Dequeue :: "string \<Rightarrow> 'x \<Rightarrow> QueueMessage option result \<times> 'x"
  oe_MarkActive :: "string \<Rightarrow> 'x \<Rightarrow> unit result \<times> 'x"
  oe_MarkInactive :: "string \<Rightarrow> 'x \<Rightarrow> unit result \<times> 'x"
  oe_IsActive :: "string \<Rightarrow> 'x \<Rightarrow> bool result \<times> 'x"
  oe_ActiveCount :: "'x \<Rightarrow> int result \<times> 'x"
  oe_ActiveJIDs :: "'x \<Rightarrow> string list result \<times> 'x"
  oe_SendInput :: "string \<Rightarrow> string \<Rightarrow> IPCMessage \<Rightarrow> 'x \<Rightarrow> unit result \<times> 'x"
  oe_SubscribeOutput :: "string \<Rightarrow> 'x \<Rightarrow> unit result \<times> 'x"
  oe_EnsureStreamForAgent :: "string \<Rightarrow> string \<Rightarrow> 'x \<Rightarrow> unit result \<times> 'x"
  oe_DeleteStreams :: "string \<Rightarrow> 'x \<Rightarrow> unit result \<times> 'x"
  oe_StreamExists :: "string \<Rightarrow> 'x \<Rightarrow> bool result \<times> 'x"
  oe_hasSandbox :: bool
  oe_CreateSandbox :: "SandboxConfig \<Rightarrow> 'x \<Rightarrow> SandboxStatus result \<times> 'x"
  oe_StopSandbox :: "string \<Rightarrow> 'x \<Rightarrow> unit result \<times> 'x"
  oe_HasActiveSandbox :: "string \<Rightarrow> 'x \<Rightarrow> bool result \<times> 'x"
  oe_RouteOutbound :: "string \<Rightarrow> string \<Rightarrow> 'x \<Rightarrow> unit result \<times> 'x"
  oe_cancelled :: "'x \<Rightarrow> bool \<times> 'x"
  oe_ConnectAll :: "'x \<Rightarrow> nat result \<times> 'x"
  oe_CleanupOrphans :: "'x \<Rightarrow> unit result \<times> 'x"

type_synonym ('x, 'a) orch = "('x world, 'a) state"

definition call :: "('x \<Rightarrow> 'a \<times> 'x) \<Rightarrow> ('x, 'a) orch" where
  "call f = State (\<lambda>w. (fst (f (ext w)), w\<lparr>ext := snd (f (ext w))\<rparr>))"

lemma run_call [run_simps]: "run_state (call f) w = (fst (f (ext w)), w\<lparr>ext := snd (f (ext w))\<rparr>)"
  by (simp add: call_def)

text \<open>The rule for a call whose answer may be anything.\<close>

lemma wp_call [wp_intro]: "(\<And>r x. Q r (w\<lparr>ext := x\<rparr>)) \<Longrightarrow> wp (call f) Q w"
  by (simp add: wp_def run_call)

lemma keeps_call: "(\<And>w x. I w \<Longrightarrow> I (w\<lparr>ext := x\<rparr>)) \<Longrightarrow> keeps I (call f)"
  by (simp add: keeps_def run_call)

text \<open>\<open>_ = f()\<close>, and calls whose error is only logged.\<close>

definition ignore :: "('x, 'a) orch \<Rightarrow> ('x, unit) orch" where
  "ignore m = m \<bind> (\<lambda>_. ret ())"

lemma wp_ignore [wp_intro]: "wp m (\<lambda>_. Q ()) w \<Longrightarrow> wp (ignore m) Q w"
  unfolding ignore_def wp_def run_bind by simp

section \<open>Cursors\<close>

definition format_cursors :: "orch_codec \<Rightarrow> (string \<rightharpoonup> time) \<Rightarrow> (string \<rightharpoonup> string)" where
  "format_cursors c m = (\<lambda>k. map_option (cj_fmtTs c) (m k))"

definition parse_cursors :: "orch_codec \<Rightarrow> (string \<rightharpoonup> string) \<Rightarrow> (string \<rightharpoonup> time)" where
  "parse_cursors c raw = (\<lambda>k. case raw k of None \<Rightarrow> None
     | Some v \<Rightarrow> (case cj_parseTs c v of Inl _ \<Rightarrow> None | Inr t \<Rightarrow> Some t))"

text \<open>One persisted value: written when it differs from the one written last.\<close>

definition save_key :: "'x orch_env \<Rightarrow> string \<Rightarrow> string \<Rightarrow> string \<Rightarrow> ('x world \<Rightarrow> 'x world) \<Rightarrow> ('x, unit result) orch" where
  "save_key e key new prev remember =
     (if new \<noteq> prev then do {
        r \<leftarrow> call (oe_SetState e key new);
        (case r of
           Inl err \<Rightarrow> ret (Inl (Wrapf (''save '' @ key) err))
         | Inr _ \<Rightarrow> do { modify remember; ret (Inr ()) }) }
      else ret (Inr ()))"

definition saveState :: "'x orch_env \<Rightarrow> ('x, unit result) orch" where
  "saveState e = do {
     w \<leftarrow> gets id;
     let c = oe_codec e;
     let newLastTsStr = cj_fmtTs c (lastTimestamp w);
     r1 \<leftarrow> save_key e ''last_timestamp'' newLastTsStr (prevLastTimestampStr w) (\<lambda>w. w\<lparr>prevLastTimestampStr := newLastTsStr\<rparr>);
     (case r1 of
        Inl err \<Rightarrow> ret (Inl err)
      | Inr _ \<Rightarrow>
          (case cj_encMap c (format_cursors c (lastAgentTimestamp w)) of
             Inl err \<Rightarrow> ret (Inl (Wrapf ''marshal last_agent_timestamp'' err))
           | Inr newAgentTsJSON \<Rightarrow> do {
               r2 \<leftarrow> save_key e ''last_agent_timestamp'' newAgentTsJSON (prevAgentTsJSON w) (\<lambda>w. w\<lparr>prevAgentTsJSON := newAgentTsJSON\<rparr>);
               (case r2 of
                  Inl err \<Rightarrow> ret (Inl err)
                | Inr _ \<Rightarrow>
                    (case cj_encMap c (format_cursors c (lastConfirmedTimestamp w)) of
                       Inl err \<Rightarrow> ret (Inl (Wrapf ''marshal last_confirmed_timestamp'' err))
                     | Inr newConfirmedTsJSON \<Rightarrow>
                         save_key e ''last_confirmed_timestamp'' newConfirmedTsJSON (prevConfirmedTsJSON w)
                           (\<lambda>w. w\<lparr>prevConfirmedTsJSON := newConfirmedTsJSON\<rparr>))) }))
   }"

definition flushConfirmedCursor :: "'x orch_env \<Rightarrow> ('x, unit result) orch" where
  "flushConfirmedCursor e = do {
     dirty \<leftarrow> gets confirmedCursorDirty;
     modify (\<lambda>w. w\<lparr>confirmedCursorDirty := False\<rparr>);
     if \<not> dirty then ret (Inr ())
     else do {
       r \<leftarrow> saveState e;
       (case r of
          Inl err \<Rightarrow> do { modify (\<lambda>w. w\<lparr>confirmedCursorDirty := True\<rparr>); ret (Inl err) }
        | Inr _ \<Rightarrow> ret (Inr ()))
     }
   }"

text \<open>Reading one persisted map of cursors; an unreadable value leaves the map empty.\<close>

definition load_cursor_map :: "orch_codec \<Rightarrow> string \<Rightarrow> (string \<rightharpoonup> time) \<Rightarrow> (string \<rightharpoonup> time)" where
  "load_cursor_map c s m =
     (if s = [] then m
      else case cj_decMap c s of Inl _ \<Rightarrow> m | Inr raw \<Rightarrow> m ++ parse_cursors c raw)"

fun register_groups :: "Group list \<Rightarrow> (string \<times> Group) list \<Rightarrow> (string \<times> Group) list" where
  "register_groups [] m = m"
| "register_groups (g # gs) m = register_groups gs (AList.update (g_JID g) g m)"

definition load_group :: "'x orch_env \<Rightarrow> Group \<Rightarrow> ('x, unit) orch" where
  "load_group e g = do {
     modify (\<lambda>w. w\<lparr>registeredGroups := AList.update (g_JID g) g (registeredGroups w)\<rparr>);
     r \<leftarrow> call (oe_GetSession e (g_Folder g));
     (case r of
        Inl _ \<Rightarrow> ret ()
      | Inr None \<Rightarrow> ret ()
      | Inr (Some s) \<Rightarrow> modify (\<lambda>w. w\<lparr>sessions := (sessions w)(g_Folder g \<mapsto> s_SessionID s)\<rparr>))
   }"

definition loadState :: "'x orch_env \<Rightarrow> ('x, unit result) orch" where
  "loadState e = do {
     let c = oe_codec e;
     r1 \<leftarrow> call (oe_GetState e ''last_timestamp'');
     (case r1 of
        Inl err \<Rightarrow> ret (Inl (Wrapf ''get last_timestamp'' err))
      | Inr tsStr \<Rightarrow> do {
          (if tsStr = [] then ret ()
           else case cj_parseTs c tsStr of
             Inl _ \<Rightarrow> ret ()
           | Inr t \<Rightarrow> modify (\<lambda>w. w\<lparr>lastTimestamp := t\<rparr>));
          r2 \<leftarrow> call (oe_GetState e ''last_agent_timestamp'');
          (case r2 of
             Inl err \<Rightarrow> ret (Inl (Wrapf ''get last_agent_timestamp'' err))
           | Inr agentTsStr \<Rightarrow> do {
               modify (\<lambda>w. w\<lparr>lastAgentTimestamp := load_cursor_map c agentTsStr (lastAgentTimestamp w)\<rparr>);
               r3 \<leftarrow> call (oe_GetState e ''last_confirmed_timestamp'');
               (case r3 of
                  Inl err \<Rightarrow> ret (Inl (Wrapf ''get last_confirmed_timestamp'' err))
                | Inr confirmedTsStr \<Rightarrow> do {
                    modify (\<lambda>w. w\<lparr>lastConfirmedTimestamp := load_cursor_map c confirmedTsStr (lastConfirmedTimestamp w)\<rparr>);
                    modify (\<lambda>w. w\<lparr>lastConfirmedTimestamp := lastAgentTimestamp w ++ lastConfirmedTimestamp w\<rparr>);
                    r4 \<leftarrow> call (oe_ListGroups e);
                    (case r4 of
                       Inl err \<Rightarrow> ret (Inl (Wrapf ''list groups'' err))
                     | Inr groups \<Rightarrow> do { for_each groups (load_group e); ret (Inr ()) }) }) }) })
   }"

section \<open>Groups and small helpers\<close>

definition groupsList :: "('x, Group list) orch" where
  "groupsList = gets (\<lambda>w. map snd (registeredGroups w))"

definition refreshGroups :: "'x orch_env \<Rightarrow> ('x, unit) orch" where
  "refreshGroups e = do {
     r \<leftarrow> call (oe_ListGroups e);
     (case r of
        Inl _ \<Rightarrow> ret ()
      | Inr groups \<Rightarrow> modify (\<lambda>w. w\<lparr>registeredGroups := register_groups groups []\<rparr>))
   }"

definition clearSpawnStart :: "string \<Rightarrow> ('x, unit) orch" where
  "clearSpawnStart chatJID = modify (\<lambda>w. w\<lparr>spawnStart := (spawnStart w)(chatJID := None)\<rparr>)"

definition recordFirstOutputPhase :: "string \<Rightarrow> ('x, unit) orch" where
  "recordFirstOutputPhase chatJID = modify (\<lambda>w. w\<lparr>spawnStart := (spawnStart w)(chatJID := None)\<rparr>)"

text \<open>\<open>LoadOrStore\<close> on the set of claims: \<open>True\<close> when the slot was free and is now held.\<close>

definition claimSandboxSlot :: "string \<Rightarrow> ('x, bool) orch" where
  "claimSandboxSlot chatJID = do {
     held \<leftarrow> gets inflight;
     if chatJID \<in> set held then ret False
     else do { modify (\<lambda>w. w\<lparr>inflight := chatJID # inflight w\<rparr>); ret True }
   }"

definition releaseSandboxSlot :: "string \<Rightarrow> ('x, unit) orch" where
  "releaseSandboxSlot chatJID = modify (\<lambda>w. w\<lparr>inflight := removeAll chatJID (inflight w)\<rparr>)"

section \<open>Frame of saveState\<close>

text \<open>Saving changes nothing but the outside world and the three remembered strings.\<close>

definition saved :: "'x world \<Rightarrow> 'x world \<Rightarrow> bool" where
  "saved w w' \<longleftrightarrow> w' = w\<lparr>ext := ext w', prevLastTimestampStr := prevLastTimestampStr w',
     prevAgentTsJSON := prevAgentTsJSON w', prevConfirmedTsJSON := prevConfirmedTsJSON w'\<rparr>"

lemma saved_refl [simp]: "saved w w"
  by (simp add: saved_def)

lemma saved_upd [simp]:
  assumes "saved w w'"
  shows "saved w (w'\<lparr>ext := x\<rparr>)" "saved w (w'\<lparr>prevLastTimestampStr := a\<rparr>)"
    "saved w (w'\<lparr>prevAgentTsJSON := b\<rparr>)" "saved w (w'\<lparr>prevConfirmedTsJSON := c\<rparr>)"
  using assms by (cases w; cases w'; simp add: saved_def)+

lemma keeps_saveState: "keeps (saved w) (saveState e)"
  unfolding saveState_def save_key_def Let_def
  by (intro keeps_intro keeps_call keeps_modify) simp_all

lemma saveState_saved: "wp (saveState e) (\<lambda>r. saved w) w"
  by (rule wp_keeps [OF keeps_saveState]) simp_all

lemma wp_saveState [wp_intro]:
  assumes "\<And>r x a b c. Q r (w\<lparr>ext := x, prevLastTimestampStr := a, prevAgentTsJSON := b, prevConfirmedTsJSON := c\<rparr>)"
  shows "wp (saveState e) Q w"
proof (rule wp_mono [OF saveState_saved])
  fix r w' assume "saved w w'"
  then show "Q r w'" unfolding saved_def using assms by metis
qed

section \<open>Persistence of the cursors\<close>

text \<open>The remembered strings agree with what is stored.\<close>

definition prev_ok :: "('x \<Rightarrow> string \<Rightarrow> string) \<Rightarrow> 'x world \<Rightarrow> bool" where
  "prev_ok val w \<longleftrightarrow>
     (prevLastTimestampStr w \<noteq> [] \<longrightarrow> val (ext w) ''last_timestamp'' = prevLastTimestampStr w) \<and>
     (prevAgentTsJSON w \<noteq> [] \<longrightarrow> val (ext w) ''last_agent_timestamp'' = prevAgentTsJSON w) \<and>
     (prevConfirmedTsJSON w \<noteq> [] \<longrightarrow> val (ext w) ''last_confirmed_timestamp'' = prevConfirmedTsJSON w)"

text \<open>The documented behaviour of the time layout and of JSON that persistence relies on.\<close>

definition codec_ok :: "orch_codec \<Rightarrow> bool" where
  "codec_ok c \<longleftrightarrow> (\<forall>t. cj_parseTs c (cj_fmtTs c t) = Inr t \<and> cj_fmtTs c t \<noteq> []) \<and>
     (\<forall>m s. cj_encMap c m = Inr s \<longrightarrow> cj_decMap c s = Inr m \<and> s \<noteq> [])"

lemma parse_format: "codec_ok c \<Longrightarrow> parse_cursors c (format_cursors c m) = m"
  by (auto simp: codec_ok_def parse_cursors_def format_cursors_def fun_eq_iff split: option.split)

lemma load_cursor_map_enc:
  "codec_ok c \<Longrightarrow> cj_encMap c (format_cursors c m) = Inr s \<Longrightarrow> load_cursor_map c s n = n ++ m"
  using parse_format [of c m] by (auto simp: load_cursor_map_def codec_ok_def)

definition loaded :: "time \<Rightarrow> (string \<rightharpoonup> time) \<Rightarrow> (string \<rightharpoonup> time) \<Rightarrow> 'x world \<Rightarrow> bool" where
  "loaded t m n w \<longleftrightarrow> lastTimestamp w = t \<and> lastAgentTimestamp w = m \<and> lastConfirmedTimestamp w = n"

lemma keeps_load_groups: "keeps (loaded t m n) (for_each gs (load_group e))"
  unfolding load_group_def
  by (intro keeps_intro keeps_call keeps_modify) (simp_all add: loaded_def)

text \<open>
  The interface of the persisted router state: values by key, a write that reports success
  takes effect and nothing else changes, a write that fails changes nothing, a read reports
  the value.
\<close>

locale router_state =
  fixes get :: "string \<Rightarrow> 's \<Rightarrow> string result \<times> 's"
    and set :: "string \<Rightarrow> string \<Rightarrow> 's \<Rightarrow> unit result \<times> 's"
    and val :: "'s \<Rightarrow> string \<Rightarrow> string"
  assumes set_ok: "fst (set k v s) = Inr () \<Longrightarrow> val (snd (set k v s)) = (val s)(k := v)"
    and set_fail: "fst (set k v s) = Inl err \<Longrightarrow> val (snd (set k v s)) = val s"
    and get_ok: "fst (get k s) = Inr v \<Longrightarrow> v = val s k"
    and get_val: "val (snd (get k s)) = val s"
begin

lemma save_key_result:
  assumes "oe_SetState e = set" and "prev \<noteq> [] \<Longrightarrow> val (ext w) key = prev" and "new \<noteq> []"
    and "\<And>w. ext (remember w) = ext w"
  shows "case run_state (save_key e key new prev remember) w of (r, w') \<Rightarrow>
    if is_ok r then val (ext w') = (val (ext w))(key := new) \<and> (w' = w \<or> (\<exists>x. w' = remember (w\<lparr>ext := x\<rparr>)))
    else val (ext w') = val (ext w) \<and> (\<exists>x. w' = w\<lparr>ext := x\<rparr>)"
proof (cases "fst (set key new (ext w))")
  case (Inl err)
  then show ?thesis using assms set_fail [OF Inl]
    by (auto simp: save_key_def run_call)
next
  case (Inr u)
  then show ?thesis using assms set_ok [of key new "ext w"]
    by (auto simp: save_key_def run_call)
qed

lemma saveState_persists:
  assumes e: "oe_SetState e = set" and c: "codec_ok (oe_codec e)" and p: "prev_ok val w"
    and run: "run_state (saveState e) w = (Inr (), w')"
  shows "val (ext w') ''last_timestamp'' = cj_fmtTs (oe_codec e) (lastTimestamp w) \<and>
    cj_encMap (oe_codec e) (format_cursors (oe_codec e) (lastAgentTimestamp w)) = Inr (val (ext w') ''last_agent_timestamp'') \<and>
    cj_encMap (oe_codec e) (format_cursors (oe_codec e) (lastConfirmedTimestamp w)) = Inr (val (ext w') ''last_confirmed_timestamp'')"
proof -
  let ?c = "oe_codec e" and ?new = "cj_fmtTs (oe_codec e) (lastTimestamp w)"
  let ?m1 = "save_key e ''last_timestamp'' ?new (prevLastTimestampStr w) (\<lambda>w. w\<lparr>prevLastTimestampStr := ?new\<rparr>)"
  obtain r1 w1 where m1: "run_state ?m1 w = (r1, w1)" by fastforce
  have ok1: "is_ok r1" using run m1 by (cases r1) (auto simp: saveState_def Let_def)
  have v1: "val (ext w1) = (val (ext w))(''last_timestamp'' := ?new)"
    using save_key_result [OF e, of "prevLastTimestampStr w" w "''last_timestamp''" ?new "\<lambda>w. w\<lparr>prevLastTimestampStr := ?new\<rparr>"] m1 ok1 p c
    by (simp add: prev_ok_def codec_ok_def)
  obtain a where a: "cj_encMap ?c (format_cursors ?c (lastAgentTimestamp w)) = Inr a"
    using run m1 ok1 by (cases r1; cases "cj_encMap ?c (format_cursors ?c (lastAgentTimestamp w))") (auto simp: saveState_def Let_def)
  let ?m2 = "save_key e ''last_agent_timestamp'' a (prevAgentTsJSON w) (\<lambda>w. w\<lparr>prevAgentTsJSON := a\<rparr>)"
  obtain r2 w2 where m2: "run_state ?m2 w1 = (r2, w2)" by fastforce
  have ok2: "is_ok r2" using run m1 ok1 a m2 by (cases r1; cases r2) (auto simp: saveState_def Let_def)
  have v2: "val (ext w2) = (val (ext w1))(''last_agent_timestamp'' := a)"
    using save_key_result [OF e, of "prevAgentTsJSON w" w1 "''last_agent_timestamp''" a "\<lambda>w. w\<lparr>prevAgentTsJSON := a\<rparr>"] m2 ok2 p c a v1
    by (simp add: prev_ok_def codec_ok_def)
  obtain b where b: "cj_encMap ?c (format_cursors ?c (lastConfirmedTimestamp w)) = Inr b"
    using run m1 ok1 a m2 ok2
    by (cases r1; cases r2; cases "cj_encMap ?c (format_cursors ?c (lastConfirmedTimestamp w))") (auto simp: saveState_def Let_def)
  let ?m3 = "save_key e ''last_confirmed_timestamp'' b (prevConfirmedTsJSON w) (\<lambda>w. w\<lparr>prevConfirmedTsJSON := b\<rparr>)"
  have m3: "run_state ?m3 w2 = (Inr (), w')"
    using run m1 ok1 a m2 ok2 b by (cases r1; cases r2) (auto simp: saveState_def Let_def)
  have v3: "val (ext w') = (val (ext w2))(''last_confirmed_timestamp'' := b)"
    using save_key_result [OF e, of "prevConfirmedTsJSON w" w2 "''last_confirmed_timestamp''" b "\<lambda>w. w\<lparr>prevConfirmedTsJSON := b\<rparr>"] m3 p c b v1 v2
    by (simp add: prev_ok_def codec_ok_def)
  show ?thesis using a b by (simp add: v1 v2 v3)
qed

lemma get_run: "oe_GetState e = get \<Longrightarrow> run_state (call (oe_GetState e k)) w = (r, w') \<Longrightarrow>
    val (ext w') = val (ext w) \<and> (\<forall>v. r = Inr v \<longrightarrow> v = val (ext w) k) \<and> (\<exists>x. w' = w\<lparr>ext := x\<rparr>)"
  using get_val [of k "ext w"] get_ok [of k "ext w"] by (auto simp: run_call)

lemma loadState_loads:
  assumes e: "oe_GetState e = get" and c: "codec_ok (oe_codec e)"
    and t: "val (ext w) ''last_timestamp'' = cj_fmtTs (oe_codec e) t"
    and m: "cj_encMap (oe_codec e) (format_cursors (oe_codec e) m) = Inr (val (ext w) ''last_agent_timestamp'')"
    and n: "cj_encMap (oe_codec e) (format_cursors (oe_codec e) n) = Inr (val (ext w) ''last_confirmed_timestamp'')"
    and empty: "lastAgentTimestamp w = Map.empty" "lastConfirmedTimestamp w = Map.empty"
    and run: "run_state (loadState e) w = (Inr (), w')"
  shows "loaded t m (m ++ n) w'"
proof -
  let ?c = "oe_codec e"
  have ts: "cj_parseTs ?c (cj_fmtTs ?c t) = Inr t" "cj_fmtTs ?c t \<noteq> []" using c by (simp_all add: codec_ok_def)
  obtain r1 w1 where g1: "run_state (call (oe_GetState e ''last_timestamp'')) w = (r1, w1)" by fastforce
  have r1: "r1 = Inr (cj_fmtTs ?c t)"
    using run g1 get_run [OF e g1] t by (cases r1) (auto simp: loadState_def Let_def)
  let ?w2 = "w1\<lparr>lastTimestamp := t\<rparr>"
  obtain r2 w3 where g2: "run_state (call (oe_GetState e ''last_agent_timestamp'')) ?w2 = (r2, w3)" by fastforce
  have r2: "r2 = Inr (val (ext w) ''last_agent_timestamp'')"
    using run g1 r1 ts g2 get_run [OF e g1] get_run [OF e g2] by (cases r2) (auto simp: loadState_def Let_def)
  have m': "load_cursor_map ?c (val (ext w) ''last_agent_timestamp'') Map.empty = m"
    using load_cursor_map_enc [OF c m] by simp
  have w3: "lastAgentTimestamp w3 = Map.empty" "lastConfirmedTimestamp w3 = Map.empty" "lastTimestamp w3 = t"
    "val (ext w3) = val (ext w)"
    using get_run [OF e g1] get_run [OF e g2] empty by auto
  let ?w4 = "w3\<lparr>lastAgentTimestamp := m\<rparr>"
  obtain r3 w5 where g3: "run_state (call (oe_GetState e ''last_confirmed_timestamp'')) ?w4 = (r3, w5)" by fastforce
  have r3: "r3 = Inr (val (ext w) ''last_confirmed_timestamp'')"
    using run g1 r1 ts g2 r2 g3 get_run [OF e g3] m' w3 by (cases r3) (auto simp: loadState_def Let_def)
  have n': "load_cursor_map ?c (val (ext w) ''last_confirmed_timestamp'') Map.empty = n"
    using load_cursor_map_enc [OF c n] by simp
  have w5: "lastAgentTimestamp w5 = m" "lastConfirmedTimestamp w5 = Map.empty" "lastTimestamp w5 = t"
    using get_run [OF e g3] w3 by auto
  let ?w6 = "w5\<lparr>lastConfirmedTimestamp := m ++ n\<rparr>"
  obtain r4 w7 where g4: "run_state (call (oe_ListGroups e)) ?w6 = (r4, w7)" by fastforce
  obtain gs where gs: "r4 = Inr gs" "w' = snd (run_state (for_each gs (load_group e)) w7)"
    using run g1 r1 ts g2 r2 g3 r3 g4 m' n' w3 w5 by (cases r4) (auto simp: loadState_def Let_def split: prod.splits)
  have "loaded t m (m ++ n) w7" using g4 w5 by (auto simp: run_call loaded_def)
  then show ?thesis unfolding gs(2) by (rule keepsD [OF keeps_load_groups])
qed

end

end
