(* ===== verification/Orch_Dispatch.thy ===== *)
theory Orch_Dispatch
  imports Orch_State
begin

text \<open>
  The dispatching half of \<open>internal/orchestrator/orchestrator.go\<close>: inbound messages, the poll
  that pipes messages to a running agent or starts one, and the creation of an agent with
  its staged cleanup. Each function of the source is one definition; a function that
  receives \<open>releaseSlot\<close> returns whether it called it, so that the deferred release of the
  goroutine (\<open>sync.Once\<close>) runs only when it did not.
\<close>

section \<open>Triggers\<close>

definition IsAllowed_call :: "'x orch_env \<Rightarrow> string \<Rightarrow> string \<Rightarrow> ('x, bool result) orch" where
  "IsAllowed_call e chatJID sender = do {
     r \<leftarrow> call (oe_GetAllowlist e chatJID);
     ret (IsAllowed (\<lambda>_. r) chatJID sender)
   }"

fun hasTriggerMessage :: "'x orch_env \<Rightarrow> string \<Rightarrow> Group \<Rightarrow> Message list \<Rightarrow> ('x, bool result) orch" where
  "hasTriggerMessage e chatJID grp [] = ret (Inr False)"
| "hasTriggerMessage e chatJID grp (m # ms) =
     (if MatchesTrigger (m_Content m) (g_TriggerPattern grp) then do {
        r \<leftarrow> IsAllowed_call e chatJID (m_Sender m);
        (case r of
           Inl err \<Rightarrow> ret (Inl (Wrapf ''allowlist check'' err))
         | Inr allowed \<Rightarrow> if m_IsFromMe m \<or> allowed then ret (Inr True) else hasTriggerMessage e chatJID grp ms) }
      else hasTriggerMessage e chatJID grp ms)"

text \<open>The check the callers make: main groups and groups without a trigger always pass.\<close>

definition trigger_check :: "'x orch_env \<Rightarrow> string \<Rightarrow> Group \<Rightarrow> Message list \<Rightarrow> ('x, bool result) orch" where
  "trigger_check e chatJID grp ms =
     (if \<not> g_IsMain grp \<and> g_RequiresTrigger grp then hasTriggerMessage e chatJID grp ms else ret (Inr True))"

section \<open>Creating an agent\<close>

definition rollbackCursorStep :: "'x orch_env \<Rightarrow> string \<Rightarrow> time \<Rightarrow> ('x, unit) orch" where
  "rollbackCursorStep e chatJID previousCursor = do {
     modify (\<lambda>w. w\<lparr>lastAgentTimestamp := (lastAgentTimestamp w)(chatJID \<mapsto> previousCursor)\<rparr>);
     ignore (saveState e)
   }"

definition releaseOrphanedStreams :: "'x orch_env \<Rightarrow> Group \<Rightarrow> ('x, unit) orch" where
  "releaseOrphanedStreams e grp =
     (if \<not> oc_FastStartEnabled (oe_cfg e) then ret ()
      else do {
        r \<leftarrow> call (oe_HasActiveSandbox e (g_Folder grp));
        (case r of
           Inl _ \<Rightarrow> ret ()
         | Inr has \<Rightarrow> if has then ret () else ignore (call (oe_DeleteStreams e (g_Folder grp))))
      })"

text \<open>The loop of \<open>ensureStreamForAgentWithRetry\<close>; three attempts.\<close>

fun ensure_attempts :: "'x orch_env \<Rightarrow> string \<Rightarrow> nat \<Rightarrow> goerr \<Rightarrow> ('x, unit result) orch" where
  "ensure_attempts e folder 0 lastErr = ret (Inl (Wrapf ''ensure stream for agent failed after retries'' lastErr))"
| "ensure_attempts e folder (Suc n) lastErr = do {
     stop \<leftarrow> (if n < 2 then call (oe_cancelled e) else ret False);
     if stop then ret (Inl (Wrapf ''ensure stream for agent'' ContextCanceled))
     else do {
       r \<leftarrow> call (oe_EnsureStreamForAgent e folder DefaultAgentID);
       (case r of Inl err \<Rightarrow> ensure_attempts e folder n err | Inr _ \<Rightarrow> ret (Inr ()))
     }
   }"

definition ensureStreamForAgentWithRetry :: "'x orch_env \<Rightarrow> string \<Rightarrow> ('x, unit result) orch" where
  "ensureStreamForAgentWithRetry e folder = ensure_attempts e folder 3 (Errorf [])"

definition sandbox_config :: "orch_config \<Rightarrow> string \<Rightarrow> Group \<Rightarrow> string \<Rightarrow> string \<Rightarrow> SandboxConfig" where
  "sandbox_config cfg chatJID grp sessionID formatted =
     \<lparr>sb_GroupFolder = g_Folder grp, sb_GroupJID = chatJID, sb_SessionID = sessionID, sb_IsMain = g_IsMain grp,
      sb_Timeout = (case g_ContainerConfig grp of
          Some cc \<Rightarrow> if cc_Timeout cc > 0 then cc_Timeout cc * Millisecond else oc_IdleTimeout cfg
        | None \<Rightarrow> oc_IdleTimeout cfg),
      sb_Input = formatted, sb_AssistantName = oc_AssistantName cfg,
      sb_Model = (case g_ContainerConfig grp of Some cc \<Rightarrow> cc_Model cc | None \<Rightarrow> []),
      sb_SessionsPVC = oc_SessionsPVC cfg, sb_GroupsPVC = oc_GroupsPVC cfg, sb_DataPVC = oc_DataPVC cfg,
      sb_ContainerConfig = g_ContainerConfig grp\<rparr>"

definition text_message :: "Group \<Rightarrow> string \<Rightarrow> IPCMessage" where
  "text_message grp payload =
     \<lparr>ipc_Group = g_Folder grp, ipc_AgentID = [], ipc_Type = IPCMessageText, ipc_Payload = payload, ipc_ID = []\<rparr>"

text \<open>\<open>abortOnError\<close>: the staged steps, in the order they were staged.\<close>

fun abortOnError :: "('x, unit) orch list \<Rightarrow> ('x, unit) orch" where
  "abortOnError [] = ret ()"
| "abortOnError (c # cs) = c \<bind> (\<lambda>_. abortOnError cs)"

definition fail_spawn :: "('x, unit) orch list \<Rightarrow> bool \<Rightarrow> goerr \<Rightarrow> ('x, bool \<times> SandboxStatus result) orch" where
  "fail_spawn cleanup released err = abortOnError cleanup \<bind> (\<lambda>_. ret (released, Inl err))"

text \<open>What is staged once the sandbox exists: stop it and forget it, delete the streams.\<close>

definition stop_step :: "'x orch_env \<Rightarrow> string \<Rightarrow> string \<Rightarrow> ('x, unit) orch" where
  "stop_step e chatJID sbName = do {
     ignore (call (oe_StopSandbox e sbName));
     modify (\<lambda>w. w\<lparr>activeSandboxes := (activeSandboxes w)(chatJID := None)\<rparr>)
   }"

definition start_agent :: "'x orch_env \<Rightarrow> string \<Rightarrow> Group \<Rightarrow> string \<Rightarrow> ('x, unit) orch list \<Rightarrow> SandboxStatus \<Rightarrow> ('x, bool \<times> SandboxStatus result) orch" where
  "start_agent e chatJID grp payload cleanup created = do {
     m \<leftarrow> call (oe_MarkActive e chatJID);
     (case m of
        Inl err \<Rightarrow> fail_spawn cleanup False (Wrapf ''mark active'' err)
      | Inr _ \<Rightarrow> do {
          let cleanup = cleanup @ [ignore (call (oe_MarkInactive e chatJID))];
          releaseSandboxSlot chatJID;
          _ \<leftarrow> call (oe_ActiveCount e);
          s \<leftarrow> call (oe_SubscribeOutput e (g_Folder grp));
          (case s of
             Inl err \<Rightarrow> fail_spawn cleanup True (Wrapf ''subscribe output'' err)
           | Inr _ \<Rightarrow> do {
               modify (\<lambda>w. w\<lparr>goroutines := goroutines w @ [GoWatch chatJID]\<rparr>);
               i \<leftarrow> call (oe_SendInput e (g_Folder grp) DefaultAgentID (text_message grp payload));
               (case i of
                  Inl err \<Rightarrow> fail_spawn cleanup True (Wrapf ''send initial input'' err)
                | Inr _ \<Rightarrow> ret (True, Inr created)) }) })
   }"

definition spawnAgent :: "'x orch_env \<Rightarrow> string \<Rightarrow> Group \<Rightarrow> time \<Rightarrow> string \<Rightarrow> string \<Rightarrow> ('x, bool \<times> SandboxStatus result) orch" where
  "spawnAgent e chatJID grp previousCursor sessionID formatted =
     (let rollback = rollbackCursorStep e chatJID previousCursor;
          sbCfg = sandbox_config (oe_cfg e) chatJID grp sessionID formatted
      in case cj_encMessages (oe_codec e) formatted of
           Inl err \<Rightarrow> fail_spawn [rollback] False (Wrapf ''marshal initial input'' err)
         | Inr payload \<Rightarrow>
             if \<not> oe_hasSandbox e
             then fail_spawn [rollback] False (Errorf ''create sandbox: sandbox controller is nil (Kubernetes not connected)'')
             else do {
               en \<leftarrow> (if oc_FastStartEnabled (oe_cfg e) then ensureStreamForAgentWithRetry e (g_Folder grp) else ret (Inr ()));
               (case en of
                  Inl err \<Rightarrow> fail_spawn [rollback, releaseOrphanedStreams e grp] False (Wrapf ''ensure stream for agent'' err)
                | Inr _ \<Rightarrow> do {
                    now \<leftarrow> call (oe_Now e);
                    modify (\<lambda>w. w\<lparr>spawnStart := (spawnStart w)(chatJID \<mapsto> now)\<rparr>);
                    cr \<leftarrow> call (oe_CreateSandbox e sbCfg);
                    (case cr of
                       Inl err \<Rightarrow>
                         fail_spawn [rollback, releaseOrphanedStreams e grp, clearSpawnStart chatJID] False (Wrapf ''create sandbox'' err)
                     | Inr created \<Rightarrow> do {
                         modify (\<lambda>w. w\<lparr>activeSandboxes := (activeSandboxes w)(chatJID \<mapsto> st_Name created)\<rparr>);
                         start_agent e chatJID grp payload
                           [rollback, clearSpawnStart chatJID, stop_step e chatJID (st_Name created),
                            ignore (call (oe_DeleteStreams e (g_Folder grp)))] created }) })
             })"

section \<open>Processing a group\<close>

definition inflight_others :: "string \<Rightarrow> string list \<Rightarrow> int" where
  "inflight_others chatJID held = int (length (filter (\<lambda>j. j \<noteq> chatJID) held))"

definition processGroupMessages :: "'x orch_env \<Rightarrow> string \<Rightarrow> ('x, bool \<times> bool result) orch" where
  "processGroupMessages e chatJID = do {
     w \<leftarrow> gets id;
     (case map_of (registeredGroups w) chatJID of
        None \<Rightarrow> ret (False, Inr False)
      | Some grp \<Rightarrow> do {
          let agentTs = ts_get (lastAgentTimestamp w) chatJID;
          let sessionID = (case sessions w (g_Folder grp) of None \<Rightarrow> [] | Some s \<Rightarrow> s);
          r \<leftarrow> call (oe_GetMessagesSince e chatJID agentTs (oc_MessageLimit (oe_cfg e)));
          (case r of
             Inl err \<Rightarrow> ret (False, Inl (Wrapf ''get messages since'' err))
           | Inr messages \<Rightarrow>
               if messages = [] then ret (False, Inr False)
               else do {
                 t \<leftarrow> trigger_check e chatJID grp messages;
                 (case t of
                    Inl err \<Rightarrow> ret (False, Inl (Wrapf ''trigger check'' err))
                  | Inr triggered \<Rightarrow>
                      if \<not> triggered then ret (False, Inr False)
                      else do {
                        c \<leftarrow> call (oe_ActiveCount e);
                        (case c of
                           Inl err \<Rightarrow> ret (False, Inl (Wrapf ''check active count'' err))
                         | Inr activeCount \<Rightarrow> do {
                             held \<leftarrow> gets inflight;
                             if activeCount + inflight_others chatJID held \<ge> oc_MaxConcurrent (oe_cfg e) then ret (False, Inr False)
                             else do {
                               let formatted = FormatMessagesForAgent messages (oc_AssistantName (oe_cfg e));
                               modify (\<lambda>w. w\<lparr>lastAgentTimestamp := (lastAgentTimestamp w)(chatJID \<mapsto> m_Timestamp (last messages))\<rparr>);
                               ignore (saveState e);
                               s \<leftarrow> spawnAgent e chatJID grp agentTs sessionID formatted;
                               (case s of
                                  (released, Inl err) \<Rightarrow> ret (released, Inl err)
                                | (released, Inr status) \<Rightarrow> do {
                                    modify (\<lambda>w. w\<lparr>lastConfirmedTimestamp :=
                                      (lastConfirmedTimestamp w)(chatJID \<mapsto> ts_get (lastAgentTimestamp w) chatJID)\<rparr>);
                                    ignore (saveState e);
                                    ret (released, Inr True) }) } }) }) }) })
   }"

text \<open>The goroutine of a poll: the deferred release runs unless the slot was released already.\<close>

definition run_process :: "'x orch_env \<Rightarrow> string \<Rightarrow> ('x, bool result) orch" where
  "run_process e chatJID = do {
     p \<leftarrow> processGroupMessages e chatJID;
     (case p of (released, r) \<Rightarrow> do {
        (if released then ret () else releaseSandboxSlot chatJID);
        ret r })
   }"

text \<open>The recovery of a panic in that goroutine.\<close>

definition rollback_to_confirmed :: "string \<Rightarrow> 'x world \<Rightarrow> 'x world" where
  "rollback_to_confirmed chatJID w =
     (let confirmed = ts_get (lastConfirmedTimestamp w) chatJID; sent = ts_get (lastAgentTimestamp w) chatJID
      in if confirmed < sent
         then w\<lparr>lastAgentTimestamp := (lastAgentTimestamp w)(chatJID \<mapsto> confirmed)\<rparr> else w)"

definition process_panicked :: "'x orch_env \<Rightarrow> string \<Rightarrow> ('x, unit) orch" where
  "process_panicked e jid = do {
     wasActive \<leftarrow> gets (\<lambda>w. activeSandboxes w jid \<noteq> None);
     modify (\<lambda>w. rollback_to_confirmed jid (w\<lparr>activeSandboxes := (activeSandboxes w)(jid := None)\<rparr>));
     if wasActive then do {
       ignore (call (oe_MarkInactive e jid));
       ignore (saveState e)
     } else ret ()
   }"

section \<open>The poll\<close>

text \<open>Messages by chat, chats in the order of their first message (the map's order is \<open>oe_range\<close>).\<close>

definition chats_of :: "Message list \<Rightarrow> string list" where
  "chats_of ms = remdups (map m_ChatJID ms)"

definition pipe_messages :: "'x orch_env \<Rightarrow> string \<Rightarrow> Group \<Rightarrow> Message list \<Rightarrow> ('x, unit) orch" where
  "pipe_messages e chatJID grp groupMsgs = do {
     agentTs \<leftarrow> gets (\<lambda>w. ts_get (lastAgentTimestamp w) chatJID);
     r \<leftarrow> call (oe_GetMessagesSince e chatJID agentTs (oc_MessageLimit (oe_cfg e)));
     (case r of
        Inl _ \<Rightarrow> ret ()
      | Inr allPending \<Rightarrow>
          (let allPending = (if allPending = [] then groupMsgs else allPending);
               formatted = FormatMessagesForAgent allPending (oc_AssistantName (oe_cfg e))
           in case cj_encMessages (oe_codec e) formatted of
                Inl _ \<Rightarrow> ret ()
              | Inr payload \<Rightarrow> do {
                  s \<leftarrow> call (oe_SendInput e (g_Folder grp) DefaultAgentID (text_message grp payload));
                  (case s of
                     Inl _ \<Rightarrow> ret ()
                   | Inr _ \<Rightarrow> do {
                       modify (\<lambda>w. w\<lparr>lastAgentTimestamp := (lastAgentTimestamp w)(chatJID \<mapsto> m_Timestamp (last allPending))\<rparr>);
                       ignore (saveState e) }) }))
   }"

definition dispatch_group :: "'x orch_env \<Rightarrow> Message list \<Rightarrow> string \<Rightarrow> ('x, unit) orch" where
  "dispatch_group e messages chatJID =
     (let groupMsgs = filter (\<lambda>m. m_ChatJID m = chatJID) messages
      in do {
        g \<leftarrow> gets (\<lambda>w. map_of (registeredGroups w) chatJID);
        (case g of
           None \<Rightarrow> ret ()
         | Some grp \<Rightarrow> do {
             t \<leftarrow> trigger_check e chatJID grp groupMsgs;
             (case t of
                Inl _ \<Rightarrow> ret ()
              | Inr triggered \<Rightarrow>
                  if \<not> triggered then ret ()
                  else do {
                    a \<leftarrow> call (oe_IsActive e chatJID);
                    (case a of
                       Inl _ \<Rightarrow> ret ()
                     | Inr active \<Rightarrow>
                         if active then pipe_messages e chatJID grp groupMsgs
                         else do {
                           ok \<leftarrow> claimSandboxSlot chatJID;
                           if ok then modify (\<lambda>w. w\<lparr>goroutines := goroutines w @ [GoProcess chatJID]\<rparr>)
                           else ret () }) }) })
      })"

definition pollMessages :: "'x orch_env \<Rightarrow> ('x, unit) orch" where
  "pollMessages e = do {
     refreshGroups e;
     w \<leftarrow> gets id;
     let jids = map fst (registeredGroups w);
     if jids = [] then ret ()
     else do {
       r \<leftarrow> call (oe_GetNewMessages e jids (lastTimestamp w) (oc_MessageLimit (oe_cfg e)));
       (case r of
          Inl _ \<Rightarrow> ret ()
        | Inr messages \<Rightarrow>
            if messages = [] then ret ()
            else do {
              modify (\<lambda>w. w\<lparr>lastTimestamp := m_Timestamp (last messages)\<rparr>);
              ignore (saveState e);
              for_each (oe_range e (chats_of messages)) (dispatch_group e messages) }) }
   }"

section \<open>Inbound\<close>

definition store_inbound :: "'x orch_env \<Rightarrow> string \<Rightarrow> InboundMessage \<Rightarrow> ('x, unit) orch" where
  "store_inbound e chatJID msg = do {
     r \<leftarrow> call (oe_StoreMessage e
        \<lparr>m_ID = im_ID msg, m_ChatJID = im_ChatJID msg, m_Sender = im_Sender msg, m_SenderName = im_SenderName msg,
         m_Content = im_Content msg, m_Timestamp = im_Timestamp msg, m_IsFromMe = False, m_IsBotMessage = False\<rparr>);
     (case r of
        Inl _ \<Rightarrow> ret ()
      | Inr _ \<Rightarrow> modify (\<lambda>w. w\<lparr>notify := True\<rparr>))
   }"

definition rate_limited :: "'x orch_env \<Rightarrow> string \<Rightarrow> ('x, bool) orch" where
  "rate_limited e chatJID = do {
     lim \<leftarrow> gets (\<lambda>w. rateLimiters w chatJID);
     limiter \<leftarrow> (case lim of
        Some l \<Rightarrow> ret l
      | None \<Rightarrow> do { now \<leftarrow> call (oe_Now e); ret (newTokenBucket (oc_RateLimitTokensPerSec (oe_cfg e)) now) });
     now \<leftarrow> call (oe_Now e);
     (case TryAcquire now limiter of
        (ok, limiter') \<Rightarrow> do {
          modify (\<lambda>w. w\<lparr>rateLimiters := (rateLimiters w)(chatJID \<mapsto> limiter')\<rparr>);
          ret (\<not> ok) })
   }"

text \<open>\<open>command\<close> is \<open>handleSlashCommand\<close>, which says whether it consumed the message.\<close>

definition onInboundMessage :: "'x orch_env \<Rightarrow> (string \<Rightarrow> string \<Rightarrow> string \<Rightarrow> ('x, bool) orch) \<Rightarrow> string \<Rightarrow> InboundMessage \<Rightarrow> ('x, unit) orch" where
  "onInboundMessage e command chatJID msg = do {
     handled \<leftarrow> (if HasPrefix (TrimSpace (im_Content msg)) ''/''
        then command chatJID (im_Content msg) (im_Sender msg) else ret False);
     if handled then ret ()
     else do {
       limited \<leftarrow> rate_limited e chatJID;
       if limited then ret ()
       else if oc_MaxMessageSizeBytes (oe_cfg e) > 0 \<and>
               int (length (im_Content msg)) > oc_MaxMessageSizeBytes (oe_cfg e) then ret ()
       else store_inbound e chatJID msg
     }
   }"

definition onChatMeta :: "'x orch_env \<Rightarrow> string \<Rightarrow> time \<Rightarrow> string \<Rightarrow> string \<Rightarrow> bool \<Rightarrow> ('x, unit) orch" where
  "onChatMeta e chatJID timestamp name ch isGroup =
     ignore (call (oe_UpsertChat e \<lparr>c_JID = chatJID, c_Name = name, c_Channel = ch, c_IsGroup = isGroup, c_LastMessageTime = timestamp\<rparr>))"

definition executeScheduledTask :: "'x orch_env \<Rightarrow> ScheduledTask \<Rightarrow> ('x, unit result) orch" where
  "executeScheduledTask e task = do {
     now \<leftarrow> call (oe_Now e);
     msgID \<leftarrow> call (oe_NewUUID e);
     r \<leftarrow> call (oe_StoreMessage e
        \<lparr>m_ID = msgID, m_ChatJID = t_ChatJID task, m_Sender = ''scheduler'', m_SenderName = ''Scheduled Task'',
         m_Content = t_Prompt task, m_Timestamp = now, m_IsFromMe = False, m_IsBotMessage = False\<rparr>);
     (case r of
        Inl err \<Rightarrow> ret (Inl (Wrapf ''execute scheduled task: store message'' err))
      | Inr _ \<Rightarrow> do {
          q \<leftarrow> call (oe_Enqueue e (t_ChatJID task)
             \<lparr>q_GroupJID = t_ChatJID task, q_Content = t_Prompt task, q_Sender = [], q_Timestamp = now,
              q_IsTask = True, q_TaskID = t_ID task\<rparr>);
          (case q of
             Inl err \<Rightarrow> do {
               d \<leftarrow> call (oe_DeleteMessage e msgID (t_ChatJID task));
               (case d of
                  Inl delErr \<Rightarrow> ret (Inl (GoErr ''execute scheduled task: enqueue; compensating delete also failed'' [err, delErr]))
                | Inr _ \<Rightarrow> ret (Inl (Wrapf ''execute scheduled task'' err))) }
           | Inr _ \<Rightarrow> ret (Inr ())) })
   }"

end
