(* ===== verification/Orch_Dispatch_Props.thy ===== *)
theory Orch_Dispatch_Props
  imports Orch_Dispatch
begin

text \<open>
  What the dispatching half guarantees for every behaviour of its dependencies: a failed
  start of an agent leaves no trace in the orchestrator's state, the cursors move only for
  the chat being processed, and a message that cannot be started is dropped from the poll.
\<close>

section \<open>Handlers that only call outside\<close>

definition outside :: "'x world \<Rightarrow> 'x world \<Rightarrow> bool" where
  "outside w w' \<longleftrightarrow> w' = w\<lparr>ext := ext w'\<rparr>"

lemma outside_refl [simp]: "outside w w"
  by (simp add: outside_def)

lemma outside_ext [simp]: "outside w w' \<Longrightarrow> outside w (w'\<lparr>ext := x\<rparr>)"
  by (cases w; cases w'; simp add: outside_def)

lemma wp_outside:
  assumes "keeps (outside w) m" and "\<And>r x. Q r (w\<lparr>ext := x\<rparr>)"
  shows "wp m Q w"
proof (rule wp_keeps [OF assms(1)])
  fix r t assume "outside w t"
  then show "Q r t" unfolding outside_def using assms(2) by metis
qed simp

lemma keeps_ignore [keeps_intro]: "keeps I m \<Longrightarrow> keeps I (ignore m)"
  unfolding ignore_def by (intro keeps_intro)

lemma outside_hasTrigger: "keeps (outside w) (hasTriggerMessage e j g ms)"
proof (induction ms)
  case (Cons m ms)
  then show ?case unfolding hasTriggerMessage.simps IsAllowed_call_def
    by (intro keeps_intro keeps_call) simp_all
qed (simp add: keeps_intro)

lemma outside_trigger_check: "keeps (outside w) (trigger_check e j g ms)"
  unfolding trigger_check_def by (intro keeps_intro outside_hasTrigger)

lemma outside_ensure: "keeps (outside w) (ensure_attempts e f n err)"
proof (induction n arbitrary: err)
  case (Suc n)
  show ?case unfolding ensure_attempts.simps
    by (intro keeps_intro keeps_call Suc) simp_all
qed (simp add: keeps_intro)

lemma outside_release: "keeps (outside w) (releaseOrphanedStreams e g)"
  unfolding releaseOrphanedStreams_def
  by (intro keeps_intro keeps_call) simp_all

lemmas wp_trigger_check [wp_intro] = wp_outside [OF outside_trigger_check]
lemmas wp_releaseOrphanedStreams [wp_intro] = wp_outside [OF outside_release]

lemma wp_ensureStream [wp_intro]:
  "(\<And>r x. Q r (w\<lparr>ext := x\<rparr>)) \<Longrightarrow> wp (ensureStreamForAgentWithRetry e f) Q w"
  unfolding ensureStreamForAgentWithRetry_def by (rule wp_outside [OF outside_ensure])

section \<open>Starting an agent\<close>

text \<open>The state after a failed start: the chat's cursor is back, and what the start had noted is gone.\<close>

definition undone :: "string \<Rightarrow> time \<Rightarrow> 'x world \<Rightarrow> 'x world \<Rightarrow> bool" where
  "undone chat prev w w' \<longleftrightarrow>
     lastAgentTimestamp w' = (lastAgentTimestamp w)(chat \<mapsto> prev) \<and>
     lastConfirmedTimestamp w' = lastConfirmedTimestamp w \<and> lastTimestamp w' = lastTimestamp w \<and>
     sessions w' = sessions w \<and> registeredGroups w' = registeredGroups w \<and>
     activeSandboxes w' \<in> {activeSandboxes w, (activeSandboxes w)(chat := None)} \<and>
     spawnStart w' \<in> {spawnStart w, (spawnStart w)(chat := None)}"

definition started :: "string \<Rightarrow> string \<Rightarrow> 'x world \<Rightarrow> 'x world \<Rightarrow> bool" where
  "started chat name w w' \<longleftrightarrow>
     lastAgentTimestamp w' = lastAgentTimestamp w \<and> lastConfirmedTimestamp w' = lastConfirmedTimestamp w \<and>
     lastTimestamp w' = lastTimestamp w \<and>
     activeSandboxes w' = (activeSandboxes w)(chat \<mapsto> name) \<and>
     inflight w' = removeAll chat (inflight w) \<and> goroutines w' = goroutines w @ [GoWatch chat]"

definition spawn_post :: "string \<Rightarrow> time \<Rightarrow> 'x world \<Rightarrow> bool \<times> SandboxStatus result \<Rightarrow> 'x world \<Rightarrow> bool" where
  "spawn_post chat prev w p w' \<longleftrightarrow>
     (case snd p of
        Inl _ \<Rightarrow> undone chat prev w w' \<and> inflight w' = (if fst p then removeAll chat (inflight w) else inflight w)
      | Inr s \<Rightarrow> fst p \<and> started chat (st_Name s) w w')"

lemma wp_fail_spawn [wp_intro]:
  "wp (abortOnError cs) (\<lambda>_. Q (rel, Inl err)) w \<Longrightarrow> wp (fail_spawn cs rel err) Q w"
  unfolding fail_spawn_def by (intro wp_intro) (erule wp_mono, intro wp_intro)

lemma wp_abort_Cons [wp_intro]: "wp c (\<lambda>_. wp (abortOnError cs) Q) w \<Longrightarrow> wp (abortOnError (c # cs)) Q w"
  unfolding abortOnError.simps by (rule wp_bind)

lemma wp_abort_Nil [wp_intro]: "Q () w \<Longrightarrow> wp (abortOnError []) Q w"
  unfolding abortOnError.simps by (rule wp_ret)

lemmas spawn_defs = rollbackCursorStep_def clearSpawnStart_def stop_step_def releaseSandboxSlot_def

definition spawning :: "string \<Rightarrow> string \<Rightarrow> 'x world \<Rightarrow> 'x world \<Rightarrow> bool" where
  "spawning chat name w w1 \<longleftrightarrow>
     lastAgentTimestamp w1 = lastAgentTimestamp w \<and> lastConfirmedTimestamp w1 = lastConfirmedTimestamp w \<and>
     lastTimestamp w1 = lastTimestamp w \<and> sessions w1 = sessions w \<and> registeredGroups w1 = registeredGroups w \<and>
     activeSandboxes w1 = (activeSandboxes w)(chat \<mapsto> name) \<and> (\<exists>now. spawnStart w1 = (spawnStart w)(chat \<mapsto> now)) \<and>
     inflight w1 = inflight w \<and> goroutines w1 = goroutines w"

lemma start_agent_post:
  assumes "cleanup = [rollbackCursorStep e chat prev, clearSpawnStart chat, stop_step e chat (st_Name created),
      ignore (call (oe_DeleteStreams e (g_Folder grp)))]"
    and "spawning chat (st_Name created) w w1"
  shows "wp (start_agent e chat grp payload cleanup created) (spawn_post chat prev w) w1"
  unfolding start_agent_def Let_def assms(1) spawn_defs append.simps
  by (intro wp_intro) (use assms(2) in \<open>auto simp: spawn_post_def undone_def started_def spawning_def\<close>)

lemma wp_rollback:
  "(\<And>x a b c. Q () (w\<lparr>lastAgentTimestamp := (lastAgentTimestamp w)(chat \<mapsto> prev), ext := x,
      prevLastTimestampStr := a, prevAgentTsJSON := b, prevConfirmedTsJSON := c\<rparr>)) \<Longrightarrow>
   wp (rollbackCursorStep e chat prev) Q w"
  unfolding rollbackCursorStep_def by (intro wp_intro) simp

lemma wp_clear: "Q () (w\<lparr>spawnStart := (spawnStart w)(chat := None)\<rparr>) \<Longrightarrow> wp (clearSpawnStart chat) Q w"
  unfolding clearSpawnStart_def by (rule wp_modify)

lemma spawnAgent_post: "wp (spawnAgent e chat grp prev sid formatted) (spawn_post chat prev w) w"
  unfolding spawnAgent_def Let_def
  by (intro wp_intro wp_rollback wp_clear start_agent_post [OF refl])
    (auto simp: spawn_post_def undone_def spawning_def)

section \<open>Processing a group\<close>

lemma ts_get_same [simp]: "ts_get (m(k \<mapsto> ts_get m k)) = ts_get m"
  by (simp add: fun_eq_iff)

text \<open>Whatever the outcome, only the cursors of the chat can move, and only when an agent was started.\<close>

definition process_post :: "string \<Rightarrow> 'x world \<Rightarrow> bool \<times> bool result \<Rightarrow> 'x world \<Rightarrow> bool" where
  "process_post chat w p w' \<longleftrightarrow> lastTimestamp w' = lastTimestamp w \<and>
     inflight w' = (if fst p then removeAll chat (inflight w) else inflight w) \<and>
     (if snd p = Inr True
      then fst p \<and> (\<exists>t. lastAgentTimestamp w' = (lastAgentTimestamp w)(chat \<mapsto> t) \<and>
                     lastConfirmedTimestamp w' = (lastConfirmedTimestamp w)(chat \<mapsto> t)) \<and>
           (\<exists>name. activeSandboxes w' = (activeSandboxes w)(chat \<mapsto> name)) \<and> goroutines w' = goroutines w @ [GoWatch chat]
      else lastConfirmedTimestamp w' = lastConfirmedTimestamp w \<and>
           lastAgentTimestamp w' \<in> {lastAgentTimestamp w, (lastAgentTimestamp w)(chat \<mapsto> ts_get (lastAgentTimestamp w) chat)} \<and>
           activeSandboxes w' \<in> {activeSandboxes w, (activeSandboxes w)(chat := None)})"

lemma processGroupMessages_post: "wp (processGroupMessages e chat) (process_post chat w) w"
  unfolding processGroupMessages_def Let_def id_def
  by (intro wp_intro wp_mono [OF spawnAgent_post])
    (auto simp: process_post_def spawn_post_def undone_def started_def)

text \<open>
  C3: A group whose processing ends without a running agent, for whatever reason (no message,
  no trigger, the concurrency limit, or a failure of any call on the way), leaves every
  cursor where it was, so no message is passed over. When an agent was started, only this
  chat's cursors move, and the confirmed one moves with the one sent.
\<close>

theorem processGroupMessages_cursors:
  "case run_state (processGroupMessages e chat) w of ((released, r), w') \<Rightarrow>
     if r = Inr True
     then lastAgentTimestamp w' = (lastAgentTimestamp w)(chat := lastAgentTimestamp w' chat) \<and>
          lastConfirmedTimestamp w' = (lastConfirmedTimestamp w)(chat := lastAgentTimestamp w' chat) \<and>
          activeSandboxes w' chat \<noteq> None
     else ts_get (lastAgentTimestamp w') = ts_get (lastAgentTimestamp w) \<and>
          lastConfirmedTimestamp w' = lastConfirmedTimestamp w"
  using processGroupMessages_post [of e chat w]
  by (auto simp: wp_def process_post_def split: prod.splits if_splits)

text \<open>
  C4: The claim of a chat on an agent slot is given up exactly once, whatever happens: when the
  goroutine that holds it ends, the slot is free again and no other slot has changed.
\<close>

theorem slot_always_released:
  fixes w :: "'x world"
  shows "inflight (snd (run_state (run_process e chat) w)) = removeAll chat (inflight w)"
proof -
  have "wp (run_process e chat) (\<lambda>_ w'. inflight w' = removeAll chat (inflight w)) w"
    unfolding run_process_def releaseSandboxSlot_def
    by (intro wp_intro wp_mono [OF processGroupMessages_post]) (auto simp: process_post_def intro!: wp_intro split: prod.splits)
  then show ?thesis by (simp add: wp_def)
qed

end
