(* ===== verification/Orch_Watch.thy ===== *)
theory Orch_Watch
  imports Orch_Dispatch_Props
begin

text \<open>
  The watching half of \<open>internal/orchestrator/orchestrator.go\<close>: the messages of an agent, the
  end of an agent and what follows it, the lifecycle events of sandboxes, and the
  reconciliations. The loop of \<open>watchGroupOutput\<close> is a function of the inputs its
  \<open>select\<close> receives, one per turn.
\<close>

section \<open>Messages of an agent\<close>

definition route_reply :: "'x orch_env \<Rightarrow> string \<Rightarrow> string \<Rightarrow> ('x, unit) orch" where
  "route_reply e chatJID text = do {
     r \<leftarrow> call (oe_RouteOutbound e chatJID text);
     (case r of
        Inl _ \<Rightarrow> ret ()
      | Inr _ \<Rightarrow> do {
          mid \<leftarrow> call (oe_NewUUID e);
          now \<leftarrow> call (oe_Now e);
          ignore (call (oe_StoreMessage e
            \<lparr>m_ID = mid, m_ChatJID = chatJID, m_Sender = ''assistant'', m_SenderName = ''assistant'',
             m_Content = text, m_Timestamp = now, m_IsFromMe = False, m_IsBotMessage = True\<rparr>));
          modify (\<lambda>w. w\<lparr>lastConfirmedTimestamp := (lastConfirmedTimestamp w)(chatJID \<mapsto> ts_get (lastAgentTimestamp w) chatJID),
                         confirmedCursorDirty := True\<rparr>) })
   }"

definition handleIPCMessage :: "'x orch_env \<Rightarrow> string \<Rightarrow> Group \<Rightarrow> IPCMessage \<Rightarrow> ('x, bool) orch" where
  "handleIPCMessage e chatJID grp msg =
     (case ipc_Type msg of
        IPCMessageText \<Rightarrow>
          (case cj_decText (oe_codec e) (ipc_Payload msg) of
             Inl _ \<Rightarrow> ret False
           | Inr text \<Rightarrow> do { route_reply e chatJID text; ret False })
      | IPCSessionUpdate \<Rightarrow>
          (case cj_decSession (oe_codec e) (ipc_Payload msg) of
             Inl _ \<Rightarrow> ret False
           | Inr sessionID \<Rightarrow> do {
               modify (\<lambda>w. w\<lparr>sessions := (sessions w)(g_Folder grp \<mapsto> sessionID)\<rparr>);
               ignore (call (oe_UpsertSession e \<lparr>s_GroupFolder = g_Folder grp, s_SessionID = sessionID\<rparr>));
               ret False })
      | IPCTaskCreate \<Rightarrow>
          (case cj_decTask (oe_codec e) (ipc_Payload msg) of
             Inl _ \<Rightarrow> ret False
           | Inr task \<Rightarrow>
               (let task = task\<lparr>t_GroupFolder := g_Folder grp, t_ChatJID := chatJID\<rparr>
                in case ScheduledTask_Validate (oe_lib e) task of
                     Inl _ \<Rightarrow> ret False
                   | Inr _ \<Rightarrow> do { ignore (call (oe_CreateTask e task)); ret False }))
      | IPCTaskUpdate \<Rightarrow>
          (case cj_decTask (oe_codec e) (ipc_Payload msg) of
             Inl _ \<Rightarrow> ret False
           | Inr task \<Rightarrow>
               if t_GroupFolder task \<noteq> g_Folder grp then ret False
               else case ScheduledTask_Validate (oe_lib e) task of
                 Inl _ \<Rightarrow> ret False
               | Inr _ \<Rightarrow> do { ignore (call (oe_UpdateTask e task)); ret False })
      | IPCTaskDelete \<Rightarrow>
          (case cj_decID (oe_codec e) (ipc_Payload msg) of
             Inl _ \<Rightarrow> ret False
           | Inr tid \<Rightarrow> do { ignore (call (oe_DeleteTask e tid (g_Folder grp))); ret False })
      | IPCShutdown \<Rightarrow> do { ignore (call (oe_DeleteStreams e (g_Folder grp))); ret True }
      | _ \<Rightarrow> ret False)"

section \<open>The end of an agent\<close>

text \<open>The drain of the queue: up to five attempts, an attempt that finds nothing is skipped over.\<close>

fun drain_queue :: "'x orch_env \<Rightarrow> string \<Rightarrow> nat \<Rightarrow> ('x, QueueMessage option \<times> bool) orch" where
  "drain_queue e chatJID 0 = ret (None, False)"
| "drain_queue e chatJID (Suc n) = do {
     r \<leftarrow> call (oe_Dequeue e chatJID);
     (case r of
        Inl _ \<Rightarrow> ret (None, True)
      | Inr (Some msg) \<Rightarrow> ret (Some msg, False)
      | Inr None \<Rightarrow> drain_queue e chatJID n)
   }"

definition start_recovery :: "'x orch_env \<Rightarrow> string \<Rightarrow> QueueMessage option \<Rightarrow> bool \<Rightarrow> ('x, unit) orch" where
  "start_recovery e chatJID qMsg checkFailed = do {
     ok \<leftarrow> claimSandboxSlot chatJID;
     if ok then modify (\<lambda>w. w\<lparr>goroutines := goroutines w @ [GoRecover chatJID qMsg checkFailed]\<rparr>)
     else (case qMsg of
         None \<Rightarrow> ret ()
       | Some m \<Rightarrow> ignore (call (oe_Enqueue e chatJID m)))
   }"

text \<open>The part of \<open>deactivate\<close> after the group has been marked inactive.\<close>

definition after_inactive :: "'x orch_env \<Rightarrow> string \<Rightarrow> ('x, unit) orch" where
  "after_inactive e chatJID = do {
     modify (\<lambda>w. w\<lparr>activeSandboxes := (activeSandboxes w)(chatJID := None)\<rparr>);
     modify (rollback_to_confirmed chatJID);
     ignore (saveState e);
     agentTs \<leftarrow> gets (\<lambda>w. ts_get (lastAgentTimestamp w) chatJID);
     p \<leftarrow> call (oe_GetMessagesSince e chatJID agentTs 1);
     q \<leftarrow> drain_queue e chatJID 5;
     (case q of (qMsg, deqFailed) \<Rightarrow>
        (let checkFailed = (\<not> is_ok p \<or> deqFailed); pend = (case p of Inl _ \<Rightarrow> [] | Inr ms \<Rightarrow> ms)
         in if pend \<noteq> [] \<or> qMsg \<noteq> None \<or> checkFailed then start_recovery e chatJID qMsg checkFailed else ret ()))
   }"

definition deactivate :: "'x orch_env \<Rightarrow> string \<Rightarrow> ('x, unit) orch" where
  "deactivate e chatJID = do {
     a \<leftarrow> call (oe_IsActive e chatJID);
     (case a of
        Inl _ \<Rightarrow> after_inactive e chatJID
      | Inr active \<Rightarrow>
          if \<not> active then ret ()
          else do {
            m \<leftarrow> call (oe_MarkInactive e chatJID);
            (case m of Inl _ \<Rightarrow> ret () | Inr _ \<Rightarrow> after_inactive e chatJID) })
   }"

text \<open>The recovery goroutine: the consumed message goes back to the queue unless an agent was started.\<close>

definition run_recover :: "'x orch_env \<Rightarrow> string \<Rightarrow> QueueMessage option \<Rightarrow> ('x, unit) orch" where
  "run_recover e chatJID qMsg = do {
     p \<leftarrow> processGroupMessages e chatJID;
     (case p of (released, r) \<Rightarrow> do {
        (if r \<noteq> Inr True then (case qMsg of None \<Rightarrow> ret () | Some m \<Rightarrow> ignore (call (oe_Enqueue e chatJID m))) else ret ());
        (if released then ret () else releaseSandboxSlot chatJID) })
   }"

definition recover_panicked :: "'x orch_env \<Rightarrow> string \<Rightarrow> QueueMessage option \<Rightarrow> ('x, unit) orch" where
  "recover_panicked e chatJID qMsg = do {
     process_panicked e chatJID;
     (case qMsg of None \<Rightarrow> ret () | Some m \<Rightarrow> ignore (call (oe_Enqueue e chatJID m)))
   }"

section \<open>The watcher of a group\<close>

text \<open>
  What one turn of the \<open>select\<close> may receive: the end of the context, the startup deadline,
  a liveness tick, a message of the agent, the closing of the channel (with whether the
  context had ended, and at which of the reconnect pauses it ends), or a panic, which the
  deferred recovery turns into a deactivation.
\<close>

datatype watch_input =
    CtxCancelled
  | StartupDeadline
  | LivenessTick
  | Output IPCMessage
  | OutputClosed bool "bool list"
  | TurnPanics

record watch_state =
  ws_connected :: bool
  ws_done :: bool

text \<open>
  The reconnect loop: one subscription per delay, until one succeeds; \<open>cancels\<close> says at
  which of them the context has ended. The four delays are \<open>ipcReconnectDelays\<close>.
\<close>

datatype reconnect = Reconnected | Exhausted | ReconnectCancelled

fun try_reconnect :: "'x orch_env \<Rightarrow> string \<Rightarrow> bool list \<Rightarrow> nat \<Rightarrow> ('x, reconnect) orch" where
  "try_reconnect e folder cancels 0 = ret Exhausted"
| "try_reconnect e folder cancels (Suc n) =
     (if cancels \<noteq> [] \<and> hd cancels then ret ReconnectCancelled
      else do {
        r \<leftarrow> call (oe_SubscribeOutput e folder);
        (case r of Inr _ \<Rightarrow> ret Reconnected | Inl _ \<Rightarrow> try_reconnect e folder (tl cancels) n)
      })"

definition watch_turn :: "'x orch_env \<Rightarrow> string \<Rightarrow> Group \<Rightarrow> watch_state \<Rightarrow> watch_input \<Rightarrow> ('x, watch_state) orch" where
  "watch_turn e chatJID grp ws inp =
     (if ws_done ws then ret ws
      else case inp of
        CtxCancelled \<Rightarrow> ret (ws\<lparr>ws_done := True\<rparr>)
      | StartupDeadline \<Rightarrow>
          if \<not> ws_connected ws then do { deactivate e chatJID; ret (ws\<lparr>ws_done := True\<rparr>) } else ret ws
      | LivenessTick \<Rightarrow>
          if \<not> oe_hasSandbox e then ret ws
          else do {
            r \<leftarrow> call (oe_HasActiveSandbox e (g_Folder grp));
            (case r of
               Inl _ \<Rightarrow> ret ws
             | Inr active \<Rightarrow> if active then ret ws else do { deactivate e chatJID; ret (ws\<lparr>ws_done := True\<rparr>) })
          }
      | OutputClosed ctxErr cancels \<Rightarrow>
          if ctxErr then ret (ws\<lparr>ws_done := True\<rparr>)
          else do {
            rc \<leftarrow> try_reconnect e (g_Folder grp) cancels 4;
            (case rc of
               ReconnectCancelled \<Rightarrow> ret (ws\<lparr>ws_done := True\<rparr>)
             | Reconnected \<Rightarrow> ret (ws\<lparr>ws_connected := True\<rparr>)
             | Exhausted \<Rightarrow> do { deactivate e chatJID; ret (ws\<lparr>ws_done := True\<rparr>) })
          }
      | Output msg \<Rightarrow> do {
          recordFirstOutputPhase chatJID;
          stop \<leftarrow> handleIPCMessage e chatJID grp msg;
          if stop then do { deactivate e chatJID; ret (ws\<lparr>ws_connected := True, ws_done := True\<rparr>) }
          else ret (ws\<lparr>ws_connected := True\<rparr>)
        }
      | TurnPanics \<Rightarrow> do { deactivate e chatJID; ret (ws\<lparr>ws_done := True\<rparr>) })"

fun watch_loop :: "'x orch_env \<Rightarrow> string \<Rightarrow> Group \<Rightarrow> watch_state \<Rightarrow> watch_input list \<Rightarrow> ('x, watch_state) orch" where
  "watch_loop e chatJID grp ws [] = ret ws"
| "watch_loop e chatJID grp ws (i # is) = watch_turn e chatJID grp ws i \<bind> (\<lambda>ws. watch_loop e chatJID grp ws is)"

definition watchGroupOutput :: "'x orch_env \<Rightarrow> string \<Rightarrow> watch_input list \<Rightarrow> ('x, unit) orch" where
  "watchGroupOutput e chatJID is = do {
     g \<leftarrow> gets (\<lambda>w. map_of (registeredGroups w) chatJID);
     (case g of
        None \<Rightarrow> ret ()
      | Some grp \<Rightarrow> ignore (watch_loop e chatJID grp \<lparr>ws_connected = False, ws_done = False\<rparr> is))
   }"

section \<open>Sandbox events\<close>

definition terminal_event :: "SandboxEvent \<Rightarrow> bool" where
  "terminal_event ev \<longleftrightarrow> ev_Type ev = ''deleted'' \<or> st_State (ev_Status ev) = StateCompleted \<or> st_State (ev_Status ev) = StateFailed"

text \<open>The first registered group with the folder; the order of the map is \<open>oe_range\<close>.\<close>

definition chat_of_folder :: "'x orch_env \<Rightarrow> string \<Rightarrow> (string \<times> Group) list \<Rightarrow> string" where
  "chat_of_folder e folder groups =
     (case find (\<lambda>j. case map_of groups j of None \<Rightarrow> False | Some g \<Rightarrow> g_Folder g = folder) (oe_range e (map fst groups)) of
        None \<Rightarrow> [] | Some j \<Rightarrow> j)"

definition handleSandboxEvent :: "'x orch_env \<Rightarrow> SandboxEvent \<Rightarrow> ('x, unit) orch" where
  "handleSandboxEvent e ev =
     (let folder = st_Group (ev_Status ev)
      in if \<not> terminal_event ev then ret ()
         else if folder = [] then ret ()
         else do {
           w \<leftarrow> gets id;
           let chatJID = chat_of_folder e folder (registeredGroups w);
           let current = (case activeSandboxes w chatJID of None \<Rightarrow> [] | Some s \<Rightarrow> s);
           if chatJID = [] then ret ()
           else if current \<noteq> [] \<and> st_Name (ev_Status ev) \<noteq> current then ret ()
           else do {
             a \<leftarrow> call (oe_IsActive e chatJID);
             (case a of
                Inl _ \<Rightarrow> do {
                  modify (\<lambda>w. w\<lparr>activeSandboxes := (activeSandboxes w)(chatJID := None)\<rparr>);
                  ignore (call (oe_MarkInactive e chatJID)) }
              | Inr active \<Rightarrow>
                  if \<not> active then ret ()
                  else do {
                    modify (\<lambda>w. w\<lparr>activeSandboxes := (activeSandboxes w)(chatJID := None)\<rparr>);
                    ignore (call (oe_MarkInactive e chatJID)) }) }
         })"

section \<open>Reconciliation\<close>

definition reconcile_jid :: "'x orch_env \<Rightarrow> string \<Rightarrow> ('x, unit) orch" where
  "reconcile_jid e jid = do {
     g \<leftarrow> gets (\<lambda>w. map_of (registeredGroups w) jid);
     (case g of
        None \<Rightarrow> ignore (call (oe_MarkInactive e jid))
      | Some grp \<Rightarrow>
          if \<not> oe_hasSandbox e then ignore (call (oe_MarkInactive e jid))
          else do {
            h \<leftarrow> call (oe_HasActiveSandbox e (g_Folder grp));
            (case h of
               Inl _ \<Rightarrow> ret ()
             | Inr hasActive \<Rightarrow> if hasActive then ret () else ignore (call (oe_MarkInactive e jid))) })
   }"

definition reconcileActiveSet :: "'x orch_env \<Rightarrow> ('x, unit) orch" where
  "reconcileActiveSet e = do {
     r \<leftarrow> call (oe_ActiveJIDs e);
     (case r of Inl _ \<Rightarrow> ret () | Inr jids \<Rightarrow> for_each jids (reconcile_jid e))
   }"

definition recover_group :: "'x orch_env \<Rightarrow> (string \<rightharpoonup> time) \<Rightarrow> string \<Rightarrow> ('x, unit) orch" where
  "recover_group e agentTimestamps chatJID = do {
     p \<leftarrow> call (oe_GetMessagesSince e chatJID (ts_get agentTimestamps chatJID) 1);
     (case p of
        Inl _ \<Rightarrow> ret ()
      | Inr pend \<Rightarrow>
          if pend = [] then ret ()
          else do {
            now \<leftarrow> call (oe_Now e);
            ignore (call (oe_Enqueue e chatJID
              \<lparr>q_GroupJID = chatJID, q_Content = ''recovery'', q_Sender = [], q_Timestamp = now, q_IsTask = False, q_TaskID = []\<rparr>)) })
   }"

definition recoverPendingMessages :: "'x orch_env \<Rightarrow> ('x, unit) orch" where
  "recoverPendingMessages e = do {
     w \<leftarrow> gets id;
     for_each (oe_range e (map fst (registeredGroups w))) (recover_group e (lastAgentTimestamp w))
   }"

definition reconcile_stream :: "'x orch_env \<Rightarrow> Group \<Rightarrow> ('x, unit) orch" where
  "reconcile_stream e g = do {
     held \<leftarrow> gets inflight;
     if g_JID g \<in> set held then ret ()
     else do {
       a \<leftarrow> call (oe_IsActive e (g_JID g));
       (case a of
          Inl _ \<Rightarrow> ret ()
        | Inr queueActive \<Rightarrow>
            if queueActive then ret ()
            else do {
              h \<leftarrow> call (oe_HasActiveSandbox e (g_Folder g));
              (case h of
                 Inl _ \<Rightarrow> ret ()
               | Inr has \<Rightarrow>
                   if has then ret ()
                   else do {
                     x \<leftarrow> call (oe_StreamExists e (g_Folder g));
                     (case x of
                        Inl _ \<Rightarrow> ret ()
                      | Inr ex \<Rightarrow> if \<not> ex then ret () else ignore (call (oe_DeleteStreams e (g_Folder g)))) }) }) }
   }"

text \<open>The loop ends early when the context has ended.\<close>

fun reconcile_streams :: "'x orch_env \<Rightarrow> Group list \<Rightarrow> ('x, unit) orch" where
  "reconcile_streams e [] = ret ()"
| "reconcile_streams e (g # gs) = do {
     stop \<leftarrow> call (oe_cancelled e);
     if stop then ret () else do { reconcile_stream e g; reconcile_streams e gs }
   }"

definition reconcileIPCStreams :: "'x orch_env \<Rightarrow> ('x, unit) orch" where
  "reconcileIPCStreams e = groupsList \<bind> reconcile_streams e"

section \<open>Startup\<close>

text \<open>
  \<open>Start\<close> up to the point where it blocks until the context ends: \<open>oe_ConnectAll\<close> gives the
  number of channels the registry has connected.
\<close>

definition go :: "goroutine list \<Rightarrow> ('x, unit) orch" where
  "go gs = modify (\<lambda>w. w\<lparr>goroutines := goroutines w @ gs\<rparr>)"

definition Start :: "'x orch_env \<Rightarrow> ('x, unit result) orch" where
  "Start e = do {
     r \<leftarrow> loadState e;
     (case r of
        Inl err \<Rightarrow> ret (Inl (Wrapf ''orchestrator: load state'' err))
      | Inr _ \<Rightarrow> do {
          c \<leftarrow> call (oe_ConnectAll e);
          (case c of
             Inl err \<Rightarrow> ret (Inl (Wrapf ''orchestrator: connect channels'' err))
           | Inr n \<Rightarrow>
               if n = 0 then ret (Inl (Errorf ''orchestrator: no channels connected''))
               else do {
                 go [GoScheduler];
                 (if oe_hasSandbox e then ignore (call (oe_CleanupOrphans e)) else ret ());
                 reconcileActiveSet e;
                 (if oe_hasSandbox e then go [GoOrphanCleanup, GoSandboxWatcher, GoStreamReconciler] else ret ());
                 go [GoMessageLoop, GoCursorFlusher];
                 recoverPendingMessages e;
                 ret (Inr ()) }) })
   }"

end
