(* ===== verification/Orch_System.thy ===== *)
theory Orch_System
  imports Orch_Watch
begin

text \<open>
  The orchestrator's environment on the MySQL store: every store call and every call on the
  active set is the model's own definition, under an arbitrary pattern of driver faults.
  Every other call (NATS, Kubernetes, channels) is recorded in a log with its outcome, and
  its answer is read off arbitrary functions (\<open>outcomes\<close>), so a theorem over this environment holds for
  every sequence of answers those services may give.
\<close>

datatype ext_call =
    CEnqueue string QueueMessage
  | CDequeue string
  | CSendInput string string IPCMessage
  | CSubscribe string
  | CEnsureStream string string
  | CDeleteStreams string
  | CStreamExists string
  | CCreateSandbox SandboxConfig
  | CStopSandbox string
  | CHasActive string
  | CRoute string string
  | CConnectAll
  | CCleanupOrphans

record outcomes =
  or_fault :: "nat \<Rightarrow> fault"
  or_now :: "nat \<Rightarrow> time"
  or_uuid :: "nat \<Rightarrow> string"
  or_fail :: "nat \<Rightarrow> goerr option"
  or_flag :: "nat \<Rightarrow> bool"
  or_deq :: "nat \<Rightarrow> QueueMessage option"
  or_sandbox :: "nat \<Rightarrow> SandboxStatus"
  or_channels :: "nat \<Rightarrow> nat"

record sys =
  y_db :: db
  y_tick :: nat
  y_log :: "(ext_call \<times> bool) list"

definition tick :: "nat \<Rightarrow> sys \<Rightarrow> sys" where
  "tick n y = y\<lparr>y_tick := y_tick y + n\<rparr>"

definition answer :: "(nat \<Rightarrow> 'a) \<Rightarrow> sys \<Rightarrow> 'a \<times> sys" where
  "answer f y = (f (y_tick y), tick 1 y)"

definition db_read :: "outcomes \<Rightarrow> (fault \<Rightarrow> db \<Rightarrow> 'a) \<Rightarrow> sys \<Rightarrow> 'a \<times> sys" where
  "db_read o1 q y = (q (or_fault o1 (y_tick y)) (y_db y), tick 1 y)"

definition db_write :: "outcomes \<Rightarrow> (fault \<Rightarrow> db \<Rightarrow> 'a \<times> db) \<Rightarrow> sys \<Rightarrow> 'a \<times> sys" where
  "db_write o1 q y = (case q (or_fault o1 (y_tick y)) (y_db y) of (r, d) \<Rightarrow> (r, tick 1 (y\<lparr>y_db := d\<rparr>)))"

text \<open>The active set takes three statements, hence three faults and the clock of the first.\<close>

definition db_mark :: "outcomes \<Rightarrow> (mark_faults \<Rightarrow> db \<Rightarrow> 'a \<times> db) \<Rightarrow> sys \<Rightarrow> 'a \<times> sys" where
  "db_mark o1 q y =
     (let t = y_tick y
      in case q (or_fault o1 t, or_fault o1 (t + 1), or_fault o1 (t + 2), or_now o1 t) (y_db y) of
           (r, d) \<Rightarrow> (r, tick 3 (y\<lparr>y_db := d\<rparr>)))"

definition ext_do :: "outcomes \<Rightarrow> ext_call \<Rightarrow> (nat \<Rightarrow> 'a) \<Rightarrow> sys \<Rightarrow> 'a result \<times> sys" where
  "ext_do o1 c v y =
     (case or_fail o1 (y_tick y) of
        Some err \<Rightarrow> (Inl err, tick 1 (y\<lparr>y_log := y_log y @ [(c, False)]\<rparr>))
      | None \<Rightarrow> (Inr (v (y_tick y)), tick 1 (y\<lparr>y_log := y_log y @ [(c, True)]\<rparr>)))"

definition sys_env :: "orch_config \<Rightarrow> orch_codec \<Rightarrow> sched_lib \<Rightarrow> (string list \<Rightarrow> string list) \<Rightarrow> bool \<Rightarrow> outcomes \<Rightarrow> sys orch_env" where
  "sys_env cfg codec lib rng sb o1 =
     \<lparr>oe_cfg = cfg, oe_codec = codec, oe_lib = lib, oe_range = rng,
      oe_Now = answer (or_now o1), oe_NewUUID = answer (or_uuid o1),
      oe_GetState = (\<lambda>k. db_read o1 (\<lambda>f. GetState f k)),
      oe_SetState = (\<lambda>k v. db_write o1 (\<lambda>f. SetState f k v)),
      oe_ListGroups = db_read o1 ListGroups,
      oe_GetGroup = (\<lambda>j. db_read o1 (\<lambda>f. GetGroup f j)),
      oe_UpsertGroup = (\<lambda>g. db_write o1 (\<lambda>f. UpsertGroup f g)),
      oe_GetSession = (\<lambda>k. db_read o1 (\<lambda>f. GetSession f k)),
      oe_UpsertSession = (\<lambda>s. db_write o1 (\<lambda>f. UpsertSession f s)),
      oe_DeleteSession = (\<lambda>k. db_write o1 (\<lambda>f. DeleteSession f k)),
      oe_StoreMessage = (\<lambda>m. db_write o1 (\<lambda>f. StoreMessage f m)),
      oe_DeleteMessage = (\<lambda>i j. db_write o1 (\<lambda>f. DeleteMessage f i j)),
      oe_GetNewMessages = (\<lambda>js t n. db_read o1 (\<lambda>f. GetNewMessages f js t n)),
      oe_GetMessagesSince = (\<lambda>j t n. db_read o1 (\<lambda>f. GetMessagesSince f j t n)),
      oe_UpsertChat = (\<lambda>c. db_write o1 (\<lambda>f. UpsertChat f c)),
      oe_CreateTask = (\<lambda>t. db_write o1 (\<lambda>f. CreateTask f t)),
      oe_UpdateTask = (\<lambda>t. db_write o1 (\<lambda>f. UpdateTask f t)),
      oe_DeleteTask = (\<lambda>i g. db_write o1 (\<lambda>f. DeleteTask f i g)),
      oe_GetAllowlist = (\<lambda>j. db_read o1 (\<lambda>f. GetAllowlist f j)),
      oe_Enqueue = (\<lambda>j m. ext_do o1 (CEnqueue j m) (\<lambda>_. ())),
      oe_Dequeue = (\<lambda>j. ext_do o1 (CDequeue j) (or_deq o1)),
      oe_MarkActive = (\<lambda>j. db_mark o1 (\<lambda>fs. q_MarkActive fs j)),
      oe_MarkInactive = (\<lambda>j. db_mark o1 (\<lambda>fs. q_MarkInactive fs j)),
      oe_IsActive = (\<lambda>j. db_read o1 (\<lambda>f. q_IsActive f j)),
      oe_ActiveCount = db_read o1 q_ActiveCount,
      oe_ActiveJIDs = db_read o1 q_ActiveJIDs,
      oe_SendInput = (\<lambda>g a m. ext_do o1 (CSendInput g a m) (\<lambda>_. ())),
      oe_SubscribeOutput = (\<lambda>g. ext_do o1 (CSubscribe g) (\<lambda>_. ())),
      oe_EnsureStreamForAgent = (\<lambda>g a. ext_do o1 (CEnsureStream g a) (\<lambda>_. ())),
      oe_DeleteStreams = (\<lambda>g. ext_do o1 (CDeleteStreams g) (\<lambda>_. ())),
      oe_StreamExists = (\<lambda>g. ext_do o1 (CStreamExists g) (or_flag o1)),
      oe_hasSandbox = sb,
      oe_CreateSandbox = (\<lambda>c. ext_do o1 (CCreateSandbox c) (or_sandbox o1)),
      oe_StopSandbox = (\<lambda>n. ext_do o1 (CStopSandbox n) (\<lambda>_. ())),
      oe_HasActiveSandbox = (\<lambda>g. ext_do o1 (CHasActive g) (or_flag o1)),
      oe_RouteOutbound = (\<lambda>j t. ext_do o1 (CRoute j t) (\<lambda>_. ())),
      oe_cancelled = answer (or_flag o1),
      oe_ConnectAll = ext_do o1 CConnectAll (or_channels o1),
      oe_CleanupOrphans = ext_do o1 CCleanupOrphans (\<lambda>_. ())\<rparr>"

text \<open>The calls of the environment, and what each leaves of the database.\<close>

named_theorems sys_simps

lemma sys_env_sel [sys_simps]:
  "oe_cfg (sys_env cfg codec lib rng sb o1) = cfg"
  "oe_codec (sys_env cfg codec lib rng sb o1) = codec"
  "oe_lib (sys_env cfg codec lib rng sb o1) = lib"
  "oe_range (sys_env cfg codec lib rng sb o1) = rng"
  "oe_Now (sys_env cfg codec lib rng sb o1) = answer (or_now o1)"
  "oe_NewUUID (sys_env cfg codec lib rng sb o1) = answer (or_uuid o1)"
  "oe_GetState (sys_env cfg codec lib rng sb o1) = (\<lambda>k. db_read o1 (\<lambda>f. GetState f k))"
  "oe_SetState (sys_env cfg codec lib rng sb o1) = (\<lambda>k v. db_write o1 (\<lambda>f. SetState f k v))"
  "oe_ListGroups (sys_env cfg codec lib rng sb o1) = db_read o1 ListGroups"
  "oe_GetGroup (sys_env cfg codec lib rng sb o1) = (\<lambda>j. db_read o1 (\<lambda>f. GetGroup f j))"
  "oe_UpsertGroup (sys_env cfg codec lib rng sb o1) = (\<lambda>g. db_write o1 (\<lambda>f. UpsertGroup f g))"
  "oe_GetSession (sys_env cfg codec lib rng sb o1) = (\<lambda>k. db_read o1 (\<lambda>f. GetSession f k))"
  "oe_UpsertSession (sys_env cfg codec lib rng sb o1) = (\<lambda>s. db_write o1 (\<lambda>f. UpsertSession f s))"
  "oe_DeleteSession (sys_env cfg codec lib rng sb o1) = (\<lambda>k. db_write o1 (\<lambda>f. DeleteSession f k))"
  "oe_StoreMessage (sys_env cfg codec lib rng sb o1) = (\<lambda>m. db_write o1 (\<lambda>f. StoreMessage f m))"
  "oe_DeleteMessage (sys_env cfg codec lib rng sb o1) = (\<lambda>i j. db_write o1 (\<lambda>f. DeleteMessage f i j))"
  "oe_GetNewMessages (sys_env cfg codec lib rng sb o1) = (\<lambda>js t n. db_read o1 (\<lambda>f. GetNewMessages f js t n))"
  "oe_GetMessagesSince (sys_env cfg codec lib rng sb o1) = (\<lambda>j t n. db_read o1 (\<lambda>f. GetMessagesSince f j t n))"
  "oe_UpsertChat (sys_env cfg codec lib rng sb o1) = (\<lambda>c. db_write o1 (\<lambda>f. UpsertChat f c))"
  "oe_CreateTask (sys_env cfg codec lib rng sb o1) = (\<lambda>t. db_write o1 (\<lambda>f. CreateTask f t))"
  "oe_UpdateTask (sys_env cfg codec lib rng sb o1) = (\<lambda>t. db_write o1 (\<lambda>f. UpdateTask f t))"
  "oe_DeleteTask (sys_env cfg codec lib rng sb o1) = (\<lambda>i g. db_write o1 (\<lambda>f. DeleteTask f i g))"
  "oe_GetAllowlist (sys_env cfg codec lib rng sb o1) = (\<lambda>j. db_read o1 (\<lambda>f. GetAllowlist f j))"
  "oe_Enqueue (sys_env cfg codec lib rng sb o1) = (\<lambda>j m. ext_do o1 (CEnqueue j m) (\<lambda>_. ()))"
  "oe_Dequeue (sys_env cfg codec lib rng sb o1) = (\<lambda>j. ext_do o1 (CDequeue j) (or_deq o1))"
  "oe_MarkActive (sys_env cfg codec lib rng sb o1) = (\<lambda>j. db_mark o1 (\<lambda>fs. q_MarkActive fs j))"
  "oe_MarkInactive (sys_env cfg codec lib rng sb o1) = (\<lambda>j. db_mark o1 (\<lambda>fs. q_MarkInactive fs j))"
  "oe_IsActive (sys_env cfg codec lib rng sb o1) = (\<lambda>j. db_read o1 (\<lambda>f. q_IsActive f j))"
  "oe_ActiveCount (sys_env cfg codec lib rng sb o1) = db_read o1 q_ActiveCount"
  "oe_ActiveJIDs (sys_env cfg codec lib rng sb o1) = db_read o1 q_ActiveJIDs"
  "oe_SendInput (sys_env cfg codec lib rng sb o1) = (\<lambda>g a m. ext_do o1 (CSendInput g a m) (\<lambda>_. ()))"
  "oe_SubscribeOutput (sys_env cfg codec lib rng sb o1) = (\<lambda>g. ext_do o1 (CSubscribe g) (\<lambda>_. ()))"
  "oe_EnsureStreamForAgent (sys_env cfg codec lib rng sb o1) = (\<lambda>g a. ext_do o1 (CEnsureStream g a) (\<lambda>_. ()))"
  "oe_DeleteStreams (sys_env cfg codec lib rng sb o1) = (\<lambda>g. ext_do o1 (CDeleteStreams g) (\<lambda>_. ()))"
  "oe_StreamExists (sys_env cfg codec lib rng sb o1) = (\<lambda>g. ext_do o1 (CStreamExists g) (or_flag o1))"
  "oe_hasSandbox (sys_env cfg codec lib rng sb o1) = sb"
  "oe_CreateSandbox (sys_env cfg codec lib rng sb o1) = (\<lambda>c. ext_do o1 (CCreateSandbox c) (or_sandbox o1))"
  "oe_StopSandbox (sys_env cfg codec lib rng sb o1) = (\<lambda>n. ext_do o1 (CStopSandbox n) (\<lambda>_. ()))"
  "oe_HasActiveSandbox (sys_env cfg codec lib rng sb o1) = (\<lambda>g. ext_do o1 (CHasActive g) (or_flag o1))"
  "oe_RouteOutbound (sys_env cfg codec lib rng sb o1) = (\<lambda>j t. ext_do o1 (CRoute j t) (\<lambda>_. ()))"
  "oe_cancelled (sys_env cfg codec lib rng sb o1) = answer (or_flag o1)"
  "oe_ConnectAll (sys_env cfg codec lib rng sb o1) = ext_do o1 CConnectAll (or_channels o1)"
  "oe_CleanupOrphans (sys_env cfg codec lib rng sb o1) = ext_do o1 CCleanupOrphans (\<lambda>_. ())"
  by (simp_all add: sys_env_def)



lemma tick_simps [simp]: "y_db (tick n y) = y_db y" "y_log (tick n y) = y_log y" "y_tick (tick n y) = y_tick y + n"
  by (simp_all add: tick_def)

lemma sys_effects [simp]:
  "y_db (snd (answer f y)) = y_db y"
  "y_db (snd (db_read o1 q y)) = y_db y"
  "y_db (snd (ext_do o1 c v y)) = y_db y"
  "y_db (snd (db_write o1 p y)) = snd (p (or_fault o1 (y_tick y)) (y_db y))"
  "y_log (snd (answer f y)) = y_log y"
  "y_log (snd (db_read o1 q y)) = y_log y"
  "y_log (snd (db_write o1 p y)) = y_log y"
  by (simp_all add: answer_def db_read_def ext_do_def db_write_def split: option.split prod.split)

lemma db_mark_effects [simp]:
  "y_db (snd (db_mark o1 p y)) =
     snd (p (or_fault o1 (y_tick y), or_fault o1 (y_tick y + 1), or_fault o1 (y_tick y + 2), or_now o1 (y_tick y)) (y_db y))"
  "y_log (snd (db_mark o1 p y)) = y_log y"
  by (simp_all add: db_mark_def Let_def split: prod.split)

text \<open>An invariant of the outside world is kept by a handler when its calls keep it.\<close>

lemma keeps_ext_call: "(\<And>x. J x \<Longrightarrow> J (snd (f x))) \<Longrightarrow> keeps (\<lambda>w. J (ext w)) (call f)"
  by (simp add: keeps_def run_call)

lemma keeps_ext_modify: "(\<And>w. ext (f w) = ext w) \<Longrightarrow> keeps (\<lambda>w. J (ext w)) (modify f)"
  by (simp add: keeps_def)

lemma ext_rollback [simp]: "ext (rollback_to_confirmed j w) = ext w"
  by (simp add: rollback_to_confirmed_def Let_def)

section \<open>The persisted cursors\<close>

definition sys_val :: "sys \<Rightarrow> string \<Rightarrow> string" where
  "sys_val y k = (case map_of (db_state (y_db y)) k of None \<Rightarrow> [] | Some v \<Rightarrow> v)"

lemma map_of_filter_key: "map_of (filter (\<lambda>kv. fst kv \<noteq> key) xs) k = (if k = key then None else map_of xs k)"
  by (induction xs) auto

text \<open>The store implements the interface of the router state, under any pattern of driver faults.\<close>

interpretation sys_state: router_state "oe_GetState (sys_env cfg codec lib rng sb o1)" "oe_SetState (sys_env cfg codec lib rng sb o1)" sys_val
  for cfg codec lib rng sb o1
proof unfold_locales
  let ?e = "sys_env cfg codec lib rng sb o1"
  fix k v err s
  show "fst (oe_SetState ?e k v s) = Inr () \<Longrightarrow> sys_val (snd (oe_SetState ?e k v s)) = (sys_val s)(k := v)"
    by (auto simp: sys_env_def db_write_def SetState_def sys_val_def fun_eq_iff map_add_def map_of_filter_key
        split: option.splits if_splits)
  show "fst (oe_SetState ?e k v s) = Inl err \<Longrightarrow> sys_val (snd (oe_SetState ?e k v s)) = sys_val s"
    by (auto simp: sys_env_def db_write_def SetState_def sys_val_def split: option.splits)
  show "fst (oe_GetState ?e k s) = Inr v \<Longrightarrow> v = sys_val s k"
    by (auto simp: sys_env_def db_read_def GetState_def sys_val_def split: option.splits)
  show "sys_val (snd (oe_GetState ?e k s)) = sys_val s"
    by (simp add: sys_env_def sys_val_def fun_eq_iff)
qed

text \<open>
  C11: A restart loses no cursor: when \<open>saveState\<close> reports success, the next start loads the
  same poll cursor and the same agent cursors, and the confirmed cursors with the agent
  cursor filled in where a chat had none. The writes it skips because the value is
  unchanged do not matter, and neither do failed writes before.
\<close>

theorem cursors_survive_restart:
  assumes "codec_ok codec" and "prev_ok sys_val w"
    and "run_state (saveState (sys_env cfg codec lib rng sb o1)) w = (Inr (), w1)"
    and "y_db (ext w0) = y_db (ext w1)" and "lastAgentTimestamp w0 = Map.empty" and "lastConfirmedTimestamp w0 = Map.empty"
    and "run_state (loadState (sys_env cfg' codec lib' rng' sb' o2)) w0 = (Inr (), w2)"
  shows "lastTimestamp w2 = lastTimestamp w \<and> lastAgentTimestamp w2 = lastAgentTimestamp w \<and>
    lastConfirmedTimestamp w2 = lastAgentTimestamp w ++ lastConfirmedTimestamp w"
proof -
  have codec: "oe_codec (sys_env cfg codec lib rng sb o1) = codec" "oe_codec (sys_env cfg' codec lib' rng' sb' o2) = codec"
    by (simp_all add: sys_env_def)
  have "sys_val (ext w0) = sys_val (ext w1)" using assms(4) by (simp add: sys_val_def fun_eq_iff)
  then show ?thesis
    using sys_state.saveState_persists [OF refl _ assms(2,3)] assms(1)
      sys_state.loadState_loads [OF refl _ _ _ _ assms(5-7), of "lastTimestamp w" "lastAgentTimestamp w" "lastConfirmedTimestamp w"]
    by (simp add: loaded_def codec)
qed

section \<open>A concrete system\<close>

text \<open>Times in unary and maps with at most the key \<open>g\<close>: enough to evaluate small runs.\<close>

definition demo_fmtTs :: "time \<Rightarrow> string" where
  "demo_fmtTs t = (if t < 0 then CHR ''-'' else CHR ''+'') # replicate (nat \<bar>t\<bar>) CHR ''1''"

definition demo_parseTs :: "string \<Rightarrow> time result" where
  "demo_parseTs s = (case s of [] \<Rightarrow> Inl (Errorf ''time'') | c # cs \<Rightarrow> Inr (if c = CHR ''-'' then - int (length cs) else int (length cs)))"

definition demo_encMap :: "(string \<rightharpoonup> string) \<Rightarrow> string result" where
  "demo_encMap m = (if m = Map.empty then Inr ''{}''
     else if m = [''g'' \<mapsto> the (m ''g'')] then Inr (''g:'' @ the (m ''g'')) else Inl (Errorf ''json''))"

definition demo_decMap :: "string \<Rightarrow> (string \<rightharpoonup> string) result" where
  "demo_decMap s = (if s = ''{}'' then Inr Map.empty else if HasPrefix s ''g:'' then Inr [''g'' \<mapsto> drop 2 s] else Inl (Errorf ''json''))"

definition demo_orch_codec :: orch_codec where
  "demo_orch_codec = \<lparr>cj_fmtTs = demo_fmtTs, cj_parseTs = demo_parseTs, cj_encMap = demo_encMap, cj_decMap = demo_decMap,
     cj_encMessages = Inr, cj_encModel = Inr, cj_decText = Inr, cj_decSession = Inr,
     cj_decTask = (\<lambda>_. Inl (Errorf ''json'')), cj_decID = Inr\<rparr>"

lemma demo_codec_ok: "codec_ok demo_orch_codec"
  by (auto simp: codec_ok_def demo_orch_codec_def demo_fmtTs_def demo_parseTs_def demo_encMap_def demo_decMap_def HasPrefix_def
      split: if_splits)

definition demo_cfg :: orch_config where
  "demo_cfg = \<lparr>oc_MessageLimit = 10, oc_MaxConcurrent = 1, oc_IdleTimeout = 0, oc_RateLimitTokensPerSec = 5,
     oc_MaxMessageSizeBytes = 0, oc_AssistantName = ''Andy'', oc_SessionsPVC = [], oc_GroupsPVC = [], oc_DataPVC = [],
     oc_FastStartEnabled = False\<rparr>"

definition demo_status :: SandboxStatus where
  "demo_status = \<lparr>st_Name = ''sb-1'', st_Group = ''main'', st_State = StateFailed, st_StartTime = None, st_EndTime = None\<rparr>"

definition demo_outcomes :: outcomes where
  "demo_outcomes = \<lparr>or_fault = (\<lambda>_. None), or_now = (\<lambda>n. int n), or_uuid = (\<lambda>n. ''u''), or_fail = (\<lambda>_. None),
     or_flag = (\<lambda>_. False), or_deq = (\<lambda>_. None), or_sandbox = (\<lambda>_. demo_status), or_channels = (\<lambda>_. 1)\<rparr>"

abbreviation demo_env :: "sys orch_env" where
  "demo_env \<equiv> sys_env demo_cfg demo_orch_codec demo_lib id True demo_outcomes"

text \<open>One group \<open>g\<close> in folder \<open>main\<close>; \<open>a\<close> says whether it is marked active.\<close>

definition chat_group :: Group where
  "chat_group = \<lparr>g_JID = ''g'', g_Name = ''G'', g_Folder = ''main'', g_TriggerPattern = [], g_AddedAt = 0,
     g_ContainerConfig = None, g_RequiresTrigger = False, g_IsMain = True\<rparr>"

definition demo_sys :: "bool \<Rightarrow> Message list \<Rightarrow> sys" where
  "demo_sys a ms = \<lparr>y_db = empty_db\<lparr>db_groups := [\<lparr>r_group = chat_group, r_is_active = a, r_last_active_at = None\<rparr>],
     db_messages := ms\<rparr>, y_tick = 0, y_log = []\<rparr>"

definition demo_world :: "bool \<Rightarrow> Message list \<Rightarrow> time \<Rightarrow> time \<Rightarrow> sys world" where
  "demo_world a ms sent confirmed =
     \<lparr>lastTimestamp = 0, lastAgentTimestamp = [''g'' \<mapsto> sent], lastConfirmedTimestamp = [''g'' \<mapsto> confirmed],
      sessions = Map.empty, registeredGroups = [(''g'', chat_group)],
      activeSandboxes = (if a then [''g'' \<mapsto> ''sb-1''] else Map.empty), spawnStart = Map.empty, inflight = [],
      confirmedCursorDirty = False, rateLimiters = Map.empty, prevLastTimestampStr = [], prevAgentTsJSON = [],
      prevConfirmedTsJSON = [], notify = False, goroutines = [], ext = demo_sys a ms\<rparr>"

lemmas demo_sys_defs = demo_world_def demo_sys_def demo_outcomes_def demo_cfg_def chat_group_def empty_db_def

lemma format_cursors_simps [simp]:
  "format_cursors c Map.empty = Map.empty" "format_cursors c [k \<mapsto> t] = [k \<mapsto> cj_fmtTs c t]"
  by (auto simp: format_cursors_def)

lemma loadState_ok: "or_fault o1 = (\<lambda>_. None) \<Longrightarrow> fst (run_state (loadState (sys_env cfg codec lib rng sb o1)) w) = Inr ()"
  unfolding loadState_def Let_def
  by (simp add: run_bind run_call sys_simps db_read_def GetState_def ListGroups_def split_beta split: sum.split)

theorem cursors_survive_restart_witness:
  "let w = demo_world False [] 7 5;
       w1 = snd (run_state (saveState demo_env) w);
       w0 = (demo_world False [] 0 0)\<lparr>lastAgentTimestamp := Map.empty, lastConfirmedTimestamp := Map.empty, ext := ext w1\<rparr>;
       w2 = snd (run_state (loadState demo_env) w0)
   in fst (run_state (saveState demo_env) w) = Inr () \<and> fst (run_state (loadState demo_env) w0) = Inr () \<and>
      lastAgentTimestamp w2 = [''g'' \<mapsto> 7] \<and> lastConfirmedTimestamp w2 = [''g'' \<mapsto> 5]"
proof -
  let ?w = "demo_world False [] 7 5"
  let ?saved = "snd (run_state (saveState demo_env) ?w)"
  let ?fresh = "(demo_world False [] 0 0)\<lparr>lastAgentTimestamp := Map.empty, lastConfirmedTimestamp := Map.empty, ext := ext ?saved\<rparr>"
  have s: "fst (run_state (saveState demo_env) ?w) = Inr ()"
    by (simp add: saveState_def save_key_def Let_def run_call sys_env_def db_write_def SetState_def demo_sys_defs
        demo_orch_codec_def demo_encMap_def demo_fmtTs_def)
  have l: "fst (run_state (loadState demo_env) ?fresh) = Inr ()" by (rule loadState_ok) (simp add: demo_outcomes_def)
  have p: "prev_ok sys_val ?w" by (simp add: prev_ok_def demo_sys_defs)
  have s': "run_state (saveState demo_env) ?w = (Inr (), ?saved)" using s by (simp add: prod_eq_iff)
  have l': "run_state (loadState demo_env) ?fresh = (Inr (), snd (run_state (loadState demo_env) ?fresh))" using l by (simp add: prod_eq_iff)
  have "lastTimestamp (snd (run_state (loadState demo_env) ?fresh)) = lastTimestamp ?w \<and>
      lastAgentTimestamp (snd (run_state (loadState demo_env) ?fresh)) = lastAgentTimestamp ?w \<and>
      lastConfirmedTimestamp (snd (run_state (loadState demo_env) ?fresh)) = lastAgentTimestamp ?w ++ lastConfirmedTimestamp ?w"
    by (rule cursors_survive_restart [OF demo_codec_ok p s' _ _ _ l']) simp_all
  then show ?thesis using s l by (simp add: Let_def demo_world_def)
qed

end
