(* ===== verification/Orch_Watch_Props.thy ===== *)
theory Orch_Watch_Props
  imports Orch_System
begin

text \<open>
  What the watching half guarantees: what an agent sends touches only its own group's data,
  the cursor of delivered messages moves only with a reply the router took, and the end of an
  agent takes the cursor of sent messages back to the delivered ones.
\<close>

section \<open>An agent touches only its own group\<close>

text \<open>The part of the database that belongs to other groups, and what nobody but the API may change.\<close>

definition foreign :: "string \<Rightarrow> string \<Rightarrow> db \<Rightarrow>
    ScheduledTask list \<times> Session list \<times> Message list \<times> group_row list \<times> Group list \<times> SenderAllowlistEntry list \<times> Chat list" where
  "foreign folder chat d =
     (others_tasks folder d, filter (\<lambda>s. s_GroupFolder s \<noteq> folder) (db_sessions d),
      filter (\<lambda>m. m_ChatJID m \<noteq> chat) (db_messages d), filter (\<lambda>r. row_jid r \<noteq> chat) (db_groups d),
      map r_group (db_groups d), db_allow d, db_chats d)"

lemma foreign_tasks:
  "t_GroupFolder t = folder \<Longrightarrow> foreign folder chat (snd (CreateTask f t d)) = foreign folder chat d"
  "t_GroupFolder t = folder \<Longrightarrow> foreign folder chat (snd (UpdateTask f t d)) = foreign folder chat d"
  "foreign folder chat (snd (DeleteTask f i folder d)) = foreign folder chat d"
  using CreateTask_others [of t f d] UpdateTask_others [of t f d] DeleteTask_others [of folder f i d]
  by (auto simp: foreign_def CreateTask_def UpdateTask_def DeleteTask_def Let_def split: option.splits if_splits)

lemma foreign_session:
  "s_GroupFolder s = folder \<Longrightarrow> foreign folder chat (snd (UpsertSession f s d)) = foreign folder chat d"
  by (auto simp: foreign_def others_tasks_def UpsertSession_def intro!: filter_cong split: option.split)

lemma foreign_message: "m_ChatJID m = chat \<Longrightarrow> foreign folder chat (snd (StoreMessage f m d)) = foreign folder chat d"
  by (auto simp: foreign_def others_tasks_def StoreMessage_def replace_message_def same_key_def intro!: filter_cong split: option.split)

lemma foreign_state: "foreign folder chat (snd (SetState f k v d)) = foreign folder chat d"
  by (auto simp: foreign_def others_tasks_def SetState_def split: option.split)

lemma foreign_inactive: "foreign folder chat (snd (q_MarkInactive fs chat d)) = foreign folder chat d"
proof (cases fs)
  case (fields f1 f2 f3 n)
  then show ?thesis
    by (auto simp: foreign_def others_tasks_def q_mark_simps store_unmark_def snd_Mark update_rows_def
        intro!: filter_update_where map_update_where)
qed

lemmas foreign_simps = foreign_tasks foreign_session foreign_message foreign_state foreign_inactive

lemma keeps_ipc_type [keeps_intro]:
  assumes "keeps I a" "keeps I b" "keeps I c" "keeps I d" "keeps I u" "keeps I v" "keeps I x" "\<And>s. keeps I (y s)"
  shows "keeps I (case t of IPCMessageText \<Rightarrow> a | IPCSessionUpdate \<Rightarrow> b | IPCTaskCreate \<Rightarrow> c | IPCTaskUpdate \<Rightarrow> d
    | IPCTaskDelete \<Rightarrow> u | IPCSetModel \<Rightarrow> v | IPCShutdown \<Rightarrow> x | OtherIPC s \<Rightarrow> y s)"
  using assms by (cases t) simp_all

lemma keeps_watch_input [keeps_intro]:
  assumes "keeps I a" "keeps I b" "keeps I c" "\<And>m. keeps I (d m)" "\<And>x y. keeps I (u x y)" "keeps I v"
  shows "keeps I (case i of CtxCancelled \<Rightarrow> a | StartupDeadline \<Rightarrow> b | LivenessTick \<Rightarrow> c | Output m \<Rightarrow> d m
    | OutputClosed x y \<Rightarrow> u x y | TurnPanics \<Rightarrow> v)"
  using assms by (cases i) simp_all

lemma keeps_reconnect [keeps_intro]:
  assumes "keeps I a" "keeps I b" "keeps I c"
  shows "keeps I (case r of Reconnected \<Rightarrow> a | Exhausted \<Rightarrow> b | ReconnectCancelled \<Rightarrow> c)"
  using assms by (cases r) simp_all

lemmas keeps_outside = keeps_intro keeps_ext_call keeps_ext_modify

lemma foreign_saveState:
  "keeps (\<lambda>w. foreign folder chat (y_db (ext w)) = v) (saveState (sys_env cfg codec lib rng sb o1))"
  unfolding saveState_def save_key_def Let_def
  by (intro keeps_outside) (simp_all add: sys_env_def foreign_simps)

lemma foreign_handleIPCMessage:
  "keeps (\<lambda>w. foreign (g_Folder grp) chat (y_db (ext w)) = v)
     (handleIPCMessage (sys_env cfg codec lib rng sb o1) chat grp msg)"
  unfolding handleIPCMessage_def route_reply_def Let_def
  by (intro keeps_outside) (simp_all add: sys_env_def foreign_simps)


lemma foreign_drain_queue:
  "keeps (\<lambda>w. foreign folder chat (y_db (ext w)) = v) (drain_queue (sys_env cfg codec lib rng sb o1) chat n)"
proof (induction n)
  case (Suc n)
  show ?case unfolding drain_queue.simps
    by (intro keeps_outside Suc) (simp_all add: sys_env_def)
qed (simp add: keeps_intro)

lemma foreign_deactivate:
  "keeps (\<lambda>w. foreign folder chat (y_db (ext w)) = v) (deactivate (sys_env cfg codec lib rng sb o1) chat)"
  unfolding deactivate_def after_inactive_def start_recovery_def claimSandboxSlot_def Let_def
  by (intro keeps_outside foreign_saveState foreign_drain_queue) (simp_all add: sys_env_def foreign_simps)

lemma foreign_try_reconnect:
  "keeps (\<lambda>w. foreign folder chat (y_db (ext w)) = v) (try_reconnect (sys_env cfg codec lib rng sb o1) f cancels n)"
proof (induction n arbitrary: cancels)
  case (Suc n)
  show ?case unfolding try_reconnect.simps
    by (intro keeps_outside Suc) (simp_all add: sys_env_def)
qed (simp add: keeps_intro)

lemma foreign_watch_turn:
  "keeps (\<lambda>w. foreign (g_Folder grp) chat (y_db (ext w)) = v)
     (watch_turn (sys_env cfg codec lib rng sb o1) chat grp ws i)"
  unfolding watch_turn_def recordFirstOutputPhase_def
  by (intro keeps_outside foreign_deactivate foreign_try_reconnect foreign_handleIPCMessage) (simp_all add: sys_env_def)

lemma foreign_watch_loop:
  "keeps (\<lambda>w. foreign (g_Folder grp) chat (y_db (ext w)) = v)
     (watch_loop (sys_env cfg codec lib rng sb o1) chat grp ws is)"
proof (induction "is" arbitrary: ws)
  case (Cons i "is")
  show ?case unfolding watch_loop.simps by (intro keeps_intro foreign_watch_turn Cons)
qed (simp add: keeps_intro)

text \<open>
  C7: Whatever the agent of a group sends over its whole life, and whatever the store, NATS and
  Kubernetes answer meanwhile, watching it leaves the data of every other group as it was:
  their tasks and sessions, the messages of other chats, the rows of other groups and the
  configuration of every group, the allowlists and the chats.
\<close>

theorem agent_isolation:
  "case map_of (registeredGroups w) chat of
     None \<Rightarrow> snd (run_state (watchGroupOutput (sys_env cfg codec lib rng sb o1) chat inputs) w) = w
   | Some grp \<Rightarrow>
       foreign (g_Folder grp) chat (y_db (ext (snd (run_state
         (watchGroupOutput (sys_env cfg codec lib rng sb o1) chat inputs) w)))) =
       foreign (g_Folder grp) chat (y_db (ext w))"
proof (cases "map_of (registeredGroups w) chat")
  case (Some grp)
  have "keeps (\<lambda>w'. foreign (g_Folder grp) chat (y_db (ext w')) = foreign (g_Folder grp) chat (y_db (ext w)))
      (ignore (watch_loop (sys_env cfg codec lib rng sb o1) chat grp \<lparr>ws_connected = False, ws_done = False\<rparr> inputs))"
    by (intro keeps_intro foreign_watch_loop)
  from keepsD [OF this, of w] Some show ?thesis
    unfolding watchGroupOutput_def run_bind by simp
qed (simp add: watchGroupOutput_def)

section \<open>The cursor of delivered messages\<close>

text \<open>What the router makes of a reply: whether its text, without internal tags, is empty or was sent.\<close>

definition reply_sent :: "'x Channel list \<Rightarrow> string \<Rightarrow> string \<Rightarrow> 'x \<Rightarrow> bool" where
  "reply_sent chs chat reply x \<longleftrightarrow>
     (case stripInternalTags reply of
        None \<Rightarrow> False
      | Some t \<Rightarrow> t = [] \<or> (case first_owner chs chat x of None \<Rightarrow> False | Some ch \<Rightarrow> is_ok (fst (ch_SendMessage ch chat t x))))"

lemma reply_sent_routed:
  "stripInternalTags reply \<noteq> None \<Longrightarrow> \<exists>a. RouteOutbound chs chat reply x = Some a \<and> (is_ok (fst a) \<longleftrightarrow> reply_sent chs chat reply x)"
  by (auto simp: reply_sent_def RouteOutbound_def split: option.split) (metis prod.collapse)

text \<open>
  C10: Of all the messages an agent can send, only a text moves the cursor of delivered messages,
  and it moves it, for this chat alone, to everything sent to the agent so far. It does so
  exactly when the router reports success: when the first connected channel that owns the chat
  took the text without an error, or when nothing is left of the text without its internal
  tags, in which case no channel is asked. That a channel reports no error is all that is known
  of the delivery. No message of an agent moves the cursor of sent messages. The orchestrator's
  router works on the channels \<open>chs\<close>, and the tags of the text can be stripped.
\<close>

theorem reply_confirms:
  assumes "\<And>j t x a. RouteOutbound chs j t x = Some a \<Longrightarrow> oe_RouteOutbound e j t x = a"
    and "\<And>reply. cj_decText (oe_codec e) (ipc_Payload msg) = Inr reply \<Longrightarrow> stripInternalTags reply \<noteq> None"
  shows "lastConfirmedTimestamp (snd (run_state (handleIPCMessage e chat grp msg) w)) =
     (case (ipc_Type msg, cj_decText (oe_codec e) (ipc_Payload msg)) of
        (IPCMessageText, Inr reply) \<Rightarrow>
          (if reply_sent chs chat reply (ext w)
           then (lastConfirmedTimestamp w)(chat \<mapsto> ts_get (lastAgentTimestamp w) chat) else lastConfirmedTimestamp w)
      | _ \<Rightarrow> lastConfirmedTimestamp w) \<and>
   lastAgentTimestamp (snd (run_state (handleIPCMessage e chat grp msg) w)) = lastAgentTimestamp w"
proof -
  have routed: "is_ok (fst (oe_RouteOutbound e chat reply (ext w))) \<longleftrightarrow> reply_sent chs chat reply (ext w)"
    if "cj_decText (oe_codec e) (ipc_Payload msg) = Inr reply" for reply
    using reply_sent_routed [OF assms(2) [OF that], of chs chat "ext w"] assms(1) by metis
  have "lastConfirmedTimestamp (snd (run_state (handleIPCMessage e chat grp msg) w)) =
     (case (ipc_Type msg, cj_decText (oe_codec e) (ipc_Payload msg)) of
        (IPCMessageText, Inr reply) \<Rightarrow>
          (if is_ok (fst (oe_RouteOutbound e chat reply (ext w)))
           then (lastConfirmedTimestamp w)(chat \<mapsto> ts_get (lastAgentTimestamp w) chat) else lastConfirmedTimestamp w)
      | _ \<Rightarrow> lastConfirmedTimestamp w) \<and>
   lastAgentTimestamp (snd (run_state (handleIPCMessage e chat grp msg) w)) = lastAgentTimestamp w"
    by (cases "ipc_Type msg"; simp add: handleIPCMessage_def route_reply_def ignore_def run_bind run_call Let_def
        split: sum.split)
  with routed show ?thesis
    by (cases "cj_decText (oe_codec e) (ipc_Payload msg)"; cases "ipc_Type msg") simp_all
qed

text \<open>One channel, which owns every chat and takes every text but \<open>no\<close>.\<close>

definition picky_channel :: "'x Channel" where
  "picky_channel =
     \<lparr>ch_Name = ''picky'', ch_Connect = (\<lambda>x. (Inr (), x)),
      ch_SendMessage = (\<lambda>jid t x. (if t = ''no'' then Inl (Errorf ''refused'') else Inr (), x)), ch_IsConnected = (\<lambda>x. True),
      ch_OwnsJID = (\<lambda>jid. True), ch_Disconnect = (\<lambda>x. (Inr (), x)), ch_SetTyping = (\<lambda>jid t x. (Inr (), x))\<rparr>"

definition picky_env :: "sys orch_env" where
  "picky_env = demo_env\<lparr>oe_RouteOutbound := (\<lambda>j t x. case RouteOutbound [picky_channel] j t x of Some a \<Rightarrow> a | None \<Rightarrow> (Inl (Errorf ''stuck''), x))\<rparr>"

definition demo_text :: "string \<Rightarrow> IPCMessage" where
  "demo_text t = \<lparr>ipc_Group = ''main'', ipc_AgentID = ''main'', ipc_Type = IPCMessageText, ipc_Payload = t, ipc_ID = []\<rparr>"

theorem reply_confirms_witness:
  "lastConfirmedTimestamp (snd (run_state (handleIPCMessage picky_env ''g'' chat_group (demo_text ''hi'')) (demo_world True [] 7 5))) ''g'' = Some 7 \<and>
   lastConfirmedTimestamp (snd (run_state (handleIPCMessage picky_env ''g'' chat_group (demo_text ''no'')) (demo_world True [] 7 5))) ''g'' = Some 5"
proof -
  have strip: "stripInternalTags ''hi'' = Some ''hi''" "stripInternalTags ''no'' = Some ''no''"
    by (simp_all add: stripInternalTags_def strip_loop.simps tag_defs TrimSpace_def is_space_def)
  have route: "RouteOutbound [picky_channel] j t x = Some a \<Longrightarrow> oe_RouteOutbound picky_env j t x = a" for j t x a
    by (simp add: picky_env_def)
  have dec: "cj_decText (oe_codec picky_env) s = Inr s" for s
    by (simp add: picky_env_def sys_simps demo_orch_codec_def)
  note c = reply_confirms [where chs = "[picky_channel]" and e = picky_env and chat = "''g''" and grp = chat_group and w = "demo_world True [] 7 5", OF route]
  show ?thesis
    using c [of "demo_text ''hi''"] c [of "demo_text ''no''"] strip
    by (simp add: dec demo_text_def reply_sent_def picky_channel_def) (simp add: demo_world_def ts_get_def)
qed

section \<open>The end of an agent\<close>

lemma outside_drain_queue: "keeps (outside w) (drain_queue e chat n)"
proof (induction n)
  case (Suc n)
  show ?case unfolding drain_queue.simps
    by (intro keeps_intro keeps_call Suc) simp_all
qed (simp add: keeps_intro)

lemmas wp_drain_queue = wp_outside [OF outside_drain_queue]

text \<open>What the end of an agent does once the group is inactive.\<close>

definition rolled_back :: "string \<Rightarrow> 'x world \<Rightarrow> 'x world \<Rightarrow> bool" where
  "rolled_back chat w w' \<longleftrightarrow>
     ts_get (lastAgentTimestamp w') = (ts_get (lastAgentTimestamp w))
       (chat := min (ts_get (lastConfirmedTimestamp w) chat) (ts_get (lastAgentTimestamp w) chat)) \<and>
     lastConfirmedTimestamp w' = lastConfirmedTimestamp w \<and> lastTimestamp w' = lastTimestamp w \<and>
     activeSandboxes w' = (activeSandboxes w)(chat := None) \<and>
     (goroutines w', inflight w') \<in> {(goroutines w, inflight w)} \<union>
       {(goroutines w @ [GoRecover chat q c], chat # inflight w) | q c. chat \<notin> set (inflight w)}"

lemma rollback_min:
  "ts_get (lastAgentTimestamp (rollback_to_confirmed chat w)) = (ts_get (lastAgentTimestamp w))
     (chat := min (ts_get (lastConfirmedTimestamp w) chat) (ts_get (lastAgentTimestamp w) chat))"
  by (auto simp: rollback_to_confirmed_def Let_def fun_eq_iff)

lemma rollback_frame [simp]:
  "lastConfirmedTimestamp (rollback_to_confirmed chat w) = lastConfirmedTimestamp w"
  "lastTimestamp (rollback_to_confirmed chat w) = lastTimestamp w"
  "activeSandboxes (rollback_to_confirmed chat w) = activeSandboxes w"
  "goroutines (rollback_to_confirmed chat w) = goroutines w"
  "inflight (rollback_to_confirmed chat w) = inflight w"
  by (simp_all add: rollback_to_confirmed_def Let_def)

lemma after_inactive_post: "wp (after_inactive e chat) (\<lambda>_. rolled_back chat w) (w\<lparr>ext := x\<rparr>)"
  unfolding after_inactive_def start_recovery_def claimSandboxSlot_def Let_def
  by (intro wp_intro wp_drain_queue) (auto simp: rolled_back_def rollback_min)

lemma deactivate_post:
  "case run_state (deactivate e chat) w of (_, w') \<Rightarrow>
     (let active = oe_IsActive e chat (ext w); marked = oe_MarkInactive e chat (snd active)
      in if fst active = Inr False \<or> (is_ok (fst active) \<and> fst marked \<noteq> Inr ())
         then w' = w\<lparr>ext := ext w'\<rparr>
         else rolled_back chat w w')"
proof -
  let ?a = "oe_IsActive e chat (ext w)"
  let ?m = "oe_MarkInactive e chat (snd ?a)"
  note post = after_inactive_post [of e chat w, unfolded wp_def]
  show ?thesis
  proof (cases "fst ?a")
    case (Inl err)
    then show ?thesis using post [of "snd ?a"]
      unfolding deactivate_def run_bind by (simp add: run_call Let_def split_beta)
  next
    case (Inr b)
    then show ?thesis using post [of "snd ?m"]
      unfolding deactivate_def run_bind
      by (cases b; cases "fst ?m") (simp_all add: run_bind run_call Let_def split_beta)
  qed
qed

text \<open>
  C8: The end of an agent. When the group was not active, or could not be marked inactive, the
  watcher changes nothing of the orchestrator's state. Otherwise the cursor of sent messages
  of this chat, and of no other, goes back to the delivered ones when it is ahead of them,
  the sandbox is forgotten, and at most one recovery is started, with the chat's slot claimed.
\<close>

theorem deactivate_rolls_back:
  "case run_state (deactivate e chat) w of (_, w') \<Rightarrow>
     (let active = oe_IsActive e chat (ext w); marked = oe_MarkInactive e chat (snd active)
      in if fst active = Inr False \<or> (is_ok (fst active) \<and> fst marked \<noteq> Inr ())
         then w' = w\<lparr>ext := ext w'\<rparr>
         else rolled_back chat w w')"
  by (rule deactivate_post)

section \<open>Sandbox events\<close>

text \<open>The active set without driver faults.\<close>

lemma sys_IsActive:
  assumes "or_fault o1 = (\<lambda>_. None)" and "db_wf (y_db x)"
  shows "oe_IsActive (sys_env cfg codec lib rng sb o1) chat x = (Inr (active_in (y_db x) chat), tick 1 x)"
  using assms by (simp add: sys_env_def db_read_def q_IsActive_def IsGroupActive_active_in)

lemma sys_MarkInactive:
  assumes "or_fault o1 = (\<lambda>_. None)" and "db_wf (y_db x)" and "active_in (y_db x) chat"
  shows "\<exists>d. oe_MarkInactive (sys_env cfg codec lib rng sb o1) chat x = (Inr (), tick 3 (x\<lparr>y_db := d\<rparr>)) \<and>
    db_wf d \<and> active_in d = (active_in (y_db x))(chat := False)"
proof -
  let ?fs = "(None, None, None, or_now o1 (y_tick x)) :: mark_faults"
  have "fst (q_MarkInactive ?fs chat (y_db x)) = Inr ()"
    using assms(3) by (auto simp: q_mark_simps store_unmark_def MarkGroupInactive_def Let_def requireGroupExists_def
        list_ex_iff row_exists_update_rows active_in_def)
  then have "active_in (snd (q_MarkInactive ?fs chat (y_db x))) = (active_in (y_db x))(chat := False)"
    and "fst (q_MarkInactive ?fs chat (y_db x)) = Inr ()"
    by (simp_all add: queue_active.unmark_ok)
  moreover have "db_wf (snd (q_MarkInactive ?fs chat (y_db x)))"
    using assms(2) by (rule queue_active.inv_unmark)
  ultimately show ?thesis
    using assms(1) by (auto simp: sys_env_def db_mark_def Let_def split_beta prod_eq_iff)
qed

text \<open>
  A terminal event of the group's current sandbox defeats the recovery of its messages.
  When the watcher ends an active agent by itself it takes the cursor of sent messages back
  to the delivered ones; when the event comes first, the event has already marked the group
  inactive without touching the cursor, and the watcher then returns at once: the cursor
  stays ahead of the delivered messages, nothing is started to resend them, and the group
  is inactive.
\<close>

theorem event_defeats_rollback:
  fixes w :: "sys world"
  assumes "or_fault o1 = (\<lambda>_. None)" and "db_wf (y_db (ext w))" and "terminal_event ev"
    and "chat_of_folder (sys_env cfg codec lib rng sb o1) (st_Group (ev_Status ev)) (registeredGroups w) = chat"
    and "st_Group (ev_Status ev) \<noteq> []" and "chat \<noteq> []" and "active_in (y_db (ext w)) chat"
    and "activeSandboxes w chat = Some (st_Name (ev_Status ev))"
  shows "rolled_back chat w (snd (run_state (deactivate (sys_env cfg codec lib rng sb o1) chat) w)) \<and>
    (case run_state (handleSandboxEvent (sys_env cfg codec lib rng sb o1) ev \<bind>
        (\<lambda>_. deactivate (sys_env cfg codec lib rng sb o1) chat)) w of (_, w') \<Rightarrow>
      lastAgentTimestamp w' = lastAgentTimestamp w \<and> lastConfirmedTimestamp w' = lastConfirmedTimestamp w \<and>
      goroutines w' = goroutines w \<and> \<not> active_in (y_db (ext w')) chat)"
proof -
  let ?e = "sys_env cfg codec lib rng sb o1"
  let ?x = "tick 1 (ext w)"
  have a: "oe_IsActive ?e chat (ext w) = (Inr True, ?x)"
    using assms(1,2,7) by (simp add: sys_IsActive)
  obtain d where m: "oe_MarkInactive ?e chat ?x = (Inr (), tick 3 (?x\<lparr>y_db := d\<rparr>))"
    and d: "db_wf d" "active_in d = (active_in (y_db (ext w)))(chat := False)"
    using sys_MarkInactive [OF assms(1), of ?x chat cfg codec lib rng sb] assms(2,7) by auto
  have first: "rolled_back chat w (snd (run_state (deactivate ?e chat) w))"
    using deactivate_post [of ?e chat w] a m by (simp add: Let_def split_beta)
  let ?w1 = "w\<lparr>activeSandboxes := (activeSandboxes w)(chat := None), ext := tick 3 (?x\<lparr>y_db := d\<rparr>)\<rparr>"
  have ev: "snd (run_state (handleSandboxEvent ?e ev) w) = ?w1"
    using assms(3-6,8) a m
    unfolding handleSandboxEvent_def Let_def run_bind
    by (simp add: run_bind run_call ignore_def)
  have a1: "oe_IsActive ?e chat (ext ?w1) = (Inr False, tick 1 (ext ?w1))"
    using assms(1) d by (simp add: sys_IsActive)
  have "snd (run_state (deactivate ?e chat) ?w1) = ?w1\<lparr>ext := tick 1 (ext ?w1)\<rparr>"
    using a1 unfolding deactivate_def run_bind by (simp add: run_call)
  then show ?thesis using first d(2) by (simp add: run_bind ev split_beta)
qed

lemma demo_world_wf: "db_wf (y_db (ext (demo_world a ms t u))) \<longleftrightarrow> msgs_wf ms"
  by (simp add: demo_sys_defs db_wf_def groups_wf_def tasks_wf_def logs_wf_def allow_wf_def)

theorem event_defeats_rollback_witness:
  "let w = demo_world True [] 7 5; ev = \<lparr>ev_Type = ''updated'', ev_Status = demo_status\<rparr>;
       w1 = snd (run_state (deactivate demo_env ''g'') w);
       w2 = snd (run_state (handleSandboxEvent demo_env ev \<bind> (\<lambda>_. deactivate demo_env ''g'')) w)
   in ts_get (lastAgentTimestamp w1) ''g'' = 5 \<and> ts_get (lastAgentTimestamp w2) ''g'' = 7 \<and> goroutines w2 = []"
proof -
  let ?w = "demo_world True [] 7 5" and ?ev = "\<lparr>ev_Type = ''updated'', ev_Status = demo_status\<rparr>"
  have "terminal_event ?ev" by (simp add: terminal_event_def demo_status_def)
  moreover have "chat_of_folder demo_env (st_Group (ev_Status ?ev)) (registeredGroups ?w) = ''g''"
    by (simp add: chat_of_folder_def sys_simps demo_status_def demo_sys_defs)
  moreover have "active_in (y_db (ext ?w)) ''g''" "activeSandboxes ?w ''g'' = Some (st_Name (ev_Status ?ev))"
    "db_wf (y_db (ext ?w))"
    using demo_world_wf [of True "[]" 7 5] by (simp_all add: active_in_def demo_status_def demo_sys_defs msgs_wf_def)
  ultimately show ?thesis
    using event_defeats_rollback [of demo_outcomes ?w ?ev demo_cfg demo_orch_codec demo_lib id True "''g''"]
    by (simp add: Let_def split_beta rolled_back_def demo_outcomes_def demo_status_def demo_world_def)
qed

end
