(* ===== verification/Orch_Poll_Props.thy ===== *)
theory Orch_Poll_Props
  imports Orch_Watch_Props
begin

text \<open>
  What the poll and the start of an agent do on the MySQL store: which messages an agent is
  given, and which messages no poll will ever look at again.
\<close>

section \<open>Exact rules for the system's calls\<close>

lemma wp_exact: "Q (fst (f (ext w))) (w\<lparr>ext := snd (f (ext w))\<rparr>) \<Longrightarrow> wp (call f) Q w"
  by (simp add: wp_def run_call)

lemma keeps_exact: "(\<And>w. I w \<Longrightarrow> I (w\<lparr>ext := snd (f (ext w))\<rparr>)) \<Longrightarrow> keeps I (call f)"
  by (simp add: keeps_def run_call)

lemma wp_fail_any: "(\<And>t. Q (rel, Inl err) t) \<Longrightarrow> wp (fail_spawn cs rel err) Q w"
  by (simp add: fail_spawn_def wp_def run_bind split_beta)

definition same_log :: "sys world \<Rightarrow> sys world \<Rightarrow> bool" where
  "same_log w w' \<longleftrightarrow> y_log (ext w') = y_log (ext w) \<and> db_groups (y_db (ext w')) = db_groups (y_db (ext w))"

lemma SetState_groups [simp]: "db_groups (snd (SetState f k v d)) = db_groups d"
  by (simp add: SetState_def split: option.split)

lemma same_log_saveState: "keeps (\<lambda>t. saved w t \<and> same_log w t) (saveState (sys_env cfg codec lib rng sb o1))"
  unfolding saveState_def save_key_def Let_def
  by (intro keeps_intro keeps_exact keeps_modify) (simp_all add: same_log_def sys_simps)

lemma wp_saveState_sys:
  assumes "\<And>r x a b c. y_log x = y_log (ext w) \<Longrightarrow> db_groups (y_db x) = db_groups (y_db (ext w)) \<Longrightarrow>
    Q r (w\<lparr>ext := x, prevLastTimestampStr := a, prevAgentTsJSON := b, prevConfirmedTsJSON := c\<rparr>)"
  shows "wp (saveState (sys_env cfg codec lib rng sb o1)) Q w"
proof (rule wp_keeps [OF same_log_saveState])
  fix r t assume "saved w t \<and> same_log w t"
  then show "Q r t" unfolding saved_def same_log_def using assms by metis
qed (simp add: same_log_def)

lemma same_log_trigger: "keeps (\<lambda>t. outside w t \<and> same_log w t) (trigger_check (sys_env cfg codec lib rng sb o1) j g ms)"
proof -
  have "keeps (\<lambda>t. outside w t \<and> same_log w t) (hasTriggerMessage (sys_env cfg codec lib rng sb o1) j g ms)"
  proof (induction ms)
    case (Cons m ms)
    then show ?case unfolding hasTriggerMessage.simps IsAllowed_call_def
      by (intro keeps_intro keeps_exact) (simp_all add: same_log_def sys_simps)
  qed (simp add: keeps_intro)
  then show ?thesis unfolding trigger_check_def by (intro keeps_intro)
qed

lemma wp_trigger_sys:
  assumes "\<And>r x. y_log x = y_log (ext w) \<Longrightarrow> db_groups (y_db x) = db_groups (y_db (ext w)) \<Longrightarrow> Q r (w\<lparr>ext := x\<rparr>)"
  shows "wp (trigger_check (sys_env cfg codec lib rng sb o1) j g ms) Q w"
proof (rule wp_keeps [OF same_log_trigger])
  fix r t assume "outside w t \<and> same_log w t"
  then show "Q r t" unfolding outside_def same_log_def using assms by metis
qed (simp add: same_log_def)

text \<open>Provisioning the streams logs only attempts to provision them.\<close>

definition only_ensure :: "(ext_call \<times> bool) list \<Rightarrow> bool" where
  "only_ensure l \<longleftrightarrow> (\<forall>x \<in> set l. case fst x of CEnsureStream _ _ \<Rightarrow> True | _ \<Rightarrow> False)"

lemma only_ensure_Nil [simp]: "only_ensure []"
  by (simp add: only_ensure_def)

definition ensuring :: "sys world \<Rightarrow> sys world \<Rightarrow> bool" where
  "ensuring w t \<longleftrightarrow> outside w t \<and> (\<exists>new. y_log (ext t) = y_log (ext w) @ new \<and> only_ensure new)"

lemma ensuring_refl: "ensuring w w"
  by (simp add: ensuring_def only_ensure_def)

lemma ensuring_attempts: "keeps (ensuring w) (ensure_attempts (sys_env cfg codec lib rng sb o1) f n err)"
proof (induction n arbitrary: err)
  case (Suc n)
  show ?case unfolding ensure_attempts.simps
    by (intro keeps_intro keeps_exact Suc)
      (auto simp: ensuring_def only_ensure_def sys_simps ext_do_def split: option.splits)
qed (simp add: keeps_intro)

lemma wp_ensure_sys:
  assumes "\<And>r x new. y_log x = y_log (ext w) @ new \<Longrightarrow> only_ensure new \<Longrightarrow> Q r (w\<lparr>ext := x\<rparr>)"
  shows "wp (ensureStreamForAgentWithRetry (sys_env cfg codec lib rng sb o1) f) Q w"
  unfolding ensureStreamForAgentWithRetry_def
proof (rule wp_keeps [OF ensuring_attempts ensuring_refl])
  fix r t assume "ensuring w t"
  then show "Q r t" unfolding ensuring_def outside_def using assms by metis
qed

lemma ext_do_cases:
  assumes "ext_do o1 c v y = (r, y')"
  shows "y_log y' = y_log y @ [(c, is_ok r)] \<and> y_db y' = y_db y"
  using assms by (auto simp: ext_do_def split: option.splits)

section \<open>What a started agent is given\<close>

lemma ext_do_ok: "fst (ext_do o1 c v y) = Inr r \<Longrightarrow> y_log (snd (ext_do o1 c v y)) = y_log y @ [(c, True)]"
  by (auto simp: ext_do_def split: option.splits)

text \<open>The calls of a successful start: the sandbox, then the subscription, then the first input.\<close>

definition start_log :: "SandboxConfig \<Rightarrow> Group \<Rightarrow> string \<Rightarrow> (ext_call \<times> bool) list \<Rightarrow> bool" where
  "start_log cfg grp payload new \<longleftrightarrow> (\<exists>pre. only_ensure pre \<and>
     new = pre @ [(CCreateSandbox cfg, True), (CSubscribe (g_Folder grp), True),
                  (CSendInput (g_Folder grp) DefaultAgentID (text_message grp payload), True)])"

lemma sys_MarkActive_ok:
  "fst (oe_MarkActive (sys_env cfg codec lib rng sb o1) chat x) = Inr () \<Longrightarrow>
   active_in (y_db (snd (oe_MarkActive (sys_env cfg codec lib rng sb o1) chat x))) chat"
  by (auto simp: sys_simps db_mark_def Let_def split_beta queue_active.mark_then_active)

lemma active_in_groups: "db_groups d' = db_groups d \<Longrightarrow> active_in d' = active_in d"
  by (simp add: active_in_def fun_eq_iff)

definition spawn_log :: "orch_codec \<Rightarrow> SandboxConfig \<Rightarrow> Group \<Rightarrow> string \<Rightarrow> string \<Rightarrow> (ext_call \<times> bool) list \<Rightarrow>
    bool \<times> SandboxStatus result \<Rightarrow> sys world \<Rightarrow> bool" where
  "spawn_log codec cfg grp formatted chat old p w' \<longleftrightarrow>
     (is_ok (snd p) \<longrightarrow> (\<exists>payload new. cj_encMessages codec formatted = Inr payload \<and> start_log cfg grp payload new \<and>
        y_log (ext w') = old @ new \<and> active_in (y_db (ext w')) chat))"

lemmas wp_shape = wp_ret wp_gets wp_modify wp_bind wp_if wp_sum wp_option wp_prod wp_let wp_exact wp_fail_any wp_ignore

lemma start_agent_log:
  assumes "cj_encMessages codec formatted = Inr payload"
    and "\<exists>pre. only_ensure pre \<and> y_log (ext w) = old @ pre @ [(CCreateSandbox cf, True)]"
  shows "wp (start_agent (sys_env cfg codec lib rng sb o1) chat grp payload cs created)
    (spawn_log codec cf grp formatted chat old) w"
  unfolding start_agent_def Let_def releaseSandboxSlot_def
  by (intro wp_shape; simp add: spawn_log_def) (use assms sys_MarkActive_ok in \<open>auto simp: sys_simps ext_do_ok start_log_def\<close>)

lemma spawnAgent_log:
  "wp (spawnAgent (sys_env cfg codec lib rng sb o1) chat grp prev sid formatted)
     (spawn_log codec (sandbox_config cfg chat grp sid formatted) grp formatted chat (y_log (ext w))) w"
  unfolding spawnAgent_def Let_def
  by (intro wp_shape wp_ensure_sys start_agent_log; simp add: spawn_log_def sys_simps ext_do_ok)

definition deliver_post :: "orch_config \<Rightarrow> orch_codec \<Rightarrow> string \<Rightarrow> sys world \<Rightarrow> bool \<times> bool result \<Rightarrow> sys world \<Rightarrow> bool" where
  "deliver_post cfg codec chat w p w' \<longleftrightarrow> (snd p = Inr True \<longrightarrow>
     (\<exists>grp ms sid payload new. map_of (registeredGroups w) chat = Some grp \<and> ms \<noteq> [] \<and>
        ms = newest (nat (oc_MessageLimit cfg)) (pending chat (ts_get (lastAgentTimestamp w) chat) (y_db (ext w))) \<and>
        cj_encMessages codec (FormatMessagesForAgent ms (oc_AssistantName cfg)) = Inr payload \<and>
        start_log (sandbox_config cfg chat grp sid (FormatMessagesForAgent ms (oc_AssistantName cfg))) grp payload new \<and>
        y_log (ext w') = y_log (ext w) @ new \<and> active_in (y_db (ext w')) chat \<and>
        lastAgentTimestamp w' = (lastAgentTimestamp w)(chat \<mapsto> m_Timestamp (last ms))))"

lemma sys_GetMessagesSince:
  assumes "fst (oe_GetMessagesSince (sys_env cfg codec lib rng sb o1) chat t n x) = Inr ms"
  shows "ms = newest (nat n) (pending chat t (y_db x))"
  using assms by (auto simp: sys_simps db_read_def GetMessagesSince_def pending_def split: option.splits if_splits)

lemma spawnAgent_both:
  "wp (spawnAgent (sys_env cfg codec lib rng sb o1) chat grp prev sid formatted)
     (\<lambda>p t. spawn_log codec (sandbox_config cfg chat grp sid formatted) grp formatted chat (y_log (ext w)) p t \<and>
            spawn_post chat prev w p t) w"
  using spawnAgent_log [of cfg codec lib rng sb o1 chat grp prev sid formatted w]
    spawnAgent_post [of "sys_env cfg codec lib rng sb o1" chat grp prev sid formatted w]
  by (simp add: wp_def)

lemma deliver_processGroupMessages:
  "wp (processGroupMessages (sys_env cfg codec lib rng sb o1) chat) (deliver_post cfg codec chat w) w"
  unfolding processGroupMessages_def Let_def id_def
  by (intro wp_shape wp_trigger_sys wp_saveState_sys wp_mono [OF spawnAgent_both]; simp add: deliver_post_def)
    (drule sys_GetMessagesSince, drule active_in_groups,
     auto simp: sys_simps spawn_log_def spawn_post_def started_def)

text \<open>
  C2: An agent that was started has been given exactly the messages it was owed: all the visible
  messages of its chat after the cursor of sent messages (the newest ones, when there are
  more than the limit), formatted in time order. The input is sent last, after the sandbox
  was created and its output subscribed; the group is marked active, and the cursor is the
  time of the last message sent.
\<close>

theorem start_delivers_pending:
  assumes "run_state (processGroupMessages (sys_env cfg codec lib rng sb o1) chat) w = ((rel, Inr True), w')"
  shows "\<exists>grp ms sid payload new. map_of (registeredGroups w) chat = Some grp \<and> ms \<noteq> [] \<and>
    ms = newest (nat (oc_MessageLimit cfg)) (pending chat (ts_get (lastAgentTimestamp w) chat) (y_db (ext w))) \<and>
    cj_encMessages codec (FormatMessagesForAgent ms (oc_AssistantName cfg)) = Inr payload \<and>
    start_log (sandbox_config cfg chat grp sid (FormatMessagesForAgent ms (oc_AssistantName cfg))) grp payload new \<and>
    y_log (ext w') = y_log (ext w) @ new \<and> active_in (y_db (ext w')) chat \<and>
    lastAgentTimestamp w' = (lastAgentTimestamp w)(chat \<mapsto> m_Timestamp (last ms))"
  using deliver_processGroupMessages [of cfg codec lib rng sb o1 chat w] assms
  by (simp add: wp_def deliver_post_def)

section \<open>An agent is started when nothing fails\<close>

definition no_failures :: "outcomes \<Rightarrow> bool" where
  "no_failures o1 \<longleftrightarrow> or_fault o1 = (\<lambda>_. None) \<and> or_fail o1 = (\<lambda>_. None)"

lemma ext_do_Inr: "no_failures o1 \<Longrightarrow> ext_do o1 c v y = (Inr (v (y_tick y)), tick 1 (y\<lparr>y_log := y_log y @ [(c, True)]\<rparr>))"
  by (simp add: ext_do_def no_failures_def)

lemma db_read_ok: "no_failures o1 \<Longrightarrow> db_read o1 q y = (q None (y_db y), tick 1 y)"
  by (simp add: db_read_def no_failures_def)

definition has_row :: "string \<Rightarrow> db \<Rightarrow> bool" where
  "has_row chat d \<longleftrightarrow> (\<exists>r \<in> set (db_groups d). row_jid r = chat)"

lemma sys_MarkActive_row:
  assumes "no_failures o1" and "has_row chat (y_db x)"
  shows "fst (oe_MarkActive (sys_env cfg codec lib rng sb o1) chat x) = Inr ()"
  using assms
  by (auto simp: no_failures_def has_row_def sys_simps db_mark_def Let_def split_beta q_mark_simps store_mark_def
      MarkGroupActive_def requireGroupExists_def list_ex_iff row_exists_update_rows)

lemma no_failure_calls:
  assumes "no_failures o1"
  shows "fst (oe_SubscribeOutput (sys_env cfg codec lib rng sb o1) g x) = Inr ()"
    "fst (oe_SendInput (sys_env cfg codec lib rng sb o1) g a m x) = Inr ()"
    "is_ok (fst (oe_CreateSandbox (sys_env cfg codec lib rng sb o1) c x))"
  using assms by (simp_all add: sys_simps ext_do_Inr)

lemma newest_ne: "ms \<noteq> [] \<Longrightarrow> 0 < n \<Longrightarrow> newest n ms \<noteq> []"
  by (metis length_greater_0_conv length_newest min_less_iff_conj)

lemma start_agent_ok:
  assumes "no_failures o1" and "has_row chat (y_db (ext w))"
  shows "wp (start_agent (sys_env cfg codec lib rng sb o1) chat grp payload cs created) (\<lambda>p _. is_ok (snd p)) w"
  unfolding start_agent_def Let_def releaseSandboxSlot_def
  by (intro wp_shape; use assms in \<open>simp add: sys_MarkActive_row no_failure_calls\<close>)

lemma run_ensure_ok:
  "no_failures o1 \<Longrightarrow> run_state (ensureStreamForAgentWithRetry (sys_env cfg codec lib rng sb o1) f) w =
     (Inr (), w\<lparr>ext := tick 1 ((ext w)\<lparr>y_log := y_log (ext w) @ [(CEnsureStream f DefaultAgentID, True)]\<rparr>)\<rparr>)"
  by (simp add: ensureStreamForAgentWithRetry_def numeral_3_eq_3 run_call sys_simps ext_do_Inr)

lemma wp_ensure_ok:
  assumes "no_failures o1" and "\<And>x. y_db x = y_db (ext w) \<Longrightarrow> Q (Inr ()) (w\<lparr>ext := x\<rparr>)"
  shows "wp (ensureStreamForAgentWithRetry (sys_env cfg codec lib rng sb o1) f) Q w"
  using run_ensure_ok [OF assms(1), of cfg codec lib rng sb f w] assms(2) by (simp add: wp_def)

lemma spawnAgent_ok:
  assumes "no_failures o1" and "has_row chat (y_db (ext w))" and "sb" and "is_ok (cj_encMessages codec formatted)"
  shows "wp (spawnAgent (sys_env cfg codec lib rng sb o1) chat grp prev sid formatted) (\<lambda>p _. is_ok (snd p)) w"
  unfolding spawnAgent_def Let_def
  by (intro wp_shape wp_ensure_ok [OF assms(1)] start_agent_ok [OF assms(1)]; use assms in \<open>simp add: sys_simps ext_do_Inr\<close>)

lemma start_ok:
  assumes "no_failures o1" and "has_row chat (y_db (ext w))" and "sb" and "\<And>s. is_ok (cj_encMessages codec s)"
    and "map_of (registeredGroups w) chat = Some grp" and "g_IsMain grp \<or> \<not> g_RequiresTrigger grp"
    and "oc_MessageLimit cfg > 0" and "pending chat (ts_get (lastAgentTimestamp w) chat) (y_db (ext w)) \<noteq> []"
    and "int (length (filter r_is_active (db_groups (y_db (ext w))))) + inflight_others chat (inflight w) < oc_MaxConcurrent cfg"
  shows "snd (fst (run_state (processGroupMessages (sys_env cfg codec lib rng sb o1) chat) w)) = Inr True"
proof -
  have msgs: "\<exists>ms. ms \<noteq> [] \<and> GetMessagesSince None chat (ts_get (lastAgentTimestamp w) chat) (oc_MessageLimit cfg) (y_db (ext w)) = Inr ms"
    using assms(7,8) by (simp add: GetMessagesSince_def newest_ne flip: pending_def)
  have "wp (processGroupMessages (sys_env cfg codec lib rng sb o1) chat) (\<lambda>p _. snd p = Inr True) w"
    unfolding processGroupMessages_def Let_def id_def trigger_check_def
    by (intro wp_shape wp_saveState_sys wp_mono [OF spawnAgent_ok [OF assms(1)]])
      (use assms msgs in \<open>auto simp: sys_simps db_read_ok q_ActiveCount_def wrap_err_def ActiveGroupCount_def has_row_def\<close>)
  then show ?thesis by (simp add: wp_def)
qed

text \<open>
  Messages do get an agent: when a chat that needs no trigger has a visible message after its
  cursor, its group has its row, the running agents and the other starts stay below the
  limit, the messages can be encoded, and no call fails, then processing the group starts an
  agent.
\<close>

theorem start_succeeds:
  assumes "no_failures o1" and "has_row chat (y_db (ext w))" and "sb" and "\<And>s. is_ok (cj_encMessages codec s)"
    and "map_of (registeredGroups w) chat = Some grp" and "g_IsMain grp \<or> \<not> g_RequiresTrigger grp"
    and "oc_MessageLimit cfg > 0" and "pending chat (ts_get (lastAgentTimestamp w) chat) (y_db (ext w)) \<noteq> []"
    and "int (length (filter r_is_active (db_groups (y_db (ext w))))) + inflight_others chat (inflight w) < oc_MaxConcurrent cfg"
  shows "snd (fst (run_state (processGroupMessages (sys_env cfg codec lib rng sb o1) chat) w)) = Inr True"
  using assms by (rule start_ok)

lemma newest_single: "0 < n \<Longrightarrow> newest n [m] = [m]"
  by (cases n) (simp_all add: newest_def)

lemma demo_no_failures: "no_failures demo_outcomes"
  by (simp add: no_failures_def demo_outcomes_def)

lemma demo_pending: "pending ''g'' 7 (y_db (ext (demo_world False [demo_msg ''1'' ''g'' 9] 7 5))) = [demo_msg ''1'' ''g'' 9]"
  by (simp add: pending_def visible_def demo_msg_def demo_sys_defs)

lemma demo_hyps:
  "has_row ''g'' (y_db (ext (demo_world False ms t u)))"
  "is_ok (cj_encMessages demo_orch_codec s)"
  "map_of (registeredGroups (demo_world False ms t u)) ''g'' = Some chat_group"
  "ts_get (lastAgentTimestamp (demo_world False ms t u)) ''g'' = t"
  "int (length (filter r_is_active (db_groups (y_db (ext (demo_world False ms t u)))))) +
     inflight_others ''g'' (inflight (demo_world False ms t u)) < oc_MaxConcurrent demo_cfg"
  "g_IsMain chat_group" "oc_MessageLimit demo_cfg = 10" "m_Timestamp (demo_msg i j t) = t"
  by (simp_all add: has_row_def demo_msg_def demo_sys_defs demo_orch_codec_def inflight_others_def)

theorem start_succeeds_witness:
  "snd (fst (run_state (processGroupMessages demo_env ''g'') (demo_world False [demo_msg ''1'' ''g'' 9] 7 5))) = Inr True"
  by (rule start_succeeds [OF demo_no_failures demo_hyps(1) TrueI demo_hyps(2,3)]) (simp_all add: demo_hyps demo_pending)

theorem start_delivers_pending_witness:
  "let w = demo_world False [demo_msg ''1'' ''g'' 9] 7 5; p = run_state (processGroupMessages demo_env ''g'') w
   in snd (fst p) = Inr True \<and> ts_get (lastAgentTimestamp (snd p)) ''g'' = 9 \<and> active_in (y_db (ext (snd p))) ''g''"
proof -
  let ?w = "demo_world False [demo_msg ''1'' ''g'' 9] 7 5"
  let ?p = "run_state (processGroupMessages demo_env ''g'') ?w"
  have ok: "snd (fst ?p) = Inr True"
    by (rule start_ok [OF demo_no_failures demo_hyps(1) TrueI demo_hyps(2,3)]) (simp_all add: demo_hyps demo_pending)
  then have "?p = ((fst (fst ?p), Inr True), snd ?p)" by (simp add: prod_eq_iff)
  from start_delivers_pending [OF this] ok show ?thesis
    by (auto simp: Let_def demo_hyps demo_pending newest_single)
qed

section \<open>Messages no poll looks at again\<close>

lemma run_refreshGroups:
  "or_fault o1 = (\<lambda>_. None) \<Longrightarrow> run_state (refreshGroups (sys_env cfg codec lib rng sb o1)) w =
     ((), w\<lparr>registeredGroups := register_groups (map r_group (db_groups (y_db (ext w)))) [], ext := tick 1 (ext w)\<rparr>)"
  by (simp add: refreshGroups_def run_call sys_simps db_read_def ListGroups_def)

text \<open>
  A message left without an agent is not retried. Once the poll has seen every visible message
  (its cursor is not behind any of them), further polls change nothing: no goroutine is
  started, nothing is sent, and the messages after a chat's own cursor stay exactly as
  pending as they were, however many of them the limit on agents had deferred.
\<close>

theorem deferred_not_retried:
  fixes w :: "sys world"
  assumes "or_fault o1 = (\<lambda>_. None)" and "0 \<le> oc_MessageLimit cfg"
    and "\<And>m. m \<in> set (db_messages (y_db (ext w))) \<Longrightarrow> visible m \<Longrightarrow> m_Timestamp m \<le> lastTimestamp w"
  shows "case run_state (pollMessages (sys_env cfg codec lib rng sb o1)) w of (_, w') \<Rightarrow>
    goroutines w' = goroutines w \<and> inflight w' = inflight w \<and> y_log (ext w') = y_log (ext w) \<and>
    lastTimestamp w' = lastTimestamp w \<and>
    (\<forall>chat. pending chat (ts_get (lastAgentTimestamp w') chat) (y_db (ext w')) =
            pending chat (ts_get (lastAgentTimestamp w) chat) (y_db (ext w)))"
proof -
  have none: "filter (\<lambda>m. lastTimestamp w < m_Timestamp m \<and> m_ChatJID m \<in> J \<and> visible m) (db_messages (y_db (ext w))) = []" for J
    using assms(3) by (fastforce simp: filter_empty_conv)
  show ?thesis
    using assms(1,2) unfolding pollMessages_def run_bind run_refreshGroups [OF assms(1)] Let_def
    by (simp add: run_bind run_call sys_simps db_read_def GetNewMessages_def none newest_def)
qed

theorem deferred_not_retried_witness:
  "let w = (demo_world False [demo_msg ''1'' ''g'' 9] 7 5)\<lparr>lastTimestamp := 9\<rparr>;
       w' = snd (run_state (pollMessages demo_env) w)
   in goroutines w' = [] \<and> y_log (ext w') = [] \<and>
      pending ''g'' (ts_get (lastAgentTimestamp w') ''g'') (y_db (ext w')) = [demo_msg ''1'' ''g'' 9]"
proof -
  let ?w = "(demo_world False [demo_msg ''1'' ''g'' 9] 7 5)\<lparr>lastTimestamp := 9\<rparr>"
  have *: "\<And>m. m \<in> set (db_messages (y_db (ext ?w))) \<Longrightarrow> visible m \<Longrightarrow> m_Timestamp m \<le> lastTimestamp ?w"
    by (auto simp: demo_sys_defs demo_msg_def)
  show ?thesis
    using deferred_not_retried [of demo_outcomes demo_cfg ?w demo_orch_codec demo_lib id True, OF _ _ *] demo_pending
    by (simp add: Let_def split_beta demo_outcomes_def demo_cfg_def demo_hyps demo_sys_def demo_world_def)
qed

section \<open>Triggers\<close>

text \<open>A message of \<open>ms\<close> that may trigger the group: it matches, and its sender is the user or allowed.\<close>

definition may_trigger :: "db \<Rightarrow> string \<Rightarrow> Group \<Rightarrow> Message \<Rightarrow> bool" where
  "may_trigger d chat grp m \<longleftrightarrow> MatchesTrigger (m_Content m) (g_TriggerPattern grp) \<and>
     (m_IsFromMe m \<or> IsAllowed (\<lambda>_. GetAllowlist None chat d) chat (m_Sender m) = Inr True)"

lemma IsAllowed_fault: "GetAllowlist f chat d = Inl err \<Longrightarrow> IsAllowed (\<lambda>_. GetAllowlist f chat d) chat s \<noteq> Inr b"
  by (simp add: IsAllowed_def)

lemma GetAllowlist_fault: "f \<noteq> None \<Longrightarrow> \<exists>err. GetAllowlist f chat d = Inl err"
  by (auto simp: GetAllowlist_def)

lemma outside_fields:
  "outside w t \<Longrightarrow> lastAgentTimestamp t = lastAgentTimestamp w" "outside w t \<Longrightarrow> goroutines t = goroutines w"
  by (cases w; cases t; simp add: outside_def)+

lemma sys_env_cfg: "oe_cfg (sys_env cfg codec lib rng sb o1) = cfg"
  by (simp add: sys_simps)

lemma hasTrigger_none:
  assumes "\<forall>m \<in> set ms. \<not> may_trigger (y_db (ext w)) chat grp m"
  shows "wp (hasTriggerMessage (sys_env cfg codec lib rng sb o1) chat grp ms)
    (\<lambda>r t. r \<noteq> Inr True \<and> outside w t \<and> same_log w t) w"
  using assms
proof (induction ms arbitrary: w)
  case (Cons m ms)
  have IH: "wp (hasTriggerMessage (sys_env cfg codec lib rng sb o1) chat grp ms)
      (\<lambda>r t. r \<noteq> Inr True \<and> outside w t \<and> same_log w t) (w\<lparr>ext := tick k (ext w)\<rparr>)" for k
    by (rule wp_mono [OF Cons.IH]) (use Cons.prems in \<open>auto simp: outside_def same_log_def\<close>)
  have IH0: "wp (hasTriggerMessage (sys_env cfg codec lib rng sb o1) chat grp ms)
      (\<lambda>r t. r \<noteq> Inr True \<and> outside w t \<and> same_log w t) w"
    using Cons by simp
  have allow: "IsAllowed (\<lambda>_. GetAllowlist f chat (y_db (ext w))) chat (m_Sender m) = Inr True \<Longrightarrow>
      IsAllowed (\<lambda>_. GetAllowlist None chat (y_db (ext w))) chat (m_Sender m) = Inr True" for f
    using IsAllowed_fault GetAllowlist_fault by metis
  show ?case
    unfolding hasTriggerMessage.simps IsAllowed_call_def
    by (intro wp_shape IH0; simp add: sys_simps db_read_def)
      (use Cons.prems IH in \<open>auto simp: may_trigger_def outside_def same_log_def dest: allow\<close>)
qed (simp add: wp_def same_log_def)

text \<open>
  C12: A group that asks for a trigger gets an agent only from someone entitled to it. When none of
  the pending messages both matches the trigger and comes from the user or from a sender
  the allowlist lets in, processing the group sends nothing, creates nothing and moves no
  cursor, whatever fails on the way. The prompt of a scheduled task is such a message: it
  is stored under the sender \<open>scheduler\<close>.
\<close>

theorem no_trigger_no_agent:
  fixes w :: "sys world"
  assumes "map_of (registeredGroups w) chat = Some grp" and "\<not> g_IsMain grp" and "g_RequiresTrigger grp"
    and "\<And>m. m \<in> set (pending chat (ts_get (lastAgentTimestamp w) chat) (y_db (ext w))) \<Longrightarrow> \<not> may_trigger (y_db (ext w)) chat grp m"
  shows "case run_state (processGroupMessages (sys_env cfg codec lib rng sb o1) chat) w of ((released, r), w') \<Rightarrow>
    r \<noteq> Inr True \<and> y_log (ext w') = y_log (ext w) \<and> lastAgentTimestamp w' = lastAgentTimestamp w \<and> goroutines w' = goroutines w"
proof -
  have sub: "\<forall>m \<in> set ms. \<not> may_trigger (y_db (ext w)) chat grp m"
    if "fst (oe_GetMessagesSince (sys_env cfg codec lib rng sb o1) chat (ts_get (lastAgentTimestamp w) chat) n (ext w)) = Inr ms" for ms n
    using sys_GetMessagesSince [OF that] newest_subset assms(4) by blast
  let ?get = "oe_GetMessagesSince (sys_env cfg codec lib rng sb o1) chat (ts_get (lastAgentTimestamp w) chat) (oc_MessageLimit cfg)"
  have here: "outside w (w\<lparr>ext := snd (?get (ext w))\<rparr>) \<and> same_log w (w\<lparr>ext := snd (?get (ext w))\<rparr>)"
    by (simp add: same_log_def sys_simps)
  have trig: "wp (hasTriggerMessage (sys_env cfg codec lib rng sb o1) chat grp ms)
      (\<lambda>r w'. r \<noteq> Inr True \<and> outside w w' \<and> same_log w w') (w\<lparr>ext := snd (?get (ext w))\<rparr>)"
    if "fst (?get (ext w)) = Inr ms" for ms
    by (rule wp_mono [OF hasTrigger_none]) (use sub [OF that] in \<open>auto simp: sys_simps same_log_def outside_def\<close>)
  let ?run = "run_state (processGroupMessages (sys_env cfg codec lib rng sb o1) chat) w"
  have "snd (fst ?run) \<noteq> Inr True \<and> outside w (snd ?run) \<and> same_log w (snd ?run)"
  proof (cases "fst (?get (ext w))")
    case (Inl err)
    then show ?thesis using here assms(1)
      by (simp add: processGroupMessages_def run_call sys_env_cfg Let_def)
  next
    case (Inr ms)
    obtain r t where rt: "run_state (hasTriggerMessage (sys_env cfg codec lib rng sb o1) chat grp ms)
        (w\<lparr>ext := snd (?get (ext w))\<rparr>) = (r, t)" by fastforce
    have "r \<noteq> Inr True \<and> outside w t \<and> same_log w t" using trig [OF Inr] rt by (simp add: wp_def)
    then show ?thesis using Inr rt here assms(1-3)
      by (cases r) (auto simp: processGroupMessages_def trigger_check_def run_call sys_env_cfg Let_def)
  qed
  then show ?thesis by (auto simp: split_beta same_log_def dest: outside_fields)
qed

definition trigger_group :: Group where
  "trigger_group = chat_group\<lparr>g_TriggerPattern := ''@Andy'', g_RequiresTrigger := True, g_IsMain := False\<rparr>"

definition report_task :: ScheduledTask where
  "report_task = (demo_task ScheduleCron ''* * * * *'')\<lparr>t_ChatJID := ''g'', t_Prompt := ''report''\<rparr>"

definition trigger_world :: "sys world" where
  "trigger_world = (demo_world False [] (-5) (-5))\<lparr>registeredGroups := [(''g'', trigger_group)]\<rparr>"

definition report_msg :: Message where
  "report_msg = \<lparr>m_ID = ''u'', m_ChatJID = ''g'', m_Sender = ''scheduler'', m_SenderName = ''Scheduled Task'',
     m_Content = ''report'', m_Timestamp = 0, m_IsFromMe = False, m_IsBotMessage = False\<rparr>"

lemma run_report:
  "case run_state (executeScheduledTask demo_env report_task) trigger_world of (r, w) \<Rightarrow>
     r = Inr () \<and> registeredGroups w = [(''g'', trigger_group)] \<and> lastAgentTimestamp w = [''g'' \<mapsto> - 5] \<and>
     db_messages (y_db (ext w)) = [report_msg]"
  unfolding executeScheduledTask_def
  by (simp add: run_call sys_simps answer_def db_write_def ext_do_def StoreMessage_def replace_message_def db_time6_def
      trigger_world_def demo_sys_defs report_task_def demo_task_def report_msg_def)

theorem no_trigger_no_agent_witness:
  "let w = snd (run_state (executeScheduledTask demo_env report_task) trigger_world)
   in pending ''g'' (- 5) (y_db (ext w)) = [report_msg] \<and>
      snd (fst (run_state (processGroupMessages demo_env ''g'') w)) \<noteq> Inr True"
proof -
  let ?w = "snd (run_state (executeScheduledTask demo_env report_task) trigger_world)"
  have w: "registeredGroups ?w = [(''g'', trigger_group)]" "lastAgentTimestamp ?w = [''g'' \<mapsto> - 5]"
    "db_messages (y_db (ext ?w)) = [report_msg]"
    using run_report by (simp_all add: split_beta)
  have p: "pending ''g'' (- 5) (y_db (ext ?w)) = [report_msg]"
    by (simp add: pending_def w visible_def report_msg_def)
  have "\<not> may_trigger d ''g'' trigger_group report_msg" for d
    by (simp add: may_trigger_def MatchesTrigger_def report_msg_def trigger_group_def chat_group_def) code_simp
  then show ?thesis
    using no_trigger_no_agent [of ?w "''g''" trigger_group demo_cfg demo_orch_codec demo_lib id True demo_outcomes] w p
    by (auto simp: Let_def split_beta trigger_group_def)
qed

section \<open>Piping to a running agent\<close>

text \<open>
  A running agent is sent, in one input, the messages after its cursor, and the cursor moves
  to the last of them. When the chat has none, because the start of the agent has already
  taken them, the poll sends its own batch instead: messages the agent has already been
  given are given to it again, and the cursor is set to the last of these.
\<close>

theorem pipe_sends:
  fixes w :: "sys world"
  assumes "no_failures o1" and "0 \<le> oc_MessageLimit cfg" and "groupMsgs \<noteq> []"
    and "ms = newest (nat (oc_MessageLimit cfg)) (pending chat (ts_get (lastAgentTimestamp w) chat) (y_db (ext w)))"
    and "sent = (if ms = [] then groupMsgs else ms)"
    and "cj_encMessages codec (FormatMessagesForAgent sent (oc_AssistantName cfg)) = Inr payload"
  shows "case run_state (pipe_messages (sys_env cfg codec lib rng sb o1) chat grp groupMsgs) w of (_, w') \<Rightarrow>
    y_log (ext w') = y_log (ext w) @ [(CSendInput (g_Folder grp) DefaultAgentID (text_message grp payload), True)] \<and>
    lastAgentTimestamp w' = (lastAgentTimestamp w)(chat \<mapsto> m_Timestamp (last sent))"
proof -
  let ?e = "sys_env cfg codec lib rng sb o1"
  have get: "oe_GetMessagesSince ?e chat (ts_get (lastAgentTimestamp w) chat) (oc_MessageLimit cfg) (ext w) = (Inr ms, tick 1 (ext w))"
    using assms(1,2) by (simp add: sys_simps db_read_ok GetMessagesSince_def assms(4) flip: pending_def)
  have "wp (pipe_messages ?e chat grp groupMsgs) (\<lambda>_ w'.
      y_log (ext w') = y_log (ext w) @ [(CSendInput (g_Folder grp) DefaultAgentID (text_message grp payload), True)] \<and>
      lastAgentTimestamp w' = (lastAgentTimestamp w)(chat \<mapsto> m_Timestamp (last sent))) w"
    unfolding pipe_messages_def Let_def
    by (intro wp_shape wp_saveState_sys)
      (use assms get in \<open>auto simp: sys_env_cfg sys_simps ext_do_Inr\<close>)
  then show ?thesis by (simp add: wp_def split_beta)
qed

theorem pipe_sends_witness:
  "let w = demo_world True [demo_msg ''1'' ''g'' 9] 9 9;
       w' = snd (run_state (pipe_messages demo_env ''g'' chat_group [demo_msg ''1'' ''g'' 9]) w)
   in pending ''g'' 9 (y_db (ext w)) = [] \<and> length (y_log (ext w')) = 1"
proof -
  let ?w = "demo_world True [demo_msg ''1'' ''g'' 9] 9 9" and ?m = "demo_msg ''1'' ''g'' 9"
  have p: "pending ''g'' 9 (y_db (ext ?w)) = []" "ts_get (lastAgentTimestamp ?w) ''g'' = 9" "y_log (ext ?w) = []"
    by (simp_all add: pending_def demo_msg_def demo_sys_defs)
  have "newest n [] = []" for n by (simp add: newest_def)
  then show ?thesis
    using pipe_sends [OF demo_no_failures, where cfg = demo_cfg and groupMsgs = "[?m]" and ms = "[]" and chat = "''g''" and w = ?w
        and sent = "[?m]" and codec = demo_orch_codec and payload = "FormatMessagesForAgent [?m] (oc_AssistantName demo_cfg)"
        and lib = demo_lib and rng = id and sb = True and grp = chat_group] p
    by (auto simp: Let_def split_beta demo_hyps demo_orch_codec_def)
qed

end
