(* ===== verification/Orch_Commands.thy ===== *)
theory Orch_Commands
  imports Orch_Poll_Props
begin

text \<open>
  The slash commands of \<open>internal/orchestrator/commands.go\<close>. \<open>dyn\<close> is the optional
  \<open>listDynamicModels\<close> callback, which queries a provider over the network; \<open>reg\<close> is the
  provider registry.
\<close>

type_synonym 'x model_lister = "(string \<Rightarrow> string \<Rightarrow> 'x \<Rightarrow> ModelInfo list result \<times> 'x) option"

definition sendSystemMessage :: "'x orch_env \<Rightarrow> string \<Rightarrow> string \<Rightarrow> ('x, unit) orch" where
  "sendSystemMessage e chatJID text = ignore (call (oe_RouteOutbound e chatJID text))"

definition provider_of :: "Group \<Rightarrow> string" where
  "provider_of g = (case g_ContainerConfig g of
     Some cc \<Rightarrow> if cc_Provider cc \<noteq> [] then cc_Provider cc else ''anthropic''
   | None \<Rightarrow> ''anthropic'')"

definition model_of :: "Group \<Rightarrow> string" where
  "model_of g = (case g_ContainerConfig g of Some cc \<Rightarrow> cc_Model cc | None \<Rightarrow> [])"

text \<open>The dynamic list, when there is one, it answers and it is not empty.\<close>

definition dynamic_models :: "'x model_lister \<Rightarrow> string \<Rightarrow> string \<Rightarrow> ('x, ModelInfo list option) orch" where
  "dynamic_models dyn chatJID providerID =
     (case dyn of
        None \<Rightarrow> ret None
      | Some f \<Rightarrow>
          if providerID \<noteq> ProviderOpenAI then ret None
          else do {
            r \<leftarrow> call (f chatJID providerID);
            (case r of Inl _ \<Rightarrow> ret None | Inr ms \<Rightarrow> ret (if ms = [] then None else Some ms)) })"

definition currentModelForChat :: "'x orch_env \<Rightarrow> string \<Rightarrow> ('x, (string \<times> string) result) orch" where
  "currentModelForChat e chatJID = do {
     r \<leftarrow> call (oe_GetGroup e chatJID);
     (case r of
        Inl err \<Rightarrow> ret (Inl err)
      | Inr None \<Rightarrow> ret (Inl (Errorf ''group not found''))
      | Inr (Some g) \<Rightarrow> if model_of g = [] then ret (Inr ([], ''default'')) else ret (Inr (model_of g, model_of g)))
   }"

definition validateRequestedModel :: "'x model_lister \<Rightarrow> ProviderRegistry \<Rightarrow> string \<Rightarrow> string \<Rightarrow> string \<Rightarrow> ('x, unit result) orch" where
  "validateRequestedModel dyn reg chatJID providerID requested = do {
     d \<leftarrow> dynamic_models dyn chatJID providerID;
     (case d of
        Some ms \<Rightarrow>
          if list_ex (\<lambda>m. mi_ID m = requested) ms then ret (Inr ())
          else ret (Inl (Errorf (''model '' @ Quote requested @ '' not found in dynamic list'')))
      | None \<Rightarrow> ret (ValidateModel reg providerID requested))
   }"

definition updateGroupModel :: "'x orch_env \<Rightarrow> string \<Rightarrow> string \<Rightarrow> ('x, unit result) orch" where
  "updateGroupModel e chatJID model = do {
     r \<leftarrow> call (oe_GetGroup e chatJID);
     (case r of
        Inl err \<Rightarrow> ret (Inl err)
      | Inr None \<Rightarrow> ret (Inl (Errorf ''group not found''))
      | Inr (Some grp) \<Rightarrow> do {
          let cc = (case g_ContainerConfig grp of None \<Rightarrow> empty_ContainerConfig | Some cc \<Rightarrow> cc);
          let grp = grp\<lparr>g_ContainerConfig := Some (cc\<lparr>cc_Model := model\<rparr>)\<rparr>;
          u \<leftarrow> call (oe_UpsertGroup e grp);
          (case u of
             Inl err \<Rightarrow> ret (Inl err)
           | Inr _ \<Rightarrow> do {
               d \<leftarrow> call (oe_DeleteSession e (g_Folder grp));
               (case d of
                  Inl err \<Rightarrow> ret (Inl err)
                | Inr _ \<Rightarrow> do {
                    modify (\<lambda>w. w\<lparr>registeredGroups := (case map_of (registeredGroups w) chatJID of
                        None \<Rightarrow> registeredGroups w
                      | Some existing \<Rightarrow>
                          AList.update chatJID (existing\<lparr>g_ContainerConfig := g_ContainerConfig grp\<rparr>) (registeredGroups w)),
                      sessions := (sessions w)(g_Folder grp := None)\<rparr>);
                    ret (Inr ()) }) }) })
   }"

definition sendModelUpdateToActive :: "'x orch_env \<Rightarrow> string \<Rightarrow> string \<Rightarrow> ('x, unit result) orch" where
  "sendModelUpdateToActive e chatJID model = do {
     a \<leftarrow> call (oe_IsActive e chatJID);
     (case a of
        Inl err \<Rightarrow> ret (Inl err)
      | Inr active \<Rightarrow>
          if \<not> active then ret (Inr ())
          else do {
            g \<leftarrow> gets (\<lambda>w. map_of (registeredGroups w) chatJID);
            (case g of
               None \<Rightarrow> ret (Inl (Errorf ''group not found''))
             | Some grp \<Rightarrow>
                 (case cj_encModel (oe_codec e) model of
                    Inl err \<Rightarrow> ret (Inl err)
                  | Inr payload \<Rightarrow>
                      call (oe_SendInput e (g_Folder grp) DefaultAgentID
                        \<lparr>ipc_Group = g_Folder grp, ipc_AgentID = [], ipc_Type = IPCSetModel, ipc_Payload = payload, ipc_ID = []\<rparr>))) })
   }"

definition model_line :: "string \<Rightarrow> ModelInfo \<Rightarrow> string" where
  "model_line currentModel m =
     ''- '' @ (if mi_DisplayName m \<noteq> [] then mi_ID m @ '' ('' @ mi_DisplayName m @ '')'' else mi_ID m) @
     (if mi_ID m = currentModel then '' (current)'' else []) @ newline"

definition models_text :: "ProviderInfo \<Rightarrow> ModelInfo list \<Rightarrow> string \<Rightarrow> string" where
  "models_text p models currentModel =
     TrimRight (''Models ('' @ pi_DisplayName p @ ''):'' @ newline @ concat (map (model_line currentModel) models) @
       (if currentModel = [] then ''Current: '' @ pi_DefaultModel p @ '' (default)'' else [])) newline"

definition handleModelsCommand :: "'x orch_env \<Rightarrow> 'x model_lister \<Rightarrow> ProviderRegistry \<Rightarrow> string \<Rightarrow> ('x, unit) orch" where
  "handleModelsCommand e dyn reg chatJID = do {
     r \<leftarrow> call (oe_GetGroup e chatJID);
     (case r of
        Inl _ \<Rightarrow> sendSystemMessage e chatJID ''Unable to fetch group for this chat.''
      | Inr None \<Rightarrow> sendSystemMessage e chatJID ''Unable to fetch group for this chat.''
      | Inr (Some grp) \<Rightarrow> do {
          let providerID = provider_of grp;
          d \<leftarrow> dynamic_models dyn chatJID providerID;
          let models = (case d of None \<Rightarrow> Provider_Models reg providerID | Some ms \<Rightarrow> ms);
          (case Provider_Get reg providerID of
             None \<Rightarrow> sendSystemMessage e chatJID (''Unknown provider '' @ Quote providerID @ '' configured for this group. Contact an admin.'')
           | Some p \<Rightarrow> sendSystemMessage e chatJID (models_text p models (model_of grp))) })
   }"

definition handleModelCommand :: "'x orch_env \<Rightarrow> 'x model_lister \<Rightarrow> ProviderRegistry \<Rightarrow> string \<Rightarrow> string \<Rightarrow> ('x, unit) orch" where
  "handleModelCommand e dyn reg chatJID requested = do {
     c \<leftarrow> currentModelForChat e chatJID;
     (case c of
        Inl _ \<Rightarrow> sendSystemMessage e chatJID ''Unable to fetch current model for this chat.''
      | Inr (currentModel, currentLabel) \<Rightarrow>
          if requested = [] then
            sendSystemMessage e chatJID (''Current model: '' @ (if currentLabel = [] then ''default'' else currentLabel))
          else do {
            r \<leftarrow> call (oe_GetGroup e chatJID);
            (case r of
               Inl _ \<Rightarrow> sendSystemMessage e chatJID ''Unable to fetch group.''
             | Inr None \<Rightarrow> sendSystemMessage e chatJID ''Unable to fetch group.''
             | Inr (Some grp) \<Rightarrow> do {
                 let providerID = provider_of grp;
                 v \<leftarrow> validateRequestedModel dyn reg chatJID providerID requested;
                 (case v of
                    Inl _ \<Rightarrow> sendSystemMessage e chatJID
                      (''Unknown model '' @ Quote requested @ '' for provider '' @ providerID @ ''. Use /models to list available models.'')
                  | Inr _ \<Rightarrow>
                      if requested = currentModel
                      then sendSystemMessage e chatJID (''Model already set to '' @ requested @ ''.'')
                      else do {
                        u \<leftarrow> updateGroupModel e chatJID requested;
                        (case u of
                           Inl _ \<Rightarrow> sendSystemMessage e chatJID ''Failed to update the model.''
                         | Inr _ \<Rightarrow> do {
                             ignore (sendModelUpdateToActive e chatJID requested);
                             sendSystemMessage e chatJID (''Model set to '' @ requested @ ''.'') }) }) }) })
   }"

definition handleSlashCommand :: "'x orch_env \<Rightarrow> 'x model_lister \<Rightarrow> ProviderRegistry \<Rightarrow> string \<Rightarrow> string \<Rightarrow> string \<Rightarrow> ('x, bool) orch" where
  "handleSlashCommand e dyn reg chatJID msgContent sender =
     (let content = TrimSpace msgContent
      in if \<not> HasPrefix content ''/'' then ret False
         else case Fields content of
           [] \<Rightarrow> ret False
         | field0 # rest \<Rightarrow>
             (let cmd = ToLower (TrimPrefix field0 ''/'')
              in do {
                r \<leftarrow> IsAllowed_call e chatJID sender;
                (case r of
                   Inl _ \<Rightarrow> do { sendSystemMessage e chatJID ''Unable to check permissions for this command.''; ret True }
                 | Inr allowed \<Rightarrow>
                     if \<not> allowed
                     then do { sendSystemMessage e chatJID ''You are not allowed to run commands in this chat.''; ret True }
                     else if cmd = ''models'' then do { handleModelsCommand e dyn reg chatJID; ret True }
                     else if cmd = ''model'' then do {
                       handleModelCommand e dyn reg chatJID (case rest of [] \<Rightarrow> [] | a # _ \<Rightarrow> a); ret True }
                     else if cmd = ''commands'' \<or> cmd = ''help'' then do {
                       sendSystemMessage e chatJID
                         (''Available commands:'' @ newline @ ''- /models'' @ newline @ ''- /model <id>'' @ newline @ ''- /model'' @ newline @ ''- /help'');
                       ret True }
                     else do { sendSystemMessage e chatJID (''Unknown command: /'' @ cmd); ret True }) }))"

text \<open>Inbound messages with the commands of the program.\<close>

definition inbound :: "'x orch_env \<Rightarrow> 'x model_lister \<Rightarrow> ProviderRegistry \<Rightarrow> string \<Rightarrow> InboundMessage \<Rightarrow> ('x, unit) orch" where
  "inbound e dyn reg = onInboundMessage e (handleSlashCommand e dyn reg)"

section \<open>What a command may do\<close>

definition with_model :: "string \<Rightarrow> Group \<Rightarrow> Group" where
  "with_model model g = g\<lparr>g_ContainerConfig :=
     Some ((case g_ContainerConfig g of None \<Rightarrow> empty_ContainerConfig | Some cc \<Rightarrow> cc)\<lparr>cc_Model := model\<rparr>)\<rparr>"

text \<open>The model of one group has changed, and its session may be gone; nothing else has changed.\<close>

definition model_changed :: "string \<Rightarrow> db \<Rightarrow> db \<Rightarrow> bool" where
  "model_changed chat d d' \<longleftrightarrow> (\<exists>r model. r \<in> set (db_groups d) \<and> row_jid r = chat \<and>
     (let d1 = d\<lparr>db_groups := update_where (\<lambda>r. row_jid r = chat) (\<lambda>r. r\<lparr>r_group := with_model model (r_group r)\<rparr>) (db_groups d)\<rparr>
      in d' \<in> {d1, d1\<lparr>db_sessions := filter (\<lambda>s. s_GroupFolder s \<noteq> row_folder r) (db_sessions d)\<rparr>}))"

definition lister_ok :: "sys model_lister \<Rightarrow> bool" where
  "lister_ok dyn \<longleftrightarrow> (\<forall>f. dyn = Some f \<longrightarrow> (\<forall>c p x. y_db (snd (f c p x)) = y_db x))"

lemma cascade_same [simp]: "cascade_folder f f ts = ts"
  unfolding cascade_folder_def update_where_def by (rule map_idI) simp

lemma upsert_with_model:
  assumes "db_wf d" and "find (\<lambda>r. row_jid r = chat) (db_groups d) = Some r"
  shows "UpsertGroup None (with_model model (r_group r)) d =
    (Inr (), d\<lparr>db_groups := update_where (\<lambda>r. row_jid r = chat) (\<lambda>r. r\<lparr>r_group := with_model model (r_group r)\<rparr>) (db_groups d)\<rparr>)"
proof -
  have r: "r \<in> set (db_groups d)" "row_jid r = chat" using assms(2) by (auto simp: find_Some_iff)
  have inj: "inj_on row_jid (set (db_groups d))" "inj_on row_folder (set (db_groups d))"
    using assms(1) by (auto simp: db_wf_def groups_wf_def distinct_map)
  have "\<not> list_ex (\<lambda>r'. row_jid r' \<noteq> chat \<and> row_folder r' = row_folder r) (db_groups d)"
    using inj(2) r by (auto simp: list_ex_iff dest: inj_onD)
  moreover have "update_where (\<lambda>r. row_jid r = chat) (set_group_cols (with_model model (r_group r))) (db_groups d) =
      update_where (\<lambda>r. row_jid r = chat) (\<lambda>r. r\<lparr>r_group := with_model model (r_group r)\<rparr>) (db_groups d)"
    unfolding update_where_def
  proof (rule map_cong [OF refl])
    fix r' assume "r' \<in> set (db_groups d)"
    then have "row_jid r' = chat \<Longrightarrow> r' = r" using inj(1) r by (auto dest: inj_onD)
    then show "(if row_jid r' = chat then set_group_cols (with_model model (r_group r)) r' else r') =
      (if row_jid r' = chat then r'\<lparr>r_group := with_model model (r_group r')\<rparr> else r')"
      by (auto simp: set_group_cols_def with_model_def)
  qed
  ultimately show ?thesis using assms(2) r(2) by (simp add: UpsertGroup_def with_model_def)
qed

abbreviation only_model :: "string \<Rightarrow> sys world \<Rightarrow> sys world \<Rightarrow> bool" where
  "only_model chat w t \<equiv> y_db (ext t) = y_db (ext w) \<or> model_changed chat (y_db (ext w)) (y_db (ext t))"

lemma updateGroupModel_db:
  assumes "db_wf (y_db (ext w))"
  shows "wp (updateGroupModel (sys_env cfg codec lib rng sb o1) chat model) (\<lambda>_. only_model chat w) w"
proof (cases "fst (oe_GetGroup (sys_env cfg codec lib rng sb o1) chat (ext w))")
  case (Inl err)
  then show ?thesis
    by (simp add: updateGroupModel_def wp_def run_call sys_simps)
next
  case (Inr go)
  show ?thesis
  proof (cases go)
    case None
    with Inr show ?thesis by (simp add: updateGroupModel_def wp_def run_call sys_simps)
  next
    case (Some g)
    then obtain r where r: "find (\<lambda>r. row_jid r = chat) (db_groups (y_db (ext w))) = Some r" "g = r_group r"
      using Inr by (auto simp: sys_simps db_read_def GetGroup_def split: option.splits)
    then have mem: "r \<in> set (db_groups (y_db (ext w)))" "row_jid r = chat" by (auto simp: find_Some_iff)
    let ?g = "with_model model g"
    have same: "g\<lparr>g_ContainerConfig := Some ((case g_ContainerConfig g of None \<Rightarrow> empty_ContainerConfig | Some cc \<Rightarrow> cc)\<lparr>cc_Model := model\<rparr>)\<rparr> = ?g"
      by (simp add: with_model_def)
    have up: "UpsertGroup f ?g (y_db (ext w)) = (case f of Some e \<Rightarrow> (Inl (Wrapf ''upsert group'' e), y_db (ext w))
        | None \<Rightarrow> UpsertGroup None ?g (y_db (ext w)))" for f
      by (cases f) (simp_all add: UpsertGroup_def)
    have fol: "g_Folder ?g = row_folder r" using r(2) by (simp add: with_model_def)
    show ?thesis
      unfolding updateGroupModel_def Let_def
      by (intro wp_shape; use Inr Some in \<open>simp add: same fol sys_simps db_write_def up split_beta\<close>)
        (use upsert_with_model [OF assms r(1)] mem r(2) in \<open>auto simp: model_changed_def DeleteSession_def fol Let_def split: option.splits\<close>)
  qed
qed

text \<open>Everything else a command calls leaves the database alone.\<close>

lemma lister_keeps: "lister_ok dyn \<Longrightarrow> dyn = Some f \<Longrightarrow> keeps (\<lambda>w. y_db (ext w) = d) (call (f c p))"
  by (rule keeps_ext_call) (simp add: lister_ok_def)

lemma dynamic_models_db: "lister_ok dyn \<Longrightarrow> keeps (\<lambda>w. y_db (ext w) = d) (dynamic_models dyn chat p)"
  unfolding dynamic_models_def by (cases dyn) (auto intro!: keeps_intro lister_keeps)

lemma command_calls_db:
  "keeps (\<lambda>w. y_db (ext w) = d) (sendSystemMessage (sys_env cfg codec lib rng sb o1) chat text)"
  "keeps (\<lambda>w. y_db (ext w) = d) (currentModelForChat (sys_env cfg codec lib rng sb o1) chat)"
  "keeps (\<lambda>w. y_db (ext w) = d) (call (oe_GetGroup (sys_env cfg codec lib rng sb o1) chat))"
  "keeps (\<lambda>w. y_db (ext w) = d) (sendModelUpdateToActive (sys_env cfg codec lib rng sb o1) chat model)"
  unfolding sendSystemMessage_def currentModelForChat_def sendModelUpdateToActive_def
  by (intro keeps_intro keeps_ext_call; simp add: sys_simps)+

lemma validateRequestedModel_db:
  "lister_ok dyn \<Longrightarrow> keeps (\<lambda>w. y_db (ext w) = d) (validateRequestedModel dyn reg chat p m)"
  unfolding validateRequestedModel_def by (intro keeps_intro dynamic_models_db)

lemma handleModelsCommand_db:
  "lister_ok dyn \<Longrightarrow> keeps (\<lambda>w. y_db (ext w) = d) (handleModelsCommand (sys_env cfg codec lib rng sb o1) dyn reg chat)"
  unfolding handleModelsCommand_def Let_def
  by (intro keeps_intro command_calls_db dynamic_models_db)

lemma wp_same_db:
  assumes "\<And>d. keeps (\<lambda>w. y_db (ext w) = d) m" and "\<And>r t. y_db (ext t) = y_db (ext w) \<Longrightarrow> Q r t"
  shows "wp m Q w"
  by (rule wp_keeps [OF assms(1)]) (use assms(2) in auto)

lemma update_then:
  assumes "db_wf (y_db (ext t))" and "y_db (ext t) = y_db (ext w)" and "\<And>r d. keeps (\<lambda>w. y_db (ext w) = d) (k r)"
  shows "wp (updateGroupModel (sys_env cfg codec lib rng sb o1) chat model \<bind> k) (\<lambda>_. only_model chat w) t"
proof (rule wp_bind, rule wp_mono [OF updateGroupModel_db [OF assms(1)]])
  fix r s assume "only_model chat t s"
  then show "wp (k r) (\<lambda>_. only_model chat w) s"
    by (intro wp_same_db [OF assms(3)]) (use assms(2) in auto)
qed

lemma handleModelCommand_db:
  assumes "db_wf (y_db (ext w))" and "lister_ok dyn"
  shows "wp (handleModelCommand (sys_env cfg codec lib rng sb o1) dyn reg chat requested) (\<lambda>_. only_model chat w) w"
  unfolding handleModelCommand_def Let_def
  by (intro wp_bind wp_if wp_sum wp_option wp_prod update_then wp_same_db [OF command_calls_db(1)] wp_same_db [OF command_calls_db(2)]
      wp_same_db [OF command_calls_db(3)] wp_same_db [OF validateRequestedModel_db [OF assms(2)]]
      keeps_intro command_calls_db; use assms(1) in simp)

lemma wp_list:
  "(xs = [] \<Longrightarrow> wp m Q s) \<Longrightarrow> (\<And>y ys. xs = y # ys \<Longrightarrow> wp (f y ys) Q s) \<Longrightarrow>
   wp (case xs of [] \<Rightarrow> m | y # ys \<Rightarrow> f y ys) Q s"
  by (cases xs) auto

text \<open>
  C13: A chat command never does more than it may. Whatever is sent, by whomever, and whatever
  fails meanwhile, a slash command leaves the database as it was, except that the \<open>/model\<close>
  command of a sender the allowlist lets in may set the model of the chat's own group, and
  drop that group's session.
\<close>

theorem command_confined:
  fixes w :: "sys world"
  assumes "db_wf (y_db (ext w))" and "lister_ok dyn"
  shows "case run_state (handleSlashCommand (sys_env cfg codec lib rng sb o1) dyn reg chat content sender) w of (_, w') \<Rightarrow>
    y_db (ext w') = y_db (ext w) \<or>
    (IsAllowed (\<lambda>_. GetAllowlist None chat (y_db (ext w))) chat sender = Inr True \<and>
     model_changed chat (y_db (ext w)) (y_db (ext w')))"
proof -
  let ?e = "sys_env cfg codec lib rng sb o1"
  let ?d = "y_db (ext w)"
  let ?Q = "\<lambda>_ w'. y_db (ext w') = ?d \<or> (IsAllowed (\<lambda>_. GetAllowlist None chat ?d) chat sender = Inr True \<and> model_changed chat ?d (y_db (ext w')))"
  have allow: "IsAllowed (\<lambda>_. GetAllowlist f chat ?d) chat sender = Inr True \<Longrightarrow>
      IsAllowed (\<lambda>_. GetAllowlist None chat ?d) chat sender = Inr True" for f
    using IsAllowed_fault GetAllowlist_fault by metis
  have model: "wp (handleModelCommand ?e dyn reg chat arg) (\<lambda>_. wp (ret True) ?Q) t"
    if "y_db (ext t) = ?d" and "IsAllowed (\<lambda>_. GetAllowlist None chat ?d) chat sender = Inr True" for arg t
    by (rule wp_mono [OF handleModelCommand_db]) (use assms that in \<open>auto simp: wp_def\<close>)
  have "wp (handleSlashCommand ?e dyn reg chat content sender) ?Q w"
    unfolding handleSlashCommand_def IsAllowed_call_def Let_def
    by (intro wp_bind wp_exact wp_ret wp_list wp_sum wp_if model wp_same_db [OF command_calls_db(1)]
        wp_same_db [OF handleModelsCommand_db [OF assms(2)]]; simp add: sys_simps db_read_def) (auto dest: allow)
  then show ?thesis by (simp add: wp_def split_beta)
qed

theorem command_confined_witness:
  "case run_state (handleSlashCommand demo_env None NewRegistry ''g'' ''/model claude-opus-4-6'' ''u'') (demo_world False [] 0 0) of
     (_, w') \<Rightarrow> y_db (ext w') = y_db (ext (demo_world False [] 0 0)) \<or>
       model_changed ''g'' (y_db (ext (demo_world False [] 0 0))) (y_db (ext w'))"
  using command_confined [where w = "demo_world False [] 0 0" and dyn = None and cfg = demo_cfg and codec = demo_orch_codec
      and lib = demo_lib and rng = id and sb = True and ?o1.0 = demo_outcomes and reg = NewRegistry and chat = "''g''"
      and content = "''/model claude-opus-4-6''" and sender = "''u''"] demo_world_wf [of False "[]" 0 0]
  by (auto simp: lister_ok_def msgs_wf_def)

end
