(* ===== verification/Go_Encoding.thy ===== *)
theory Go_Encoding
  imports Go_Strings
begin

text \<open>
  \<open>hex.DecodeString\<close> and the standard alphabet of \<open>encoding/base64\<close>, as the credential
  store and the sign-in use them, with their round trips. A byte is a character; the
  decoders return \<open>None\<close> where Go returns an error.
\<close>

abbreviation byte :: "char \<Rightarrow> nat" where "byte c \<equiv> of_char c"

lemma byte_div_less: "byte c div 4 < 64" "byte c div 16 < 16" "byte c div 64 < 4"
  by (simp_all add: less_mult_imp_div_less)

section \<open>Hexadecimal\<close>

definition hex_value :: "char \<Rightarrow> nat" where
  "hex_value c = (let n = (of_char c :: nat) in
     if n \<le> 57 then n - 48 else if 97 \<le> n then n - 87 else n - 55)"

fun hex_decode :: "string \<Rightarrow> string option" where
  "hex_decode [] = Some []"
| "hex_decode [c] = None"
| "hex_decode (c # d # cs) =
     (if is_hex_char c \<and> is_hex_char d
      then map_option ((#) (char_of (16 * hex_value c + hex_value d))) (hex_decode cs)
      else None)"

lemma hex_decode_length: "hex_decode s = Some b \<Longrightarrow> length s = 2 * length b"
  by (induction s arbitrary: b rule: hex_decode.induct) (auto split: if_splits)

lemma hex_digit_value:
  assumes "d < 16"
  shows "is_hex_char (hex_digit d) \<and> hex_value (hex_digit d) = d"
  using assms by (simp add: is_hex_char_def hex_value_def of_char_hex_digit Let_def)

lemma hex_decode_encode: "hex_decode (hex_encode (map of_char bs)) = Some bs"
proof (induction bs)
  case (Cons b bs)
  have "byte b div 16 < 16"
    by (rule byte_div_less)
  with Cons show ?case
    by (simp add: hex_digit_value)
qed simp

section \<open>Base64\<close>

definition b64_char :: "nat \<Rightarrow> char" where
  "b64_char n =
     (if n < 26 then char_of (n + 65)
      else if n < 52 then char_of (n + 71)
      else if n < 62 then char_of (n - 4)
      else if n = 62 then CHR ''+'' else CHR ''/'')"

definition b64_value :: "char \<Rightarrow> nat option" where
  "b64_value c = (let n = (of_char c :: nat) in
     if 65 \<le> n \<and> n \<le> 90 then Some (n - 65)
     else if 97 \<le> n \<and> n \<le> 122 then Some (n - 71)
     else if 48 \<le> n \<and> n \<le> 57 then Some (n + 4)
     else if n = 43 then Some 62
     else if n = 47 then Some 63
     else None)"

fun b64_encode :: "string \<Rightarrow> string" where
  "b64_encode [] = []"
| "b64_encode [a] = [b64_char (byte a div 4), b64_char (byte a mod 4 * 16), CHR ''='', CHR ''='']"
| "b64_encode [a, b] =
     [b64_char (byte a div 4), b64_char (byte a mod 4 * 16 + byte b div 16), b64_char (byte b mod 16 * 4), CHR ''='']"
| "b64_encode (a # b # c # r) =
     b64_char (byte a div 4) # b64_char (byte a mod 4 * 16 + byte b div 16) #
     b64_char (byte b mod 16 * 4 + byte c div 64) # b64_char (byte c mod 64) # b64_encode r"

text \<open>
  A quantum of four characters; padding is allowed in the last one only, and the bits
  that do not fill a byte are dropped.
\<close>

definition b64_quantum :: "char \<Rightarrow> char \<Rightarrow> char \<Rightarrow> char \<Rightarrow> bool \<Rightarrow> string option" where
  "b64_quantum p q r s final =
     (case (b64_value p, b64_value q) of
        (Some a, Some b) \<Rightarrow>
          if final \<and> r = CHR ''='' \<and> s = CHR ''='' then Some [char_of (a * 4 + b div 16)]
          else (case b64_value r of
                  None \<Rightarrow> None
                | Some c \<Rightarrow>
                    if final \<and> s = CHR ''=''
                    then Some [char_of (a * 4 + b div 16), char_of (b mod 16 * 16 + c div 4)]
                    else (case b64_value s of
                            None \<Rightarrow> None
                          | Some d \<Rightarrow> Some [char_of (a * 4 + b div 16), char_of (b mod 16 * 16 + c div 4), char_of (c mod 4 * 64 + d)]))
      | _ \<Rightarrow> None)"

fun b64_quanta :: "string \<Rightarrow> string option" where
  "b64_quanta [] = Some []"
| "b64_quanta (p # q # r # s # t) =
     (case b64_quantum p q r s (t = []) of
        None \<Rightarrow> None
      | Some bs \<Rightarrow> map_option ((@) bs) (b64_quanta t))"
| "b64_quanta _ = None"

text \<open>\<open>StdEncoding.DecodeString\<close> ignores line ends.\<close>

definition b64_decode :: "string \<Rightarrow> string option" where
  "b64_decode s = b64_quanta (filter (\<lambda>c. c \<noteq> CHR 0x0A \<and> c \<noteq> CHR 0x0D) s)"

lemma b64_char_code:
  assumes "n < 64"
  shows "byte (b64_char n) =
    (if n < 26 then n + 65 else if n < 52 then n + 71 else if n < 62 then n - 4 else if n = 62 then 43 else 47)"
  using assms by (simp add: b64_char_def)

lemma b64_value_char [simp]: "n < 64 \<Longrightarrow> b64_value (b64_char n) = Some n"
  by (auto simp: b64_value_def b64_char_code Let_def)

lemma b64_char_plain:
  assumes "n < 64"
  shows "b64_char n \<noteq> CHR ''='' \<and> b64_char n \<noteq> CHR 0x0A \<and> b64_char n \<noteq> CHR 0x0D"
proof -
  have "byte (b64_char n) \<notin> {61, 10, 13}"
    using assms by (auto simp: b64_char_code)
  then show ?thesis
    by auto
qed

lemma byte_bounds:
  "byte a div 4 < 64" "byte a mod 4 * 16 + byte b div 16 < 64" "byte a mod 4 * 16 < 64"
  "byte b mod 16 * 4 + byte c div 64 < 64" "byte b mod 16 * 4 < 64" "byte c mod 64 < 64"
proof -
  have "byte a mod 4 < 4" "byte b mod 16 < 16"
    by simp_all
  then show "byte a mod 4 * 16 + byte b div 16 < 64" "byte a mod 4 * 16 < 64"
    "byte b mod 16 * 4 + byte c div 64 < 64" "byte b mod 16 * 4 < 64"
    using byte_div_less(2) [of b] byte_div_less(3) [of c] by linarith+
qed (simp_all add: byte_div_less)

lemma byte_pieces [simp]:
  "byte b div 16 div 16 = 0" "byte b div 16 mod 16 = byte b div 16"
  "byte c div 64 div 4 = 0" "byte c div 64 mod 4 = byte c div 64"
  using byte_div_less(2) [of b] byte_div_less(3) [of c] by (simp_all only: div_less mod_less)

lemma b64_quanta_encode: "b64_quanta (b64_encode s) = Some s"
proof (induction s rule: b64_encode.induct)
  case (4 a b c r)
  then show ?case
    by (simp add: b64_quantum_def byte_bounds b64_char_plain)
qed (simp_all add: b64_quantum_def byte_bounds b64_char_plain)

lemma b64_encode_no_newline: "filter (\<lambda>c. c \<noteq> CHR 0x0A \<and> c \<noteq> CHR 0x0D) (b64_encode s) = b64_encode s"
  by (induction s rule: b64_encode.induct) (simp_all add: byte_bounds b64_char_plain)

lemma b64_encode_empty [simp]: "b64_encode s = [] \<longleftrightarrow> s = []"
  by (cases s rule: b64_encode.cases) simp_all

lemma b64_decode_encode [simp]: "b64_decode (b64_encode s) = Some s"
  by (simp add: b64_decode_def b64_encode_no_newline b64_quanta_encode)

end
