(* ===== verification/Chatgpt_Auth.thy ===== *)
theory Chatgpt_Auth
  imports Go_Encoding
begin

text \<open>
  \<open>internal/auth/chatgpt\<close>: the OAuth device flow and the refresh of tokens. Each request of the
  client is a function of the server's answer; the JSON decoder is the parameter \<open>json\<close>.
  The polling loop runs on a clock that advances by the time each request takes and by the
  waits between them.
\<close>

section \<open>Client\<close>

definition DefaultIssuer :: string where "DefaultIssuer = ''https://auth.openai.com''"
definition ClientID :: string where "ClientID = ''app_EMoamEEZ73f0CkXaXp7hrann''"
definition DefaultPollTimeout :: duration where "DefaultPollTimeout = 15 * Minute"
definition DefaultPollInterval :: duration where "DefaultPollInterval = 5 * Second"
definition slowDownBackoff :: duration where "slowDownBackoff = 5 * Second"

record Client =
  cg_issuer :: string
  cg_clientID :: string
  cg_pollTimeout :: duration
  cg_pollOverride :: duration

definition NewClient :: "string \<Rightarrow> string \<Rightarrow> duration \<Rightarrow> duration \<Rightarrow> Client result" where
  "NewClient issuer clientID pollTimeout pollInterval =
     (let issuer = TrimRight issuer ''/'';
          issuer = (if issuer = [] then DefaultIssuer else issuer)
      in if \<not> HasPrefix issuer ''http://'' \<and> \<not> HasPrefix issuer ''https://''
         then Inl (Errorf (''chatgpt: issuer must be an http(s) URL, got '' @ Quote issuer))
         else Inr \<lparr>cg_issuer = issuer, cg_clientID = (if clientID = [] then ClientID else clientID),
                   cg_pollTimeout = (if pollTimeout \<le> 0 then DefaultPollTimeout else pollTimeout),
                   cg_pollOverride = pollInterval\<rparr>)"

definition VerificationURL :: "Client \<Rightarrow> string" where "VerificationURL c = cg_issuer c @ ''/codex/device''"
definition RedirectURI :: "Client \<Rightarrow> string" where "RedirectURI c = cg_issuer c @ ''/deviceauth/callback''"

definition ErrAuthorizationPending :: goerr where "ErrAuthorizationPending = Errorf ''chatgpt: authorization pending''"
definition ErrSlowDown :: goerr where "ErrSlowDown = Wrapf ''slow_down'' ErrAuthorizationPending"
definition ErrAccessDenied :: goerr where "ErrAccessDenied = Errorf ''chatgpt: access denied''"
definition ErrDeviceAuthTimeout :: goerr where "ErrDeviceAuthTimeout = Errorf ''chatgpt: device authorization timed out''"
definition ErrResponseTooLarge :: goerr where "ErrResponseTooLarge = Errorf ''chatgpt: response body exceeded 1 MiB cap''"

definition truncate_text :: "string \<Rightarrow> nat \<Rightarrow> string" where
  "truncate_text s n = (if length s \<le> n then s else take n s @ [CHR 0xE2, CHR 0x80, CHR 0xA6])"

definition errBadStatus :: "string \<Rightarrow> nat \<Rightarrow> string \<Rightarrow> goerr" where
  "errBadStatus url status body =
     Errorf (''chatgpt: '' @ url @ '' returned status '' @ show_nat status @ '': '' @ truncate_text body 256)"

text \<open>
  The answer to a request: it could not be built, it got no response, or a status with the
  body as it can be read.
\<close>

datatype http_answer = BuildFailed goerr | NoResponse goerr | Answer nat "string result"

definition maxResponseBodySize :: nat where "maxResponseBodySize = 1048576"

definition readCappedBody :: "string result \<Rightarrow> string result" where
  "readCappedBody b =
     (case b of
        Inl err \<Rightarrow> Inl err
      | Inr body \<Rightarrow> if length body > maxResponseBodySize then Inl ErrResponseTooLarge else Inr body)"

section \<open>Tokens\<close>

record rawClaims =
  rw_Email :: string
  rw_Exp :: int
  rw_ProfileEmail :: "string option"
  rw_Auth :: "(string \<times> string \<times> string \<times> string \<times> bool) option"

record IDTokenClaims =
  ic_Email :: string
  ic_AccountID :: string
  ic_UserID :: string
  ic_PlanType :: string
  ic_IsFedRAMP :: bool
  ic_ExpiresAt :: time

record tokenResponse =
  tr_IDToken :: string
  tr_AccessToken :: string
  tr_RefreshToken :: string
  tr_ExpiresIn :: int

record Tokens =
  tk_AccessToken :: string
  tk_RefreshToken :: string
  tk_IDToken :: string
  tk_IDClaims :: IDTokenClaims
  tk_ExpiresAt :: time

definition HasExpiry :: "Tokens \<Rightarrow> bool" where "HasExpiry t \<longleftrightarrow> \<not> IsZero (tk_ExpiresAt t)"

text \<open>The field \<open>error\<close> of an error body: missing, a string, an object with codes, or something else.\<close>

datatype error_field = NoErrorField | ErrorString string | ErrorObject string string | ErrorOther goerr

record json =
  js_claims :: "string \<Rightarrow> rawClaims result"
  js_userCode :: "string \<Rightarrow> (string \<times> string \<times> string \<times> duration) result"
  js_code :: "string \<Rightarrow> (string \<times> string) result"
  js_token :: "string \<Rightarrow> tokenResponse result"
  js_error :: "string \<Rightarrow> (error_field \<times> string \<times> string) result"
  js_refreshError :: "string \<Rightarrow> (string \<times> string \<times> string) result"

text \<open>The URL alphabet has \<open>-\<close> and \<open>_\<close> in place of \<open>+\<close> and \<open>/\<close>.\<close>

definition b64url_decode :: "string \<Rightarrow> string option" where
  "b64url_decode s =
     (if CHR ''+'' \<in> set s \<or> CHR ''/'' \<in> set s then None
      else b64_decode (map (\<lambda>c. if c = CHR ''-'' then CHR ''+'' else if c = CHR ''_'' then CHR ''/'' else c) s))"

definition decodeJWTSegment :: "string \<Rightarrow> string option" where
  "decodeJWTSegment seg =
     (let pad = length seg mod 4;
          seg = (if pad \<noteq> 0 then seg @ replicate (4 - pad) (CHR ''='') else seg)
      in case b64url_decode seg of Some b \<Rightarrow> Some b | None \<Rightarrow> b64_decode seg)"

definition unix_time :: "int \<Rightarrow> time" where "unix_time s = (719162 * 86400 + s) * Second"

definition claims_of :: "rawClaims \<Rightarrow> IDTokenClaims" where
  "claims_of raw =
     \<lparr>ic_Email = (if rw_Email raw = [] then (case rw_ProfileEmail raw of Some m \<Rightarrow> m | None \<Rightarrow> []) else rw_Email raw),
      ic_AccountID = (case rw_Auth raw of Some (_, _, _, account, _) \<Rightarrow> account | None \<Rightarrow> []),
      ic_UserID = (case rw_Auth raw of Some (_, chatUser, user, _, _) \<Rightarrow> if chatUser = [] then user else chatUser | None \<Rightarrow> []),
      ic_PlanType = (case rw_Auth raw of Some (plan, _) \<Rightarrow> plan | None \<Rightarrow> []),
      ic_IsFedRAMP = (case rw_Auth raw of Some (_, _, _, _, fed) \<Rightarrow> fed | None \<Rightarrow> False),
      ic_ExpiresAt = (if rw_Exp raw > 0 then unix_time (rw_Exp raw) else 0)\<rparr>"

definition ParseIDToken :: "json \<Rightarrow> string \<Rightarrow> IDTokenClaims result" where
  "ParseIDToken js token =
     (if token = [] then Inl (Errorf ''chatgpt: id_token is empty'')
      else case Split token (CHR ''.'') of
        [_, payload, _] \<Rightarrow>
          (case decodeJWTSegment payload of
             None \<Rightarrow> Inl (Errorf ''chatgpt: decode id_token payload'')
           | Some p \<Rightarrow>
               (case js_claims js p of
                  Inl err \<Rightarrow> Inl (Wrapf ''chatgpt: parse id_token claims'' err)
                | Inr raw \<Rightarrow> Inr (claims_of raw)))
      | parts \<Rightarrow> Inl (Errorf (''chatgpt: id_token is not a 3-part JWT (got '' @ show_nat (length parts) @ '' parts)'')))"

definition tokensFromResponse :: "json \<Rightarrow> time \<Rightarrow> tokenResponse \<Rightarrow> Tokens result" where
  "tokensFromResponse js now parsed =
     (if tr_AccessToken parsed = [] then Inl (Errorf ''chatgpt: token response missing access_token'')
      else if tr_RefreshToken parsed = [] then Inl (Errorf ''chatgpt: token response missing refresh_token'')
      else if tr_IDToken parsed = [] then Inl (Errorf ''chatgpt: token response missing id_token'')
      else case ParseIDToken js (tr_IDToken parsed) of
        Inl err \<Rightarrow> Inl (Wrapf ''chatgpt: parse id_token from token response'' err)
      | Inr claims \<Rightarrow>
          Inr \<lparr>tk_AccessToken = tr_AccessToken parsed, tk_RefreshToken = tr_RefreshToken parsed,
               tk_IDToken = tr_IDToken parsed, tk_IDClaims = claims,
               tk_ExpiresAt = (if IsZero (ic_ExpiresAt claims) \<and> tr_ExpiresIn parsed > 0
                 then now + tr_ExpiresIn parsed * Second else ic_ExpiresAt claims)\<rparr>)"

section \<open>Device flow\<close>

fun firstNonEmpty :: "string list \<Rightarrow> string" where
  "firstNonEmpty [] = []"
| "firstNonEmpty (v # vs) = (if v \<noteq> [] then v else firstNonEmpty vs)"

record DeviceCode =
  dc_UserCode :: string
  dc_VerificationURL :: string
  dc_Interval :: duration
  dc_deviceAuthID :: string

record AuthorizationCode =
  ac_Code :: string
  ac_CodeVerifier :: string

definition RequestDeviceCode :: "json \<Rightarrow> Client \<Rightarrow> http_answer \<Rightarrow> DeviceCode result" where
  "RequestDeviceCode js c a =
     (case a of
        BuildFailed err \<Rightarrow> Inl (Wrapf ''chatgpt: build device-code request'' err)
      | NoResponse err \<Rightarrow> Inl (Wrapf ''chatgpt: device-code request'' err)
      | Answer status raw \<Rightarrow>
          (case readCappedBody raw of
             Inl err \<Rightarrow> Inl (Wrapf ''chatgpt: read device-code response'' err)
           | Inr body \<Rightarrow>
               if status = 404 then Inl (Errorf ''chatgpt: device-code login is not enabled by the auth server (status 404)'')
               else if status div 100 \<noteq> 2
               then Inl (errBadStatus (cg_issuer c @ ''/api/accounts/deviceauth/usercode'') status body)
               else (case js_userCode js body of
                 Inl err \<Rightarrow> Inl (Wrapf ''chatgpt: decode device-code response'' err)
               | Inr (deviceAuthID, userCode, userCodeAlt, interval) \<Rightarrow>
                   (let code = firstNonEmpty [userCode, userCodeAlt]
                    in if deviceAuthID = [] \<or> code = []
                       then Inl (Errorf ''chatgpt: device-code response missing device_auth_id or user_code'')
                       else Inr \<lparr>dc_UserCode = code, dc_VerificationURL = VerificationURL c,
                                 dc_Interval = (if interval \<le> 0 then DefaultPollInterval else interval),
                                 dc_deviceAuthID = deviceAuthID\<rparr>))))"

definition pollErrorStatus :: "nat \<Rightarrow> bool" where
  "pollErrorStatus status \<longleftrightarrow> status = 400 \<or> status = 403 \<or> status = 404"

definition normalizePollErrorCode :: "string \<Rightarrow> string" where
  "normalizePollErrorCode code = ToLower (TrimSpace code)"

definition pollErrorCode :: "json \<Rightarrow> string \<Rightarrow> string result" where
  "pollErrorCode js body =
     (case js_error js body of
        Inl err \<Rightarrow> Inl err
      | Inr (field, code, errorCode) \<Rightarrow>
          (case field of
             NoErrorField \<Rightarrow> Inr (normalizePollErrorCode (firstNonEmpty [code, errorCode]))
           | ErrorString s \<Rightarrow> Inr (normalizePollErrorCode (firstNonEmpty [s, code, errorCode]))
           | ErrorObject ncode nerror \<Rightarrow> Inr (normalizePollErrorCode (firstNonEmpty [ncode, nerror, code, errorCode]))
           | ErrorOther err \<Rightarrow> Inl err))"

definition poll_code :: "json \<Rightarrow> nat \<Rightarrow> string \<Rightarrow> string" where
  "poll_code js status body =
     (if \<not> pollErrorStatus status then []
      else case pollErrorCode js body of Inl _ \<Rightarrow> [] | Inr code \<Rightarrow> code)"

definition pending_codes :: "string list" where
  "pending_codes = [''authorization_pending'', ''deviceauth_authorization_pending'', ''slow_down'',
     ''deviceauth_authorization_unknown'', ''authorization_unknown'']"

definition pollPendingCode :: "json \<Rightarrow> nat \<Rightarrow> string \<Rightarrow> string" where
  "pollPendingCode js status body =
     (if poll_code js status body \<in> set pending_codes then poll_code js status body else [])"

definition pollTerminalCode :: "json \<Rightarrow> nat \<Rightarrow> string \<Rightarrow> goerr option" where
  "pollTerminalCode js status body =
     (if poll_code js status body = ''access_denied'' \<or> poll_code js status body = ''expired_token''
      then Some ErrAccessDenied else None)"

definition PollOnce :: "json \<Rightarrow> Client \<Rightarrow> DeviceCode option \<Rightarrow> http_answer \<Rightarrow> AuthorizationCode result" where
  "PollOnce js c dc a =
     (case dc of
        None \<Rightarrow> Inl (Errorf ''chatgpt: device code is empty'')
      | Some d \<Rightarrow>
          if dc_deviceAuthID d = [] \<or> dc_UserCode d = [] then Inl (Errorf ''chatgpt: device code is empty'')
          else (case a of
            BuildFailed err \<Rightarrow> Inl (Wrapf ''chatgpt: build poll request'' err)
          | NoResponse err \<Rightarrow> Inl (Wrapf ''chatgpt: poll request'' err)
          | Answer status raw \<Rightarrow>
              (case readCappedBody raw of
                 Inl err \<Rightarrow> Inl (Wrapf ''chatgpt: read poll response'' err)
               | Inr body \<Rightarrow>
                   if status div 100 = 2 then
                     (case js_code js body of
                        Inl err \<Rightarrow> Inl (Wrapf ''chatgpt: decode poll success response'' err)
                      | Inr (code, verifier) \<Rightarrow>
                          if code = [] \<or> verifier = []
                          then Inl (Errorf ''chatgpt: poll success response missing authorization_code or code_verifier'')
                          else Inr \<lparr>ac_Code = code, ac_CodeVerifier = verifier\<rparr>)
                   else if pollPendingCode js status body = ''slow_down'' then Inl ErrSlowDown
                   else if pollPendingCode js status body \<noteq> [] then Inl ErrAuthorizationPending
                   else (case pollTerminalCode js status body of
                           Some err \<Rightarrow> Inl err
                         | None \<Rightarrow> Inl (errBadStatus (cg_issuer c @ ''/api/accounts/deviceauth/token'') status body)))))"

text \<open>
  The loop of \<open>PollUntilCode\<close> at \<open>elapsed\<close> since its start. \<open>ans n\<close> is the answer to the \<open>n\<close>th
  poll and the time it takes; \<open>cancel\<close> is when and why the caller's context ends. The
  result comes with the waits the loop started, one tick each. When two channels of the
  \<open>select\<close> are ready at once, the caller's context is taken first, then the time limit.
  A timer never waits for less than a nanosecond.
\<close>

definition ctx_ended :: "(duration \<times> goerr) option \<Rightarrow> duration \<Rightarrow> goerr option" where
  "ctx_ended cancel t = (case cancel of Some (at, err) \<Rightarrow> if at \<le> t then Some err else None | None \<Rightarrow> None)"

function poll_loop :: "json \<Rightarrow> Client \<Rightarrow> DeviceCode \<Rightarrow> (nat \<Rightarrow> http_answer \<times> duration) \<Rightarrow> (duration \<times> goerr) option \<Rightarrow>
    nat \<Rightarrow> duration \<Rightarrow> duration \<Rightarrow> AuthorizationCode result \<times> duration list" where
  "poll_loop js c dc ans cancel n elapsed interval =
     (let t = elapsed + max 0 (snd (ans n))
      in case PollOnce js c (Some dc) (fst (ans n)) of
           Inr code \<Rightarrow> (Inr code, [])
         | Inl err \<Rightarrow>
             if \<not> errors_Is err ErrAuthorizationPending then
               (case ctx_ended cancel t of
                  Some cerr \<Rightarrow> (Inl cerr, [])
                | None \<Rightarrow> if cg_pollTimeout c \<le> t then (Inl ErrDeviceAuthTimeout, []) else (Inl err, []))
             else
               (let interval' = (if errors_Is err ErrSlowDown then interval + slowDownBackoff else interval);
                    wake = t + max 1 interval'
                in case ctx_ended cancel (min wake (max t (cg_pollTimeout c))) of
                     Some cerr \<Rightarrow> (Inl cerr, [interval'])
                   | None \<Rightarrow>
                       if cg_pollTimeout c \<le> wake then (Inl ErrDeviceAuthTimeout, [interval'])
                       else (case poll_loop js c dc ans cancel (Suc n) wake interval' of
                               (r, waits) \<Rightarrow> (r, interval' # waits))))"
  by pat_completeness auto
termination
  by (relation "measure (\<lambda>(js, c, dc, ans, cancel, n, elapsed, interval). nat (cg_pollTimeout c - elapsed))") auto

definition poll_interval :: "Client \<Rightarrow> DeviceCode \<Rightarrow> duration" where
  "poll_interval c d =
     (let interval = (if cg_pollOverride c \<le> 0 then dc_Interval d else cg_pollOverride c)
      in if interval \<le> 0 then DefaultPollInterval else interval)"

definition PollUntilCode :: "json \<Rightarrow> Client \<Rightarrow> DeviceCode option \<Rightarrow> (nat \<Rightarrow> http_answer \<times> duration) \<Rightarrow> (duration \<times> goerr) option \<Rightarrow>
    AuthorizationCode result \<times> duration list" where
  "PollUntilCode js c dc ans cancel =
     (case dc of
        None \<Rightarrow> (Inl (Errorf ''chatgpt: device code is nil''), [])
      | Some d \<Rightarrow> poll_loop js c d ans cancel 0 0 (poll_interval c d))"

definition ExchangeCode :: "json \<Rightarrow> Client \<Rightarrow> time \<Rightarrow> AuthorizationCode option \<Rightarrow> http_answer \<Rightarrow> Tokens result" where
  "ExchangeCode js c now code a =
     (case code of
        None \<Rightarrow> Inl (Errorf ''chatgpt: authorization code is empty'')
      | Some ac \<Rightarrow>
          if ac_Code ac = [] \<or> ac_CodeVerifier ac = [] then Inl (Errorf ''chatgpt: authorization code is empty'')
          else (case a of
            BuildFailed err \<Rightarrow> Inl (Wrapf ''chatgpt: build token-exchange request'' err)
          | NoResponse err \<Rightarrow> Inl (Wrapf ''chatgpt: token-exchange request'' err)
          | Answer status raw \<Rightarrow>
              (case readCappedBody raw of
                 Inl err \<Rightarrow> Inl (Wrapf ''chatgpt: read token-exchange response'' err)
               | Inr body \<Rightarrow>
                   if status div 100 \<noteq> 2 then
                     (case pollTerminalCode js status body of
                        Some err \<Rightarrow> Inl err
                      | None \<Rightarrow> Inl (errBadStatus (cg_issuer c @ ''/oauth/token'') status body))
                   else (case js_token js body of
                           Inl err \<Rightarrow> Inl (Wrapf ''chatgpt: decode token-exchange response'' err)
                         | Inr parsed \<Rightarrow> tokensFromResponse js now parsed))))"

section \<open>Refresh\<close>

datatype RefreshFailureReason = RefreshFailureExpired | RefreshFailureReused | RefreshFailureRevoked | RefreshFailureUnknown
datatype RefreshErrorKind = RefreshErrorTransient | RefreshErrorPermanent

record RefreshError =
  re_kind :: RefreshErrorKind
  re_reason :: RefreshFailureReason
  re_status :: nat
  re_body :: string
  re_cause :: "goerr option"

text \<open>The errors of \<open>Refresh\<close>: a \<open>RefreshError\<close>, or a plain error before any request was made.\<close>

datatype refresh_failure = PlainError goerr | Refreshing RefreshError

definition newTransientRefresh :: "nat \<Rightarrow> string \<Rightarrow> goerr option \<Rightarrow> refresh_failure" where
  "newTransientRefresh status body cause =
     Refreshing \<lparr>re_kind = RefreshErrorTransient, re_reason = RefreshFailureUnknown, re_status = status, re_body = body, re_cause = cause\<rparr>"

definition newPermanentRefresh :: "nat \<Rightarrow> string \<Rightarrow> RefreshFailureReason \<Rightarrow> refresh_failure" where
  "newPermanentRefresh status body reason =
     Refreshing \<lparr>re_kind = RefreshErrorPermanent, re_reason = reason, re_status = status, re_body = body, re_cause = None\<rparr>"

fun refresh_reason :: "string list \<Rightarrow> RefreshFailureReason" where
  "refresh_reason [] = RefreshFailureUnknown"
| "refresh_reason (candidate # cs) =
     (let code = ToLower (TrimSpace candidate)
      in if code = ''refresh_token_expired'' then RefreshFailureExpired
         else if code = ''refresh_token_reused'' then RefreshFailureReused
         else if code = ''refresh_token_invalidated'' then RefreshFailureRevoked
         else refresh_reason cs)"

definition classifyRefreshFailure :: "json \<Rightarrow> string \<Rightarrow> RefreshFailureReason \<times> bool" where
  "classifyRefreshFailure js body =
     (case js_refreshError js body of
        Inl _ \<Rightarrow> (RefreshFailureUnknown, False)
      | Inr (err, errorCode, description) \<Rightarrow>
          (refresh_reason [errorCode, err, description], err \<noteq> [] \<or> errorCode \<noteq> [] \<or> description \<noteq> []))"

definition isPermanentBadRequest :: "json \<Rightarrow> nat \<Rightarrow> string \<Rightarrow> RefreshFailureReason \<Rightarrow> bool \<Rightarrow> bool" where
  "isPermanentBadRequest js status body reason parsed =
     (if status \<noteq> 400 \<or> \<not> parsed then False
      else if reason \<noteq> RefreshFailureUnknown then True
      else case js_refreshError js body of
             Inl _ \<Rightarrow> False
           | Inr (err, _, _) \<Rightarrow> ToLower (TrimSpace err) = ''invalid_grant'')"

definition Refresh :: "json \<Rightarrow> Client \<Rightarrow> time \<Rightarrow> string \<Rightarrow> http_answer \<Rightarrow> refresh_failure + Tokens" where
  "Refresh js c now refreshToken a =
     (if TrimSpace refreshToken = [] then Inl (PlainError (Errorf ''chatgpt: refresh token is empty''))
      else case a of
        BuildFailed err \<Rightarrow> Inl (PlainError (Wrapf ''chatgpt: build refresh request'' err))
      | NoResponse err \<Rightarrow> Inl (newTransientRefresh 0 [] (Some err))
      | Answer status raw \<Rightarrow>
          (case readCappedBody raw of
             Inl err \<Rightarrow> Inl (newTransientRefresh status [] (Some err))
           | Inr body \<Rightarrow>
               if status div 100 \<noteq> 2 then
                 (case classifyRefreshFailure js body of
                    (reason, parsed) \<Rightarrow>
                      if (status = 401 \<and> parsed) \<or> isPermanentBadRequest js status body reason parsed
                      then Inl (newPermanentRefresh status body reason)
                      else Inl (newTransientRefresh status body None))
               else (case js_token js body of
                 Inl err \<Rightarrow> Inl (newTransientRefresh status [] (Some (Wrapf ''decode refresh response'' err)))
               | Inr parsed \<Rightarrow>
                   if tr_AccessToken parsed = []
                   then Inl (newTransientRefresh status [] (Some (Errorf ''refresh response missing access_token'')))
                   else
                     (let mk = (\<lambda>claims expires. \<lparr>tk_AccessToken = tr_AccessToken parsed,
                            tk_RefreshToken = (if tr_RefreshToken parsed = [] then refreshToken else tr_RefreshToken parsed),
                            tk_IDToken = tr_IDToken parsed, tk_IDClaims = claims,
                            tk_ExpiresAt = (if IsZero expires \<and> tr_ExpiresIn parsed > 0 then now + tr_ExpiresIn parsed * Second else expires)\<rparr>);
                          zero = \<lparr>ic_Email = [], ic_AccountID = [], ic_UserID = [], ic_PlanType = [], ic_IsFedRAMP = False, ic_ExpiresAt = 0\<rparr>
                      in if tr_IDToken parsed = [] then Inr (mk zero 0)
                         else (case ParseIDToken js (tr_IDToken parsed) of
                           Inl err \<Rightarrow> Inl (newTransientRefresh status [] (Some (Wrapf ''parse refreshed id_token'' err)))
                         | Inr claims \<Rightarrow> Inr (mk claims (ic_ExpiresAt claims)))))))"

section \<open>Properties\<close>

lemma pending_slow: "errors_Is ErrSlowDown ErrAuthorizationPending" "\<not> errors_Is ErrAuthorizationPending ErrSlowDown"
  by (simp_all add: ErrSlowDown_def ErrAuthorizationPending_def)

declare poll_loop.simps [simp del]

text \<open>The answer to the \<open>k\<close>th poll asks to slow down.\<close>

definition slow :: "json \<Rightarrow> Client \<Rightarrow> DeviceCode \<Rightarrow> (nat \<Rightarrow> http_answer \<times> duration) \<Rightarrow> nat \<Rightarrow> bool" where
  "slow js c dc ans k \<longleftrightarrow> (case PollOnce js c (Some dc) (fst (ans k)) of Inl err \<Rightarrow> errors_Is err ErrSlowDown | Inr _ \<Rightarrow> False)"

definition slow_count :: "json \<Rightarrow> Client \<Rightarrow> DeviceCode \<Rightarrow> (nat \<Rightarrow> http_answer \<times> duration) \<Rightarrow> nat \<Rightarrow> nat \<Rightarrow> int" where
  "slow_count js c dc ans n k = int (length (filter (slow js c dc ans) [n..<Suc (n + k)]))"

lemma slow_count_rec:
  "slow_count js c dc ans n 0 = (if slow js c dc ans n then 1 else 0)"
  "slow_count js c dc ans n (Suc k) = (if slow js c dc ans n then 1 else 0) + slow_count js c dc ans (Suc n) k"
  by (simp_all add: slow_count_def upt_conv_Cons del: upt_Suc)

definition waits_ok :: "json \<Rightarrow> Client \<Rightarrow> DeviceCode \<Rightarrow> (nat \<Rightarrow> http_answer \<times> duration) \<Rightarrow> nat \<Rightarrow> duration \<Rightarrow> duration \<Rightarrow> duration list \<Rightarrow> bool" where
  "waits_ok js c dc ans n elapsed interval waits \<longleftrightarrow>
     (\<forall>k < length waits. waits ! k = interval + slowDownBackoff * slow_count js c dc ans n k) \<and>
     elapsed + sum_list (butlast waits) < cg_pollTimeout c"

lemma waits_ok_Cons:
  assumes "waits_ok js c dc ans (Suc n) (t + i) i waits" and "elapsed \<le> t" and "t + i < cg_pollTimeout c" and "0 < i"
    and "i = interval + (if slow js c dc ans n then slowDownBackoff else 0)"
  shows "waits_ok js c dc ans n elapsed interval (i # waits)"
proof -
  have "(i # waits) ! k = interval + slowDownBackoff * slow_count js c dc ans n k" if "k < Suc (length waits)" for k
    using assms(1,5) that by (cases k) (simp_all add: waits_ok_def slow_count_rec distrib_left)
  then show ?thesis
    using assms(1-4) by (simp add: waits_ok_def)
qed

lemma poll_loop_waits:
  assumes "0 < interval" and "elapsed < cg_pollTimeout c"
  shows "waits_ok js c dc ans n elapsed interval (snd (poll_loop js c dc ans cancel n elapsed interval))"
  using assms
proof (induction js c dc ans cancel n elapsed interval rule: poll_loop.induct)
  case (1 js c dc ans cancel n elapsed interval)
  define t where "t = elapsed + max 0 (snd (ans n))"
  have t: "elapsed \<le> t"
    by (simp add: t_def)
  have none: "waits_ok js c dc ans n elapsed interval []"
    using 1(3) by (simp add: waits_ok_def)
  show ?case
  proof (cases "PollOnce js c (Some dc) (fst (ans n))")
    case (Inr code)
    then show ?thesis
      using none by (simp add: poll_loop.simps Let_def)
  next
    case (Inl err)
    define i where "i = (if errors_Is err ErrSlowDown then interval + slowDownBackoff else interval)"
    have i: "i = interval + (if slow js c dc ans n then slowDownBackoff else 0)" "0 < i" "max 1 i = i"
      using Inl 1(2) by (simp_all add: i_def slow_def slowDownBackoff_def)
    then have one: "waits_ok js c dc ans n elapsed interval [i]"
      using 1(3) by (simp add: waits_ok_def slow_count_rec)
    show ?thesis
    proof (cases "errors_Is err ErrAuthorizationPending \<and>
        ctx_ended cancel (min (t + i) (max t (cg_pollTimeout c))) = None \<and> t + i < cg_pollTimeout c")
      case True
      then have m: "min (t + i) (max t (cg_pollTimeout c)) = t + i"
        by (simp add: min_absorb1 le_max_iff_disj)
      have "ctx_ended cancel (t + i) = None"
        using True by (simp only: m)
      then have "waits_ok js c dc ans (Suc n) (t + i) i (snd (poll_loop js c dc ans cancel (Suc n) (t + i) i))"
        using 1(1) [OF t_def Inl _ i_def refl] True i(2,3) by simp
      then have "waits_ok js c dc ans n elapsed interval (i # snd (poll_loop js c dc ans cancel (Suc n) (t + i) i))"
        using True t i by (intro waits_ok_Cons) auto
      then show ?thesis
        using True Inl i(3) m by (subst poll_loop.simps) (auto simp: Let_def t_def [symmetric] i_def [symmetric] split: prod.splits)
    next
      case False
      then show ?thesis
        using Inl none one i(3)
        by (subst poll_loop.simps) (auto simp: Let_def t_def [symmetric] i_def [symmetric] split: option.splits if_splits)
    qed
  qed
qed

lemma sum_list_lower: "(\<And>x. x \<in> set xs \<Longrightarrow> b \<le> x) \<Longrightarrow> b * int (length xs) \<le> sum_list xs"
  by (induction xs) (fastforce simp: distrib_left)+

lemma poll_interval_pos: "0 < poll_interval c d"
  by (simp add: poll_interval_def DefaultPollInterval_def Let_def)

text \<open>The issuer's answer carries the code: it is a success whose body has both parts, and neither is empty.\<close>

definition grants :: "json \<Rightarrow> http_answer \<Rightarrow> AuthorizationCode \<Rightarrow> bool" where
  "grants js a code \<longleftrightarrow> (\<exists>status body. a = Answer status (Inr body) \<and> status div 100 = 2 \<and>
     js_code js body = Inr (ac_Code code, ac_CodeVerifier code) \<and> ac_Code code \<noteq> [] \<and> ac_CodeVerifier code \<noteq> [])"

lemma PollOnce_grants: "PollOnce js c dc a = Inr code \<Longrightarrow> grants js a code"
  by (auto simp: PollOnce_def grants_def readCappedBody_def split: option.splits if_splits http_answer.splits sum.splits prod.splits)

definition still_pending :: "json \<Rightarrow> Client \<Rightarrow> DeviceCode \<Rightarrow> http_answer \<Rightarrow> bool" where
  "still_pending js c dc a \<longleftrightarrow>
     (case PollOnce js c (Some dc) a of Inl err \<Rightarrow> errors_Is err ErrAuthorizationPending | Inr _ \<Rightarrow> False)"

lemma poll_loop_code:
  assumes "poll_loop js c dc ans cancel n elapsed interval = (r, waits)"
  shows "(\<forall>k < length waits. still_pending js c dc (fst (ans (n + k)))) \<and>
    (\<forall>code. r = Inr code \<longrightarrow> PollOnce js c (Some dc) (fst (ans (n + length waits))) = Inr code)"
  using assms
proof (induction js c dc ans cancel n elapsed interval arbitrary: r waits rule: poll_loop.induct)
  case (1 js c dc ans cancel n elapsed interval)
  show ?case
  proof (cases "PollOnce js c (Some dc) (fst (ans n))")
    case (Inr code)
    with 1(2) show ?thesis by (auto simp: poll_loop.simps Let_def)
  next
    case (Inl err)
    let ?t = "elapsed + max 0 (snd (ans n))" and ?i = "if errors_Is err ErrSlowDown then interval + slowDownBackoff else interval"
    let ?go = "errors_Is err ErrAuthorizationPending \<and>
      ctx_ended cancel (min (?t + max 1 ?i) (max ?t (cg_pollTimeout c))) = None \<and> \<not> cg_pollTimeout c \<le> ?t + max 1 ?i"
    show ?thesis
    proof (cases ?go)
      case False
      with 1(2) Inl show ?thesis
        by (subst (asm) poll_loop.simps) (auto simp: Let_def still_pending_def split: if_splits option.splits)
    next
      case True
      obtain r' ws where rest: "poll_loop js c dc ans cancel (Suc n) (?t + max 1 ?i) ?i = (r', ws)" by fastforce
      have w: "r = r'" "waits = ?i # ws"
        using 1(2) Inl True rest by (subst (asm) poll_loop.simps; simp add: Let_def)+
      have "(\<forall>k < length ws. still_pending js c dc (fst (ans (Suc n + k)))) \<and>
          (\<forall>code. r' = Inr code \<longrightarrow> PollOnce js c (Some dc) (fst (ans (Suc n + length ws))) = Inr code)"
        by (rule 1(1) [OF refl Inl _ refl refl _ _ rest]) (use True in simp_all)
      moreover have "still_pending js c dc (fst (ans n))" using Inl True by (simp add: still_pending_def)
      ultimately show ?thesis unfolding w by (auto simp: nth_Cons less_Suc_eq_0_disj)
    qed
  qed
qed


definition demo_json :: json where
  "demo_json = \<lparr>js_claims = (\<lambda>_. Inr \<lparr>rw_Email = [], rw_Exp = 0, rw_ProfileEmail = None, rw_Auth = Some ([], [], [], ''acct'', False)\<rparr>),
     js_userCode = (\<lambda>_. Inr (''dev'', ''ABCD'', [], 0)), js_code = (\<lambda>_. Inr (''code'', ''verifier'')),
     js_token = (\<lambda>_. Inr \<lparr>tr_IDToken = ''a.e30.c'', tr_AccessToken = ''at'', tr_RefreshToken = ''rt'', tr_ExpiresIn = 3600\<rparr>),
     js_error = (\<lambda>_. Inr (ErrorString ''slow_down'', [], [])), js_refreshError = (\<lambda>_. Inr ([], [], []))\<rparr>"

definition demo_code :: DeviceCode where
  "demo_code = \<lparr>dc_UserCode = ''ABCD'', dc_VerificationURL = [], dc_Interval = 5 * Second, dc_deviceAuthID = ''dev''\<rparr>"

definition demo_client :: Client where
  "demo_client = \<lparr>cg_issuer = ''https://a'', cg_clientID = ClientID, cg_pollTimeout = 15 * Minute, cg_pollOverride = 0\<rparr>"


text \<open>
  A refresh is given up for good only when the issuer has said so: a permanent failure means
  that the issuer answered 400 or 401 with a readable error body. A lost connection, an
  oversized or unreadable body, a server error and a malformed success are transient, so
  they never send the user back to the sign-in. A success always carries an access token
  and keeps the refresh token when the issuer sent no new one.
\<close>

theorem refresh_permanent_only_if_told:
  "case Refresh js c now token a of
     Inl (PlainError _) \<Rightarrow> (\<exists>e. a = BuildFailed e) \<or> TrimSpace token = []
   | Inl (Refreshing re) \<Rightarrow>
       re_kind re = RefreshErrorTransient \<or>
       (\<exists>body. a = Answer (re_status re) (Inr body) \<and> re_status re \<in> {400, 401} \<and> re_body re = body \<and>
          snd (classifyRefreshFailure js body) \<and> re_reason re = fst (classifyRefreshFailure js body))
   | Inr tokens \<Rightarrow> tk_AccessToken tokens \<noteq> [] \<and> tk_RefreshToken tokens \<noteq> [] \<and>
       (\<exists>status body. a = Answer status body \<and> status div 100 = 2)"
proof -
  have "token \<noteq> []" if "TrimSpace token \<noteq> []"
    using that by (auto simp: TrimSpace_def)
  then show ?thesis
    by (auto simp: Refresh_def newTransientRefresh_def newPermanentRefresh_def readCappedBody_def isPermanentBadRequest_def Let_def
          split: http_answer.splits sum.splits prod.splits if_splits)
qed

end
