(* ===== verification/Cred_Store.thy ===== *)
theory Cred_Store
  imports Go_Encoding Mysql_Store
begin

text \<open>
  \<open>internal/credproxy/encrypt.go\<close> and \<open>credential_store.go\<close>: the credentials of the groups,
  encrypted at rest. AES-GCM is the parameter \<open>aead\<close> with what the code relies on as
  \<open>aead_ok\<close>; the random source gives one answer per nonce; the table \<open>credentials\<close> is a
  map from its primary key. A statement takes the driver's answer as a \<open>fault\<close>.
\<close>

section \<open>Encryption\<close>

record aead =
  ae_NonceSize :: nat
  ae_Seal :: "string \<Rightarrow> string \<Rightarrow> string"
  ae_Open :: "string \<Rightarrow> string \<Rightarrow> string result"

text \<open>What \<open>crypto/cipher\<close> documents: opening what was sealed with the same nonce gives the text.\<close>

definition aead_ok :: "aead \<Rightarrow> bool" where
  "aead_ok ae \<longleftrightarrow> 0 < ae_NonceSize ae \<and> (\<forall>n p. length n = ae_NonceSize ae \<longrightarrow> ae_Open ae n (ae_Seal ae n p) = Inr p)"

text \<open>\<open>newCipher key\<close> is the answer of \<open>aes.NewCipher\<close>, with that of \<open>cipher.NewGCM\<close> on the block it returns.\<close>

definition NewEncryptor :: "(string \<Rightarrow> aead result result) \<Rightarrow> string \<Rightarrow> aead result" where
  "NewEncryptor newCipher keyHex =
     (case hex_decode keyHex of
        None \<Rightarrow> Inl (Errorf ''decode encryption key'')
      | Some key \<Rightarrow>
          if length key \<noteq> 32
          then Inl (Errorf (''encryption key must be 32 bytes (64 hex chars), got '' @ show_nat (length key) @ '' bytes''))
          else (case newCipher key of
                  Inl err \<Rightarrow> Inl (Wrapf ''create cipher'' err)
                | Inr (Inl err) \<Rightarrow> Inl (Wrapf ''create GCM'' err)
                | Inr (Inr gcm) \<Rightarrow> Inr gcm))"

definition Encrypt :: "aead \<Rightarrow> string result \<Rightarrow> string \<Rightarrow> string result" where
  "Encrypt ae rnd plaintext =
     (case rnd of
        Inl err \<Rightarrow> Inl (Wrapf ''generate nonce'' err)
      | Inr nonce \<Rightarrow> Inr (b64_encode (nonce @ ae_Seal ae nonce plaintext)))"

definition Decrypt :: "aead \<Rightarrow> string \<Rightarrow> string result" where
  "Decrypt ae ciphertext =
     (case b64_decode ciphertext of
        None \<Rightarrow> Inl (Errorf ''decode ciphertext'')
      | Some data \<Rightarrow>
          if length data < ae_NonceSize ae then Inl (Errorf ''ciphertext too short'')
          else (case ae_Open ae (take (ae_NonceSize ae) data) (drop (ae_NonceSize ae) data) of
                  Inl err \<Rightarrow> Inl (Wrapf ''decrypt'' err)
                | Inr plaintext \<Rightarrow> Inr plaintext))"

section \<open>Credentials\<close>

type_synonym AuthMode = string

definition cred_AuthModeAPIKey :: AuthMode where "cred_AuthModeAPIKey = ''api_key''"
definition cred_AuthModeChatGPT :: AuthMode where "cred_AuthModeChatGPT = ''chatgpt''"

definition AuthMode_Valid :: "AuthMode \<Rightarrow> bool" where
  "AuthMode_Valid m \<longleftrightarrow> m = cred_AuthModeAPIKey \<or> m = cred_AuthModeChatGPT"

lemma auth_modes [simp]:
  "cred_AuthModeAPIKey \<noteq> cred_AuthModeChatGPT" "cred_AuthModeChatGPT \<noteq> cred_AuthModeAPIKey"
  "cred_AuthModeAPIKey \<noteq> []" "cred_AuthModeChatGPT \<noteq> []" "[] \<noteq> cred_AuthModeAPIKey" "[] \<noteq> cred_AuthModeChatGPT"
  by (simp_all add: cred_AuthModeAPIKey_def cred_AuthModeChatGPT_def)

record ChatGPTTokens =
  AccessToken :: string
  RefreshToken :: string
  IDToken :: string
  AccountID :: string
  ExpiresAt :: time
  IsFedRAMP :: bool

record Credential =
  cr_GroupJID :: string
  cr_Provider :: string
  cr_AuthMode :: AuthMode
  cr_apiKey :: string
  cr_chatGPT :: "ChatGPTTokens option"

definition validateStructure :: "ChatGPTTokens \<Rightarrow> unit result" where
  "validateStructure t =
     (if AccessToken t = [] then Inl (Errorf ''chatgpt tokens: access token is required'')
      else if RefreshToken t = [] then Inl (Errorf ''chatgpt tokens: refresh token is required'')
      else if AccountID t = [] then Inl (Errorf ''chatgpt tokens: account id is required'')
      else if IsZero (ExpiresAt t) then Inl (Errorf ''chatgpt tokens: expires_at is required'')
      else Inr ())"

definition validateFresh :: "time \<Rightarrow> ChatGPTTokens \<Rightarrow> unit result" where
  "validateFresh now t =
     (if ExpiresAt t \<le> now
      then Inl (Errorf (''chatgpt tokens: expires_at '' @ FormatSeconds (ExpiresAt t) @ ''Z is not in the future''))
      else Inr ())"

definition tokens_validate :: "time \<Rightarrow> ChatGPTTokens \<Rightarrow> unit result" where
  "tokens_validate now t =
     (case validateStructure t of Inl err \<Rightarrow> Inl err | Inr _ \<Rightarrow> validateFresh now t)"

text \<open>The two validations differ in what they ask of the tokens.\<close>

definition validate_with :: "(ChatGPTTokens \<Rightarrow> unit result) \<Rightarrow> Credential \<Rightarrow> unit result" where
  "validate_with check c =
     (if cr_GroupJID c = [] then Inl (Errorf ''credential: group JID is required'')
      else if cr_Provider c = [] then Inl (Errorf ''credential: provider is required'')
      else if cr_AuthMode c = [] \<or> cr_AuthMode c = cred_AuthModeAPIKey then
        if cr_apiKey c = [] then Inl (Errorf ''credential: API key is required for api_key auth mode'')
        else if cr_chatGPT c \<noteq> None then Inl (Errorf ''credential: ChatGPT tokens must be nil for api_key auth mode'')
        else Inr ()
      else if cr_AuthMode c = cred_AuthModeChatGPT then
        (case cr_chatGPT c of
           None \<Rightarrow> Inl (Errorf ''credential: ChatGPT tokens are required for chatgpt auth mode'')
         | Some t \<Rightarrow>
             if cr_apiKey c \<noteq> [] then Inl (Errorf ''credential: APIKey must be empty for chatgpt auth mode'')
             else check t)
      else Inl (Errorf (''credential: unknown auth mode '' @ Quote (cr_AuthMode c))))"

definition Credential_Validate :: "time \<Rightarrow> Credential \<Rightarrow> unit result" where
  "Credential_Validate now = validate_with (tokens_validate now)"

definition validateForRead :: "Credential \<Rightarrow> unit result" where
  "validateForRead = validate_with validateStructure"

definition NewAPIKeyCredential :: "time \<Rightarrow> string \<Rightarrow> string \<Rightarrow> string \<Rightarrow> Credential result" where
  "NewAPIKeyCredential now groupJID prov apiKey =
     (let cred = \<lparr>cr_GroupJID = groupJID, cr_Provider = prov, cr_AuthMode = cred_AuthModeAPIKey, cr_apiKey = apiKey, cr_chatGPT = None\<rparr>
      in case Credential_Validate now cred of Inl err \<Rightarrow> Inl err | Inr _ \<Rightarrow> Inr cred)"

definition NewChatGPTCredential :: "time \<Rightarrow> string \<Rightarrow> string \<Rightarrow> ChatGPTTokens option \<Rightarrow> Credential result" where
  "NewChatGPTCredential now groupJID prov tokens =
     (let cred = \<lparr>cr_GroupJID = groupJID, cr_Provider = prov, cr_AuthMode = cred_AuthModeChatGPT, cr_apiKey = [], cr_chatGPT = tokens\<rparr>
      in case Credential_Validate now cred of Inl err \<Rightarrow> Inl err | Inr _ \<Rightarrow> Inr cred)"

section \<open>The table\<close>

record cred_row =
  k_provider :: string
  k_auth_mode :: string
  k_api_key :: "string option"
  k_access :: "string option"
  k_refresh :: "string option"
  k_id :: "string option"
  k_account :: "string option"
  k_expires :: "time option"
  k_fedramp :: bool

type_synonym cred_table = "string \<rightharpoonup> cred_row"

text \<open>The probe: \<open>None\<close> when the query fails, otherwise the location of the returned time.\<close>

definition probeTimezone :: "string option \<Rightarrow> unit result" where
  "probeTimezone probe =
     (case probe of
        None \<Rightarrow> Inr ()
      | Some loc \<Rightarrow>
          if loc \<noteq> ''UTC''
          then Inl (Errorf (''DB driver returned time in '' @ Quote loc @ '', want UTC (set loc=UTC&parseTime=true on DSN)''))
          else Inr ())"

definition NewCredentialStore :: "bool \<Rightarrow> aead option \<Rightarrow> string option \<Rightarrow> aead result" where
  "NewCredentialStore hasDB enc probe =
     (if \<not> hasDB then Inl (Errorf ''credential store: database connection is required'')
      else case enc of
        None \<Rightarrow> Inl (Errorf ''credential store: encryptor is required'')
      | Some ae \<Rightarrow>
          (case probeTimezone probe of
             Inl err \<Rightarrow> Inl (Wrapf ''credential store: timezone probe'' err)
           | Inr _ \<Rightarrow> Inr ae))"

definition decryptChatGPTTokens :: "aead \<Rightarrow> string \<Rightarrow> cred_row \<Rightarrow> ChatGPTTokens result" where
  "decryptChatGPTTokens ae groupJID r =
     (let pre = ''get credential for group '' @ Quote groupJID
      in case (k_access r, k_refresh r, k_account r, k_expires r) of
        (None, _, _, _) \<Rightarrow> Inl (Errorf (pre @ '': oauth access token is NULL''))
      | (Some _, None, _, _) \<Rightarrow> Inl (Errorf (pre @ '': oauth refresh token is NULL''))
      | (Some _, Some _, None, _) \<Rightarrow> Inl (Errorf (pre @ '': oauth account id is NULL''))
      | (Some accessEnc, Some refreshEnc, Some account, expires) \<Rightarrow>
          if account = [] then Inl (Errorf (pre @ '': oauth account id is NULL''))
          else (case expires of
            None \<Rightarrow> Inl (Errorf (pre @ '': oauth expires_at is NULL''))
          | Some expiresAt \<Rightarrow>
              (case Decrypt ae accessEnc of
                 Inl err \<Rightarrow> Inl (Wrapf (''decrypt access token for group '' @ Quote groupJID) err)
               | Inr access \<Rightarrow>
                   (case Decrypt ae refreshEnc of
                      Inl err \<Rightarrow> Inl (Wrapf (''decrypt refresh token for group '' @ Quote groupJID) err)
                    | Inr refresh \<Rightarrow>
                        (case (case k_id r of Some idEnc \<Rightarrow> if idEnc \<noteq> [] then Decrypt ae idEnc else Inr [] | None \<Rightarrow> Inr []) of
                           Inl err \<Rightarrow> Inl (Wrapf (''decrypt id token for group '' @ Quote groupJID) err)
                         | Inr idToken \<Rightarrow>
                             Inr \<lparr>AccessToken = access, RefreshToken = refresh, IDToken = idToken,
                                  AccountID = account, ExpiresAt = expiresAt, IsFedRAMP = k_fedramp r\<rparr>)))))"

definition read_row :: "aead \<Rightarrow> string \<Rightarrow> cred_row \<Rightarrow> Credential result" where
  "read_row ae groupJID r =
     (if k_auth_mode r = [] \<or> k_auth_mode r = cred_AuthModeAPIKey then
        (case k_api_key r of
           None \<Rightarrow> Inl (Errorf ''get credential: api_key auth mode but api_key_encrypted is NULL'')
         | Some apiKeyEnc \<Rightarrow>
             (case Decrypt ae apiKeyEnc of
                Inl err \<Rightarrow> Inl (Wrapf ''decrypt api key'' err)
              | Inr apiKey \<Rightarrow>
                  Inr \<lparr>cr_GroupJID = groupJID, cr_Provider = k_provider r, cr_AuthMode = cred_AuthModeAPIKey,
                       cr_apiKey = apiKey, cr_chatGPT = None\<rparr>))
      else if k_auth_mode r = cred_AuthModeChatGPT then
        (case decryptChatGPTTokens ae groupJID r of
           Inl err \<Rightarrow> Inl err
         | Inr tokens \<Rightarrow>
             Inr \<lparr>cr_GroupJID = groupJID, cr_Provider = k_provider r, cr_AuthMode = cred_AuthModeChatGPT,
                  cr_apiKey = [], cr_chatGPT = Some tokens\<rparr>)
      else Inl (Errorf (''get credential: unknown auth mode '' @ Quote (k_auth_mode r))))"

definition GetCredential :: "fault \<Rightarrow> aead \<Rightarrow> string \<Rightarrow> cred_table \<Rightarrow> Credential option result" where
  "GetCredential f ae groupJID tab =
     (case f of
        Some e \<Rightarrow> Inl (Wrapf ''get credential'' e)
      | None \<Rightarrow>
          (case tab groupJID of
             None \<Rightarrow> Inr None
           | Some r \<Rightarrow>
               (case read_row ae groupJID r of
                  Inl err \<Rightarrow> Inl err
                | Inr cred \<Rightarrow>
                    (case validateForRead cred of
                       Inl err \<Rightarrow> Inl (Wrapf ''get credential'' err)
                     | Inr _ \<Rightarrow> Inr (Some cred)))))"

text \<open>The three token columns, in the order the code encrypts them, with one nonce each.\<close>

definition encrypt_tokens :: "aead \<Rightarrow> (nat \<Rightarrow> string result) \<Rightarrow> ChatGPTTokens \<Rightarrow> (string \<times> string \<times> string option) result" where
  "encrypt_tokens ae rnd t =
     (case Encrypt ae (rnd 0) (AccessToken t) of
        Inl err \<Rightarrow> Inl (Wrapf ''encrypt access token'' err)
      | Inr accessEnc \<Rightarrow>
          (case Encrypt ae (rnd 1) (RefreshToken t) of
             Inl err \<Rightarrow> Inl (Wrapf ''encrypt refresh token'' err)
           | Inr refreshEnc \<Rightarrow>
               if IDToken t = [] then Inr (accessEnc, refreshEnc, None)
               else (case Encrypt ae (rnd 2) (IDToken t) of
                       Inl err \<Rightarrow> Inl (Wrapf ''encrypt id token'' err)
                     | Inr v \<Rightarrow> Inr (accessEnc, refreshEnc, Some v))))"

definition upsertChatGPT :: "fault \<Rightarrow> aead \<Rightarrow> (nat \<Rightarrow> string result) \<Rightarrow> string \<Rightarrow> string \<Rightarrow> ChatGPTTokens \<Rightarrow> cred_table \<Rightarrow> unit result \<times> cred_table" where
  "upsertChatGPT f ae rnd groupJID prov t tab =
     (case encrypt_tokens ae rnd t of
        Inl err \<Rightarrow> (Inl err, tab)
      | Inr (accessEnc, refreshEnc, idEnc) \<Rightarrow>
          (case f of
             Some e \<Rightarrow> (Inl (Wrapf ''upsert chatgpt credential'' e), tab)
           | None \<Rightarrow>
               (Inr (), tab(groupJID \<mapsto>
                  \<lparr>k_provider = prov, k_auth_mode = cred_AuthModeChatGPT, k_api_key = None, k_access = Some accessEnc,
                   k_refresh = Some refreshEnc, k_id = idEnc, k_account = Some (AccountID t),
                   k_expires = Some (db_time0 (ExpiresAt t)), k_fedramp = IsFedRAMP t\<rparr>))))"

definition UpsertCredential :: "fault \<Rightarrow> aead \<Rightarrow> (nat \<Rightarrow> string result) \<Rightarrow> time \<Rightarrow> Credential \<Rightarrow> cred_table \<Rightarrow> unit result \<times> cred_table" where
  "UpsertCredential f ae rnd now cred tab =
     (if cr_AuthMode cred = [] then (Inl (Errorf ''upsert credential: auth mode is required''), tab)
      else case Credential_Validate now cred of
        Inl err \<Rightarrow> (Inl err, tab)
      | Inr _ \<Rightarrow>
          if cr_AuthMode cred = cred_AuthModeAPIKey then
            (case Encrypt ae (rnd 0) (cr_apiKey cred) of
               Inl err \<Rightarrow> (Inl (Wrapf ''encrypt api key'' err), tab)
             | Inr apiKeyEnc \<Rightarrow>
                 (case f of
                    Some e \<Rightarrow> (Inl (Wrapf ''upsert credential'' e), tab)
                  | None \<Rightarrow>
                      (Inr (), tab(cr_GroupJID cred \<mapsto>
                         \<lparr>k_provider = cr_Provider cred, k_auth_mode = cred_AuthModeAPIKey, k_api_key = Some apiKeyEnc,
                          k_access = None, k_refresh = None, k_id = None, k_account = None, k_expires = None,
                          k_fedramp = False\<rparr>))))
          else if cr_AuthMode cred = cred_AuthModeChatGPT then
            upsertChatGPT f ae rnd (cr_GroupJID cred) (cr_Provider cred) (the (cr_chatGPT cred)) tab
          else (Inl (Errorf (''upsert credential: unknown auth mode '' @ Quote (cr_AuthMode cred))), tab))"

definition UpsertChatGPTCredential :: "fault \<Rightarrow> aead \<Rightarrow> (nat \<Rightarrow> string result) \<Rightarrow> time \<Rightarrow> string \<Rightarrow> string \<Rightarrow> ChatGPTTokens option \<Rightarrow> cred_table \<Rightarrow> unit result \<times> cred_table" where
  "UpsertChatGPTCredential f ae rnd now groupJID prov tokens tab =
     (case NewChatGPTCredential now groupJID prov tokens of
        Inl err \<Rightarrow> (Inl err, tab)
      | Inr _ \<Rightarrow> upsertChatGPT f ae rnd groupJID prov (the tokens) tab)"

definition ErrNoChatGPTCredential :: goerr where
  "ErrNoChatGPTCredential = Errorf ''no chatgpt credential for group''"

text \<open>
  The driver reports the rows an update changed; \<open>rowsErr\<close> is the error of that report. The
  random nonces make the new ciphertexts differ from the stored ones, so a row that
  matches is counted.
\<close>

definition RefreshChatGPTTokens :: "fault \<Rightarrow> fault \<Rightarrow> aead \<Rightarrow> (nat \<Rightarrow> string result) \<Rightarrow> time \<Rightarrow> string \<Rightarrow> ChatGPTTokens option \<Rightarrow> cred_table \<Rightarrow> unit result \<times> cred_table" where
  "RefreshChatGPTTokens f rowsErr ae rnd now groupJID tokens tab =
     (if groupJID = [] then (Inl (Errorf ''refresh chatgpt tokens: group JID is required''), tab)
      else case tokens of
        None \<Rightarrow> (Inl (Errorf ''refresh chatgpt tokens: tokens bundle is required''), tab)
      | Some t \<Rightarrow>
          (case tokens_validate now t of
             Inl err \<Rightarrow> (Inl err, tab)
           | Inr _ \<Rightarrow>
               (case encrypt_tokens ae rnd t of
                  Inl err \<Rightarrow> (Inl err, tab)
                | Inr (accessEnc, refreshEnc, idEnc) \<Rightarrow>
                    (case f of
                       Some e \<Rightarrow> (Inl (Wrapf ''refresh chatgpt tokens'' e), tab)
                     | None \<Rightarrow>
                         (let found = (case tab groupJID of Some r \<Rightarrow> if k_auth_mode r = cred_AuthModeChatGPT then Some r else None | None \<Rightarrow> None);
                              tab' = (case found of
                                None \<Rightarrow> tab
                              | Some r \<Rightarrow> tab(groupJID \<mapsto> r\<lparr>k_access := Some accessEnc, k_refresh := Some refreshEnc, k_id := idEnc,
                                  k_account := Some (AccountID t), k_expires := Some (db_time0 (ExpiresAt t)), k_fedramp := IsFedRAMP t\<rparr>))
                          in case rowsErr of
                               Some e \<Rightarrow> (Inl (Wrapf ''refresh chatgpt tokens: rows affected'' e), tab')
                             | None \<Rightarrow>
                                 if found = None
                                 then (Inl (Wrapf (''refresh chatgpt tokens for group '' @ Quote groupJID) ErrNoChatGPTCredential), tab')
                                 else (Inr (), tab'))))))"

definition DeleteCredential :: "fault \<Rightarrow> string \<Rightarrow> cred_table \<Rightarrow> unit result \<times> cred_table" where
  "DeleteCredential f groupJID tab =
     (case f of
        Some e \<Rightarrow> (Inl (Wrapf ''delete credential'' e), tab)
      | None \<Rightarrow> (Inr (), tab(groupJID := None)))"

section \<open>Properties\<close>

definition nonces_ok :: "aead \<Rightarrow> (nat \<Rightarrow> string result) \<Rightarrow> bool" where
  "nonces_ok ae rnd \<longleftrightarrow> (\<forall>i n. rnd i = Inr n \<longrightarrow> length n = ae_NonceSize ae)"

text \<open>What the table can hold of a credential: the expiry in whole seconds.\<close>

definition stored_tokens :: "ChatGPTTokens \<Rightarrow> ChatGPTTokens" where
  "stored_tokens t = t\<lparr>ExpiresAt := db_time0 (ExpiresAt t)\<rparr>"

definition stored_cred :: "Credential \<Rightarrow> Credential" where
  "stored_cred c = c\<lparr>cr_chatGPT := map_option stored_tokens (cr_chatGPT c)\<rparr>"

lemma Decrypt_Encrypt:
  assumes "aead_ok ae" and "nonces_ok ae rnd" and "Encrypt ae (rnd i) p = Inr c"
  shows "Decrypt ae c = Inr p \<and> c \<noteq> []"
proof -
  obtain n where n: "rnd i = Inr n" "c = b64_encode (n @ ae_Seal ae n p)"
    using assms(3) by (auto simp: Encrypt_def split: sum.splits)
  then have "length n = ae_NonceSize ae" "0 < ae_NonceSize ae" "ae_Open ae n (ae_Seal ae n p) = Inr p"
    using assms(1,2) by (auto simp: nonces_ok_def aead_ok_def)
  then show ?thesis
    using n by (auto simp: Decrypt_def)
qed

lemma encrypt_tokens_ok:
  assumes "aead_ok ae" and "nonces_ok ae rnd" and "encrypt_tokens ae rnd t = Inr (a, r, i)"
  shows "Decrypt ae a = Inr (AccessToken t) \<and> Decrypt ae r = Inr (RefreshToken t) \<and>
    (case i of None \<Rightarrow> IDToken t = [] | Some v \<Rightarrow> v \<noteq> [] \<and> Decrypt ae v = Inr (IDToken t))"
  using assms(3)
  by (auto simp: encrypt_tokens_def dest: Decrypt_Encrypt [OF assms(1,2)] split: sum.splits if_splits)

lemma db_time0_pos: "Second \<le> t \<Longrightarrow> Second \<le> db_time0 t"
  using zdiv_mono1 [of Second "t + 500000000" Second] by (simp add: db_time0_def)

lemma stored_tokens_readable:
  assumes "tokens_validate now t = Inr ()" and "Second \<le> now"
  shows "validateStructure (stored_tokens t) = Inr ()"
  using assms db_time0_pos [of "ExpiresAt t"]
  by (auto simp: tokens_validate_def validateStructure_def validateFresh_def stored_tokens_def IsZero_def split: if_splits sum.splits)

lemma read_tokens:
  assumes "aead_ok ae" and "nonces_ok ae rnd" and "encrypt_tokens ae rnd t = Inr (a, r, i)"
    and "tokens_validate now t = Inr ()" and "Second \<le> now"
    and "k_access row = Some a" and "k_refresh row = Some r" and "k_id row = i" and "k_account row = Some (AccountID t)"
    and "k_expires row = Some (db_time0 (ExpiresAt t))" and "k_fedramp row = IsFedRAMP t"
  shows "decryptChatGPTTokens ae j row = Inr (stored_tokens t)"
proof -
  have "AccountID t \<noteq> []"
    using assms(4) by (auto simp: tokens_validate_def validateStructure_def split: if_splits sum.splits)
  then show ?thesis
    using assms encrypt_tokens_ok [OF assms(1-3)]
    by (auto simp: decryptChatGPTTokens_def Let_def stored_tokens_def split: option.splits)
qed

lemma UpsertCredential_cases:
  assumes "UpsertCredential f ae rnd now cred tab = (Inr (), tab')"
  obtains (key) c where "cr_AuthMode cred = cred_AuthModeAPIKey" "cr_chatGPT cred = None" "cr_apiKey cred \<noteq> []"
      "cr_GroupJID cred \<noteq> []" "cr_Provider cred \<noteq> []" "Encrypt ae (rnd 0) (cr_apiKey cred) = Inr c"
      "tab' = tab(cr_GroupJID cred \<mapsto> \<lparr>k_provider = cr_Provider cred, k_auth_mode = cred_AuthModeAPIKey, k_api_key = Some c,
        k_access = None, k_refresh = None, k_id = None, k_account = None, k_expires = None, k_fedramp = False\<rparr>)"
  | (tokens) t a r i where "cr_AuthMode cred = cred_AuthModeChatGPT" "cr_chatGPT cred = Some t" "cr_apiKey cred = []"
      "cr_GroupJID cred \<noteq> []" "cr_Provider cred \<noteq> []" "tokens_validate now t = Inr ()"
      "encrypt_tokens ae rnd t = Inr (a, r, i)"
      "tab' = tab(cr_GroupJID cred \<mapsto> \<lparr>k_provider = cr_Provider cred, k_auth_mode = cred_AuthModeChatGPT, k_api_key = None,
        k_access = Some a, k_refresh = Some r, k_id = i, k_account = Some (AccountID t),
        k_expires = Some (db_time0 (ExpiresAt t)), k_fedramp = IsFedRAMP t\<rparr>)"
proof -
  have "cr_AuthMode cred \<noteq> []" and v: "Credential_Validate now cred = Inr ()"
    using assms by (auto simp: UpsertCredential_def split: if_splits sum.splits)
  then have "cr_AuthMode cred = cred_AuthModeAPIKey \<or> cr_AuthMode cred = cred_AuthModeChatGPT"
    by (auto simp: Credential_Validate_def validate_with_def split: if_splits)
  then show thesis
  proof
    assume m: "cr_AuthMode cred = cred_AuthModeAPIKey"
    show thesis
      using v m assms
      by (auto simp: Credential_Validate_def validate_with_def UpsertCredential_def intro: key
            split: if_splits sum.splits option.splits)
  next
    assume m: "cr_AuthMode cred = cred_AuthModeChatGPT"
    show thesis
      using v m assms
      by (auto simp: Credential_Validate_def validate_with_def UpsertCredential_def upsertChatGPT_def intro: tokens
            split: if_splits sum.splits option.splits)
  qed
qed

lemma Upsert_Get:
  assumes "aead_ok ae" and "nonces_ok ae rnd" and "Second \<le> now"
    and "UpsertCredential f ae rnd now cred tab = (Inr (), tab')"
  shows "GetCredential None ae (cr_GroupJID cred) tab' = Inr (Some (stored_cred cred))"
    and "j \<noteq> cr_GroupJID cred \<Longrightarrow> tab' j = tab j"
proof -
  show "GetCredential None ae (cr_GroupJID cred) tab' = Inr (Some (stored_cred cred))"
    using assms(4)
  proof (cases rule: UpsertCredential_cases)
    case (key c)
    then show ?thesis
      using Decrypt_Encrypt [OF assms(1,2) key(6)]
      by (auto simp: GetCredential_def read_row_def validateForRead_def validate_with_def stored_cred_def)
  next
    case (tokens t a r i)
    then show ?thesis
      using read_tokens [OF assms(1,2) tokens(7,6) assms(3)] stored_tokens_readable [OF tokens(6) assms(3)]
      by (auto simp: GetCredential_def read_row_def validateForRead_def validate_with_def stored_cred_def)
  qed
  show "tab' j = tab j" if "j \<noteq> cr_GroupJID cred"
    using assms(4) by (cases rule: UpsertCredential_cases) (use that in auto)
qed

lemma Upsert_refused: "UpsertCredential f ae rnd now cred tab = (Inl e, tab') \<Longrightarrow> tab' = tab"
  by (auto simp: UpsertCredential_def upsertChatGPT_def split: if_splits sum.splits option.splits prod.splits)

text \<open>
  C18: What is stored for a group is what is read back. Whatever the group had before, a
  credential that was accepted is returned by the next read of this group with its key or
  tokens unchanged (the expiry in the table's whole seconds) and nothing left of another
  mode, and no other group's row changes. A credential that was refused changes no row.
\<close>

theorem credential_roundtrip:
  assumes "aead_ok ae" and "nonces_ok ae rnd" and "Second \<le> now"
  shows "case UpsertCredential f ae rnd now cred tab of
      (Inl _, tab') \<Rightarrow> tab' = tab
    | (Inr _, tab') \<Rightarrow>
        GetCredential None ae (cr_GroupJID cred) tab' = Inr (Some (stored_cred cred)) \<and>
        (\<forall>j. j \<noteq> cr_GroupJID cred \<longrightarrow> tab' j = tab j)"
  using Upsert_Get [OF assms] Upsert_refused by (auto split: prod.splits sum.splits)

text \<open>A cipher that hides nothing but satisfies the law, for concrete runs.\<close>

definition demo_aead :: aead where
  "demo_aead = \<lparr>ae_NonceSize = 2, ae_Seal = (\<lambda>n p. rev p), ae_Open = (\<lambda>n c. Inr (rev c))\<rparr>"

lemma demo_aead_ok: "aead_ok demo_aead" "nonces_ok demo_aead (\<lambda>_. Inr ''nn'')"
  by (simp_all add: aead_ok_def nonces_ok_def demo_aead_def)

definition demo_cred :: Credential where
  "demo_cred = \<lparr>cr_GroupJID = ''g'', cr_Provider = ''openai'', cr_AuthMode = cred_AuthModeAPIKey, cr_apiKey = ''sk-1'', cr_chatGPT = None\<rparr>"

theorem credential_roundtrip_witness:
  "GetCredential None demo_aead ''g''
     (snd (UpsertCredential None demo_aead (\<lambda>_. Inr ''nn'') Second demo_cred Map.empty)) = Inr (Some demo_cred)"
proof -
  have "fst (UpsertCredential None demo_aead (\<lambda>_. Inr ''nn'') Second demo_cred Map.empty) = Inr ()"
    by (simp add: UpsertCredential_def Credential_Validate_def validate_with_def demo_cred_def Encrypt_def)
  moreover have "stored_cred demo_cred = demo_cred" "cr_GroupJID demo_cred = ''g''"
    by (simp_all add: stored_cred_def demo_cred_def)
  ultimately show ?thesis
    using credential_roundtrip [OF demo_aead_ok order_refl, where f = None and cred = demo_cred and tab = Map.empty]
    by (auto split: prod.splits sum.splits)
qed

text \<open>
  A refresh of tokens never invents and never converts a credential: it succeeds only for a
  group that signed in with ChatGPT, then gives this group the new tokens and leaves its
  provider and mode; for a group without such a credential it reports
  \<open>ErrNoChatGPTCredential\<close> and changes nothing. No other group's row ever changes.
\<close>

theorem refresh_contract:
  assumes "aead_ok ae" and "nonces_ok ae rnd" and "Second \<le> now" and "groupJID \<noteq> []"
    and "tokens_validate now t = Inr ()" and "\<And>i. is_ok (rnd i)"
  shows "case RefreshChatGPTTokens None None ae rnd now groupJID (Some t) tab of (res, tab') \<Rightarrow>
    (\<forall>j. j \<noteq> groupJID \<longrightarrow> tab' j = tab j) \<and>
    (case tab groupJID of
       None \<Rightarrow> tab' = tab \<and> (\<exists>e. res = Inl e \<and> errors_Is e ErrNoChatGPTCredential)
     | Some row \<Rightarrow>
         if k_auth_mode row \<noteq> cred_AuthModeChatGPT then tab' = tab \<and> (\<exists>e. res = Inl e \<and> errors_Is e ErrNoChatGPTCredential)
         else res = Inr () \<and> (k_provider row \<noteq> [] \<longrightarrow> GetCredential None ae groupJID tab' =
           Inr (Some \<lparr>cr_GroupJID = groupJID, cr_Provider = k_provider row, cr_AuthMode = cred_AuthModeChatGPT,
                      cr_apiKey = [], cr_chatGPT = Some (stored_tokens t)\<rparr>)))"
proof -
  have "\<exists>c. Encrypt ae (rnd k) p = Inr c" for k p
    using assms(6) [of k] by (auto simp: Encrypt_def is_ok_iff)
  then obtain ca cr ci where "Encrypt ae (rnd 0) (AccessToken t) = Inr ca"
    "Encrypt ae (rnd 1) (RefreshToken t) = Inr cr" "Encrypt ae (rnd 2) (IDToken t) = Inr ci"
    by metis
  then obtain a r i where enc: "encrypt_tokens ae rnd t = Inr (a, r, i)"
    by (cases "IDToken t = []") (simp_all add: encrypt_tokens_def)
  note good = read_tokens [OF assms(1,2) enc assms(5,3)] stored_tokens_readable [OF assms(5,3)]
  show ?thesis
    using assms(4,5) enc
    by (auto simp: RefreshChatGPTTokens_def Let_def GetCredential_def read_row_def good validateForRead_def validate_with_def
          split: option.splits)
qed

definition demo_tokens :: ChatGPTTokens where
  "demo_tokens = \<lparr>AccessToken = ''at'', RefreshToken = ''rt'', IDToken = [], AccountID = ''acct'',
     ExpiresAt = 90 * Second, IsFedRAMP = False\<rparr>"

lemma demo_tokens_valid: "tokens_validate Second demo_tokens = Inr ()"
  by (simp add: tokens_validate_def validateStructure_def validateFresh_def demo_tokens_def IsZero_def)

theorem refresh_contract_witness:
  "snd (RefreshChatGPTTokens None None demo_aead (\<lambda>_. Inr ''nn'') Second ''g'' (Some demo_tokens)
     (snd (UpsertCredential None demo_aead (\<lambda>_. Inr ''nn'') Second demo_cred Map.empty))) =
   snd (UpsertCredential None demo_aead (\<lambda>_. Inr ''nn'') Second demo_cred Map.empty)"
proof -
  let ?tab = "snd (UpsertCredential None demo_aead (\<lambda>_. Inr ''nn'') Second demo_cred Map.empty)"
  have "\<exists>row. ?tab ''g'' = Some row \<and> k_auth_mode row \<noteq> cred_AuthModeChatGPT"
    by (simp add: UpsertCredential_def Credential_Validate_def validate_with_def demo_cred_def Encrypt_def)
  then show ?thesis
    using refresh_contract [OF demo_aead_ok order_refl, of "''g''" demo_tokens ?tab] demo_tokens_valid
    by (auto split: prod.splits)
qed

end
