(* ===== verification/Api_Auth.thy ===== *)
theory Api_Auth
  imports Chatgpt_Auth Cred_Store Provider_Registry
begin

text \<open>
  \<open>internal/server/api_auth.go\<close>: the RPC that signs a group in with ChatGPT. It streams events to
  the client: the code to enter, a tick for every wait, and one last event. The answers of
  the issuer, the outcome of every send and of the store are parameters; the elapsed time a
  tick reports is left out.
\<close>

datatype auth_code = INVALID_ARGUMENT | INTERNAL | ACCESS_DENIED | TIMEOUT | CANCELLED

datatype auth_event =
    EvDeviceCode string string int
  | EvTick
  | EvSuccess string time
  | EvError auth_code string

definition errCodeFor :: "goerr \<Rightarrow> auth_code" where
  "errCodeFor err =
     (if errors_Is err ErrAccessDenied then ACCESS_DENIED
      else if errors_Is err ErrDeviceAuthTimeout \<or> errors_Is err ContextDeadline then TIMEOUT
      else if errors_Is err ContextCanceled then CANCELLED
      else INTERNAL)"

record auth_env =
  da_json :: json
  da_client :: Client
  da_registry :: ProviderRegistry
  da_code :: http_answer
  da_polls :: "nat \<Rightarrow> http_answer \<times> duration"
  da_cancel :: "(duration \<times> goerr) option"
  da_exchange :: http_answer
  da_now :: time
  da_send :: "nat \<Rightarrow> fault"
  da_aead :: aead
  da_rnd :: "nat \<Rightarrow> string result"
  da_store :: fault

text \<open>The events sent so far, the last of them possibly in vain, the RPC's answer and the table.\<close>

record auth_run =
  ar_events :: "auth_event list"
  ar_result :: "unit result"
  ar_tab :: cred_table

text \<open>The last send of the RPC: an error of the stream becomes the RPC's error.\<close>

definition finish :: "auth_env \<Rightarrow> string \<Rightarrow> auth_event list \<Rightarrow> auth_event \<Rightarrow> cred_table \<Rightarrow> auth_run" where
  "finish e what evs ev tab =
     \<lparr>ar_events = evs @ [ev],
      ar_result = (case da_send e (length evs) of Some err \<Rightarrow> Inl (Wrapf what err) | None \<Rightarrow> Inr ()),
      ar_tab = tab\<rparr>"

definition sendError :: "auth_env \<Rightarrow> auth_event list \<Rightarrow> auth_code \<Rightarrow> string \<Rightarrow> cred_table \<Rightarrow> auth_run" where
  "sendError e evs code msg tab = finish e ''send error event'' evs (EvError code msg) tab"

definition stored_bundle :: "Tokens \<Rightarrow> ChatGPTTokens" where
  "stored_bundle t = \<lparr>AccessToken = tk_AccessToken t, RefreshToken = tk_RefreshToken t, IDToken = tk_IDToken t,
     AccountID = ic_AccountID (tk_IDClaims t), ExpiresAt = tk_ExpiresAt t, IsFedRAMP = ic_IsFedRAMP (tk_IDClaims t)\<rparr>"

definition after_code :: "auth_env \<Rightarrow> string \<Rightarrow> string \<Rightarrow> DeviceCode \<Rightarrow> auth_event list \<Rightarrow> cred_table \<Rightarrow> auth_run" where
  "after_code e groupJID prov dc evs tab =
     (case PollUntilCode (da_json e) (da_client e) (Some dc) (da_polls e) (da_cancel e) of
        (Inl err, waits) \<Rightarrow>
          sendError e (evs @ replicate (length waits) EvTick) (errCodeFor err) (''poll: '' @ error_text err) tab
      | (Inr authCode, waits) \<Rightarrow>
          (let evs = evs @ replicate (length waits) EvTick
           in case ExchangeCode (da_json e) (da_client e) (da_now e) (Some authCode) (da_exchange e) of
                Inl err \<Rightarrow> sendError e evs (errCodeFor err) (''exchange: '' @ error_text err) tab
              | Inr tokens \<Rightarrow>
                  (case UpsertChatGPTCredential (da_store e) (da_aead e) (da_rnd e) (da_now e) groupJID prov
                          (Some (stored_bundle tokens)) tab of
                     (Inl err, tab') \<Rightarrow> sendError e evs INTERNAL ''failed to persist credentials'' tab'
                   | (Inr _, tab') \<Rightarrow>
                       finish e ''send success event'' evs
                         (EvSuccess (ic_AccountID (tk_IDClaims tokens)) (tk_ExpiresAt tokens)) tab')))"

definition StartChatGPTDeviceAuth :: "auth_env \<Rightarrow> string \<Rightarrow> string \<Rightarrow> cred_table \<Rightarrow> auth_run" where
  "StartChatGPTDeviceAuth e groupJID prov tab =
     (if groupJID = [] then sendError e [] INVALID_ARGUMENT ''group_jid is required'' tab
      else case Provider_Get (da_registry e) prov of
        None \<Rightarrow> sendError e [] INVALID_ARGUMENT (''unknown provider '' @ Quote prov) tab
      | Some p \<Rightarrow>
          if pi_AuthMode p \<noteq> AuthModeChatGPT
          then sendError e [] INVALID_ARGUMENT (''provider '' @ Quote (pi_ID p) @ '' does not use chatgpt auth'') tab
          else (case RequestDeviceCode (da_json e) (da_client e) (da_code e) of
            Inl err \<Rightarrow> sendError e [] (errCodeFor err) (''request device code: '' @ error_text err) tab
          | Inr dc \<Rightarrow>
              (let ev = EvDeviceCode (dc_UserCode dc) (dc_VerificationURL dc) (dc_Interval dc div Second)
               in case da_send e 0 of
                    Some err \<Rightarrow> \<lparr>ar_events = [ev], ar_result = Inl (Wrapf ''send device_code event'' err), ar_tab = tab\<rparr>
                  | None \<Rightarrow> after_code e groupJID prov dc [ev] tab)))"

section \<open>Properties\<close>

lemma UpsertChatGPTCredential_conv:
  "UpsertChatGPTCredential f ae rnd now g prov (Some t) tab =
     (case Credential_Validate now \<lparr>cr_GroupJID = g, cr_Provider = prov, cr_AuthMode = cred_AuthModeChatGPT, cr_apiKey = [], cr_chatGPT = Some t\<rparr> of
        Inl err \<Rightarrow> (Inl err, tab)
      | Inr _ \<Rightarrow> UpsertCredential f ae rnd now \<lparr>cr_GroupJID = g, cr_Provider = prov, cr_AuthMode = cred_AuthModeChatGPT, cr_apiKey = [], cr_chatGPT = Some t\<rparr> tab)"
  by (simp add: UpsertChatGPTCredential_def NewChatGPTCredential_def Let_def UpsertCredential_def split: sum.splits)

lemma UpsertChatGPT_outcome:
  assumes "aead_ok ae" and "nonces_ok ae rnd" and "Second \<le> now"
    and "UpsertChatGPTCredential f ae rnd now g prov (Some t) tab = (r, tab')"
  shows "case r of
      Inl _ \<Rightarrow> tab' = tab
    | Inr _ \<Rightarrow> GetCredential None ae g tab' = Inr (Some \<lparr>cr_GroupJID = g, cr_Provider = prov, cr_AuthMode = cred_AuthModeChatGPT,
          cr_apiKey = [], cr_chatGPT = Some (stored_tokens t)\<rparr>) \<and> (\<forall>j. j \<noteq> g \<longrightarrow> tab' j = tab j)"
proof -
  let ?c = "\<lparr>cr_GroupJID = g, cr_Provider = prov, cr_AuthMode = cred_AuthModeChatGPT, cr_apiKey = [], cr_chatGPT = Some t\<rparr>"
  consider "r = Inr ()" "UpsertCredential f ae rnd now ?c tab = (Inr (), tab')"
    | e where "r = Inl e" "tab' = tab \<or> UpsertCredential f ae rnd now ?c tab = (Inl e, tab')"
    using assms(4) by (cases r) (auto simp: UpsertChatGPTCredential_conv split: sum.splits)
  then show ?thesis
  proof cases
    case 1
    then show ?thesis
      using Upsert_Get [OF assms(1-3) 1(2)] by (simp add: stored_cred_def)
  next
    case 2
    then show ?thesis
      using Upsert_refused by auto
  qed
qed

text \<open>
  C31: The sign-in tells the truth. It changes at most the row of the group it was asked for. When
  the RPC ends without a stream error, its last event is either a success, and then the
  group's credential can be read back with the account the event names, or an error, and
  then the table is as it was.
\<close>

theorem device_auth_truthful:
  assumes "aead_ok (da_aead e)" and "nonces_ok (da_aead e) (da_rnd e)" and "Second \<le> da_now e"
    and "r = StartChatGPTDeviceAuth e groupJID prov tab"
  shows "(\<forall>j. j \<noteq> groupJID \<longrightarrow> ar_tab r j = tab j) \<and>
    (ar_result r = Inr () \<longrightarrow>
      (case last (ar_events r) of
         EvSuccess account expires \<Rightarrow>
           (\<exists>t. GetCredential None (da_aead e) groupJID (ar_tab r) = Inr (Some \<lparr>cr_GroupJID = groupJID, cr_Provider = prov,
              cr_AuthMode = cred_AuthModeChatGPT, cr_apiKey = [], cr_chatGPT = Some t\<rparr>) \<and> AccountID t = account)
       | EvError _ _ \<Rightarrow> ar_tab r = tab
       | _ \<Rightarrow> False))"
proof -
  note up = UpsertChatGPT_outcome [OF assms(1-3)]
  have after: "(\<forall>j. j \<noteq> groupJID \<longrightarrow> ar_tab q j = tab j) \<and>
    (case last (ar_events q) of
         EvSuccess account expires \<Rightarrow>
           (\<exists>t. GetCredential None (da_aead e) groupJID (ar_tab q) = Inr (Some \<lparr>cr_GroupJID = groupJID, cr_Provider = prov,
              cr_AuthMode = cred_AuthModeChatGPT, cr_apiKey = [], cr_chatGPT = Some t\<rparr>) \<and> AccountID t = account)
       | EvError _ _ \<Rightarrow> ar_tab q = tab
       | _ \<Rightarrow> False)" if "q = after_code e groupJID prov dc evs tab" for q dc evs
    using that
    by (auto simp: after_code_def sendError_def finish_def Let_def stored_tokens_def stored_bundle_def split: prod.splits sum.splits
          dest!: up)
  show ?thesis
    using assms(4) after
    by (auto simp: StartChatGPTDeviceAuth_def sendError_def finish_def Let_def split: option.splits sum.splits if_splits)
qed

definition demo_auth_env :: auth_env where
  "demo_auth_env = \<lparr>da_json = demo_json, da_client = demo_client, da_registry = NewRegistry, da_code = Answer 200 (Inr []),
     da_polls = (\<lambda>_. (Answer 200 (Inr []), 0)), da_cancel = None, da_exchange = Answer 200 (Inr []), da_now = Second,
     da_send = (\<lambda>_. None), da_aead = demo_aead, da_rnd = (\<lambda>_. Inr ''nn''), da_store = None\<rparr>"

lemma demo_claims: "decodeJWTSegment ''e30'' = Some ''{}''" "Split ''a.e30.c'' (CHR ''.'') = [''a'', ''e30'', ''c'']"
  by code_simp+

lemma demo_exchange:
  "ExchangeCode demo_json demo_client Second (Some \<lparr>ac_Code = ''code'', ac_CodeVerifier = ''verifier''\<rparr>) (Answer 200 (Inr [])) =
     Inr \<lparr>tk_AccessToken = ''at'', tk_RefreshToken = ''rt'', tk_IDToken = ''a.e30.c'',
       tk_IDClaims = \<lparr>ic_Email = [], ic_AccountID = ''acct'', ic_UserID = [], ic_PlanType = [], ic_IsFedRAMP = False, ic_ExpiresAt = 0\<rparr>,
       tk_ExpiresAt = 3601 * Second\<rparr>"
  by (simp add: ExchangeCode_def readCappedBody_def maxResponseBodySize_def demo_json_def tokensFromResponse_def ParseIDToken_def
        demo_claims claims_of_def IsZero_def del: Split.simps)

lemma demo_loop:
  "poll_loop demo_json demo_client dc (\<lambda>_. (Answer 200 (Inr []), 0)) None 0 0 i =
     (if dc_deviceAuthID dc = [] \<or> dc_UserCode dc = [] then (Inl (Errorf ''chatgpt: device code is empty''), [])
      else (Inr \<lparr>ac_Code = ''code'', ac_CodeVerifier = ''verifier''\<rparr>, []))"
  by (subst poll_loop.simps)
     (simp add: PollOnce_def readCappedBody_def maxResponseBodySize_def demo_json_def ctx_ended_def demo_client_def
        ErrAuthorizationPending_def Let_def)

lemma demo_device_auth:
  "ar_result (StartChatGPTDeviceAuth demo_auth_env ''g'' ProviderOpenAI Map.empty) = Inr () \<and>
   last (ar_events (StartChatGPTDeviceAuth demo_auth_env ''g'' ProviderOpenAI Map.empty)) = EvSuccess ''acct'' (3601 * Second)"
proof -
  have code: "RequestDeviceCode demo_json demo_client (Answer 200 (Inr [])) =
      Inr \<lparr>dc_UserCode = ''ABCD'', dc_VerificationURL = VerificationURL demo_client, dc_Interval = DefaultPollInterval, dc_deviceAuthID = ''dev''\<rparr>"
    by (simp add: RequestDeviceCode_def readCappedBody_def maxResponseBodySize_def demo_json_def)
  have prov: "\<exists>p. Provider_Get NewRegistry ProviderOpenAI = Some p \<and> pi_AuthMode p = AuthModeChatGPT"
    by (simp add: Provider_Get_def NewRegistry_def ProviderOpenAI_def ProviderAnthropic_def)
  have up: "fst (UpsertChatGPTCredential None demo_aead (\<lambda>_. Inr ''nn'') Second ''g'' ProviderOpenAI (Some (stored_bundle
      \<lparr>tk_AccessToken = ''at'', tk_RefreshToken = ''rt'', tk_IDToken = ''a.e30.c'',
       tk_IDClaims = \<lparr>ic_Email = [], ic_AccountID = ''acct'', ic_UserID = [], ic_PlanType = [], ic_IsFedRAMP = False, ic_ExpiresAt = 0\<rparr>,
       tk_ExpiresAt = 3601 * Second\<rparr>)) Map.empty) = Inr ()"
    by (simp add: UpsertChatGPTCredential_def NewChatGPTCredential_def Credential_Validate_def validate_with_def stored_bundle_def
          tokens_validate_def validateStructure_def validateFresh_def upsertChatGPT_def encrypt_tokens_def Encrypt_def ProviderOpenAI_def IsZero_def)
  show ?thesis
    using prov up
    by (auto simp: StartChatGPTDeviceAuth_def demo_auth_env_def code PollUntilCode_def demo_loop demo_exchange after_code_def finish_def Let_def
          split: prod.splits sum.splits)
qed

theorem device_auth_truthful_witness:
  "\<exists>t. GetCredential None demo_aead ''g'' (ar_tab (StartChatGPTDeviceAuth demo_auth_env ''g'' ProviderOpenAI Map.empty)) =
     Inr (Some \<lparr>cr_GroupJID = ''g'', cr_Provider = ProviderOpenAI, cr_AuthMode = cred_AuthModeChatGPT, cr_apiKey = [], cr_chatGPT = Some t\<rparr>) \<and>
     AccountID t = ''acct''"
proof -
  have "aead_ok (da_aead demo_auth_env)" "nonces_ok (da_aead demo_auth_env) (da_rnd demo_auth_env)" "Second \<le> da_now demo_auth_env"
    using demo_aead_ok by (simp_all add: demo_auth_env_def)
  from device_auth_truthful [OF this refl, of "''g''" ProviderOpenAI Map.empty] demo_device_auth
  show ?thesis
    by (simp add: demo_auth_env_def)
qed

end
