(* ===== verification/Go_Chan.thy ===== *)
theory Go_Chan
  imports Prelude
begin

text \<open>
  Buffered Go channels as the hubs of the server use them. A heap maps a channel to its
  buffer and whether it is closed. Closing a closed channel and sending on a closed
  channel panic, which the heap records. The locale \<open>panic_free\<close> is the contract of a
  component whose steps keep an invariant under which no panic has happened.
\<close>

record 'a gochan =
  gc_buf :: "'a list"
  gc_closed :: bool

record 'a heap =
  hp_chans :: "nat \<Rightarrow> 'a gochan"
  hp_next :: nat
  hp_panic :: bool

definition empty_heap :: "'a heap" where
  "empty_heap = \<lparr>hp_chans = (\<lambda>_. \<lparr>gc_buf = [], gc_closed = False\<rparr>), hp_next = 0, hp_panic = False\<rparr>"

definition make_chan :: "'a heap \<Rightarrow> nat \<times> 'a heap" where
  "make_chan h = (hp_next h, h\<lparr>hp_chans := (hp_chans h)(hp_next h := \<lparr>gc_buf = [], gc_closed = False\<rparr>), hp_next := Suc (hp_next h)\<rparr>)"

text \<open>\<open>select\<close> with a send and a default, on a channel of the given capacity.\<close>

definition try_send :: "nat \<Rightarrow> 'a \<Rightarrow> nat \<Rightarrow> 'a heap \<Rightarrow> 'a heap" where
  "try_send cap v ch h =
     (let c = hp_chans h ch
      in if gc_closed c then h\<lparr>hp_panic := True\<rparr>
         else if length (gc_buf c) < cap then h\<lparr>hp_chans := (hp_chans h)(ch := c\<lparr>gc_buf := gc_buf c @ [v]\<rparr>)\<rparr>
         else h)"

definition close_chan :: "nat \<Rightarrow> 'a heap \<Rightarrow> 'a heap" where
  "close_chan ch h =
     (if gc_closed (hp_chans h ch) then h\<lparr>hp_panic := True\<rparr>
      else h\<lparr>hp_chans := (hp_chans h)(ch := (hp_chans h ch)\<lparr>gc_closed := True\<rparr>)\<rparr>)"

text \<open>A receive by the reader: the next value, or nothing when the buffer is empty.\<close>

definition receive :: "nat \<Rightarrow> 'a heap \<Rightarrow> 'a option \<times> 'a heap" where
  "receive ch h =
     (case gc_buf (hp_chans h ch) of
        [] \<Rightarrow> (None, h)
      | v # vs \<Rightarrow> (Some v, h\<lparr>hp_chans := (hp_chans h)(ch := (hp_chans h ch)\<lparr>gc_buf := vs\<rparr>)\<rparr>))"

section \<open>Sets of open channels\<close>

text \<open>The channels of the list are allocated, open and different; nothing has panicked.\<close>

definition open_chans :: "nat list \<Rightarrow> 'a heap \<Rightarrow> bool" where
  "open_chans chs h \<longleftrightarrow> distinct chs \<and> (\<forall>ch \<in> set chs. ch < hp_next h \<and> \<not> gc_closed (hp_chans h ch)) \<and> \<not> hp_panic h"

lemma open_chans_empty [simp]: "open_chans [] empty_heap"
  by (simp add: open_chans_def empty_heap_def)

lemma open_chans_make: "open_chans chs h \<Longrightarrow> make_chan h = (ch, h') \<Longrightarrow> open_chans (ch # chs) h'"
  by (auto simp: open_chans_def make_chan_def)

lemma open_chans_mset: "mset chs' = mset chs \<Longrightarrow> open_chans chs' h \<longleftrightarrow> open_chans chs h"
  unfolding open_chans_def using mset_eq_setD mset_eq_imp_distinct_iff by blast

lemma try_send_open: "open_chans chs h \<Longrightarrow> ch \<in> set chs \<Longrightarrow> open_chans chs (try_send cap v ch h)"
  by (auto simp: open_chans_def try_send_def Let_def)

lemma close_chan_open:
  "open_chans chs h \<Longrightarrow> ch \<in> set chs \<Longrightarrow> open_chans (remove1 ch chs) (close_chan ch h)"
  by (auto simp: open_chans_def close_chan_def)

lemma receive_open: "open_chans chs h \<Longrightarrow> open_chans chs (snd (receive ch h))"
  by (auto simp: open_chans_def receive_def split: list.splits)

lemma try_send_all_open: "open_chans chs h \<Longrightarrow> set cs \<subseteq> set chs \<Longrightarrow> open_chans chs (fold (try_send cap v) cs h)"
  by (induction cs arbitrary: h) (simp_all add: try_send_open)

lemma close_all_open: "open_chans (cs @ chs) h \<Longrightarrow> open_chans chs (fold close_chan cs h)"
proof (induction cs arbitrary: h)
  case (Cons c cs)
  then show ?case
    using close_chan_open [OF Cons.prems, of c] by simp
qed simp

text \<open>A send to several channels appends to each that has room.\<close>

lemma try_send_all_bufs:
  assumes "open_chans chs h" and "set cs \<subseteq> set chs" and "distinct cs"
  shows "gc_buf (hp_chans (fold (try_send cap v) cs h) ch) =
    (if ch \<in> set cs \<and> length (gc_buf (hp_chans h ch)) < cap then gc_buf (hp_chans h ch) @ [v] else gc_buf (hp_chans h ch))"
  using assms
proof (induction cs arbitrary: h)
  case (Cons c cs)
  then have "open_chans chs (try_send cap v c h)"
    by (simp add: try_send_open)
  then show ?case
    using Cons by (auto simp: try_send_def Let_def open_chans_def)
qed simp

section \<open>Panic freedom\<close>

locale panic_free =
  fixes start :: 's and step :: "'s \<Rightarrow> 's \<Rightarrow> bool" and inv :: "'s \<Rightarrow> bool" and panicked :: "'s \<Rightarrow> bool"
  assumes start_inv: "inv start"
    and step_inv: "inv s \<Longrightarrow> step s s' \<Longrightarrow> inv s'"
    and inv_safe: "inv s \<Longrightarrow> \<not> panicked s"
begin

lemma reach_inv:
  assumes "step\<^sup>*\<^sup>* start s"
  shows "inv s"
  using assms by (induction rule: rtranclp_induct) (auto intro: start_inv step_inv)

lemma never_panics: "step\<^sup>*\<^sup>* start s \<Longrightarrow> \<not> panicked s"
  by (intro inv_safe reach_inv)

end

end
