(* ===== verification/Tui_Channel.thy ===== *)
theory Tui_Channel
  imports Go_Chan Router_Model
begin

text \<open>
  \<open>internal/channel/tui/tui.go\<close>: the channel of the terminal client. Its state is the map of
  subscriptions by chat and the Go channels behind them; every operation runs under the
  mutex, so the operations are the steps of a transition system.
\<close>

record TUI =
  tu_subs :: "(string \<times> nat list) list"
  tu_connected :: bool
  tu_heap :: "string heap"
  tu_unsubscribed :: "nat list"

definition TUI_New :: TUI where
  "TUI_New = \<lparr>tu_subs = [], tu_connected = True, tu_heap = empty_heap, tu_unsubscribed = []\<rparr>"

definition TUI_OwnsJID :: "string \<Rightarrow> bool" where
  "TUI_OwnsJID jid \<longleftrightarrow> HasPrefix jid ''tui:''"

definition subs_of :: "TUI \<Rightarrow> string \<Rightarrow> nat list" where
  "subs_of t jid = (case map_of (tu_subs t) jid of None \<Rightarrow> [] | Some chs \<Rightarrow> chs)"

definition all_subs :: "TUI \<Rightarrow> nat list" where
  "all_subs t = concat (map snd (tu_subs t))"

definition TUI_Disconnect :: "TUI \<Rightarrow> unit result \<times> TUI" where
  "TUI_Disconnect t = (Inr (), t\<lparr>tu_connected := False, tu_heap := fold close_chan (all_subs t) (tu_heap t), tu_subs := []\<rparr>)"

definition TUI_SendMessage :: "string \<Rightarrow> string \<Rightarrow> TUI \<Rightarrow> unit result \<times> TUI" where
  "TUI_SendMessage jid text t = (Inr (), t\<lparr>tu_heap := fold (try_send 64 text) (subs_of t jid) (tu_heap t)\<rparr>)"

definition TUI_Subscribe :: "string \<Rightarrow> TUI \<Rightarrow> nat \<times> TUI" where
  "TUI_Subscribe jid t =
     (case make_chan (tu_heap t) of
        (ch, h) \<Rightarrow> (ch, t\<lparr>tu_heap := h, tu_subs := AList.update jid (subs_of t jid @ [ch]) (tu_subs t)\<rparr>))"

text \<open>The function \<open>Subscribe\<close> returns; \<open>tu_unsubscribed\<close> holds the channels whose \<open>closed\<close> flag is set.\<close>

definition TUI_unsubscribe :: "string \<Rightarrow> nat \<Rightarrow> TUI \<Rightarrow> TUI" where
  "TUI_unsubscribe jid ch t =
     (if ch \<in> set (tu_unsubscribed t) then t
      else
        (let t = t\<lparr>tu_unsubscribed := ch # tu_unsubscribed t\<rparr>; chans = subs_of t jid
         in if ch \<in> set chans
            then t\<lparr>tu_subs := AList.update jid (remove1 ch chans) (tu_subs t), tu_heap := close_chan ch (tu_heap t)\<rparr>
            else t))"

text \<open>
  \<open>HandleInbound\<close> with the callbacks of the configuration, which act on the world \<open>'w\<close>, and the
  three readings of the clock.
\<close>

record 'w tui_config =
  tc_OnMessage :: "(string \<Rightarrow> InboundMessage \<Rightarrow> 'w \<Rightarrow> 'w) option"
  tc_OnChatMeta :: "(string \<Rightarrow> time \<Rightarrow> string \<Rightarrow> string \<Rightarrow> bool \<Rightarrow> 'w \<Rightarrow> 'w) option"

definition HandleInbound :: "'w tui_config \<Rightarrow> time \<times> time \<times> time \<Rightarrow> string \<Rightarrow> string \<Rightarrow> string \<Rightarrow> string \<Rightarrow> 'w \<Rightarrow> unit result \<times> 'w" where
  "HandleInbound cfg clock jid sender senderName content w =
     (case (clock, tc_OnMessage cfg) of
        (_, None) \<Rightarrow> (Inl (Errorf ''TUI channel not yet configured''), w)
      | ((now1, now2, now3), Some onMessage) \<Rightarrow>
          (let msg = \<lparr>im_ID = ''tui-'' @ show_int (now1 - 719162 * 86400 * Second), im_ChatJID = jid, im_Sender = sender,
                 im_SenderName = senderName, im_Content = content, im_Timestamp = now2, im_IsGroup = False\<rparr>;
               w = onMessage jid msg w
           in (Inr (), case tc_OnChatMeta cfg of None \<Rightarrow> w | Some onChatMeta \<Rightarrow> onChatMeta jid now3 jid ''tui'' False w)))"

section \<open>Steps\<close>

inductive tui_step :: "TUI \<Rightarrow> TUI \<Rightarrow> bool" where
  subscribe: "TUI_Subscribe jid t = (ch, t') \<Longrightarrow> tui_step t t'"
| unsubscribe: "tui_step t (TUI_unsubscribe jid ch t)"
| disconnect: "TUI_Disconnect t = (r, t') \<Longrightarrow> tui_step t t'"
| send: "TUI_SendMessage jid text t = (r, t') \<Longrightarrow> tui_step t t'"
| reader: "receive ch (tu_heap t) = (v, h) \<Longrightarrow> tui_step t (t\<lparr>tu_heap := h\<rparr>)"

inductive_cases tui_stepE: "tui_step t t'"

definition tui_inv :: "TUI \<Rightarrow> bool" where
  "tui_inv t \<longleftrightarrow> distinct (map fst (tu_subs t)) \<and> open_chans (all_subs t) (tu_heap t)"

lemma concat_update:
  "distinct (map fst m) \<Longrightarrow>
   mset (concat (map snd (AList.update k v m))) + mset (case map_of m k of None \<Rightarrow> [] | Some w \<Rightarrow> w) =
   mset v + mset (concat (map snd m))"
proof (induction m)
  case (Cons p m)
  then have "fst p = k \<Longrightarrow> map_of m k = None"
    by (auto simp: map_of_eq_None_iff)
  with Cons show ?case
    by (cases p) (auto simp: add.assoc)
qed simp

lemma subs_of_all: "set (subs_of t jid) \<subseteq> set (all_subs t)"
proof (cases "map_of (tu_subs t) jid")
  case (Some chs)
  then have "(jid, chs) \<in> set (tu_subs t)"
    by (rule map_of_SomeD)
  then show ?thesis
    using Some by (force simp: subs_of_def all_subs_def)
qed (simp add: subs_of_def)

lemma tui_inv_New: "tui_inv TUI_New"
  by (simp add: tui_inv_def TUI_New_def all_subs_def)

lemma tui_inv_Subscribe:
  assumes "tui_inv t" and "TUI_Subscribe jid t = (ch, t')"
  shows "tui_inv t'"
proof -
  obtain h where h: "make_chan (tu_heap t) = (ch, h)"
    and t': "t' = t\<lparr>tu_heap := h, tu_subs := AList.update jid (subs_of t jid @ [ch]) (tu_subs t)\<rparr>"
    using assms(2) by (auto simp: TUI_Subscribe_def split: prod.splits)
  have "mset (all_subs t') = mset (ch # all_subs t)"
    using assms(1) concat_update [of "tu_subs t" jid "subs_of t jid @ [ch]"]
    by (simp add: t' all_subs_def subs_of_def tui_inv_def)
  moreover have "open_chans (ch # all_subs t) h"
    using assms(1) open_chans_make [OF _ h] by (simp add: tui_inv_def)
  ultimately have "open_chans (all_subs t') h"
    by (rule iffD2 [OF open_chans_mset])
  then show ?thesis
    using assms(1) by (simp add: tui_inv_def t' distinct_update)
qed

lemma tui_inv_unsubscribe:
  assumes "tui_inv t"
  shows "tui_inv (TUI_unsubscribe jid ch t)"
proof (cases "ch \<in> set (subs_of t jid)")
  case True
  then have in_all: "ch \<in> set (all_subs t)"
    using subs_of_all by blast
  have "mset (concat (map snd (AList.update jid (remove1 ch (subs_of t jid)) (tu_subs t)))) + mset (subs_of t jid) =
      mset (remove1 ch (subs_of t jid)) + mset (all_subs t)"
    using assms concat_update [of "tu_subs t" jid "remove1 ch (subs_of t jid)"] by (simp add: tui_inv_def subs_of_def all_subs_def)
  moreover have "mset (subs_of t jid) = add_mset ch (mset (remove1 ch (subs_of t jid)))"
    using True by simp
  moreover have "mset (all_subs t) = add_mset ch (mset (remove1 ch (all_subs t)))"
    using in_all by simp
  ultimately have "mset (concat (map snd (AList.update jid (remove1 ch (subs_of t jid)) (tu_subs t)))) = mset (remove1 ch (all_subs t))"
    by (metis add_mset_add_single add_right_imp_eq union_commute union_mset_add_mset_left)
  moreover have "open_chans (remove1 ch (all_subs t)) (close_chan ch (tu_heap t))"
    using assms in_all by (simp add: tui_inv_def close_chan_open)
  ultimately have "open_chans (concat (map snd (AList.update jid (remove1 ch (subs_of t jid)) (tu_subs t)))) (close_chan ch (tu_heap t))"
    by (rule iffD2 [OF open_chans_mset])
  then show ?thesis
    using assms True by (simp add: TUI_unsubscribe_def tui_inv_def Let_def subs_of_def all_subs_def distinct_update)
next
  case False
  then show ?thesis
    using assms by (auto simp: TUI_unsubscribe_def tui_inv_def Let_def subs_of_def all_subs_def)
qed

lemma distinct_subs_of: "tui_inv t \<Longrightarrow> distinct (subs_of t jid)"
  by (auto simp: tui_inv_def open_chans_def subs_of_def all_subs_def distinct_concat_iff dest: map_of_SomeD split: option.splits)

lemma tui_inv_step: "tui_inv t \<Longrightarrow> tui_step t t' \<Longrightarrow> tui_inv t'"
proof (elim tui_stepE)
  fix jid ch assume "tui_inv t" "TUI_Subscribe jid t = (ch, t')"
  then show ?thesis by (rule tui_inv_Subscribe)
next
  fix jid ch assume "tui_inv t" "t' = TUI_unsubscribe jid ch t"
  then show ?thesis by (simp add: tui_inv_unsubscribe)
next
  fix r assume "tui_inv t" "TUI_Disconnect t = (r, t')"
  then show ?thesis
    using close_all_open [of "all_subs t" "[]"] by (auto simp: TUI_Disconnect_def tui_inv_def all_subs_def)
next
  fix jid msg r assume "tui_inv t" "TUI_SendMessage jid msg t = (r, t')"
  then show ?thesis
    using try_send_all_open [of "all_subs t" "tu_heap t" "subs_of t jid" 64 msg] subs_of_all [of t jid]
    by (auto simp: TUI_SendMessage_def tui_inv_def all_subs_def)
next
  fix ch v h assume "tui_inv t" "receive ch (tu_heap t) = (v, h)" "t' = t\<lparr>tu_heap := h\<rparr>"
  then show ?thesis
    using receive_open [of "all_subs t" "tu_heap t" ch] by (simp add: tui_inv_def all_subs_def)
qed

interpretation tui: panic_free TUI_New tui_step tui_inv "\<lambda>t. hp_panic (tu_heap t)"
proof unfold_locales
  show "tui_inv TUI_New"
    by (rule tui_inv_New)
  show "tui_inv t \<Longrightarrow> tui_step t t' \<Longrightarrow> tui_inv t'" for t t'
    by (rule tui_inv_step)
  show "tui_inv t \<Longrightarrow> \<not> hp_panic (tu_heap t)" for t
    by (simp add: tui_inv_def open_chans_def)
qed

text \<open>
  However clients subscribe, unsubscribe (also twice) and the channel disconnects in between,
  in any order, no Go channel is closed twice or written to after it was closed, so the
  server never panics here. A reply is put into exactly those subscriptions of its chat
  that have room, and the send reports success in any case, also when no one was there.
\<close>

theorem tui_safe:
  assumes "tui_step\<^sup>*\<^sup>* TUI_New t" and "TUI_SendMessage jid text t = (r, t')"
  shows "\<not> hp_panic (tu_heap t) \<and> \<not> hp_panic (tu_heap t') \<and> r = Inr () \<and>
    (\<forall>ch. gc_buf (hp_chans (tu_heap t') ch) =
      (if ch \<in> set (subs_of t jid) \<and> length (gc_buf (hp_chans (tu_heap t) ch)) < 64
       then gc_buf (hp_chans (tu_heap t) ch) @ [text] else gc_buf (hp_chans (tu_heap t) ch)))"
proof -
  have inv: "tui_inv t" and "tui_step\<^sup>*\<^sup>* TUI_New t'"
    using tui.reach_inv [OF assms(1)] assms by (auto intro: rtranclp.rtrancl_into_rtrancl tui_step.send)
  moreover have "distinct (subs_of t jid)"
    using inv by (rule distinct_subs_of)
  ultimately show ?thesis
    using assms tui.never_panics [OF assms(1)] tui.never_panics [of t'] subs_of_all [of t jid]
    by (auto simp: TUI_SendMessage_def tui_inv_def try_send_all_bufs)
qed

theorem tui_safe_witness:
  "\<not> hp_panic (tu_heap (TUI_unsubscribe ''tui:a'' 0 (snd (TUI_Disconnect (snd (TUI_Subscribe ''tui:a'' TUI_New))))))"
proof -
  let ?t1 = "snd (TUI_Subscribe ''tui:a'' TUI_New)"
  let ?t2 = "snd (TUI_Disconnect ?t1)"
  have "tui_step TUI_New ?t1" "tui_step ?t1 ?t2" "tui_step ?t2 (TUI_unsubscribe ''tui:a'' 0 ?t2)"
    by (auto intro: tui_step.intros prod.collapse [symmetric])
  then have "tui_step\<^sup>*\<^sup>* TUI_New (TUI_unsubscribe ''tui:a'' 0 ?t2)"
    by (iprover intro: rtranclp.rtrancl_into_rtrancl rtranclp.rtrancl_refl)
  from tui_safe [OF this, of "''tui:a''" "''hi''"] show ?thesis
    by (metis surj_pair)
qed

end
