(* ===== verification/Api_Channel.thy ===== *)
theory Api_Channel
  imports Tui_Channel Orch_Commands
begin

text \<open>
  \<open>internal/server/api_channel.go\<close>: the RPCs of the terminal client. \<open>SendMessage\<close> checks the
  sender and hands the message to the channel's callbacks, which the orchestrator installed
  when it connected its channels; \<open>StreamInbound\<close> passes the replies on. The second part
  composes the RPC with the orchestrator and the store.
\<close>

datatype grpc_code = Unavailable | InvalidArgument | Internal | PermissionDenied | FailedPrecondition | NotFound | Aborted

datatype rpc_error = Status grpc_code string | StreamErr goerr | CtxStatus goerr

type_synonym 'a rpc = "rpc_error + 'a"

record SendMessageRequest =
  sm_ChatJid :: string
  sm_Sender :: string
  sm_SenderName :: string
  sm_Text :: string

section \<open>SendMessage\<close>

text \<open>\<open>authz\<close> reads the allowlist of a chat in the world \<open>'w\<close>; it is absent when no store is configured.\<close>

definition SendMessage ::
  "'w tui_config option \<Rightarrow> (string \<Rightarrow> 'w \<Rightarrow> SenderAllowlistEntry list result \<times> 'w) option \<Rightarrow> time \<times> time \<times> time \<Rightarrow>
   SendMessageRequest \<Rightarrow> 'w \<Rightarrow> unit rpc \<times> 'w" where
  "SendMessage tui authz clock req w =
     (case tui of
        None \<Rightarrow> (Inl (Status Unavailable ''TUI channel not configured''), w)
      | Some cfg \<Rightarrow>
          if sm_ChatJid req = [] then (Inl (Status InvalidArgument ''chat_jid is required''), w)
          else if sm_Text req = [] then (Inl (Status InvalidArgument ''text is required''), w)
          else
            (case (case authz of
                     None \<Rightarrow> (Inr True, w)
                   | Some getAllowlist \<Rightarrow>
                       (case getAllowlist (sm_ChatJid req) w of
                          (r, w) \<Rightarrow> (IsAllowed (\<lambda>_. r) (sm_ChatJid req) (sm_Sender req), w))) of
               (Inl err, w) \<Rightarrow> (Inl (Status Internal ''allowlist check failed''), w)
             | (Inr False, w) \<Rightarrow> (Inl (Status PermissionDenied ''sender not in chat allowlist''), w)
             | (Inr True, w) \<Rightarrow>
                 (case HandleInbound cfg clock (sm_ChatJid req) (sm_Sender req) (sm_SenderName req) (sm_Text req) w of
                    (Inl err, w) \<Rightarrow> (Inl (Status FailedPrecondition (''channel not ready: '' @ error_text err)), w)
                  | (Inr _, w) \<Rightarrow> (Inr (), w))))"

section \<open>StreamInbound\<close>

record InboundProto =
  ip_Content :: string
  ip_ChatJid :: string
  ip_Channel :: string
  ip_Model :: string

text \<open>\<open>getGroup\<close> is the store's answer, absent when no store is configured.\<close>

definition lookupModel :: "Group option result option \<Rightarrow> string" where
  "lookupModel getGroup =
     (case getGroup of
        Some (Inr (Some g)) \<Rightarrow> (case g_ContainerConfig g of None \<Rightarrow> [] | Some cc \<Rightarrow> cc_Model cc)
      | _ \<Rightarrow> [])"

text \<open>
  A turn of the loop: the context ends, or the channel is read, the store is asked for the
  model and the message is sent to the client. The loop waits at an open and empty channel.
  Between two turns other goroutines may work on the channel (\<open>Others\<close>).
\<close>

datatype inbound_turn = InboundDone | InboundRead "Group option result option" "goerr option" | Others "TUI \<Rightarrow> TUI"

fun inbound_loop :: "string \<Rightarrow> nat \<Rightarrow> inbound_turn list \<Rightarrow> InboundProto list \<Rightarrow> TUI \<Rightarrow> unit rpc option \<times> InboundProto list \<times> TUI" where
  "inbound_loop jid ch [] sent t = (None, sent, t)"
| "inbound_loop jid ch (Others f # ts) sent t = inbound_loop jid ch ts sent (f t)"
| "inbound_loop jid ch (InboundDone # ts) sent t = (Some (Inr ()), sent, t)"
| "inbound_loop jid ch (InboundRead g f # ts) sent t =
     (case receive ch (tu_heap t) of
        (None, _) \<Rightarrow>
          if gc_closed (hp_chans (tu_heap t) ch) then (Some (Inl (Status Aborted ''channel closed by server'')), sent, t)
          else inbound_loop jid ch ts sent t
      | (Some msg, h) \<Rightarrow>
          (let t = t\<lparr>tu_heap := h\<rparr>
           in case f of
                Some err \<Rightarrow> (Some (Inl (StreamErr err)), sent, t)
              | None \<Rightarrow> inbound_loop jid ch ts
                  (sent @ [\<lparr>ip_Content = msg, ip_ChatJid = jid, ip_Channel = ''tui'', ip_Model = lookupModel g\<rparr>]) t))"

text \<open>
  The first message tells the client the group's model; the subscription ends with the RPC.
\<close>

definition StreamInbound ::
  "bool \<Rightarrow> string \<Rightarrow> Group option result option \<Rightarrow> fault \<Rightarrow> inbound_turn list \<Rightarrow> TUI \<Rightarrow> unit rpc option \<times> InboundProto list \<times> TUI" where
  "StreamInbound hasTui jid g f turns t =
     (if \<not> hasTui then (Some (Inl (Status Unavailable ''TUI channel not configured'')), [], t)
      else if jid = [] then (Some (Inl (Status InvalidArgument ''chat_jid is required'')), [], t)
      else
        (let hello = (if lookupModel g = [] then []
              else [\<lparr>ip_Content = [], ip_ChatJid = jid, ip_Channel = ''tui'', ip_Model = lookupModel g\<rparr>])
         in case (hello, f) of
              (_ # _, Some err) \<Rightarrow> (Some (Inl (StreamErr err)), [], t)
            | _ \<Rightarrow>
                (case TUI_Subscribe jid t of (ch, t) \<Rightarrow>
                   (case inbound_loop jid ch turns hello t of
                      (None, sent, t) \<Rightarrow> (None, sent, t)
                    | (Some r, sent, t) \<Rightarrow> (Some r, sent, TUI_unsubscribe jid ch t)))))"

text \<open>Name and connection state of each channel, as their methods return them.\<close>

definition ListChannels :: "(string \<times> bool) list \<Rightarrow> (string \<times> bool) list rpc" where
  "ListChannels chs = Inr chs"

section \<open>Replies\<close>

lemma tui_send_buf:
  assumes "tui_inv t" and "ch \<in> set (subs_of t jid)"
  shows "tui_inv (snd (TUI_SendMessage jid m t)) \<and> subs_of (snd (TUI_SendMessage jid m t)) jid = subs_of t jid \<and>
    gc_buf (hp_chans (tu_heap (snd (TUI_SendMessage jid m t))) ch) =
      (if length (gc_buf (hp_chans (tu_heap t) ch)) < 64 then gc_buf (hp_chans (tu_heap t) ch) @ [m] else gc_buf (hp_chans (tu_heap t) ch))"
proof -
  have "tui_step t (snd (TUI_SendMessage jid m t))"
    by (rule tui_step.send [OF prod.collapse [symmetric]])
  then have "tui_inv (snd (TUI_SendMessage jid m t))"
    using assms(1) tui_inv_step by blast
  then show ?thesis
    using assms try_send_all_bufs [of "all_subs t" "tu_heap t" "subs_of t jid" 64 m ch] subs_of_all [of t jid] distinct_subs_of [OF assms(1)]
    by (simp add: TUI_SendMessage_def tui_inv_def subs_of_def)
qed

lemma inbound_sends:
  assumes "tui_inv t" and "ch \<in> set (subs_of t jid)" and "length (gc_buf (hp_chans (tu_heap t) ch)) \<le> 64"
  shows "\<exists>t'. inbound_loop jid ch (map (\<lambda>m. Others (\<lambda>t. snd (TUI_SendMessage jid m t))) msgs @ ts) sent t = inbound_loop jid ch ts sent t' \<and>
    tui_inv t' \<and> ch \<in> set (subs_of t' jid) \<and> gc_buf (hp_chans (tu_heap t') ch) = take 64 (gc_buf (hp_chans (tu_heap t) ch) @ msgs)"
  using assms
proof (induction msgs arbitrary: t)
  case (Cons m msgs)
  note s = tui_send_buf [OF Cons.prems(1,2), of m]
  have "length (gc_buf (hp_chans (tu_heap (snd (TUI_SendMessage jid m t))) ch)) \<le> 64"
    using s Cons.prems(3) by simp
  from Cons.IH [OF _ _ this] s Cons.prems show ?case
    by (auto simp: take_Cons')
qed auto

lemma inbound_reads:
  "tui_inv t \<Longrightarrow> ch \<in> set (subs_of t jid) \<Longrightarrow> gc_buf (hp_chans (tu_heap t) ch) = msgs \<Longrightarrow> length msgs \<le> k \<Longrightarrow>
   \<exists>t'. inbound_loop jid ch (replicate k (InboundRead g None) @ [InboundDone]) sent t =
     (Some (Inr ()), sent @ map (\<lambda>m. \<lparr>ip_Content = m, ip_ChatJid = jid, ip_Channel = ''tui'', ip_Model = lookupModel g\<rparr>) msgs, t') \<and> tui_inv t'"
proof (induction k arbitrary: t msgs sent)
  case (Suc k)
  have op: "\<not> gc_closed (hp_chans (tu_heap t) ch)"
    using Suc.prems(1,2) subs_of_all [of t jid] by (auto simp: tui_inv_def open_chans_def)
  show ?case
  proof (cases msgs)
    case Nil
    then show ?thesis
      using Suc.IH [OF Suc.prems(1-3)] Suc.prems(3) op by (simp add: receive_def)
  next
    case (Cons m rest)
    let ?t = "t\<lparr>tu_heap := snd (receive ch (tu_heap t))\<rparr>"
    have rcv: "receive ch (tu_heap t) = (Some m, snd (receive ch (tu_heap t)))"
      using Suc.prems(3) Cons by (simp add: receive_def)
    have "tui_inv ?t"
      using Suc.prems(1) rcv tui_inv_step tui_step.reader by blast
    moreover have "gc_buf (hp_chans (tu_heap ?t) ch) = rest" "ch \<in> set (subs_of ?t jid)"
      using Suc.prems Cons by (simp_all add: receive_def subs_of_def)
    ultimately show ?thesis
      using Suc.IH [of ?t rest "sent @ [\<lparr>ip_Content = m, ip_ChatJid = jid, ip_Channel = ''tui'', ip_Model = lookupModel g\<rparr>]"] Suc.prems(4) Cons
      by (subst (1) replicate_Suc, subst (1) append_Cons, subst (1) inbound_loop.simps, subst rcv) (auto simp: Let_def)
  qed
qed auto

text \<open>
  A client that is listening to a chat gets the replies the orchestrator sends to it: the
  first 64 as long as the client does not read, in their order, each once, each with the
  model of the group. The stream starts with the model when the group has one, and nothing
  in the run panics.
\<close>

lemma StreamInbound_sends:
  assumes "tui_step\<^sup>*\<^sup>* TUI_New t" and "jid \<noteq> []"
    and "StreamInbound True jid g None (map (\<lambda>m. Others (\<lambda>t. snd (TUI_SendMessage jid m t))) msgs @
      replicate (length msgs) (InboundRead g None) @ [InboundDone]) t = (r, sent, t')"
  shows "r = Some (Inr ()) \<and> \<not> hp_panic (tu_heap t') \<and>
    sent = map (\<lambda>m. \<lparr>ip_Content = m, ip_ChatJid = jid, ip_Channel = ''tui'', ip_Model = lookupModel g\<rparr>)
      ((if lookupModel g = [] then [] else [[]]) @ take 64 msgs)"
proof -
  obtain ch t1 where sub: "TUI_Subscribe jid t = (ch, t1)"
    by fastforce
  let ?hello = "map (\<lambda>m. \<lparr>ip_Content = m, ip_ChatJid = jid, ip_Channel = ''tui'', ip_Model = lookupModel g\<rparr>) (if lookupModel g = [] then [] else [[]])"
  have inv: "tui_inv t1"
    using tui_inv_Subscribe [OF tui.reach_inv [OF assms(1)] sub] .
  have new: "ch \<in> set (subs_of t1 jid)" "gc_buf (hp_chans (tu_heap t1) ch) = []"
    using sub by (auto simp: TUI_Subscribe_def make_chan_def subs_of_def update_conv)
  from inbound_sends [OF inv new(1), of msgs "replicate (length msgs) (InboundRead g None) @ [InboundDone]" ?hello] new(2)
  obtain t2 where t2: "inbound_loop jid ch (map (\<lambda>m. Others (\<lambda>t. snd (TUI_SendMessage jid m t))) msgs @
        replicate (length msgs) (InboundRead g None) @ [InboundDone]) ?hello t1 =
      inbound_loop jid ch (replicate (length msgs) (InboundRead g None) @ [InboundDone]) ?hello t2"
    "tui_inv t2" "ch \<in> set (subs_of t2 jid)" "gc_buf (hp_chans (tu_heap t2) ch) = take 64 msgs"
    by auto
  from inbound_reads [OF t2(2-4), of "length msgs" g ?hello] obtain t3 where
    t3: "inbound_loop jid ch (replicate (length msgs) (InboundRead g None) @ [InboundDone]) ?hello t2 =
      (Some (Inr ()), ?hello @ map (\<lambda>m. \<lparr>ip_Content = m, ip_ChatJid = jid, ip_Channel = ''tui'', ip_Model = lookupModel g\<rparr>) (take 64 msgs), t3)"
    "tui_inv t3"
    by auto
  have "tui_inv (TUI_unsubscribe jid ch t3)"
    using t3(2) by (rule tui_inv_unsubscribe)
  then show ?thesis
    using assms(2,3) sub t2(1) t3(1)
    by (auto simp: StreamInbound_def tui_inv_def open_chans_def split: if_splits)
qed

section \<open>The RPC on the system\<close>

text \<open>The callbacks the orchestrator installs and the authorizer on the store.\<close>

definition system_tui :: "'x orch_env \<Rightarrow> 'x model_lister \<Rightarrow> ProviderRegistry \<Rightarrow> 'x world tui_config" where
  "system_tui e dyn reg =
     \<lparr>tc_OnMessage = Some (\<lambda>jid msg w. snd (run_state (inbound e dyn reg jid msg) w)),
      tc_OnChatMeta = Some (\<lambda>jid t name ch isGroup w. snd (run_state (onChatMeta e jid t name ch isGroup) w))\<rparr>"

definition system_authz :: "'x orch_env \<Rightarrow> string \<Rightarrow> 'x world \<Rightarrow> SenderAllowlistEntry list result \<times> 'x world" where
  "system_authz e jid w = run_state (call (oe_GetAllowlist e jid)) w"

lemma sys_runs:
  "run_state (call (answer f)) w = (f (y_tick (ext w)), w\<lparr>ext := tick 1 (ext w)\<rparr>)"
  "run_state (call (db_read o1 q)) w = (q (or_fault o1 (y_tick (ext w))) (y_db (ext w)), w\<lparr>ext := tick 1 (ext w)\<rparr>)"
  "run_state (call (db_write o1 p)) w =
     (fst (p (or_fault o1 (y_tick (ext w))) (y_db (ext w))),
      w\<lparr>ext := tick 1 ((ext w)\<lparr>y_db := snd (p (or_fault o1 (y_tick (ext w))) (y_db (ext w)))\<rparr>)\<rparr>)"
  by (simp_all add: run_call answer_def db_read_def db_write_def split: prod.split)

lemma system_authz_run:
  "system_authz (sys_env cfg codec lib rng sb o1) jid w =
     (GetAllowlist (or_fault o1 (y_tick (ext w))) jid (y_db (ext w)), w\<lparr>ext := tick 1 (ext w)\<rparr>)"
  by (simp add: system_authz_def sys_simps sys_runs)

text \<open>
  A message from the API reaches the orchestrator only when the store's allowlist for that
  chat lets its sender in. In every other case, a failing store included, the RPC answers an
  error and the database and the services are as they were.
\<close>

theorem api_enforces_allowlist:
  assumes "e = sys_env cfg codec lib rng sb o1"
    and "SendMessage (Some (system_tui e dyn reg)) (Some (system_authz e)) clock req w = (r, w')"
  shows "case r of
      Inl _ \<Rightarrow> y_db (ext w') = y_db (ext w) \<and> y_log (ext w') = y_log (ext w)
    | Inr _ \<Rightarrow> IsAllowed (\<lambda>j. GetAllowlist None j (y_db (ext w))) (sm_ChatJid req) (sm_Sender req) = Inr True"
proof (cases "or_fault o1 (y_tick (ext w))")
  case None
  with assms show ?thesis
    by (auto simp: SendMessage_def system_authz_run HandleInbound_def system_tui_def IsAllowed_def split: sum.splits bool.splits if_splits prod.splits)
next
  case (Some err)
  with assms show ?thesis
    by (auto simp: SendMessage_def system_authz_run IsAllowed_def GetAllowlist_def split: sum.splits if_splits)
qed

theorem api_enforces_allowlist_witness:
  "case SendMessage (Some (system_tui demo_env None NewRegistry)) (Some (system_authz demo_env)) (0, 0, 0)
      \<lparr>sm_ChatJid = ''g'', sm_Sender = ''u'', sm_SenderName = ''U'', sm_Text = []\<rparr> (demo_world False [] 0 0) of
     (r, w') \<Rightarrow> r = Inl (Status InvalidArgument ''text is required'') \<and> y_db (ext w') = y_db (ext (demo_world False [] 0 0))"
  using api_enforces_allowlist [OF refl, of demo_cfg demo_orch_codec demo_lib id True demo_outcomes None NewRegistry "(0, 0, 0)"
      "\<lparr>sm_ChatJid = ''g'', sm_Sender = ''u'', sm_SenderName = ''U'', sm_Text = []\<rparr>" "demo_world False [] 0 0"]
  by (simp add: SendMessage_def)

definition api_message :: "time \<Rightarrow> time \<Rightarrow> SendMessageRequest \<Rightarrow> Message" where
  "api_message now1 now2 req =
     \<lparr>m_ID = ''tui-'' @ show_int (now1 - 719162 * 86400 * Second), m_ChatJID = sm_ChatJid req, m_Sender = sm_Sender req,
      m_SenderName = sm_SenderName req, m_Content = sm_Text req, m_Timestamp = db_time6 now2,
      m_IsFromMe = False, m_IsBotMessage = False\<rparr>"

lemma fresh_bucket: "a \<le> b \<Longrightarrow> 1 \<le> c \<Longrightarrow> fst (TryAcquire b (newTokenBucket c a))"
proof -
  assume "a \<le> b" "1 \<le> c"
  then have "0 \<le> (of_int (b - a) / of_int Second :: rat) * of_int c"
    by (intro mult_nonneg_nonneg divide_nonneg_nonneg) (simp_all del: of_int_diff)
  moreover have "(1 :: rat) \<le> of_int c"
    using \<open>1 \<le> c\<close> by simp
  ultimately show ?thesis
    by (simp add: TryAcquire_def newTokenBucket_def Let_def del: of_int_diff)
qed

lemma rate_limited_run:
  assumes "case rateLimiters w chat of
      Some l \<Rightarrow> fst (TryAcquire (or_now o1 (y_tick (ext w))) l)
    | None \<Rightarrow> 1 \<le> oc_RateLimitTokensPerSec cfg \<and> or_now o1 (y_tick (ext w)) \<le> or_now o1 (Suc (y_tick (ext w)))"
  shows "\<not> fst (run_state (rate_limited (sys_env cfg codec lib rng sb o1) chat) w)"
proof (cases "rateLimiters w chat")
  case None
  let ?a = "or_now o1 (y_tick (ext w))" and ?b = "or_now o1 (Suc (y_tick (ext w)))"
  let ?c = "oc_RateLimitTokensPerSec cfg"
  have "fst (TryAcquire ?b (newTokenBucket ?c ?a))"
    using assms None by (simp add: fresh_bucket)
  then show ?thesis
    using None
    by (cases "TryAcquire ?b (newTokenBucket ?c ?a)")
       (simp add: rate_limited_def run_bind sys_simps sys_runs)
next
  case (Some l)
  then show ?thesis
    using assms
    by (cases "TryAcquire (or_now o1 (y_tick (ext w))) l")
       (simp add: rate_limited_def run_bind sys_simps sys_runs)
qed

text \<open>
  A message the API accepts is not lost on its way: with a working store, a sender the
  allowlist admits, a text that is no command and within the size limit, and a rate limiter
  that has a token, it is a row of the message table and the message loop is woken.
\<close>

lemma SendMessage_stores:
  assumes "e = sys_env cfg codec lib rng sb o1" and "\<And>n. or_fault o1 n = None"
    and "sm_ChatJid req \<noteq> []" and "sm_Text req \<noteq> []" and "\<not> HasPrefix (TrimSpace (sm_Text req)) ''/''"
    and "oc_MaxMessageSizeBytes cfg \<le> 0 \<or> int (length (sm_Text req)) \<le> oc_MaxMessageSizeBytes cfg"
    and "IsAllowed (\<lambda>j. GetAllowlist None j (y_db (ext w))) (sm_ChatJid req) (sm_Sender req) = Inr True"
    and "case rateLimiters w (sm_ChatJid req) of
      Some l \<Rightarrow> fst (TryAcquire (or_now o1 (Suc (y_tick (ext w)))) l)
    | None \<Rightarrow> 1 \<le> oc_RateLimitTokensPerSec cfg \<and> or_now o1 (Suc (y_tick (ext w))) \<le> or_now o1 (Suc (Suc (y_tick (ext w))))"
    and "SendMessage (Some (system_tui e dyn reg)) (Some (system_authz e)) (now1, now2, now3) req w = (r, w')"
  shows "r = Inr () \<and> api_message now1 now2 req \<in> set (db_messages (y_db (ext w'))) \<and> notify w'"
proof -
  let ?w = "w\<lparr>ext := tick 1 (ext w)\<rparr>"
  have "\<not> fst (run_state (rate_limited e (sm_ChatJid req)) ?w)"
    unfolding assms(1) by (rule rate_limited_run) (use assms(8) in \<open>simp cong: option.case_cong\<close>)
  then obtain w2 where rl: "run_state (rate_limited e (sm_ChatJid req)) ?w = (False, w2)"
    by (cases "run_state (rate_limited e (sm_ChatJid req)) ?w") simp
  have [simp]: "db_messages (snd (UpsertChat None c d)) = db_messages d" for c d
    by (simp add: UpsertChat_def)
  from assms(9) show ?thesis
    using assms(1-7) rl
    by (auto simp: SendMessage_def system_authz_run HandleInbound_def system_tui_def inbound_def onInboundMessage_def onChatMeta_def ignore_def
          store_inbound_def run_bind sys_simps sys_runs StoreMessage_def replace_message_def api_message_def IsAllowed_def GetAllowlist_def)
qed

end
