(* ===== verification/Event_Hub.thy ===== *)
theory Event_Hub
  imports Go_Chan Sandbox_Model
begin

text \<open>
  \<open>internal/server/event_hub.go\<close> with its producer \<open>watchSandboxEvents\<close> (server.go) and its
  consumer \<open>StreamEvents\<close> (api_services.go). The hub maps the numbers of its subscribers to
  their channels; \<open>publish\<close> ranges over that map in an order the parameter \<open>rng\<close> gives.
\<close>

record Event =
  pe_Timestamp :: time
  pe_Type :: string
  pe_Source :: string
  pe_Message :: string
  pe_Metadata :: "(string \<times> string) list"

record eventHub =
  eh_nextID :: nat
  eh_subs :: "(nat \<times> nat) list"
  eh_heap :: "Event heap"

definition newEventHub :: eventHub where
  "newEventHub = \<lparr>eh_nextID = 0, eh_subs = [], eh_heap = empty_heap\<rparr>"

definition hub_publish :: "(nat list \<Rightarrow> nat list) \<Rightarrow> Event \<Rightarrow> eventHub \<Rightarrow> eventHub" where
  "hub_publish rng evt h = h\<lparr>eh_heap := fold (try_send 64 evt) (rng (map snd (eh_subs h))) (eh_heap h)\<rparr>"

definition hub_subscribe :: "eventHub \<Rightarrow> (nat \<times> nat) \<times> eventHub" where
  "hub_subscribe h =
     (case make_chan (eh_heap h) of
        (ch, hp) \<Rightarrow> ((eh_nextID h, ch), \<lparr>eh_nextID = Suc (eh_nextID h), eh_subs = AList.update (eh_nextID h) ch (eh_subs h), eh_heap = hp\<rparr>))"

text \<open>The function \<open>subscribe\<close> returns, for the subscriber with the given number.\<close>

definition hub_unsubscribe :: "nat \<Rightarrow> eventHub \<Rightarrow> eventHub" where
  "hub_unsubscribe n h =
     (case map_of (eh_subs h) n of
        None \<Rightarrow> h
      | Some ch \<Rightarrow> h\<lparr>eh_subs := AList.delete n (eh_subs h), eh_heap := close_chan ch (eh_heap h)\<rparr>)"

section \<open>The producer\<close>

fun state_name :: "SandboxState \<Rightarrow> string" where
  "state_name StatePending = ''pending''"
| "state_name StateRunning = ''running''"
| "state_name StateCompleted = ''completed''"
| "state_name StateFailed = ''failed''"

definition sandboxEventToProto :: "time \<Rightarrow> SandboxEvent \<Rightarrow> Event" where
  "sandboxEventToProto now evt =
     (let s = ev_Status evt
      in \<lparr>pe_Timestamp = now, pe_Type = ev_Type evt, pe_Source = ''sandbox'',
          pe_Message = ev_Type evt @ '' sandbox '' @ st_Name s @ '' ('' @ state_name (st_State s) @ '')'',
          pe_Metadata = [(''name'', st_Name s), (''group'', st_Group s), (''state'', state_name (st_State s))]\<rparr>)"

text \<open>
  The turns of the loop's \<open>select\<close>: the context ends, an event arrives at an instant, or the
  watch has ended and its channel is closed. The loop returns at the first turn of the
  other two kinds; turns after it are never taken.
\<close>

datatype hub_turn = WatchDone | WatchEvent time SandboxEvent | WatchClosed

fun hub_watch_loop :: "(nat list \<Rightarrow> nat list) \<Rightarrow> hub_turn list \<Rightarrow> eventHub \<Rightarrow> eventHub" where
  "hub_watch_loop rng (WatchEvent now evt # ts) h = hub_watch_loop rng ts (hub_publish rng (sandboxEventToProto now evt) h)"
| "hub_watch_loop rng _ h = h"

definition watchSandboxEvents :: "(nat list \<Rightarrow> nat list) \<Rightarrow> time \<Rightarrow> hub_turn list result \<Rightarrow> eventHub \<Rightarrow> eventHub" where
  "watchSandboxEvents rng now watch h =
     (case watch of
        Inl err \<Rightarrow> hub_publish rng \<lparr>pe_Timestamp = now, pe_Type = ''error'', pe_Source = ''sandbox'',
          pe_Message = ''failed to watch sandbox events: '' @ error_text err, pe_Metadata = []\<rparr> h
      | Inr turns \<Rightarrow> hub_watch_loop rng turns h)"

section \<open>The consumer\<close>

text \<open>
  A turn of \<open>StreamEvents\<close>: the client's context ends, or the channel is read, and the sending of
  the event to the client, when there is one, succeeds or fails. A read of an open and
  empty channel waits and is no turn. The result is the events sent to the client, and
  the RPC's answer once the loop has returned.
\<close>

datatype stream_turn = StreamDone | StreamRead "goerr option"

fun stream_loop :: "string list \<Rightarrow> nat \<Rightarrow> stream_turn list \<Rightarrow> Event list \<Rightarrow> eventHub \<Rightarrow> unit result option \<times> Event list \<times> eventHub" where
  "stream_loop filters ch [] sent h = (None, sent, h)"
| "stream_loop filters ch (StreamDone # ts) sent h = (Some (Inr ()), sent, h)"
| "stream_loop filters ch (StreamRead f # ts) sent h =
     (case receive ch (eh_heap h) of
        (None, _) \<Rightarrow> if gc_closed (hp_chans (eh_heap h) ch) then (Some (Inr ()), sent, h) else stream_loop filters ch ts sent h
      | (Some evt, hp) \<Rightarrow>
          (let h = h\<lparr>eh_heap := hp\<rparr>
           in if filters \<noteq> [] \<and> pe_Type evt \<notin> set filters then stream_loop filters ch ts sent h
              else case f of
                Some err \<Rightarrow> (Some (Inl err), sent, h)
              | None \<Rightarrow> stream_loop filters ch ts (sent @ [evt]) h))"

text \<open>The subscription ends when the loop returns.\<close>

definition StreamEvents :: "string list \<Rightarrow> nat \<times> nat \<Rightarrow> stream_turn list \<Rightarrow> eventHub \<Rightarrow> unit result option \<times> Event list \<times> eventHub" where
  "StreamEvents filters sub ts h =
     (case stream_loop filters (snd sub) ts [] h of
        (None, sent, h) \<Rightarrow> (None, sent, h)
      | (Some r, sent, h) \<Rightarrow> (Some r, sent, hub_unsubscribe (fst sub) h))"

section \<open>Steps and invariant\<close>

inductive hub_step :: "eventHub \<Rightarrow> eventHub \<Rightarrow> bool" where
  publish: "range_ok rng \<Longrightarrow> hub_step h (hub_publish rng evt h)"
| subscribe: "hub_subscribe h = (sub, h') \<Longrightarrow> hub_step h h'"
| unsubscribe: "hub_step h (hub_unsubscribe n h)"
| reader: "receive ch (eh_heap h) = (v, hp) \<Longrightarrow> hub_step h (h\<lparr>eh_heap := hp\<rparr>)"

inductive_cases hub_stepE: "hub_step h h'"

definition hub_inv :: "eventHub \<Rightarrow> bool" where
  "hub_inv h \<longleftrightarrow> distinct (map fst (eh_subs h)) \<and> (\<forall>n \<in> fst ` set (eh_subs h). n < eh_nextID h) \<and>
     open_chans (map snd (eh_subs h)) (eh_heap h)"

lemma range_ok_distinct: "range_ok f \<Longrightarrow> distinct xs \<Longrightarrow> distinct (f xs)"
  by (metis range_ok_def card_distinct distinct_card)

lemma update_fresh: "k \<notin> fst ` set m \<Longrightarrow> AList.update k v m = m @ [(k, v)]"
  by (induction m) auto

lemma map_snd_delete:
  "distinct (map fst m) \<Longrightarrow> distinct (map snd m) \<Longrightarrow> map_of m k = Some v \<Longrightarrow> map snd (AList.delete k m) = remove1 v (map snd m)"
proof (induction m)
  case (Cons p m)
  show ?case
  proof (cases "fst p = k")
    case True
    with Cons.prems show ?thesis by (cases p) auto
  next
    case False
    with Cons.prems have "v \<in> snd ` set m" by (cases p) (auto dest: map_of_SomeD intro: rev_image_eqI)
    with Cons False show ?thesis by (cases p) auto
  qed
qed simp

lemma hub_inv_new: "hub_inv newEventHub"
  by (simp add: hub_inv_def newEventHub_def)

lemma hub_inv_publish: "hub_inv h \<Longrightarrow> range_ok rng \<Longrightarrow> hub_inv (hub_publish rng evt h)"
  by (simp add: hub_inv_def hub_publish_def try_send_all_open range_ok_set)

lemma hub_inv_subscribe:
  assumes "hub_inv h" and "hub_subscribe h = ((n, ch), h')"
  shows "hub_inv h'" and "map_of (eh_subs h') n = Some ch" and "gc_buf (hp_chans (eh_heap h') ch) = []"
proof -
  obtain hp where hp: "make_chan (eh_heap h) = (ch, hp)" and n: "n = eh_nextID h"
    and h': "h' = \<lparr>eh_nextID = Suc n, eh_subs = AList.update n ch (eh_subs h), eh_heap = hp\<rparr>"
    using assms(2) by (auto simp: hub_subscribe_def split: prod.splits)
  have fresh: "n \<notin> fst ` set (eh_subs h)"
    using assms(1) n by (auto simp: hub_inv_def)
  then have upd: "AList.update n ch (eh_subs h) = eh_subs h @ [(n, ch)]"
    by (rule update_fresh)
  have "open_chans (ch # map snd (eh_subs h)) hp"
    using assms(1) open_chans_make [OF _ hp] by (simp add: hub_inv_def)
  then have "open_chans (map snd (eh_subs h) @ [ch]) hp"
    by (rule iffD2 [OF open_chans_mset, rotated]) simp
  then show "hub_inv h'"
    using assms(1) fresh n unfolding h' upd by (auto simp: hub_inv_def)
  show "map_of (eh_subs h') n = Some ch"
    by (simp add: h' update_Some_unfold)
  show "gc_buf (hp_chans (eh_heap h') ch) = []"
    using hp by (auto simp: h' make_chan_def)
qed

lemma hub_inv_unsubscribe:
  assumes "hub_inv h"
  shows "hub_inv (hub_unsubscribe n h)"
proof (cases "map_of (eh_subs h) n")
  case (Some ch)
  then have "ch \<in> set (map snd (eh_subs h))"
    using map_of_SomeD [OF Some] by (auto intro: rev_image_eqI)
  moreover have "map snd (AList.delete n (eh_subs h)) = remove1 ch (map snd (eh_subs h))"
    using assms Some by (simp add: map_snd_delete hub_inv_def open_chans_def)
  moreover have "open_chans (map snd (eh_subs h)) (eh_heap h)"
    using assms by (simp add: hub_inv_def)
  ultimately have "open_chans (map snd (AList.delete n (eh_subs h))) (close_chan ch (eh_heap h))"
    using close_chan_open by metis
  moreover have "distinct (map fst (AList.delete n (eh_subs h)))"
    using assms by (simp add: hub_inv_def delete_keys distinct_removeAll)
  moreover have "set (AList.delete n (eh_subs h)) \<subseteq> set (eh_subs h)"
    by (auto simp: AList.delete_eq)
  ultimately show ?thesis
    using assms Some by (auto simp: hub_inv_def hub_unsubscribe_def)
qed (use assms in \<open>simp add: hub_unsubscribe_def\<close>)

lemma hub_inv_step: "hub_inv h \<Longrightarrow> hub_step h h' \<Longrightarrow> hub_inv h'"
proof (elim hub_stepE)
  fix rng evt assume "hub_inv h" "range_ok rng" "h' = hub_publish rng evt h"
  then show ?thesis by (simp add: hub_inv_publish)
next
  fix sub assume "hub_inv h" "hub_subscribe h = (sub, h')"
  then show ?thesis by (cases sub) (auto dest: hub_inv_subscribe(1))
next
  fix n assume "hub_inv h" "h' = hub_unsubscribe n h"
  then show ?thesis by (simp add: hub_inv_unsubscribe)
next
  fix ch v hp assume "hub_inv h" "receive ch (eh_heap h) = (v, hp)" "h' = h\<lparr>eh_heap := hp\<rparr>"
  then show ?thesis
    using receive_open [of "map snd (eh_subs h)" "eh_heap h" ch] by (simp add: hub_inv_def)
qed

interpretation hub: panic_free newEventHub hub_step hub_inv "\<lambda>h. hp_panic (eh_heap h)"
proof unfold_locales
  show "hub_inv newEventHub"
    by (rule hub_inv_new)
  show "hub_inv h \<Longrightarrow> hub_step h h' \<Longrightarrow> hub_inv h'" for h h'
    by (rule hub_inv_step)
  show "hub_inv h \<Longrightarrow> \<not> hp_panic (eh_heap h)" for h
    by (simp add: hub_inv_def open_chans_def)
qed

section \<open>Delivery\<close>

lemma publish_buf:
  assumes "hub_inv h" and "range_ok rng" and "map_of (eh_subs h) n = Some ch"
  shows "gc_buf (hp_chans (eh_heap (hub_publish rng evt h)) ch) = take 64 (gc_buf (hp_chans (eh_heap h) ch)) @
    (if length (gc_buf (hp_chans (eh_heap h) ch)) < 64 then [evt] else drop 64 (gc_buf (hp_chans (eh_heap h) ch)))"
    and "eh_subs (hub_publish rng evt h) = eh_subs h"
proof -
  have "ch \<in> set (map snd (eh_subs h))"
    using map_of_SomeD [OF assms(3)] by (auto intro: rev_image_eqI)
  moreover have "distinct (rng (map snd (eh_subs h)))"
    using assms(1,2) by (simp add: range_ok_distinct hub_inv_def open_chans_def)
  ultimately show "gc_buf (hp_chans (eh_heap (hub_publish rng evt h)) ch) = take 64 (gc_buf (hp_chans (eh_heap h) ch)) @
    (if length (gc_buf (hp_chans (eh_heap h) ch)) < 64 then [evt] else drop 64 (gc_buf (hp_chans (eh_heap h) ch)))"
    using assms(1,2) try_send_all_bufs [of "map snd (eh_subs h)" "eh_heap h" "rng (map snd (eh_subs h))" 64 evt ch]
    by (auto simp: hub_publish_def hub_inv_def range_ok_set)
qed (simp add: hub_publish_def)

lemma publish_all_buf:
  assumes "hub_inv h" and "range_ok rng" and "map_of (eh_subs h) n = Some ch" and "length (gc_buf (hp_chans (eh_heap h) ch)) \<le> 64"
  shows "hub_inv (fold (hub_publish rng) evts h) \<and> eh_subs (fold (hub_publish rng) evts h) = eh_subs h \<and>
    gc_buf (hp_chans (eh_heap (fold (hub_publish rng) evts h)) ch) = take 64 (gc_buf (hp_chans (eh_heap h) ch) @ evts)"
  using assms
proof (induction evts arbitrary: h)
  case (Cons evt evts)
  note pub = publish_buf [OF Cons.prems(1-3), of evt]
  have "hub_inv (hub_publish rng evt h)" "length (gc_buf (hp_chans (eh_heap (hub_publish rng evt h)) ch)) \<le> 64"
    using Cons.prems by (auto simp: hub_inv_publish pub)
  with Cons.IH [of "hub_publish rng evt h"] Cons.prems show ?case
    by (auto simp: pub take_Cons')
qed simp

lemma stream_loop_reads:
  "gc_buf (hp_chans (eh_heap h) ch) = evts \<Longrightarrow> length evts \<le> k \<Longrightarrow> \<not> gc_closed (hp_chans (eh_heap h) ch) \<Longrightarrow> hub_inv h \<Longrightarrow>
   \<exists>h'. stream_loop filters ch (replicate k (StreamRead None) @ [StreamDone]) sent h =
      (Some (Inr ()), sent @ filter (\<lambda>e. filters = [] \<or> pe_Type e \<in> set filters) evts, h') \<and> hub_inv h'"
proof (induction k arbitrary: h evts sent)
  case (Suc k)
  show ?case
  proof (cases evts)
    case Nil
    then show ?thesis
      using Suc.IH [OF Suc.prems(1) _ Suc.prems(3,4)] Suc.prems by (simp add: receive_def)
  next
    case (Cons evt rest)
    let ?h = "h\<lparr>eh_heap := snd (receive ch (eh_heap h))\<rparr>"
    have rcv: "receive ch (eh_heap h) = (Some evt, snd (receive ch (eh_heap h)))"
      using Suc.prems(1) Cons by (simp add: receive_def)
    have "hub_inv ?h"
      using Suc.prems(4) rcv by (metis hub_inv_step hub_step.reader)
    moreover have "gc_buf (hp_chans (eh_heap ?h) ch) = rest" "\<not> gc_closed (hp_chans (eh_heap ?h) ch)"
      using Suc.prems Cons by (simp_all add: receive_def)
    ultimately show ?thesis
      using Suc.IH [of ?h rest "sent @ [evt]"] Suc.IH [of ?h rest sent] Suc.prems(2) Cons
      by (subst (1) replicate_Suc, subst (1) append_Cons, subst (1) stream_loop.simps, subst rcv) (auto simp: Let_def)
  qed
qed simp

lemma hub_watch_events:
  "hub_watch_loop rng (map (\<lambda>(t, e). WatchEvent t e) evs) h = fold (hub_publish rng) (map (\<lambda>(t, e). sandboxEventToProto t e) evs) h"
  by (induction evs arbitrary: h) auto

text \<open>
  Whatever clients came and went before, a client that subscribes to the hub gets the
  sandbox events of the watch that follow: the first 64 of them as long as it does not
  read, in their order, each once, and only those of the types it asked for. When its RPC
  returns the subscription is gone, and no send or close in the whole run panics.
\<close>

theorem sandbox_events_reach_client:
  assumes "hub_step\<^sup>*\<^sup>* newEventHub h" and "hub_subscribe h = (sub, h1)" and "range_ok rng"
    and "h2 = watchSandboxEvents rng now (Inr (map (\<lambda>(t, e). WatchEvent t e) evs)) h1"
    and "StreamEvents filters sub (replicate (length evs) (StreamRead None) @ [StreamDone]) h2 = (r, sent, h3)"
  shows "r = Some (Inr ()) \<and>
    sent = filter (\<lambda>e. filters = [] \<or> pe_Type e \<in> set filters) (take 64 (map (\<lambda>(t, e). sandboxEventToProto t e) evs)) \<and>
    map_of (eh_subs h3) (fst sub) = None \<and> \<not> hp_panic (eh_heap h3)"
proof -
  obtain n ch where sub: "sub = (n, ch)"
    by (cases sub)
  note s = hub_inv_subscribe [OF hub.reach_inv [OF assms(1)] assms(2) [unfolded sub]]
  define evts where "evts = map (\<lambda>(t, e). sandboxEventToProto t e) evs"
  have h2: "h2 = fold (hub_publish rng) evts h1"
    by (simp add: assms(4) watchSandboxEvents_def hub_watch_events evts_def)
  have p: "hub_inv h2" "eh_subs h2 = eh_subs h1" "gc_buf (hp_chans (eh_heap h2) ch) = take 64 evts"
    using publish_all_buf [OF s(1) assms(3) s(2), of evts] s(3) by (simp_all add: h2)
  have "ch \<in> set (map snd (eh_subs h2))"
    using map_of_SomeD [OF s(2)] p(2) by (auto intro: rev_image_eqI)
  then have "\<not> gc_closed (hp_chans (eh_heap h2) ch)"
    using p(1) by (auto simp: hub_inv_def open_chans_def)
  then obtain h' where l: "stream_loop filters ch (replicate (length evs) (StreamRead None) @ [StreamDone]) [] h2 =
      (Some (Inr ()), filter (\<lambda>e. filters = [] \<or> pe_Type e \<in> set filters) (take 64 evts), h')" "hub_inv h'"
    using stream_loop_reads [OF p(3), of "length evs" filters "[]"] p(1) by (auto simp: evts_def)
  have "hub_inv (hub_unsubscribe n h')"
    using l(2) by (rule hub_inv_unsubscribe)
  then show ?thesis
    using assms(5) l(1) by (auto simp: StreamEvents_def sub evts_def hub_inv_def open_chans_def hub_unsubscribe_def delete_conv split: option.splits)
qed

theorem sandbox_events_reach_client_witness:
  "\<exists>h3. StreamEvents [''added''] (0, 0) (replicate 2 (StreamRead None) @ [StreamDone])
     (watchSandboxEvents id 0 (Inr [WatchEvent 1 \<lparr>ev_Type = ''added'', ev_Status = \<lparr>st_Name = ''s'', st_Group = ''g'', st_State = StatePending, st_StartTime = None, st_EndTime = None\<rparr>\<rparr>,
        WatchEvent 2 \<lparr>ev_Type = ''updated'', ev_Status = \<lparr>st_Name = ''s'', st_Group = ''g'', st_State = StateRunning, st_StartTime = None, st_EndTime = None\<rparr>\<rparr>])
        (snd (hub_subscribe newEventHub))) =
     (Some (Inr ()), [sandboxEventToProto 1 \<lparr>ev_Type = ''added'', ev_Status = \<lparr>st_Name = ''s'', st_Group = ''g'', st_State = StatePending, st_StartTime = None, st_EndTime = None\<rparr>\<rparr>], h3)"
proof -
  let ?e1 = "\<lparr>ev_Type = ''added'', ev_Status = \<lparr>st_Name = ''s'', st_Group = ''g'', st_State = StatePending, st_StartTime = None, st_EndTime = None\<rparr>\<rparr>"
  let ?e2 = "\<lparr>ev_Type = ''updated'', ev_Status = \<lparr>st_Name = ''s'', st_Group = ''g'', st_State = StateRunning, st_StartTime = None, st_EndTime = None\<rparr>\<rparr>"
  let ?w = "watchSandboxEvents id 0 (Inr (map (\<lambda>(t, e). WatchEvent t e) [(1 :: time, ?e1), (2, ?e2)])) (snd (hub_subscribe newEventHub))"
  have sub: "hub_subscribe newEventHub = ((0, 0), snd (hub_subscribe newEventHub))"
    by (simp add: hub_subscribe_def newEventHub_def make_chan_def empty_heap_def)
  obtain r sent h3 where run: "StreamEvents [''added''] (0, 0) (replicate (length [(1 :: time, ?e1), (2, ?e2)]) (StreamRead None) @ [StreamDone]) ?w = (r, sent, h3)"
    by (metis surj_pair)
  from sandbox_events_reach_client [OF rtranclp.rtrancl_refl sub range_ok_id refl run]
  have "r = Some (Inr ())" "sent = [sandboxEventToProto 1 ?e1]"
    by (simp_all add: sandboxEventToProto_def Let_def)
  with run show ?thesis
    by (auto simp: numeral_2_eq_2)
qed

end
