(* ===== verification/Config_Model.thy ===== *)
theory Config_Model
  imports Cred_Store
begin

text \<open>
  \<open>internal/config/config.go\<close>: the configuration and its validation. Reading the environment
  (\<open>envconfig\<close>) and the time zone database are parameters; the sections that neither the
  validation nor a modelled component reads (MySQL, NATS, metrics, logging) are left out.
\<close>

record ServerConfig =
  sv_GRPCAddr :: string
  sv_RESTAddr :: string
  sv_GRPCInsecure :: bool
  sv_GRPCTLSCertFile :: string
  sv_GRPCTLSKeyFile :: string
  sv_GRPCTLSClientCAFile :: string
  sv_GRPCAllowedCIDRs :: string
  sv_GRPCReflectionEnabled :: bool

record K8sConfig =
  k8_Namespace :: string
  k8_AgentImageAnthropic :: string
  k8_AgentImageOpenAI :: string
  k8_InCluster :: bool
  k8_SessionsPVC :: string
  k8_GroupsPVC :: string
  k8_DataPVC :: string
  k8_SandboxStartupTimeout :: duration
  k8_SandboxProxyURL :: string
  k8_FastStartEnabled :: bool

record ProxyConfig =
  pc_Addr :: string
  pc_AnthropicUpstreamURL :: string
  pc_AnthropicAPIKey :: string
  pc_AnthropicAPIVersion :: string
  pc_OpenAIUpstreamURL :: string
  pc_OpenAIAPIKey :: string
  pc_CredentialEncryptionKey :: string

record QueueConfig =
  qc_MaxConcurrent :: int
  qc_IdleTimeout :: duration
  qc_TaskCloseDelay :: duration
  qc_MaxRetries :: int
  qc_RetryBaseDelay :: duration
  qc_RateLimitTokensPerSec :: int
  qc_MaxMessageSizeBytes :: int
  qc_MessageLimit :: int

record ChannelsConfig =
  cc_AssistantName :: string
  cc_Timezone :: string
  cc_DiscordToken :: string
  cc_TelegramToken :: string

record Config =
  cf_Server :: ServerConfig
  cf_K8s :: K8sConfig
  cf_Proxy :: ProxyConfig
  cf_Queue :: QueueConfig
  cf_Channels :: ChannelsConfig

definition Config_Validate :: "(string \<Rightarrow> unit result) \<Rightarrow> Config \<Rightarrow> unit result" where
  "Config_Validate loadLocation c =
     (let p = cf_Proxy c; s = cf_Server c; k = cf_K8s c; key = pc_CredentialEncryptionKey (cf_Proxy c)
      in if pc_AnthropicAPIKey p = [] \<and> pc_OpenAIAPIKey p = []
         then Inl (Errorf ''at least one provider credential must be set (ANTHROPIC_API_KEY or OPENAI_API_KEY)'')
         else if pc_OpenAIAPIKey p \<noteq> [] \<and> key = []
         then Inl (Errorf ''CREDENTIAL_ENCRYPTION_KEY is required when OPENAI_API_KEY is configured (multi-provider proxy encrypts per-group credentials)'')
         else if \<not> sv_GRPCInsecure s \<and> (sv_GRPCTLSCertFile s = [] \<or> sv_GRPCTLSKeyFile s = [] \<or> sv_GRPCTLSClientCAFile s = [])
         then Inl (Errorf ''GRPC_TLS_CERT_FILE, GRPC_TLS_KEY_FILE, and GRPC_TLS_CLIENT_CA_FILE must all be set (or set GRPC_INSECURE=true)'')
         else if sv_GRPCAllowedCIDRs s = [] then Inl (Errorf ''GRPC_ALLOWED_CIDRS must not be empty'')
         else case loadLocation (cc_Timezone (cf_Channels c)) of
           Inl err \<Rightarrow> Inl (Wrapf (''invalid timezone '' @ Quote (cc_Timezone (cf_Channels c))) err)
         | Inr _ \<Rightarrow>
             if qc_MaxConcurrent (cf_Queue c) \<le> 0
             then Inl (Errorf (''MAX_CONCURRENT must be positive, got '' @ show_int (qc_MaxConcurrent (cf_Queue c))))
             else if k8_AgentImageAnthropic k = [] \<and> k8_AgentImageOpenAI k = []
             then Inl (Errorf ''at least one agent image must be set (AGENT_IMAGE_ANTHROPIC or AGENT_IMAGE_OPENAI)'')
             else if pc_AnthropicAPIKey p \<noteq> [] \<and> k8_AgentImageAnthropic k = []
             then Inl (Errorf ''AGENT_IMAGE_ANTHROPIC is required when ANTHROPIC_API_KEY is configured (legacy AGENT_IMAGE fallback is not supported with NATS)'')
             else if pc_OpenAIAPIKey p \<noteq> [] \<and> k8_AgentImageOpenAI k = []
             then Inl (Errorf ''AGENT_IMAGE_OPENAI is required when OPENAI_API_KEY is configured'')
             else if key \<noteq> [] \<and> length key \<noteq> 64
             then Inl (Errorf (''CREDENTIAL_ENCRYPTION_KEY must be 64 hex characters (32 bytes), got '' @ show_nat (length key) @ '' characters''))
             else if key \<noteq> [] \<and> hex_decode key = None
             then Inl (Errorf ''CREDENTIAL_ENCRYPTION_KEY must be valid hex'')
             else Inr ())"

definition Config_Load :: "Config result \<Rightarrow> (string \<Rightarrow> unit result) \<Rightarrow> Config result" where
  "Config_Load process loadLocation =
     (case process of
        Inl err \<Rightarrow> Inl (Wrapf ''failed to load configuration'' err)
      | Inr cfg \<Rightarrow> (case Config_Validate loadLocation cfg of Inl err \<Rightarrow> Inl err | Inr _ \<Rightarrow> Inr cfg))"

lemma Config_Validate_ok:
  assumes "Config_Validate loc c = Inr ()"
  shows "pc_AnthropicAPIKey (cf_Proxy c) \<noteq> [] \<or> pc_OpenAIAPIKey (cf_Proxy c) \<noteq> []"
    and "pc_OpenAIAPIKey (cf_Proxy c) \<noteq> [] \<Longrightarrow> pc_CredentialEncryptionKey (cf_Proxy c) \<noteq> []"
    and "pc_CredentialEncryptionKey (cf_Proxy c) \<noteq> [] \<Longrightarrow>
      \<exists>key. hex_decode (pc_CredentialEncryptionKey (cf_Proxy c)) = Some key \<and> length key = 32"
    and "0 < qc_MaxConcurrent (cf_Queue c)"
    and "pc_AnthropicAPIKey (cf_Proxy c) \<noteq> [] \<Longrightarrow> k8_AgentImageAnthropic (cf_K8s c) \<noteq> []"
    and "pc_OpenAIAPIKey (cf_Proxy c) \<noteq> [] \<Longrightarrow> k8_AgentImageOpenAI (cf_K8s c) \<noteq> []"
  using assms by (auto simp: Config_Validate_def Let_def dest: hex_decode_length split: if_splits sum.splits)

end
