(* ===== verification/Cred_Proxy.thy ===== *)
theory Cred_Proxy
  imports Config_Model Provider_Registry
begin

text \<open>
  \<open>internal/credproxy/proxy.go\<close>: the reverse proxy that gives the requests of the agents the
  credentials of their groups. A request either gets a response of the proxy itself or is
  forwarded; the forwarded request is what \<open>Rewrite\<close> makes of the copy the reverse proxy of
  \<open>net/http/httputil\<close> prepares (\<open>prep\<close>, an arbitrary function). The parser of URLs is a
  parameter. Timeouts, logging and metrics are left out.
\<close>

section \<open>HTTP\<close>

fun canon_key :: "bool \<Rightarrow> string \<Rightarrow> string" where
  "canon_key upper [] = []"
| "canon_key upper (c # cs) = (if upper then upper_char c else lower_char c) # canon_key (c = CHR ''-'') cs"

type_synonym Header = "string \<rightharpoonup> string list"

definition Header_Get :: "Header \<Rightarrow> string \<Rightarrow> string" where
  "Header_Get h k = (case h (canon_key True k) of Some (v # _) \<Rightarrow> v | _ \<Rightarrow> [])"

definition Header_Set :: "string \<Rightarrow> string \<Rightarrow> Header \<Rightarrow> Header" where
  "Header_Set k v h = h(canon_key True k \<mapsto> [v])"

definition Header_Del :: "string \<Rightarrow> Header \<Rightarrow> Header" where
  "Header_Del k h = h(canon_key True k := None)"

record URL =
  u_Scheme :: string
  u_Host :: string
  u_Path :: string

record Request =
  rq_URL :: URL
  rq_Host :: string
  rq_Header :: Header

datatype outcome = Respond nat string | Forward Request

section \<open>Credential resolution\<close>

record resolvedCredential =
  rc_Provider :: string
  rc_AuthMode :: AuthMode
  rc_APIKey :: string
  rc_AccountID :: string
  rc_IsFedRAMP :: bool
  rc_UpstreamURL :: string

definition chatGPTCodexUpstreamURL :: string where
  "chatGPTCodexUpstreamURL = ''https://chatgpt.com/backend-api/codex''"

type_synonym CredentialResolver = "string \<Rightarrow> string \<Rightarrow> resolvedCredential result"

definition key_credential :: "string \<Rightarrow> string \<Rightarrow> string \<Rightarrow> resolvedCredential" where
  "key_credential prov key upstream =
     \<lparr>rc_Provider = prov, rc_AuthMode = cred_AuthModeAPIKey, rc_APIKey = key, rc_AccountID = [], rc_IsFedRAMP = False,
      rc_UpstreamURL = upstream\<rparr>"

definition nil_dereference :: goerr where
  "nil_dereference = Errorf ''runtime error: invalid memory address or nil pointer dereference''"

text \<open>The credential of the group, \<open>None\<close> when it is for another provider than the one asked for.\<close>

definition group_credential :: "ProxyConfig \<Rightarrow> string \<Rightarrow> Credential \<Rightarrow> resolvedCredential result option" where
  "group_credential cfg requested cred =
     (if requested \<noteq> [] \<and> cr_Provider cred \<noteq> requested then None
      else if cr_AuthMode cred = cred_AuthModeChatGPT then
        (case cr_chatGPT cred of
           None \<Rightarrow> Some (Inl nil_dereference)
         | Some t \<Rightarrow>
             Some (Inr \<lparr>rc_Provider = ProviderOpenAI, rc_AuthMode = cred_AuthModeChatGPT, rc_APIKey = AccessToken t,
                        rc_AccountID = AccountID t, rc_IsFedRAMP = IsFedRAMP t, rc_UpstreamURL = chatGPTCodexUpstreamURL\<rparr>))
      else Some (Inr (key_credential (cr_Provider cred) (cr_apiKey cred)
             (if cr_Provider cred = ProviderOpenAI then pc_OpenAIUpstreamURL cfg else pc_AnthropicUpstreamURL cfg))))"

definition platform_credential :: "ProxyConfig \<Rightarrow> string \<Rightarrow> string \<Rightarrow> resolvedCredential result" where
  "platform_credential cfg groupJID requested =
     (let openai = key_credential ProviderOpenAI (pc_OpenAIAPIKey cfg) (pc_OpenAIUpstreamURL cfg);
          anthropic = key_credential ProviderAnthropic (pc_AnthropicAPIKey cfg) (pc_AnthropicUpstreamURL cfg);
          none = Inl (Errorf (''no credentials found for group '' @ Quote groupJID @ '' (requested provider '' @ Quote requested @
                   '') and no matching platform fallback configured''))
      in if requested = ProviderOpenAI then if pc_OpenAIAPIKey cfg \<noteq> [] then Inr openai else none
         else if requested = ProviderAnthropic then if pc_AnthropicAPIKey cfg \<noteq> [] then Inr anthropic else none
         else if pc_AnthropicAPIKey cfg \<noteq> [] then Inr anthropic
         else if pc_OpenAIAPIKey cfg \<noteq> [] then Inr openai
         else none)"

text \<open>\<open>credStore\<close> is the read of the credential store, when there is one.\<close>

definition Resolve :: "(string \<Rightarrow> Credential option result) option \<Rightarrow> ProxyConfig \<Rightarrow> CredentialResolver" where
  "Resolve credStore cfg groupJID requested =
     (case credStore of
        None \<Rightarrow> platform_credential cfg groupJID requested
      | Some get \<Rightarrow>
          if groupJID = [] then platform_credential cfg groupJID requested
          else (case get groupJID of
            Inl err \<Rightarrow> Inl (Wrapf ''resolve credential'' err)
          | Inr None \<Rightarrow> platform_credential cfg groupJID requested
          | Inr (Some cred) \<Rightarrow>
              (case group_credential cfg requested cred of
                 Some r \<Rightarrow> r
               | None \<Rightarrow> platform_credential cfg groupJID requested)))"

section \<open>The proxy\<close>

record Proxy =
  px_upstream :: URL
  px_allowedHost :: string
  px_allowedUpstreamHosts :: "string list"
  px_apiKey :: string
  px_addr :: string
  px_resolver :: "CredentialResolver option"

definition anthropic_upstream :: "ProxyConfig \<Rightarrow> string" where
  "anthropic_upstream cfg =
     (if pc_AnthropicUpstreamURL cfg = [] then ''https://api.anthropic.com'' else pc_AnthropicUpstreamURL cfg)"

definition Proxy_New :: "(string \<Rightarrow> URL result) \<Rightarrow> ProxyConfig \<Rightarrow> Proxy result" where
  "Proxy_New parse cfg =
     (case parse (anthropic_upstream cfg) of
        Inl err \<Rightarrow> Inl (Wrapf ''credproxy: invalid upstream URL'' err)
      | Inr upstream \<Rightarrow>
          if pc_AnthropicAPIKey cfg = []
          then Inl (Errorf ''credproxy: AnthropicAPIKey must be set (use NewMultiProviderProxy for per-group credentials)'')
          else Inr \<lparr>px_upstream = upstream, px_allowedHost = u_Host upstream, px_allowedUpstreamHosts = [],
                    px_apiKey = pc_AnthropicAPIKey cfg, px_addr = pc_Addr cfg, px_resolver = None\<rparr>)"

definition NewMultiProviderProxy :: "(string \<Rightarrow> URL result) \<Rightarrow> ProxyConfig \<Rightarrow> CredentialResolver \<Rightarrow> Proxy result" where
  "NewMultiProviderProxy parse cfg resolver =
     (case parse (anthropic_upstream cfg) of
        Inl err \<Rightarrow> Inl (Wrapf ''credproxy: invalid upstream URL'' err)
      | Inr upstream \<Rightarrow>
          (let openai = (if pc_OpenAIUpstreamURL cfg \<noteq> []
                         then (case parse (pc_OpenAIUpstreamURL cfg) of Inr u \<Rightarrow> [u_Host u] | Inl _ \<Rightarrow> [])
                         else [''api.openai.com'']);
               codex = (case parse chatGPTCodexUpstreamURL of Inr u \<Rightarrow> [u_Host u] | Inl _ \<Rightarrow> [])
           in Inr \<lparr>px_upstream = upstream, px_allowedHost = u_Host upstream,
                   px_allowedUpstreamHosts = u_Host upstream # openai @ codex, px_apiKey = pc_AnthropicAPIKey cfg,
                   px_addr = pc_Addr cfg, px_resolver = Some resolver\<rparr>))"

definition upstreamPath :: "string \<Rightarrow> string \<Rightarrow> AuthMode \<Rightarrow> string" where
  "upstreamPath basePath requestPath authMode =
     (let path = (if authMode = cred_AuthModeChatGPT
                  then (let p = TrimPrefix requestPath ''/v1'' in if p = [] then ''/'' else p)
                  else requestPath)
      in if basePath = [] \<or> basePath = ''/'' then path
         else if path = [] \<or> path = ''/'' then basePath
         else TrimRight basePath ''/'' @ ''/'' @ TrimLeft path ''/'')"

definition del_hop_by_hop :: "Header \<Rightarrow> Header" where
  "del_hop_by_hop h = Header_Del ''Transfer-Encoding'' (Header_Del ''Keep-Alive'' (Header_Del ''Connection'' h))"

definition inject_auth :: "resolvedCredential \<Rightarrow> Header \<Rightarrow> Header" where
  "inject_auth cred h =
     (if rc_Provider cred = ProviderOpenAI then
        (let h = Header_Set ''Authorization'' (''Bearer '' @ rc_APIKey cred) (Header_Del ''X-Api-Key'' h)
         in if rc_AuthMode cred = cred_AuthModeChatGPT then
              (let h = Header_Set ''ChatGPT-Account-ID'' (rc_AccountID cred) h
               in if rc_IsFedRAMP cred then Header_Set ''X-OpenAI-Fedramp'' ''true'' h else Header_Del ''X-OpenAI-Fedramp'' h)
            else Header_Del ''X-OpenAI-Fedramp'' (Header_Del ''ChatGPT-Account-ID'' h))
      else if rc_Provider cred = ProviderAnthropic then
        Header_Set ''X-Api-Key'' (rc_APIKey cred)
          (Header_Del ''X-OpenAI-Fedramp'' (Header_Del ''ChatGPT-Account-ID'' (Header_Del ''Authorization'' h)))
      else h)"

text \<open>\<open>Rewrite\<close> with the credential the middleware left in the context, if any.\<close>

definition Rewrite :: "Proxy \<Rightarrow> (resolvedCredential \<times> URL) option \<Rightarrow> Request \<Rightarrow> Request" where
  "Rewrite p resolved out =
     (case resolved of
        Some (cred, upstreamURL) \<Rightarrow>
          \<lparr>rq_URL = \<lparr>u_Scheme = u_Scheme upstreamURL, u_Host = u_Host upstreamURL,
                     u_Path = upstreamPath (u_Path upstreamURL) (u_Path (rq_URL out)) (rc_AuthMode cred)\<rparr>,
           rq_Host = u_Host upstreamURL,
           rq_Header = inject_auth cred (Header_Del ''X-Kraclaw-Provider'' (Header_Del ''X-Kraclaw-Group''
             (del_hop_by_hop (rq_Header out))))\<rparr>
      | None \<Rightarrow>
          (let out = out\<lparr>rq_URL := (rq_URL out)\<lparr>u_Scheme := u_Scheme (px_upstream p), u_Host := u_Host (px_upstream p)\<rparr>,
                         rq_Host := u_Host (px_upstream p)\<rparr>
           in if u_Host (rq_URL out) \<noteq> px_allowedHost p
              then out\<lparr>rq_Header := Header_Del ''Authorization'' (Header_Del ''X-Api-Key'' (rq_Header out))\<rparr>
              else out\<lparr>rq_Header := Header_Set ''X-Api-Key'' (px_apiKey p)
                (Header_Del ''Authorization'' (Header_Del ''X-Api-Key'' (del_hop_by_hop (rq_Header out))))\<rparr>))"

definition credentialMiddleware :: "(string \<Rightarrow> URL result) \<Rightarrow> Proxy \<Rightarrow> ((resolvedCredential \<times> URL) option \<Rightarrow> Request \<Rightarrow> outcome) \<Rightarrow> Request \<Rightarrow> outcome" where
  "credentialMiddleware parse p serve r =
     (let groupJID = Header_Get (rq_Header r) ''X-Kraclaw-Group''
      in case px_resolver p of
           None \<Rightarrow> serve None r
         | Some resolver \<Rightarrow>
             if groupJID = [] then serve None r
             else (case resolver groupJID (Header_Get (rq_Header r) ''X-Kraclaw-Provider'') of
               Inl _ \<Rightarrow> Respond 502 ''credential resolution failed''
             | Inr cred \<Rightarrow>
                 (case parse (rc_UpstreamURL cred) of
                    Inl _ \<Rightarrow> Respond 502 ''invalid upstream URL for resolved credential''
                  | Inr upstreamURL \<Rightarrow>
                      if px_allowedUpstreamHosts p \<noteq> [] \<and> u_Host upstreamURL \<notin> set (px_allowedUpstreamHosts p)
                      then Respond 403 ''Forbidden: resolved upstream host not allowed''
                      else serve (Some (cred, upstreamURL)) r)))"

definition hostGuard :: "Proxy \<Rightarrow> (Request \<Rightarrow> outcome) \<Rightarrow> Request \<Rightarrow> outcome" where
  "hostGuard p serve r =
     (let h = u_Host (rq_URL r)
      in if px_resolver p \<noteq> None \<and> h \<noteq> [] \<and> px_allowedUpstreamHosts p \<noteq> [] \<and> h \<notin> set (px_allowedUpstreamHosts p)
         then Respond 403 ''Forbidden: target host not allowed''
         else if h \<noteq> [] \<and> h \<noteq> px_allowedHost p then Respond 403 ''Forbidden: target host not allowed''
         else serve r)"

text \<open>The handler, for a path as \<open>http.ServeMux\<close> cleans it.\<close>

definition proxy_handler :: "(string \<Rightarrow> URL result) \<Rightarrow> (Request \<Rightarrow> Request) \<Rightarrow> Proxy \<Rightarrow> Request \<Rightarrow> outcome" where
  "proxy_handler parse prep p r =
     (if u_Path (rq_URL r) = ''/healthz'' \<or> u_Path (rq_URL r) = ''/readyz'' then Respond 200 ''ok''
      else hostGuard p (credentialMiddleware parse p (\<lambda>resolved r. Forward (Rewrite p resolved (prep r)))) r)"

section \<open>Responses\<close>

record Response =
  rs_StatusCode :: nat
  rs_Header :: Header
  rs_Body :: string
  rs_ContentLength :: int

definition maxUpstreamErrorBodyBytes :: nat where "maxUpstreamErrorBodyBytes = 4096"

text \<open>\<open>rs_Body\<close> is what the upstream will send; \<open>f\<close> is the error of reading it.\<close>

definition ModifyResponse :: "fault \<Rightarrow> Response \<Rightarrow> Response result" where
  "ModifyResponse f resp =
     (if rs_StatusCode resp < 400 then Inr resp
      else case f of
        Some err \<Rightarrow> Inl (Wrapf ''read upstream error body'' err)
      | None \<Rightarrow>
          (let body = take (maxUpstreamErrorBodyBytes + 1) (rs_Body resp);
               body = (if length body > maxUpstreamErrorBodyBytes then take maxUpstreamErrorBodyBytes body else body)
           in Inr (resp\<lparr>rs_Body := body, rs_ContentLength := int (length body),
                        rs_Header := Header_Del ''Content-Length'' (rs_Header resp)\<rparr>)))"


text \<open>What the client gets when the upstream cannot be reached; \<open>None\<close> when it has gone.\<close>

definition ErrorHandler :: "goerr \<Rightarrow> (nat \<times> string) option" where
  "ErrorHandler err =
     (if errors_Is err ContextCanceled then None
      else if errors_Is err ContextDeadline then Some (504, [])
      else Some (502, ''Bad Gateway''))"

text \<open>
  \<open>Start\<close>: what its \<open>select\<close> receives, a value of the channel of listen errors (\<open>None\<close> when
  the channel was closed without one) or the end of the context, with the answer of the
  shutdown.
\<close>

datatype start_event = ListenEnded "goerr option" | CtxEnded "unit result"

definition Proxy_Start :: "start_event \<Rightarrow> unit result" where
  "Proxy_Start ev =
     (case ev of
        ListenEnded (Some err) \<Rightarrow> Inl (Wrapf ''credproxy: listen error'' err)
      | ListenEnded None \<Rightarrow> Inl (Errorf ''credproxy: listen error: %!w(<nil>)'')
      | CtxEnded shutdown \<Rightarrow> shutdown)"

section \<open>Properties\<close>

lemma canon_keys [simp]:
  "canon_key True ''Authorization'' = ''Authorization''" "canon_key True ''X-Api-Key'' = ''X-Api-Key''"
  "canon_key True ''ChatGPT-Account-ID'' = ''Chatgpt-Account-Id''" "canon_key True ''X-OpenAI-Fedramp'' = ''X-Openai-Fedramp''"
  "canon_key True ''X-Kraclaw-Group'' = ''X-Kraclaw-Group''" "canon_key True ''X-Kraclaw-Provider'' = ''X-Kraclaw-Provider''"
  "canon_key True ''Connection'' = ''Connection''" "canon_key True ''Keep-Alive'' = ''Keep-Alive''"
  "canon_key True ''Transfer-Encoding'' = ''Transfer-Encoding''" "canon_key True ''Content-Length'' = ''Content-Length''"
  by code_simp+

declare canon_key.simps [simp del]

lemma providers_distinct [simp]: "ProviderOpenAI \<noteq> ProviderAnthropic" "ProviderAnthropic \<noteq> ProviderOpenAI"
  "ProviderOpenAI \<noteq> []" "ProviderAnthropic \<noteq> []" "[] \<noteq> ProviderOpenAI" "[] \<noteq> ProviderAnthropic"
  by (simp_all add: ProviderOpenAI_def ProviderAnthropic_def)

text \<open>The headers that carry a credential, and what a credential puts there.\<close>

definition credential_headers :: "Header \<Rightarrow> string list option list" where
  "credential_headers h = map h [''Authorization'', ''X-Api-Key'', ''Chatgpt-Account-Id'', ''X-Openai-Fedramp'']"

definition auth_of :: "resolvedCredential \<Rightarrow> string list option list" where
  "auth_of c =
     (if rc_Provider c = ProviderAnthropic then [None, Some [rc_APIKey c], None, None]
      else if rc_AuthMode c = cred_AuthModeChatGPT
      then [Some [''Bearer '' @ rc_APIKey c], None, Some [rc_AccountID c], if rc_IsFedRAMP c then Some [''true''] else None]
      else [Some [''Bearer '' @ rc_APIKey c], None, None, None])"

lemma inject_auth_headers:
  "rc_Provider c \<in> {ProviderOpenAI, ProviderAnthropic} \<Longrightarrow> credential_headers (inject_auth c h) = auth_of c"
  by (auto simp: inject_auth_def credential_headers_def auth_of_def Header_Set_def Header_Del_def Let_def)

lemma inject_auth_keeps:
  "k \<notin> {''Authorization'', ''X-Api-Key'', ''Chatgpt-Account-Id'', ''X-Openai-Fedramp''} \<Longrightarrow> inject_auth c h k = h k"
  by (auto simp: inject_auth_def Header_Set_def Header_Del_def Let_def)

definition internal_free :: "Header \<Rightarrow> bool" where
  "internal_free h \<longleftrightarrow> h ''X-Kraclaw-Group'' = None \<and> h ''X-Kraclaw-Provider'' = None"

text \<open>
  C15: What leaves the proxy. A forwarded request of a named group goes to the host of the
  credential that was resolved for this group and the provider it asked for, a host on the
  proxy's list, with the internal headers removed; for the known providers its credential
  headers are exactly those of that credential, whatever credentials the client sent. A
  request without a group, or on a proxy without resolver, goes to the one configured host
  with the platform key and no other key.
\<close>

theorem proxy_injects_resolved:
  assumes "proxy_handler parse prep p r = Forward out" and "px_allowedHost p = u_Host (px_upstream p)"
  defines "g \<equiv> Header_Get (rq_Header r) ''X-Kraclaw-Group''"
  shows "case px_resolver p of
      Some resolver \<Rightarrow>
        if g \<noteq> []
        then (\<exists>cred u. resolver g (Header_Get (rq_Header r) ''X-Kraclaw-Provider'') = Inr cred \<and> parse (rc_UpstreamURL cred) = Inr u \<and>
               u_Host (rq_URL out) = u_Host u \<and> rq_Host out = u_Host u \<and>
               (px_allowedUpstreamHosts p = [] \<or> u_Host u \<in> set (px_allowedUpstreamHosts p)) \<and> internal_free (rq_Header out) \<and>
               (rc_Provider cred \<in> {ProviderOpenAI, ProviderAnthropic} \<longrightarrow> credential_headers (rq_Header out) = auth_of cred))
        else u_Host (rq_URL out) = px_allowedHost p \<and> rq_Header out ''X-Api-Key'' = Some [px_apiKey p] \<and>
             rq_Header out ''Authorization'' = None
    | None \<Rightarrow> u_Host (rq_URL out) = px_allowedHost p \<and> rq_Header out ''X-Api-Key'' = Some [px_apiKey p] \<and>
             rq_Header out ''Authorization'' = None"
proof -
  have "credentialMiddleware parse p (\<lambda>resolved r. Forward (Rewrite p resolved (prep r))) r = Forward out"
    using assms(1) by (auto simp: proxy_handler_def hostGuard_def Let_def split: if_splits)
  then show ?thesis
    using assms(2) unfolding g_def [symmetric]
    by (auto simp: credentialMiddleware_def Let_def Rewrite_def inject_auth_headers inject_auth_keeps internal_free_def
          Header_Set_def Header_Del_def g_def split: option.splits if_splits sum.splits)
qed

text \<open>A concrete proxy: hosts are the URLs themselves.\<close>

definition demo_parse :: "string \<Rightarrow> URL result" where
  "demo_parse s = Inr \<lparr>u_Scheme = ''https'', u_Host = s, u_Path = []\<rparr>"

definition demo_pcfg :: ProxyConfig where
  "demo_pcfg = \<lparr>pc_Addr = '':3001'', pc_AnthropicUpstreamURL = ''ant'', pc_AnthropicAPIKey = ''platform'', pc_AnthropicAPIVersion = [],
     pc_OpenAIUpstreamURL = ''oai'', pc_OpenAIAPIKey = [], pc_CredentialEncryptionKey = []\<rparr>"

definition demo_req :: "string \<Rightarrow> Request" where
  "demo_req g = \<lparr>rq_URL = \<lparr>u_Scheme = [], u_Host = [], u_Path = ''/v1/responses''\<rparr>, rq_Host = ''proxy'',
     rq_Header = [''X-Kraclaw-Group'' \<mapsto> [g], ''X-Api-Key'' \<mapsto> [''stolen'']]\<rparr>"

definition demo_proxy :: "CredentialResolver \<Rightarrow> Proxy" where
  "demo_proxy res = \<lparr>px_upstream = \<lparr>u_Scheme = ''https'', u_Host = ''ant'', u_Path = []\<rparr>, px_allowedHost = ''ant'',
     px_allowedUpstreamHosts = [''ant'', ''oai'', chatGPTCodexUpstreamURL], px_apiKey = ''platform'', px_addr = '':3001'',
     px_resolver = Some res\<rparr>"

lemma demo_proxy_new: "NewMultiProviderProxy demo_parse demo_pcfg res = Inr (demo_proxy res)"
  by (simp add: NewMultiProviderProxy_def demo_parse_def demo_pcfg_def anthropic_upstream_def demo_proxy_def)

theorem proxy_injects_resolved_witness:
  "\<exists>out. proxy_handler demo_parse id (demo_proxy (Resolve None demo_pcfg)) (demo_req ''g'') = Forward out \<and>
     credential_headers (rq_Header out) = [None, Some [''platform''], None, None]"
proof -
  let ?p = "demo_proxy (Resolve None demo_pcfg)"
  have res: "Resolve None demo_pcfg ''g'' [] = Inr (key_credential ProviderAnthropic ''platform'' ''ant'')"
    by (simp add: Resolve_def platform_credential_def demo_pcfg_def Let_def ProviderOpenAI_def ProviderAnthropic_def)
  have hdr: "Header_Get (rq_Header (demo_req ''g'')) ''X-Kraclaw-Group'' = ''g''"
    "Header_Get (rq_Header (demo_req ''g'')) ''X-Kraclaw-Provider'' = []"
    by (simp_all add: Header_Get_def demo_req_def)
  have "u_Path (rq_URL (demo_req ''g'')) \<noteq> ''/healthz''" "u_Path (rq_URL (demo_req ''g'')) \<noteq> ''/readyz''"
    "u_Host (rq_URL (demo_req ''g'')) = []"
    by (simp_all add: demo_req_def)
  then obtain out where out: "proxy_handler demo_parse id ?p (demo_req ''g'') = Forward out"
    by (simp add: proxy_handler_def hostGuard_def credentialMiddleware_def hdr res Let_def demo_proxy_def demo_parse_def
          key_credential_def)
  moreover have "px_allowedHost ?p = u_Host (px_upstream ?p)"
    by (simp add: demo_proxy_def)
  ultimately have "credential_headers (rq_Header out) = auth_of (key_credential ProviderAnthropic ''platform'' ''ant'')"
    using proxy_injects_resolved [of demo_parse id ?p "demo_req ''g''" out] hdr res
    by (auto simp: demo_proxy_def key_credential_def)
  with out show ?thesis
    by (auto simp: auth_of_def key_credential_def)
qed

text \<open>
  C16: One group's credential never decides about another's request: two databases that agree on
  the row of the group a request names, and on nothing else, make the proxy treat the
  request in exactly the same way.
\<close>

theorem proxy_group_isolation:
  assumes "tab (Header_Get (rq_Header r) ''X-Kraclaw-Group'') = tab' (Header_Get (rq_Header r) ''X-Kraclaw-Group'')"
    and "NewMultiProviderProxy parse cfg (Resolve (Some (\<lambda>j. GetCredential f ae j tab)) cfg) = Inr p"
    and "NewMultiProviderProxy parse cfg (Resolve (Some (\<lambda>j. GetCredential f ae j tab')) cfg) = Inr p'"
  shows "proxy_handler parse prep p r = proxy_handler parse prep p' r"
proof -
  let ?g = "Header_Get (rq_Header r) ''X-Kraclaw-Group''"
  have "GetCredential f ae ?g tab = GetCredential f ae ?g tab'"
    by (cases f) (simp_all add: GetCredential_def assms(1))
  then have same: "Resolve (Some (\<lambda>j. GetCredential f ae j tab)) cfg ?g q = Resolve (Some (\<lambda>j. GetCredential f ae j tab')) cfg ?g q" for q
    by (simp add: Resolve_def)
  have p: "px_resolver p = Some (Resolve (Some (\<lambda>j. GetCredential f ae j tab)) cfg)"
    "px_resolver p' = Some (Resolve (Some (\<lambda>j. GetCredential f ae j tab')) cfg)"
    "px_allowedHost p' = px_allowedHost p" "px_allowedUpstreamHosts p' = px_allowedUpstreamHosts p"
    "px_upstream p' = px_upstream p" "px_apiKey p' = px_apiKey p"
    using assms(2,3) by (auto simp: NewMultiProviderProxy_def Let_def split: sum.splits)
  have "Rewrite p' = Rewrite p"
    by (intro ext) (simp add: Rewrite_def Let_def p split: option.splits)
  then show ?thesis
    by (simp add: proxy_handler_def hostGuard_def credentialMiddleware_def Let_def same p cong: sum.case_cong)
qed

definition demo_table :: cred_table where
  "demo_table = snd (UpsertCredential None demo_aead (\<lambda>_. Inr ''nn'') Second demo_cred Map.empty)"

lemma demo_table_ok: "UpsertCredential None demo_aead (\<lambda>_. Inr ''nn'') Second demo_cred Map.empty = (Inr (), demo_table)"
  by (simp add: demo_table_def UpsertCredential_def Credential_Validate_def validate_with_def demo_cred_def Encrypt_def)

abbreviation demo_resolver :: "cred_table \<Rightarrow> CredentialResolver" where
  "demo_resolver tab \<equiv> Resolve (Some (\<lambda>j. GetCredential None demo_aead j tab)) demo_pcfg"

lemma demo_req_headers [simp]:
  "Header_Get (rq_Header (demo_req g)) ''X-Kraclaw-Group'' = g"
  "Header_Get (rq_Header (demo_req g)) ''X-Kraclaw-Provider'' = []"
  by (simp_all add: Header_Get_def demo_req_def)

theorem proxy_group_isolation_witness:
  "proxy_handler demo_parse id (demo_proxy (demo_resolver Map.empty)) (demo_req ''h'') =
   proxy_handler demo_parse id (demo_proxy (demo_resolver demo_table)) (demo_req ''h'')"
proof -
  have "demo_table ''h'' = None"
    using Upsert_Get(2) [OF demo_aead_ok order_refl demo_table_ok, of "''h''"] by (simp add: demo_cred_def)
  then show ?thesis
    by (intro proxy_group_isolation [where parse = demo_parse and cfg = demo_pcfg and f = None and ae = demo_aead
          and tab = Map.empty and tab' = demo_table]) (simp_all add: demo_proxy_new)
qed

text \<open>The credential headers that belong to a stored credential.\<close>

definition own_auth :: "Credential \<Rightarrow> string list option list" where
  "own_auth c =
     (case cr_chatGPT c of
        Some t \<Rightarrow> [Some [''Bearer '' @ AccessToken t], None, Some [AccountID t], if IsFedRAMP t then Some [''true''] else None]
      | None \<Rightarrow>
          if cr_Provider c = ProviderAnthropic then [None, Some [cr_apiKey c], None, None]
          else [Some [''Bearer '' @ cr_apiKey c], None, None, None])"

lemma group_credential_own:
  assumes "UpsertCredential f ae rnd now cred tab = (Inr (), tab')" and "cr_Provider cred \<in> {ProviderOpenAI, ProviderAnthropic}"
    and "requested \<in> {[], cr_Provider cred}"
  shows "\<exists>rc. group_credential cfg requested (stored_cred cred) = Some (Inr rc) \<and> auth_of rc = own_auth cred \<and>
    rc_Provider rc \<in> {ProviderOpenAI, ProviderAnthropic} \<and>
    rc_UpstreamURL rc \<in> {chatGPTCodexUpstreamURL, pc_OpenAIUpstreamURL cfg, pc_AnthropicUpstreamURL cfg}"
  using assms(1)
proof (cases rule: UpsertCredential_cases)
  case (key c)
  then show ?thesis
    using assms(2,3) by (auto simp: group_credential_def stored_cred_def auth_of_def own_auth_def key_credential_def)
next
  case (tokens t a r i)
  then show ?thesis
    using assms(2,3) by (auto simp: group_credential_def stored_cred_def stored_tokens_def auth_of_def own_auth_def)
qed

text \<open>
  From the database to the wire: once a credential of a known provider has been stored for a
  group, a request of this group that asks for no other provider is forwarded, and what it
  carries is this credential and nothing else, however the client tried to authenticate.
\<close>

theorem stored_credential_used:
  assumes "aead_ok ae" and "nonces_ok ae rnd" and "Second \<le> now"
    and "UpsertCredential None ae rnd now cred tab = (Inr (), tab')"
    and "cr_Provider cred \<in> {ProviderOpenAI, ProviderAnthropic}"
    and "NewMultiProviderProxy parse cfg (Resolve (Some (\<lambda>j. GetCredential None ae j tab')) cfg) = Inr p"
    and "pc_AnthropicUpstreamURL cfg \<noteq> []" and "pc_OpenAIUpstreamURL cfg \<noteq> []"
    and "\<And>s. s \<in> {chatGPTCodexUpstreamURL, pc_OpenAIUpstreamURL cfg, pc_AnthropicUpstreamURL cfg} \<Longrightarrow> is_ok (parse s)"
    and "u_Host (rq_URL r) = []" and "u_Path (rq_URL r) \<notin> {''/healthz'', ''/readyz''}"
    and "Header_Get (rq_Header r) ''X-Kraclaw-Group'' = cr_GroupJID cred"
    and "Header_Get (rq_Header r) ''X-Kraclaw-Provider'' \<in> {[], cr_Provider cred}"
  shows "\<exists>out. proxy_handler parse prep p r = Forward out \<and> credential_headers (rq_Header out) = own_auth cred"
proof -
  obtain rc where rc: "group_credential cfg (Header_Get (rq_Header r) ''X-Kraclaw-Provider'') (stored_cred cred) = Some (Inr rc)"
    "auth_of rc = own_auth cred" "rc_Provider rc \<in> {ProviderOpenAI, ProviderAnthropic}"
    "rc_UpstreamURL rc \<in> {chatGPTCodexUpstreamURL, pc_OpenAIUpstreamURL cfg, pc_AnthropicUpstreamURL cfg}"
    using group_credential_own [OF assms(4,5,13)] by blast
  have "cr_GroupJID cred \<noteq> []"
    using assms(4) by (cases rule: UpsertCredential_cases) auto
  then have res: "Resolve (Some (\<lambda>j. GetCredential None ae j tab')) cfg (cr_GroupJID cred)
      (Header_Get (rq_Header r) ''X-Kraclaw-Provider'') = Inr rc"
    by (simp add: Resolve_def Upsert_Get(1) [OF assms(1-4)] rc(1))
  obtain uc uo ua where parsed: "parse chatGPTCodexUpstreamURL = Inr uc" "parse (pc_OpenAIUpstreamURL cfg) = Inr uo"
    "parse (pc_AnthropicUpstreamURL cfg) = Inr ua"
    using assms(9) [of chatGPTCodexUpstreamURL] assms(9) [of "pc_OpenAIUpstreamURL cfg"] assms(9) [of "pc_AnthropicUpstreamURL cfg"]
    by (auto simp: is_ok_iff)
  then have hosts: "px_allowedUpstreamHosts p = [u_Host ua, u_Host uo, u_Host uc]"
    using assms(6-8) by (auto simp: NewMultiProviderProxy_def anthropic_upstream_def)
  have "\<exists>u. parse (rc_UpstreamURL rc) = Inr u \<and> u_Host u \<in> set (px_allowedUpstreamHosts p)"
    using rc(4) by (elim insertE emptyE) (simp_all add: parsed hosts)
  then obtain u where u: "parse (rc_UpstreamURL rc) = Inr u" and host: "u_Host u \<in> set (px_allowedUpstreamHosts p)"
    by blast
  have p: "px_resolver p = Some (Resolve (Some (\<lambda>j. GetCredential None ae j tab')) cfg)"
    using assms(6) by (auto simp: NewMultiProviderProxy_def Let_def split: sum.splits)
  have "proxy_handler parse prep p r = Forward (Rewrite p (Some (rc, u)) (prep r))"
    using assms(10,11) host \<open>cr_GroupJID cred \<noteq> []\<close>
    by (simp add: proxy_handler_def hostGuard_def credentialMiddleware_def Let_def p assms(12) res u)
  then show ?thesis
    using rc(2,3) by (simp add: Rewrite_def inject_auth_headers)
qed

theorem stored_credential_used_witness:
  "\<exists>out. proxy_handler demo_parse id (demo_proxy (demo_resolver demo_table)) (demo_req ''g'') = Forward out \<and>
     credential_headers (rq_Header out) = [Some [''Bearer sk-1''], None, None, None]"
proof -
  have auth: "own_auth demo_cred = [Some [''Bearer sk-1''], None, None, None]" "cr_Provider demo_cred = ProviderOpenAI"
    "cr_GroupJID demo_cred = ''g''"
    by (simp_all add: own_auth_def demo_cred_def ProviderAnthropic_def ProviderOpenAI_def)
  show ?thesis
    unfolding auth(1) [symmetric]
    by (rule stored_credential_used [OF demo_aead_ok order_refl demo_table_ok, where cfg = demo_pcfg])
       (simp_all add: auth demo_proxy_new, simp_all add: demo_pcfg_def demo_req_def demo_parse_def)
qed

end
