(* ===== verification/Cred_Models.thy ===== *)
theory Cred_Models
  imports Cred_Proxy Router_Model
begin

text \<open>
  \<open>internal/credproxy/models.go\<close>: the list of models a provider offers to a group, fetched
  with the credential the proxy would use, and the wiring of store, resolver and proxy in
  \<open>cmd/kraclaw/main.go\<close>. The HTTP client and the JSON decoder are parameters.
\<close>

definition codexClientVersion :: string where "codexClientVersion = ''0.0.0-kraclaw''"

record chat_model =
  cm_Slug :: string
  cm_DisplayName :: string
  cm_SupportedInAPI :: bool

record http_reply =
  hr_StatusCode :: nat
  hr_Status :: string
  hr_Body :: string

record model_env =
  me_Do :: "string \<Rightarrow> Header \<Rightarrow> http_reply result"
  me_decChat :: "string \<Rightarrow> chat_model list result"
  me_decData :: "string \<Rightarrow> string list result"

definition hasOpenAIModelFamilyPrefix :: "string \<Rightarrow> string \<Rightarrow> bool" where
  "hasOpenAIModelFamilyPrefix mid family \<longleftrightarrow>
     HasPrefix mid family \<and>
     (length mid = length family \<or> mid ! length family = CHR ''-'' \<or> mid ! length family = CHR ''_'')"

definition isUserSelectableOpenAIModel :: "string \<Rightarrow> bool" where
  "isUserSelectableOpenAIModel mid \<longleftrightarrow>
     mid \<noteq> [] \<and> (HasPrefix mid ''gpt-'' \<or> hasOpenAIModelFamilyPrefix mid ''o1'' \<or>
       hasOpenAIModelFamilyPrefix mid ''o3'' \<or> hasOpenAIModelFamilyPrefix mid ''o4'')"

definition display_part :: "string \<Rightarrow> string" where
  "display_part part =
     (if part = [] then part
      else if HasPrefix (ToLower part) ''gpt'' \<or> HasPrefix (ToLower part) ''o'' then ToUpper part
      else ToUpper (take 1 part) @ drop 1 part)"

definition displayNameFromModelID :: "string \<Rightarrow> string" where
  "displayNameFromModelID mid =
     Join (map display_part (FieldsFunc mid (\<lambda>r. r = CHR ''-'' \<or> r = CHR ''_''))) '' ''"

type_synonym model_map = "(string \<times> ModelInfo) list"

fun add_chat_models :: "chat_model list \<Rightarrow> model_map \<Rightarrow> model_map" where
  "add_chat_models [] m = m"
| "add_chat_models (item # items) m =
     (let mid = TrimSpace (cm_Slug item); name = TrimSpace (cm_DisplayName item)
      in if mid = [] \<or> \<not> cm_SupportedInAPI item \<or> \<not> isUserSelectableOpenAIModel mid then add_chat_models items m
         else add_chat_models items (AList.update mid
           \<lparr>mi_ID = mid, mi_DisplayName = (if name = [] then displayNameFromModelID mid else name)\<rparr> m))"

fun add_data_models :: "string list \<Rightarrow> model_map \<Rightarrow> model_map" where
  "add_data_models [] m = m"
| "add_data_models (i # items) m =
     (let mid = TrimSpace i
      in if \<not> isUserSelectableOpenAIModel mid then add_data_models items m
         else add_data_models items (AList.update mid \<lparr>mi_ID = mid, mi_DisplayName = displayNameFromModelID mid\<rparr> m))"

definition decodeOpenAIModels :: "model_env \<Rightarrow> string \<Rightarrow> AuthMode \<Rightarrow> model_map result" where
  "decodeOpenAIModels e body authMode =
     (if authMode = cred_AuthModeChatGPT
      then (case me_decChat e body of Inl err \<Rightarrow> Inl err | Inr items \<Rightarrow> Inr (add_chat_models items []))
      else (case me_decData e body of Inl err \<Rightarrow> Inl err | Inr items \<Rightarrow> Inr (add_data_models items [])))"

text \<open>\<open>sort.Slice\<close> by model id.\<close>

fun insert_model :: "ModelInfo \<Rightarrow> ModelInfo list \<Rightarrow> ModelInfo list" where
  "insert_model x [] = [x]"
| "insert_model x (y # ys) = (if str_le (mi_ID x) (mi_ID y) then x # y # ys else y # insert_model x ys)"

definition sort_models :: "ModelInfo list \<Rightarrow> ModelInfo list" where
  "sort_models ms = foldr insert_model ms []"

definition models_request :: "resolvedCredential \<Rightarrow> string \<times> Header" where
  "models_request cred =
     (let upstream = TrimRight (rc_UpstreamURL cred) ''/'';
          upstream = (if upstream = [] then ''https://api.openai.com'' else upstream);
          h = Header_Set ''Authorization'' (''Bearer '' @ rc_APIKey cred) Map.empty
      in if rc_AuthMode cred = cred_AuthModeChatGPT
         then (let h = Header_Set ''ChatGPT-Account-ID'' (rc_AccountID cred) (Header_Set ''version'' codexClientVersion h)
               in (upstream @ ''/models?client_version='' @ codexClientVersion,
                   if rc_IsFedRAMP cred then Header_Set ''X-OpenAI-Fedramp'' ''true'' h else h))
         else (upstream @ ''/v1/models'', h))"

definition listOpenAIModels :: "model_env \<Rightarrow> CredentialResolver \<Rightarrow> string \<Rightarrow> ModelInfo list result" where
  "listOpenAIModels e resolver groupJID =
     (case resolver groupJID ProviderOpenAI of
        Inl err \<Rightarrow> Inl err
      | Inr cred \<Rightarrow>
          if rc_Provider cred \<noteq> ProviderOpenAI
          then Inl (Errorf (''resolved provider '' @ Quote (rc_Provider cred) @ '', want '' @ Quote ProviderOpenAI))
          else (case me_Do e (fst (models_request cred)) (snd (models_request cred)) of
            Inl err \<Rightarrow> Inl err
          | Inr resp \<Rightarrow>
              if hr_StatusCode resp < 200 \<or> hr_StatusCode resp \<ge> 300
              then Inl (Errorf (''openai list models returned '' @ hr_Status resp))
              else (case decodeOpenAIModels e (hr_Body resp) (rc_AuthMode cred) of
                      Inl err \<Rightarrow> Inl err
                    | Inr modelsByID \<Rightarrow> Inr (sort_models (map snd modelsByID)))))"

definition ListModels :: "model_env \<Rightarrow> CredentialResolver option \<Rightarrow> string \<Rightarrow> string \<Rightarrow> ModelInfo list result" where
  "ListModels e resolver groupJID providerID =
     (case resolver of
        None \<Rightarrow> Inl (Errorf ''model lister not configured'')
      | Some res \<Rightarrow>
          if providerID = ProviderOpenAI then listOpenAIModels e res groupJID
          else Inl (Errorf (''dynamic model listing unsupported for provider '' @ Quote providerID)))"

section \<open>Wiring\<close>

text \<open>
  How \<open>main\<close> builds the credential store, the resolver and the proxy: the store's read, when
  there is a store, and the proxy. The process ends on an error.
\<close>

definition credential_setup :: "(string \<Rightarrow> URL result) \<Rightarrow> (string \<Rightarrow> aead result result) \<Rightarrow> string option \<Rightarrow>
    (aead \<Rightarrow> string \<Rightarrow> Credential option result) \<Rightarrow> ProxyConfig \<Rightarrow> Proxy result" where
  "credential_setup parse newCipher probe get cfg =
     (if pc_CredentialEncryptionKey cfg \<noteq> [] \<or> pc_OpenAIAPIKey cfg \<noteq> [] then
        if pc_CredentialEncryptionKey cfg \<noteq> [] then
          (case NewEncryptor newCipher (pc_CredentialEncryptionKey cfg) of
             Inl err \<Rightarrow> Inl err
           | Inr enc \<Rightarrow>
               (case NewCredentialStore True (Some enc) probe of
                  Inl err \<Rightarrow> Inl err
                | Inr ae \<Rightarrow> NewMultiProviderProxy parse cfg (Resolve (Some (get ae)) cfg)))
        else NewMultiProviderProxy parse cfg (Resolve None cfg)
      else Proxy_New parse cfg)"

section \<open>Properties\<close>

text \<open>
  A configuration that passes validation starts the proxy: with either provider's key, and
  with or without a credential store, neither the encryption key nor the choice of the
  proxy can fail at start-up, provided the upstream URL parses, the cipher takes a key of
  32 bytes and the database answers in UTC.
\<close>

theorem valid_config_starts_proxy:
  assumes "Config_Validate loc c = Inr ()" and "is_ok (parse (anthropic_upstream (cf_Proxy c)))"
    and "\<And>key. length key = 32 \<Longrightarrow> \<exists>gcm. newCipher key = Inr (Inr gcm)" and "probe \<in> {None, Some ''UTC''}"
  shows "is_ok (credential_setup parse newCipher probe get (cf_Proxy c))"
proof -
  have multi: "is_ok (NewMultiProviderProxy parse (cf_Proxy c) res)" for res
    using assms(2) by (auto simp: NewMultiProviderProxy_def is_ok_iff Let_def)
  show ?thesis
  proof (cases "pc_CredentialEncryptionKey (cf_Proxy c) = []")
    case True
    then have "pc_OpenAIAPIKey (cf_Proxy c) = []" "pc_AnthropicAPIKey (cf_Proxy c) \<noteq> []"
      using Config_Validate_ok [OF assms(1)] by blast+
    then show ?thesis
      using True assms(2) by (auto simp: credential_setup_def Proxy_New_def is_ok_iff)
  next
    case False
    then obtain key where "hex_decode (pc_CredentialEncryptionKey (cf_Proxy c)) = Some key" "length key = 32"
      using Config_Validate_ok(3) [OF assms(1)] by blast
    moreover from this obtain gcm where "newCipher key = Inr (Inr gcm)"
      using assms(3) [of key] by blast
    ultimately show ?thesis
      using False assms(4) multi
      by (auto simp: credential_setup_def NewEncryptor_def NewCredentialStore_def probeTimezone_def split: sum.splits)
  qed
qed

definition demo_config :: Config where
  "demo_config = \<lparr>cf_Server = \<lparr>sv_GRPCAddr = [], sv_RESTAddr = [], sv_GRPCInsecure = True, sv_GRPCTLSCertFile = [],
       sv_GRPCTLSKeyFile = [], sv_GRPCTLSClientCAFile = [], sv_GRPCAllowedCIDRs = ''10.0.0.0/8'', sv_GRPCReflectionEnabled = False\<rparr>,
     cf_K8s = \<lparr>k8_Namespace = [], k8_AgentImageAnthropic = ''img'', k8_AgentImageOpenAI = [], k8_InCluster = True, k8_SessionsPVC = [],
       k8_GroupsPVC = [], k8_DataPVC = [], k8_SandboxStartupTimeout = 0, k8_SandboxProxyURL = [], k8_FastStartEnabled = True\<rparr>,
     cf_Proxy = demo_pcfg,
     cf_Queue = \<lparr>qc_MaxConcurrent = 5, qc_IdleTimeout = 0, qc_TaskCloseDelay = 0, qc_MaxRetries = 5, qc_RetryBaseDelay = 0,
       qc_RateLimitTokensPerSec = 10, qc_MaxMessageSizeBytes = 32768, qc_MessageLimit = 500\<rparr>,
     cf_Channels = \<lparr>cc_AssistantName = ''Kraclaw'', cc_Timezone = ''UTC'', cc_DiscordToken = [], cc_TelegramToken = []\<rparr>\<rparr>"

theorem valid_config_starts_proxy_witness:
  "is_ok (credential_setup demo_parse (\<lambda>_. Inr (Inr demo_aead)) None (\<lambda>ae j. GetCredential None ae j Map.empty) (cf_Proxy demo_config))"
  by (rule valid_config_starts_proxy [where loc = "\<lambda>_. Inr ()"])
     (simp_all add: Config_Validate_def demo_config_def demo_pcfg_def demo_parse_def)

lemma str_le_linear: "str_le x y \<or> str_le y x"
  by (induction x y rule: str_le.induct) auto

lemma str_le_trans: "str_le x y \<Longrightarrow> str_le y z \<Longrightarrow> str_le x z"
proof (induction x y arbitrary: z rule: str_le.induct)
  case (3 x xs y ys)
  then show ?case by (cases z) auto
qed auto

abbreviation model_sorted :: "ModelInfo list \<Rightarrow> bool" where
  "model_sorted \<equiv> sorted_wrt (\<lambda>a b. str_le (mi_ID a) (mi_ID b))"

lemma set_insert_model [simp]: "set (insert_model x ms) = insert x (set ms)"
  by (induction ms) auto

lemma insert_model_sorted: "model_sorted ms \<Longrightarrow> model_sorted (insert_model x ms)"
proof (induction ms)
  case (Cons y ys)
  then show ?case
    using str_le_linear [of "mi_ID x" "mi_ID y"] by (auto intro: str_le_trans)
qed simp

lemma sort_models_sorted: "model_sorted (sort_models ms)"
  by (induction ms) (simp_all add: sort_models_def insert_model_sorted)

lemma mset_insert_model: "mset (insert_model x ms) = add_mset x (mset ms)"
  by (induction ms) auto

lemma mset_sort_models [simp]: "mset (sort_models ms) = mset ms"
  by (induction ms) (simp_all add: sort_models_def mset_insert_model)

text \<open>A map of models: every key is the id of its model, selectable, and has one entry.\<close>

definition models_ok :: "model_map \<Rightarrow> bool" where
  "models_ok m \<longleftrightarrow> distinct (map fst m) \<and> (\<forall>k v. map_of m k = Some v \<longrightarrow> mi_ID v = k \<and> isUserSelectableOpenAIModel k)"

lemma models_ok_update:
  "models_ok m \<Longrightarrow> isUserSelectableOpenAIModel (mi_ID v) \<Longrightarrow> models_ok (AList.update (mi_ID v) v m)"
  by (auto simp: models_ok_def distinct_update update_conv' split: if_splits)

lemma add_chat_models_ok: "models_ok m \<Longrightarrow> models_ok (add_chat_models items m)"
proof (induction items m rule: add_chat_models.induct)
  case (2 item items m)
  then show ?case
    using models_ok_update [of m "\<lparr>mi_ID = TrimSpace (cm_Slug item), mi_DisplayName = _\<rparr>"] by (auto simp: Let_def)
qed simp

lemma add_data_models_ok: "models_ok m \<Longrightarrow> models_ok (add_data_models items m)"
proof (induction items m rule: add_data_models.induct)
  case (2 i items m)
  then show ?case
    using models_ok_update [of m "\<lparr>mi_ID = TrimSpace i, mi_DisplayName = _\<rparr>"] by (auto simp: Let_def)
qed simp

lemma models_ok_ids: "models_ok m \<Longrightarrow> map mi_ID (map snd m) = map fst m"
  by (auto simp: models_ok_def)

lemma decodeOpenAIModels_ok:
  assumes "decodeOpenAIModels e body mode = Inr m"
  shows "models_ok m"
proof -
  have "models_ok []"
    by (simp add: models_ok_def)
  then show ?thesis
    using assms by (auto simp: decodeOpenAIModels_def add_chat_models_ok add_data_models_ok split: if_splits sum.splits)
qed

text \<open>
  The models offered for a group come in the order of their ids, each once, and only models
  a user may select, whatever the provider's answer lists.
\<close>

theorem ListModels_sorted:
  assumes "ListModels e resolver groupJID providerID = Inr ms"
  shows "sorted_wrt (\<lambda>a b. str_le (mi_ID a) (mi_ID b)) ms \<and> distinct (map mi_ID ms) \<and>
    (\<forall>m \<in> set ms. isUserSelectableOpenAIModel (mi_ID m))"
proof -
  obtain m where m: "models_ok m" "ms = sort_models (map snd m)"
    using assms by (auto simp: ListModels_def listOpenAIModels_def dest: decodeOpenAIModels_ok split: option.splits if_splits sum.splits)
  have ids: "mset (map mi_ID ms) = mset (map fst m)"
    by (simp only: mset_map m(2) mset_sort_models) (simp only: models_ok_ids [OF m(1)] flip: mset_map)
  then have "distinct (map mi_ID ms)"
    using m(1) by (metis models_ok_def mset_eq_imp_distinct_iff)
  moreover have "isUserSelectableOpenAIModel k" if "k \<in> set (map fst m)" for k
    using m(1) that by (auto simp: models_ok_def)
  moreover have "set (map mi_ID ms) = set (map fst m)"
    using ids by (rule mset_eq_setD)
  ultimately show ?thesis
    using sort_models_sorted [of "map snd m"] unfolding m(2) set_map by blast
qed

definition demo_model_env :: model_env where
  "demo_model_env = \<lparr>me_Do = (\<lambda>url h. Inr \<lparr>hr_StatusCode = 200, hr_Status = ''200 OK'', hr_Body = []\<rparr>),
     me_decChat = (\<lambda>_. Inr []), me_decData = (\<lambda>_. Inr [''o1'', ''gpt-4'', ''whisper'', ''o1''])\<rparr>"

theorem ListModels_sorted_witness:
  "\<exists>ms. ListModels demo_model_env (Some (\<lambda>_ _. Inr (key_credential ProviderOpenAI ''k'' []))) ''g'' ProviderOpenAI = Inr ms \<and>
     distinct (map mi_ID ms)"
proof -
  obtain ms where "ListModels demo_model_env (Some (\<lambda>_ _. Inr (key_credential ProviderOpenAI ''k'' []))) ''g'' ProviderOpenAI = Inr ms"
    by (simp add: ListModels_def listOpenAIModels_def decodeOpenAIModels_def demo_model_env_def key_credential_def)
  then show ?thesis
    using ListModels_sorted by blast
qed

end
