(* ===== verification/Api_Services.thy ===== *)
theory Api_Services
  imports Api_Channel Event_Hub Cred_Models
begin

text \<open>
  \<open>internal/server/api_services.go\<close>: the RPCs for groups, tasks, sandboxes and the status of the
  server, on the MySQL store, the sandbox controller and the IPC broker. A dependency that
  is not configured is \<open>None\<close>. The answers of the driver to the statements of an RPC are the
  function \<open>f\<close>, by the number of the statement.
\<close>

section \<open>Conversions\<close>

definition toProtoTimestamp :: "time \<Rightarrow> time option" where
  "toProtoTimestamp t = (if IsZero t then None else Some t)"

definition toProtoTimestampPtr :: "time option \<Rightarrow> time option" where
  "toProtoTimestampPtr t = (case t of None \<Rightarrow> None | Some t \<Rightarrow> if IsZero t then None else Some t)"

definition stringPtrValue :: "string option \<Rightarrow> string" where
  "stringPtrValue v = (case v of None \<Rightarrow> [] | Some s \<Rightarrow> s)"

fun ScheduleType_string :: "ScheduleType \<Rightarrow> string" where
  "ScheduleType_string ScheduleCron = ''cron''"
| "ScheduleType_string ScheduleInterval = ''interval''"
| "ScheduleType_string ScheduleOnce = ''once''"
| "ScheduleType_string (OtherSchedule s) = s"

fun ContextMode_string :: "ContextMode \<Rightarrow> string" where
  "ContextMode_string ContextGroup = ''group''"
| "ContextMode_string ContextIsolated = ''isolated''"
| "ContextMode_string (OtherContext s) = s"

fun TaskStatus_string :: "TaskStatus \<Rightarrow> string" where
  "TaskStatus_string TaskActive = ''active''"
| "TaskStatus_string TaskPaused = ''paused''"
| "TaskStatus_string TaskCompleted = ''completed''"
| "TaskStatus_string (OtherStatus s) = s"

section \<open>Groups\<close>

record GroupProto =
  gp_Jid :: string
  gp_Name :: string
  gp_Folder :: string
  gp_TriggerPattern :: string
  gp_IsMain :: bool
  gp_RequiresTrigger :: bool
  gp_AddedAt :: "time option"

definition group_proto :: "Group \<Rightarrow> time \<Rightarrow> GroupProto" where
  "group_proto g addedAt = \<lparr>gp_Jid = g_JID g, gp_Name = g_Name g, gp_Folder = g_Folder g, gp_TriggerPattern = g_TriggerPattern g,
     gp_IsMain = g_IsMain g, gp_RequiresTrigger = g_RequiresTrigger g, gp_AddedAt = toProtoTimestamp addedAt\<rparr>"

definition api_ListGroups :: "(nat \<Rightarrow> fault) \<Rightarrow> db option \<Rightarrow> GroupProto list rpc" where
  "api_ListGroups f store =
     (case store of
        None \<Rightarrow> Inl (Status Unavailable ''group store not configured'')
      | Some d \<Rightarrow>
          (case ListGroups (f 0) d of
             Inl err \<Rightarrow> Inl (Status Internal (''list groups: '' @ error_text err))
           | Inr groups \<Rightarrow> Inr (map (\<lambda>g. group_proto g (g_AddedAt g)) groups)))"

text \<open>The lister of the models a group may use, when one is configured.\<close>

type_synonym lister = "(string \<Rightarrow> string \<Rightarrow> ModelInfo list result) option"

definition modelListContains :: "ModelInfo list \<Rightarrow> string \<Rightarrow> bool" where
  "modelListContains models i = list_ex (\<lambda>m. mi_ID m = i) models"

definition validateModel :: "ProviderRegistry \<Rightarrow> lister \<Rightarrow> string \<Rightarrow> string \<Rightarrow> string \<Rightarrow> unit result" where
  "validateModel reg models groupJID providerID model =
     (if model = [] \<or> providerID \<noteq> ProviderOpenAI then ValidateModel reg providerID model
      else case models of
        None \<Rightarrow> ValidateModel reg providerID model
      | Some listModels \<Rightarrow>
          (case listModels groupJID providerID of
             Inl err \<Rightarrow> ValidateModel reg providerID model
           | Inr ms \<Rightarrow>
               if modelListContains ms model then Inr ()
               else Inl (Errorf (''model '' @ Quote model @ '' is not valid for provider '' @ Quote providerID))))"

text \<open>\<open>store.ParseContainerConfig\<close>, over the JSON decoder.\<close>

definition ParseContainerConfig :: "(string \<Rightarrow> ContainerConfig result) \<Rightarrow> string \<Rightarrow> ContainerConfig option result" where
  "ParseContainerConfig decode data =
     (if data = [] then Inr None else case decode data of Inl err \<Rightarrow> Inl err | Inr cc \<Rightarrow> Inr (Some cc))"

record RegisterGroupRequest =
  rg_Jid :: string
  rg_Name :: string
  rg_Folder :: string
  rg_TriggerPattern :: string
  rg_IsMain :: bool
  rg_RequiresTrigger :: bool
  rg_ContainerConfigJson :: string

definition requested_group :: "RegisterGroupRequest \<Rightarrow> Group" where
  "requested_group req = \<lparr>g_JID = rg_Jid req, g_Name = rg_Name req, g_Folder = rg_Folder req, g_TriggerPattern = rg_TriggerPattern req,
     g_AddedAt = 0, g_ContainerConfig = None, g_RequiresTrigger = rg_RequiresTrigger req, g_IsMain = rg_IsMain req\<rparr>"

definition store_group :: "(nat \<Rightarrow> fault) \<Rightarrow> Group \<Rightarrow> db \<Rightarrow> GroupProto rpc \<times> db option" where
  "store_group f g d =
     (case UpsertGroup (f 0) g d of
        (Inl err, d) \<Rightarrow> (Inl (Status Internal ''failed to register group''), Some d)
      | (Inr _, d) \<Rightarrow>
          (case GetGroup (f 1) (g_JID g) d of
             Inl err \<Rightarrow> (Inl (Status Internal (''retrieve group: '' @ error_text err)), Some d)
           | Inr None \<Rightarrow> (Inr (group_proto g (g_AddedAt g)), Some d)
           | Inr (Some stored) \<Rightarrow> (Inr (group_proto g (g_AddedAt stored)), Some d)))"

definition RegisterGroup :: "(nat \<Rightarrow> fault) \<Rightarrow> (string \<Rightarrow> ContainerConfig result) \<Rightarrow> ProviderRegistry \<Rightarrow> lister \<Rightarrow>
    RegisterGroupRequest \<Rightarrow> db option \<Rightarrow> GroupProto rpc \<times> db option" where
  "RegisterGroup f decode reg models req store =
     (case store of
        None \<Rightarrow> (Inl (Status Unavailable ''group store not configured''), store)
      | Some d \<Rightarrow>
          if rg_Jid req = [] then (Inl (Status InvalidArgument ''jid is required''), store)
          else if rg_Folder req = [] then (Inl (Status InvalidArgument ''folder is required''), store)
          else case Group_Validate (requested_group req) of
            Inl err \<Rightarrow> (Inl (Status InvalidArgument (''invalid group: '' @ error_text err)), store)
          | Inr _ \<Rightarrow>
              (case ParseContainerConfig decode (rg_ContainerConfigJson req) of
                 Inl err \<Rightarrow> (Inl (Status InvalidArgument (''invalid container config: '' @ error_text err)), store)
               | Inr cc \<Rightarrow>
                   (let g = (requested_group req)\<lparr>g_ContainerConfig := cc\<rparr>
                    in case (case cc of
                               None \<Rightarrow> Inr ()
                             | Some c \<Rightarrow> if cc_Provider c = [] then Inr ()
                                 else validateModel reg models (g_JID g) (cc_Provider c) (cc_Model c)) of
                         Inl err \<Rightarrow> (Inl (Status InvalidArgument (''invalid provider/model: '' @ error_text err)), store)
                       | Inr _ \<Rightarrow> store_group f g d)))"

section \<open>Providers\<close>

definition provider_proto :: "lister \<Rightarrow> string \<Rightarrow> ProviderInfo \<Rightarrow> ProviderInfo" where
  "provider_proto models groupJid p =
     (case models of
        None \<Rightarrow> p
      | Some listModels \<Rightarrow>
          if groupJid \<noteq> [] \<and> pi_ID p = ProviderOpenAI then
            (case listModels groupJid (pi_ID p) of
               Inr (m # ms) \<Rightarrow> p\<lparr>pi_Models := m # ms,
                 pi_DefaultModel := (if modelListContains (m # ms) (pi_DefaultModel p) then pi_DefaultModel p else mi_ID m)\<rparr>
             | _ \<Rightarrow> p)
          else p)"

text \<open>\<open>ids\<close> is \<open>Providers()\<close>, the keys of the registry in some order; \<open>ctxErr\<close> the state of the context.\<close>

definition ListProviders :: "goerr option \<Rightarrow> ProviderRegistry option \<Rightarrow> (string list \<Rightarrow> string list) \<Rightarrow> lister \<Rightarrow> string \<Rightarrow> ProviderInfo list rpc" where
  "ListProviders ctxErr reg rng models groupJid =
     (case ctxErr of
        Some err \<Rightarrow> Inl (CtxStatus err)
      | None \<Rightarrow>
          (case reg of
             None \<Rightarrow> Inl (Status Unavailable ''provider registry not configured'')
           | Some r \<Rightarrow> Inr (map (provider_proto models groupJid) (List.map_filter (Provider_Get r) (rng (map fst r))))))"

section \<open>Tasks\<close>

record TaskProto =
  tp_Id :: string
  tp_GroupFolder :: string
  tp_ChatJid :: string
  tp_Prompt :: string
  tp_ScheduleType :: string
  tp_ScheduleValue :: string
  tp_ContextMode :: string
  tp_NextRun :: "time option"
  tp_LastRun :: "time option"
  tp_LastResult :: string
  tp_Status :: string
  tp_CreatedAt :: "time option"

definition taskToProto :: "ScheduledTask \<Rightarrow> TaskProto" where
  "taskToProto t =
     \<lparr>tp_Id = t_ID t, tp_GroupFolder = t_GroupFolder t, tp_ChatJid = t_ChatJID t, tp_Prompt = t_Prompt t,
      tp_ScheduleType = ScheduleType_string (t_ScheduleType t), tp_ScheduleValue = t_ScheduleValue t,
      tp_ContextMode = ContextMode_string (t_ContextMode t), tp_NextRun = toProtoTimestampPtr (t_NextRun t),
      tp_LastRun = toProtoTimestampPtr (t_LastRun t), tp_LastResult = stringPtrValue (t_LastResult t),
      tp_Status = TaskStatus_string (t_Status t), tp_CreatedAt = toProtoTimestamp (t_CreatedAt t)\<rparr>"

definition api_ListTasks :: "(nat \<Rightarrow> fault) \<Rightarrow> string \<Rightarrow> db option \<Rightarrow> TaskProto list rpc" where
  "api_ListTasks f groupFolder store =
     (case store of
        None \<Rightarrow> Inl (Status Unavailable ''task store not configured'')
      | Some d \<Rightarrow>
          (case (if groupFolder \<noteq> [] then ListTasksByGroup (f 0) groupFolder d else ListTasks (f 0) d) of
             Inl err \<Rightarrow> Inl (Status Internal (''list tasks: '' @ error_text err))
           | Inr tasks \<Rightarrow> Inr (map taskToProto tasks)))"

record TaskRequest =
  tr_Id :: string
  tr_GroupFolder :: string
  tr_ChatJid :: string
  tr_Prompt :: string
  tr_ScheduleType :: string
  tr_ScheduleValue :: string
  tr_ContextMode :: string

text \<open>\<open>uuid\<close> and \<open>now\<close> are the new identifier and the clock.\<close>

definition api_CreateTask :: "(nat \<Rightarrow> fault) \<Rightarrow> sched_lib \<Rightarrow> string \<Rightarrow> time \<Rightarrow> TaskRequest \<Rightarrow> db option \<Rightarrow> TaskProto rpc \<times> db option" where
  "api_CreateTask f lib uuid now req store =
     (case store of
        None \<Rightarrow> (Inl (Status Unavailable ''task store not configured''), store)
      | Some d \<Rightarrow>
          if tr_GroupFolder req = [] then (Inl (Status InvalidArgument ''group_folder is required''), store)
          else
            (let task = \<lparr>t_ID = uuid, t_GroupFolder = tr_GroupFolder req, t_ChatJID = tr_ChatJid req, t_Prompt = tr_Prompt req,
                   t_ScheduleType = ScheduleType_of (tr_ScheduleType req), t_ScheduleValue = tr_ScheduleValue req,
                   t_ContextMode = ContextMode_of (tr_ContextMode req), t_NextRun = None, t_LastRun = None, t_LastResult = None,
                   t_Status = TaskActive, t_CreatedAt = now\<rparr>
             in case ScheduledTask_Validate lib task of
                  Inl err \<Rightarrow> (Inl (Status InvalidArgument (''invalid task: '' @ error_text err)), store)
                | Inr _ \<Rightarrow>
                    (case CreateTask (f 0) task d of
                       (Inl err, d) \<Rightarrow> (Inl (Status Internal (''create task: '' @ error_text err)), Some d)
                     | (Inr _, d) \<Rightarrow> (Inr (taskToProto task), Some d))))"

definition apply_request :: "TaskRequest \<Rightarrow> ScheduledTask \<Rightarrow> ScheduledTask" where
  "apply_request req t =
     (let t = (if tr_Prompt req \<noteq> [] then t\<lparr>t_Prompt := tr_Prompt req\<rparr> else t);
          t = (if tr_ScheduleType req \<noteq> [] then t\<lparr>t_ScheduleType := ScheduleType_of (tr_ScheduleType req)\<rparr> else t);
          t = (if tr_ScheduleValue req \<noteq> [] then t\<lparr>t_ScheduleValue := tr_ScheduleValue req\<rparr> else t)
      in if tr_ContextMode req \<noteq> [] then t\<lparr>t_ContextMode := ContextMode_of (tr_ContextMode req)\<rparr> else t)"

definition api_UpdateTask :: "(nat \<Rightarrow> fault) \<Rightarrow> sched_lib \<Rightarrow> TaskRequest \<Rightarrow> db option \<Rightarrow> TaskProto rpc \<times> db option" where
  "api_UpdateTask f lib req store =
     (case store of
        None \<Rightarrow> (Inl (Status Unavailable ''task store not configured''), store)
      | Some d \<Rightarrow>
          if tr_Id req = [] then (Inl (Status InvalidArgument ''task id is required''), store)
          else if tr_GroupFolder req = [] then (Inl (Status InvalidArgument ''group_folder is required''), store)
          else case GetTask (f 0) (tr_Id req) (tr_GroupFolder req) d of
            Inl err \<Rightarrow> (Inl (Status Internal (''get task: '' @ error_text err)), store)
          | Inr None \<Rightarrow> (Inl (Status NotFound ''task not found''), store)
          | Inr (Some existing) \<Rightarrow>
              if t_GroupFolder existing \<noteq> tr_GroupFolder req then (Inl (Status NotFound ''task not found in group''), store)
              else
                (let existing = apply_request req existing
                 in case ScheduledTask_Validate lib existing of
                      Inl err \<Rightarrow> (Inl (Status InvalidArgument (''invalid task: '' @ error_text err)), store)
                    | Inr _ \<Rightarrow>
                        (case UpdateTask (f 1) existing d of
                           (Inl err, d) \<Rightarrow> (Inl (Status Internal (''update task: '' @ error_text err)), Some d)
                         | (Inr _, d) \<Rightarrow> (Inr (taskToProto existing), Some d))))"

section \<open>Sandboxes\<close>

record SandboxProto =
  xp_Name :: string
  xp_GroupFolder :: string
  xp_GroupJid :: string
  xp_State :: string
  xp_StartTime :: "time option"
  xp_EndTime :: "time option"
  xp_SessionId :: string

definition sandbox_proto :: "SandboxStatus \<Rightarrow> string \<Rightarrow> string \<Rightarrow> SandboxProto" where
  "sandbox_proto sb groupJID sessionID =
     \<lparr>xp_Name = st_Name sb, xp_GroupFolder = st_Group sb, xp_GroupJid = groupJID, xp_State = state_name (st_State sb),
      xp_StartTime = toProtoTimestampPtr (st_StartTime sb), xp_EndTime = toProtoTimestampPtr (st_EndTime sb), xp_SessionId = sessionID\<rparr>"

text \<open>The two lookups for the sandbox with the given number; their failures leave the field empty.\<close>

definition sandbox_row :: "(nat \<Rightarrow> fault) \<Rightarrow> db option \<Rightarrow> nat \<times> SandboxStatus \<Rightarrow> SandboxProto" where
  "sandbox_row f store nsb =
     (case nsb of (n, sb) \<Rightarrow>
        (case store of
           None \<Rightarrow> sandbox_proto sb [] []
         | Some d \<Rightarrow>
             sandbox_proto sb
               (case GetGroupByFolder (f (2 * n)) (st_Group sb) d of Inr (Some g) \<Rightarrow> g_JID g | _ \<Rightarrow> [])
               (case GetSession (f (2 * n + 1)) (st_Group sb) d of Inr (Some s) \<Rightarrow> s_SessionID s | _ \<Rightarrow> [])))"

definition api_ListSandboxes :: "(nat \<Rightarrow> fault) \<Rightarrow> 'k kube option \<Rightarrow> db option \<Rightarrow> 'k \<Rightarrow> SandboxProto list rpc \<times> 'k" where
  "api_ListSandboxes f sandbox store k =
     (case sandbox of
        None \<Rightarrow> (Inr [], k)
      | Some kb \<Rightarrow>
          (case ListSandboxes kb k of
             (Inl err, k) \<Rightarrow> (Inl (Status Internal (''list sandboxes: '' @ error_text err)), k)
           | (Inr sandboxes, k) \<Rightarrow> (Inr (map (sandbox_row f store) (enumerate 0 sandboxes)), k)))"

record 'x ipc_broker =
  ib_js :: "'x jetstream"
  ib_sha :: sha256
  ib_enc :: marshal
  ib_text :: "string \<Rightarrow> string result"

definition pipe_message :: "string \<Rightarrow> string \<Rightarrow> IPCMessage" where
  "pipe_message grp payload = \<lparr>ipc_Group = grp, ipc_AgentID = [], ipc_Type = IPCMessageText, ipc_Payload = payload, ipc_ID = []\<rparr>"

record CreateSandboxRequest =
  cs_GroupFolder :: string
  cs_GroupJid :: string
  cs_SessionId :: string
  cs_IsMain :: bool
  cs_AssistantName :: string
  cs_Timeout :: "duration option"
  cs_Prompt :: string

definition api_CreateSandbox :: "('k kube \<times> Controller) option \<Rightarrow> nat list result \<Rightarrow> (nat \<Rightarrow> bool) \<Rightarrow> 'x ipc_broker option \<Rightarrow>
    CreateSandboxRequest \<Rightarrow> 'k \<times> 'x broker \<Rightarrow> SandboxProto rpc \<times> 'k \<times> 'x broker" where
  "api_CreateSandbox sandbox rnd cancelled ipc req kb =
     (case (sandbox, kb) of
        (None, _) \<Rightarrow> (Inl (Status Unavailable ''sandbox controller not configured''), kb)
      | (Some (kube, ctl), k, b) \<Rightarrow>
          (let cfg = \<lparr>sb_GroupFolder = cs_GroupFolder req, sb_GroupJID = cs_GroupJid req, sb_SessionID = cs_SessionId req,
                 sb_IsMain = cs_IsMain req, sb_Timeout = (case cs_Timeout req of None \<Rightarrow> 0 | Some d \<Rightarrow> d), sb_Input = [],
                 sb_AssistantName = cs_AssistantName req, sb_Model = [], sb_SessionsPVC = [], sb_GroupsPVC = [], sb_DataPVC = [],
                 sb_ContainerConfig = None\<rparr>
           in case CreateSandbox kube ctl rnd cancelled cfg k of
                (Inl err, k) \<Rightarrow> (Inl (Status Internal (''create sandbox: '' @ error_text err)), k, b)
              | (Inr sb, k) \<Rightarrow>
                  (let resp = sandbox_proto sb (cs_GroupJid req) (cs_SessionId req)
                   in case ipc of
                        None \<Rightarrow> (Inr resp, k, b)
                      | Some i \<Rightarrow>
                          if cs_Prompt req = [] then (Inr resp, k, b)
                          else case ib_text i (cs_Prompt req) of
                            Inl err \<Rightarrow> (Inl (Status Internal (''marshal prompt: '' @ error_text err)), k, b)
                          | Inr payload \<Rightarrow>
                              (case run_state (SendInput (ib_js i) (ib_sha i) (ib_enc i) (cs_GroupFolder req) DefaultAgentID
                                      (pipe_message (cs_GroupFolder req) payload)) b of
                                 (_, b) \<Rightarrow> (Inr resp, k, b)))))"

definition PipeSandboxInput :: "'x ipc_broker option \<Rightarrow> string \<Rightarrow> string \<Rightarrow> 'x broker \<Rightarrow> unit rpc \<times> 'x broker" where
  "PipeSandboxInput ipc groupFolder txt b =
     (case ipc of
        None \<Rightarrow> (Inl (Status Unavailable ''IPC broker not configured''), b)
      | Some i \<Rightarrow>
          if txt = [] then (Inl (Status InvalidArgument ''text is required''), b)
          else case ib_text i txt of
            Inl err \<Rightarrow> (Inl (Status Internal (''marshal text: '' @ error_text err)), b)
          | Inr payload \<Rightarrow>
              (case run_state (SendInput (ib_js i) (ib_sha i) (ib_enc i) groupFolder DefaultAgentID (pipe_message groupFolder payload)) b of
                 (Inl err, b) \<Rightarrow> (Inl (Status Internal (''send input: '' @ error_text err)), b)
               | (Inr _, b) \<Rightarrow> (Inr (), b)))"

text \<open>
  The turns of \<open>StreamSandboxOutput\<close>: the client's context ends, the error channel is read (it
  is closed after the broker's goroutine has ended, then the read gives no error), a message
  is read and sent to the client, or the output channel is closed.
\<close>

record SandboxOutput =
  so_Type :: string
  so_Content :: string
  so_NewSessionId :: string

fun IPCMessageType_string :: "IPCMessageType \<Rightarrow> string" where
  "IPCMessageType_string IPCMessageText = ''message''"
| "IPCMessageType_string IPCSessionUpdate = ''session_update''"
| "IPCMessageType_string IPCTaskCreate = ''task_create''"
| "IPCMessageType_string IPCTaskUpdate = ''task_update''"
| "IPCMessageType_string IPCTaskDelete = ''task_delete''"
| "IPCMessageType_string IPCSetModel = ''set_model''"
| "IPCMessageType_string IPCShutdown = ''shutdown''"
| "IPCMessageType_string (OtherIPC s) = s"

definition output_proto :: "(string \<Rightarrow> string result) \<Rightarrow> IPCMessage \<Rightarrow> SandboxOutput" where
  "output_proto unmarshal m =
     (let out = \<lparr>so_Type = IPCMessageType_string (ipc_Type m), so_Content = [], so_NewSessionId = []\<rparr>
      in case ipc_Type m of
           IPCMessageText \<Rightarrow> out\<lparr>so_Content := (case unmarshal (ipc_Payload m) of Inl _ \<Rightarrow> ipc_Payload m | Inr t \<Rightarrow> t)\<rparr>
         | IPCSessionUpdate \<Rightarrow> (case unmarshal (ipc_Payload m) of Inl _ \<Rightarrow> out | Inr s \<Rightarrow> out\<lparr>so_NewSessionId := s\<rparr>)
         | _ \<Rightarrow> out\<lparr>so_Content := ipc_Payload m\<rparr>)"

datatype output_turn = OutputDone | OutputErr "goerr option" | OutputMsg IPCMessage "goerr option" | OutputClosed

fun output_loop :: "(string \<Rightarrow> string result) \<Rightarrow> output_turn list \<Rightarrow> SandboxOutput list \<Rightarrow> unit rpc option \<times> SandboxOutput list" where
  "output_loop u [] sent = (None, sent)"
| "output_loop u (OutputDone # ts) sent = (Some (Inr ()), sent)"
| "output_loop u (OutputErr None # ts) sent = output_loop u ts sent"
| "output_loop u (OutputErr (Some err) # ts) sent = (Some (Inl (Status Internal (''ipc output stream: '' @ error_text err))), sent)"
| "output_loop u (OutputClosed # ts) sent = (Some (Inr ()), sent)"
| "output_loop u (OutputMsg m f # ts) sent =
     (case f of
        Some err \<Rightarrow> (Some (Inl (StreamErr err)), sent)
      | None \<Rightarrow> output_loop u ts (sent @ [output_proto u m]))"

definition StreamSandboxOutput :: "(string \<Rightarrow> string result) \<Rightarrow> unit result option \<Rightarrow> output_turn list \<Rightarrow> unit rpc option \<times> SandboxOutput list" where
  "StreamSandboxOutput unmarshal subscribed turns =
     (case subscribed of
        None \<Rightarrow> (Some (Inl (Status Unavailable ''IPC broker not configured'')), [])
      | Some (Inl err) \<Rightarrow> (Some (Inl (Status Internal (''subscribe output: '' @ error_text err))), [])
      | Some (Inr _) \<Rightarrow> output_loop unmarshal turns [])"

section \<open>Status and metrics\<close>

datatype metric_type = Counter | Gauge | Untyped | OtherMetric

record MetricFamily =
  mf_Name :: string
  mf_Type :: metric_type
  mf_Values :: "rat list"

definition metricFamilyValue :: "MetricFamily \<Rightarrow> rat" where
  "metricFamilyValue fam = (if mf_Type fam = OtherMetric then 0 else sum_list (mf_Values fam))"

definition metricValue :: "MetricFamily list result \<Rightarrow> string \<Rightarrow> rat" where
  "metricValue gathered name =
     (case gathered of
        Inl err \<Rightarrow> 0
      | Inr families \<Rightarrow> (case find (\<lambda>fam. mf_Name fam = name) families of None \<Rightarrow> 0 | Some fam \<Rightarrow> metricFamilyValue fam))"

text \<open>\<open>math.Round\<close>: half away from zero.\<close>

definition go_Round :: "rat \<Rightarrow> int" where
  "go_Round x = (if 0 \<le> x then \<lfloor>x + 1 / 2\<rfloor> else \<lceil>x - 1 / 2\<rceil>)"

record Metrics =
  mx_TotalMessagesReceived :: int
  mx_TotalMessagesSent :: int
  mx_TotalSandboxesCreated :: int
  mx_TotalTasksExecuted :: int
  mx_ProxyRequests :: int

definition GetMetrics :: "MetricFamily list result \<Rightarrow> Metrics rpc" where
  "GetMetrics g = Inr
     \<lparr>mx_TotalMessagesReceived = go_Round (metricValue g ''kraclaw_messages_received_total''),
      mx_TotalMessagesSent = go_Round (metricValue g ''kraclaw_messages_sent_total''),
      mx_TotalSandboxesCreated = go_Round (metricValue g ''kraclaw_sandboxes_created_total''),
      mx_TotalTasksExecuted = go_Round (metricValue g ''kraclaw_tasks_executed_total''),
      mx_ProxyRequests = go_Round (metricValue g ''kraclaw_proxy_requests_total'')\<rparr>"

definition pingMySQL :: "fault option \<Rightarrow> bool" where
  "pingMySQL ping = (ping = Some None)"

definition pingKubernetes :: "fault option \<Rightarrow> bool" where
  "pingKubernetes version = (version = Some None)"

record ServerStatus =
  ss_Version :: string
  ss_ActiveSandboxes :: nat
  ss_ConnectedChannels :: nat
  ss_PendingMessages :: int
  ss_ActiveTasks :: nat
  ss_UptimeSince :: time
  ss_MysqlConnected :: bool
  ss_RedisConnected :: bool
  ss_K8SConnected :: bool

definition active_state :: "SandboxStatus \<Rightarrow> bool" where
  "active_state sb \<longleftrightarrow> st_State sb = StatePending \<or> st_State sb = StateRunning"

definition GetStatus :: "string \<Rightarrow> time \<Rightarrow> fault option \<Rightarrow> fault option \<Rightarrow> 'k kube option \<Rightarrow> fault \<Rightarrow> db option \<Rightarrow> bool list \<Rightarrow>
    MetricFamily list result \<Rightarrow> 'k \<Rightarrow> ServerStatus rpc \<times> 'k" where
  "GetStatus version startedAt ping kver sandbox f store channels gathered k =
     (case (case sandbox of None \<Rightarrow> (Inr [], k) | Some kb \<Rightarrow> ListSandboxes kb k) of
        (sandboxes, k) \<Rightarrow>
          (Inr \<lparr>ss_Version = version,
             ss_ActiveSandboxes = (case sandboxes of Inl _ \<Rightarrow> 0 | Inr sbs \<Rightarrow> length (filter active_state sbs)),
             ss_ConnectedChannels = length (filter id channels),
             ss_PendingMessages = go_Round (metricValue gathered ''kraclaw_queue_depth''),
             ss_ActiveTasks = (case store of None \<Rightarrow> 0 | Some d \<Rightarrow>
                (case ListTasks f d of Inl _ \<Rightarrow> 0 | Inr tasks \<Rightarrow> length (filter (\<lambda>t. t_Status t = TaskActive) tasks))),
             ss_UptimeSince = startedAt, ss_MysqlConnected = pingMySQL ping, ss_RedisConnected = False,
             ss_K8SConnected = pingKubernetes kver\<rparr>, k))"

section \<open>Properties of the task RPCs\<close>

lemma api_UpdateTask_cases:
  assumes "api_UpdateTask f lib req (Some d) = (r, store')"
  obtains err where "r = Inl err" "store' = Some d"
  | old where "r = Inr (taskToProto (apply_request req old))" "old \<in> set (db_tasks d)" "task_in (tr_Id req) (tr_GroupFolder req) old"
      "store' = Some (d\<lparr>db_tasks := update_where (task_in (tr_Id req) (tr_GroupFolder req)) (set_task_cols (apply_request req old)) (db_tasks d)\<rparr>)"
proof -
  have ids: "t_ID (apply_request req t) = t_ID t" "t_GroupFolder (apply_request req t) = t_GroupFolder t" for t
    by (simp_all add: apply_request_def Let_def)
  have upd: "UpdateTask g t d = (q, d') \<Longrightarrow> (case q of Inl _ \<Rightarrow> d' = d |
      Inr _ \<Rightarrow> d' = d\<lparr>db_tasks := update_where (task_in (t_ID t) (t_GroupFolder t)) (set_task_cols t) (db_tasks d)\<rparr>)" for g t q d'
    by (auto simp: UpdateTask_def split: option.splits if_splits)
  have found: "GetTask g i fo d = Inr (Some t) \<Longrightarrow> t \<in> set (db_tasks d) \<and> task_in i fo t" for g i fo t
    by (auto simp: GetTask_def find_Some_iff split: option.splits)
  show thesis
    using assms that
    by (auto simp: api_UpdateTask_def Let_def ids dest!: upd found split: if_splits sum.splits option.splits prod.splits)
       (auto simp: task_in_def)
qed

text \<open>
  The API can change a task only through its identifier together with its folder: every
  other row stays where and as it is, nothing else in the database changes, and a refused
  request changes nothing at all. After an accepted one the row has the fields of the
  request that were not empty and keeps the others, its schedule state included.
\<close>

theorem api_update_confined:
  assumes "api_UpdateTask f lib req (Some d) = (r, Some d')"
  shows "d' = d\<lparr>db_tasks := db_tasks d'\<rparr> \<and> length (db_tasks d') = length (db_tasks d) \<and>
    (\<forall>i < length (db_tasks d). \<not> task_in (tr_Id req) (tr_GroupFolder req) (db_tasks d ! i) \<longrightarrow> db_tasks d' ! i = db_tasks d ! i) \<and>
    (case r of
       Inl _ \<Rightarrow> d' = d
     | Inr p \<Rightarrow> (\<exists>old \<in> set (db_tasks d). \<exists>row \<in> set (db_tasks d'). task_in (tr_Id req) (tr_GroupFolder req) row \<and>
         t_Prompt row = (if tr_Prompt req = [] then t_Prompt old else tr_Prompt req) \<and>
         t_ScheduleValue row = (if tr_ScheduleValue req = [] then t_ScheduleValue old else tr_ScheduleValue req) \<and>
         t_ScheduleType row = (if tr_ScheduleType req = [] then t_ScheduleType old else ScheduleType_of (tr_ScheduleType req)) \<and>
         t_Status row = t_Status old \<and> t_NextRun row = map_option db_time0 (t_NextRun old) \<and> tp_Prompt p = t_Prompt row))"
    (is "?A \<and> ?B \<and> ?C \<and> (case r of Inl _ \<Rightarrow> _ | Inr p \<Rightarrow> ?D p)")
  using assms
proof (cases rule: api_UpdateTask_cases)
  case (1 err)
  then show ?thesis by simp
next
  case (2 old)
  let ?row = "set_task_cols (apply_request req old) old"
  have "?row \<in> set (db_tasks d')" "task_in (tr_Id req) (tr_GroupFolder req) ?row"
    using 2(2-4) by (auto simp: set_update_where set_task_cols_def task_in_def intro!: bexI [of _ old])
  moreover have "t_Prompt ?row = (if tr_Prompt req = [] then t_Prompt old else tr_Prompt req)"
    "t_ScheduleValue ?row = (if tr_ScheduleValue req = [] then t_ScheduleValue old else tr_ScheduleValue req)"
    "t_ScheduleType ?row = (if tr_ScheduleType req = [] then t_ScheduleType old else ScheduleType_of (tr_ScheduleType req))"
    "t_Status ?row = t_Status old" "t_NextRun ?row = map_option db_time0 (t_NextRun old)"
    "tp_Prompt (taskToProto (apply_request req old)) = t_Prompt ?row"
    by (simp_all add: set_task_cols_def apply_request_def Let_def taskToProto_def del: ScheduleType_of.simps)
  ultimately have "?D (taskToProto (apply_request req old))"
    by (intro bexI [OF _ 2(2)] bexI [of _ ?row] conjI)
  moreover have "?A \<and> ?B \<and> ?C"
    using 2(4) by (simp add: update_where_def)
  ultimately show ?thesis
    unfolding 2(1) sum.case by (iprover intro: conjI elim: conjE)
qed

definition demo_request :: TaskRequest where
  "demo_request = \<lparr>tr_Id = ''t1'', tr_GroupFolder = ''main'', tr_ChatJid = [], tr_Prompt = ''new'', tr_ScheduleType = [],
     tr_ScheduleValue = [], tr_ContextMode = []\<rparr>"

theorem api_update_confined_witness:
  "\<exists>d'. api_UpdateTask (\<lambda>_. None) demo_lib demo_request (Some (task_db [demo_task ScheduleCron ''x''])) =
     (Inr (taskToProto ((demo_task ScheduleCron ''x'')\<lparr>t_Prompt := ''new''\<rparr>)), Some d') \<and>
     (\<exists>row \<in> set (db_tasks d'). task_in ''t1'' ''main'' row \<and> t_Prompt row = ''new'')"
proof -
  obtain d' where run: "api_UpdateTask (\<lambda>_. None) demo_lib demo_request (Some (task_db [demo_task ScheduleCron ''x''])) =
     (Inr (taskToProto ((demo_task ScheduleCron ''x'')\<lparr>t_Prompt := ''new''\<rparr>)), Some d')"
    by (simp add: api_UpdateTask_def demo_request_def task_db_defs GetTask_def task_in_def apply_request_def ScheduledTask_Validate_def
        demo_lib_def UpdateTask_def enum_ok_def Let_def)
  from api_update_confined [OF run] show ?thesis
    using run by (auto simp: demo_request_def)
qed

lemma no_next_run_kept:
  assumes "snd (api_UpdateTask f lib req (Some d)) = Some d'"
    and "\<forall>t \<in> set (db_tasks d). t_ID t = uid \<longrightarrow> t_NextRun t = None \<and> t_Status t = TaskActive"
  shows "\<forall>t \<in> set (db_tasks d'). t_ID t = uid \<longrightarrow> t_NextRun t = None \<and> t_Status t = TaskActive"
    and "t_ID ` set (db_tasks d') = t_ID ` set (db_tasks d)"
proof -
  obtain r where "api_UpdateTask f lib req (Some d) = (r, Some d')"
    using assms(1) by (cases "api_UpdateTask f lib req (Some d)") simp
  then have "(\<forall>t \<in> set (db_tasks d'). t_ID t = uid \<longrightarrow> t_NextRun t = None \<and> t_Status t = TaskActive) \<and>
      t_ID ` set (db_tasks d') = t_ID ` set (db_tasks d)"
  proof (cases rule: api_UpdateTask_cases)
    case (2 old)
    have "t_ID (set_task_cols s t) = t_ID t" for s t
      by (simp add: set_task_cols_def)
    then have "t_ID ` set (db_tasks d') = t_ID ` set (db_tasks d)"
      using 2(4) by (simp add: image_update_where)
    moreover have "t_NextRun (set_task_cols (apply_request req old) t) = map_option db_time0 (t_NextRun old)"
      "t_Status (set_task_cols (apply_request req old) t) = t_Status old" "t_ID (set_task_cols (apply_request req old) t) = t_ID t" for t
      by (simp_all add: set_task_cols_def apply_request_def Let_def)
    ultimately show ?thesis
      using assms(2) 2(2-4) by (auto simp: ball_update_where task_in_def)
  qed (use assms(2) in simp)
  then show "\<forall>t \<in> set (db_tasks d'). t_ID t = uid \<longrightarrow> t_NextRun t = None \<and> t_Status t = TaskActive"
    "t_ID ` set (db_tasks d') = t_ID ` set (db_tasks d)"
    by simp_all
qed

lemma api_UpdateTask_store: "\<exists>d'. snd (api_UpdateTask f lib req (Some d)) = Some d'"
proof -
  obtain r st where "api_UpdateTask f lib req (Some d) = (r, st)"
    by fastforce
  moreover from this have "\<exists>d'. st = Some d'"
    by (cases rule: api_UpdateTask_cases) auto
  ultimately show ?thesis
    by simp
qed

lemma CreateTask_Inr:
  "CreateTask f t d = (Inr x, d') \<Longrightarrow> (\<forall>u \<in> set (db_tasks d). t_ID u \<noteq> t_ID t) \<and>
     db_tasks d' = db_tasks d @ [t\<lparr>t_NextRun := map_option db_time0 (t_NextRun t), t_LastRun := None, t_LastResult := None,
       t_CreatedAt := db_time0 (t_CreatedAt t)\<rparr>]"
  by (auto simp: CreateTask_def list_ex_iff split: option.splits if_splits)

text \<open>
  A task created through the API is stored as active and never becomes due: the handler
  leaves the next run empty, and no later request of the API fills it in, so the scheduler
  does not pick the task up at any time.
\<close>

theorem api_task_never_due:
  assumes "api_CreateTask f lib uid now req (Some d) = (Inr p, Some d0)"
    and "fold (\<lambda>(g, q) s. snd (api_UpdateTask g lib q s)) reqs (Some d0) = Some d'"
  shows "(\<exists>t \<in> set (db_tasks d'). t_ID t = uid \<and> t_Status t = TaskActive) \<and>
    (\<forall>t \<in> set (db_tasks d'). t_ID t = uid \<longrightarrow> (\<forall>when. \<not> is_due when t))"
proof -
  have keep: "fold (\<lambda>(g, q) s. snd (api_UpdateTask g lib q s)) reqs (Some d0) = Some d' \<Longrightarrow>
      \<forall>t \<in> set (db_tasks d0). t_ID t = uid \<longrightarrow> t_NextRun t = None \<and> t_Status t = TaskActive \<Longrightarrow> uid \<in> t_ID ` set (db_tasks d0) \<Longrightarrow>
      (\<forall>t \<in> set (db_tasks d'). t_ID t = uid \<longrightarrow> t_NextRun t = None \<and> t_Status t = TaskActive) \<and> uid \<in> t_ID ` set (db_tasks d')" for d0
  proof (induction reqs arbitrary: d0)
    case (Cons gq reqs)
    obtain g q where gq: "gq = (g, q)"
      by fastforce
    obtain d1 where d1: "snd (api_UpdateTask g lib q (Some d0)) = Some d1"
      using api_UpdateTask_store by blast
    from Cons.IH [of d1] Cons.prems no_next_run_kept [OF d1 Cons.prems(2)] d1 show ?case
      by (simp add: gq)
  qed auto
  obtain task x where "CreateTask (f 0) task d = (Inr x, d0)" and task: "t_ID task = uid" "t_NextRun task = None" "t_Status task = TaskActive"
    using assms(1)
    by (auto simp: api_CreateTask_def Let_def split: if_splits sum.splits prod.splits simp del: ScheduleType_of.simps ContextMode_of.simps)
  from CreateTask_Inr [OF this(1)] task
  have "(\<forall>t \<in> set (db_tasks d0). t_ID t = uid \<longrightarrow> t_NextRun t = None \<and> t_Status t = TaskActive) \<and> uid \<in> t_ID ` set (db_tasks d0)"
    by auto
  from keep [OF assms(2)] this show ?thesis
    by (fastforce simp: is_due_def)
qed

theorem api_task_never_due_witness:
  "\<exists>p d0. api_CreateTask (\<lambda>_. None) demo_lib ''t2'' 0 (demo_request\<lparr>tr_ScheduleType := ''cron''\<rparr>\<lparr>tr_ContextMode := ''group''\<rparr>) (Some (task_db [])) = (Inr p, Some d0) \<and>
     (\<exists>t \<in> set (db_tasks d0). t_ID t = ''t2'' \<and> (\<forall>when. \<not> is_due when t))"
proof -
  obtain p d0 where run: "api_CreateTask (\<lambda>_. None) demo_lib ''t2'' 0 (demo_request\<lparr>tr_ScheduleType := ''cron''\<rparr>\<lparr>tr_ContextMode := ''group''\<rparr>)
      (Some (task_db [])) = (Inr p, Some d0)"
    by (simp add: api_CreateTask_def demo_request_def task_db_defs ScheduledTask_Validate_def demo_lib_def CreateTask_def enum_ok_def Let_def)
  from api_task_never_due [OF run, of "[]" d0] show ?thesis
    using run by auto
qed

section \<open>Properties of the group RPCs\<close>

text \<open>
  Registering a group under the folder of another group answers success although no group
  with the requested identifier exists afterwards: the other group's row gets the name and
  the trigger of the request.
\<close>

theorem register_takes_over_folder:
  "\<exists>req d d' p. db_wf d \<and> RegisterGroup (\<lambda>_. None) (\<lambda>_. Inr empty_ContainerConfig) NewRegistry None req (Some d) = (Inr p, Some d') \<and>
     gp_Jid p = rg_Jid req \<and> GetGroup None (rg_Jid req) d' = Inr None \<and>
     (\<exists>g g'. GetGroup None ''tui:1'' d = Inr (Some g) \<and> GetGroup None ''tui:1'' d' = Inr (Some g') \<and>
       g_Name g \<noteq> rg_Name req \<and> g_Name g' = rg_Name req)"
proof -
  let ?d = "task_db [demo_task ScheduleCron ''x'']"
  let ?req = "\<lparr>rg_Jid = ''tui:2'', rg_Name = ''Mine'', rg_Folder = ''main'', rg_TriggerPattern = [], rg_IsMain = False,
    rg_RequiresTrigger = False, rg_ContainerConfigJson = []\<rparr>"
  let ?g = "(requested_group ?req)\<lparr>g_ContainerConfig := None\<rparr>"
  have wf: "db_wf ?d"
    by (rule task_db_wf) simp
  obtain d' where up: "UpsertGroup None ?g ?d = (Inr (), d')" and gone: "GetGroup None ''tui:2'' d' = Inr None"
    and other: "map_sum id (map_option g_Name) (GetGroup None ''tui:1'' d') = Inr (Some ''Mine'')"
      "map_sum id (map_option g_Name) (GetGroup None ''tui:1'' ?d) = Inr (Some ''G'')"
    by (simp add: UpsertGroup_def GetGroup_def requested_group_def task_db_defs update_where_def set_group_cols_def)
  have "RegisterGroup (\<lambda>_. None) (\<lambda>_. Inr empty_ContainerConfig) NewRegistry None ?req (Some ?d) = (Inr (group_proto ?g 0), Some d')"
    using up gone by (simp add: RegisterGroup_def ParseContainerConfig_def Group_Validate_def requested_group_def Let_def store_group_def)
  moreover have "\<exists>g g'. GetGroup None ''tui:1'' ?d = Inr (Some g) \<and> GetGroup None ''tui:1'' d' = Inr (Some g') \<and> g_Name g = ''G'' \<and> g_Name g' = ''Mine''"
    using other by (cases "GetGroup None ''tui:1'' d'"; cases "GetGroup None ''tui:1'' ?d") auto
  ultimately show ?thesis
    using wf gone by (intro exI [of _ ?req] exI [of _ ?d] exI [of _ d']) (auto simp: group_proto_def requested_group_def)
qed

end
