(* ===== verification/Grpc_Server.thy ===== *)
theory Grpc_Server
  imports Go_Strings "HOL-Library.Word"
begin

text \<open>
  \<open>internal/server/grpc_security.go\<close>, \<open>interceptors.go\<close> and the construction of the server in
  \<open>server.go\<close>: who may open a connection to the gRPC server. The parts of \<open>net\<close> this code uses
  (IPv4 addresses, networks, membership) are written out byte by byte; the parser of IPv6
  addresses, which returns the address and its zone, and the TLS library are parameters.
\<close>

unbundle bit_operations_syntax

section \<open>Addresses and networks\<close>

type_synonym IP = "8 word list"

record IPNet =
  ipn_IP :: IP
  ipn_Mask :: "8 word list"

definition To4 :: "IP \<Rightarrow> IP option" where
  "To4 ip =
     (if length ip = 4 then Some ip
      else if length ip = 16 \<and> list_all (\<lambda>b. b = 0) (take 10 ip) \<and> ip ! 10 = 0xff \<and> ip ! 11 = 0xff then Some (drop 12 ip)
      else None)"

text \<open>\<open>CIDRMask\<close>: the given number of leading ones in the given number of bytes.\<close>

fun CIDRMask :: "nat \<Rightarrow> nat \<Rightarrow> 8 word list" where
  "CIDRMask n 0 = []"
| "CIDRMask n (Suc l) =
     (if 8 \<le> n then 0xff # CIDRMask (n - 8) l else NOT (drop_bit n 0xff) # CIDRMask 0 l)"

definition networkNumberAndMask :: "IPNet \<Rightarrow> IP \<times> 8 word list" where
  "networkNumberAndMask n =
     (let m = ipn_Mask n
      in case To4 (ipn_IP n) of
           Some ip \<Rightarrow> if length m = 4 then (ip, m) else if length m = 16 then (ip, drop 12 m) else ([], [])
         | None \<Rightarrow> if length (ipn_IP n) = 16 \<and> length m = 16 then (ipn_IP n, m) else ([], []))"

definition IPNet_Contains :: "IPNet \<Rightarrow> IP \<Rightarrow> bool" where
  "IPNet_Contains n ip =
     (case networkNumberAndMask n of (nn, m) \<Rightarrow>
        let ip = (case To4 ip of Some x \<Rightarrow> x | None \<Rightarrow> ip)
        in length ip = length nn \<and> list_all (\<lambda>i. nn ! i AND m ! i = ip ! i AND m ! i) [0..<length ip])"

section \<open>Parsing\<close>

definition dtoi :: "string \<Rightarrow> nat option" where
  "dtoi s = (if s \<noteq> [] \<and> list_all is_digit s then Some (foldl (\<lambda>n c. n * 10 + (of_char c - 48)) 0 s) else None)"

definition ip_field :: "string \<Rightarrow> 8 word option" where
  "ip_field s =
     (case dtoi s of
        None \<Rightarrow> None
      | Some n \<Rightarrow> if 255 < n \<or> (1 < length s \<and> hd s = CHR ''0'') then None else Some (of_nat n))"

definition parseIPv4 :: "string \<Rightarrow> IP option" where
  "parseIPv4 s =
     (let fs = map ip_field (Split s CHR ''.'')
      in if length fs = 4 \<and> list_all (\<lambda>f. f \<noteq> None) fs then Some (map the fs) else None)"

type_synonym ipv6_parser = "string \<Rightarrow> (IP \<times> string) option"

definition ParseAddr :: "ipv6_parser \<Rightarrow> string \<Rightarrow> (IP \<times> string) option" where
  "ParseAddr parseIPv6 s =
     (case dropWhile (\<lambda>c. c \<notin> set ''.:%'') s of
        [] \<Rightarrow> None
      | c # _ \<Rightarrow>
          if c = CHR ''.'' then map_option (\<lambda>ip. (ip, [])) (parseIPv4 s)
          else if c = CHR '':'' then parseIPv6 s
          else None)"

definition ParseCIDR :: "ipv6_parser \<Rightarrow> string \<Rightarrow> IPNet result" where
  "ParseCIDR parseIPv6 s =
     (let err = Inl (Errorf (''invalid CIDR address: '' @ s))
      in case str_Index s ''/'' of
           None \<Rightarrow> err
         | Some i \<Rightarrow>
             (case (ParseAddr parseIPv6 (take i s), dtoi (drop (Suc i) s)) of
                (Some (ip, []), Some n) \<Rightarrow>
                  if 8 * length ip < n then err
                  else (let m = CIDRMask n (length ip)
                        in Inr \<lparr>ipn_IP = map2 (\<lambda>a b. a AND b) ip m, ipn_Mask = m\<rparr>)
              | _ \<Rightarrow> err))"

fun cidr_parts :: "ipv6_parser \<Rightarrow> string list \<Rightarrow> IPNet list result" where
  "cidr_parts p6 [] = Inr []"
| "cidr_parts p6 (part # parts) =
     (let part = TrimSpace part
      in if part = [] then cidr_parts p6 parts
         else case ParseCIDR p6 part of
           Inl err \<Rightarrow> Inl (Wrapf (''parse CIDR '' @ Quote part) err)
         | Inr network \<Rightarrow> (case cidr_parts p6 parts of Inl err \<Rightarrow> Inl err | Inr nets \<Rightarrow> Inr (network # nets)))"

definition parseAllowedCIDRs :: "ipv6_parser \<Rightarrow> string \<Rightarrow> IPNet list result" where
  "parseAllowedCIDRs p6 raw =
     (case cidr_parts p6 (Split raw CHR '','') of
        Inl err \<Rightarrow> Inl err
      | Inr nets \<Rightarrow> if nets = [] then Inl (Errorf ''no allowed CIDRs configured'') else Inr nets)"

definition ipAllowed :: "IP \<Rightarrow> IPNet list \<Rightarrow> bool" where
  "ipAllowed ip nets = list_ex (\<lambda>n. IPNet_Contains n ip) nets"

section \<open>The listener\<close>

text \<open>
  The answers of the listener below, one per turn of the loop. The result is what \<open>Accept\<close>
  returns, nothing while it still waits, with the connections it closed.
\<close>

datatype remote = TCPAddr IP | OtherAddr
datatype accepted = AcceptError goerr | AcceptConn remote

fun Accept :: "IPNet list \<Rightarrow> accepted list \<Rightarrow> remote list \<Rightarrow> remote result option \<times> remote list" where
  "Accept allowed [] closed = (None, closed)"
| "Accept allowed (AcceptError err # ins) closed = (Some (Inl err), closed)"
| "Accept allowed (AcceptConn OtherAddr # ins) closed = Accept allowed ins (closed @ [OtherAddr])"
| "Accept allowed (AcceptConn (TCPAddr ip) # ins) closed =
     (if ipAllowed ip allowed then (Some (Inr (TCPAddr ip)), closed)
      else Accept allowed ins (closed @ [TCPAddr ip]))"

section \<open>TLS, interceptors and the server\<close>

datatype tls_version = TLS12 | TLS13
datatype client_auth = NoClientCert | RequireAndVerifyClientCert

record 'c tls_config =
  tls_MinVersion :: tls_version
  tls_Certificates :: "'c list"
  tls_ClientAuth :: client_auth
  tls_ClientCAs :: "'c list"

record 'c tls_lib =
  LoadX509KeyPair :: "string \<Rightarrow> string \<Rightarrow> 'c result"
  ReadFile :: "string \<Rightarrow> string result"
  certs_from_PEM :: "string \<Rightarrow> 'c list"

definition loadGRPCTLSConfig :: "'c tls_lib \<Rightarrow> string \<Rightarrow> string \<Rightarrow> string \<Rightarrow> 'c tls_config result" where
  "loadGRPCTLSConfig t certFile keyFile clientCAFile =
     (case LoadX509KeyPair t certFile keyFile of
        Inl err \<Rightarrow> Inl (Wrapf ''load gRPC TLS key pair'' err)
      | Inr cert \<Rightarrow>
          (case ReadFile t clientCAFile of
             Inl err \<Rightarrow> Inl (Wrapf ''read gRPC client CA'' err)
           | Inr caPEM \<Rightarrow>
               if certs_from_PEM t caPEM = [] then Inl (Errorf ''parse gRPC client CA bundle'')
               else Inr \<lparr>tls_MinVersion = TLS13, tls_Certificates = [cert], tls_ClientAuth = RequireAndVerifyClientCert,
                 tls_ClientCAs = certs_from_PEM t caPEM\<rparr>))"

text \<open>A handler that panics answers \<open>None\<close>; the recovery interceptor turns that into an internal error.\<close>

definition recoveryInterceptor :: "('q \<Rightarrow> 'w \<Rightarrow> 'r result option \<times> 'w) \<Rightarrow> 'q \<Rightarrow> 'w \<Rightarrow> 'r result option \<times> 'w" where
  "recoveryInterceptor handler req w =
     (case handler req w of
        (None, w') \<Rightarrow> (Some (Inl (Errorf ''internal server error'')), w')
      | (Some r, w') \<Rightarrow> (Some r, w'))"

record server_config =
  sc_GRPCInsecure :: bool
  sc_GRPCTLSCertFile :: string
  sc_GRPCTLSKeyFile :: string
  sc_GRPCTLSClientCAFile :: string
  sc_GRPCAllowedCIDRs :: string
  sc_has_Store :: bool
  sc_Auth :: "(bool \<times> bool) option"

definition ErrAuthConfigIncomplete :: goerr where
  "ErrAuthConfigIncomplete = Errorf ''server: AuthConfig requires both ChatGPT and Credentials''"

text \<open>The pair says whether the ChatGPT client and the credential store are set.\<close>

definition AuthConfig_Validate :: "(bool \<times> bool) option \<Rightarrow> unit result" where
  "AuthConfig_Validate c =
     (case c of
        None \<Rightarrow> Inr ()
      | Some (chatGPT, credentials) \<Rightarrow> if \<not> chatGPT \<or> \<not> credentials then Inl ErrAuthConfigIncomplete else Inr ())"

datatype service = AdminService | GroupService | TaskService | SandboxService | ChannelService bool | AuthService

text \<open>The services that are registered; the channel service says whether it has an authorizer.\<close>

definition registerAPIServices :: "server_config \<Rightarrow> service list result" where
  "registerAPIServices cfg =
     (case AuthConfig_Validate (sc_Auth cfg) of
        Inl err \<Rightarrow> Inl (Wrapf ''auth config'' err)
      | Inr _ \<Rightarrow> Inr ([AdminService, GroupService, TaskService, SandboxService, ChannelService (sc_has_Store cfg)] @
          (if sc_Auth cfg = None then [] else [AuthService])))"

record 'c Server =
  srv_allowed :: "IPNet list"
  srv_creds :: "'c tls_config option"
  srv_services :: "service list"

definition Server_New :: "ipv6_parser \<Rightarrow> 'c tls_lib \<Rightarrow> server_config \<Rightarrow> 'c Server result" where
  "Server_New p6 t cfg =
     (case parseAllowedCIDRs p6 (sc_GRPCAllowedCIDRs cfg) of
        Inl err \<Rightarrow> Inl err
      | Inr allowed \<Rightarrow>
          (case (if sc_GRPCInsecure cfg then Inr None
                 else map_sum id Some (loadGRPCTLSConfig t (sc_GRPCTLSCertFile cfg) (sc_GRPCTLSKeyFile cfg) (sc_GRPCTLSClientCAFile cfg))) of
             Inl err \<Rightarrow> Inl err
           | Inr creds \<Rightarrow>
               (case registerAPIServices cfg of
                  Inl err \<Rightarrow> Inl (Wrapf ''register API services'' err)
                | Inr services \<Rightarrow> Inr \<lparr>srv_allowed = allowed, srv_creds = creds, srv_services = services\<rparr>)))"

section \<open>What a network contains\<close>

text \<open>The bits of an address, most significant first: the reference for membership.\<close>

definition byte_bits :: "8 word \<Rightarrow> bool list" where
  "byte_bits b = map (bit b) (rev [0..<8])"

definition ip_bits :: "IP \<Rightarrow> bool list" where
  "ip_bits ip = concat (map byte_bits ip)"

lemma length_byte_bits [simp]: "length (byte_bits b) = 8"
  by (simp add: byte_bits_def)

lemma byte_eq_iff: "(a :: 8 word) = b \<longleftrightarrow> (\<forall>i < 8. bit a i = bit b i)"
  by (auto intro!: bit_word_eqI)

lemma take_byte_bits_eq:
  "n \<le> 8 \<Longrightarrow> take n (byte_bits a) = take n (byte_bits b) \<longleftrightarrow> (\<forall>i. 8 - n \<le> i \<and> i < 8 \<longrightarrow> bit a i = bit b i)"
  by (simp add: byte_bits_def take_map take_rev) auto

lemma byte_bits_eq_iff: "byte_bits a = byte_bits b \<longleftrightarrow> a = b"
  using take_byte_bits_eq [of 8 a b] by (simp add: byte_eq_iff)

lemma bit_mask_byte: "n \<le> 8 \<Longrightarrow> i < 8 \<Longrightarrow> bit (NOT (drop_bit n 0xff) :: 8 word) i \<longleftrightarrow> 8 - n \<le> i"
proof -
  assume "n \<le> 8" "i < 8"
  moreover have "(0xff :: 8 word) = mask 8"
    by (simp add: mask_eq_exp_minus_1)
  then have "bit (0xff :: 8 word) (n + i) \<longleftrightarrow> n + i < 8"
    by (simp only: bit_mask_iff) simp
  ultimately show ?thesis
    by (auto simp: bit_not_iff bit_drop_bit_eq)
qed

lemma masked_byte:
  assumes "n \<le> 8"
  shows "a AND NOT (drop_bit n 0xff) = b AND (NOT (drop_bit n 0xff) :: 8 word) \<longleftrightarrow> take n (byte_bits a) = take n (byte_bits b)"
  using assms by (auto simp: take_byte_bits_eq byte_eq_iff bit_and_iff bit_mask_byte)

lemma length_CIDRMask [simp]: "length (CIDRMask n l) = l"
  by (induction n l rule: CIDRMask.induct) auto

lemma and_ones: "(a :: 8 word) AND 0xff = a"
proof -
  have "(0xff :: 8 word) = - 1"
    by simp
  then show ?thesis
    by (simp only: and_minus_numerals bit.conj_one_right)
qed

lemma masked_bytes:
  "n \<le> 8 * length a \<Longrightarrow> length b = length a \<Longrightarrow>
   list_all2 (\<lambda>(x, m) (y, k). x AND m = y AND k) (zip a (CIDRMask n (length a))) (zip b (CIDRMask n (length a))) \<longleftrightarrow>
   take n (ip_bits a) = take n (ip_bits b)"
proof (induction a arbitrary: b n)
  case (Cons x a)
  obtain y b' where b: "b = y # b'"
    using Cons.prems(2) by (cases b) auto
  show ?case
  proof (cases "8 \<le> n")
    case True
    then have "take n (ip_bits (x # a)) = byte_bits x @ take (n - 8) (ip_bits a)"
      "take n (ip_bits b) = byte_bits y @ take (n - 8) (ip_bits b')"
      by (simp_all add: ip_bits_def b)
    with True Cons.IH [of "n - 8" b'] Cons.prems b show ?thesis
      by (simp add: and_ones byte_bits_eq_iff)
  next
    case False
    then have "take n (ip_bits (x # a)) = take n (byte_bits x)" "take n (ip_bits b) = take n (byte_bits y)"
      by (simp_all add: ip_bits_def b)
    with False Cons.IH [of 0 b'] Cons.prems b show ?thesis
      by (simp add: masked_byte)
  qed
qed simp

lemma To4_length: "To4 ip = Some x \<Longrightarrow> length x = 4"
  by (auto simp: To4_def split: if_splits)

lemma To4_self: "length ip = 4 \<Longrightarrow> To4 ip = Some ip"
  by (simp add: To4_def)

lemma contains_masked:
  assumes "length a = 4" and "n \<le> 32" and "To4 ip = Some x"
  shows "IPNet_Contains \<lparr>ipn_IP = map2 (\<lambda>a b. a AND b) a (CIDRMask n 4), ipn_Mask = CIDRMask n 4\<rparr> ip \<longleftrightarrow>
    take n (ip_bits a) = take n (ip_bits x)"
proof -
  have "IPNet_Contains \<lparr>ipn_IP = map2 (\<lambda>a b. a AND b) a (CIDRMask n 4), ipn_Mask = CIDRMask n 4\<rparr> ip \<longleftrightarrow>
      (\<forall>i < 4. a ! i AND CIDRMask n 4 ! i = x ! i AND CIDRMask n 4 ! i)"
    using assms To4_length [OF assms(3)]
    by (simp add: IPNet_Contains_def networkNumberAndMask_def To4_self Let_def list_all_iff Ball_def and.assoc)
  also have "\<dots> \<longleftrightarrow> list_all2 (\<lambda>(x, m) (y, k). x AND m = y AND k) (zip a (CIDRMask n 4)) (zip x (CIDRMask n 4))"
    using assms To4_length [OF assms(3)] by (auto simp: list_all2_conv_all_nth)
  also have "\<dots> \<longleftrightarrow> take n (ip_bits a) = take n (ip_bits x)"
    using masked_bytes [of n a x] assms To4_length [OF assms(3)] by simp
  finally show ?thesis .
qed

text \<open>An entry \<open>a.b.c.d/n\<close>: its address and its number of bits.\<close>

definition ipv4_entry :: "ipv6_parser \<Rightarrow> string \<Rightarrow> IP \<Rightarrow> nat \<Rightarrow> bool" where
  "ipv4_entry p6 s a n \<longleftrightarrow>
     (\<exists>i. str_Index s ''/'' = Some i \<and> ParseAddr p6 (take i s) = Some (a, []) \<and> length a = 4 \<and> dtoi (drop (Suc i) s) = Some n)"

lemma ParseCIDR_ipv4:
  assumes "ipv4_entry p6 s a n" and "ParseCIDR p6 s = Inr net" and "To4 ip = Some x"
  shows "IPNet_Contains net ip \<longleftrightarrow> take n (ip_bits a) = take n (ip_bits x)"
proof -
  from assms(1) have "length a = 4"
    by (auto simp: ipv4_entry_def)
  with assms(1,2) have "n \<le> 32" "net = \<lparr>ipn_IP = map2 (\<lambda>a b. a AND b) a (CIDRMask n 4), ipn_Mask = CIDRMask n 4\<rparr>"
    by (auto simp: ipv4_entry_def ParseCIDR_def Let_def split: if_splits)
  with \<open>length a = 4\<close> assms(3) show ?thesis
    by (simp only: contains_masked)
qed

lemma ipv4_entry_unique: "ipv4_entry p6 s a n \<Longrightarrow> ipv4_entry p6 s b k \<Longrightarrow> a = b \<and> n = k"
  by (auto simp: ipv4_entry_def)

lemma cidr_parts_ipv4:
  assumes "cidr_parts p6 parts = Inr nets" and "To4 ip = Some x"
    and "\<And>part. part \<in> set parts \<Longrightarrow> TrimSpace part \<noteq> [] \<Longrightarrow> \<exists>a n. ipv4_entry p6 (TrimSpace part) a n"
  shows "ipAllowed ip nets \<longleftrightarrow>
    (\<exists>part \<in> set parts. \<exists>a n. ipv4_entry p6 (TrimSpace part) a n \<and> take n (ip_bits a) = take n (ip_bits x))"
  using assms(1,3)
proof (induction parts arbitrary: nets)
  case Nil
  then show ?case by (simp add: ipAllowed_def)
next
  case (Cons part parts)
  show ?case
  proof (cases "TrimSpace part = []")
    case True
    moreover have "\<not> ipv4_entry p6 [] a n" for a n
      by (auto simp: ipv4_entry_def)
    ultimately show ?thesis
      using Cons by (simp add: Let_def)
  next
    case False
    obtain a n where an: "ipv4_entry p6 (TrimSpace part) a n"
      using Cons.prems(2) [of part] False by auto
    obtain net nets' where "ParseCIDR p6 (TrimSpace part) = Inr net" "cidr_parts p6 parts = Inr nets'" "nets = net # nets'"
      using Cons.prems(1) False by (auto simp: Let_def split: sum.splits)
    then show ?thesis
      using Cons.IH [of nets'] Cons.prems(2) ParseCIDR_ipv4 [OF an _ assms(2)] an
      by (auto simp: ipAllowed_def dest: ipv4_entry_unique)
  qed
qed

text \<open>
  C35: With IPv4 entries \<open>a.b.c.d/n\<close> the allow list admits exactly the addresses that agree with
  the address of some entry in its first \<open>n\<close> bits, also when the peer's address comes in the
  16-byte form: the byte masks of the library compute the comparison of bit prefixes.
\<close>

theorem allowlist_is_prefix_match:
  assumes "parseAllowedCIDRs p6 raw = Inr nets" and "To4 ip = Some x"
    and "\<And>part. part \<in> set (Split raw CHR '','') \<Longrightarrow> TrimSpace part \<noteq> [] \<Longrightarrow> \<exists>a n. ipv4_entry p6 (TrimSpace part) a n"
  shows "ipAllowed ip nets \<longleftrightarrow>
    (\<exists>part \<in> set (Split raw CHR '',''). \<exists>a n. ipv4_entry p6 (TrimSpace part) a n \<and> take n (ip_bits a) = take n (ip_bits x))"
  using assms by (intro cidr_parts_ipv4) (auto simp: parseAllowedCIDRs_def split: sum.splits if_splits)

lemma demo_entries:
  "Split ''10.1.0.0/12, '' CHR '','' = [''10.1.0.0/12'', '' '']"
  "TrimSpace ''10.1.0.0/12'' = ''10.1.0.0/12''" "TrimSpace '' '' = []"
  "str_Index ''10.1.0.0/12'' ''/'' = Some 8" "ParseAddr (\<lambda>_. None) (take 8 ''10.1.0.0/12'') = Some ([10, 1, 0, 0], [])"
  "dtoi (drop (Suc 8) ''10.1.0.0/12'') = Some 12" "take 12 (ip_bits [10, 1, 0, 0]) = take 12 (ip_bits [10, 15, 7, 7])"
  by code_simp+

theorem allowlist_is_prefix_match_witness:
  "\<exists>nets. parseAllowedCIDRs (\<lambda>_. None) ''10.1.0.0/12, '' = Inr nets \<and>
     ipAllowed [0, 0, 0, 0, 0, 0, 0, 0, 0, 0, 255, 255, 10, 15, 7, 7] nets"
proof -
  have e: "ipv4_entry (\<lambda>_. None) ''10.1.0.0/12'' [10, 1, 0, 0] 12"
    unfolding ipv4_entry_def by (intro exI [of _ 8] conjI demo_entries) simp
  have "is_ok (parseAllowedCIDRs (\<lambda>_. None) ''10.1.0.0/12, '')"
    by code_simp
  then obtain nets where nets: "parseAllowedCIDRs (\<lambda>_. None) ''10.1.0.0/12, '' = Inr nets"
    by (auto simp: is_ok_iff)
  have all: "part \<in> set (Split ''10.1.0.0/12, '' CHR '','') \<Longrightarrow> TrimSpace part \<noteq> [] \<Longrightarrow> \<exists>a n. ipv4_entry (\<lambda>_. None) (TrimSpace part) a n" for part
    unfolding demo_entries(1) using e demo_entries(2,3) by (auto intro!: exI [of _ "[10, 1, 0, 0]"] exI [of _ 12])
  have "To4 [0, 0, 0, 0, 0, 0, 0, 0, 0, 0, 255, 255, 10, 15, 7, 7] = Some [10, 15, 7, 7]"
    by (simp add: To4_def)
  from allowlist_is_prefix_match [OF nets this all] have "ipAllowed [0, 0, 0, 0, 0, 0, 0, 0, 0, 0, 255, 255, 10, 15, 7, 7] nets"
    unfolding demo_entries(1) using e demo_entries(2,7) by auto
  with nets show ?thesis
    by blast
qed

section \<open>Who gets through\<close>

lemma Accept_allowed:
  "Accept allowed ins closed = (Some (Inr conn), closed') \<Longrightarrow>
   (\<exists>ip. conn = TCPAddr ip \<and> ipAllowed ip allowed) \<and>
   (\<forall>ip. TCPAddr ip \<in> set closed' \<longrightarrow> TCPAddr ip \<in> set closed \<or> \<not> ipAllowed ip allowed)"
  by (induction allowed ins closed rule: Accept.induct) (auto split: if_splits)

lemma cidr_parts_from:
  "cidr_parts p6 parts = Inr nets \<Longrightarrow> net \<in> set nets \<Longrightarrow> \<exists>part \<in> set parts. ParseCIDR p6 (TrimSpace part) = Inr net"
  by (induction parts arbitrary: nets) (auto simp: Let_def split: if_splits sum.splits)

text \<open>
  C34: A connection that the gRPC server gets to see comes from a TCP address inside one of the
  configured networks, no connection from such an address was turned away before it, and
  unless the operator chose the insecure mode the server speaks TLS 1.3 and demands a
  client certificate of the configured authority.
\<close>

theorem only_allowed_peers:
  assumes "Server_New p6 t cfg = Inr srv" and "Accept (srv_allowed srv) ins [] = (Some (Inr conn), closed)"
  shows "(\<exists>ip part net. conn = TCPAddr ip \<and> part \<in> set (Split (sc_GRPCAllowedCIDRs cfg) CHR '','') \<and>
      ParseCIDR p6 (TrimSpace part) = Inr net \<and> IPNet_Contains net ip) \<and>
    (\<forall>ip. TCPAddr ip \<in> set closed \<longrightarrow> \<not> ipAllowed ip (srv_allowed srv)) \<and>
    (sc_GRPCInsecure cfg \<or>
      (\<exists>tls. srv_creds srv = Some tls \<and> tls_MinVersion tls = TLS13 \<and> tls_ClientAuth tls = RequireAndVerifyClientCert \<and>
        (\<exists>pem. ReadFile t (sc_GRPCTLSClientCAFile cfg) = Inr pem \<and> tls_ClientCAs tls = certs_from_PEM t pem \<and> tls_ClientCAs tls \<noteq> [])))"
proof -
  have parts: "cidr_parts p6 (Split (sc_GRPCAllowedCIDRs cfg) CHR '','') = Inr (srv_allowed srv)"
    using assms(1) by (auto simp: Server_New_def parseAllowedCIDRs_def split: sum.splits if_splits)
  obtain ip where ip: "conn = TCPAddr ip" "ipAllowed ip (srv_allowed srv)"
    and closed: "\<forall>ip. TCPAddr ip \<in> set closed \<longrightarrow> \<not> ipAllowed ip (srv_allowed srv)"
    using Accept_allowed [OF assms(2)] by auto
  from ip(2) obtain net where "net \<in> set (srv_allowed srv)" "IPNet_Contains net ip"
    by (auto simp: ipAllowed_def list_ex_iff)
  moreover have "sc_GRPCInsecure cfg \<or> (\<exists>tls. srv_creds srv = Some tls \<and> tls_MinVersion tls = TLS13 \<and>
      tls_ClientAuth tls = RequireAndVerifyClientCert \<and>
      (\<exists>pem. ReadFile t (sc_GRPCTLSClientCAFile cfg) = Inr pem \<and> tls_ClientCAs tls = certs_from_PEM t pem \<and> tls_ClientCAs tls \<noteq> []))"
    using assms(1) by (auto simp: Server_New_def loadGRPCTLSConfig_def split: sum.splits if_splits)
  ultimately show ?thesis
    using ip(1) closed cidr_parts_from [OF parts] by blast
qed

definition demo_server_config :: server_config where
  "demo_server_config = \<lparr>sc_GRPCInsecure = False, sc_GRPCTLSCertFile = ''c'', sc_GRPCTLSKeyFile = ''k'', sc_GRPCTLSClientCAFile = ''ca'',
     sc_GRPCAllowedCIDRs = ''10.0.0.0/8'', sc_has_Store = True, sc_Auth = None\<rparr>"

definition demo_tls :: "string tls_lib" where
  "demo_tls = \<lparr>LoadX509KeyPair = (\<lambda>c k. Inr c), ReadFile = (\<lambda>f. Inr f), certs_from_PEM = (\<lambda>p. [p])\<rparr>"

theorem only_allowed_peers_witness:
  "\<exists>srv closed. Server_New (\<lambda>_. None) demo_tls demo_server_config = Inr srv \<and>
     Accept (srv_allowed srv) [AcceptConn (TCPAddr [11, 0, 0, 1]), AcceptConn (TCPAddr [10, 0, 0, 1])] [] = (Some (Inr (TCPAddr [10, 0, 0, 1])), closed) \<and>
     \<not> ipAllowed [11, 0, 0, 1] (srv_allowed srv)"
proof -
  let ?n = "\<lparr>ipn_IP = [10, 0, 0, 0], ipn_Mask = [255, 0, 0, 0]\<rparr> :: IPNet"
  let ?tls = "\<lparr>tls_MinVersion = TLS13, tls_Certificates = [''c''], tls_ClientAuth = RequireAndVerifyClientCert, tls_ClientCAs = [''ca'']\<rparr>"
  let ?srv = "\<lparr>srv_allowed = [?n], srv_creds = Some ?tls,
    srv_services = [AdminService, GroupService, TaskService, SandboxService, ChannelService True]\<rparr>"
  have "parseAllowedCIDRs (\<lambda>_. None) ''10.0.0.0/8'' = Inr [?n]"
    by code_simp
  then have new: "Server_New (\<lambda>_. None) demo_tls demo_server_config = Inr ?srv"
    by (simp add: Server_New_def demo_server_config_def loadGRPCTLSConfig_def demo_tls_def registerAPIServices_def AuthConfig_Validate_def)
  have "IPNet_Contains ?n [10, 0, 0, 1]" "\<not> IPNet_Contains ?n [11, 0, 0, 1]"
    by code_simp+
  then have acc: "Accept (srv_allowed ?srv) [AcceptConn (TCPAddr [11, 0, 0, 1]), AcceptConn (TCPAddr [10, 0, 0, 1])] [] =
      (Some (Inr (TCPAddr [10, 0, 0, 1])), [TCPAddr [11, 0, 0, 1]])"
    by (simp add: ipAllowed_def)
  show ?thesis
    using only_allowed_peers [OF new acc] new acc by auto
qed

end
