(* ===== verification/Agent_Ipc.thy ===== *)
theory Agent_Ipc
  imports Ipc_Model
begin

text \<open>
  The rest of \<open>internal/ipc/nats_broker.go\<close> (subscriptions and the closing of the broker) and the
  library agents are built on, \<open>pkg/agent/ipc.go\<close> and \<open>pkg/agent/agent.go\<close>: the client that
  provisions streams, sends output and reads input, and the life cycle \<open>Run\<close>.
\<close>

section \<open>Subscriptions of the broker\<close>

definition server_consumer_config :: "string \<Rightarrow> consumer_config" where
  "server_consumer_config sanitized =
     \<lparr>co_Durable = ''kraclaw-server-'' @ sanitized, co_FilterSubject = ipcOutputWildcard sanitized\<rparr>"

text \<open>
  The broker's consumers: which are registered for cleaning up, the next number and whether
  the broker is closed. A registered consumer runs until its context is cancelled or its
  iterator is stopped.
\<close>

record consumers =
  cn_closed :: bool
  cn_nextID :: nat
  cn_cleanups :: "nat list"
  cn_cancelled :: "nat list"
  cn_stopped :: "nat list"
  cn_closedCh :: bool

text \<open>
  The set-up of \<open>consume\<close>: \<open>messages\<close> is the answer of \<open>cons.Messages\<close>. The number names the
  goroutine that was started.
\<close>

definition consume_start :: "unit result \<Rightarrow> string \<Rightarrow> consumers \<Rightarrow> nat result \<times> consumers" where
  "consume_start messages grp c =
     (case messages of
        Inl err \<Rightarrow> (Inl (Wrapf (''create message iterator for group '' @ grp) err), c)
      | Inr _ \<Rightarrow>
          if cn_closed c then (Inl (Errorf ''consume: broker closed''), c)
          else (Inr (cn_nextID c), c\<lparr>cn_nextID := Suc (cn_nextID c), cn_cleanups := cn_cleanups c @ [cn_nextID c]\<rparr>))"

text \<open>The end of that goroutine: its deferred calls.\<close>

definition consume_end :: "nat \<Rightarrow> consumers \<Rightarrow> consumers" where
  "consume_end n c = c\<lparr>cn_cleanups := filter (\<lambda>m. m \<noteq> n) (cn_cleanups c), cn_cancelled := n # cn_cancelled c, cn_stopped := n # cn_stopped c\<rparr>"

definition broker_Close :: "consumers \<Rightarrow> unit result \<times> consumers" where
  "broker_Close c =
     (if cn_closed c then (Inr (), c)
      else (Inr (), c\<lparr>cn_closed := True, cn_cancelled := cn_cleanups c @ cn_cancelled c, cn_stopped := cn_cleanups c @ cn_stopped c,
                      cn_cleanups := [], cn_closedCh := True\<rparr>))"

definition subscribe_as :: "'x jetstream \<Rightarrow> sha256 \<Rightarrow> (string \<Rightarrow> consumer_config) \<Rightarrow> string \<Rightarrow> string \<Rightarrow> string \<Rightarrow> string \<Rightarrow>
    unit result \<Rightarrow> 'x broker \<times> consumers \<Rightarrow> nat result \<times> 'x broker \<times> consumers" where
  "subscribe_as js sha cfg op createErr consumeErr grp messages bc =
     (case bc of (b, c) \<Rightarrow>
        (case run_state (ipc_ensureStream js sha grp) b of
           (Inl err, b) \<Rightarrow> (Inl (Wrapf op err), b, c)
         | (Inr sanitized, b) \<Rightarrow>
             (case call_js (js_CreateOrUpdateConsumer js (ipcStreamName sanitized) (cfg sanitized)) b of
                (Inl err, b) \<Rightarrow> (Inl (Wrapf createErr err), b, c)
              | (Inr _, b) \<Rightarrow>
                  (case consume_start messages grp c of
                     (Inl err, c) \<Rightarrow> (Inl (Wrapf consumeErr err), b, c)
                   | (Inr n, c) \<Rightarrow> (Inr n, b, c)))))"

definition SubscribeOutput :: "'x jetstream \<Rightarrow> sha256 \<Rightarrow> string \<Rightarrow> unit result \<Rightarrow> 'x broker \<times> consumers \<Rightarrow> nat result \<times> 'x broker \<times> consumers" where
  "SubscribeOutput js sha grp messages =
     subscribe_as js sha server_consumer_config ''subscribe output'' ''create output consumer'' ''consume output'' grp messages"

definition ReadInput :: "'x jetstream \<Rightarrow> sha256 \<Rightarrow> string \<Rightarrow> string \<Rightarrow> unit result \<Rightarrow> 'x broker \<times> consumers \<Rightarrow> nat result \<times> 'x broker \<times> consumers" where
  "ReadInput js sha grp agentID messages =
     subscribe_as js sha (\<lambda>s. agent_consumer_config s agentID) ''read input'' ''create input consumer'' ''consume input'' grp messages"

section \<open>The agent's client\<close>

record 'x client_state =
  ics_streamCreated :: bool
  ics_js :: 'x

record OutboundMessage =
  om_Type :: string
  om_Text :: string

record AgentInput =
  ai_Type :: string
  ai_Payload :: string

text \<open>The two encodings the client uses: of the text and of the whole message.\<close>

record agent_codec =
  ac_text :: "string \<Rightarrow> string result"
  ac_msg :: "string \<Rightarrow> string \<Rightarrow> string \<Rightarrow> string option \<Rightarrow> string result"

definition client_stream_config :: "sha256 \<Rightarrow> IPCClient \<Rightarrow> stream_config" where
  "client_stream_config sha c =
     (let sanitized = SanitizeGroupID sha (ic_group c)
      in \<lparr>sc_Name = client_streamName sha c,
          sc_Subjects = [''kraclaw.ipc.'' @ sanitized @ ''.*.input'', ''kraclaw.ipc.'' @ sanitized @ ''.*.output''],
          sc_Retention = LimitsPolicy, sc_MaxAge = 60 * Minute\<rparr>)"

definition client_ensureStream :: "'x jetstream \<Rightarrow> sha256 \<Rightarrow> IPCClient \<Rightarrow> 'x client_state \<Rightarrow> unit result \<times> 'x client_state" where
  "client_ensureStream js sha c s =
     (if ics_streamCreated s then (Inr (), s)
      else case js_CreateOrUpdateStream js (client_stream_config sha c) (ics_js s) of
        (Inl err, x) \<Rightarrow> (Inl (Wrapf (''ensure ipc stream '' @ client_streamName sha c) err), s\<lparr>ics_js := x\<rparr>)
      | (Inr _, x) \<Rightarrow> (Inr (), \<lparr>ics_streamCreated = True, ics_js = x\<rparr>))"

definition defensive :: "'x jetstream \<Rightarrow> sha256 \<Rightarrow> IPCClient \<Rightarrow> 'x client_state \<Rightarrow> unit result \<times> 'x client_state" where
  "defensive js sha c s = (if ic_defensive c then client_ensureStream js sha c s else (Inr (), s))"

definition SendOutput :: "'x jetstream \<Rightarrow> sha256 \<Rightarrow> agent_codec \<Rightarrow> IPCClient \<Rightarrow> OutboundMessage \<Rightarrow> 'x client_state \<Rightarrow> unit result \<times> 'x client_state" where
  "SendOutput js sha cd c msg s =
     (case defensive js sha c s of
        (Inl err, s) \<Rightarrow> (Inl (Wrapf ''send output'' err), s)
      | (Inr _, s) \<Rightarrow>
          (case (if om_Text msg = [] then Inr None else map_sum id Some (ac_text cd (om_Text msg))) of
             Inl err \<Rightarrow> (Inl (Wrapf ''marshal payload'' err), s)
           | Inr payload \<Rightarrow>
               (case ac_msg cd (ic_group c) (ic_agentID c) (om_Type msg) payload of
                  Inl err \<Rightarrow> (Inl (Wrapf ''marshal ipc message'' err), s)
                | Inr data \<Rightarrow>
                    (case js_Publish js (client_outputSubject sha c) data (ics_js s) of
                       (Inl err, x) \<Rightarrow> (Inl (Wrapf ''publish output'' err), s\<lparr>ics_js := x\<rparr>)
                     | (Inr _, x) \<Rightarrow> (Inr (), s\<lparr>ics_js := x\<rparr>)))))"

text \<open>
  \<open>ReadInput\<close> starts the reader once and remembers a failure; \<open>startReadInput\<close> waits for the
  consumer. The reader's goroutine is \<open>read_turn\<close>, on the same turns as the broker's loop: a
  failed acknowledgement ends it with an error, an unreadable message is acknowledged.
\<close>

definition startReadInput :: "'x jetstream \<Rightarrow> sha256 \<Rightarrow> IPCClient \<Rightarrow> (unit result \<times> bool) list \<Rightarrow> 'x client_state \<Rightarrow> unit result \<times> 'x client_state" where
  "startReadInput js sha c lookups s =
     (case defensive js sha c s of
        (Inl err, s) \<Rightarrow> (Inl (Wrapf ''read input'' err), s)
      | (Inr _, s) \<Rightarrow> (fetch_consumer 1 lookups (''agent-'' @ SanitizeAgentID (ic_agentID c)), s))"

record read_run =
  rr_out :: "AgentInput list"
  rr_sent :: "nat list"
  rr_acked :: "nat list"
  rr_naked :: "nat list"
  rr_errs :: "goerr list"
  rr_done :: bool

definition read_turn :: "(string \<Rightarrow> AgentInput result) \<Rightarrow> turn \<Rightarrow> read_run \<Rightarrow> read_run" where
  "read_turn dec t r =
     (if rr_done r then r
      else if tn_stopped t then r\<lparr>rr_done := True\<rparr>
      else case tn_next t of
        Inl err \<Rightarrow>
          if tn_ctxErr t then r\<lparr>rr_done := True\<rparr>
          else r\<lparr>rr_errs := rr_errs r @ [Wrapf ''ipc read'' err], rr_done := True\<rparr>
      | Inr j \<Rightarrow>
          (case dec (j_Data j) of
             Inl err \<Rightarrow> if tn_ackOk t then r\<lparr>rr_acked := rr_acked r @ [j_Seq j]\<rparr> else r
           | Inr msg \<Rightarrow>
               (case tn_select t of
                  Sent \<Rightarrow>
                    (let r = r\<lparr>rr_out := rr_out r @ [msg], rr_sent := rr_sent r @ [j_Seq j]\<rparr>
                     in if tn_ackOk t then r\<lparr>rr_acked := rr_acked r @ [j_Seq j]\<rparr>
                        else r\<lparr>rr_errs := rr_errs r @ [Errorf ''ack ipc message''], rr_done := True\<rparr>)
                | _ \<Rightarrow> r\<lparr>rr_naked := rr_naked r @ [j_Seq j], rr_done := True\<rparr>)))"

definition read_run0 :: read_run where
  "read_run0 = \<lparr>rr_out = [], rr_sent = [], rr_acked = [], rr_naked = [], rr_errs = [], rr_done = False\<rparr>"

definition read_loop :: "(string \<Rightarrow> AgentInput result) \<Rightarrow> unit result \<Rightarrow> turn list \<Rightarrow> read_run" where
  "read_loop dec messages ts =
     (case messages of
        Inl err \<Rightarrow> read_run0\<lparr>rr_errs := [Wrapf ''create message iterator'' err], rr_done := True\<rparr>
      | Inr _ \<Rightarrow> fold (read_turn dec) ts read_run0)"

section \<open>The life cycle\<close>

record agent_config =
  ag_NATSURL :: string
  ag_NATSUser :: string
  ag_NATSPassword :: string
  ag_GroupJID :: string
  ag_AgentID :: string
  ag_ProxyURL :: string
  ag_Provider :: string
  ag_Group :: string

definition LoadConfig :: "(string \<Rightarrow> string) \<Rightarrow> agent_config result" where
  "LoadConfig getenv =
     (let cfg = \<lparr>ag_NATSURL = (if getenv ''NATS_URL'' = [] then ''nats://localhost:4222'' else getenv ''NATS_URL''),
            ag_NATSUser = getenv ''NATS_USER'', ag_NATSPassword = getenv ''NATS_PASSWORD'', ag_GroupJID = getenv ''KRACLAW_GROUP'',
            ag_AgentID = (if getenv ''KRACLAW_AGENT_ID'' = [] then ''main'' else getenv ''KRACLAW_AGENT_ID''),
            ag_ProxyURL = getenv ''KRACLAW_PROXY_URL'', ag_Provider = getenv ''KRACLAW_PROVIDER'', ag_Group = getenv ''GROUP_FOLDER''\<rparr>
      in if ag_GroupJID cfg = [] then Inl (Errorf ''KRACLAW_GROUP is required'')
         else if ag_Group cfg = [] then Inl (Errorf ''GROUP_FOLDER is required'')
         else Inr cfg)"

fun mkdirs :: "(string \<Rightarrow> unit result) \<Rightarrow> string list \<Rightarrow> unit result" where
  "mkdirs mkdirAll [] = Inr ()"
| "mkdirs mkdirAll (d # ds) = (case mkdirAll d of Inl err \<Rightarrow> Inl (Wrapf (''mkdir '' @ d) err) | Inr _ \<Rightarrow> mkdirs mkdirAll ds)"

definition ensureGroupDirs :: "(string \<Rightarrow> string) \<Rightarrow> (string \<Rightarrow> string \<Rightarrow> string) \<Rightarrow> (string \<Rightarrow> unit result) \<Rightarrow> unit result" where
  "ensureGroupDirs getenv join mkdirAll =
     (if getenv ''HOME'' = [] then Inl (Errorf ''HOME unset'')
      else mkdirs mkdirAll [join (getenv ''HOME'') ''.claude'',
        (if getenv ''KRACLAW_AGENT_ARCHIVES_DIR'' = [] then ''/workspace/archives'' else getenv ''KRACLAW_AGENT_ARCHIVES_DIR'')])"

record 'x agent_env =
  ae_args :: "string list"
  ae_getenv :: "string \<Rightarrow> string"
  ae_join :: "string \<Rightarrow> string \<Rightarrow> string"
  ae_mkdirAll :: "string \<Rightarrow> unit result"
  ae_connect :: "string \<Rightarrow> string \<Rightarrow> string \<Rightarrow> unit result"
  ae_js :: "'x jetstream"
  ae_sha :: sha256
  ae_codec :: agent_codec

definition shutdown_message :: OutboundMessage where
  "shutdown_message = \<lparr>om_Type = ''shutdown'', om_Text = []\<rparr>"

text \<open>The handler is the provider's loop; the errors of the last send are only logged.\<close>

definition Run :: "'x agent_env \<Rightarrow> (IPCClient \<Rightarrow> 'x client_state \<Rightarrow> unit result \<times> 'x client_state) \<Rightarrow> 'x client_state \<Rightarrow> unit result \<times> 'x client_state" where
  "Run e handler s =
     (if 1 < length (ae_args e) \<and> ae_args e ! 1 = ''--prepull'' then (Inr (), s)
      else case LoadConfig (ae_getenv e) of
        Inl err \<Rightarrow> (Inl (Wrapf ''load config'' err), s)
      | Inr cfg \<Rightarrow>
          (case ensureGroupDirs (ae_getenv e) (ae_join e) (ae_mkdirAll e) of
             Inl err \<Rightarrow> (Inl (Wrapf ''ensure group dirs'' err), s)
           | Inr _ \<Rightarrow>
               (case ae_connect e (ag_NATSURL cfg) (ag_NATSUser cfg) (ag_NATSPassword cfg) of
                  Inl err \<Rightarrow> (Inl (Wrapf ''connect nats'' (Wrapf ''connect nats'' err)), s)
                | Inr _ \<Rightarrow>
                    (case NewIPCClient (ag_Group cfg) (ag_AgentID cfg) (ae_getenv e ''KRACLAW_AGENT_DEFENSIVE_STREAM'' = ''1'') of
                       Inl err \<Rightarrow> (Inl (Wrapf ''create ipc client'' err), s)
                     | Inr c \<Rightarrow>
                         (case handler c s of
                            (r, s) \<Rightarrow>
                              (case SendOutput (ae_js e) (ae_sha e) (ae_codec e) c shutdown_message s of
                                 (_, s) \<Rightarrow> ((case r of Inl err \<Rightarrow> Inl (Wrapf ''agent handler'' err) | Inr _ \<Rightarrow> Inr ()), s)))))))"

section \<open>Closing the broker\<close>

text \<open>What happens to the broker's consumers: a subscription, the end of a started goroutine, and \<open>Close\<close>.\<close>

inductive consumer_step :: "consumers \<Rightarrow> consumers \<Rightarrow> bool" where
  start: "consume_start messages grp c = (r, c') \<Longrightarrow> consumer_step c c'"
| finish: "n < cn_nextID c \<Longrightarrow> consumer_step c (consume_end n c)"
| close: "consumer_step c (snd (broker_Close c))"

inductive consumers_reachable :: "consumers \<Rightarrow> bool" where
  init: "consumers_reachable \<lparr>cn_closed = False, cn_nextID = 0, cn_cleanups = [], cn_cancelled = [], cn_stopped = [], cn_closedCh = False\<rparr>"
| step: "consumers_reachable c \<Longrightarrow> consumer_step c c' \<Longrightarrow> consumers_reachable c'"

definition consumers_inv :: "consumers \<Rightarrow> bool" where
  "consumers_inv c \<longleftrightarrow>
     distinct (cn_cleanups c) \<and> set (cn_cleanups c) \<inter> set (cn_cancelled c) = {} \<and> set (cn_stopped c) = set (cn_cancelled c) \<and>
     (\<forall>n. n \<in> set (cn_cleanups c) \<or> n \<in> set (cn_cancelled c) \<longleftrightarrow> n < cn_nextID c) \<and>
     cn_closedCh c = cn_closed c \<and> (cn_closed c \<longrightarrow> cn_cleanups c = [])"

lemma consume_start_inv: "consumers_inv c \<Longrightarrow> consume_start messages grp c = (r, c') \<Longrightarrow> consumers_inv c'"
  by (auto simp: consumers_inv_def consume_start_def less_Suc_eq split: sum.splits if_splits)

lemma consume_end_inv: "consumers_inv c \<Longrightarrow> n < cn_nextID c \<Longrightarrow> consumers_inv (consume_end n c)"
  by (auto simp: consumers_inv_def consume_end_def)

lemma Close_inv: "consumers_inv c \<Longrightarrow> consumers_inv (snd (broker_Close c))"
  by (auto simp: consumers_inv_def broker_Close_def)

lemma consumers_reachable_inv: "consumers_reachable c \<Longrightarrow> consumers_inv c"
proof (induction rule: consumers_reachable.induct)
  case (step c c')
  then show ?case
    by (auto elim!: consumer_step.cases intro: consume_start_inv consume_end_inv Close_inv)
qed (simp add: consumers_inv_def)

text \<open>
  No subscription outlives the broker: after any sequence of subscriptions, ends of
  subscriptions and closings, a goroutine that was started and is not registered for
  cleaning up has its context cancelled and its iterator stopped, and once the broker is
  closed this holds for every goroutine ever started and no new one can be started.
\<close>

theorem closed_broker_runs_nothing:
  assumes "consumers_reachable c"
  shows "(\<forall>n < cn_nextID c. n \<notin> set (cn_cleanups c) \<longrightarrow> n \<in> set (cn_cancelled c) \<inter> set (cn_stopped c)) \<and>
    (\<forall>n < cn_nextID (snd (broker_Close c)). n \<in> set (cn_cancelled (snd (broker_Close c))) \<inter> set (cn_stopped (snd (broker_Close c)))) \<and>
    (\<forall>messages grp. \<not> is_ok (fst (consume_start messages grp (snd (broker_Close c)))))"
proof -
  have inv: "consumers_inv c" "consumers_inv (snd (broker_Close c))"
    using consumers_reachable_inv [OF assms] Close_inv by blast+
  have closed: "cn_closed (snd (broker_Close c))"
    by (simp add: broker_Close_def)
  then have "\<not> is_ok (fst (consume_start messages grp (snd (broker_Close c))))" for messages grp
    by (simp add: consume_start_def split: sum.split)
  with inv closed show ?thesis
    by (auto simp: consumers_inv_def)
qed

theorem closed_broker_runs_nothing_witness:
  "\<exists>c. consumers_reachable c \<and> cn_nextID c = 1 \<and> 0 \<in> set (cn_cancelled (snd (broker_Close c)))"
proof -
  let ?c0 = "\<lparr>cn_closed = False, cn_nextID = 0, cn_cleanups = [], cn_cancelled = [], cn_stopped = [], cn_closedCh = False\<rparr>"
  let ?c = "snd (consume_start (Inr ()) ''g'' ?c0)"
  have reach: "consumers_reachable ?c"
    by (rule consumers_reachable.step [OF consumers_reachable.init consumer_step.start [of "Inr ()" "''g''" _ "Inr 0"]])
      (simp add: consume_start_def)
  have "cn_nextID ?c = 1" "0 < cn_nextID (snd (broker_Close ?c))"
    by (simp_all add: consume_start_def broker_Close_def)
  with closed_broker_runs_nothing [OF reach] reach show ?thesis
    by blast
qed

section \<open>The client and the broker\<close>

lemma client_stream_agrees: "client_stream_config sha c = ipc_stream_config (SanitizeGroupID sha (ic_group c))"
  by (simp add: client_stream_config_def ipc_stream_config_def client_streamName_def ipcStreamName_def Let_def)

lemma client_consumer_agrees:
  "''agent-'' @ SanitizeAgentID (ic_agentID c) = co_Durable (agent_consumer_config (SanitizeGroupID sha (ic_group c)) (ic_agentID c))"
  by (simp add: agent_consumer_config_def)

definition read_inv :: "nat set \<Rightarrow> read_run \<Rightarrow> bool" where
  "read_inv bad r \<longleftrightarrow> length (rr_out r) = length (rr_sent r) \<and> set (rr_acked r) \<subseteq> set (rr_sent r) \<union> bad \<and>
     length (rr_naked r) + length (rr_errs r) \<le> 1 \<and>
     (\<not> rr_done r \<longrightarrow> rr_naked r = [] \<and> rr_errs r = [] \<and> set (rr_sent r) \<subseteq> set (rr_acked r)) \<and>
     (rr_errs r = [] \<longrightarrow> set (rr_sent r) \<subseteq> set (rr_acked r))"

definition unreadable_seqs :: "(string \<Rightarrow> AgentInput result) \<Rightarrow> turn list \<Rightarrow> nat set" where
  "unreadable_seqs dec ts = {j_Seq j | t j. t \<in> set ts \<and> tn_next t = Inr j \<and> \<not> is_ok (dec (j_Data j))}"

lemma read_turn_inv:
  assumes "read_inv bad r" and "\<And>j. tn_next t = Inr j \<Longrightarrow> \<not> is_ok (dec (j_Data j)) \<Longrightarrow> j_Seq j \<in> bad"
  shows "read_inv bad (read_turn dec t r)"
  using assms
  by (cases "tn_next t"; cases "tn_select t"; cases "dec (j_Data (projr (tn_next t)))")
    (auto simp: read_turn_def read_inv_def Let_def)

lemma fold_read_inv:
  "set ts \<subseteq> set all \<Longrightarrow> read_inv (unreadable_seqs dec all) r \<Longrightarrow> read_inv (unreadable_seqs dec all) (fold (read_turn dec) ts r)"
proof (induction ts arbitrary: r)
  case (Cons t ts)
  have "read_inv (unreadable_seqs dec all) (read_turn dec t r)"
    by (rule read_turn_inv) (use Cons.prems in \<open>auto simp: unreadable_seqs_def\<close>)
  with Cons show ?case by simp
qed simp

text \<open>
  The agent's reader acknowledges a message only after it handed it to the agent, or when it
  cannot be decoded; all it handed over is acknowledged unless it ends with an error; and it
  reports at most one error, so the report never blocks on the channel of capacity one.
\<close>

theorem reader_acks_after_delivery:
  "set (rr_acked (read_loop dec messages ts)) \<subseteq> set (rr_sent (read_loop dec messages ts)) \<union> unreadable_seqs dec ts \<and>
   (rr_errs (read_loop dec messages ts) = [] \<longrightarrow> set (rr_sent (read_loop dec messages ts)) \<subseteq> set (rr_acked (read_loop dec messages ts))) \<and>
   length (rr_out (read_loop dec messages ts)) = length (rr_sent (read_loop dec messages ts)) \<and>
   length (rr_naked (read_loop dec messages ts)) + length (rr_errs (read_loop dec messages ts)) \<le> 1"
  using fold_read_inv [of ts ts dec read_run0]
  by (cases messages) (auto simp: read_inv_def read_run0_def read_loop_def)

text \<open>
  The life cycle: whatever the handler answers, the agent that got as far as its handler
  announces its shutdown as its last output.
\<close>

lemma Run_announces_shutdown:
  assumes "Run e handler s = (r, s')" and "handler c s = (hr, s1)" and "\<not> (1 < length (ae_args e) \<and> ae_args e ! 1 = ''--prepull'')"
    and "LoadConfig (ae_getenv e) = Inr cfg" and "ensureGroupDirs (ae_getenv e) (ae_join e) (ae_mkdirAll e) = Inr ()"
    and "ae_connect e (ag_NATSURL cfg) (ag_NATSUser cfg) (ag_NATSPassword cfg) = Inr ()"
    and "NewIPCClient (ag_Group cfg) (ag_AgentID cfg) (ae_getenv e ''KRACLAW_AGENT_DEFENSIVE_STREAM'' = ''1'') = Inr c"
  shows "s' = snd (SendOutput (ae_js e) (ae_sha e) (ae_codec e) c shutdown_message s1) \<and> is_ok r = is_ok hr"
  using assms by (cases hr; cases "SendOutput (ae_js e) (ae_sha e) (ae_codec e) c shutdown_message s1") (simp_all add: Run_def, force+)

end
