(* ===== verification/Agent_Main.thy ===== *)
theory Agent_Main
  imports Agent_Ipc Cred_Proxy
begin

text \<open>
  The agents: \<open>cmd/kraclaw-agent-openai\<close> (the loop \<open>runOpenAI\<close> and the client \<open>codex_client.go\<close>) and
  the loop of \<open>cmd/kraclaw-agent-anthropic\<close>, whose stream of the provider's SDK is a parameter.
  The answer of the \<open>n\<close>-th HTTP request is a parameter too.
\<close>

record conversationTurn =
  ct_role :: string
  ct_text :: string

section \<open>Requests to the Responses API\<close>

record codexContentItem =
  cx_Type :: string
  cx_Text :: string

record codexInputItem =
  cx_ItemType :: string
  cx_Role :: string
  cx_Content :: "codexContentItem list"

record codexReasoning =
  cx_Effort :: string
  cx_Summary :: string

record codexResponsesRequest =
  cq_Model :: string
  cq_Instructions :: string
  cq_Input :: "codexInputItem list"
  cq_ToolChoice :: string
  cq_ParallelToolCalls :: bool
  cq_Reasoning :: "codexReasoning option"
  cq_Store :: bool
  cq_Stream :: bool
  cq_Include :: "string list"
  cq_PromptCacheKey :: string
  cq_Verbosity :: string
  cq_ClientMetadata :: "(string \<times> string) list"

definition codexMessage :: "string \<Rightarrow> string \<Rightarrow> codexInputItem" where
  "codexMessage role txt = \<lparr>cx_ItemType = ''message'', cx_Role = role,
     cx_Content = [\<lparr>cx_Type = (if role = ''assistant'' then ''output_text'' else ''input_text''), cx_Text = txt\<rparr>]\<rparr>"

definition reasoningForModel :: "string \<Rightarrow> codexReasoning option" where
  "reasoningForModel model =
     (if model = [] then None
      else let lower = ToLower model
        in if HasPrefix lower ''gpt-5'' \<or> HasPrefix lower ''o1'' \<or> HasPrefix lower ''o3'' \<or> HasPrefix lower ''o4''
           then Some \<lparr>cx_Effort = ''medium'', cx_Summary = ''auto''\<rparr> else None)"

definition buildCodexResponsesRequest :: "string \<Rightarrow> string \<Rightarrow> conversationTurn list \<Rightarrow> string \<Rightarrow> string \<Rightarrow> string \<Rightarrow> codexResponsesRequest" where
  "buildCodexResponsesRequest instructions model history txt threadID installationID =
     (let reasoning = reasoningForModel model
      in \<lparr>cq_Model = model, cq_Instructions = instructions,
          cq_Input = map (\<lambda>t. codexMessage (ct_role t) (ct_text t)) history @ [codexMessage ''user'' txt],
          cq_ToolChoice = ''auto'', cq_ParallelToolCalls = False, cq_Reasoning = reasoning, cq_Store = False, cq_Stream = True,
          cq_Include = (if reasoning = None then [] else [''reasoning.encrypted_content'']),
          cq_PromptCacheKey = threadID, cq_Verbosity = ''medium'',
          cq_ClientMetadata = [(''x-codex-installation-id'', installationID)]\<rparr>)"

definition setCodexHeaders :: "string \<Rightarrow> string \<Rightarrow> string \<Rightarrow> string \<Rightarrow> Header \<Rightarrow> Header" where
  "setCodexHeaders groupJID sessionID threadID installationID =
     Header_Set ''x-codex-window-id'' (threadID @ '':0'') \<circ> Header_Set ''x-codex-installation-id'' installationID \<circ>
     Header_Set ''x-client-request-id'' threadID \<circ> Header_Set ''thread-id'' threadID \<circ> Header_Set ''session-id'' sessionID \<circ>
     Header_Set ''version'' ''0.0.0-kraclaw'' \<circ> Header_Set ''Content-Type'' ''application/json'' \<circ> Header_Set ''Accept'' ''text/event-stream'' \<circ>
     Header_Set ''X-Kraclaw-Provider'' ''openai'' \<circ> Header_Set ''X-Kraclaw-Group'' groupJID"

section \<open>Server-sent events\<close>

text \<open>
  \<open>bufio.Scanner\<close> with a buffer of 1 MiB: the lines without their line ends, up to the first one
  that does not fit; a failing read ends the input after the data it gave.
\<close>

definition nl :: char where "nl = CHR 0x0A"
definition cr :: char where "cr = CHR 0x0D"

definition raw_lines :: "string \<Rightarrow> string list" where
  "raw_lines s = (let ls = Split s nl in if last ls = [] then butlast ls else ls)"

definition drop_cr :: "string \<Rightarrow> string" where
  "drop_cr l = (if l \<noteq> [] \<and> last l = cr then butlast l else l)"

definition fits :: "string \<Rightarrow> bool" where
  "fits l \<longleftrightarrow> length l < 1048576"

definition ErrTooLong :: goerr where
  "ErrTooLong = Errorf ''bufio.Scanner: token too long''"

definition scan_lines :: "string \<times> goerr option \<Rightarrow> string list \<times> goerr option" where
  "scan_lines body =
     (let ls = raw_lines (fst body)
      in (map drop_cr (takeWhile fits ls), if list_all fits ls then snd body else Some ErrTooLong))"

type_synonym sse_json = "string \<Rightarrow> (string \<times> string) result"

text \<open>\<open>flush\<close>: the pending data lines, whether the stream is done, and the text so far.\<close>

definition sse_flush :: "sse_json \<Rightarrow> string list \<Rightarrow> string \<Rightarrow> (bool \<times> string) result" where
  "sse_flush dec dataLines out =
     (if dataLines = [] then Inr (False, out)
      else (let data = Join dataLines [nl]
            in if TrimSpace data = ''[DONE]'' then Inr (True, out)
               else case dec data of
                 Inl err \<Rightarrow> Inl err
               | Inr (ty, delta) \<Rightarrow>
                   Inr (False, if ty = ''response.output_text.delta'' \<or> ty = ''response.text.delta'' then out @ delta else out)))"

definition add_line :: "string \<Rightarrow> string list \<Rightarrow> string list" where
  "add_line line dataLines =
     (if HasPrefix line '':'' then dataLines
      else case str_Index line '':'' of
        None \<Rightarrow> dataLines
      | Some i \<Rightarrow> if take i line \<noteq> ''data'' then dataLines else dataLines @ [TrimPrefix (drop (Suc i) line) '' ''])"

fun sse_loop :: "sse_json \<Rightarrow> string list \<Rightarrow> goerr option \<Rightarrow> string list \<Rightarrow> string \<Rightarrow> string \<times> goerr option" where
  "sse_loop dec [] scanErr dataLines out =
     (case scanErr of
        Some err \<Rightarrow> (out, Some err)
      | None \<Rightarrow> (case sse_flush dec dataLines out of Inl err \<Rightarrow> (out, Some err) | Inr (_, out) \<Rightarrow> (out, None)))"
| "sse_loop dec (line # ls) scanErr dataLines out =
     (if line = [] then
        (case sse_flush dec dataLines out of
           Inl err \<Rightarrow> (out, Some err)
         | Inr (True, out) \<Rightarrow> (out, None)
         | Inr (False, out) \<Rightarrow> sse_loop dec ls scanErr [] out)
      else sse_loop dec ls scanErr (add_line line dataLines) out)"

definition parseSSEText :: "sse_json \<Rightarrow> string \<times> goerr option \<Rightarrow> string \<times> goerr option" where
  "parseSSEText dec body = (case scan_lines body of (ls, err) \<Rightarrow> sse_loop dec ls err [] [])"

section \<open>The client\<close>

record codexClient =
  cl_proxyURL :: string
  cl_groupJID :: string
  cl_sessionID :: string
  cl_threadID :: string
  cl_installationID :: string

definition newCodexClient :: "string \<Rightarrow> string \<Rightarrow> string \<Rightarrow> string \<Rightarrow> string \<Rightarrow> codexClient" where
  "newCodexClient proxyURL groupJID uuid1 uuid2 uuid3 =
     \<lparr>cl_proxyURL = TrimRight proxyURL ''/'', cl_groupJID = groupJID, cl_sessionID = uuid1, cl_threadID = uuid2, cl_installationID = uuid3\<rparr>"

text \<open>The answer of the upstream: no response, or the status and the body as it can be read.\<close>

datatype codex_answer = CodexError goerr | CodexReply nat string "string \<times> goerr option"

record codex_env =
  ce_instructions :: string
  ce_marshal :: "codexResponsesRequest \<Rightarrow> string result"
  ce_parseURL :: "string \<Rightarrow> unit result"
  ce_do :: "string \<Rightarrow> Header \<Rightarrow> string \<Rightarrow> codex_answer"
  ce_json :: sse_json

definition streamResponse :: "codex_env \<Rightarrow> codexClient \<Rightarrow> string \<Rightarrow> conversationTurn list \<Rightarrow> string \<Rightarrow> string result" where
  "streamResponse e c model history txt =
     (case ce_marshal e (buildCodexResponsesRequest (ce_instructions e) model history txt (cl_threadID c) (cl_installationID c)) of
        Inl err \<Rightarrow> Inl (Wrapf ''marshal codex request'' err)
      | Inr body \<Rightarrow>
          (case ce_parseURL e (cl_proxyURL c @ ''/v1/responses'') of
             Inl err \<Rightarrow> Inl (Wrapf ''create codex request'' err)
           | Inr _ \<Rightarrow>
               (case ce_do e (cl_proxyURL c @ ''/v1/responses'')
                       (setCodexHeaders (cl_groupJID c) (cl_sessionID c) (cl_threadID c) (cl_installationID c) Map.empty) body of
                  CodexError err \<Rightarrow> Inl (Wrapf ''post codex response'' err)
                | CodexReply code status reply \<Rightarrow>
                    if code < 200 \<or> 300 \<le> code
                    then Inl (Errorf (''openai upstream returned '' @ status @ '': '' @ TrimSpace (take 4096 (fst reply))))
                    else (case parseSSEText (ce_json e) reply of
                            (out, Some err) \<Rightarrow> Inl (Wrapf ''parse codex stream'' err)
                          | (out, None) \<Rightarrow> Inr out))))"

section \<open>The loops\<close>

record agent_json =
  aj_text :: "string \<Rightarrow> (string \<times> string) result"
  aj_model :: "string \<Rightarrow> string result"

definition extractMessageText :: "agent_json \<Rightarrow> string \<Rightarrow> string result" where
  "extractMessageText j payload =
     (case aj_text j payload of
        Inl err \<Rightarrow> Inl err
      | Inr (messages, txt) \<Rightarrow>
          if messages \<noteq> [] then Inr messages
          else if txt \<noteq> [] then Inr txt
          else Inl (Errorf ''no text content in payload''))"

record 'x agent_run =
  ar_model :: string
  ar_history :: "conversationTurn list"
  ar_ipc :: "'x client_state"

datatype agent_input = AgentCtxDone | AgentIpcErr "goerr option" | AgentInput AgentInput | AgentClosed

type_synonym responder = "nat \<Rightarrow> string \<Rightarrow> conversationTurn list \<Rightarrow> string \<Rightarrow> string result"

definition reply_message :: "string \<Rightarrow> OutboundMessage" where
  "reply_message txt = \<lparr>om_Type = ''message'', om_Text = txt\<rparr>"

definition error_reply :: string where
  "error_reply = ''I encountered an error processing your message. Please try again.''"

definition empty_reply :: string where
  "empty_reply = ''I received an empty response from the model. Please try again.''"

text \<open>One \<open>message\<close>: \<open>send\<close> is \<open>SendOutput\<close> of the client, \<open>n\<close> the number of the request.\<close>

definition answer_message :: "(OutboundMessage \<Rightarrow> 'x client_state \<Rightarrow> unit result \<times> 'x client_state) \<Rightarrow> agent_json \<Rightarrow> responder \<Rightarrow>
    nat \<Rightarrow> string \<Rightarrow> 'x agent_run \<Rightarrow> 'x agent_run" where
  "answer_message send j respond n payload a =
     (case extractMessageText j payload of
        Inl err \<Rightarrow> a
      | Inr txt \<Rightarrow>
          (case respond n (ar_model a) (ar_history a) txt of
             Inl err \<Rightarrow> a\<lparr>ar_ipc := snd (send (reply_message error_reply) (ar_ipc a))\<rparr>
           | Inr response \<Rightarrow>
               (let full = (if response = [] then empty_reply else response)
                in case send (reply_message full) (ar_ipc a) of
                     (Inl err, s) \<Rightarrow> a\<lparr>ar_ipc := s\<rparr>
                   | (Inr _, s) \<Rightarrow> a\<lparr>ar_ipc := s,
                       ar_history := ar_history a @ [\<lparr>ct_role = ''user'', ct_text = txt\<rparr>, \<lparr>ct_role = ''assistant'', ct_text = full\<rparr>]\<rparr>)))"

definition set_model :: "agent_json \<Rightarrow> string \<Rightarrow> 'x agent_run \<Rightarrow> 'x agent_run" where
  "set_model j payload a =
     (case aj_model j payload of
        Inl err \<Rightarrow> a
      | Inr model \<Rightarrow> if model = [] then a else a\<lparr>ar_model := model\<rparr>)"

fun agent_loop :: "(OutboundMessage \<Rightarrow> 'x client_state \<Rightarrow> unit result \<times> 'x client_state) \<Rightarrow> agent_json \<Rightarrow> responder \<Rightarrow>
    agent_input list \<Rightarrow> nat \<Rightarrow> 'x agent_run \<Rightarrow> unit result option \<times> 'x agent_run" where
  "agent_loop send j respond [] n a = (None, a)"
| "agent_loop send j respond (AgentCtxDone # es) n a = (Some (Inr ()), a)"
| "agent_loop send j respond (AgentIpcErr err # es) n a =
     (Some (Inl (case err of Some e \<Rightarrow> Wrapf ''ipc read failure'' e | None \<Rightarrow> Errorf ''ipc read failure: %!w(<nil>)'')), a)"
| "agent_loop send j respond (AgentClosed # es) n a = (Some (Inl (Errorf ''ipc input channel closed unexpectedly'')), a)"
| "agent_loop send j respond (AgentInput msg # es) n a =
     (if ai_Type msg = ''message'' then agent_loop send j respond es (Suc n) (answer_message send j respond n (ai_Payload msg) a)
      else if ai_Type msg = ''set_model'' then agent_loop send j respond es n (set_model j (ai_Payload msg) a)
      else if ai_Type msg = ''shutdown'' then (Some (Inr ()), a)
      else agent_loop send j respond es n a)"

definition agent_start :: "(string \<Rightarrow> string) \<Rightarrow> string \<Rightarrow> string \<Rightarrow> (string \<times> string \<times> string) result" where
  "agent_start getenv modelVar defaultModel =
     (if getenv ''KRACLAW_PROXY_URL'' = [] then Inl (Errorf ''KRACLAW_PROXY_URL is required'')
      else if getenv ''KRACLAW_GROUP'' = [] then Inl (Errorf ''KRACLAW_GROUP is required'')
      else Inr (if getenv modelVar = [] then defaultModel else getenv modelVar, getenv ''KRACLAW_PROXY_URL'', getenv ''KRACLAW_GROUP''))"

definition run_provider :: "'x agent_env \<Rightarrow> agent_json \<Rightarrow> string \<Rightarrow> string \<Rightarrow> (string \<Rightarrow> string \<Rightarrow> responder) \<Rightarrow>
    (unit result \<times> bool) list \<Rightarrow> agent_input list \<Rightarrow> IPCClient \<Rightarrow> 'x client_state \<Rightarrow> unit result option \<times> 'x agent_run" where
  "run_provider e j modelVar defaultModel respond lookups inputs c s =
     (case agent_start (ae_getenv e) modelVar defaultModel of
        Inl err \<Rightarrow> (Some (Inl err), \<lparr>ar_model = [], ar_history = [], ar_ipc = s\<rparr>)
      | Inr (model, proxyURL, groupJID) \<Rightarrow>
          (case startReadInput (ae_js e) (ae_sha e) c lookups s of
             (Inl err, s) \<Rightarrow> (Some (Inl (Wrapf ''read input'' err)), \<lparr>ar_model = model, ar_history = [], ar_ipc = s\<rparr>)
           | (Inr _, s) \<Rightarrow>
               agent_loop (SendOutput (ae_js e) (ae_sha e) (ae_codec e) c) j (respond proxyURL groupJID) inputs 0
                 \<lparr>ar_model = model, ar_history = [], ar_ipc = s\<rparr>))"

definition runOpenAI :: "'x agent_env \<Rightarrow> agent_json \<Rightarrow> (nat \<Rightarrow> codex_env) \<Rightarrow> string \<times> string \<times> string \<Rightarrow> (unit result \<times> bool) list \<Rightarrow> agent_input list \<Rightarrow>
    IPCClient \<Rightarrow> 'x client_state \<Rightarrow> unit result option \<times> 'x agent_run" where
  "runOpenAI e j codex uuids =
     run_provider e j ''OPENAI_MODEL'' ''gpt-5.5''
       (\<lambda>proxyURL groupJID n. streamResponse (codex n)
          (newCodexClient proxyURL groupJID (fst uuids) (fst (snd uuids)) (snd (snd uuids))))"

text \<open>The SDK's stream of the \<open>n\<close>-th request: the text deltas it delivered and its error.\<close>

definition anthropic_respond :: "(nat \<Rightarrow> string \<Rightarrow> string \<Rightarrow> string \<Rightarrow> conversationTurn list \<Rightarrow> string list \<times> goerr option) \<Rightarrow> string \<Rightarrow> string \<Rightarrow> responder" where
  "anthropic_respond stream proxyURL groupJID n model history txt =
     (case stream n proxyURL groupJID model (history @ [\<lparr>ct_role = ''user'', ct_text = txt\<rparr>]) of
        (deltas, Some err) \<Rightarrow> Inl err
      | (deltas, None) \<Rightarrow> Inr (concat deltas))"

definition runAnthropic :: "'x agent_env \<Rightarrow> agent_json \<Rightarrow> (nat \<Rightarrow> string \<Rightarrow> string \<Rightarrow> string \<Rightarrow> conversationTurn list \<Rightarrow> string list \<times> goerr option) \<Rightarrow>
    (unit result \<times> bool) list \<Rightarrow> agent_input list \<Rightarrow> IPCClient \<Rightarrow> 'x client_state \<Rightarrow> unit result option \<times> 'x agent_run" where
  "runAnthropic e j stream = run_provider e j ''ANTHROPIC_MODEL'' ''claude-sonnet-4-6'' (anthropic_respond stream)"

section \<open>The stream parser reads what the API writes\<close>

text \<open>
  A stream as the format of server-sent events allows it. A line carries a piece of data, with or
  without the space after the colon, or anything else: a comment, another field. A line ends
  in LF or CR LF, and a blank line ends an event.
\<close>

datatype sse_line = Data bool string | Other string

fun line_text :: "sse_line \<Rightarrow> string" where
  "line_text (Data True v) = ''data: '' @ v"
| "line_text (Data False v) = ''data:'' @ v"
| "line_text (Other l) = l"

fun line_ok :: "sse_line \<Rightarrow> bool" where
  "line_ok (Data sp v) \<longleftrightarrow> (\<not> sp \<longrightarrow> \<not> HasPrefix v '' '') \<and> nl \<notin> set v \<and> (v = [] \<or> last v \<noteq> cr) \<and> length v < 1000000"
| "line_ok (Other l) \<longleftrightarrow> l \<noteq> [] \<and> \<not> HasPrefix l ''data:'' \<and> nl \<notin> set l \<and> last l \<noteq> cr \<and> length l < 1000000"

definition eol :: "bool \<Rightarrow> string" where
  "eol crlf = (if crlf then [cr, nl] else [nl])"

definition enc_lines :: "(sse_line \<times> bool) list \<Rightarrow> string" where
  "enc_lines ls = concat (map (\<lambda>(l, e). line_text l @ eol e) ls)"

definition enc_event :: "(sse_line \<times> bool) list \<times> bool \<Rightarrow> string" where
  "enc_event ev = enc_lines (fst ev) @ eol (snd ev)"

fun data_of :: "sse_line \<Rightarrow> string list" where
  "data_of (Data sp v) = [v]"
| "data_of (Other l) = []"

definition data_lines :: "(sse_line \<times> bool) list \<Rightarrow> string list" where
  "data_lines ls = concat (map (data_of \<circ> fst) ls)"

definition sse_payload :: "(sse_line \<times> bool) list \<Rightarrow> string" where
  "sse_payload ls = Join (data_lines ls) [nl]"

text \<open>What an event adds to the text: the delta when it is a text delta, nothing when it has another type or no data.\<close>

definition delta_of :: "sse_json \<Rightarrow> (sse_line \<times> bool) list \<Rightarrow> string" where
  "delta_of dec ls =
     (if data_lines ls = [] then []
      else case dec (sse_payload ls) of
        Inr (ty, d) \<Rightarrow> if ty \<in> {''response.output_text.delta'', ''response.text.delta''} then d else []
      | Inl _ \<Rightarrow> [])"

definition lines_ok :: "(sse_line \<times> bool) list \<Rightarrow> bool" where
  "lines_ok ls \<longleftrightarrow> list_all (line_ok \<circ> fst) ls"

text \<open>An event the parser goes on after: it has no data, or data that can be decoded and is not the end mark.\<close>

definition sse_readable :: "sse_json \<Rightarrow> (sse_line \<times> bool) list \<Rightarrow> bool" where
  "sse_readable dec ls \<longleftrightarrow> data_lines ls = [] \<or> TrimSpace (sse_payload ls) \<noteq> ''[DONE]'' \<and> is_ok (dec (sse_payload ls))"

lemma raw_lines_Cons: "nl \<notin> set l \<Longrightarrow> raw_lines (l @ nl # s) = l # raw_lines s"
  by (auto simp: raw_lines_def Let_def Split_Cons_sep)

lemma line_text_ok:
  assumes "line_ok l"
  shows "nl \<notin> set (line_text l)" "line_text l \<noteq> []" "last (line_text l) \<noteq> cr" "length (line_text l) < 1048575"
  using assms by (cases l rule: line_text.cases; auto simp: nl_def cr_def)+

abbreviation scanned :: "string \<Rightarrow> string list" where
  "scanned s \<equiv> map drop_cr (takeWhile fits (raw_lines s))"

lemma scan_eol:
  assumes "nl \<notin> set t" and "t = [] \<or> last t \<noteq> cr" and "length t < 1048575"
  shows "scanned (t @ eol e @ s) = t # scanned s" "list_all fits (raw_lines (t @ eol e @ s)) = list_all fits (raw_lines s)"
proof -
  let ?t = "if e then t @ [cr] else t"
  have "nl \<notin> set ?t" using assms(1) by (simp add: nl_def cr_def)
  from raw_lines_Cons [OF this, of s] have raw: "raw_lines (t @ eol e @ s) = ?t # raw_lines s"
    by (simp add: eol_def split: if_splits)
  have "fits ?t" "drop_cr ?t = t" using assms by (auto simp: fits_def drop_cr_def)
  with raw show "scanned (t @ eol e @ s) = t # scanned s" "list_all fits (raw_lines (t @ eol e @ s)) = list_all fits (raw_lines s)"
    by simp_all
qed

lemma scan_enc_lines_fits:
  "lines_ok ls \<Longrightarrow> scanned (enc_lines ls @ s) = map (line_text \<circ> fst) ls @ scanned s \<and>
     list_all fits (raw_lines (enc_lines ls @ s)) = list_all fits (raw_lines s)"
proof (induction ls)
  case (Cons x ls)
  obtain l e where x: "x = (l, e)" by fastforce
  have l: "line_ok l" and ls: "lines_ok ls" using Cons.prems x by (simp_all add: lines_ok_def)
  have enc: "enc_lines (x # ls) @ s = line_text l @ eol e @ (enc_lines ls @ s)" by (simp add: enc_lines_def x)
  note t = line_text_ok [OF l]
  show ?case
    unfolding enc scan_eol [OF t(1) disjI2 [OF t(3)] t(4)] using Cons.IH [OF ls] x by simp
qed (simp add: enc_lines_def)

lemmas scan_enc_lines = scan_enc_lines_fits [THEN conjunct1] scan_enc_lines_fits [THEN conjunct2]

lemma scan_enc_event:
  "lines_ok (fst ev) \<Longrightarrow> scanned (enc_event ev @ s) = map (line_text \<circ> fst) (fst ev) @ [] # scanned s"
  using scan_enc_lines(1) [of "fst ev" "eol (snd ev) @ s"] scan_eol(1) [of "[]" "snd ev" s] by (simp add: enc_event_def)

lemma events_fit:
  "(\<And>ev. ev \<in> set evs \<Longrightarrow> lines_ok (fst ev)) \<Longrightarrow>
     list_all fits (raw_lines (concat (map enc_event evs) @ s)) = list_all fits (raw_lines s)"
proof (induction evs)
  case (Cons ev evs)
  have "list_all fits (raw_lines (enc_event ev @ t)) = list_all fits (raw_lines t)" for t
    using Cons.prems [of ev] scan_enc_lines(2) [of "fst ev" "eol (snd ev) @ t"] scan_eol(2) [of "[]" "snd ev" t]
    by (simp add: enc_event_def)
  with Cons show ?case by simp
qed simp

text \<open>The parser keeps exactly the data: a line is data when it starts with the field name and a colon.\<close>

lemma str_Index_colon: "str_Index s '':'' = Some i \<Longrightarrow> take i s = ''data'' \<Longrightarrow> HasPrefix s ''data:''"
proof -
  assume "str_Index s '':'' = Some i" and data: "take i s = ''data''"
  from str_Index_Some [OF this(1)] obtain r where "s = take i s @ '':'' @ r" by blast
  with data have "s = ''data:'' @ r" by simp
  then show ?thesis by (simp add: HasPrefix_def)
qed

lemma add_line_data: "line_ok l \<Longrightarrow> add_line (line_text l) ds = ds @ data_of l"
  by (cases l rule: line_text.cases)
     (auto simp: add_line_def HasPrefix_def TrimPrefix_def split: option.split dest: str_Index_colon [unfolded HasPrefix_def])

lemma loop_lines:
  "lines_ok ls \<Longrightarrow> sse_loop dec (map (line_text \<circ> fst) ls @ rest) err ds out = sse_loop dec rest err (ds @ data_lines ls) out"
proof (induction ls arbitrary: ds)
  case (Cons x ls)
  then have "line_ok (fst x)" by (simp add: lines_ok_def)
  with Cons line_text_ok(2) [OF this] show ?case by (simp add: lines_ok_def data_lines_def add_line_data)
qed (simp add: data_lines_def)

lemma flush_readable: "sse_readable dec ls \<Longrightarrow> sse_flush dec (data_lines ls) out = Inr (False, out @ delta_of dec ls)"
  by (auto simp: sse_readable_def sse_flush_def delta_of_def sse_payload_def is_ok_iff Let_def split: prod.split)

lemma loop_events:
  assumes "\<And>ev. ev \<in> set evs \<Longrightarrow> lines_ok (fst ev) \<and> sse_readable dec (fst ev)"
  shows "sse_loop dec (scanned (concat (map enc_event evs) @ s)) err [] out =
    sse_loop dec (scanned s) err [] (out @ concat (map (delta_of dec \<circ> fst) evs))"
  using assms
proof (induction evs arbitrary: out)
  case (Cons ev evs)
  then have ev: "lines_ok (fst ev)" "sse_readable dec (fst ev)" by simp_all
  have "scanned (concat (map enc_event (ev # evs)) @ s) = map (line_text \<circ> fst) (fst ev) @ [] # scanned (concat (map enc_event evs) @ s)"
    using scan_enc_event [OF ev(1), of "concat (map enc_event evs) @ s"] by simp
  then show ?case using Cons ev by (simp add: loop_lines flush_readable)
qed simp

text \<open>
  C28: The client reassembles the model's text from a stream of any events: with several data
  lines or none, with comments and other fields, of any type, with either line end. The text is
  the concatenation of the deltas of the text events, and of these alone. An event that is the
  end mark stops the parser without an error whatever follows, also a broken connection; an
  event that cannot be decoded stops it with the error of the decoder and the text so far; and
  when the stream ends without the mark, the event that has no blank line yet still counts,
  unless the read failed.
\<close>

theorem sse_roundtrip:
  assumes evs: "\<And>ev. ev \<in> set evs \<Longrightarrow> lines_ok (fst ev) \<and> sse_readable dec (fst ev)" and ok: "lines_ok (fst fin)"
  defines "txt \<equiv> concat (map (delta_of dec \<circ> fst) evs)"
  shows "(data_lines (fst fin) \<noteq> [] \<and> TrimSpace (sse_payload (fst fin)) = ''[DONE]'' \<longrightarrow>
       parseSSEText dec (concat (map enc_event evs) @ enc_event fin @ rest, err) = (txt, None)) \<and>
    (data_lines (fst fin) \<noteq> [] \<and> TrimSpace (sse_payload (fst fin)) \<noteq> ''[DONE]'' \<and> dec (sse_payload (fst fin)) = Inl derr \<longrightarrow>
       parseSSEText dec (concat (map enc_event evs) @ enc_event fin @ rest, err) = (txt, Some derr)) \<and>
    (sse_readable dec (fst fin) \<longrightarrow>
       parseSSEText dec (concat (map enc_event evs) @ enc_lines (fst fin), None) = (txt @ delta_of dec (fst fin), None) \<and>
       parseSSEText dec (concat (map enc_event evs) @ enc_lines (fst fin), Some rerr) = (txt, Some rerr))"
proof -
  have loop: "sse_loop dec (scanned (concat (map enc_event evs) @ s)) e [] [] = sse_loop dec (scanned s) e [] txt" for s e
    using loop_events [OF evs, where s = s and err = e and out = "[]"] by (simp add: txt_def)
  have whole: "sse_loop dec (scanned (enc_event fin @ rest)) e [] txt =
      (case sse_flush dec (data_lines (fst fin)) txt of
         Inl derr \<Rightarrow> (txt, Some derr) | Inr (True, out) \<Rightarrow> (out, None) | Inr (False, out) \<Rightarrow> sse_loop dec (scanned rest) e [] out)" for e
    using scan_enc_event [OF ok, of rest] loop_lines [OF ok] by simp
  have part: "sse_loop dec (scanned (enc_lines (fst fin))) e [] txt = sse_loop dec [] e (data_lines (fst fin)) txt" for e
    using scan_enc_lines(1) [OF ok, of "[]"] loop_lines [OF ok, of dec "[]" e "[]"] by (simp add: raw_lines_def)
  have all: "list_all fits (raw_lines (concat (map enc_event evs) @ enc_lines (fst fin)))"
    using events_fit [of evs "enc_lines (fst fin)"] evs scan_enc_lines(2) [OF ok, of "[]"] by (simp add: raw_lines_def)
  show ?thesis
    using loop part whole all flush_readable [of dec "fst fin" "txt"]
    by (auto simp: parseSSEText_def scan_lines_def sse_flush_def sse_payload_def Let_def)
qed

definition demo_sse_json :: sse_json where
  "demo_sse_json data =
     (if HasPrefix data ''x:'' then Inr (''response.output_text.delta'', drop 2 data) else Inr (''response.created'', data))"

theorem sse_roundtrip_witness:
  "parseSSEText demo_sse_json
     (concat (map enc_event [([(Other '': hi'', False), (Other ''event: a'', True), (Data True ''x:Hel'', False)], False),
        ([(Data False ''other'', False)], True), ([(Data True ''x:lo'', False), (Data True ''!'', False)], False)]) @
      enc_event ([(Data True ''[DONE]'', False)], False) @ ''junk'', Some (Errorf ''reset'')) = (''Hello'' @ [nl] @ ''!'', None)"
proof -
  let ?evs = "[([(Other '': hi'', False), (Other ''event: a'', True), (Data True ''x:Hel'', False)], False),
        ([(Data False ''other'', False)], True), ([(Data True ''x:lo'', False), (Data True ''!'', False)], False)]"
  let ?fin = "([(Data True ''[DONE]'', False)], False)"
  have payloads: "TrimSpace ''x:Hel'' \<noteq> ''[DONE]''" "TrimSpace ''other'' \<noteq> ''[DONE]''" "TrimSpace (''x:lo'' @ [nl] @ ''!'') \<noteq> ''[DONE]''"
    "TrimSpace ''[DONE]'' = ''[DONE]''"
    by code_simp+
  have evs: "lines_ok (fst ev) \<and> sse_readable demo_sse_json (fst ev)" if "ev \<in> set ?evs" for ev
    using that payloads
    by (auto simp: lines_ok_def sse_readable_def sse_payload_def data_lines_def demo_sse_json_def HasPrefix_def nl_def cr_def)
  have fin: "lines_ok (fst ?fin)" "data_lines (fst ?fin) \<noteq> []" "TrimSpace (sse_payload (fst ?fin)) = ''[DONE]''"
    using payloads by (simp_all add: lines_ok_def sse_payload_def data_lines_def nl_def cr_def)
  have "concat (map (delta_of demo_sse_json \<circ> fst) ?evs) = ''Hello'' @ [nl] @ ''!''"
    by code_simp
  then show ?thesis
    using sse_roundtrip [where evs = ?evs and fin = ?fin and dec = demo_sse_json, OF evs fin(1), where rest = "''junk''" and err = "Some (Errorf ''reset'')"] fin(2,3) by simp
qed

section \<open>The conversation\<close>

text \<open>A conversation is a sequence of questions, each followed by its answer; no text is empty.\<close>

fun turns_ok :: "conversationTurn list \<Rightarrow> bool" where
  "turns_ok [] = True"
| "turns_ok [t] = False"
| "turns_ok (q # a # ts) = (ct_role q = ''user'' \<and> ct_role a = ''assistant'' \<and> ct_text q \<noteq> [] \<and> ct_text a \<noteq> [] \<and> turns_ok ts)"

lemma turns_ok_append: "turns_ok ts \<Longrightarrow> turns_ok us \<Longrightarrow> turns_ok (ts @ us)"
  by (induction ts rule: turns_ok.induct) auto

lemma extract_nonempty: "extractMessageText j payload = Inr txt \<Longrightarrow> txt \<noteq> []"
  by (auto simp: extractMessageText_def split: sum.splits if_splits prod.splits)

lemma answer_turns: "turns_ok (ar_history a) \<Longrightarrow> turns_ok (ar_history (answer_message send j respond n payload a))"
  by (auto simp: answer_message_def Let_def empty_reply_def split: sum.splits prod.splits intro!: turns_ok_append dest: extract_nonempty)

lemma set_model_keeps [simp]: "ar_history (set_model j p a) = ar_history a" "ar_ipc (set_model j p a) = ar_ipc a"
  by (simp_all add: set_model_def split: sum.split)

lemma agent_loop_turns:
  "turns_ok (ar_history a) \<Longrightarrow> agent_loop send j respond inputs n a = (r, a') \<Longrightarrow> turns_ok (ar_history a')"
proof (induction inputs arbitrary: n a)
  case (Cons i inputs)
  show ?case
  proof (cases i)
    case (AgentInput msg)
    then show ?thesis
      using Cons.prems Cons.IH [OF answer_turns [OF Cons.prems(1)]] Cons.IH [of "set_model j (ai_Payload msg) a"] Cons.IH [of a]
      by (auto split: if_splits)
  qed (use Cons.prems in auto)
qed auto

lemma run_provider_turns: "run_provider e j mv dm respond lookups inputs c s = (r, a) \<Longrightarrow> turns_ok (ar_history a)"
  by (auto simp: run_provider_def split: sum.splits prod.splits elim: agent_loop_turns [rotated])

text \<open>What the API accepts: the roles alternate, the user begins and has the last word, and every item's content has the type of its role.\<close>

fun request_ok :: "codexInputItem list \<Rightarrow> bool" where
  "request_ok [] = False"
| "request_ok [q] = (cx_Role q = ''user'' \<and> map cx_Type (cx_Content q) = [''input_text''])"
| "request_ok (q # a # items) = (cx_Role q = ''user'' \<and> map cx_Type (cx_Content q) = [''input_text''] \<and>
     cx_Role a = ''assistant'' \<and> map cx_Type (cx_Content a) = [''output_text''] \<and> request_ok items)"

lemma turns_request: "turns_ok h \<Longrightarrow> request_ok (map (\<lambda>t. codexMessage (ct_role t) (ct_text t)) h @ [codexMessage ''user'' txt])"
  by (induction h rule: turns_ok.induct) (auto simp: codexMessage_def)

text \<open>
  C29: Whatever arrives at the agent and whatever fails, its history stays a well-formed
  conversation, so at every moment the request it would build for the next message is one
  the API accepts: alternating roles that begin and end with the user, the content types
  of the roles, and the whole history in it.
\<close>

theorem openai_requests_wellformed:
  assumes "runOpenAI e j codex uuids lookups inputs c s = (r, a)"
  shows "turns_ok (ar_history a) \<and>
    request_ok (cq_Input (buildCodexResponsesRequest instr (ar_model a) (ar_history a) txt threadID installationID)) \<and>
    map (\<lambda>i. cx_Text (hd (cx_Content i))) (cq_Input (buildCodexResponsesRequest instr (ar_model a) (ar_history a) txt threadID installationID)) =
      map ct_text (ar_history a) @ [txt]"
proof -
  have "turns_ok (ar_history a)"
    using assms unfolding runOpenAI_def by (rule run_provider_turns)
  moreover have "map (\<lambda>i. cx_Text (hd (cx_Content i))) (map (\<lambda>t. codexMessage (ct_role t) (ct_text t)) h) = map ct_text h" for h
    by (simp add: codexMessage_def)
  moreover have "cx_Text (hd (cx_Content (codexMessage r t))) = t" for r t
    by (simp add: codexMessage_def)
  ultimately show ?thesis
    by (simp add: buildCodexResponsesRequest_def Let_def turns_request del: map_map)
qed

definition demo_agent_json :: agent_json where
  "demo_agent_json = \<lparr>aj_text = (\<lambda>p. Inr ([], p)), aj_model = (\<lambda>p. Inr p)\<rparr>"

section \<open>Every message is answered\<close>

definition readable :: "agent_json \<Rightarrow> agent_input \<Rightarrow> bool" where
  "readable j i \<longleftrightarrow> (case i of AgentInput msg \<Rightarrow> ai_Type msg = ''message'' \<and> is_ok (extractMessageText j (ai_Payload msg)) | _ \<Rightarrow> False)"

definition is_reply :: "OutboundMessage \<Rightarrow> bool" where
  "is_reply m \<longleftrightarrow> om_Type m = ''message'' \<and> om_Text m \<noteq> []"

lemma replies [simp]: "error_reply \<noteq> []" "empty_reply \<noteq> []" "is_reply (reply_message t) \<longleftrightarrow> t \<noteq> []"
  by (simp_all add: is_reply_def reply_message_def error_reply_def empty_reply_def)

text \<open>A client whose sends append what \<open>enc\<close> makes of the message to a log, whether they succeed or not.\<close>

definition logs :: "(OutboundMessage \<Rightarrow> 'e list client_state \<Rightarrow> unit result \<times> 'e list client_state) \<Rightarrow> (OutboundMessage \<Rightarrow> 'e) \<Rightarrow> bool" where
  "logs send enc \<longleftrightarrow> (\<forall>m s. is_reply m \<longrightarrow> ics_js (snd (send m s)) = ics_js s @ [enc m])"

lemma logs_send: "logs send enc \<Longrightarrow> is_reply m \<Longrightarrow> send m s = (r, s') \<Longrightarrow> ics_js s' = ics_js s @ [enc m]"
  unfolding logs_def by (metis snd_conv)

lemma answer_log:
  assumes "logs send enc"
  shows "\<exists>ms. ics_js (ar_ipc (answer_message send j respond n payload a)) = ics_js (ar_ipc a) @ map enc ms \<and> list_all is_reply ms \<and>
     length ms = (if is_ok (extractMessageText j payload) then 1 else 0)"
proof (cases "extractMessageText j payload")
  case (Inr q)
  have "\<exists>m. is_reply m \<and> ics_js (ar_ipc (answer_message send j respond n payload a)) = ics_js (ar_ipc a) @ [enc m]"
  proof (cases "respond n (ar_model a) (ar_history a) q")
    case (Inl err)
    then show ?thesis
      using Inr logs_send [OF assms _ surjective_pairing] by (auto simp: answer_message_def intro!: exI [of _ "reply_message error_reply"])
  next
    case ok: (Inr response)
    let ?m = "reply_message (if response = [] then empty_reply else response)"
    obtain r s' where send: "send ?m (ar_ipc a) = (r, s')"
      by (cases "send ?m (ar_ipc a)")
    have "is_reply ?m"
      by simp
    from logs_send [OF assms this send] send this show ?thesis
      using Inr ok by (intro exI [of _ ?m], cases r) (auto simp: answer_message_def Let_def)
  qed
  then obtain m where "is_reply m" "ics_js (ar_ipc (answer_message send j respond n payload a)) = ics_js (ar_ipc a) @ [enc m]"
    by blast
  then show ?thesis
    using Inr by (intro exI [of _ "[m]"]) simp
qed (simp add: answer_message_def)

lemma agent_loop_log:
  assumes "logs send enc" and "agent_loop send j respond inputs n a = (None, a')"
  shows "\<exists>ms. ics_js (ar_ipc a') = ics_js (ar_ipc a) @ map enc ms \<and> list_all is_reply ms \<and> length ms = length (filter (readable j) inputs)"
  using assms(2)
proof (induction inputs arbitrary: n a)
  case (Cons i inputs)
  obtain msg where i: "i = AgentInput msg"
    using Cons.prems by (cases i) auto
  show ?case
  proof (cases "ai_Type msg = ''message''")
    case True
    let ?a = "answer_message send j respond n (ai_Payload msg) a"
    obtain ms where ms: "ics_js (ar_ipc ?a) = ics_js (ar_ipc a) @ map enc ms" "list_all is_reply ms" "length ms = (if readable j i then 1 else 0)"
      using answer_log [OF assms(1), of j respond n "ai_Payload msg" a] True i by (auto simp: readable_def)
    obtain ms' where "ics_js (ar_ipc a') = ics_js (ar_ipc ?a) @ map enc ms'" "list_all is_reply ms'" "length ms' = length (filter (readable j) inputs)"
      using Cons.IH [of "Suc n" ?a] Cons.prems True i by auto
    with ms show ?thesis
      by (intro exI [of _ "ms @ ms'"]) (cases "readable j i"; simp)
  next
    case False
    then have "\<not> readable j i"
      by (simp add: readable_def i)
    then show ?thesis
      using Cons.IH [of n "set_model j (ai_Payload msg) a"] Cons.IH [of n a] Cons.prems False i by (auto split: if_splits)
  qed
qed auto

text \<open>A JetStream that records what is published; \<open>f\<close> decides which publications fail.\<close>

type_synonym published = "(string \<times> string) list"

definition records :: "published jetstream \<Rightarrow> (published \<Rightarrow> unit result) \<Rightarrow> bool" where
  "records js f \<longleftrightarrow> (\<forall>cfg x. js_CreateOrUpdateStream js cfg x = (Inr (), x)) \<and> (\<forall>subj d x. js_Publish js subj d x = (f x, x @ [(subj, d)]))"

definition encodes :: "agent_codec \<Rightarrow> (string \<Rightarrow> string) \<Rightarrow> (string \<Rightarrow> string \<Rightarrow> string \<Rightarrow> string option \<Rightarrow> string) \<Rightarrow> bool" where
  "encodes cd T M \<longleftrightarrow> (\<forall>t. ac_text cd t = Inr (T t)) \<and> (\<forall>g a ty p. ac_msg cd g a ty p = Inr (M g a ty p))"

lemma SendOutput_logs:
  assumes "records js f" and "encodes cd T M"
  shows "logs (SendOutput js sha cd c) (\<lambda>m. (client_outputSubject sha c, M (ic_group c) (ic_agentID c) (om_Type m) (Some (T (om_Text m)))))"
  using assms
  by (auto simp: logs_def records_def encodes_def SendOutput_def defensive_def client_ensureStream_def is_reply_def split: sum.split)

lemma startReadInput_records: "records js f \<Longrightarrow> startReadInput js sha c lookups s = (r, s') \<Longrightarrow> ics_js s' = ics_js s"
  by (auto simp: startReadInput_def records_def defensive_def client_ensureStream_def split: if_splits)

lemma run_provider_log:
  assumes "records (ae_js e) f" and "encodes (ae_codec e) T M" and "run_provider e j mv dm respond lookups inputs c s = (None, a)"
  shows "\<exists>ms. ics_js (ar_ipc a) = ics_js s @ map (\<lambda>m. (client_outputSubject (ae_sha e) c, M (ic_group c) (ic_agentID c) (om_Type m) (Some (T (om_Text m))))) ms \<and>
    list_all is_reply ms \<and> length ms = length (filter (readable j) inputs)"
proof -
  obtain model proxyURL groupJID s' where "startReadInput (ae_js e) (ae_sha e) c lookups s = (Inr (), s')"
    and "agent_loop (SendOutput (ae_js e) (ae_sha e) (ae_codec e) c) j (respond proxyURL groupJID) inputs 0
      \<lparr>ar_model = model, ar_history = [], ar_ipc = s'\<rparr> = (None, a)"
    using assms(3) by (auto simp: run_provider_def split: sum.splits prod.splits)
  then show ?thesis
    using agent_loop_log [OF SendOutput_logs [OF assms(1,2)]] startReadInput_records [OF assms(1)] by fastforce
qed

text \<open>
  C14: No message is left without an answer and none is answered twice: while an agent runs it
  publishes, on its group's output subject, exactly one non-empty reply for every message whose
  text it can read, also when the model fails or stays silent or a publication fails, and
  nothing else.
\<close>

theorem one_reply_per_message:
  assumes "records (ae_js e) f" and "encodes (ae_codec e) T M"
    and "run = runOpenAI e j codex uuids \<or> run = runAnthropic e j stream" and "run lookups inputs c s = (None, a)"
  shows "\<exists>ms. ics_js (ar_ipc a) = ics_js s @ map (\<lambda>m. (client_outputSubject (ae_sha e) c, M (ic_group c) (ic_agentID c) (om_Type m) (Some (T (om_Text m))))) ms \<and>
    list_all is_reply ms \<and> length ms = length (filter (readable j) inputs)"
  using assms(3,4) run_provider_log [OF assms(1,2)] by (auto simp: runOpenAI_def runAnthropic_def)

definition demo_rec_js :: "published jetstream" where
  "demo_rec_js = \<lparr>js_Stream = (\<lambda>_ x. (Inr (), x)), js_CreateOrUpdateStream = (\<lambda>_ x. (Inr (), x)), js_DeleteStream = (\<lambda>_ x. (Inr (), x)),
     js_CreateOrUpdateConsumer = (\<lambda>_ _ x. (Inr (), x)), js_DeleteConsumer = (\<lambda>_ _ x. (Inr (), x)), js_Publish = (\<lambda>subj d x. (Inr (), x @ [(subj, d)])),
     js_Fetch = (\<lambda>_ _ x. (FetchEnd None, x)), js_Ack = (\<lambda>_ _ x. (Inr (), x)), js_Info = (\<lambda>_ x. (Inr (0, 0), x)),
     js_GetMsg = (\<lambda>_ _ x. (Inl ErrMsgNotFound, x))\<rparr>"

definition demo_inputs :: "agent_input list" where
  "demo_inputs = [AgentInput \<lparr>ai_Type = ''message'', ai_Payload = ''hi''\<rparr>, AgentInput \<lparr>ai_Type = ''set_model'', ai_Payload = ''x''\<rparr>,
     AgentInput \<lparr>ai_Type = ''message'', ai_Payload = ''again''\<rparr>]"

definition demo_agent_env :: "published agent_env" where
  "demo_agent_env = \<lparr>ae_args = [], ae_getenv = (\<lambda>k. k), ae_join = (\<lambda>a b. a), ae_mkdirAll = (\<lambda>_. Inr ()), ae_connect = (\<lambda>_ _ _. Inr ()),
     ae_js = demo_rec_js, ae_sha = demo_sha, ae_codec = \<lparr>ac_text = (\<lambda>t. Inr t), ac_msg = (\<lambda>g a t p. Inr t)\<rparr>\<rparr>"

definition demo_codex :: "nat \<Rightarrow> codex_env" where
  "demo_codex n = \<lparr>ce_instructions = ''be brief'', ce_marshal = (\<lambda>_. Inr ''body''), ce_parseURL = (\<lambda>_. Inr ()),
     ce_do = (\<lambda>_ _ _. if n = 0 then CodexError (Errorf ''down'') else CodexReply 200 ''200 OK'' ([], None)), ce_json = demo_sse_json\<rparr>"

definition demo_agent_run :: "unit result option \<times> published agent_run" where
  "demo_agent_run = runOpenAI demo_agent_env demo_agent_json demo_codex (''1'', ''2'', ''3'') [(Inr (), False)] demo_inputs
      \<lparr>ic_group = ''g'', ic_agentID = ''main'', ic_defensive = False\<rparr> \<lparr>ics_streamCreated = False, ics_js = []\<rparr>"

lemma demo_agent_running: "demo_agent_run = (None, snd demo_agent_run)"
  by (rule prod_eqI) (simp_all, code_simp)

theorem openai_requests_wellformed_witness:
  "map ct_role (ar_history (snd demo_agent_run)) = [''user'', ''assistant''] \<and>
   request_ok (cq_Input (buildCodexResponsesRequest [] (ar_model (snd demo_agent_run)) (ar_history (snd demo_agent_run)) ''next'' [] []))"
proof -
  have "map ct_role (ar_history (snd demo_agent_run)) = [''user'', ''assistant'']"
    by code_simp
  moreover note openai_requests_wellformed [OF surjective_pairing [of demo_agent_run, unfolded demo_agent_run_def], folded demo_agent_run_def]
  ultimately show ?thesis
    by blast
qed

theorem one_reply_per_message_witness:
  "length (ics_js (ar_ipc (snd demo_agent_run))) = 2"
proof -
  have "records (ae_js demo_agent_env) (\<lambda>_. Inr ())" "encodes (ae_codec demo_agent_env) (\<lambda>t. t) (\<lambda>g a t p. t)"
    by (simp_all add: records_def encodes_def demo_agent_env_def demo_rec_js_def)
  from one_reply_per_message [OF this disjI1 [OF refl] demo_agent_running [unfolded demo_agent_run_def], folded demo_agent_run_def]
  have "length (ics_js (ar_ipc (snd demo_agent_run))) = length (filter (readable demo_agent_json) demo_inputs)"
    by (metis append_Nil client_state.select_convs(2) length_map)
  then show ?thesis
    by (simp add: readable_def extractMessageText_def demo_agent_json_def demo_inputs_def)
qed

section \<open>Through the proxy\<close>

lemma codex_headers:
  "Header_Get (setCodexHeaders groupJID s t i Map.empty) ''X-Kraclaw-Group'' = groupJID"
  "Header_Get (setCodexHeaders groupJID s t i Map.empty) ''X-Kraclaw-Provider'' = ''openai''"
proof -
  have "canon_key True ''x-codex-window-id'' = ''X-Codex-Window-Id''" "canon_key True ''x-codex-installation-id'' = ''X-Codex-Installation-Id''"
    "canon_key True ''x-client-request-id'' = ''X-Client-Request-Id''" "canon_key True ''thread-id'' = ''Thread-Id''"
    "canon_key True ''session-id'' = ''Session-Id''" "canon_key True ''version'' = ''Version''"
    "canon_key True ''Content-Type'' = ''Content-Type''" "canon_key True ''Accept'' = ''Accept''"
    by code_simp+
  then show "Header_Get (setCodexHeaders groupJID s t i Map.empty) ''X-Kraclaw-Group'' = groupJID"
    "Header_Get (setCodexHeaders groupJID s t i Map.empty) ''X-Kraclaw-Provider'' = ''openai''"
    by (simp_all add: setCodexHeaders_def Header_Set_def Header_Get_def)
qed

text \<open>
  The agent and the proxy fit together: a request of the OpenAI agent that the proxy
  forwards is authenticated with the credential resolved for the agent's own group and the
  provider OpenAI, on the upstream host of that credential.
\<close>

theorem codex_request_authenticated:
  assumes "px_resolver p = Some resolver" and "groupJID \<noteq> []"
    and "proxy_handler parse prep p \<lparr>rq_URL = url, rq_Host = host, rq_Header = setCodexHeaders groupJID s t i Map.empty\<rparr> = Forward out"
  shows "\<exists>cred u. resolver groupJID ProviderOpenAI = Inr cred \<and> parse (rc_UpstreamURL cred) = Inr u \<and> u_Host (rq_URL out) = u_Host u \<and>
    (rc_Provider cred = ProviderOpenAI \<longrightarrow> credential_headers (rq_Header out) = auth_of cred)"
proof -
  have "credentialMiddleware parse p (\<lambda>resolved r. Forward (Rewrite p resolved (prep r)))
      \<lparr>rq_URL = url, rq_Host = host, rq_Header = setCodexHeaders groupJID s t i Map.empty\<rparr> = Forward out"
    using assms(3) by (auto simp: proxy_handler_def hostGuard_def Let_def split: if_splits)
  then show ?thesis
    using assms(1,2) codex_headers [of groupJID s t i]
    by (auto simp: credentialMiddleware_def Rewrite_def Let_def inject_auth_headers ProviderOpenAI_def [symmetric] split: sum.splits if_splits)
qed

definition demo_codex_req :: Request where
  "demo_codex_req = \<lparr>rq_URL = \<lparr>u_Scheme = [], u_Host = [], u_Path = ''/v1/responses''\<rparr>, rq_Host = ''proxy'',
     rq_Header = setCodexHeaders ''g'' ''s'' ''t'' ''i'' Map.empty\<rparr>"

definition demo_oai_resolver :: CredentialResolver where
  "demo_oai_resolver g pr = Inr (key_credential ProviderOpenAI ''sk'' ''oai'')"

theorem codex_request_authenticated_witness:
  "\<exists>out. proxy_handler demo_parse id (demo_proxy demo_oai_resolver) demo_codex_req = Forward out \<and>
     credential_headers (rq_Header out) = auth_of (key_credential ProviderOpenAI ''sk'' ''oai'')"
proof -
  let ?p = "demo_proxy demo_oai_resolver"
  obtain out where out: "proxy_handler demo_parse id ?p demo_codex_req = Forward out"
    by (simp add: proxy_handler_def hostGuard_def credentialMiddleware_def demo_codex_req_def codex_headers demo_oai_resolver_def
        Let_def demo_proxy_def demo_parse_def key_credential_def)
  have "px_resolver ?p = Some demo_oai_resolver"
    by (simp add: demo_proxy_def)
  from codex_request_authenticated [OF this _ out [unfolded demo_codex_req_def]] out show ?thesis
    by (auto simp: demo_codex_req_def demo_oai_resolver_def key_credential_def)
qed

end
