(* ===== verification/Chat_Channels.thy ===== *)
theory Chat_Channels
  imports Tui_Channel
begin

text \<open>
  \<open>internal/channel/discord/discord.go\<close> and \<open>internal/channel/telegram/telegram.go\<close>: the two bot
  channels. The bot libraries are parameters: \<open>discord_api\<close> and \<open>telegram_api\<close> are the calls the
  channels make, over the state \<open>'w\<close> of the outside world. A nil dereference is the value
  \<open>None\<close> of the handler.
\<close>

section \<open>Parsing integers\<close>

definition digit_value :: "char \<Rightarrow> nat option" where
  "digit_value c = (if is_digit c then Some (of_char c - 48) else None)"

fun digits_value :: "nat \<Rightarrow> string \<Rightarrow> nat option" where
  "digits_value acc [] = Some acc"
| "digits_value acc (c # cs) = (case digit_value c of None \<Rightarrow> None | Some d \<Rightarrow> digits_value (acc * 10 + d) cs)"

definition parse_unsigned :: "string \<Rightarrow> nat option" where
  "parse_unsigned s = (if s = [] then None else digits_value 0 s)"

text \<open>\<open>strconv.ParseInt\<close> for base 10 and 64 bits.\<close>

definition ParseInt64 :: "string \<Rightarrow> int result" where
  "ParseInt64 s =
     (let neg = HasPrefix s ''-'';
          body = (if HasPrefix s ''-'' \<or> HasPrefix s ''+'' then tl s else s)
      in case parse_unsigned body of
           None \<Rightarrow> Inl (Errorf (''strconv.ParseInt: parsing '' @ Quote s @ '': invalid syntax''))
         | Some n \<Rightarrow>
             if (if neg then int n > 2 ^ 63 else int n \<ge> 2 ^ 63)
             then Inl (Errorf (''strconv.ParseInt: parsing '' @ Quote s @ '': value out of range''))
             else Inr (if neg then - int n else int n))"

lemma digits_value_append: "digits_value acc (s @ [c]) = (case digits_value acc s of None \<Rightarrow> None | Some n \<Rightarrow> map_option (\<lambda>d. n * 10 + d) (digit_value c))"
  by (induction s arbitrary: acc) (auto split: option.split)

lemma digit_value_char [simp]: "d < 10 \<Longrightarrow> digit_value (digit_char d) = Some d"
  by (simp add: digit_value_def is_digit_def of_char_digit_char)

lemma digits_value_show: "digits_value 0 (show_nat n) = Some n"
proof (induction n rule: show_nat.induct)
  case (1 n)
  then show ?case
    by (cases "n < 10") (subst show_nat.simps; simp add: digits_value_append)+
qed

lemma parse_show_nat [simp]: "parse_unsigned (show_nat n) = Some n"
  by (simp add: parse_unsigned_def digits_value_show)

lemma show_nat_unsigned [simp]: "HasPrefix (show_nat n) ''-'' \<longleftrightarrow> False" "HasPrefix (show_nat n) ''+'' \<longleftrightarrow> False"
proof -
  obtain c cs where "show_nat n = c # cs" "is_digit c"
    using show_nat_digits [of _ n] show_nat_nonempty [of n] by (cases "show_nat n") auto
  then show "HasPrefix (show_nat n) ''-'' \<longleftrightarrow> False" "HasPrefix (show_nat n) ''+'' \<longleftrightarrow> False"
    by (auto simp: is_digit_def)
qed

lemma ParseInt64_show_int: "- (2 ^ 63) \<le> i \<Longrightarrow> i < 2 ^ 63 \<Longrightarrow> ParseInt64 (show_int i) = Inr i"
  by (auto simp: ParseInt64_def show_int_def Let_def)

section \<open>State\<close>

record Discord =
  dg_session :: bool
  dg_connected :: bool
  dg_cancelled :: bool

record Telegram =
  tg_bot :: bool
  tg_connected :: bool
  tg_cancelled :: bool
  tg_botID :: int

record 'w chats =
  cs_discord :: Discord
  cs_telegram :: Telegram
  cs_tui :: TUI
  cs_w :: 'w

definition discord_jidPrefix :: string where "discord_jidPrefix = ''discord:''"
definition telegram_jidPrefix :: string where "telegram_jidPrefix = ''telegram:''"

definition with_w :: "('w \<Rightarrow> 'a \<times> 'w) \<Rightarrow> 'w chats \<Rightarrow> 'a \<times> 'w chats" where
  "with_w f s = (case f (cs_w s) of (r, w) \<Rightarrow> (r, s\<lparr>cs_w := w\<rparr>))"

section \<open>Discord\<close>

record discord_message =
  dm_ID :: string
  dm_ChannelID :: string
  dm_GuildID :: string
  dm_AuthorID :: string
  dm_Username :: string
  dm_Content :: string
  dm_Timestamp :: time

record 'w discord_api =
  da_New :: "string \<Rightarrow> unit result"
  da_Open :: "'w \<Rightarrow> unit result \<times> 'w"
  da_BotID :: string
  da_Channel :: "string \<Rightarrow> 'w \<Rightarrow> string result \<times> 'w"
  da_ChannelMessageSend :: "string \<Rightarrow> string \<Rightarrow> 'w \<Rightarrow> unit result \<times> 'w"
  da_ChannelTyping :: "string \<Rightarrow> 'w \<Rightarrow> unit result \<times> 'w"
  da_Close :: "'w \<Rightarrow> unit result \<times> 'w"

definition Discord_Connect :: "'w discord_api \<Rightarrow> string \<Rightarrow> 'w chats \<Rightarrow> unit result \<times> 'w chats" where
  "Discord_Connect api token s =
     (case da_New api (''Bot '' @ token) of
        Inl err \<Rightarrow> (Inl (Wrapf ''create discord session'' err), s)
      | Inr _ \<Rightarrow>
          (case with_w (da_Open api) s of
             (Inl err, s) \<Rightarrow> (Inl (Wrapf ''open discord websocket'' err), s)
           | (Inr _, s) \<Rightarrow> (Inr (), s\<lparr>cs_discord := \<lparr>dg_session = True, dg_connected = True, dg_cancelled = False\<rparr>\<rparr>)))"

definition discord_inbound :: "discord_message \<Rightarrow> InboundMessage" where
  "discord_inbound m = \<lparr>im_ID = dm_ID m, im_ChatJID = discord_jidPrefix @ dm_ChannelID m, im_Sender = dm_AuthorID m,
     im_SenderName = dm_Username m, im_Content = dm_Content m, im_Timestamp = dm_Timestamp m, im_IsGroup = (dm_GuildID m \<noteq> [])\<rparr>"

definition Discord_handleMessage :: "'w discord_api \<Rightarrow> 'w tui_config \<Rightarrow> time \<Rightarrow> discord_message \<Rightarrow> 'w chats \<Rightarrow> 'w chats option" where
  "Discord_handleMessage api cfg now m s =
     (if \<not> dg_session (cs_discord s) then None
      else if dm_AuthorID m = da_BotID api then Some s
      else let msg = discord_inbound m;
               s = (case tc_OnMessage cfg of None \<Rightarrow> s | Some f \<Rightarrow> s\<lparr>cs_w := f (im_ChatJID msg) msg (cs_w s)\<rparr>)
        in case tc_OnChatMeta cfg of
             None \<Rightarrow> Some s
           | Some f \<Rightarrow>
               (case with_w (da_Channel api (dm_ChannelID m)) s of
                  (r, s) \<Rightarrow> Some (s\<lparr>cs_w := f (im_ChatJID msg) now (case r of Inl _ \<Rightarrow> [] | Inr name \<Rightarrow> name) ''discord'' (im_IsGroup msg) (cs_w s)\<rparr>)))"

definition Discord_SendMessage :: "'w discord_api \<Rightarrow> string \<Rightarrow> string \<Rightarrow> 'w chats \<Rightarrow> unit result \<times> 'w chats" where
  "Discord_SendMessage api jid txt s =
     (if \<not> dg_session (cs_discord s) then (Inl (Errorf ''discord not connected''), s)
      else case with_w (da_ChannelMessageSend api (TrimPrefix jid discord_jidPrefix) txt) s of
        (Inl err, s) \<Rightarrow> (Inl (Wrapf ''send discord message'' err), s)
      | (Inr _, s) \<Rightarrow> (Inr (), s))"

definition Discord_SetTyping :: "'w discord_api \<Rightarrow> string \<Rightarrow> bool \<Rightarrow> 'w chats \<Rightarrow> unit result \<times> 'w chats" where
  "Discord_SetTyping api jid typing s =
     (if \<not> typing then (Inr (), s)
      else if \<not> dg_session (cs_discord s) then (Inl (Errorf ''discord not connected''), s)
      else with_w (da_ChannelTyping api (TrimPrefix jid discord_jidPrefix)) s)"

definition Discord_OwnsJID :: "string \<Rightarrow> bool" where
  "Discord_OwnsJID jid \<longleftrightarrow> HasPrefix jid discord_jidPrefix"

definition Discord_Disconnect :: "'w discord_api \<Rightarrow> 'w chats \<Rightarrow> unit result \<times> 'w chats" where
  "Discord_Disconnect api s =
     (let s = s\<lparr>cs_discord := (cs_discord s)\<lparr>dg_cancelled := True\<rparr>\<rparr>
      in case (if dg_session (cs_discord s) then with_w (da_Close api) s else (Inr (), s)) of
           (Inl err, s) \<Rightarrow> (Inl (Wrapf ''close discord session'' err), s)
         | (Inr _, s) \<Rightarrow> (Inr (), s\<lparr>cs_discord := (cs_discord s)\<lparr>dg_connected := False\<rparr>\<rparr>))"

definition discord_channel :: "'w discord_api \<Rightarrow> string \<Rightarrow> 'w chats Channel" where
  "discord_channel api token = \<lparr>ch_Name = ''discord'', ch_Connect = Discord_Connect api token, ch_SendMessage = Discord_SendMessage api,
     ch_IsConnected = (\<lambda>s. dg_connected (cs_discord s)), ch_OwnsJID = Discord_OwnsJID, ch_Disconnect = Discord_Disconnect api,
     ch_SetTyping = Discord_SetTyping api\<rparr>"

definition discord_factory :: "(string \<Rightarrow> string) \<Rightarrow> 'w discord_api \<Rightarrow> 'w chats Factory" where
  "discord_factory getenv api s =
     (Inr (if getenv ''DISCORD_TOKEN'' = [] then None else Some (discord_channel api (getenv ''DISCORD_TOKEN''))), s)"

section \<open>Telegram\<close>

record telegram_user =
  tu_ID :: int
  tu_IsBot :: bool
  tu_FirstName :: string
  tu_LastName :: string

record telegram_message =
  tm_ID :: int
  tm_From :: "telegram_user option"
  tm_ChatID :: int
  tm_ChatType :: string
  tm_ChatTitle :: string
  tm_ChatUsername :: string
  tm_Text :: string
  tm_Date :: int

record 'w telegram_api =
  ta_New :: "string \<Rightarrow> unit result"
  ta_Start :: "'w \<Rightarrow> 'w"
  ta_GetMe :: "'w \<Rightarrow> int result \<times> 'w"
  ta_SendMessage :: "int \<Rightarrow> string \<Rightarrow> 'w \<Rightarrow> unit result \<times> 'w"
  ta_SendTyping :: "int \<Rightarrow> 'w \<Rightarrow> unit result \<times> 'w"

definition chatIDFromJID :: "string \<Rightarrow> int result" where
  "chatIDFromJID jid =
     (let raw = TrimPrefix jid telegram_jidPrefix
      in case ParseInt64 raw of
           Inl err \<Rightarrow> Inl (Wrapf (''invalid telegram chat ID '' @ Quote raw) err)
         | Inr i \<Rightarrow> Inr i)"

definition Telegram_Connect :: "'w telegram_api \<Rightarrow> string \<Rightarrow> 'w chats \<Rightarrow> unit result \<times> 'w chats" where
  "Telegram_Connect api token s =
     (case ta_New api token of
        Inl err \<Rightarrow> (Inl (Wrapf ''create telegram bot'' err), s)
      | Inr _ \<Rightarrow>
          (let s = s\<lparr>cs_telegram := (cs_telegram s)\<lparr>tg_bot := True, tg_connected := True, tg_cancelled := False\<rparr>, cs_w := ta_Start api (cs_w s)\<rparr>
           in case with_w (ta_GetMe api) s of
                (Inl err, s) \<Rightarrow> (Inr (), s)
              | (Inr me, s) \<Rightarrow> (Inr (), s\<lparr>cs_telegram := (cs_telegram s)\<lparr>tg_botID := me\<rparr>\<rparr>)))"

definition telegram_inbound :: "telegram_message \<Rightarrow> InboundMessage" where
  "telegram_inbound m =
     \<lparr>im_ID = show_int (tm_ID m), im_ChatJID = telegram_jidPrefix @ show_int (tm_ChatID m),
      im_Sender = (case tm_From m of None \<Rightarrow> [] | Some u \<Rightarrow> show_int (tu_ID u)),
      im_SenderName = (case tm_From m of None \<Rightarrow> [] | Some u \<Rightarrow> TrimSpace (tu_FirstName u @ '' '' @ tu_LastName u)),
      im_Content = tm_Text m, im_Timestamp = (tm_Date m + 719162 * 86400) * Second,
      im_IsGroup = (tm_ChatType m = ''group'' \<or> tm_ChatType m = ''supergroup'')\<rparr>"

text \<open>An update without a message is \<open>None\<close>.\<close>

definition Telegram_handleUpdate :: "'w tui_config \<Rightarrow> time \<Rightarrow> telegram_message option \<Rightarrow> 'w chats \<Rightarrow> 'w chats" where
  "Telegram_handleUpdate cfg now update s =
     (case update of
        None \<Rightarrow> s
      | Some m \<Rightarrow>
          if (case tm_From m of None \<Rightarrow> False | Some u \<Rightarrow> tu_IsBot u \<and> tu_ID u = tg_botID (cs_telegram s)) then s
          else let msg = telegram_inbound m;
                   s = (case tc_OnMessage cfg of None \<Rightarrow> s | Some f \<Rightarrow> s\<lparr>cs_w := f (im_ChatJID msg) msg (cs_w s)\<rparr>)
            in case tc_OnChatMeta cfg of
                 None \<Rightarrow> s
               | Some f \<Rightarrow> s\<lparr>cs_w := f (im_ChatJID msg) now (if tm_ChatTitle m = [] then tm_ChatUsername m else tm_ChatTitle m)
                     ''telegram'' (im_IsGroup msg) (cs_w s)\<rparr>)"

definition Telegram_SendMessage :: "'w telegram_api \<Rightarrow> string \<Rightarrow> string \<Rightarrow> 'w chats \<Rightarrow> unit result \<times> 'w chats" where
  "Telegram_SendMessage api jid txt s =
     (if \<not> tg_bot (cs_telegram s) then (Inl (Errorf ''telegram not connected''), s)
      else case chatIDFromJID jid of
        Inl err \<Rightarrow> (Inl err, s)
      | Inr chatID \<Rightarrow>
          (case with_w (ta_SendMessage api chatID txt) s of
             (Inl err, s) \<Rightarrow> (Inl (Wrapf ''send telegram message'' err), s)
           | (Inr _, s) \<Rightarrow> (Inr (), s)))"

definition Telegram_SetTyping :: "'w telegram_api \<Rightarrow> string \<Rightarrow> bool \<Rightarrow> 'w chats \<Rightarrow> unit result \<times> 'w chats" where
  "Telegram_SetTyping api jid typing s =
     (if \<not> typing then (Inr (), s)
      else if \<not> tg_bot (cs_telegram s) then (Inl (Errorf ''telegram not connected''), s)
      else case chatIDFromJID jid of
        Inl err \<Rightarrow> (Inl err, s)
      | Inr chatID \<Rightarrow> with_w (ta_SendTyping api chatID) s)"

definition Telegram_OwnsJID :: "string \<Rightarrow> bool" where
  "Telegram_OwnsJID jid \<longleftrightarrow> HasPrefix jid telegram_jidPrefix"

definition Telegram_Disconnect :: "'w chats \<Rightarrow> unit result \<times> 'w chats" where
  "Telegram_Disconnect s = (Inr (), s\<lparr>cs_telegram := (cs_telegram s)\<lparr>tg_cancelled := True, tg_connected := False\<rparr>\<rparr>)"

definition telegram_channel :: "'w telegram_api \<Rightarrow> string \<Rightarrow> 'w chats Channel" where
  "telegram_channel api token = \<lparr>ch_Name = ''telegram'', ch_Connect = Telegram_Connect api token, ch_SendMessage = Telegram_SendMessage api,
     ch_IsConnected = (\<lambda>s. tg_connected (cs_telegram s)), ch_OwnsJID = Telegram_OwnsJID, ch_Disconnect = Telegram_Disconnect,
     ch_SetTyping = Telegram_SetTyping api\<rparr>"

definition telegram_factory :: "(string \<Rightarrow> string) \<Rightarrow> 'w telegram_api \<Rightarrow> 'w chats Factory" where
  "telegram_factory getenv api s =
     (Inr (if getenv ''TELEGRAM_TOKEN'' = [] then None else Some (telegram_channel api (getenv ''TELEGRAM_TOKEN''))), s)"

section \<open>The registry\<close>

definition with_tui :: "(TUI \<Rightarrow> 'a \<times> TUI) \<Rightarrow> 'w chats \<Rightarrow> 'a \<times> 'w chats" where
  "with_tui f s = (case f (cs_tui s) of (r, t) \<Rightarrow> (r, s\<lparr>cs_tui := t\<rparr>))"

definition tui_channel :: "'w chats Channel" where
  "tui_channel = \<lparr>ch_Name = ''tui'', ch_Connect = (\<lambda>s. (Inr (), s)), ch_SendMessage = (\<lambda>jid txt. with_tui (TUI_SendMessage jid txt)),
     ch_IsConnected = (\<lambda>s. tu_connected (cs_tui s)), ch_OwnsJID = TUI_OwnsJID, ch_Disconnect = with_tui TUI_Disconnect,
     ch_SetTyping = (\<lambda>jid typing s. (Inr (), s))\<rparr>"

definition chat_registry :: "(string \<Rightarrow> string) \<Rightarrow> 'w discord_api \<Rightarrow> 'w telegram_api \<Rightarrow> 'w chats Registry" where
  "chat_registry getenv dapi tapi =
     Register ''tui'' (\<lambda>s. (Inr (Some tui_channel), s))
       (Register ''telegram'' (telegram_factory getenv tapi) (Register ''discord'' (discord_factory getenv dapi) []))"

section \<open>Replies go back to their chat\<close>

text \<open>
  What the router relies on: a platform owns the identifiers it makes, no other channel does,
  and while it is up it delivers to the chat the identifier was made from.
\<close>

locale platform =
  fixes ch :: "'w Channel" and others :: "'w Channel list" and up :: "'w \<Rightarrow> bool"
    and jid_of :: "'i \<Rightarrow> string" and valid :: "'i \<Rightarrow> bool" and deliver :: "'i \<Rightarrow> string \<Rightarrow> 'w \<Rightarrow> unit result \<times> 'w"
  assumes owns: "ch_OwnsJID ch (jid_of i)"
    and foreign: "c \<in> set others \<Longrightarrow> \<not> ch_OwnsJID c (jid_of i)"
    and connected: "up w \<Longrightarrow> ch_IsConnected ch w"
    and sends: "up w \<Longrightarrow> valid i \<Longrightarrow> ch_SendMessage ch (jid_of i) txt w = deliver i txt w"
begin

lemma owner: "up w \<Longrightarrow> ch \<in> set chs \<Longrightarrow> set chs \<subseteq> insert ch (set others) \<Longrightarrow> first_owner chs (jid_of i) w = Some ch"
proof (induction chs)
  case (Cons c chs)
  then show ?case
    using owns [of i] foreign [of c i] connected [of w] by (cases "c = ch") auto
qed simp

lemma routes:
  assumes "up w" and "valid i" and "ch \<in> set chs" and "set chs \<subseteq> insert ch (set others)" and "stripInternalTags reply = Some txt" and "txt \<noteq> []"
  shows "RouteOutbound chs (jid_of i) reply w = Some (deliver i txt w)"
  using assms by (simp add: RouteOutbound_def owner sends)

end

definition wrap_send :: "string \<Rightarrow> unit result \<times> 's \<Rightarrow> unit result \<times> 's" where
  "wrap_send m p = (case p of (Inl err, s) \<Rightarrow> (Inl (Wrapf m err), s) | (Inr _, s) \<Rightarrow> (Inr (), s))"

definition int64 :: "int \<Rightarrow> bool" where
  "int64 i \<longleftrightarrow> - (2 ^ 63) \<le> i \<and> i < 2 ^ 63"

lemma TrimPrefix_append [simp]: "TrimPrefix (p @ s) p = s"
  by (simp add: TrimPrefix_def)

lemma owns_jids [simp]:
  "Discord_OwnsJID (discord_jidPrefix @ x)" "\<not> Discord_OwnsJID (telegram_jidPrefix @ x)"
  "Telegram_OwnsJID (telegram_jidPrefix @ x)" "\<not> Telegram_OwnsJID (discord_jidPrefix @ x)"
  "\<not> TUI_OwnsJID (discord_jidPrefix @ x)" "\<not> TUI_OwnsJID (telegram_jidPrefix @ x)"
  by (simp_all add: Discord_OwnsJID_def Telegram_OwnsJID_def TUI_OwnsJID_def discord_jidPrefix_def telegram_jidPrefix_def)

interpretation dg: platform "discord_channel dapi dtoken" "[telegram_channel tapi ttoken, tui_channel]"
    "\<lambda>s. dg_session (cs_discord s) \<and> dg_connected (cs_discord s)" "\<lambda>c. discord_jidPrefix @ c" "\<lambda>_. True"
    "\<lambda>c txt s. wrap_send ''send discord message'' (with_w (da_ChannelMessageSend dapi c txt) s)"
  for dapi dtoken tapi ttoken
  by unfold_locales (auto simp: discord_channel_def telegram_channel_def tui_channel_def Discord_SendMessage_def wrap_send_def)

interpretation tg: platform "telegram_channel tapi ttoken" "[discord_channel dapi dtoken, tui_channel]"
    "\<lambda>s. tg_bot (cs_telegram s) \<and> tg_connected (cs_telegram s)" "\<lambda>i. telegram_jidPrefix @ show_int i" int64
    "\<lambda>i txt s. wrap_send ''send telegram message'' (with_w (ta_SendMessage tapi i txt) s)"
  for dapi dtoken tapi ttoken
  by unfold_locales
    (auto simp: discord_channel_def telegram_channel_def tui_channel_def Telegram_SendMessage_def wrap_send_def chatIDFromJID_def ParseInt64_show_int int64_def)

lemma chat_registry_names: "Registry_Names (chat_registry getenv dapi tapi) = [''discord'', ''telegram'', ''tui'']"
  by (simp add: Registry_Names_def chat_registry_def Register_def sort_Strings_def)

lemma with_w_keeps: "with_w f s = (r, s') \<Longrightarrow> cs_discord s' = cs_discord s \<and> cs_telegram s' = cs_telegram s \<and> cs_tui s' = cs_tui s"
  by (auto simp: with_w_def split: prod.splits)

lemma Discord_Connect_up:
  "Discord_Connect api token s = (Inr (), s') \<Longrightarrow> dg_session (cs_discord s') \<and> dg_connected (cs_discord s') \<and> cs_telegram s' = cs_telegram s"
  by (auto simp: Discord_Connect_def dest: with_w_keeps split: sum.splits prod.splits)

lemma Telegram_Connect_up:
  "Telegram_Connect api token s = (Inr (), s') \<Longrightarrow> tg_bot (cs_telegram s') \<and> tg_connected (cs_telegram s') \<and> cs_discord s' = cs_discord s"
  by (auto simp: Telegram_Connect_def Let_def dest: with_w_keeps split: sum.splits prod.splits)

lemma channel_connects [simp]:
  "ch_Connect (discord_channel dapi d) = Discord_Connect dapi d" "ch_Connect (telegram_channel tapi t) = Telegram_Connect tapi t"
  "ch_Connect tui_channel s = (Inr (), s)"
  by (simp_all add: discord_channel_def telegram_channel_def tui_channel_def)

lemma registry_connected:
  assumes "ConnectAll (chat_registry getenv dapi tapi) s0 = (Inr chs, s)"
  shows "set chs = (if getenv ''DISCORD_TOKEN'' = [] then {} else {discord_channel dapi (getenv ''DISCORD_TOKEN'')}) \<union>
      (if getenv ''TELEGRAM_TOKEN'' = [] then {} else {telegram_channel tapi (getenv ''TELEGRAM_TOKEN'')}) \<union> {tui_channel} \<and>
    (getenv ''DISCORD_TOKEN'' \<noteq> [] \<longrightarrow> dg_session (cs_discord s) \<and> dg_connected (cs_discord s)) \<and>
    (getenv ''TELEGRAM_TOKEN'' \<noteq> [] \<longrightarrow> tg_bot (cs_telegram s) \<and> tg_connected (cs_telegram s))"
  using assms
  by (cases "getenv ''DISCORD_TOKEN'' = []"; cases "getenv ''TELEGRAM_TOKEN'' = []")
    (auto simp: ConnectAll_def chat_registry_names, auto simp: chat_registry_def Register_def discord_factory_def telegram_factory_def
      dest!: Discord_Connect_up Telegram_Connect_up split: sum.splits prod.splits)

text \<open>
  A reply goes back to where the message came from: once the registry has connected the
  channels, a reply to a chat that wrote on Discord or Telegram is sent, without its internal
  parts, through the same platform to the same channel or chat number, in whatever order the
  channels are registered and whatever the terminal channel does.
\<close>

theorem reply_returns_to_chat:
  assumes "ConnectAll (chat_registry getenv dapi tapi) s0 = (Inr chs, s)"
    and "cs_discord s' = cs_discord s" and "cs_telegram s' = cs_telegram s"
    and "stripInternalTags reply = Some txt" and "txt \<noteq> []"
  shows "(getenv ''DISCORD_TOKEN'' \<noteq> [] \<longrightarrow>
      RouteOutbound chs (im_ChatJID (discord_inbound m)) reply s' =
        Some (wrap_send ''send discord message'' (with_w (da_ChannelMessageSend dapi (dm_ChannelID m) txt) s'))) \<and>
    (getenv ''TELEGRAM_TOKEN'' \<noteq> [] \<and> int64 (tm_ChatID u) \<longrightarrow>
      RouteOutbound chs (im_ChatJID (telegram_inbound u)) reply s' =
        Some (wrap_send ''send telegram message'' (with_w (ta_SendMessage tapi (tm_ChatID u) txt) s')))"
proof (intro conjI impI; (elim conjE)?)
  assume d: "getenv ''DISCORD_TOKEN'' \<noteq> []"
  show "RouteOutbound chs (im_ChatJID (discord_inbound m)) reply s' =
      Some (wrap_send ''send discord message'' (with_w (da_ChannelMessageSend dapi (dm_ChannelID m) txt) s'))"
    unfolding discord_inbound_def InboundMessage.select_convs
    by (rule dg.routes [where dtoken = "getenv ''DISCORD_TOKEN''" and tapi = tapi and ttoken = "getenv ''TELEGRAM_TOKEN''"])
      (use registry_connected [OF assms(1)] d assms(2-) in auto)
next
  assume t: "getenv ''TELEGRAM_TOKEN'' \<noteq> []" and i: "int64 (tm_ChatID u)"
  show "RouteOutbound chs (im_ChatJID (telegram_inbound u)) reply s' =
      Some (wrap_send ''send telegram message'' (with_w (ta_SendMessage tapi (tm_ChatID u) txt) s'))"
    unfolding telegram_inbound_def InboundMessage.select_convs
    by (rule tg.routes [where ttoken = "getenv ''TELEGRAM_TOKEN''" and dapi = dapi and dtoken = "getenv ''DISCORD_TOKEN''"])
      (use registry_connected [OF assms(1)] t i assms(2-) in auto)
qed

definition demo_dapi :: "string list discord_api" where
  "demo_dapi = \<lparr>da_New = (\<lambda>_. Inr ()), da_Open = (\<lambda>w. (Inr (), w)), da_BotID = ''bot'', da_Channel = (\<lambda>_ w. (Inr ''general'', w)),
     da_ChannelMessageSend = (\<lambda>c t w. (Inr (), w @ [c @ '':'' @ t])), da_ChannelTyping = (\<lambda>_ w. (Inr (), w)), da_Close = (\<lambda>w. (Inr (), w))\<rparr>"

definition demo_tapi :: "string list telegram_api" where
  "demo_tapi = \<lparr>ta_New = (\<lambda>_. Inr ()), ta_Start = (\<lambda>w. w), ta_GetMe = (\<lambda>w. (Inr 7, w)), ta_SendMessage = (\<lambda>c t w. (Inr (), w @ [show_int c @ '':'' @ t])),
     ta_SendTyping = (\<lambda>_ w. (Inr (), w))\<rparr>"

definition demo_chats :: "string list chats" where
  "demo_chats = \<lparr>cs_discord = \<lparr>dg_session = False, dg_connected = False, dg_cancelled = False\<rparr>,
     cs_telegram = \<lparr>tg_bot = False, tg_connected = False, tg_cancelled = False, tg_botID = 0\<rparr>, cs_tui = TUI_New, cs_w = []\<rparr>"

definition demo_update :: telegram_message where
  "demo_update = \<lparr>tm_ID = 1, tm_From = None, tm_ChatID = - 5, tm_ChatType = ''group'', tm_ChatTitle = ''g'', tm_ChatUsername = [],
     tm_Text = ''hi'', tm_Date = 0\<rparr>"

theorem reply_returns_to_chat_witness:
  "\<exists>chs s. ConnectAll (chat_registry (\<lambda>k. k) demo_dapi demo_tapi) demo_chats = (Inr chs, s) \<and>
     RouteOutbound chs ''telegram:-5'' ''<internal>x</internal>ok'' s = Some (Inr (), s\<lparr>cs_w := [''-5:ok'']\<rparr>)"
proof -
  obtain chs s where run: "ConnectAll (chat_registry (\<lambda>k. k) demo_dapi demo_tapi) demo_chats = (Inr chs, s)" and w: "cs_w s = []"
    by (simp add: ConnectAll_def chat_registry_names)
      (simp add: chat_registry_def Register_def discord_factory_def telegram_factory_def Discord_Connect_def Telegram_Connect_def
        demo_dapi_def demo_tapi_def demo_chats_def with_w_def Let_def)
  have index: "str_Index ''<internal>x</internal>ok'' open_tag = Some 0" "str_Index ''<internal>x</internal>ok'' close_tag = Some 11"
    "str_Index ''ok'' open_tag = None" "length close_tag = 11" "TrimSpace ''ok'' = ''ok''"
    by code_simp+
  have "strip_loop ''ok'' = Some ''ok''"
    by (subst strip_loop.simps) (simp add: index(3) del: str_Index.simps)
  then have "strip_loop ''<internal>x</internal>ok'' = Some ''ok''"
    by (subst strip_loop.simps) (simp add: index del: str_Index.simps)
  then have strip: "stripInternalTags ''<internal>x</internal>ok'' = Some ''ok''"
    by (simp add: stripInternalTags_def index(5))
  have jid: "im_ChatJID (telegram_inbound demo_update) = ''telegram:-5''"
    by code_simp
  have valid: "int64 (tm_ChatID demo_update)" "tm_ChatID demo_update = - 5" "show_int (- 5) = ''-5''"
    by (simp_all add: int64_def demo_update_def) code_simp
  from reply_returns_to_chat [OF run refl refl strip, of undefined demo_update] valid(1)
  have "RouteOutbound chs ''telegram:-5'' ''<internal>x</internal>ok'' s =
      Some (wrap_send ''send telegram message'' (with_w (ta_SendMessage demo_tapi (- 5) ''ok'') s))"
    by (simp add: jid valid(2))
  then show ?thesis
    using run w valid(3) by (simp add: wrap_send_def with_w_def demo_tapi_def)
qed

text \<open>
  The handler is registered before the session is stored: a message that arrives in between
  dereferences the nil session.
\<close>

lemma discord_early_message_panics:
  "\<not> dg_session (cs_discord s) \<Longrightarrow> Discord_handleMessage api cfg now m s = None"
  by (simp add: Discord_handleMessage_def)

end
