(* ===== verification/Sandbox_Watch.thy ===== *)
theory Sandbox_Watch
  imports Sandbox_Model "HOL-Library.Sublist"
begin

text \<open>
  The watch goroutine of \<open>internal/sandbox/watcher.go\<close>: the channel of 64 events it fills for its
  reader, the events it drops when the channel is full, the deletions for which it waits, and
  the samples of the cold-start phases. The goroutine and its reader are a transition system:
  an event that is not possible in a state changes nothing.
\<close>

section \<open>Phases of a cold start\<close>

text \<open>\<open>seen\<close> has the phases recorded of each sandbox; the result adds the samples.\<close>

type_synonym seen_phases = "(string \<times> string list) list"

definition PhasePodScheduled :: string where "PhasePodScheduled = ''pod_scheduled''"
definition PhasePodReady :: string where "PhasePodReady = ''pod_ready''"

definition phase_of :: "Condition \<Rightarrow> string option" where
  "phase_of c =
     (if cd_Status c \<noteq> ''True'' then None
      else if cd_Type c = ''PodScheduled'' then Some PhasePodScheduled
      else if cd_Type c = ''Ready'' then Some PhasePodReady
      else None)"

fun phase_samples :: "time \<Rightarrow> Condition list \<Rightarrow> string list \<Rightarrow> string list \<times> (string \<times> duration) list" where
  "phase_samples created [] recorded = (recorded, [])"
| "phase_samples created (c # cs) recorded =
     (case phase_of c of
        None \<Rightarrow> phase_samples created cs recorded
      | Some phase \<Rightarrow>
          if phase \<in> set recorded then phase_samples created cs recorded
          else if cd_LastTransitionTime c = 0 then phase_samples created cs recorded
          else if cd_LastTransitionTime c - created < 0 then phase_samples created cs recorded
          else (case phase_samples created cs (phase # recorded) of
                  (recorded', samples) \<Rightarrow> (recorded', (phase, cd_LastTransitionTime c - created) # samples)))"

definition recordPhaseTransitions :: "time \<Rightarrow> Sandbox \<Rightarrow> seen_phases \<Rightarrow> seen_phases \<times> (string \<times> duration) list" where
  "recordPhaseTransitions created sb seen =
     (let recorded = (case map_of seen (sx_Name sb) of None \<Rightarrow> [] | Some ps \<Rightarrow> ps)
      in if created = 0 then (AList.update (sx_Name sb) recorded seen, [])
         else (case phase_samples created (sx_Conditions sb) recorded of
                 (recorded', samples) \<Rightarrow> (AList.update (sx_Name sb) recorded' seen, samples)))"

section \<open>The goroutine and its reader\<close>

text \<open>
  \<open>wl_blocked\<close> is a deletion that waits for room; \<open>wl_received\<close> what the reader has taken;
  \<open>wl_emitted\<close> keeps every event the goroutine has taken from the watch.
\<close>

record sandbox_stream =
  wl_seen :: seen_phases
  wl_ch :: "SandboxEvent list"
  wl_blocked :: "SandboxEvent option"
  wl_closed :: bool
  wl_cancelled :: bool
  wl_received :: "SandboxEvent list"
  wl_emitted :: "SandboxEvent list"
  wl_samples :: "(string \<times> duration) list"

datatype watch_input_event =
    WatchResult watch_type "Sandbox option" time
  | WatchEnds
  | CtxEnds
  | SendCompletes
  | ReaderTakes

abbreviation watch_cap :: nat where "watch_cap \<equiv> 64"

definition WatchSandboxes :: "unit result \<Rightarrow> unit result \<Rightarrow> sandbox_stream result" where
  "WatchSandboxes listed watch =
     (case listed of
        Inl err \<Rightarrow> Inl (Wrapf ''sandbox: list sandboxes for watch'' err)
      | Inr _ \<Rightarrow>
          (case watch of
             Inl err \<Rightarrow> Inl (Wrapf ''sandbox: watch sandboxes'' err)
           | Inr _ \<Rightarrow> Inr \<lparr>wl_seen = [], wl_ch = [], wl_blocked = None, wl_closed = False, wl_cancelled = False, wl_received = [],
               wl_emitted = [], wl_samples = []\<rparr>))"

text \<open>The bookkeeping of the phases for one event; the table is emptied beyond 1000 sandboxes.\<close>

definition note_phases :: "watch_type \<Rightarrow> time \<Rightarrow> Sandbox \<Rightarrow> sandbox_stream \<Rightarrow> sandbox_stream" where
  "note_phases wt created sb s =
     (if wt = Deleted then s\<lparr>wl_seen := AList.delete (sx_Name sb) (wl_seen s)\<rparr>
      else case recordPhaseTransitions created sb (wl_seen s) of
        (seen, samples) \<Rightarrow> s\<lparr>wl_seen := (if length seen > 1000 then [] else seen), wl_samples := wl_samples s @ samples\<rparr>)"

definition take_result :: "watch_type \<Rightarrow> Sandbox \<Rightarrow> time \<Rightarrow> sandbox_stream \<Rightarrow> sandbox_stream" where
  "take_result wt sb created s =
     (case watch_name wt of
        None \<Rightarrow> s
      | Some evType \<Rightarrow>
          (let ev = \<lparr>ev_Type = evType, ev_Status = sandboxToStatus sb\<rparr>;
               s = (note_phases wt created sb s)\<lparr>wl_emitted := wl_emitted s @ [ev]\<rparr>
           in case watch_event watch_cap wt sb (wl_ch s) of
                Some ch \<Rightarrow> s\<lparr>wl_ch := ch\<rparr>
              | None \<Rightarrow> s\<lparr>wl_blocked := Some ev\<rparr>))"

definition watch_step :: "watch_input_event \<Rightarrow> sandbox_stream \<Rightarrow> sandbox_stream" where
  "watch_step i s =
     (case i of
        WatchResult wt obj created \<Rightarrow>
          if wl_closed s \<or> wl_blocked s \<noteq> None then s
          else (case obj of None \<Rightarrow> s | Some sb \<Rightarrow> take_result wt sb created s)
      | WatchEnds \<Rightarrow> if wl_closed s \<or> wl_blocked s \<noteq> None then s else s\<lparr>wl_closed := True\<rparr>
      | CtxEnds \<Rightarrow> if wl_closed s then s else s\<lparr>wl_closed := True, wl_cancelled := True, wl_blocked := None\<rparr>
      | SendCompletes \<Rightarrow>
          (case wl_blocked s of
             None \<Rightarrow> s
           | Some ev \<Rightarrow> if length (wl_ch s) < watch_cap then s\<lparr>wl_blocked := None, wl_ch := wl_ch s @ [ev]\<rparr> else s)
      | ReaderTakes \<Rightarrow>
          (case wl_ch s of [] \<Rightarrow> s | ev # ch \<Rightarrow> s\<lparr>wl_ch := ch, wl_received := wl_received s @ [ev]\<rparr>))"

section \<open>Properties\<close>

lemma phase_samples_once:
  "phase_samples created cs recorded = (recorded', samples) \<Longrightarrow>
     set recorded' = set recorded \<union> fst ` set samples \<and> distinct (map fst samples) \<and>
     (\<forall>p d. (p, d) \<in> set samples \<longrightarrow> p \<notin> set recorded \<and> 0 \<le> d)"
proof (induction cs arbitrary: recorded recorded' samples)
  case (Cons c cs)
  show ?case
  proof (cases "phase_of c")
    case (Some phase)
    obtain r' ss where rest: "phase_samples created cs (phase # recorded) = (r', ss)" by fastforce
    show ?thesis
      using Cons.prems Some rest Cons.IH [OF rest] Cons.IH [of recorded recorded' samples] by (auto split: if_splits) blast
  qed (use Cons in simp)
qed simp

definition is_deletion :: "SandboxEvent \<Rightarrow> bool" where
  "is_deletion ev \<longleftrightarrow> ev_Type ev = ''deleted''"

text \<open>What the reader has or can still get, in order.\<close>

definition in_transit :: "sandbox_stream \<Rightarrow> SandboxEvent list" where
  "in_transit s = wl_received s @ wl_ch s @ (case wl_blocked s of None \<Rightarrow> [] | Some ev \<Rightarrow> [ev])"

definition watch_inv :: "sandbox_stream \<Rightarrow> bool" where
  "watch_inv s \<longleftrightarrow> length (wl_ch s) \<le> watch_cap \<and> subseq (in_transit s) (wl_emitted s) \<and> (\<forall>ev. wl_blocked s = Some ev \<longrightarrow> is_deletion ev) \<and>
     (\<not> wl_cancelled s \<longrightarrow> filter is_deletion (in_transit s) = filter is_deletion (wl_emitted s)) \<and>
     list_all (\<lambda>(p, d). 0 \<le> d) (wl_samples s)"

lemma note_phases_fields [simp]:
  "wl_ch (note_phases wt c sb s) = wl_ch s" "wl_blocked (note_phases wt c sb s) = wl_blocked s"
  "wl_cancelled (note_phases wt c sb s) = wl_cancelled s" "wl_received (note_phases wt c sb s) = wl_received s"
  "wl_emitted (note_phases wt c sb s) = wl_emitted s"
  by (simp_all add: note_phases_def split: prod.split)

lemma note_phases_samples:
  assumes "list_all (\<lambda>(p, d). 0 \<le> d) (wl_samples s)"
  shows "list_all (\<lambda>(p, d). 0 \<le> d) (wl_samples (note_phases wt c sb s))"
proof -
  let ?recorded = "case map_of (wl_seen s) (sx_Name sb) of None \<Rightarrow> [] | Some ps \<Rightarrow> ps"
  obtain r ss where p: "phase_samples c (sx_Conditions sb) ?recorded = (r, ss)" by fastforce
  from phase_samples_once [OF p] have "list_all (\<lambda>(p, d). 0 \<le> d) ss" by (auto simp: list_all_iff)
  with assms p show ?thesis by (simp add: note_phases_def recordPhaseTransitions_def Let_def)
qed

lemma subseq_snoc: "subseq xs ys \<Longrightarrow> subseq (xs @ [x]) (ys @ [x])" "subseq xs ys \<Longrightarrow> subseq xs (ys @ [x])"
  by (simp_all add: subseq_append list_emb_prefix)

lemma watch_inv_result:
  assumes "watch_inv s" and "wl_blocked s = None"
  shows "watch_inv (take_result wt sb created s)"
proof (cases "watch_name wt")
  case (Some evType)
  have "evType = ''deleted'' \<longleftrightarrow> wt = Deleted" using Some by (cases wt) auto
  with assms Some show ?thesis
    using note_phases_samples [of s wt created sb]
    by (auto simp: watch_inv_def take_result_def watch_event_def in_transit_def is_deletion_def Let_def
        intro: subseq_snoc subseq_snoc(1) [of "wl_received s @ wl_ch s", simplified] split: if_splits)
qed (use assms in \<open>simp add: take_result_def\<close>)

lemma watch_inv_step:
  assumes "watch_inv s"
  shows "watch_inv (watch_step i s)"
proof (cases i)
  case (WatchResult wt obj created)
  with assms show ?thesis by (simp add: watch_step_def watch_inv_result split: option.split)
next
  case CtxEnds
  have "subseq (wl_received s @ wl_ch s) (in_transit s)"
    unfolding in_transit_def append_assoc [symmetric] by (rule list_emb_prefix) simp
  with assms CtxEnds show ?thesis
    by (auto simp: watch_step_def watch_inv_def in_transit_def intro: subseq_order.trans)
next
  case SendCompletes
  with assms show ?thesis by (auto simp: watch_step_def watch_inv_def in_transit_def split: option.split)
next
  case ReaderTakes
  with assms show ?thesis by (auto simp: watch_step_def watch_inv_def in_transit_def split: list.split)
qed (use assms in \<open>auto simp: watch_step_def watch_inv_def in_transit_def\<close>)

text \<open>
  C33: No deletion of a sandbox is lost between Kubernetes and the reader of the watch. Whatever the
  order of events, what the reader has taken, what is in the channel and the deletion that
  waits for room are, together and in this order, events of the watch in the order in which
  they came; as long as the context lasts every deletion is among them, however slow the
  reader. The channel never holds more than 64 events, and no sample of a phase is negative.
\<close>

theorem deletions_not_dropped:
  assumes "WatchSandboxes listed watch = Inr s0"
  shows "let s = fold watch_step inputs s0 in
    subseq (in_transit s) (wl_emitted s) \<and> length (wl_ch s) \<le> 64 \<and> list_all (\<lambda>(p, d). 0 \<le> d) (wl_samples s) \<and>
    (CtxEnds \<notin> set inputs \<longrightarrow> filter is_deletion (in_transit s) = filter is_deletion (wl_emitted s))"
proof -
  have init: "watch_inv s0" "\<not> wl_cancelled s0"
    using assms by (auto simp: WatchSandboxes_def watch_inv_def in_transit_def split: sum.splits)
  have inv: "watch_inv (fold watch_step inputs s0)"
    using init(1) by (induction inputs arbitrary: s0) (auto intro: watch_inv_step)
  have "\<not> wl_cancelled (fold watch_step inputs s)" if "CtxEnds \<notin> set inputs" "\<not> wl_cancelled s" for s
    using that
  proof (induction inputs arbitrary: s)
    case (Cons i inputs)
    then have "\<not> wl_cancelled (watch_step i s)"
      by (cases i) (auto simp: watch_step_def take_result_def Let_def split: option.split list.split)
    with Cons show ?case by simp
  qed simp
  with init inv show ?thesis by (auto simp: watch_inv_def Let_def)
qed

definition demo_sandbox :: Sandbox where
  "demo_sandbox = \<lparr>sx_Name = ''sb-1'', sx_Namespace = ''k'', sx_Labels = [(labelGroup, ''main'')], sx_Replicas = 1, sx_ImagePullSecrets = [],
     sx_RunAsNonRoot = True, sx_RunAsUser = 1000, sx_AutomountToken = False, sx_RestartNever = True, sx_Init = [], sx_Containers = [],
     sx_Volumes = [], sx_Conditions = [\<lparr>cd_Type = ''Ready'', cd_Status = ''True'', cd_Reason = [], cd_LastTransitionTime = 9\<rparr>]\<rparr>"

text \<open>A sandbox is created, becomes ready and is deleted, while the reader takes one event.\<close>

definition short_watch :: "watch_input_event list" where
  "short_watch = [WatchResult Added (Some demo_sandbox) 5, ReaderTakes, WatchResult Modified (Some demo_sandbox) 5, WatchResult OtherWatch (Some demo_sandbox) 5,
     WatchResult Deleted (Some demo_sandbox) 5]"

theorem deletions_not_dropped_witness:
  "\<exists>s0. WatchSandboxes (Inr ()) (Inr ()) = Inr s0 \<and> length (wl_emitted (fold watch_step short_watch s0)) = 3 \<and>
     length (in_transit (fold watch_step short_watch s0)) = 3 \<and>
     filter is_deletion (in_transit (fold watch_step short_watch s0)) = [\<lparr>ev_Type = ''deleted'', ev_Status = sandboxToStatus demo_sandbox\<rparr>]"
proof -
  obtain s0 where s0: "WatchSandboxes (Inr ()) (Inr ()) = Inr s0" by (simp add: WatchSandboxes_def)
  have "case WatchSandboxes (Inr ()) (Inr ()) of Inl _ \<Rightarrow> False | Inr s0 \<Rightarrow> length (wl_emitted (fold watch_step short_watch s0)) = 3 \<and>
     length (in_transit (fold watch_step short_watch s0)) = 3 \<and>
     filter is_deletion (wl_emitted (fold watch_step short_watch s0)) = [\<lparr>ev_Type = ''deleted'', ev_Status = sandboxToStatus demo_sandbox\<rparr>] \<and>
     \<not> list_ex (\<lambda>i. case i of CtxEnds \<Rightarrow> True | _ \<Rightarrow> False) short_watch"
    by code_simp
  with s0 have run: "length (wl_emitted (fold watch_step short_watch s0)) = 3" "length (in_transit (fold watch_step short_watch s0)) = 3"
     "filter is_deletion (wl_emitted (fold watch_step short_watch s0)) = [\<lparr>ev_Type = ''deleted'', ev_Status = sandboxToStatus demo_sandbox\<rparr>]"
     "CtxEnds \<notin> set short_watch"
    by (auto simp: list_ex_iff split: watch_input_event.splits)
  with deletions_not_dropped [OF s0, of short_watch] s0 show ?thesis by (auto simp: Let_def)
qed

end
