(* ===== verification/Orch_Admission.thy ===== *)
theory Orch_Admission
  imports Orch_Dispatch
begin

text \<open>
  The admission of agents in \<open>internal/orchestrator/orchestrator.go\<close> at the grain of its shared
  accesses. \<open>Orch_Dispatch\<close> runs a goroutine of \<open>processGroupMessages\<close> as one step; here the
  goroutines of different chats interleave between any two accesses to the two structures
  they share: \<open>inflightSandboxes\<close>, the set of claimed slots, and the activity of the groups
  in the database. An event is one such access by one party: the poll, which asks whether a
  chat is active and then claims its slot; a recovery, which claims a slot too; a goroutine,
  which counts the active groups, compares the count and the slots of others with the limit,
  marks its group active, releases its slot early and once more when it ends
  (\<open>sync.Once\<close>); and the end of an agent. Failures and panics are events as well. The
  iteration over the claimed slots is one access. What the goroutines do besides is the
  subject of \<open>Orch_Dispatch\<close>.
\<close>

section \<open>State\<close>

text \<open>
  How far a goroutine is: looking for messages; it has read a count; it passed the limit and
  creates its sandbox; its group is marked active; its slot was released early; it returns;
  it is gone.
\<close>

datatype spawn_pc = Checking | Counted int | Admitted | Marked | Started | Leaving | Gone

record spawn_proc =
  sp_chat :: string
  sp_pc :: spawn_pc
  sp_once :: bool

record admission =
  ad_held :: "string list"
  ad_active :: "string list"
  ad_look :: "(string \<times> bool) option"
  ad_procs :: "spawn_proc list"
  ad_bugs :: nat

datatype admission_event =
    PollLook string
  | PollLookFails
  | PollClaim
  | RecoverClaim string
  | GiveUp nat
  | ReadCount nat
  | Decide nat
  | SpawnFails nat
  | MarkLands nat
  | MarkFails nat bool
  | ReleaseSlot nat
  | StartFails nat bool
  | StartDone nat
  | Panics nat bool
  | Deferred nat
  | Deactivated string

definition admission_init :: "string list \<Rightarrow> admission" where
  "admission_init act = \<lparr>ad_held = [], ad_active = act, ad_look = None, ad_procs = [], ad_bugs = 0\<rparr>"

section \<open>Operations\<close>

text \<open>\<open>LoadOrStore\<close>: a claimed slot comes with a goroutine, a slot that is held is skipped.\<close>

definition claim_slot :: "string \<Rightarrow> admission \<Rightarrow> admission" where
  "claim_slot j st =
     (if j \<in> set (ad_held st) then st
      else st\<lparr>ad_held := j # ad_held st, ad_procs := ad_procs st @ [\<lparr>sp_chat = j, sp_pc = Checking, sp_once = False\<rparr>]\<rparr>)"

text \<open>\<open>LoadAndDelete\<close>: releasing a slot that nobody holds is what the code reports as a bug.\<close>

definition raw_release :: "string \<Rightarrow> admission \<Rightarrow> admission" where
  "raw_release j st =
     (if j \<in> set (ad_held st) then st\<lparr>ad_held := removeAll j (ad_held st)\<rparr> else st\<lparr>ad_bugs := Suc (ad_bugs st)\<rparr>)"

text \<open>The release the goroutine passes on: \<open>once.Do(rawRelease)\<close>.\<close>

definition once_release :: "nat \<Rightarrow> admission \<Rightarrow> admission" where
  "once_release i st =
     (let p = ad_procs st ! i
      in if sp_once p then st
         else raw_release (sp_chat p) (st\<lparr>ad_procs := (ad_procs st)[i := p\<lparr>sp_once := True\<rparr>]\<rparr>))"

definition pc_of :: "admission \<Rightarrow> nat \<Rightarrow> spawn_pc" where
  "pc_of st i = (if i < length (ad_procs st) then sp_pc (ad_procs st ! i) else Gone)"

definition chat_of :: "admission \<Rightarrow> nat \<Rightarrow> string" where
  "chat_of st i = sp_chat (ad_procs st ! i)"

definition goto_pc :: "nat \<Rightarrow> spawn_pc \<Rightarrow> admission \<Rightarrow> admission" where
  "goto_pc i x st = st\<lparr>ad_procs := (ad_procs st)[i := (ad_procs st ! i)\<lparr>sp_pc := x\<rparr>]\<rparr>"

definition mark_on :: "string \<Rightarrow> admission \<Rightarrow> admission" where
  "mark_on j st = st\<lparr>ad_active := List.insert j (ad_active st)\<rparr>"

definition mark_off :: "string \<Rightarrow> admission \<Rightarrow> admission" where
  "mark_off j st = st\<lparr>ad_active := removeAll j (ad_active st)\<rparr>"

text \<open>The comparison with the limit: the count read before, and the slots others hold now.\<close>

definition within_limit :: "int \<Rightarrow> int \<Rightarrow> string \<Rightarrow> string list \<Rightarrow> bool" where
  "within_limit maxConcurrent activeCount chatJID held \<longleftrightarrow>
     \<not> activeCount + inflight_others chatJID held \<ge> maxConcurrent"

fun admission_step :: "int \<Rightarrow> admission_event \<Rightarrow> admission \<Rightarrow> admission" where
  "admission_step M (PollLook j) st = st\<lparr>ad_look := Some (j, j \<in> set (ad_active st))\<rparr>"
| "admission_step M PollLookFails st = st\<lparr>ad_look := None\<rparr>"
| "admission_step M PollClaim st =
     (case ad_look st of
        Some (j, False) \<Rightarrow> claim_slot j (st\<lparr>ad_look := None\<rparr>)
      | _ \<Rightarrow> st\<lparr>ad_look := None\<rparr>)"
| "admission_step M (RecoverClaim j) st = claim_slot j st"
| "admission_step M (GiveUp i) st = (if pc_of st i = Checking then goto_pc i Leaving st else st)"
| "admission_step M (ReadCount i) st =
     (if pc_of st i = Checking then goto_pc i (Counted (int (length (ad_active st)))) st else st)"
| "admission_step M (Decide i) st =
     (case pc_of st i of
        Counted c \<Rightarrow> if within_limit M c (chat_of st i) (ad_held st) then goto_pc i Admitted st else goto_pc i Leaving st
      | _ \<Rightarrow> st)"
| "admission_step M (SpawnFails i) st = (if pc_of st i = Admitted then goto_pc i Leaving st else st)"
| "admission_step M (MarkLands i) st =
     (if pc_of st i = Admitted then mark_on (chat_of st i) (goto_pc i Marked st) else st)"
| "admission_step M (MarkFails i landed) st =
     (if pc_of st i = Admitted
      then (if landed then mark_on (chat_of st i) (goto_pc i Leaving st) else goto_pc i Leaving st) else st)"
| "admission_step M (ReleaseSlot i) st =
     (if pc_of st i = Marked then goto_pc i Started (once_release i st) else st)"
| "admission_step M (StartFails i unmarked) st =
     (if pc_of st i = Started
      then (if unmarked then mark_off (chat_of st i) (goto_pc i Leaving st) else goto_pc i Leaving st) else st)"
| "admission_step M (StartDone i) st = (if pc_of st i = Started then goto_pc i Leaving st else st)"
| "admission_step M (Panics i unmarked) st =
     (if pc_of st i \<in> {Leaving, Gone} then st
      else if unmarked then mark_off (chat_of st i) (goto_pc i Leaving st) else goto_pc i Leaving st)"
| "admission_step M (Deferred i) st = (if pc_of st i = Leaving then goto_pc i Gone (once_release i st) else st)"
| "admission_step M (Deactivated j) st = mark_off j st"

definition admission_run :: "int \<Rightarrow> admission_event list \<Rightarrow> admission \<Rightarrow> admission" where
  "admission_run M es st = fold (admission_step M) es st"

text \<open>The claim and the release are those of \<open>Orch_State\<close>, on the slots alone.\<close>

lemma claim_slot_agrees:
  "fst (run_state (claimSandboxSlot j) w) = (inflight (snd (run_state (claimSandboxSlot j) w)) \<noteq> inflight w)"
  "ad_held st = inflight w \<Longrightarrow> ad_held (claim_slot j st) = inflight (snd (run_state (claimSandboxSlot j) w))"
  "ad_held st = inflight w \<Longrightarrow> ad_held (raw_release j st) = inflight (snd (run_state (releaseSandboxSlot j) w))"
  unfolding claimSandboxSlot_def releaseSandboxSlot_def claim_slot_def raw_release_def by (auto simp: removeAll_id)

section \<open>Exclusive slots\<close>

definition unreleased :: "admission \<Rightarrow> nat set" where
  "unreleased st = {i. i < length (ad_procs st) \<and> \<not> sp_once (ad_procs st ! i)}"

text \<open>
  The slots that are held are those of the goroutines that have not released theirs, one each;
  a goroutine has released its slot when it started an agent or is gone and not while it may
  still be admitted.
\<close>

definition slots_ok :: "admission \<Rightarrow> bool" where
  "slots_ok st \<longleftrightarrow>
     distinct (ad_held st) \<and> distinct (ad_active st) \<and> ad_bugs st = 0 \<and>
     inj_on (chat_of st) (unreleased st) \<and> chat_of st ` unreleased st = set (ad_held st) \<and>
     (\<forall>i < length (ad_procs st). sp_once (ad_procs st ! i) \<longrightarrow> pc_of st i \<in> {Started, Leaving, Gone}) \<and>
     (\<forall>i < length (ad_procs st). pc_of st i \<in> {Started, Gone} \<longrightarrow> sp_once (ad_procs st ! i))"

lemma goto_pc_nth [simp]:
  "sp_chat (ad_procs (goto_pc i x st) ! k) = sp_chat (ad_procs st ! k)"
  "sp_once (ad_procs (goto_pc i x st) ! k) = sp_once (ad_procs st ! k)"
proof -
  have "ad_procs (goto_pc i x st) ! k = (if k = i \<and> i < length (ad_procs st) then (ad_procs st ! i)\<lparr>sp_pc := x\<rparr> else ad_procs st ! k)"
    by (cases "i < length (ad_procs st)") (simp_all add: goto_pc_def nth_list_update list_update_beyond)
  then show "sp_chat (ad_procs (goto_pc i x st) ! k) = sp_chat (ad_procs st ! k)"
    "sp_once (ad_procs (goto_pc i x st) ! k) = sp_once (ad_procs st ! k)"
    by simp_all
qed

lemma goto_pc_simps [simp]:
  "ad_held (goto_pc i x st) = ad_held st" "ad_active (goto_pc i x st) = ad_active st"
  "ad_bugs (goto_pc i x st) = ad_bugs st" "length (ad_procs (goto_pc i x st)) = length (ad_procs st)"
  "chat_of (goto_pc i x st) = chat_of st" "unreleased (goto_pc i x st) = unreleased st"
proof -
  show "length (ad_procs (goto_pc i x st)) = length (ad_procs st)" by (simp add: goto_pc_def)
  then show "unreleased (goto_pc i x st) = unreleased st" by (simp add: unreleased_def)
qed (simp_all add: goto_pc_def chat_of_def fun_eq_iff flip: goto_pc_nth(1) [of i x st])

lemma pc_of_goto [simp]:
  "i < length (ad_procs st) \<Longrightarrow> pc_of (goto_pc i x st) k = (if k = i then x else pc_of st k)"
  by (auto simp: goto_pc_def pc_of_def nth_list_update)

lemma mark_fields [simp]:
  "ad_held (mark_on j st) = ad_held st" "ad_bugs (mark_on j st) = ad_bugs st" "ad_procs (mark_on j st) = ad_procs st"
  "ad_active (mark_on j st) = List.insert j (ad_active st)"
  "ad_held (mark_off j st) = ad_held st" "ad_bugs (mark_off j st) = ad_bugs st" "ad_procs (mark_off j st) = ad_procs st"
  "ad_active (mark_off j st) = removeAll j (ad_active st)"
  by (simp_all add: mark_on_def mark_off_def)

lemma mark_procs [simp]:
  "pc_of (mark_on j st) = pc_of st" "chat_of (mark_on j st) = chat_of st" "unreleased (mark_on j st) = unreleased st"
  "pc_of (mark_off j st) = pc_of st" "chat_of (mark_off j st) = chat_of st" "unreleased (mark_off j st) = unreleased st"
  "pc_of (st\<lparr>ad_look := l\<rparr>) = pc_of st" "chat_of (st\<lparr>ad_look := l\<rparr>) = chat_of st" "unreleased (st\<lparr>ad_look := l\<rparr>) = unreleased st"
  by (simp_all add: pc_of_def chat_of_def unreleased_def fun_eq_iff)

lemma pc_of_alive: "pc_of st i \<noteq> Gone \<Longrightarrow> i < length (ad_procs st)"
  by (auto simp: pc_of_def split: if_splits)

lemma slots_ok_goto:
  assumes "slots_ok st" and "i < length (ad_procs st)"
    and "if sp_once (ad_procs st ! i) then x \<in> {Started, Leaving, Gone} else x \<notin> {Started, Gone}"
  shows "slots_ok (goto_pc i x st)"
  using assms unfolding slots_ok_def by (simp split: if_splits)

lemma slots_ok_mark:
  assumes "slots_ok st"
  shows "slots_ok (mark_on j st)" "slots_ok (mark_off j st)"
  using assms unfolding slots_ok_def by (simp_all add: distinct_removeAll)

lemma slots_ok_look: "slots_ok st \<Longrightarrow> slots_ok (st\<lparr>ad_look := l\<rparr>)"
  unfolding slots_ok_def by simp

lemma slots_ok_claim:
  assumes ok: "slots_ok st"
  shows "slots_ok (claim_slot j st)"
proof (cases "j \<in> set (ad_held st)")
  case True
  then show ?thesis using ok by (simp add: claim_slot_def)
next
  case False
  let ?n = "length (ad_procs st)" and ?t = "claim_slot j st"
  have old: "\<And>i. i < ?n \<Longrightarrow> ad_procs ?t ! i = ad_procs st ! i" and len: "length (ad_procs ?t) = Suc ?n"
    and new: "ad_procs ?t ! ?n = \<lparr>sp_chat = j, sp_pc = Checking, sp_once = False\<rparr>"
    using False by (simp_all add: claim_slot_def nth_append)
  have un: "unreleased ?t = insert ?n (unreleased st)"
    by (auto simp: unreleased_def len less_Suc_eq old new)
  have ch: "\<And>i. i \<in> unreleased st \<Longrightarrow> chat_of ?t i = chat_of st i" and cn: "chat_of ?t ?n = j"
    by (simp_all add: unreleased_def chat_of_def old new)
  have pc: "\<And>i. pc_of ?t i = (if i = ?n then Checking else pc_of st i)"
    by (auto simp: pc_of_def len old new less_Suc_eq)
  have img: "chat_of ?t ` unreleased st = set (ad_held st)" using ok ch unfolding slots_ok_def by force
  moreover have "inj_on (chat_of ?t) (unreleased st)" using ok ch unfolding slots_ok_def inj_on_def by metis
  ultimately have "inj_on (chat_of ?t) (unreleased ?t)" "chat_of ?t ` unreleased ?t = set (ad_held ?t)"
    using False cn unfolding un by (auto simp: claim_slot_def inj_on_insert)
  moreover have "ad_held ?t = j # ad_held st" "ad_active ?t = ad_active st" "ad_bugs ?t = ad_bugs st"
    using False by (simp_all add: claim_slot_def)
  ultimately show ?thesis
    using ok False unfolding slots_ok_def by (auto simp: len less_Suc_eq old new pc)
qed

lemma once_release_procs:
  assumes "i < length (ad_procs st)"
  shows "ad_procs (once_release i st) = (ad_procs st)[i := (ad_procs st ! i)\<lparr>sp_once := True\<rparr>]"
proof (cases "sp_once (ad_procs st ! i)")
  case True
  then have same: "(ad_procs st ! i)\<lparr>sp_once := True\<rparr> = ad_procs st ! i" by (cases "ad_procs st ! i") simp
  show ?thesis unfolding same using True by (simp add: once_release_def Let_def)
qed (simp add: once_release_def raw_release_def Let_def)

lemma once_release_of [simp]:
  assumes "i < length (ad_procs st)"
  shows "length (ad_procs (once_release i st)) = length (ad_procs st)"
    and "pc_of (once_release i st) = pc_of st" and "chat_of (once_release i st) = chat_of st"
    and "unreleased (once_release i st) = unreleased st - {i}"
    and "sp_once (ad_procs (once_release i st) ! k) = (if k = i then True else sp_once (ad_procs st ! k))"
    and "ad_active (once_release i st) = ad_active st"
  using assms
  by (auto simp: once_release_procs pc_of_def chat_of_def unreleased_def nth_list_update fun_eq_iff)
     (auto simp: once_release_def raw_release_def Let_def)

lemma slots_ok_once:
  assumes ok: "slots_ok st" and pc: "pc_of st i \<in> {Marked, Leaving}" and x: "x \<in> {Started, Gone}"
  shows "slots_ok (goto_pc i x (once_release i st))"
proof -
  have i: "i < length (ad_procs st)" using pc pc_of_alive by force
  have slot: "\<not> sp_once (ad_procs st ! i) \<Longrightarrow> chat_of st i \<in> set (ad_held st)"
    using ok i unfolding slots_ok_def unreleased_def by blast
  have held: "ad_held (once_release i st) = (if sp_once (ad_procs st ! i) then ad_held st else removeAll (chat_of st i) (ad_held st))"
    and bugs: "ad_bugs (once_release i st) = ad_bugs st"
    using slot by (auto simp: once_release_def raw_release_def Let_def chat_of_def)
  have "chat_of st ` (unreleased st - {i}) = set (ad_held (once_release i st))"
  proof (cases "i \<in> unreleased st")
    case True
    then have "chat_of st ` (unreleased st - {i}) = chat_of st ` unreleased st - {chat_of st i}"
      using ok unfolding slots_ok_def by (simp add: inj_on_image_set_diff [of _ "unreleased st"])
    then show ?thesis using ok True unfolding slots_ok_def held unreleased_def by auto
  next
    case False
    then show ?thesis using ok i unfolding slots_ok_def held by (simp add: unreleased_def)
  qed
  moreover have "inj_on (chat_of st) (unreleased st - {i})"
    using ok unfolding slots_ok_def by (blast intro: inj_on_subset)
  ultimately show ?thesis
    using ok x i unfolding slots_ok_def by (auto simp: held bugs distinct_removeAll)
qed

lemma slots_ok_leave: "slots_ok st \<Longrightarrow> pc_of st i \<noteq> Gone \<Longrightarrow> slots_ok (goto_pc i Leaving st)"
  by (rule slots_ok_goto) (auto dest: pc_of_alive)

lemma slots_ok_move:
  assumes "slots_ok st" and "pc_of st i \<notin> {Started, Leaving, Gone}" and "x \<notin> {Started, Gone}"
  shows "slots_ok (goto_pc i x st)"
proof (rule slots_ok_goto)
  show "i < length (ad_procs st)" using assms(2) pc_of_alive by force
  then have "\<not> sp_once (ad_procs st ! i)" using assms(1,2) unfolding slots_ok_def by blast
  then show "if sp_once (ad_procs st ! i) then x \<in> {Started, Leaving, Gone} else x \<notin> {Started, Gone}"
    using assms(3) by simp
qed (rule assms(1))

lemma slots_ok_step:
  assumes "slots_ok st"
  shows "slots_ok (admission_step M ev st)"
  using assms
  by (cases ev)
     (auto intro!: slots_ok_mark intro: slots_ok_claim slots_ok_look slots_ok_once slots_ok_leave slots_ok_move
       split: option.split bool.split spawn_pc.split)

lemma slots_ok_run:
  assumes "distinct act"
  shows "slots_ok (admission_run M es (admission_init act))"
proof -
  have "slots_ok st \<Longrightarrow> slots_ok (fold (admission_step M) es st)" for st
    by (induction es arbitrary: st) (simp_all add: slots_ok_step)
  moreover have "slots_ok (admission_init act)"
    using assms by (simp add: slots_ok_def admission_init_def unreleased_def)
  ultimately show ?thesis by (simp add: admission_run_def)
qed

section \<open>The limit\<close>

text \<open>
  A goroutine compares a count it has read before. Between the two, goroutines admitted earlier
  may become active and release their slots, and are then in neither number. How far the limit
  is passed is settled by an argument on numbers only: \<open>s\<close> groups are active or admitted, \<open>a\<close>
  goroutines are admitted and hold their slot, \<open>c\<close> gives the counts of those that have yet to
  compare. A set of the latter can all be admitted one after the other only when it is
  \<open>feasible\<close>, because each of them still sees the slots of the rest.
\<close>

definition feasible :: "int \<Rightarrow> (nat \<rightharpoonup> int) \<Rightarrow> nat set \<Rightarrow> bool" where
  "feasible M c F \<longleftrightarrow> F \<subseteq> dom c \<and> (\<forall>p\<in>F. the (c p) + int (card {q\<in>F. the (c p) \<le> the (c q)}) \<le> M)"

text \<open>\<open>Old\<close> are the goroutines that read their count before the latest admission.\<close>

definition budget_with :: "int \<Rightarrow> nat \<Rightarrow> nat \<Rightarrow> (nat \<rightharpoonup> int) \<Rightarrow> nat set \<Rightarrow> bool" where
  "budget_with M s a c Old \<longleftrightarrow> finite (dom c) \<and> (\<forall>k\<in>ran c. 0 \<le> k) \<and> Old \<subseteq> dom c \<and>
     (\<forall>F\<subseteq>Old. feasible M c F \<longrightarrow> int s + int (card F) \<le> 2 * M) \<and>
     (\<forall>y\<in>dom c - Old. int s + int (card Old) \<le> M + the (c y)) \<and>
     int a + int (card Old) \<le> M"

definition budget :: "int \<Rightarrow> nat \<Rightarrow> nat \<Rightarrow> (nat \<rightharpoonup> int) \<Rightarrow> bool" where
  "budget M s a c \<longleftrightarrow> (\<exists>Old. budget_with M s a c Old)"

lemma budget_withD:
  assumes "budget_with M s a c Old"
  shows "finite (dom c)" and "k \<in> ran c \<Longrightarrow> 0 \<le> k" and "Old \<subseteq> dom c"
    and "F \<subseteq> Old \<Longrightarrow> feasible M c F \<Longrightarrow> int s + int (card F) \<le> 2 * M"
    and "y \<in> dom c \<Longrightarrow> y \<notin> Old \<Longrightarrow> int s + int (card Old) \<le> M + the (c y)"
    and "int a + int (card Old) \<le> M"
  using assms by (simp_all add: budget_with_def)

lemma budgetI:
  assumes "finite (dom c)" and "\<And>k. k \<in> ran c \<Longrightarrow> 0 \<le> k" and "Old \<subseteq> dom c"
    and "\<And>F. F \<subseteq> Old \<Longrightarrow> feasible M c F \<Longrightarrow> int s + int (card F) \<le> 2 * M"
    and "\<And>y. y \<in> dom c \<Longrightarrow> y \<notin> Old \<Longrightarrow> int s + int (card Old) \<le> M + the (c y)"
    and "int a + int (card Old) \<le> M"
  shows "budget M s a c"
  unfolding budget_def by (rule exI [of _ Old]) (simp add: budget_with_def assms)

lemma budget_feasible:
  assumes b: "budget M s a c" and f: "feasible M c F"
  shows "int s + int (card F) \<le> 2 * M"
proof -
  obtain Old where w: "budget_with M s a c Old" using b unfolding budget_def by (elim exE)
  note fin = budget_withD(1) [OF w]
  have FD: "F \<subseteq> dom c" using f by (simp add: feasible_def)
  then have finF: "finite F" using fin finite_subset by blast
  show ?thesis
  proof (cases "F \<subseteq> Old")
    case False
    let ?y = "arg_min_on (\<lambda>z. the (c z)) (F - Old)"
    have ne: "finite (F - Old)" "F - Old \<noteq> {}" using finF False by auto
    have y: "?y \<in> F - Old" using arg_min_if_finite(1) [OF ne] .
    have "F - Old \<subseteq> {q\<in>F. the (c ?y) \<le> the (c q)}"
      using arg_min_least [OF ne, of _ "\<lambda>z. the (c z)"] by (intro subsetI CollectI conjI) simp_all
    then have "card (F - Old) \<le> card {q\<in>F. the (c ?y) \<le> the (c q)}" using finF by (intro card_mono) auto
    moreover have "the (c ?y) + int (card {q\<in>F. the (c ?y) \<le> the (c q)}) \<le> M"
      using conjunct2 [OF f [unfolded feasible_def], THEN bspec, of ?y] y by blast
    moreover have "int s + int (card Old) \<le> M + the (c ?y)" using budget_withD(5) [OF w] y FD by blast
    moreover have "card (F \<inter> Old) \<le> card Old"
      using finite_subset [OF budget_withD(3) [OF w] fin] by (intro card_mono) auto
    moreover have "card F = card (F \<inter> Old) + card (F - Old)"
      using card_Un_disjoint [of "F \<inter> Old" "F - Old"] finF by (simp add: Int_Diff_Un Int_Diff_disjoint)
    ultimately show ?thesis by linarith
  qed (rule budget_withD(4) [OF w _ f])
qed

lemma budget_bound: "budget M s a c \<Longrightarrow> int s \<le> 2 * M"
  using budget_feasible [of M s a c "{}"] by (simp add: feasible_def)

lemma feasible_agree:
  assumes "\<And>p. p \<in> F \<Longrightarrow> c' p = c p"
  shows "feasible M c' F = feasible M c F"
proof -
  have "\<And>p. p \<in> F \<Longrightarrow> {q\<in>F. the (c' p) \<le> the (c' q)} = {q\<in>F. the (c p) \<le> the (c q)}" using assms by auto
  moreover have "F \<subseteq> dom c' \<longleftrightarrow> F \<subseteq> dom c" using assms by (auto simp: subset_iff domIff)
  ultimately show ?thesis using assms by (simp add: feasible_def)
qed

text \<open>Agents end and goroutines give up: every number can only go down.\<close>

lemma budget_shrink:
  assumes b: "budget M s a c" and s: "s' \<le> s" and a: "a' \<le> a" and c: "c' \<subseteq>\<^sub>m c"
  shows "budget M s' a' c'"
proof -
  obtain Old where w: "budget_with M s a c Old" using b unfolding budget_def by (elim exE)
  have dom: "dom c' \<subseteq> dom c" using map_le_implies_dom_le [OF c] .
  have same: "\<And>y. y \<in> dom c' \<Longrightarrow> c' y = c y" using c by (simp add: map_le_def)
  have card: "card (Old \<inter> dom c') \<le> card Old"
    using finite_subset [OF budget_withD(3) [OF w] budget_withD(1) [OF w]] by (intro card_mono) auto
  show ?thesis
  proof (rule budgetI [of c' "Old \<inter> dom c'"])
    show "finite (dom c')" using finite_subset [OF dom budget_withD(1) [OF w]] .
    show "0 \<le> k" if "k \<in> ran c'" for k
      using that same budget_withD(2) [OF w, of k] by (force simp: ran_def)
    show "int s' + int (card F) \<le> 2 * M" if F: "F \<subseteq> Old \<inter> dom c'" and f: "feasible M c' F" for F
    proof -
      have "feasible M c F" using f feasible_agree [of F c' c M] F same by (simp add: subset_iff)
      then show ?thesis using budget_withD(4) [OF w, of F] F s by simp
    qed
    show "int s' + int (card (Old \<inter> dom c')) \<le> M + the (c' y)" if "y \<in> dom c'" "y \<notin> Old \<inter> dom c'" for y
      using budget_withD(5) [OF w, of y] that same [of y] dom card s by fastforce
    show "int a' + int (card (Old \<inter> dom c')) \<le> M" using budget_withD(6) [OF w] card a by linarith
  qed simp
qed

text \<open>A goroutine reads the number \<open>k\<close> of active groups.\<close>

lemma budget_read:
  assumes b: "budget M s a c" and y: "y \<notin> dom c" and k: "int s \<le> k + int a" and nn: "0 \<le> k"
  shows "budget M s a (c(y \<mapsto> k))"
proof -
  obtain Old where w: "budget_with M s a c Old" using b unfolding budget_def by (elim exE)
  have yO: "y \<notin> Old" using budget_withD(3) [OF w] y by blast
  show ?thesis
  proof (rule budgetI [of _ Old])
    show "0 \<le> k'" if "k' \<in> ran (c(y \<mapsto> k))" for k'
      using that nn y budget_withD(2) [OF w, of k'] by (auto simp: domIff)
    show "int s + int (card F) \<le> 2 * M" if F: "F \<subseteq> Old" and f: "feasible M (c(y \<mapsto> k)) F" for F
    proof -
      have "feasible M (c(y \<mapsto> k)) F = feasible M c F" by (rule feasible_agree) (use F yO in auto)
      then have "feasible M c F" using f by simp
      then show ?thesis using budget_withD(4) [OF w F] by simp
    qed
    show "int s + int (card Old) \<le> M + the ((c(y \<mapsto> k)) z)" if "z \<in> dom (c(y \<mapsto> k))" "z \<notin> Old" for z
    proof (cases "z = y")
      case True
      then show ?thesis using k budget_withD(6) [OF w] by simp
    next
      case False
      then show ?thesis using budget_withD(5) [OF w, of z] that by simp
    qed
  qed (use budget_withD(1,3,6) [OF w] in auto)
qed

text \<open>A goroutine is admitted: it saw the slots of all admitted and all counting goroutines.\<close>

lemma budget_admit:
  assumes b: "budget M s a c" and q: "c q = Some k" and room: "k + int a + int (card (dom c - {q})) < M"
  shows "budget M (Suc s) (Suc a) (c(q := None))"
proof -
  obtain Old where w: "budget_with M s a c Old" using b unfolding budget_def by (elim exE)
  have nn: "0 \<le> k" using budget_withD(2) [OF w] q by (auto simp: ran_def)
  have grow: "feasible M c (insert q F)" if F: "F \<subseteq> dom c - {q}" and f: "feasible M (c(q := None)) F" for F
  proof -
    have finF: "finite F" and qF: "q \<notin> F" using F finite_subset [OF _ budget_withD(1) [OF w]] by blast+
    have cF: "card F \<le> card (dom c - {q})" using F budget_withD(1) [OF w] by (intro card_mono) auto
    have "feasible M (c(q := None)) F = feasible M c F" by (rule feasible_agree) (use qF in auto)
    then have fc: "feasible M c F" using f by simp
    have "the (c p) + int (card {r\<in>insert q F. the (c p) \<le> the (c r)}) \<le> M" if p: "p \<in> insert q F" for p
    proof (cases "the (c p) \<le> k")
      case True
      have "card {r\<in>insert q F. the (c p) \<le> the (c r)} \<le> card (insert q F)" using finF by (intro card_mono) auto
      then show ?thesis using True room cF finF qF by simp
    next
      case False
      then have "p \<in> F" using p q by auto
      moreover have "{r\<in>insert q F. the (c p) \<le> the (c r)} = {r\<in>F. the (c p) \<le> the (c r)}" using False q by auto
      ultimately show ?thesis using fc unfolding feasible_def by auto
    qed
    then show ?thesis using F q unfolding feasible_def by auto
  qed
  show ?thesis
  proof (rule budgetI [of _ "dom c - {q}"])
    show "int (Suc s) + int (card F) \<le> 2 * M" if F: "F \<subseteq> dom c - {q}" and f: "feasible M (c(q := None)) F" for F
    proof -
      have "finite F" "q \<notin> F" using F finite_subset [OF F] budget_withD(1) [OF w] by auto
      then show ?thesis using budget_feasible [OF b grow [OF F f]] by simp
    qed
    show "0 \<le> k'" if "k' \<in> ran (c(q := None))" for k'
      using that budget_withD(2) [OF w, of k'] by (auto simp: ran_def split: if_splits)
    show "int (Suc a) + int (card (dom c - {q})) \<le> M" using room nn by linarith
  qed (use budget_withD(1) [OF w] in auto)
qed

text \<open>The numbers of a state.\<close>

definition admitted_procs :: "admission \<Rightarrow> nat set" where
  "admitted_procs st = {i. pc_of st i \<in> {Admitted, Marked}}"

definition counts :: "admission \<Rightarrow> nat \<rightharpoonup> int" where
  "counts st i = (case pc_of st i of Counted k \<Rightarrow> Some k | _ \<Rightarrow> None)"

definition occupied :: "admission \<Rightarrow> string set" where
  "occupied st = set (ad_active st) \<union> chat_of st ` admitted_procs st"

definition within_budget :: "int \<Rightarrow> admission \<Rightarrow> bool" where
  "within_budget M st \<longleftrightarrow> slots_ok st \<and> budget M (card (occupied st)) (card (admitted_procs st)) (counts st)"

lemma admitted_finite [simp]: "finite (admitted_procs st)" "finite (occupied st)" "finite (dom (counts st))"
proof -
  show "finite (admitted_procs st)"
    by (rule finite_subset [of _ "{..<length (ad_procs st)}"]) (auto simp: admitted_procs_def pc_of_def split: if_splits)
  then show "finite (occupied st)" by (simp add: occupied_def)
  show "finite (dom (counts st))"
    by (rule finite_subset [of _ "{..<length (ad_procs st)}"])
      (auto simp: counts_def pc_of_def split: if_splits)
qed

text \<open>Every admitted and every counting goroutine holds its own slot.\<close>

lemma others_seen:
  assumes ok: "slots_ok st" and q: "pc_of st q = Counted k"
  shows "int (card (admitted_procs st)) + int (card (dom (counts st) - {q})) \<le> inflight_others (chat_of st q) (ad_held st)"
proof -
  let ?A = "admitted_procs st" and ?N = "dom (counts st) - {q}"
  have un: "i \<in> unreleased st" if "i \<in> insert q (?A \<union> ?N)" for i
  proof -
    have pc: "pc_of st i \<notin> {Started, Leaving, Gone}"
      using that q by (auto simp: admitted_procs_def counts_def split: spawn_pc.splits)
    moreover have "i < length (ad_procs st)" using pc pc_of_alive by force
    ultimately show ?thesis using ok unfolding slots_ok_def unreleased_def by blast
  qed
  have inj: "inj_on (chat_of st) (insert q (?A \<union> ?N))"
    using ok un unfolding slots_ok_def by (meson inj_on_subset subsetI)
  have dis: "?A \<inter> ?N = {}" and qn: "q \<notin> ?A \<union> ?N"
    using q by (auto simp: admitted_procs_def counts_def)
  have img: "chat_of st ` unreleased st = set (ad_held st)" using ok by (simp add: slots_ok_def)
  have "chat_of st i \<in> set (ad_held st) - {chat_of st q}" if "i \<in> ?A \<union> ?N" for i
    using inj_onD [OF inj, of i q] imageI [OF un [of i], of "chat_of st"] that qn unfolding img by blast
  then have "chat_of st ` (?A \<union> ?N) \<subseteq> set (ad_held st) - {chat_of st q}" by (rule image_subsetI)
  then have "card (chat_of st ` (?A \<union> ?N)) \<le> card (set (ad_held st) - {chat_of st q})" by (intro card_mono) auto
  moreover have "card (chat_of st ` (?A \<union> ?N)) = card ?A + card ?N"
    using card_image [OF inj_on_subset [OF inj, of "?A \<union> ?N"]] card_Un_disjoint [of ?A ?N] dis by auto
  moreover have "card (set (ad_held st) - {chat_of st q}) = length (filter (\<lambda>j. j \<noteq> chat_of st q) (ad_held st))"
  proof -
    have "set (filter (\<lambda>j. j \<noteq> chat_of st q) (ad_held st)) = set (ad_held st) - {chat_of st q}" by auto
    moreover have "distinct (filter (\<lambda>j. j \<noteq> chat_of st q) (ad_held st))" using ok by (simp add: slots_ok_def)
    ultimately show ?thesis using distinct_card by metis
  qed
  ultimately show ?thesis by (simp add: inflight_others_def)
qed

lemma goto_numbers:
  assumes "i < length (ad_procs st)"
  shows "admitted_procs (goto_pc i x st) = (if x \<in> {Admitted, Marked} then insert i (admitted_procs st) else admitted_procs st - {i})"
    and "counts (goto_pc i x st) = (counts st)(i := (case x of Counted k \<Rightarrow> Some k | _ \<Rightarrow> None))"
  using assms by (auto simp: admitted_procs_def counts_def fun_eq_iff)

lemma mark_numbers [simp]:
  "admitted_procs (mark_on j st) = admitted_procs st" "admitted_procs (mark_off j st) = admitted_procs st"
  "counts (mark_on j st) = counts st" "counts (mark_off j st) = counts st"
  "admitted_procs (st\<lparr>ad_look := l\<rparr>) = admitted_procs st" "counts (st\<lparr>ad_look := l\<rparr>) = counts st"
  by (simp_all add: admitted_procs_def counts_def fun_eq_iff)

text \<open>What a step may do besides reading a count and being admitted.\<close>

definition calms :: "admission \<Rightarrow> admission \<Rightarrow> bool" where
  "calms st st' \<longleftrightarrow> occupied st' \<subseteq> occupied st \<and> admitted_procs st' \<subseteq> admitted_procs st \<and> counts st' \<subseteq>\<^sub>m counts st"

lemma calms_goto:
  assumes "x \<in> {Admitted, Marked} \<Longrightarrow> i \<in> admitted_procs st" and "\<And>k. x \<noteq> Counted k" and "i < length (ad_procs st)"
  shows "calms st (goto_pc i x st)"
proof -
  have "admitted_procs (goto_pc i x st) \<subseteq> admitted_procs st" using assms by (auto simp: goto_numbers)
  moreover have "counts (goto_pc i x st) = (counts st)(i := None)" using assms by (auto simp: goto_numbers split: spawn_pc.split)
  ultimately show ?thesis by (auto simp: calms_def occupied_def map_le_def)
qed

lemma calms_mark:
  "calms st (mark_off j st)" "calms st st' \<Longrightarrow> calms st (mark_off j st')"
  "calms st st' \<Longrightarrow> j \<in> occupied st \<Longrightarrow> calms st (mark_on j st')"
  by (auto simp: calms_def occupied_def)

lemma calms_refl [simp]: "calms st st" by (simp add: calms_def)

lemma calms_look: "calms st (st\<lparr>ad_look := l\<rparr>)" "calms (st\<lparr>ad_look := l\<rparr>) st' = calms st st'"
  by (simp_all add: calms_def occupied_def)

lemma calms_claim: "calms st (claim_slot j st)"
proof (cases "j \<in> set (ad_held st)")
  case False
  let ?t = "claim_slot j st"
  have pc: "\<And>i. pc_of ?t i = (if i = length (ad_procs st) then Checking else pc_of st i)"
    using False by (auto simp: claim_slot_def pc_of_def nth_append)
  have ch: "chat_of ?t i = chat_of st i" if "i \<in> admitted_procs st" for i
    using that False by (auto simp: admitted_procs_def chat_of_def claim_slot_def nth_append pc_of_def split: if_splits)
  have gone: "pc_of st (length (ad_procs st)) = Gone" by (simp add: pc_of_def)
  have "admitted_procs ?t = admitted_procs st" using gone unfolding admitted_procs_def pc by auto
  moreover have "counts ?t = counts st" using gone unfolding counts_def fun_eq_iff pc by simp
  moreover have "ad_active ?t = ad_active st" using False by (simp add: claim_slot_def)
  ultimately show ?thesis using ch by (auto simp: calms_def occupied_def)
qed (simp add: claim_slot_def)

lemma calms_once:
  assumes "i < length (ad_procs st)" and "x \<in> {Started, Gone}"
  shows "calms st (goto_pc i x (once_release i st))"
proof -
  let ?t = "once_release i st"
  have "calms ?t (goto_pc i x ?t)" using assms by (intro calms_goto) auto
  moreover have "admitted_procs ?t = admitted_procs st" "counts ?t = counts st" "occupied ?t = occupied st"
    using assms(1) by (simp_all add: admitted_procs_def counts_def occupied_def fun_eq_iff)
  ultimately show ?thesis by (simp add: calms_def)
qed

lemma within_budget_calms:
  "within_budget M st \<Longrightarrow> slots_ok st' \<Longrightarrow> calms st st' \<Longrightarrow> within_budget M st'"
  unfolding within_budget_def calms_def by (auto elim!: budget_shrink intro: card_mono)

lemma within_budget_read:
  assumes wb: "within_budget M st" and pc: "pc_of st i = Checking"
  shows "within_budget M (goto_pc i (Counted (int (length (ad_active st)))) st)"
proof -
  let ?k = "int (length (ad_active st))" and ?t = "goto_pc i (Counted (int (length (ad_active st)))) st"
  have i: "i < length (ad_procs st)" using pc pc_of_alive by force
  have ok: "slots_ok st" using wb by (simp add: within_budget_def)
  have "i \<notin> admitted_procs st" and none: "i \<notin> dom (counts st)" using pc by (auto simp: admitted_procs_def counts_def)
  then have adm: "admitted_procs ?t = admitted_procs st" and occ: "occupied ?t = occupied st"
    and cnt: "counts ?t = (counts st)(i \<mapsto> ?k)"
    by (auto simp: goto_numbers [OF i] occupied_def)
  have "card (occupied st) \<le> card (set (ad_active st)) + card (chat_of st ` admitted_procs st)"
    unfolding occupied_def by (rule card_Un_le)
  moreover have "card (chat_of st ` admitted_procs st) \<le> card (admitted_procs st)" by (simp add: card_image_le)
  moreover have "card (set (ad_active st)) = length (ad_active st)"
    using ok by (simp add: slots_ok_def distinct_card)
  ultimately have "int (card (occupied st)) \<le> ?k + int (card (admitted_procs st))" by linarith
  then have "budget M (card (occupied st)) (card (admitted_procs st)) ((counts st)(i \<mapsto> ?k))"
    using wb none by (intro budget_read) (auto simp: within_budget_def)
  then show ?thesis using slots_ok_move [OF ok, of i "Counted ?k"] pc by (simp add: within_budget_def adm occ cnt)
qed

lemma within_budget_admit:
  assumes wb: "within_budget M st" and pc: "pc_of st i = Counted k"
    and room: "within_limit M k (chat_of st i) (ad_held st)"
  shows "within_budget M (goto_pc i Admitted st)"
proof -
  have i: "i < length (ad_procs st)" using pc pc_of_alive by force
  have ok: "slots_ok st" using wb by (simp add: within_budget_def)
  have "i \<notin> admitted_procs st" using pc by (simp add: admitted_procs_def)
  then have adm: "card (admitted_procs (goto_pc i Admitted st)) = Suc (card (admitted_procs st))"
    and cnt: "counts (goto_pc i Admitted st) = (counts st)(i := None)"
    and occ: "card (occupied (goto_pc i Admitted st)) \<le> Suc (card (occupied st))"
    by (simp_all add: goto_numbers [OF i] occupied_def card_insert_if)
  have "budget M (Suc (card (occupied st))) (Suc (card (admitted_procs st))) ((counts st)(i := None))"
    using wb others_seen [OF ok pc] room pc
    by (intro budget_admit) (auto simp: within_budget_def within_limit_def counts_def)
  then have "budget M (card (occupied (goto_pc i Admitted st))) (Suc (card (admitted_procs st))) ((counts st)(i := None))"
    using occ by (rule budget_shrink) auto
  then show ?thesis using slots_ok_move [OF ok, of i Admitted] pc by (simp add: within_budget_def adm cnt)
qed

lemma calms_leave: "pc_of st i \<noteq> Gone \<Longrightarrow> calms st (goto_pc i Leaving st)"
  by (rule calms_goto) (auto dest: pc_of_alive)

lemma calms_step:
  assumes "\<And>i. ev \<noteq> ReadCount i" and "\<And>i. ev \<noteq> Decide i"
  shows "calms st (admission_step M ev st)"
proof -
  have alive: "\<And>i. pc_of st i \<in> {Admitted, Marked, Leaving} \<Longrightarrow> i < length (ad_procs st)"
    using pc_of_alive by force
  have mine: "\<And>i. pc_of st i = Admitted \<Longrightarrow> i \<in> admitted_procs st \<and> chat_of st i \<in> occupied st"
    by (auto simp: admitted_procs_def occupied_def)
  show ?thesis
  proof (cases ev)
    case PollClaim
    then show ?thesis
      using calms_claim [of "st\<lparr>ad_look := None\<rparr>"] by (auto simp: calms_look split: option.split bool.split)
  qed (use assms mine alive in \<open>auto intro!: calms_leave calms_mark calms_look calms_claim calms_once calms_goto\<close>)
qed

lemma within_budget_step:
  assumes wb: "within_budget M st"
  shows "within_budget M (admission_step M ev st)"
proof -
  have calm: "within_budget M (admission_step M ev st)" if "calms st (admission_step M ev st)"
    using within_budget_calms [OF wb slots_ok_step that] wb by (simp add: within_budget_def)
  consider (read) i where "ev = ReadCount i" | (decide) i where "ev = Decide i"
    | (other) "\<And>i. ev \<noteq> ReadCount i" "\<And>i. ev \<noteq> Decide i" by blast
  then show ?thesis
  proof cases
    case read
    then show ?thesis using wb within_budget_read by simp
  next
    case (decide i)
    show ?thesis
    proof (cases "pc_of st i")
      case (Counted k)
      then show ?thesis
        using within_budget_admit [OF wb Counted] calms_leave [of st i] calm decide by (auto split: if_splits)
    qed (use wb decide in simp_all)
  next
    case other
    show ?thesis by (rule calm [OF calms_step]) (rule other)+
  qed
qed

lemma within_budget_run:
  assumes "distinct act" and "int (length act) \<le> M"
  shows "within_budget M (admission_run M es (admission_init act))"
proof -
  have "within_budget M st \<Longrightarrow> within_budget M (fold (admission_step M) es st)" for st
    by (induction es arbitrary: st) (simp_all add: within_budget_step)
  moreover have "within_budget M (admission_init act)"
  proof -
    have gone: "\<And>i. pc_of (admission_init act) i = Gone" by (simp add: pc_of_def admission_init_def)
    have none: "counts (admission_init act) = Map.empty" by (simp add: counts_def gone fun_eq_iff)
    have adm: "admitted_procs (admission_init act) = {}" by (simp add: admitted_procs_def gone)
    have occ: "card (occupied (admission_init act)) = length act"
      using assms(1) by (simp add: occupied_def adm) (simp add: admission_init_def distinct_card)
    have "budget M (length act) 0 Map.empty"
      using assms(2) by (intro budgetI [of _ "{}"]) auto
    then show ?thesis
      using slots_ok_run [OF assms(1), of M "[]"] by (simp add: within_budget_def none adm occ admission_run_def)
  qed
  ultimately show ?thesis by (simp add: admission_run_def)
qed

text \<open>A run in which no group became active between the count a goroutine read and its comparison.\<close>

fun fresh_run :: "int \<Rightarrow> admission_event list \<Rightarrow> admission \<Rightarrow> bool" where
  "fresh_run M [] st = True"
| "fresh_run M (ev # es) st =
     ((case ev of
         Decide i \<Rightarrow> (case pc_of st i of Counted c \<Rightarrow> int (length (ad_active st)) \<le> c | _ \<Rightarrow> True)
       | _ \<Rightarrow> True) \<and> fresh_run M es (admission_step M ev st))"

lemma fresh_admit:
  assumes ok: "slots_ok st" and pc: "pc_of st i = Counted k" and fresh: "int (length (ad_active st)) \<le> k"
    and room: "within_limit M k (chat_of st i) (ad_held st)"
  shows "int (card (occupied (goto_pc i Admitted st))) \<le> M"
proof -
  have i: "i < length (ad_procs st)" using pc pc_of_alive by force
  have "card (occupied (goto_pc i Admitted st)) \<le> card (set (ad_active st)) + card (insert (chat_of st i) (chat_of st ` admitted_procs st))"
    using card_Un_le [of "set (ad_active st)" "insert (chat_of st i) (chat_of st ` admitted_procs st)"] by (simp add: occupied_def goto_numbers [OF i])
  moreover have "card (insert (chat_of st i) (chat_of st ` admitted_procs st)) \<le> Suc (card (admitted_procs st))"
    using card_image_le [of "admitted_procs st" "chat_of st"] by (simp add: card_insert_if)
  moreover have "card (set (ad_active st)) \<le> length (ad_active st)" by (rule card_length)
  ultimately show ?thesis using others_seen [OF ok pc] fresh room by (simp add: within_limit_def)
qed

lemma fresh_step:
  assumes ok: "slots_ok st" and le: "int (card (occupied st)) \<le> M" and fresh: "fresh_run M [ev] st"
  shows "int (card (occupied (admission_step M ev st))) \<le> M"
proof -
  have calm: "int (card (occupied st')) \<le> M" if "calms st st'" for st'
    using that le card_mono [of "occupied st" "occupied st'"] by (simp add: calms_def)
  consider (read) i where "ev = ReadCount i" | (decide) i where "ev = Decide i"
    | (other) "\<And>i. ev \<noteq> ReadCount i" "\<And>i. ev \<noteq> Decide i" by blast
  then show ?thesis
  proof cases
    case (read i)
    have "occupied (goto_pc i (Counted k) st) = occupied st" if "pc_of st i = Checking" for k
      using that goto_numbers(1) [OF pc_of_alive [of st i]] by (auto simp: occupied_def admitted_procs_def)
    then show ?thesis using le read by simp
  next
    case (decide i)
    show ?thesis
    proof (cases "pc_of st i")
      case (Counted k)
      then show ?thesis
        using fresh_admit [OF ok Counted] fresh calm [OF calms_leave [of st i]] decide by auto
    qed (use le decide in simp_all)
  next
    case other
    show ?thesis by (rule calm [OF calms_step]) (rule other)+
  qed
qed

lemma fresh_run_bound:
  assumes "slots_ok st" and "int (card (occupied st)) \<le> M" and "fresh_run M es st"
  shows "int (card (occupied (fold (admission_step M) es st))) \<le> M"
  using assms
proof (induction es arbitrary: st)
  case (Cons ev es)
  then show ?case using slots_ok_step [of st M ev] fresh_step [of st M ev] by simp
qed simp

section \<open>Properties\<close>

text \<open>
  C6: In every interleaving of polls, recoveries, goroutines, failures, panics and ends of
  agents, at most one goroutine holds the slot of a chat, the slots held are those of the
  goroutines that have not released theirs, each goroutine gives its slot back when it ends, and
  no release ever finds its slot free, so the report of a release on a slot nobody holds is
  never made.
\<close>

theorem admission_exclusive:
  assumes "distinct act"
  shows "let st = admission_run M es (admission_init act)
         in ad_bugs st = 0 \<and> distinct (ad_held st) \<and>
            inj_on (chat_of st) (unreleased st) \<and> chat_of st ` unreleased st = set (ad_held st) \<and>
            (\<forall>i < length (ad_procs st). pc_of st i = Gone \<longrightarrow> i \<notin> unreleased st)"
  using slots_ok_run [OF assms, of M es] by (auto simp: slots_ok_def unreleased_def Let_def)

text \<open>
  C5: In every interleaving of the admissions of different chats, with failures, panics and ends
  of agents at any point, the groups that are active or about to become active are never more
  than twice \<open>MAX_CONCURRENT\<close>; and they are at most \<open>MAX_CONCURRENT\<close> in every run in which no
  other group becomes active between the count a goroutine reads and its comparison.
\<close>

theorem admission_bounded:
  assumes "distinct act" and "int (length act) \<le> M"
  shows "let st = admission_run M es (admission_init act)
         in int (card (occupied st)) \<le> (if fresh_run M es (admission_init act) then M else 2 * M) \<and>
            length (ad_active st) \<le> card (occupied st)"
proof -
  let ?st = "admission_run M es (admission_init act)"
  have wb: "within_budget M ?st" by (rule within_budget_run [OF assms])
  have "slots_ok (admission_init act)" using slots_ok_run [OF assms(1), of M "[]"] by (simp add: admission_run_def)
  moreover have "int (card (occupied (admission_init act))) \<le> M"
  proof -
    have "occupied (admission_init act) = set act"
      by (simp add: occupied_def admitted_procs_def pc_of_def) (simp add: admission_init_def)
    then show ?thesis using assms by (simp add: distinct_card)
  qed
  ultimately have "fresh_run M es (admission_init act) \<Longrightarrow> int (card (occupied ?st)) \<le> M"
    unfolding admission_run_def by (rule fresh_run_bound)
  moreover have "int (card (occupied ?st)) \<le> 2 * M" using wb budget_bound by (auto simp: within_budget_def)
  moreover have "length (ad_active ?st) \<le> card (occupied ?st)"
  proof -
    have "length (ad_active ?st) = card (set (ad_active ?st))"
      using wb by (simp add: within_budget_def slots_ok_def distinct_card)
    then show ?thesis by (simp add: card_mono occupied_def)
  qed
  ultimately show ?thesis by (simp add: Let_def)
qed

text \<open>
  The bound is reached. With a limit of one, the goroutine of the second chat reads its count while
  the first is admitted and compares it after the first became active and released its slot.
\<close>

definition stale_count_run :: "admission_event list" where
  "stale_count_run =
     [PollLook ''a'', PollClaim, ReadCount 0, Decide 0, PollLook ''b'', PollClaim, ReadCount 1,
      MarkLands 0, ReleaseSlot 0, Decide 1, MarkLands 1, ReleaseSlot 1]"

lemma stale_count_exceeds: "ad_active (admission_run 1 stale_count_run (admission_init [])) = [''b'', ''a'']"
  by code_simp

theorem admission_bounded_witness:
  "length (ad_active (admission_run 1 stale_count_run (admission_init []))) = 2 \<and>
   \<not> fresh_run 1 stale_count_run (admission_init []) \<and>
   card (occupied (admission_run 1 stale_count_run (admission_init []))) = 2"
proof -
  have "\<not> fresh_run 1 stale_count_run (admission_init [])" by code_simp
  then show ?thesis
    using admission_bounded [of "[]" 1 stale_count_run] stale_count_exceeds by (simp add: Let_def)
qed

text \<open>
  The poll asks whether a chat is active before it claims the slot. When an earlier goroutine of the
  same chat becomes active and releases its slot in between, the poll starts a second one for a
  chat that has an agent already.
\<close>

definition second_agent_run :: "admission_event list" where
  "second_agent_run =
     [PollLook ''a'', PollClaim, ReadCount 0, Decide 0, PollLook ''a'', MarkLands 0, ReleaseSlot 0, PollClaim]"

lemma second_agent_for_active_chat:
  "let st = admission_run 5 second_agent_run (admission_init [])
   in ad_active st = [''a''] \<and> map sp_chat (ad_procs st) = [''a'', ''a''] \<and> map sp_pc (ad_procs st) = [Started, Checking] \<and>
      map sp_pc (ad_procs (admission_run 5 [ReadCount 1, Decide 1, MarkLands 1, ReleaseSlot 1] st)) = [Started, Started]"
  by code_simp

theorem admission_exclusive_witness:
  "distinct [''c''] \<and> ad_bugs (admission_run 5 second_agent_run (admission_init [''c''])) = 0 \<and>
   ad_held (admission_run 5 second_agent_run (admission_init [''c''])) = [''a'']"
proof -
  have "ad_held (admission_run 5 second_agent_run (admission_init [''c''])) = [''a'']" by code_simp
  then show ?thesis using admission_exclusive [of "[''c'']" 5 second_agent_run] by (simp add: Let_def)
qed

end
