(* ===== verification/Orch_Loops.thy ===== *)
theory Orch_Loops
  imports Orch_Poll_Props
begin

text \<open>
  The construction of the orchestrator and its background loops
  (\<open>internal/orchestrator/orchestrator.go\<close>): the message loop, the flusher of confirmed cursors,
  the watcher of sandbox events with its back-off, the reconciler of streams, and the stop.
  Each loop takes the list of what its \<open>select\<close> receives, turn by turn; a result \<open>None\<close> says that
  it is still waiting when the list ends. The theorems: a message that a channel hands over
  wakes the loop and reaches an agent; the watcher waits within its bounds and never
  returns to the short wait; the final flush makes the confirmed cursors survive a restart.
\<close>

section \<open>Construction and stop\<close>

text \<open>A nil argument is \<open>None\<close>; the flags say whether there is a sandbox controller and a model lister.\<close>

definition new_world :: "'x \<Rightarrow> 'x world" where
  "new_world x = \<lparr>lastTimestamp = 0, lastAgentTimestamp = Map.empty, lastConfirmedTimestamp = Map.empty, sessions = Map.empty,
     registeredGroups = [], activeSandboxes = Map.empty, spawnStart = Map.empty, inflight = [], confirmedCursorDirty = False,
     rateLimiters = Map.empty, prevLastTimestampStr = [], prevAgentTsJSON = [], prevConfirmedTsJSON = [], notify = False,
     goroutines = [], ext = x\<rparr>"

definition Orchestrator_New ::
  "orch_config option \<Rightarrow> 's option \<Rightarrow> 'q option \<Rightarrow> 'b option \<Rightarrow> 'c option \<Rightarrow> 'r option \<Rightarrow> 'l option \<Rightarrow> 'm option \<Rightarrow> 'x \<Rightarrow>
     ('x world \<times> bool \<times> bool) result" where
  "Orchestrator_New cfg s q broker ctrl reg lg lister x =
     (if cfg = None then Inl (Errorf ''orchestrator: config is required'')
      else if s = None then Inl (Errorf ''orchestrator: store is required'')
      else if q = None then Inl (Errorf ''orchestrator: queue is required'')
      else if broker = None then Inl (Errorf ''orchestrator: ipc broker is required'')
      else if reg = None then Inl (Errorf ''orchestrator: channel registry is required'')
      else if lg = None then Inl (Errorf ''orchestrator: logger is required'')
      else Inr (new_world x, ctrl \<noteq> None, lister \<noteq> None))"

text \<open>\<open>Stop\<close> disconnects every channel; a failure is only logged.\<close>

definition Orchestrator_Stop :: "('c \<Rightarrow> 'x \<Rightarrow> unit result \<times> 'x) \<Rightarrow> 'c list \<Rightarrow> ('x, unit result) orch" where
  "Orchestrator_Stop disconnect chans = do { for_each chans (\<lambda>c. ignore (call (disconnect c))); ret (Inr ()) }"

section \<open>The message loop\<close>

datatype loop_input = LoopDone | LoopTick | LoopNotify

text \<open>The channel \<open>notify\<close> has one place; a turn can take from it only what is there.\<close>

fun messageLoop :: "'x orch_env \<Rightarrow> loop_input list \<Rightarrow> ('x, unit option) orch" where
  "messageLoop e [] = ret None"
| "messageLoop e (LoopDone # is) = ret (Some ())"
| "messageLoop e (LoopTick # is) = do { pollMessages e; messageLoop e is }"
| "messageLoop e (LoopNotify # is) = do {
     token \<leftarrow> gets notify;
     (if token then do { modify (\<lambda>w. w\<lparr>notify := False\<rparr>); pollMessages e } else ret ());
     messageLoop e is }"

section \<open>The flusher of confirmed cursors\<close>

datatype flush_input = FlushTick | FlushDone

fun confirmedCursorFlusher :: "'x orch_env \<Rightarrow> flush_input list \<Rightarrow> ('x, unit option) orch" where
  "confirmedCursorFlusher e [] = ret None"
| "confirmedCursorFlusher e (FlushTick # is) = do { ignore (flushConfirmedCursor e); confirmedCursorFlusher e is }"
| "confirmedCursorFlusher e (FlushDone # is) = do { ignore (flushConfirmedCursor e); ret (Some ()) }"

section \<open>The watcher of sandbox events\<close>

text \<open>One watch: what its channel delivers, until the context ends or the channel is closed.\<close>

datatype sandbox_input = SbDone | SbEvent SandboxEvent | SbClosed

fun sandbox_events :: "'x orch_env \<Rightarrow> sandbox_input list \<Rightarrow> ('x, unit result option) orch" where
  "sandbox_events e [] = ret None"
| "sandbox_events e (SbDone # is) = ret (Some (Inr ()))"
| "sandbox_events e (SbClosed # is) = ret (Some (Inl (Errorf ''sandbox watch channel closed'')))"
| "sandbox_events e (SbEvent ev # is) = do { handleSandboxEvent e ev; sandbox_events e is }"

definition runSandboxWatcher :: "'x orch_env \<Rightarrow> sandbox_input list result \<Rightarrow> ('x, unit result option) orch" where
  "runSandboxWatcher e watch =
     (case watch of
        Inl err \<Rightarrow> ret (Some (Inl (Wrapf ''watch sandboxes'' err)))
      | Inr is \<Rightarrow> sandbox_events e is)"

text \<open>
  The retry loop. A session is the answer of \<open>WatchSandboxes\<close>, whether the context had ended when
  the watch failed, and whether it ends during the wait. The result has the waits so far and
  whether the loop has returned. Go multiplies as \<open>float64\<close>; for a number of nanoseconds below
  \<open>2^52\<close> one and a half times it is a float without rounding, and the conversion cuts off the half.
\<close>

record watch_session =
  wa_watch :: "sandbox_input list result"
  wa_ctxErr :: bool
  wa_cancelled :: bool

definition baseBackoff :: duration where "baseBackoff = 100 * Millisecond"
definition maxBackoff :: duration where "maxBackoff = 30 * Second"

definition next_backoff :: "duration \<Rightarrow> duration" where
  "next_backoff b = (let b' = b * 3 div 2 in if b' > maxBackoff then maxBackoff else b')"

fun sandbox_retry :: "'x orch_env \<Rightarrow> duration \<Rightarrow> watch_session list \<Rightarrow> ('x, duration list \<times> bool) orch" where
  "sandbox_retry e backoff [] = ret ([], False)"
| "sandbox_retry e backoff (s # ss) = do {
     r \<leftarrow> runSandboxWatcher e (wa_watch s);
     (case r of
        None \<Rightarrow> ret ([], False)
      | Some (Inl _) \<Rightarrow>
          if wa_ctxErr s then ret ([], True)
          else if wa_cancelled s then ret ([backoff], True)
          else do { p \<leftarrow> sandbox_retry e (next_backoff backoff) ss; ret (backoff # fst p, snd p) }
      | Some (Inr _) \<Rightarrow> sandbox_retry e baseBackoff ss)
   }"

definition sandboxWatcher :: "'x orch_env \<Rightarrow> watch_session list \<Rightarrow> ('x, duration list \<times> bool) orch" where
  "sandboxWatcher e = sandbox_retry e baseBackoff"

section \<open>The reconciler of streams\<close>

definition streamReconcileInterval :: duration where "streamReconcileInterval = 10 * Minute"

text \<open>\<open>rand.N\<close> is a parameter: it answers a number below its argument.\<close>

definition jitteredReconcileDelay :: "(int \<Rightarrow> int) \<Rightarrow> duration" where
  "jitteredReconcileDelay randN =
     (let spread = streamReconcileInterval div 5 in streamReconcileInterval - spread + randN (2 * spread))"

datatype reconcile_input = ReconcileDone | ReconcileTimer "int \<Rightarrow> int"

text \<open>The result lists the delays the timer was set to.\<close>

fun reconcile_loop :: "'x orch_env \<Rightarrow> reconcile_input list \<Rightarrow> ('x, duration list) orch" where
  "reconcile_loop e [] = ret []"
| "reconcile_loop e (ReconcileDone # is) = ret []"
| "reconcile_loop e (ReconcileTimer randN # is) = do {
     reconcileIPCStreams e;
     ds \<leftarrow> reconcile_loop e is;
     ret (jitteredReconcileDelay randN # ds) }"

definition streamReconciler :: "'x orch_env \<Rightarrow> (int \<Rightarrow> int) \<Rightarrow> reconcile_input list \<Rightarrow> ('x, duration list) orch" where
  "streamReconciler e randN is = do { ds \<leftarrow> reconcile_loop e is; ret (jitteredReconcileDelay randN # ds) }"

section \<open>What a turn of the loop does for one chat\<close>

text \<open>What the dispatch of other chats leaves alone of this one.\<close>

definition undisturbed :: "string \<Rightarrow> sys world \<Rightarrow> sys world \<Rightarrow> bool" where
  "undisturbed chat w t \<longleftrightarrow> registeredGroups t = registeredGroups w \<and> lastAgentTimestamp t chat = lastAgentTimestamp w chat \<and>
     db_messages (y_db (ext t)) = db_messages (y_db (ext w)) \<and> db_groups (y_db (ext t)) = db_groups (y_db (ext w)) \<and>
     (chat \<in> set (inflight t) \<longleftrightarrow> chat \<in> set (inflight w)) \<and> set (goroutines w) \<subseteq> set (goroutines t)"

lemma undisturbed_refl [simp]: "undisturbed chat w w"
  by (simp add: undisturbed_def)

lemma undisturbed_trans: "undisturbed chat w t \<Longrightarrow> undisturbed chat t u \<Longrightarrow> undisturbed chat w u"
  by (auto simp: undisturbed_def)

lemma SetState_messages [simp]: "db_messages (snd (SetState f k v d)) = db_messages d"
  by (simp add: SetState_def split: option.split)

lemma undisturbed_saveState: "keeps (undisturbed chat w) (saveState (sys_env cfg codec lib rng sb o1))"
  unfolding saveState_def save_key_def Let_def
  by (intro keeps_intro keeps_exact keeps_modify) (simp_all add: undisturbed_def sys_simps)

lemma undisturbed_trigger: "keeps (undisturbed chat w) (trigger_check (sys_env cfg codec lib rng sb o1) j g ms)"
proof -
  have "keeps (undisturbed chat w) (hasTriggerMessage (sys_env cfg codec lib rng sb o1) j g ms)"
  proof (induction ms)
    case (Cons m ms)
    then show ?case unfolding hasTriggerMessage.simps IsAllowed_call_def
      by (intro keeps_intro keeps_exact) (simp_all add: undisturbed_def sys_simps)
  qed (simp add: keeps_intro)
  then show ?thesis unfolding trigger_check_def by (intro keeps_intro)
qed

lemma undisturbed_dispatch:
  assumes "j \<noteq> chat"
  shows "keeps (undisturbed chat w) (dispatch_group (sys_env cfg codec lib rng sb o1) ms j)"
  unfolding dispatch_group_def pipe_messages_def claimSandboxSlot_def Let_def
  by (intro keeps_intro keeps_exact keeps_modify keeps_ignore undisturbed_trigger undisturbed_saveState)
    (use assms in \<open>auto simp: undisturbed_def sys_simps\<close>)

text \<open>The chat's own turn claims its slot and starts the goroutine.\<close>

definition admitted :: "string \<Rightarrow> sys world \<Rightarrow> sys world \<Rightarrow> bool" where
  "admitted chat w t \<longleftrightarrow> registeredGroups t = registeredGroups w \<and> lastAgentTimestamp t chat = lastAgentTimestamp w chat \<and>
     db_messages (y_db (ext t)) = db_messages (y_db (ext w)) \<and> db_groups (y_db (ext t)) = db_groups (y_db (ext w)) \<and>
     GoProcess chat \<in> set (goroutines t)"

definition ready :: "string \<Rightarrow> Group \<Rightarrow> sys world \<Rightarrow> bool" where
  "ready chat grp w \<longleftrightarrow> map_of (registeredGroups w) chat = Some grp \<and> (g_IsMain grp \<or> \<not> g_RequiresTrigger grp) \<and>
     \<not> active_in (y_db (ext w)) chat \<and> chat \<notin> set (inflight w)"

lemma q_IsActive_inactive: "\<not> active_in d j \<Longrightarrow> q_IsActive None j d = Inr False"
  by (auto simp: q_IsActive_def wrap_err_def IsGroupActive_def active_in_def find_Some_iff split: option.split)

lemma dispatch_admits:
  assumes "no_failures o1" and "ready chat grp w"
  shows "wp (dispatch_group (sys_env cfg codec lib rng sb o1) ms chat) (\<lambda>_. admitted chat w) w"
  unfolding dispatch_group_def trigger_check_def claimSandboxSlot_def Let_def
  by (intro wp_shape) (use assms in \<open>auto simp: ready_def admitted_def sys_simps db_read_ok q_IsActive_inactive\<close>)

lemma undisturbed_ready: "undisturbed chat w t \<Longrightarrow> ready chat grp w \<Longrightarrow> ready chat grp t"
  by (simp add: undisturbed_def ready_def active_in_def)

lemma admitted_undisturbed: "admitted chat w t \<Longrightarrow> undisturbed chat t u \<Longrightarrow> admitted chat w u"
  by (auto simp: undisturbed_def admitted_def)

lemma undisturbed_admitted: "undisturbed chat w t \<Longrightarrow> admitted chat t u \<Longrightarrow> admitted chat w u"
  by (auto simp: undisturbed_def admitted_def)

lemma undisturbed_for_each:
  "chat \<notin> set xs \<Longrightarrow> keeps (undisturbed chat w) (for_each xs (dispatch_group (sys_env cfg codec lib rng sb o1) ms))"
  by (induction xs) (auto intro!: keeps_intro undisturbed_dispatch)

lemma for_each_admits:
  assumes "no_failures o1" and "ready chat grp w" and "chat \<in> set xs" and "distinct xs"
  shows "wp (for_each xs (dispatch_group (sys_env cfg codec lib rng sb o1) ms)) (\<lambda>_. admitted chat w) w"
  using assms(2-4)
proof (induction xs arbitrary: w)
  case (Cons x xs)
  show ?case
  proof (cases "x = chat")
    case True
    then have rest: "keeps (undisturbed chat t) (for_each xs (dispatch_group (sys_env cfg codec lib rng sb o1) ms))" for t
      using Cons.prems by (intro undisturbed_for_each) simp
    show ?thesis unfolding for_each.simps True
      by (intro wp_bind wp_mono [OF dispatch_admits [OF assms(1) Cons.prems(1)]] wp_keeps [OF rest])
        (auto intro: admitted_undisturbed)
  next
    case False
    have step: "wp (dispatch_group (sys_env cfg codec lib rng sb o1) ms x) (\<lambda>_. undisturbed chat w) w"
      by (rule wp_keeps [OF undisturbed_dispatch [OF False]]) simp_all
    show ?thesis unfolding for_each.simps
      using Cons False by (intro wp_bind wp_mono [OF step] wp_mono [OF Cons.IH])
        (auto intro: undisturbed_ready undisturbed_admitted)
  qed
qed simp

section \<open>The poll\<close>

lemma map_of_register_other: "j \<notin> g_JID ` set gs \<Longrightarrow> map_of (register_groups gs m) j = map_of m j"
  by (induction gs arbitrary: m) (simp_all add: update_conv')

lemma map_of_register: "g \<in> set gs \<Longrightarrow> distinct (map g_JID gs) \<Longrightarrow> map_of (register_groups gs m) (g_JID g) = Some g"
  by (induction gs arbitrary: m) (auto simp: map_of_register_other update_conv')

text \<open>The chat is idle: its group needs no trigger, runs no agent, and none is being started.\<close>

definition idle_chat :: "group_row \<Rightarrow> sys world \<Rightarrow> bool" where
  "idle_chat r w \<longleftrightarrow> r \<in> set (db_groups (y_db (ext w))) \<and> distinct (map row_jid (db_groups (y_db (ext w)))) \<and> \<not> r_is_active r \<and>
     (g_IsMain (r_group r) \<or> \<not> g_RequiresTrigger (r_group r)) \<and> row_jid r \<notin> set (inflight w)"

lemma distinct_row: "distinct (map row_jid rs) \<Longrightarrow> r \<in> set rs \<Longrightarrow> r' \<in> set rs \<Longrightarrow> row_jid r = row_jid r' \<Longrightarrow> r = r'"
  by (auto simp: distinct_map inj_on_def)

lemma idle_ready:
  assumes "idle_chat r w" and "registeredGroups t = register_groups (map r_group (db_groups (y_db (ext w)))) []"
    and "db_groups (y_db (ext t)) = db_groups (y_db (ext w))" and "inflight t = inflight w"
  shows "ready (row_jid r) (r_group r) t"
  using assms map_of_register [of "r_group r" "map r_group (db_groups (y_db (ext w)))" "[]"]
  by (auto simp: idle_chat_def ready_def active_in_def comp_def dest: distinct_row)

lemma length_filter_mono: "(\<And>x. P x \<Longrightarrow> Q x) \<Longrightarrow> length (filter P xs) \<le> length (filter Q xs)"
  by (induction xs) (auto intro: le_SucI)

lemma poll_admits:
  assumes "no_failures o1" and "range_ok rng" and "idle_chat r w" and "0 \<le> oc_MessageLimit cfg"
    and m: "m \<in> set (db_messages (y_db (ext w)))" "m_ChatJID m = row_jid r" "visible m" "lastTimestamp w < m_Timestamp m"
    and few: "length (filter (\<lambda>m. lastTimestamp w < m_Timestamp m \<and> visible m) (db_messages (y_db (ext w)))) \<le> nat (oc_MessageLimit cfg)"
  shows "wp (pollMessages (sys_env cfg codec lib rng sb o1)) (\<lambda>_ t. map_of (registeredGroups t) (row_jid r) = Some (r_group r) \<and>
     admitted (row_jid r) (w\<lparr>registeredGroups := registeredGroups t\<rparr>) t) w"
proof -
  let ?regs = "register_groups (map r_group (db_groups (y_db (ext w)))) []"
  let ?P = "\<lambda>m. lastTimestamp w < m_Timestamp m \<and> m_ChatJID m \<in> fst ` set ?regs \<and> visible m"
  let ?new = "newest (nat (oc_MessageLimit cfg)) (filter ?P (db_messages (y_db (ext w))))"
  let ?w1 = "w\<lparr>registeredGroups := ?regs, ext := tick 1 (ext w)\<rparr>"
  have reg: "map_of ?regs (row_jid r) = Some (r_group r)"
    using idle_ready [OF assms(3), of ?w1] by (simp add: ready_def)
  then have jid: "row_jid r \<in> fst ` set ?regs" by (metis map_of_eq_None_iff option.distinct(1))
  have "length (filter ?P (db_messages (y_db (ext w)))) \<le> nat (oc_MessageLimit cfg)"
    by (rule le_trans [OF length_filter_mono few]) simp
  from arg_cong [OF newest_all [OF this], of set_mset] have "m \<in> set ?new"
    using m jid by simp
  moreover have "distinct (rng xs)" if "distinct xs" for xs
    using that assms(2) by (metis range_ok_def card_distinct distinct_card)
  ultimately have chats: "row_jid r \<in> set (rng (chats_of ?new))" "distinct (rng (chats_of ?new))" "?new \<noteq> []"
    using m(2) [symmetric] by (auto simp: chats_of_def range_ok_set [OF assms(2)])
  let ?w2 = "?w1\<lparr>ext := tick 1 (ext ?w1), lastTimestamp := m_Timestamp (last ?new)\<rparr>"
  have ready: "ready (row_jid r) (r_group r) t" if "undisturbed (row_jid r) ?w2 t" for t
    using undisturbed_ready [OF that] idle_ready [OF assms(3), of ?w2] by simp
  have restore: "map_of (registeredGroups u) (row_jid r) = Some (r_group r) \<and> admitted (row_jid r) (w\<lparr>registeredGroups := registeredGroups u\<rparr>) u"
    if "undisturbed (row_jid r) ?w2 t" "admitted (row_jid r) t u" for t u
    using that reg by (auto simp: undisturbed_def admitted_def)
  have save: "wp (saveState (sys_env cfg codec lib rng sb o1)) (\<lambda>_. undisturbed (row_jid r) ?w2) ?w2"
    by (rule wp_keeps [OF undisturbed_saveState]) simp_all
  have tail: "wp (ignore (saveState (sys_env cfg codec lib rng sb o1)) \<bind> (\<lambda>_. for_each (rng (chats_of ?new))
      (dispatch_group (sys_env cfg codec lib rng sb o1) ?new))) (\<lambda>_ t. map_of (registeredGroups t) (row_jid r) = Some (r_group r) \<and>
     admitted (row_jid r) (w\<lparr>registeredGroups := registeredGroups t\<rparr>) t) ?w2"
    by (intro wp_bind wp_ignore wp_mono [OF save] wp_mono [OF for_each_admits [OF assms(1) ready chats(1,2)]])
      (assumption | rule restore)+
  have groups: "map fst ?regs \<noteq> []" using jid by auto
  have "run_state (pollMessages (sys_env cfg codec lib rng sb o1)) w = run_state (ignore (saveState (sys_env cfg codec lib rng sb o1)) \<bind>
      (\<lambda>_. for_each (rng (chats_of ?new)) (dispatch_group (sys_env cfg codec lib rng sb o1) ?new))) ?w2"
    using groups chats(3) assms(1,4) unfolding pollMessages_def Let_def
    by (subst run_bind, subst run_refreshGroups) (simp_all add: run_call sys_simps db_read_ok GetNewMessages_def no_failures_def)
  with tail show ?thesis by (simp add: wp_def)
qed

section \<open>From a channel to an agent\<close>

definition inbound_message :: "InboundMessage \<Rightarrow> Message" where
  "inbound_message msg = \<lparr>m_ID = im_ID msg, m_ChatJID = im_ChatJID msg, m_Sender = im_Sender msg, m_SenderName = im_SenderName msg,
     m_Content = im_Content msg, m_Timestamp = db_time6 (im_Timestamp msg), m_IsFromMe = False, m_IsBotMessage = False\<rparr>"

lemma run_store_inbound:
  assumes "no_failures o1" and "run_state (store_inbound (sys_env cfg codec lib rng sb o1) j msg) w = ((), w')"
  shows "notify w' \<and> inbound_message msg \<in> set (db_messages (y_db (ext w'))) \<and> db_groups (y_db (ext w')) = db_groups (y_db (ext w)) \<and>
    lastTimestamp w' = lastTimestamp w \<and> lastAgentTimestamp w' = lastAgentTimestamp w \<and> inflight w' = inflight w"
  using assms
  by (auto simp: store_inbound_def run_call sys_simps db_write_def StoreMessage_def no_failures_def replace_message_def inbound_message_def)

lemma rate_limited_frame:
  assumes "run_state (rate_limited (sys_env cfg codec lib rng sb o1) j) w = (b, w')"
  shows "y_db (ext w') = y_db (ext w) \<and> lastTimestamp w' = lastTimestamp w \<and> lastAgentTimestamp w' = lastAgentTimestamp w \<and> inflight w' = inflight w"
  using assms
  by (cases "rateLimiters w j") (auto simp: rate_limited_def run_bind run_call sys_simps answer_def split: prod.splits)

text \<open>A message that is no command, passes the rate limiter and is not too large is stored, and the loop is woken.\<close>

lemma run_onInboundMessage:
  assumes "no_failures o1" and "\<not> HasPrefix (TrimSpace (im_Content msg)) ''/''"
    and "\<not> fst (run_state (rate_limited (sys_env cfg codec lib rng sb o1) j) w)"
    and "oc_MaxMessageSizeBytes cfg \<le> 0 \<or> int (length (im_Content msg)) \<le> oc_MaxMessageSizeBytes cfg"
    and "run_state (onInboundMessage (sys_env cfg codec lib rng sb o1) command j msg) w = ((), w')"
  shows "notify w' \<and> inbound_message msg \<in> set (db_messages (y_db (ext w'))) \<and> db_groups (y_db (ext w')) = db_groups (y_db (ext w)) \<and>
    lastTimestamp w' = lastTimestamp w \<and> lastAgentTimestamp w' = lastAgentTimestamp w \<and> inflight w' = inflight w"
proof -
  let ?e = "sys_env cfg codec lib rng sb o1"
  obtain w1 where rl: "run_state (rate_limited ?e j) w = (False, w1)"
    using assms(3) by (cases "run_state (rate_limited ?e j) w") simp
  have "run_state (store_inbound ?e j msg) w1 = ((), w')"
    using assms(2,4,5) rl by (auto simp: onInboundMessage_def run_bind sys_simps)
  from run_store_inbound [OF assms(1) this] rate_limited_frame [OF rl] show ?thesis by simp
qed

lemma run_process_ext:
  "run_state (run_process e chat) w = (res, w2) \<Longrightarrow>
     \<exists>rel w'. run_state (processGroupMessages e chat) w = ((rel, res), w') \<and> ext w2 = ext w'"
  by (auto simp: run_process_def releaseSandboxSlot_def run_bind split_beta prod_eq_iff split: if_splits)

lemma woken_loop_polls:
  "notify w \<Longrightarrow> wp (pollMessages e) (\<lambda>_. Q) (w\<lparr>notify := False\<rparr>) \<Longrightarrow> run_state (messageLoop e [LoopNotify]) w = (r, w') \<Longrightarrow> Q w'"
  by (auto simp: wp_def run_bind split_beta)

text \<open>
  C1: A message that a channel hands to \<open>onInboundMessage\<close> reaches an agent, under these conditions.
  It is not empty, no slash command, within the size limit, and the rate limiter lets it through;
  it is newer than the cursor of the poll and the cursor of its chat; the chat is a registered group
  that needs no trigger, runs no agent and has none being started; no more messages are new to
  the poll, and no more are pending in the chat, than \<open>MessageLimit\<close>; and no call to the store,
  Kubernetes or NATS fails. Then the message is stored, the loop is woken, and its next turn
  starts the processing of the group, whatever it does for other chats before and after; and
  that processing, when \<open>MAX_CONCURRENT\<close> leaves room for it, creates a sandbox and sends it an
  input that contains the message.
\<close>

theorem inbound_reaches_agent:
  assumes env: "no_failures o1" "range_ok rng" "sb" "\<And>s. is_ok (cj_encMessages codec s)" "0 < oc_MessageLimit cfg"
    and chat: "idle_chat r w" "im_ChatJID msg = row_jid r" "im_Content msg \<noteq> []"
    and taken: "\<not> HasPrefix (TrimSpace (im_Content msg)) ''/''" "\<not> fst (run_state (rate_limited (sys_env cfg codec lib rng sb o1) (row_jid r)) w)"
      "oc_MaxMessageSizeBytes cfg \<le> 0 \<or> int (length (im_Content msg)) \<le> oc_MaxMessageSizeBytes cfg"
    and fresh: "lastTimestamp w < db_time6 (im_Timestamp msg)" "ts_get (lastAgentTimestamp w) (row_jid r) < db_time6 (im_Timestamp msg)"
    and inbound: "run_state (onInboundMessage (sys_env cfg codec lib rng sb o1) command (row_jid r) msg) w = ((), w0)"
    and few: "length (filter (\<lambda>m. lastTimestamp w < m_Timestamp m \<and> visible m) (db_messages (y_db (ext w0)))) \<le> nat (oc_MessageLimit cfg)"
      "length (pending (row_jid r) (ts_get (lastAgentTimestamp w) (row_jid r)) (y_db (ext w0))) \<le> nat (oc_MessageLimit cfg)"
    and turn: "run_state (messageLoop (sys_env cfg codec lib rng sb o1) [LoopNotify]) w0 = (None, w1)"
    and room: "int (length (filter r_is_active (db_groups (y_db (ext w1))))) + inflight_others (row_jid r) (inflight w1) < oc_MaxConcurrent cfg"
    and process: "run_state (run_process (sys_env cfg codec lib rng sb o1) (row_jid r)) w1 = (res, w2)"
  shows "GoProcess (row_jid r) \<in> set (goroutines w1) \<and> res = Inr True \<and>
    (\<exists>ms sid payload new. inbound_message msg \<in> set ms \<and>
       cj_encMessages codec (FormatMessagesForAgent ms (oc_AssistantName cfg)) = Inr payload \<and>
       start_log (sandbox_config cfg (row_jid r) (r_group r) sid (FormatMessagesForAgent ms (oc_AssistantName cfg))) (r_group r) payload new \<and>
       y_log (ext w2) = y_log (ext w1) @ new)"
proof -
  let ?e = "sys_env cfg codec lib rng sb o1" and ?j = "row_jid r" and ?m = "inbound_message msg"
  note s = run_onInboundMessage [OF env(1) taken inbound]
  have m: "m_ChatJID ?m = ?j" "visible ?m" "m_Timestamp ?m = db_time6 (im_Timestamp msg)"
    using chat by (simp_all add: inbound_message_def visible_def)
  have idle: "idle_chat r (w0\<lparr>notify := False\<rparr>)" using chat(1) s by (simp add: idle_chat_def)
  have "wp (pollMessages ?e) (\<lambda>_ t. map_of (registeredGroups t) ?j = Some (r_group r) \<and>
      admitted ?j (w0\<lparr>notify := False, registeredGroups := registeredGroups t\<rparr>) t) (w0\<lparr>notify := False\<rparr>)"
    using poll_admits [OF env(1,2) idle, of cfg ?m codec lib sb] env(5) s m fresh few(1) by simp
  from woken_loop_polls [OF _ this turn] s
  have adm: "map_of (registeredGroups w1) ?j = Some (r_group r)" "GoProcess ?j \<in> set (goroutines w1)"
    "ts_get (lastAgentTimestamp w1) ?j = ts_get (lastAgentTimestamp w) ?j"
    "db_messages (y_db (ext w1)) = db_messages (y_db (ext w0))" "db_groups (y_db (ext w1)) = db_groups (y_db (ext w))"
    by (simp_all add: admitted_def ts_get_def)
  let ?p = "pending ?j (ts_get (lastAgentTimestamp w1) ?j) (y_db (ext w1))"
  have "?p = pending ?j (ts_get (lastAgentTimestamp w) ?j) (y_db (ext w0))" using adm by (simp add: pending_def)
  with s m fresh(2) few(2) have p: "?m \<in> set ?p" "length ?p \<le> nat (oc_MessageLimit cfg)" by (simp_all add: pending_def)
  from run_process_ext [OF process] obtain rel w' where
    run: "run_state (processGroupMessages ?e ?j) w1 = ((rel, res), w')" and x: "ext w2 = ext w'" by blast
  have row: "has_row ?j (y_db (ext w1))" using chat(1) adm(5) by (auto simp: has_row_def idle_chat_def)
  have trig: "g_IsMain (r_group r) \<or> \<not> g_RequiresTrigger (r_group r)" using chat(1) by (simp add: idle_chat_def)
  have "snd (fst (run_state (processGroupMessages ?e ?j) w1)) = Inr True"
    using start_ok [OF env(1) row env(3,4) adm(1) trig env(5) _ room] p(1) by (metis list.set(1) empty_iff)
  then have res: "res = Inr True" using run by simp
  with deliver_processGroupMessages [of cfg codec lib rng sb o1 ?j w1] run
  obtain ms sid payload new where ms: "ms = newest (nat (oc_MessageLimit cfg)) ?p"
    "cj_encMessages codec (FormatMessagesForAgent ms (oc_AssistantName cfg)) = Inr payload"
    "start_log (sandbox_config cfg ?j (r_group r) sid (FormatMessagesForAgent ms (oc_AssistantName cfg))) (r_group r) payload new"
    "y_log (ext w') = y_log (ext w1) @ new"
    by (auto simp: wp_def deliver_post_def adm(1))
  have "?m \<in> set ms" using p arg_cong [OF newest_all [OF p(2)], of set_mset] ms(1) by simp
  with ms(2-4) res adm(2) x show ?thesis by metis
qed

text \<open>A poll claims slots of registered groups only.\<close>

lemma claims_for_each:
  "set xs \<subseteq> A \<Longrightarrow> keeps (\<lambda>t. set (inflight t) \<subseteq> A) (for_each xs (dispatch_group e ms))"
proof (induction xs)
  case (Cons x xs)
  have "keeps (\<lambda>t. set (inflight t) \<subseteq> A) (hasTriggerMessage e j g us)" for j g us
    by (induction us) (auto simp: IsAllowed_call_def intro!: keeps_intro keeps_call)
  then have "keeps (\<lambda>t. set (inflight t) \<subseteq> A) (dispatch_group e ms x)"
    using Cons.prems unfolding dispatch_group_def pipe_messages_def trigger_check_def claimSandboxSlot_def saveState_def save_key_def Let_def
    by (intro keeps_intro keeps_call keeps_modify keeps_ignore) auto
  with Cons show ?case by (auto intro: keeps_intro)
qed (simp add: keeps_intro)

lemma wp_refreshGroups:
  "no_failures o1 \<Longrightarrow> Q () (w\<lparr>registeredGroups := register_groups (map r_group (db_groups (y_db (ext w)))) [], ext := tick 1 (ext w)\<rparr>) \<Longrightarrow>
     wp (refreshGroups (sys_env cfg codec lib rng sb o1)) Q w"
  by (simp add: wp_def run_refreshGroups no_failures_def)

lemma poll_claims:
  assumes "no_failures o1" and "range_ok rng" and "set (inflight w) \<subseteq> A" and "fst ` set (register_groups (map r_group (db_groups (y_db (ext w)))) []) \<subseteq> A"
  shows "wp (pollMessages (sys_env cfg codec lib rng sb o1)) (\<lambda>_ t. set (inflight t) \<subseteq> A) w"
proof -
  have chats: "set (rng (chats_of ms)) \<subseteq> A" if "GetNewMessages None js since n d = Inr ms" "set js \<subseteq> A" for ms js since n d
    using that newest_subset by (fastforce simp: range_ok_set [OF assms(2)] chats_of_def GetNewMessages_def split: if_splits)
  show ?thesis
    unfolding pollMessages_def Let_def id_def
    by (intro wp_refreshGroups [OF assms(1)] wp_shape wp_saveState wp_keeps [OF claims_for_each]; use assms chats in \<open>auto simp: sys_simps db_read_ok\<close>)
qed

definition hello_msg :: InboundMessage where
  "hello_msg = \<lparr>im_ID = ''1'', im_ChatJID = ''g'', im_Sender = ''u'', im_SenderName = ''U'', im_Content = ''hi'', im_Timestamp = 0, im_IsGroup = True\<rparr>"

definition chat_row :: group_row where
  "chat_row = \<lparr>r_group = chat_group, r_is_active = False, r_last_active_at = None\<rparr>"

lemmas hello_defs = hello_msg_def chat_row_def demo_sys_defs

lemma hello_plain: "\<not> HasPrefix (TrimSpace (im_Content hello_msg)) ''/''"
  unfolding hello_msg_def by code_simp

abbreviation hello_world :: "sys world" where
  "hello_world \<equiv> (demo_world False [] (-1) (-1))\<lparr>lastTimestamp := -1\<rparr>"

lemma hello_rate: "\<not> fst (run_state (rate_limited demo_env ''g'') hello_world)"
  by (simp add: rate_limited_def run_bind run_call sys_simps answer_def demo_sys_defs TryAcquire_def newTokenBucket_def Let_def)

lemma hello_stored:
  "let w0 = snd (run_state (onInboundMessage demo_env (\<lambda>_ _ _. ret False) ''g'' hello_msg) hello_world)
   in db_messages (y_db (ext w0)) = [inbound_message hello_msg] \<and> db_groups (y_db (ext w0)) = [chat_row] \<and> inflight w0 = [] \<and> notify w0 \<and> lastTimestamp w0 = -1"
proof -
  obtain w1 where rl: "run_state (rate_limited demo_env ''g'') hello_world = (False, w1)"
    using hello_rate by (cases "run_state (rate_limited demo_env ''g'') hello_world") simp
  have "run_state (onInboundMessage demo_env (\<lambda>_ _ _. ret False) ''g'' hello_msg) hello_world = run_state (store_inbound demo_env ''g'' hello_msg) w1"
    using hello_plain rl by (simp add: onInboundMessage_def run_bind sys_simps demo_cfg_def)
  then show ?thesis
    using rate_limited_frame [OF rl]
    by (simp add: store_inbound_def run_call sys_simps db_write_def StoreMessage_def replace_message_def inbound_message_def hello_defs)
qed

theorem inbound_reaches_agent_witness:
  "let w = (demo_world False [] (-1) (-1))\<lparr>lastTimestamp := -1\<rparr>; w0 = snd (run_state (onInboundMessage demo_env (\<lambda>_ _ _. ret False) ''g'' hello_msg) w);
       w1 = snd (run_state (messageLoop demo_env [LoopNotify]) w0)
   in GoProcess ''g'' \<in> set (goroutines w1) \<and> fst (run_state (run_process demo_env ''g'') w1) = Inr True"
proof -
  let ?w = "(demo_world False [] (-1) (-1))\<lparr>lastTimestamp := -1\<rparr>"
  let ?stored = "snd (run_state (onInboundMessage demo_env (\<lambda>_ _ _. ret False) ''g'' hello_msg) ?w)"
  let ?polled = "snd (run_state (messageLoop demo_env [LoopNotify]) ?stored)"
  have jid: "row_jid chat_row = ''g''" by (simp add: hello_defs)
  have idle: "idle_chat chat_row ?w" by (simp add: idle_chat_def hello_defs)
  have rows: "db_messages (y_db (ext ?stored)) = [inbound_message hello_msg]" "db_groups (y_db (ext ?stored)) = [chat_row]"
    "inflight ?stored = []" "notify ?stored" "lastTimestamp ?stored = -1"
    using hello_stored by (simp_all add: Let_def)
  have m: "visible (inbound_message hello_msg)" "m_ChatJID (inbound_message hello_msg) = ''g''" "m_Timestamp (inbound_message hello_msg) = 0"
    by (simp_all add: inbound_message_def visible_def hello_msg_def db_time6_def)
  have turn: "run_state (messageLoop demo_env [LoopNotify]) ?stored = (None, ?polled)"
    by (simp add: run_bind split_beta prod_eq_iff)
  have rng: "range_ok (\<lambda>x. x)" "range_ok id" by (simp_all add: range_ok_def)
  have "set (inflight ?polled) \<subseteq> {''g''}"
    by (rule woken_loop_polls [OF rows(4) poll_claims [OF demo_no_failures rng(2)] turn])
      (simp_all add: rows, simp add: chat_row_def chat_group_def)
  moreover have "idle_chat chat_row (?stored\<lparr>notify := False\<rparr>)"
    by (simp add: idle_chat_def rows) (simp add: hello_defs)
  then have "wp (pollMessages demo_env) (\<lambda>_ t. db_groups (y_db (ext t)) = [chat_row]) (?stored\<lparr>notify := False\<rparr>)"
    by (rule wp_mono [OF poll_admits [OF demo_no_failures rng(2)]]) (simp_all add: rows jid demo_hyps admitted_def, simp_all add: m)
  then have "db_groups (y_db (ext ?polled)) = [chat_row]"
    by (rule woken_loop_polls [OF rows(4) _ turn])
  ultimately have room: "int (length (filter r_is_active (db_groups (y_db (ext ?polled))))) + inflight_others (row_jid chat_row) (inflight ?polled) < oc_MaxConcurrent demo_cfg"
    unfolding jid by (auto simp: inflight_others_def chat_row_def demo_cfg_def filter_empty_conv)
  have stored: "run_state (onInboundMessage demo_env (\<lambda>_ _ _. ret False) (row_jid chat_row) hello_msg) ?w = ((), ?stored)"
    by (simp add: prod_eq_iff jid)
  have taken: "\<not> fst (run_state (rate_limited demo_env (row_jid chat_row)) ?w)"
    "oc_MaxMessageSizeBytes demo_cfg \<le> 0 \<or> int (length (im_Content hello_msg)) \<le> oc_MaxMessageSizeBytes demo_cfg"
    by (simp_all add: jid hello_rate) (simp_all add: demo_cfg_def)
  have hello: "im_ChatJID hello_msg = row_jid chat_row" "im_Content hello_msg \<noteq> []" "lastTimestamp ?w < db_time6 (im_Timestamp hello_msg)"
    "ts_get (lastAgentTimestamp ?w) (row_jid chat_row) < db_time6 (im_Timestamp hello_msg)"
    by (simp_all add: jid) (simp_all add: hello_defs db_time6_def)
  have limit: "0 < oc_MessageLimit demo_cfg" "nat (oc_MessageLimit demo_cfg) = 10" by (simp_all add: demo_cfg_def)
  have few: "length (filter P (db_messages (y_db (ext ?stored)))) \<le> nat (oc_MessageLimit demo_cfg)" for P
    by (simp add: rows limit)
  have few2: "length (pending j t (y_db (ext ?stored))) \<le> nat (oc_MessageLimit demo_cfg)" for j t
    unfolding pending_def by (rule few)
  show ?thesis
    using inbound_reaches_agent [OF demo_no_failures rng(2) TrueI demo_hyps(2) limit(1) idle hello(1,2) hello_plain taken hello(3,4) stored few few2 turn room prod.collapse [symmetric]]
    by (simp add: jid)
qed

section \<open>Messages beyond the limit of a poll\<close>

lemma passed_for_each:
  assumes "chat \<notin> set xs"
  shows "keeps (\<lambda>t. lastTimestamp t = T \<and> (GoProcess chat \<in> set (goroutines t) \<longrightarrow> B)) (for_each xs (dispatch_group e ms))"
  using assms
proof (induction xs)
  case (Cons x xs)
  let ?I = "\<lambda>t. lastTimestamp t = T \<and> (GoProcess chat \<in> set (goroutines t) \<longrightarrow> B)"
  have "keeps ?I (hasTriggerMessage e j g us)" for j g us
    by (induction us) (auto simp: IsAllowed_call_def intro!: keeps_intro keeps_call)
  then have "keeps ?I (dispatch_group e ms x)"
    using Cons.prems unfolding dispatch_group_def pipe_messages_def trigger_check_def claimSandboxSlot_def saveState_def save_key_def Let_def
    by (intro keeps_intro keeps_call keeps_modify keeps_ignore) auto
  with Cons show ?case by (auto intro: keeps_intro)
qed (simp add: keeps_intro)

lemma newest_Nil: "newest n [] = []"
  by (simp add: newest_def)

text \<open>
  A poll passes over what exceeds its limit. When more messages are new than the limit, the poll
  reads the newest ones and moves its cursor to the last of them; an older message is then
  not behind the cursor any more, no later poll returns it, and when its chat has no message
  among those that were read, nothing is started for it.
\<close>

theorem poll_skips_backlog:
  fixes w :: "sys world"
  defines "new \<equiv> filter (\<lambda>m. lastTimestamp w < m_Timestamp m \<and>
      m_ChatJID m \<in> fst ` set (register_groups (map r_group (db_groups (y_db (ext w)))) []) \<and> visible m) (db_messages (y_db (ext w)))"
  assumes "no_failures o1" and "range_ok rng" and "0 < oc_MessageLimit cfg"
    and "m \<in># mset new - mset (newest (nat (oc_MessageLimit cfg)) new)"
    and "m_ChatJID m \<notin> m_ChatJID ` set (newest (nat (oc_MessageLimit cfg)) new)"
    and "run_state (pollMessages (sys_env cfg codec lib rng sb o1)) w = ((), w')"
  shows "m_Timestamp m \<le> lastTimestamp w' \<and> (GoProcess (m_ChatJID m) \<in> set (goroutines w') \<longrightarrow> GoProcess (m_ChatJID m) \<in> set (goroutines w))"
proof -
  let ?new = "newest (nat (oc_MessageLimit cfg)) new"
  let ?T = "m_Timestamp (last ?new)" and ?B = "GoProcess (m_ChatJID m) \<in> set (goroutines w)"
  have "new \<noteq> []" using assms(5) by auto
  then have ne: "?new \<noteq> []" using assms(4) by (simp add: newest_ne)
  then have T: "m_Timestamp m \<le> ?T" using newest_are_newest [OF assms(5)] by simp
  have chats: "m_ChatJID m \<notin> set (rng (chats_of ?new))"
    using assms(6) by (simp add: range_ok_set [OF assms(3)] chats_of_def)
  have "wp (pollMessages (sys_env cfg codec lib rng sb o1)) (\<lambda>_ t. lastTimestamp t = ?T \<and> (GoProcess (m_ChatJID m) \<in> set (goroutines t) \<longrightarrow> ?B)) w"
    unfolding pollMessages_def Let_def id_def
    by (intro wp_refreshGroups [OF assms(2)] wp_shape wp_saveState wp_keeps [OF passed_for_each];
        use assms(2,4) ne chats in \<open>auto simp: sys_simps db_read_ok GetNewMessages_def new_def newest_Nil\<close>)
  with assms(7) T show ?thesis by (simp add: wp_def)
qed

section \<open>The waits of the watcher\<close>

definition backoff_at :: "nat \<Rightarrow> duration" where
  "backoff_at n = (next_backoff ^^ n) baseBackoff"

lemma next_backoff_bounds: "baseBackoff \<le> b \<Longrightarrow> baseBackoff \<le> next_backoff b \<and> next_backoff b \<le> maxBackoff"
  by (auto simp: next_backoff_def baseBackoff_def maxBackoff_def Let_def)

lemma backoff_at_Suc: "backoff_at (Suc n) = next_backoff (backoff_at n)"
  by (simp add: backoff_at_def)

lemma backoff_at_max: "15 \<le> n \<Longrightarrow> backoff_at n = maxBackoff"
proof (induction n rule: dec_induct)
  case base
  show ?case by (simp add: backoff_at_def next_backoff_def baseBackoff_def maxBackoff_def numeral_eq_Suc Let_def)
next
  case (step n)
  then show ?case by (simp add: backoff_at_Suc next_backoff_def maxBackoff_def)
qed

lemma retry_bounds:
  "baseBackoff \<le> b \<Longrightarrow> b \<le> maxBackoff \<Longrightarrow>
     wp (sandbox_retry e b ss) (\<lambda>p _. list_all (\<lambda>d. baseBackoff \<le> d \<and> d \<le> maxBackoff) (fst p)) w"
proof (induction ss arbitrary: b w)
  case (Cons s ss)
  have base: "baseBackoff \<le> baseBackoff" "baseBackoff \<le> maxBackoff" by (simp_all add: baseBackoff_def maxBackoff_def)
  have any: "wp (runSandboxWatcher e x) (\<lambda>_ _. True) w" for x w by (simp add: wp_def)
  show ?case unfolding sandbox_retry.simps
    using Cons.prems next_backoff_bounds [of b]
    by (intro wp_bind [OF wp_mono [OF any]] wp_option wp_sum wp_if wp_ret wp_bind [OF wp_mono [OF Cons.IH]] wp_mono [OF Cons.IH] base) auto
qed (simp add: wp_def)

text \<open>A watch that does not see the end of the context.\<close>

definition watch_lasts :: "watch_session \<Rightarrow> bool" where
  "watch_lasts s \<longleftrightarrow> (case wa_watch s of Inl _ \<Rightarrow> True | Inr is \<Rightarrow> SbDone \<notin> set is)"

lemma events_last: "SbDone \<notin> set is \<Longrightarrow> fst (run_state (sandbox_events e is) w) \<noteq> Some (Inr ())"
proof (induction e "is" arbitrary: w rule: sandbox_events.induct)
  case (4 e ev "is")
  then show ?case by (simp add: run_bind split_beta)
qed simp_all

lemma watcher_fails: "watch_lasts s \<Longrightarrow> wp (runSandboxWatcher e (wa_watch s)) (\<lambda>r _. r \<noteq> Some (Inr ())) w"
  by (auto simp: wp_def runSandboxWatcher_def watch_lasts_def events_last split: sum.splits)

lemma retry_waits:
  "list_all watch_lasts ss \<Longrightarrow>
     wp (sandbox_retry e (backoff_at n) ss) (\<lambda>p _. \<forall>i < length (fst p). fst p ! i = backoff_at (n + i)) w"
proof (induction ss arbitrary: n w)
  case (Cons s ss)
  have s: "watch_lasts s" and ss: "list_all watch_lasts ss" using Cons.prems by simp_all
  show ?case unfolding sandbox_retry.simps backoff_at_Suc [symmetric]
    by (intro wp_bind [OF wp_mono [OF watcher_fails [OF s]]] wp_option wp_sum wp_if wp_ret wp_bind [OF wp_mono [OF Cons.IH [OF ss]]])
      (auto simp: nth_Cons split: nat.split)
qed (simp add: wp_def)

text \<open>
  The waits of the sandbox watcher are at least 100 milliseconds and at most 30 seconds. Each is
  one and a half times the one before, and the short wait does not come back: as long as the
  context lasts, the \<open>i\<close>-th end of a watch is followed by the \<open>i\<close>-th wait of that series, however
  long the watches before it lasted and whatever they delivered, so that from the sixteenth
  end on the orchestrator sees no sandbox event for 30 seconds each time.
\<close>

theorem sandbox_watcher_waits:
  assumes "run_state (sandboxWatcher e ss) w = ((waits, ended), w')"
  shows "list_all (\<lambda>d. 100 * Millisecond \<le> d \<and> d \<le> 30 * Second) waits \<and>
    (list_all watch_lasts ss \<longrightarrow>
      (\<forall>i < length waits. waits ! i = backoff_at i \<and> (15 \<le> i \<longrightarrow> waits ! i = 30 * Second)))"
proof -
  have "baseBackoff \<le> maxBackoff" by (simp add: baseBackoff_def maxBackoff_def)
  from retry_bounds [OF order.refl this, of e ss w] assms have "list_all (\<lambda>d. baseBackoff \<le> d \<and> d \<le> maxBackoff) waits"
    by (simp add: wp_def sandboxWatcher_def)
  moreover have "\<forall>i < length waits. waits ! i = backoff_at i" if "list_all watch_lasts ss"
    using retry_waits [OF that, of e 0 w] assms by (simp add: wp_def sandboxWatcher_def backoff_at_def)
  ultimately show ?thesis
    using backoff_at_max by (auto simp: baseBackoff_def maxBackoff_def)
qed

text \<open>Two watches that the server ends, the second after an event, and a failure to watch.\<close>

definition closed_watch :: "sandbox_input list \<Rightarrow> watch_session" where
  "closed_watch evs = \<lparr>wa_watch = Inr (evs @ [SbClosed]), wa_ctxErr = False, wa_cancelled = False\<rparr>"

theorem sandbox_watcher_waits_witness:
  "let ss = [closed_watch [], closed_watch [SbEvent \<lparr>ev_Type = ''added'', ev_Status = demo_status\<lparr>st_State := StateRunning\<rparr>\<rparr>],
     \<lparr>wa_watch = Inl (Errorf ''refused''), wa_ctxErr = False, wa_cancelled = False\<rparr>];
     waits = fst (fst (run_state (sandboxWatcher demo_env ss) (demo_world False [] 0 0)))
   in waits = [100 * Millisecond, 150 * Millisecond, 225 * Millisecond]"
proof -
  let ?ss = "[closed_watch [], closed_watch [SbEvent \<lparr>ev_Type = ''added'', ev_Status = demo_status\<lparr>st_State := StateRunning\<rparr>\<rparr>],
     \<lparr>wa_watch = Inl (Errorf ''refused''), wa_ctxErr = False, wa_cancelled = False\<rparr>]"
  let ?r = "run_state (sandboxWatcher demo_env ?ss) (demo_world False [] 0 0)"
  have n: "length (fst (fst ?r)) = 3"
    by (simp add: sandboxWatcher_def runSandboxWatcher_def closed_watch_def handleSandboxEvent_def terminal_event_def demo_status_def Let_def)
  have "list_all watch_lasts ?ss" by (simp add: watch_lasts_def closed_watch_def)
  with sandbox_watcher_waits [of demo_env ?ss "demo_world False [] 0 0" "fst (fst ?r)" "snd (fst ?r)" "snd ?r"] n
  have "\<forall>i < 3. fst (fst ?r) ! i = backoff_at i" by simp
  then show ?thesis
    using n by (auto simp: list_eq_iff_nth_eq less_Suc_eq numeral_3_eq_3 backoff_at_def next_backoff_def baseBackoff_def maxBackoff_def Let_def)
qed

text \<open>The jitter of the reconciler stays within a fifth of its interval.\<close>

lemma reconcile_delay_bounds:
  assumes "\<And>n. 0 < n \<Longrightarrow> 0 \<le> randN n \<and> randN n < n"
  shows "8 * Minute \<le> jitteredReconcileDelay randN \<and> jitteredReconcileDelay randN < 12 * Minute"
  using assms [of "2 * (streamReconcileInterval div 5)"] by (simp add: jitteredReconcileDelay_def streamReconcileInterval_def Let_def)

section \<open>Shutdown and restart\<close>

lemma final_flush_saves:
  assumes "confirmedCursorDirty w" and "run_state (confirmedCursorFlusher e [FlushDone]) w = (r, w1)" and "\<not> confirmedCursorDirty w1"
  shows "run_state (saveState e) (w\<lparr>confirmedCursorDirty := False\<rparr>) = (Inr (), w1)"
  using assms by (auto simp: flushConfirmedCursor_def ignore_def run_bind split_beta prod_eq_iff split: sum.splits)

text \<open>
  The final flush keeps the confirmed cursors: when the context ends with cursors that are not
  yet written and the flush succeeds, an orchestrator that is constructed anew and loads its
  state has the cursors of the old one.
\<close>

theorem shutdown_keeps_cursors:
  assumes "codec_ok codec" and "prev_ok sys_val w" and "confirmedCursorDirty w"
    and "run_state (confirmedCursorFlusher (sys_env cfg codec lib rng sb o1) [FlushDone]) w = (Some (), w1)" and "\<not> confirmedCursorDirty w1"
    and "Orchestrator_New (Some cfg') (Some s) (Some q) (Some b) ctrl (Some reg) (Some lg) ml x = Inr (w0, sb', dyn)" and "y_db x = y_db (ext w1)"
    and "run_state (loadState (sys_env cfg' codec lib' rng' sb' o2)) w0 = (Inr (), w2)"
  shows "lastTimestamp w2 = lastTimestamp w \<and> lastAgentTimestamp w2 = lastAgentTimestamp w \<and>
    lastConfirmedTimestamp w2 = lastAgentTimestamp w ++ lastConfirmedTimestamp w"
proof -
  let ?e1 = "sys_env cfg codec lib rng sb o1" and ?e2 = "sys_env cfg' codec lib' rng' sb' o2"
  have codec: "oe_codec ?e1 = codec" "oe_codec ?e2 = codec" by (simp_all add: sys_simps)
  have new: "w0 = new_world x" using assms(6) by (auto simp: Orchestrator_New_def split: if_splits)
  then have val: "sys_val (ext w0) = sys_val (ext w1)" and empty: "lastAgentTimestamp w0 = Map.empty" "lastConfirmedTimestamp w0 = Map.empty"
    using assms(7) by (simp_all add: new_world_def sys_val_def fun_eq_iff)
  have prev: "prev_ok sys_val (w\<lparr>confirmedCursorDirty := False\<rparr>)" using assms(2) by (simp add: prev_ok_def)
  show ?thesis
    using sys_state.saveState_persists [OF refl _ prev final_flush_saves [OF assms(3-5)]] assms(1) val
      sys_state.loadState_loads [OF refl _ _ _ _ empty assms(8), of "lastTimestamp w" "lastAgentTimestamp w" "lastConfirmedTimestamp w"]
    by (simp add: loaded_def codec)
qed

end
