(* ===== verification/Orch_Redeliver.thy ===== *)
theory Orch_Redeliver
  imports Orch_Loops
begin

text \<open>
  The end of an agent with unanswered messages, in \<open>internal/orchestrator/orchestrator.go\<close>: the
  watcher's deactivation, the recovery it starts and the input of the next agent, together.
\<close>

section \<open>Deactivation starts a recovery\<close>

lemma undisturbed_drain: "keeps (undisturbed chat w) (drain_queue (sys_env cfg codec lib rng sb o1) j n)"
proof (induction n)
  case (Suc n)
  then show ?case unfolding drain_queue.simps
    by (intro keeps_intro keeps_exact) (simp_all add: undisturbed_def sys_simps)
qed (simp add: keeps_intro)

text \<open>What the deactivation leaves for the recovery of the chat.\<close>

definition recovering :: "string \<Rightarrow> sys world \<Rightarrow> sys world \<Rightarrow> bool" where
  "recovering chat w t \<longleftrightarrow> registeredGroups t = registeredGroups w \<and>
     ts_get (lastAgentTimestamp t) chat = min (ts_get (lastConfirmedTimestamp w) chat) (ts_get (lastAgentTimestamp w) chat) \<and>
     db_messages (y_db (ext t)) = db_messages (y_db (ext w)) \<and> map row_jid (db_groups (y_db (ext t))) = map row_jid (db_groups (y_db (ext w))) \<and>
     \<not> active_in (y_db (ext t)) chat \<and> chat \<in> set (inflight t) \<and> (\<exists>q f. GoRecover chat q f \<in> set (goroutines t))"

lemma after_inactive_recovers:
  assumes "no_failures o1" and "chat \<notin> set (inflight w)" and gone: "\<not> active_in (y_db (ext w)) chat"
    and owed: "pending chat (min (ts_get (lastConfirmedTimestamp w) chat) (ts_get (lastAgentTimestamp w) chat)) (y_db (ext w)) \<noteq> []"
  shows "wp (after_inactive (sys_env cfg codec lib rng sb o1) chat) (\<lambda>_. recovering chat w) w"
proof -
  let ?e = "sys_env cfg codec lib rng sb o1"
  let ?w = "rollback_to_confirmed chat (w\<lparr>activeSandboxes := (activeSandboxes w)(chat := None)\<rparr>)"
  have sent: "ts_get (lastAgentTimestamp ?w) chat = min (ts_get (lastConfirmedTimestamp w) chat) (ts_get (lastAgentTimestamp w) chat)"
    by (simp add: rollback_min)
  have w: "registeredGroups ?w = registeredGroups w" "ext ?w = ext w" "inflight ?w = inflight w"
    by (simp_all add: rollback_to_confirmed_def Let_def)
  have cursor: "ts_get (lastAgentTimestamp t) chat = ts_get (lastAgentTimestamp ?w) chat" if "undisturbed chat ?w t" for t
    using that by (simp add: undisturbed_def ts_get_def)
  have ready: "recovering chat w (t\<lparr>inflight := chat # inflight t, goroutines := goroutines t @ [GoRecover chat q f]\<rparr>)" "chat \<notin> set (inflight t)"
    if "undisturbed chat ?w t" for t q f
    using that cursor [OF that] sent w assms(2) gone by (auto simp: recovering_def undisturbed_def active_in_def)
  have read: "\<exists>ms. ms \<noteq> [] \<and> fst (oe_GetMessagesSince ?e chat (ts_get (lastAgentTimestamp t) chat) 1 (ext t)) = Inr ms" if "undisturbed chat ?w t" for t
  proof -
    have "pending chat (ts_get (lastAgentTimestamp t) chat) (y_db (ext t)) \<noteq> []"
      using owed that cursor [OF that] sent w by (simp add: undisturbed_def pending_def)
    then show ?thesis using assms(1) by (simp add: sys_simps db_read_ok GetMessagesSince_def newest_ne flip: pending_def)
  qed
  have still: "undisturbed chat ?w (t\<lparr>ext := snd (oe_GetMessagesSince ?e chat c 1 (ext t))\<rparr>)" if "undisturbed chat ?w t" for t c
    using that by (simp add: undisturbed_def sys_simps db_read_def)
  have save: "wp (saveState ?e) (\<lambda>_. undisturbed chat ?w) ?w" by (rule wp_keeps [OF undisturbed_saveState]) simp_all
  have drain: "wp (drain_queue ?e chat 5) (\<lambda>_. undisturbed chat ?w) t" if "undisturbed chat ?w t" for t
    using that by (rule wp_keeps [OF undisturbed_drain])
  show ?thesis
    unfolding after_inactive_def start_recovery_def claimSandboxSlot_def Let_def
    by (intro wp_bind wp_modify wp_ignore wp_mono [OF save] wp_gets wp_exact wp_mono [OF drain] still wp_prod wp_if; (assumption | simp add: wp_def)?)
      (auto dest: read ready(2) intro: ready(1))
qed

lemma mark_inactive_frame:
  "db_messages (snd (q_MarkInactive fs j d)) = db_messages d" "map row_jid (db_groups (snd (q_MarkInactive fs j d))) = map row_jid (db_groups d)"
  by (cases fs; simp add: q_mark_simps store_unmark_def snd_Mark update_rows_def map_update_where)+

lemma deactivate_recovers:
  assumes env: "no_failures o1" and w: "db_wf (y_db (ext w))" "active_in (y_db (ext w)) chat" "chat \<notin> set (inflight w)"
    and owed: "pending chat (min (ts_get (lastConfirmedTimestamp w) chat) (ts_get (lastAgentTimestamp w) chat)) (y_db (ext w)) \<noteq> []"
  shows "wp (deactivate (sys_env cfg codec lib rng sb o1) chat) (\<lambda>_. recovering chat w) w"
proof -
  let ?e = "sys_env cfg codec lib rng sb o1"
  let ?x = "tick 1 (ext w)"
  have quiet: "or_fault o1 = (\<lambda>_. None)" using env by (simp add: no_failures_def)
  have a: "oe_IsActive ?e chat (ext w) = (Inr True, ?x)" using quiet w by (simp add: sys_IsActive)
  have m: "fst (oe_MarkInactive ?e chat ?x) = Inr ()" "\<not> active_in (y_db (snd (oe_MarkInactive ?e chat ?x))) chat"
    using sys_MarkInactive [OF quiet, of ?x chat cfg codec lib rng sb] w by auto
  let ?y = "snd (oe_MarkInactive ?e chat ?x)"
  have y: "db_messages (y_db ?y) = db_messages (y_db (ext w))" "map row_jid (db_groups (y_db ?y)) = map row_jid (db_groups (y_db (ext w)))"
    by (simp_all add: sys_simps db_mark_def Let_def split_beta mark_inactive_frame)
  have "wp (after_inactive ?e chat) (\<lambda>_. recovering chat (w\<lparr>ext := ?y\<rparr>)) (w\<lparr>ext := ?y\<rparr>)"
    using w(3) owed m(2) by (intro after_inactive_recovers [OF env]) (simp_all add: pending_def y del: One_nat_def)
  then have "wp (after_inactive ?e chat) (\<lambda>_. recovering chat w) (w\<lparr>ext := ?y\<rparr>)"
    by (rule wp_mono) (simp add: recovering_def y del: One_nat_def)
  then show ?thesis unfolding deactivate_def
    by (intro wp_bind wp_exact) (simp add: a del: One_nat_def, intro wp_bind wp_exact, simp add: m del: One_nat_def)
qed

lemma deactivate_inflight: "set (inflight (snd (run_state (deactivate e chat) w))) \<subseteq> insert chat (set (inflight w))"
proof -
  let ?t = "snd (run_state (deactivate e chat) w)"
  have "?t = w\<lparr>ext := ext ?t\<rparr> \<or> rolled_back chat w ?t"
    using deactivate_post [of e chat w] by (auto simp: Let_def split_beta split: if_splits)
  then show ?thesis
  proof
    assume "?t = w\<lparr>ext := ext ?t\<rparr>"
    then have "inflight ?t = inflight (w\<lparr>ext := ext ?t\<rparr>)" by (rule arg_cong)
    then show ?thesis by auto
  qed (auto simp: rolled_back_def)
qed

section \<open>The messages of a dead agent\<close>

text \<open>
  What may happen between the end of an agent and the run of its recovery: anything that leaves
  the chat's cursor, its group and the stored messages alone. More messages may arrive.
\<close>

definition left_alone :: "string \<Rightarrow> sys world \<Rightarrow> sys world \<Rightarrow> bool" where
  "left_alone chat w t \<longleftrightarrow> map_of (registeredGroups t) chat = map_of (registeredGroups w) chat \<and>
     ts_get (lastAgentTimestamp t) chat = ts_get (lastAgentTimestamp w) chat \<and>
     set (db_messages (y_db (ext w))) \<subseteq> set (db_messages (y_db (ext t))) \<and> has_row chat (y_db (ext t))"

lemma run_recover_log:
  "run_state (processGroupMessages e chat) w = ((rel, Inr True), w') \<Longrightarrow> run_state (run_recover e chat q) w = ((), w2) \<Longrightarrow> ext w2 = ext w'"
  by (auto simp: run_recover_def releaseSandboxSlot_def run_bind split: if_splits)

text \<open>
  C9: What an agent leaves unanswered goes to the next one, under these conditions: the group
  needs no trigger and is marked active when the agent's watcher deactivates it, no start is
  under way for the chat, no call fails, until the recovery runs nothing moves the chat's cursor or
  removes its messages or its group, \<open>MAX_CONCURRENT\<close> leaves room, and no more than
  \<open>MessageLimit\<close> messages are pending. Then the deactivation starts a recovery that holds the chat's
  slot, and the recovery starts an agent whose input contains every visible message that is stored
  for the chat after the cursor of confirmed messages, however far the cursor of
  sent messages was ahead of it.
\<close>

theorem unanswered_resent:
  assumes env: "no_failures o1" "sb" "\<And>s. is_ok (cj_encMessages codec s)" "0 < oc_MessageLimit cfg"
    and agent: "db_wf (y_db (ext w))" "active_in (y_db (ext w)) chat" "chat \<notin> set (inflight w)"
      "map_of (registeredGroups w) chat = Some grp" "g_IsMain grp \<or> \<not> g_RequiresTrigger grp"
    and owed: "m \<in> set (db_messages (y_db (ext w)))" "m_ChatJID m = chat" "visible m" "ts_get (lastConfirmedTimestamp w) chat < m_Timestamp m"
    and ends: "run_state (deactivate (sys_env cfg codec lib rng sb o1) chat) w = ((), w1)"
    and later: "left_alone chat w1 w2"
    and few: "length (pending chat (ts_get (lastAgentTimestamp w2) chat) (y_db (ext w2))) \<le> nat (oc_MessageLimit cfg)"
    and room: "int (length (filter r_is_active (db_groups (y_db (ext w2))))) + inflight_others chat (inflight w2) < oc_MaxConcurrent cfg"
    and recovery: "run_state (run_recover (sys_env cfg codec lib rng sb o1) chat q) w2 = ((), w3)"
  shows "(\<exists>q f. GoRecover chat q f \<in> set (goroutines w1)) \<and> chat \<in> set (inflight w1) \<and> active_in (y_db (ext w3)) chat \<and>
    (\<exists>ms sid payload new. m \<in> set ms \<and> cj_encMessages codec (FormatMessagesForAgent ms (oc_AssistantName cfg)) = Inr payload \<and>
       start_log (sandbox_config cfg chat grp sid (FormatMessagesForAgent ms (oc_AssistantName cfg))) grp payload new \<and>
       y_log (ext w3) = y_log (ext w2) @ new)"
proof -
  let ?e = "sys_env cfg codec lib rng sb o1"
  let ?c = "min (ts_get (lastConfirmedTimestamp w) chat) (ts_get (lastAgentTimestamp w) chat)"
  have "m \<in> set (pending chat ?c (y_db (ext w)))" using owed by (simp add: pending_def)
  then have "pending chat ?c (y_db (ext w)) \<noteq> []" by auto
  from deactivate_recovers [OF env(1) agent(1-3) this, of cfg codec lib rng sb] ends have rec: "recovering chat w w1" by (simp add: wp_def)
  let ?p = "pending chat (ts_get (lastAgentTimestamp w2) chat) (y_db (ext w2))"
  have m: "m \<in> set ?p" using rec later owed by (auto simp: recovering_def left_alone_def pending_def)
  have reg: "map_of (registeredGroups w2) chat = Some grp" using rec later agent(4) by (simp add: recovering_def left_alone_def)
  have row: "has_row chat (y_db (ext w2))" using later by (simp add: left_alone_def)
  have "snd (fst (run_state (processGroupMessages ?e chat) w2)) = Inr True"
    using start_ok [OF env(1) row env(2,3) reg agent(5) env(4) _ room] m by (metis list.set(1) empty_iff)
  then obtain rel w' where run: "run_state (processGroupMessages ?e chat) w2 = ((rel, Inr True), w')"
    by (metis prod.collapse)
  with deliver_processGroupMessages [of cfg codec lib rng sb o1 chat w2]
  obtain ms sid payload new where ms: "ms = newest (nat (oc_MessageLimit cfg)) ?p"
    "cj_encMessages codec (FormatMessagesForAgent ms (oc_AssistantName cfg)) = Inr payload"
    "start_log (sandbox_config cfg chat grp sid (FormatMessagesForAgent ms (oc_AssistantName cfg))) grp payload new"
    "y_log (ext w') = y_log (ext w2) @ new" "active_in (y_db (ext w')) chat"
    by (auto simp: wp_def deliver_post_def reg)
  have "m \<in> set ms" using m arg_cong [OF newest_all [OF few], of set_mset] ms(1) by simp
  with ms(2-5) rec run_recover_log [OF run recovery] show ?thesis by (auto simp: recovering_def)
qed

text \<open>A message that was piped to an agent at instant 6 of a chat confirmed up to 5.\<close>

theorem unanswered_resent_witness:
  "let w = demo_world True [demo_msg ''1'' ''g'' 6] 7 5; w1 = snd (run_state (deactivate demo_env ''g'') w);
       w3 = snd (run_state (run_recover demo_env ''g'' None) w1)
   in (\<exists>q f. GoRecover ''g'' q f \<in> set (goroutines w1)) \<and> active_in (y_db (ext w3)) ''g''"
proof -
  let ?w = "demo_world True [demo_msg ''1'' ''g'' 6] 7 5"
  let ?w1 = "snd (run_state (deactivate demo_env ''g'') ?w)"
  have wf: "db_wf (y_db (ext ?w))" by (simp add: demo_world_wf msgs_wf_def)
  have agent: "active_in (y_db (ext ?w)) ''g''" "''g'' \<notin> set (inflight ?w)" "map_of (registeredGroups ?w) ''g'' = Some chat_group" "g_IsMain chat_group"
    by (simp_all add: active_in_def demo_sys_defs)
  have owed: "demo_msg ''1'' ''g'' 6 \<in> set (db_messages (y_db (ext ?w)))" "m_ChatJID (demo_msg ''1'' ''g'' 6) = ''g''" "visible (demo_msg ''1'' ''g'' 6)"
    "ts_get (lastConfirmedTimestamp ?w) ''g'' < m_Timestamp (demo_msg ''1'' ''g'' 6)"
    by (simp_all add: demo_sys_defs demo_msg_def visible_def)
  have "demo_msg ''1'' ''g'' 6 \<in> set (pending ''g'' (min (ts_get (lastConfirmedTimestamp ?w) ''g'') (ts_get (lastAgentTimestamp ?w) ''g'')) (y_db (ext ?w)))"
    using owed by (simp add: pending_def)
  then have "pending ''g'' (min (ts_get (lastConfirmedTimestamp ?w) ''g'') (ts_get (lastAgentTimestamp ?w) ''g'')) (y_db (ext ?w)) \<noteq> []" by auto
  then have rec: "recovering ''g'' ?w ?w1"
    using deactivate_recovers [OF demo_no_failures wf agent(1,2), of demo_cfg demo_orch_codec demo_lib id True] by (simp add: wp_def)
  then have rows: "map row_jid (db_groups (y_db (ext ?w1))) = [''g'']" "db_messages (y_db (ext ?w1)) = [demo_msg ''1'' ''g'' 6]"
    by (simp_all add: recovering_def) (simp_all add: demo_sys_defs)
  then have later: "left_alone ''g'' ?w1 ?w1" by (auto simp: left_alone_def has_row_def)
  have few: "length (pending ''g'' t (y_db (ext ?w1))) \<le> nat (oc_MessageLimit demo_cfg)" for t
    unfolding pending_def by (rule order_trans [OF length_filter_le]) (simp add: rows demo_hyps)
  have "\<not> active_in (y_db (ext ?w1)) ''g''" using rec by (simp add: recovering_def)
  then have idle: "filter r_is_active (db_groups (y_db (ext ?w1))) = []"
    using rows(1) by (auto simp: active_in_def filter_empty_conv map_eq_Cons_conv)
  have "set (inflight ?w1) \<subseteq> {''g''}" using deactivate_inflight [of demo_env "''g''" ?w] by (simp add: demo_world_def)
  then have room: "int (length (filter r_is_active (db_groups (y_db (ext ?w1))))) + inflight_others ''g'' (inflight ?w1) < oc_MaxConcurrent demo_cfg"
    unfolding idle by (auto simp: inflight_others_def demo_cfg_def filter_empty_conv)
  have ends: "run_state (deactivate demo_env ''g'') ?w = ((), ?w1)" "run_state (run_recover demo_env ''g'' None) ?w1 = ((), snd (run_state (run_recover demo_env ''g'' None) ?w1))"
    by (simp_all add: prod_eq_iff)
  show ?thesis
    using unanswered_resent [OF demo_no_failures TrueI demo_hyps(2) _ wf agent(1-3) _ owed ends(1) later few room ends(2)] agent(4)
    by (simp add: Let_def demo_hyps)
qed

end
