(* ===== verification/Store_Rows.thy ===== *)
theory Store_Rows
  imports Api_Services
begin

text \<open>
  The reading half of \<open>internal/store/mysql.go\<close> at the grain of the driver: a query answers with
  a cursor, each row is scanned into its variables, and the cursor is asked for an error at
  the end. \<open>Mysql_Store\<close> gives a read its rows or one fault; here a query may fail, any row may
  fail to scan and the connection may break after any number of rows. The columns of the
  tables are typed by the schema; the configuration of a container is a JSON column, whose
  text the server may have rewritten. The encoder and decoder of JSON are parameters.
\<close>

section \<open>Cursors\<close>

record 'c sql_rows =
  rs_rows :: "'c result list"
  rs_err :: "goerr option"

record scan_fault =
  sf_query :: fault
  sf_row :: "nat \<Rightarrow> fault"
  sf_cut :: "(nat \<times> goerr) option"

text \<open>What the driver hands out for a query whose rows are \<open>cs\<close>.\<close>

definition driver_answer :: "scan_fault \<Rightarrow> 'c list \<Rightarrow> 'c sql_rows result" where
  "driver_answer f cs =
     (case sf_query f of
        Some e \<Rightarrow> Inl e
      | None \<Rightarrow> Inr \<lparr>rs_rows = map (\<lambda>(i, c). case sf_row f i of Some e \<Rightarrow> Inl e | None \<Rightarrow> Inr c)
                               (enumerate 0 (case sf_cut f of None \<Rightarrow> cs | Some (n, e) \<Rightarrow> take n cs)),
                    rs_err = map_option snd (sf_cut f)\<rparr>)"

definition clean :: "scan_fault \<Rightarrow> nat \<Rightarrow> bool" where
  "clean f n \<longleftrightarrow> sf_query f = None \<and> sf_cut f = None \<and> (\<forall>i<n. sf_row f i = None)"

text \<open>The loop \<open>for rows.Next()\<close> with its scan, and the error of the cursor after it.\<close>

fun rows_loop :: "string \<Rightarrow> ('c \<Rightarrow> 'a result) \<Rightarrow> 'c result list \<Rightarrow> 'a list \<Rightarrow> 'a list result" where
  "rows_loop what conv [] acc = Inr acc"
| "rows_loop what conv (Inl e # rs) acc = Inl (Wrapf what e)"
| "rows_loop what conv (Inr c # rs) acc =
     (case conv c of Inl e \<Rightarrow> Inl e | Inr v \<Rightarrow> rows_loop what conv rs (acc @ [v]))"

definition read_rows :: "string \<Rightarrow> ('c \<Rightarrow> 'a result) \<Rightarrow> 'c sql_rows \<Rightarrow> 'a list result" where
  "read_rows what conv rs =
     (case rows_loop what conv (rs_rows rs) [] of
        Inl e \<Rightarrow> Inl e
      | Inr vs \<Rightarrow> (case rs_err rs of Some e \<Rightarrow> Inl e | None \<Rightarrow> Inr vs))"

text \<open>\<open>QueryRow\<close>: the first row, \<open>None\<close> for \<open>sql.ErrNoRows\<close>; its scan also reports the error of the query.\<close>

definition query_row :: "'c sql_rows result \<Rightarrow> 'c option result" where
  "query_row a =
     (case a of
        Inl e \<Rightarrow> Inl e
      | Inr rs \<Rightarrow>
          (case rs_rows rs of
             [] \<Rightarrow> (case rs_err rs of Some e \<Rightarrow> Inl e | None \<Rightarrow> Inr None)
           | Inl e # _ \<Rightarrow> Inl e
           | Inr c # _ \<Rightarrow> Inr (Some c)))"

section \<open>Scanning\<close>

record group_cols =
  gc_jid :: string
  gc_name :: string
  gc_folder :: string
  gc_trigger_pattern :: string
  gc_is_main :: bool
  gc_requires_trigger :: bool
  gc_container_config :: string
  gc_added_at :: time

definition scanned_group :: "group_cols \<Rightarrow> ContainerConfig option \<Rightarrow> Group" where
  "scanned_group c cc =
     \<lparr>g_JID = gc_jid c, g_Name = gc_name c, g_Folder = gc_folder c, g_TriggerPattern = gc_trigger_pattern c,
      g_AddedAt = gc_added_at c, g_ContainerConfig = cc, g_RequiresTrigger = gc_requires_trigger c, g_IsMain = gc_is_main c\<rparr>"

definition scanGroup :: "(string \<Rightarrow> ContainerConfig result) \<Rightarrow> group_cols option result \<Rightarrow> Group option result" where
  "scanGroup decode row =
     (case row of
        Inl e \<Rightarrow> Inl (Wrapf ''scan group'' e)
      | Inr None \<Rightarrow> Inr None
      | Inr (Some c) \<Rightarrow>
          (case ParseContainerConfig decode (gc_container_config c) of
             Inl e \<Rightarrow> Inl (Wrapf ''parse container config'' e)
           | Inr cc \<Rightarrow> Inr (Some (scanned_group c cc))))"

definition scanGroupRows :: "(string \<Rightarrow> ContainerConfig result) \<Rightarrow> group_cols \<Rightarrow> Group result" where
  "scanGroupRows decode c =
     (case ParseContainerConfig decode (gc_container_config c) of
        Inl e \<Rightarrow> Inl (Wrapf ''parse container config'' e)
      | Inr cc \<Rightarrow> Inr (scanned_group c cc))"

definition scanMessages :: "Message sql_rows \<Rightarrow> Message list result" where
  "scanMessages rs = read_rows ''scan message'' Inr rs"

definition scanTask :: "ScheduledTask option result \<Rightarrow> ScheduledTask option result" where
  "scanTask row = (case row of Inl e \<Rightarrow> Inl (Wrapf ''scan task'' e) | Inr t \<Rightarrow> Inr t)"

definition scanTasks :: "ScheduledTask sql_rows \<Rightarrow> ScheduledTask list result" where
  "scanTasks rs = read_rows ''scan task'' Inr rs"

text \<open>A query with its loop: the error of the query has the name of the operation.\<close>

definition query_rows :: "string \<Rightarrow> ('c sql_rows \<Rightarrow> 'a list result) \<Rightarrow> 'c sql_rows result \<Rightarrow> 'a list result" where
  "query_rows op scan a = (case a of Inl e \<Rightarrow> Inl (Wrapf op e) | Inr rs \<Rightarrow> scan rs)"

definition GetGroup_rows :: "(string \<Rightarrow> ContainerConfig result) \<Rightarrow> group_cols sql_rows result \<Rightarrow> Group option result" where
  "GetGroup_rows decode a = scanGroup decode (query_row a)"

definition ListGroups_rows :: "(string \<Rightarrow> ContainerConfig result) \<Rightarrow> group_cols sql_rows result \<Rightarrow> Group list result" where
  "ListGroups_rows decode a = query_rows ''list groups'' (read_rows ''scan group row'' (scanGroupRows decode)) a"

definition GetNewMessages_rows :: "Message sql_rows result \<Rightarrow> Message list result" where
  "GetNewMessages_rows a = query_rows ''get new messages'' scanMessages a"

definition GetMessagesSince_rows :: "Message sql_rows result \<Rightarrow> Message list result" where
  "GetMessagesSince_rows a = query_rows ''get messages since'' scanMessages a"

definition GetDueTasks_rows :: "ScheduledTask sql_rows result \<Rightarrow> ScheduledTask list result" where
  "GetDueTasks_rows a = query_rows ''get due tasks'' scanTasks a"

definition ListTasks_rows :: "ScheduledTask sql_rows result \<Rightarrow> ScheduledTask list result" where
  "ListTasks_rows a = query_rows ''list tasks'' scanTasks a"

definition GetTask_rows :: "ScheduledTask sql_rows result \<Rightarrow> ScheduledTask option result" where
  "GetTask_rows a = scanTask (query_row a)"

section \<open>The JSON column\<close>

definition ContainerConfigJSON :: "(ContainerConfig \<Rightarrow> string result) \<Rightarrow> ContainerConfig option \<Rightarrow> string result" where
  "ContainerConfigJSON encode cc = (case cc of None \<Rightarrow> Inr [] | Some c \<Rightarrow> encode c)"

definition ContainerConfigFromJSON :: "(string \<Rightarrow> ContainerConfig result) \<Rightarrow> string \<Rightarrow> ContainerConfig option result" where
  "ContainerConfigFromJSON decode data = ParseContainerConfig decode data"

text \<open>The columns of a stored group; \<open>canon\<close> is the text the server gives back for a document.\<close>

definition group_columns :: "(ContainerConfig \<Rightarrow> string result) \<Rightarrow> (string \<Rightarrow> string) \<Rightarrow> Group \<Rightarrow> group_cols" where
  "group_columns encode canon g =
     \<lparr>gc_jid = g_JID g, gc_name = g_Name g, gc_folder = g_Folder g, gc_trigger_pattern = g_TriggerPattern g,
      gc_is_main = g_IsMain g, gc_requires_trigger = g_RequiresTrigger g,
      gc_container_config = (case ContainerConfigJSON encode (g_ContainerConfig g) of
         Inl e \<Rightarrow> [] | Inr s \<Rightarrow> if s = [] then [] else canon s),
      gc_added_at = g_AddedAt g\<rparr>"

text \<open>What is relied on: a configuration encodes, and the document read back decodes to it.\<close>

definition json_column :: "(ContainerConfig \<Rightarrow> string result) \<Rightarrow> (string \<Rightarrow> ContainerConfig result) \<Rightarrow> (string \<Rightarrow> string) \<Rightarrow> bool" where
  "json_column encode decode canon \<longleftrightarrow>
     (\<forall>cc. \<exists>s. encode cc = Inr s \<and> s \<noteq> [] \<and> canon s \<noteq> [] \<and> decode (canon s) = Inr cc)"

lemma config_roundtrip:
  assumes "json_column encode decode canon"
  shows "ContainerConfigFromJSON decode (gc_container_config (group_columns encode canon g)) = Inr (g_ContainerConfig g)"
proof (cases "g_ContainerConfig g")
  case (Some cc)
  obtain s where "encode cc = Inr s" "s \<noteq> []" "canon s \<noteq> []" "decode (canon s) = Inr cc"
    using assms unfolding json_column_def by blast
  then show ?thesis
    using Some by (simp add: group_columns_def ContainerConfigFromJSON_def ContainerConfigJSON_def ParseContainerConfig_def)
qed (simp add: group_columns_def ContainerConfigFromJSON_def ContainerConfigJSON_def ParseContainerConfig_def)

lemma scan_columns:
  assumes "json_column encode decode canon"
  shows "scanGroupRows decode (group_columns encode canon g) = Inr g"
    and "scanGroup decode (Inr (Some (group_columns encode canon g))) = Inr (Some g)"
proof -
  have "scanned_group (group_columns encode canon g) (g_ContainerConfig g) = g"
    by (cases g) (simp add: scanned_group_def group_columns_def)
  then show "scanGroupRows decode (group_columns encode canon g) = Inr g"
    and "scanGroup decode (Inr (Some (group_columns encode canon g))) = Inr (Some g)"
    using config_roundtrip [OF assms, of g]
    by (simp_all add: scanGroupRows_def scanGroup_def ContainerConfigFromJSON_def)
qed

section \<open>All rows or an error\<close>

text \<open>The read \<open>r\<close> of \<open>n\<close> rows is the wanted one when nothing failed, and an error otherwise.\<close>

definition reads_as :: "scan_fault \<Rightarrow> nat \<Rightarrow> 'a result \<Rightarrow> 'a result \<Rightarrow> bool" where
  "reads_as f n r wanted \<longleftrightarrow> (if clean f n then r = wanted else \<not> is_ok r)"

lemma rows_loop_clean:
  assumes "\<And>c. c \<in> set cs \<Longrightarrow> conv c = Inr (val c)"
  shows "rows_loop what conv (map Inr cs) acc = Inr (acc @ map val cs)"
  using assms by (induction cs arbitrary: acc) simp_all

lemma rows_loop_fails:
  "\<exists>r\<in>set rs. \<exists>e. r = Inl e \<Longrightarrow> \<not> is_ok (rows_loop what conv rs acc)"
  by (induction what conv rs acc rule: rows_loop.induct) (auto split: sum.split)

lemma query_rows_reads_as:
  assumes "\<And>c. c \<in> set cs \<Longrightarrow> conv c = Inr (val c)"
  shows "reads_as f (length cs) (query_rows op (read_rows what conv) (driver_answer f cs)) (Inr (map val cs))"
proof (cases "sf_query f = None \<and> sf_cut f = None")
  case True
  let ?rs = "map (\<lambda>(i, c). case sf_row f i of Some e \<Rightarrow> Inl e | None \<Rightarrow> Inr c) (enumerate 0 cs)"
  have a: "driver_answer f cs = Inr \<lparr>rs_rows = ?rs, rs_err = None\<rparr>" using True by (simp add: driver_answer_def)
  show ?thesis
  proof (cases "clean f (length cs)")
    case True
    then have "?rs = map Inr cs" by (intro nth_equalityI) (auto simp: nth_enumerate_eq clean_def)
    then show ?thesis
      using True rows_loop_clean [of cs conv val what "[]"] assms
      by (simp add: reads_as_def a query_rows_def read_rows_def)
  next
    case False
    then obtain i e where i: "i < length cs" "sf_row f i = Some e"
      using \<open>sf_query f = None \<and> sf_cut f = None\<close> by (auto simp: clean_def)
    then have "?rs ! i = Inl e" by (simp add: nth_enumerate_eq)
    moreover have "?rs ! i \<in> set ?rs" using i by (intro nth_mem) simp
    ultimately have "\<not> is_ok (rows_loop what conv ?rs [])" by (intro rows_loop_fails) (metis (no_types, lifting))
    then show ?thesis using False by (auto simp: reads_as_def a query_rows_def read_rows_def split: sum.split)
  qed
next
  case False
  then have "\<not> clean f (length cs)" by (auto simp: clean_def)
  moreover have "\<not> is_ok (query_rows op (read_rows what conv) (driver_answer f cs))"
    using False by (auto simp: query_rows_def read_rows_def driver_answer_def split: option.split sum.split)
  ultimately show ?thesis by (simp add: reads_as_def)
qed

text \<open>
  The lists the store reads are complete: whatever fails in the query, in a scan or in the
  connection, a read ends with an error, and when nothing fails it is the read of
  \<open>Mysql_Store\<close> on the tables, for groups with the configuration that was stored.
\<close>

theorem store_lists_complete:
  assumes "json_column encode decode canon"
  shows "reads_as f (length (db_groups d))
           (ListGroups_rows decode (driver_answer f (map (\<lambda>r. group_columns encode canon (r_group r)) (db_groups d)))) (ListGroups None d)"
    and "GetMessagesSince None j t n d = Inr ms \<Longrightarrow>
         reads_as f (length ms) (GetMessagesSince_rows (driver_answer f ms)) (GetMessagesSince None j t n d)"
    and "GetNewMessages None js t n d = Inr ms \<Longrightarrow>
         reads_as f (length ms) (GetNewMessages_rows (driver_answer f ms)) (GetNewMessages None js t n d)"
    and "GetDueTasks None t d = Inr ts \<Longrightarrow>
         reads_as f (length ts) (GetDueTasks_rows (driver_answer f ts)) (GetDueTasks None t d)"
    and "ListTasks None d = Inr ts \<Longrightarrow>
         reads_as f (length ts) (ListTasks_rows (driver_answer f ts)) (ListTasks None d)"
proof -
  show "reads_as f (length (db_groups d))
           (ListGroups_rows decode (driver_answer f (map (\<lambda>r. group_columns encode canon (r_group r)) (db_groups d)))) (ListGroups None d)"
  proof -
    let ?cs = "map (\<lambda>r. group_columns encode canon (r_group r)) (db_groups d)"
    let ?val = "\<lambda>c. case scanGroupRows decode c of Inr g \<Rightarrow> g"
    have "reads_as f (length ?cs) (query_rows ''list groups'' (read_rows ''scan group row'' (scanGroupRows decode)) (driver_answer f ?cs)) (Inr (map ?val ?cs))"
      by (rule query_rows_reads_as) (auto simp: scan_columns [OF assms])
    then show ?thesis by (simp add: ListGroups_rows_def ListGroups_def scan_columns [OF assms] comp_def)
  qed
qed (use query_rows_reads_as [of ms Inr id f] query_rows_reads_as [of ts Inr id f] in
  \<open>simp_all add: GetMessagesSince_rows_def GetNewMessages_rows_def GetDueTasks_rows_def ListTasks_rows_def
     scanMessages_def [abs_def] scanTasks_def [abs_def]\<close>)

text \<open>A single row: it is read as stored, or not found, or the read is an error.\<close>

lemma query_row_of:
  "case query_row (driver_answer f cs) of
     Inl e \<Rightarrow> \<not> clean f (min 1 (length cs)) | Inr c \<Rightarrow> c = (case cs of [] \<Rightarrow> None | x # _ \<Rightarrow> Some x)"
proof (cases cs)
  case (Cons x xs)
  show ?thesis
  proof (cases "sf_cut f")
    case None
    then show ?thesis using Cons by (simp add: query_row_def driver_answer_def clean_def split: option.split)
  next
    case (Some c)
    then show ?thesis
      using Cons by (cases c; cases "fst c") (auto simp: query_row_def driver_answer_def clean_def split: option.split)
  qed
qed (auto simp: query_row_def driver_answer_def clean_def split: option.split)

theorem store_rows_exact:
  assumes "json_column encode decode canon"
  shows "case GetGroup_rows decode (driver_answer f (map (\<lambda>r. group_columns encode canon (r_group r))
                 (filter (\<lambda>r. row_jid r = jid) (db_groups d)))) of
           Inl e \<Rightarrow> \<not> clean f 1 | Inr g \<Rightarrow> Inr g = GetGroup None jid d"
    and "case GetTask_rows (driver_answer f (filter (task_in tid folder) (db_tasks d))) of
           Inl e \<Rightarrow> \<not> clean f 1 | Inr t \<Rightarrow> Inr t = GetTask None tid folder d"
proof -
  have find: "find P xs = (case filter P xs of [] \<Rightarrow> None | x # _ \<Rightarrow> Some x)" for P :: "'z \<Rightarrow> bool" and xs
    by (induction xs) simp_all
  let ?row = "\<lambda>r. group_columns encode canon (r_group r)" and ?gs = "filter (\<lambda>r. row_jid r = jid) (db_groups d)"
  have one: "clean f (Suc 0) \<Longrightarrow> clean f (min (Suc 0) n)" "clean f (Suc 0) \<Longrightarrow> clean f 0" for n by (auto simp: clean_def)
  show "case GetGroup_rows decode (driver_answer f (map ?row ?gs)) of Inl e \<Rightarrow> \<not> clean f 1 | Inr g \<Rightarrow> Inr g = GetGroup None jid d"
    using query_row_of [of f "map ?row ?gs"] one
    by (cases ?gs) (auto simp: GetGroup_rows_def GetGroup_def find scan_columns [OF assms] scanGroup_def [of _ "Inl _"]
      scanGroup_def [of _ "Inr None"] split: sum.splits)
  show "case GetTask_rows (driver_answer f (filter (task_in tid folder) (db_tasks d))) of
           Inl e \<Rightarrow> \<not> clean f 1 | Inr t \<Rightarrow> Inr t = GetTask None tid folder d"
    using query_row_of [of f "filter (task_in tid folder) (db_tasks d)"] one
    by (auto simp: GetTask_rows_def GetTask_def find scanTask_def split: sum.splits)
qed

end
