(* ===== verification/Store_Maps.thy ===== *)
theory Store_Maps
  imports Store_Props
begin

text \<open>
  What the tables of \<open>internal/store/mysql.go\<close> mean: a map per table, from the key of a row to the
  row. The writing statements are specified on these maps, independently of the rows and their
  order, and the statements of \<open>Mysql_Store\<close> refine them along every sequence of calls with any
  driver faults; the reads return what the maps say.
\<close>

section \<open>Tables as maps\<close>

definition lookup :: "('r \<Rightarrow> 'k) \<Rightarrow> 'r list \<Rightarrow> 'k \<Rightarrow> 'r option" where
  "lookup K rs k = find (\<lambda>r. K r = k) rs"

record tables =
  tb_group :: "string \<Rightarrow> Group option"
  tb_active :: "string \<Rightarrow> bool"
  tb_message :: "string \<times> string \<Rightarrow> Message option"
  tb_chat :: "string \<Rightarrow> Chat option"
  tb_task :: "string \<Rightarrow> ScheduledTask option"
  tb_session :: "string \<Rightarrow> Session option"
  tb_state :: "string \<Rightarrow> string option"
  tb_allow :: "string \<times> string \<Rightarrow> SenderAllowlistEntry option"
  tb_next :: int

definition message_key :: "Message \<Rightarrow> string \<times> string" where
  "message_key m = (m_ID m, m_ChatJID m)"

definition allow_key :: "SenderAllowlistEntry \<Rightarrow> string \<times> string" where
  "allow_key a = (a_ChatJID a, a_AllowPattern a)"

definition tables_of :: "db \<Rightarrow> tables" where
  "tables_of d = \<lparr>tb_group = (\<lambda>j. map_option r_group (lookup row_jid (db_groups d) j)), tb_active = active_in d,
     tb_message = lookup message_key (db_messages d), tb_chat = lookup c_JID (db_chats d),
     tb_task = lookup t_ID (db_tasks d), tb_session = lookup s_GroupFolder (db_sessions d), tb_state = map_of (db_state d),
     tb_allow = lookup allow_key (db_allow d), tb_next = db_next_allow d\<rparr>"

definition no_tables :: tables where
  "no_tables = \<lparr>tb_group = Map.empty, tb_active = (\<lambda>_. False), tb_message = Map.empty, tb_chat = Map.empty,
     tb_task = Map.empty, tb_session = Map.empty, tb_state = Map.empty, tb_allow = Map.empty, tb_next = 1\<rparr>"

section \<open>The statements on maps\<close>

text \<open>The rows that satisfy a condition are changed, or dropped.\<close>

definition alter :: "('r \<Rightarrow> bool) \<Rightarrow> ('r \<Rightarrow> 'r) \<Rightarrow> ('k \<Rightarrow> 'r option) \<Rightarrow> 'k \<Rightarrow> 'r option" where
  "alter P h m k = map_option (\<lambda>r. if P r then h r else r) (m k)"

definition drop_rows :: "('r \<Rightarrow> bool) \<Rightarrow> ('k \<Rightarrow> 'r option) \<Rightarrow> 'k \<Rightarrow> 'r option" where
  "drop_rows P m k = (case m k of Some r \<Rightarrow> if P r then None else Some r | None \<Rightarrow> None)"

definition named_cols :: "Group \<Rightarrow> Group \<Rightarrow> Group" where
  "named_cols g h = h\<lparr>g_Name := g_Name g, g_Folder := g_Folder g, g_TriggerPattern := g_TriggerPattern g,
     g_IsMain := g_IsMain g, g_RequiresTrigger := g_RequiresTrigger g, g_ContainerConfig := g_ContainerConfig g\<rparr>"

definition folder_used :: "(string \<Rightarrow> Group option) \<Rightarrow> string \<Rightarrow> bool" where
  "folder_used m folder \<longleftrightarrow> folder \<in> g_Folder ` ran m"

definition put_group :: "Group \<Rightarrow> tables \<Rightarrow> tables" where
  "put_group g T =
     (case tb_group T (g_JID g) of
        Some old \<Rightarrow>
          if folder_used ((tb_group T)(g_JID g := None)) (g_Folder g) then T
          else T\<lparr>tb_group := (tb_group T)(g_JID g \<mapsto> named_cols g old),
                 tb_task := alter (\<lambda>t. t_GroupFolder t = g_Folder old) (\<lambda>t. t\<lparr>t_GroupFolder := g_Folder g\<rparr>) (tb_task T)\<rparr>
      | None \<Rightarrow>
          if folder_used (tb_group T) (g_Folder g)
          then T\<lparr>tb_group := alter (\<lambda>h. g_Folder h = g_Folder g) (named_cols g) (tb_group T)\<rparr>
          else T\<lparr>tb_group := (tb_group T)(g_JID g \<mapsto> g\<lparr>g_AddedAt := db_time0 (g_AddedAt g)\<rparr>)\<rparr>)"

definition remove_group :: "string \<Rightarrow> tables \<Rightarrow> tables" where
  "remove_group j T = T\<lparr>tb_group := (tb_group T)(j := None), tb_active := (tb_active T)(j := False),
     tb_task := drop_rows (\<lambda>t. Some (t_GroupFolder t) = map_option g_Folder (tb_group T j)) (tb_task T)\<rparr>"

definition put_message :: "Message \<Rightarrow> (string \<times> string \<Rightarrow> Message option) \<Rightarrow> string \<times> string \<Rightarrow> Message option" where
  "put_message m t = t((m_ID m, m_ChatJID m) \<mapsto> m\<lparr>m_Timestamp := db_time6 (m_Timestamp m)\<rparr>)"

definition put_chat :: "Chat \<Rightarrow> (string \<Rightarrow> Chat option) \<Rightarrow> string \<Rightarrow> Chat option" where
  "put_chat c t = t(c_JID c \<mapsto> c\<lparr>c_LastMessageTime :=
     (case t (c_JID c) of None \<Rightarrow> db_time6 (c_LastMessageTime c) | Some r \<Rightarrow> max (c_LastMessageTime r) (db_time6 (c_LastMessageTime c)))\<rparr>)"

definition new_task :: "ScheduledTask \<Rightarrow> tables \<Rightarrow> tables" where
  "new_task t T =
     (if enum_ok t \<and> tb_task T (t_ID t) = None \<and> folder_used (tb_group T) (t_GroupFolder t)
      then T\<lparr>tb_task := (tb_task T)(t_ID t \<mapsto> t\<lparr>t_NextRun := map_option db_time0 (t_NextRun t), t_LastRun := None,
             t_LastResult := None, t_CreatedAt := db_time0 (t_CreatedAt t)\<rparr>)\<rparr>
      else T)"

text \<open>The task of this id in this folder, if there is one.\<close>

definition task_of :: "tables \<Rightarrow> string \<Rightarrow> string \<Rightarrow> ScheduledTask option" where
  "task_of T i folder = (case tb_task T i of Some t \<Rightarrow> if t_GroupFolder t = folder then Some t else None | None \<Rightarrow> None)"

definition change_task :: "ScheduledTask \<Rightarrow> tables \<Rightarrow> tables" where
  "change_task t T =
     (case task_of T (t_ID t) (t_GroupFolder t) of
        None \<Rightarrow> T
      | Some u \<Rightarrow>
          if enum_ok t
          then T\<lparr>tb_task := (tb_task T)(t_ID t \<mapsto> t\<lparr>t_ChatJID := t_ChatJID u, t_CreatedAt := t_CreatedAt u,
                 t_NextRun := map_option db_time0 (t_NextRun t), t_LastRun := map_option db_time0 (t_LastRun t)\<rparr>)\<rparr>
          else T)"

definition remove_task :: "string \<Rightarrow> string \<Rightarrow> tables \<Rightarrow> tables" where
  "remove_task i folder T = (if task_of T i folder = None then T else T\<lparr>tb_task := (tb_task T)(i := None)\<rparr>)"

definition put_allow :: "SenderAllowlistEntry \<Rightarrow> tables \<Rightarrow> tables" where
  "put_allow a T =
     (case tb_allow T (allow_key a) of
        Some b \<Rightarrow> T\<lparr>tb_allow := (tb_allow T)(allow_key a \<mapsto> b\<lparr>a_Mode := a_Mode a\<rparr>)\<rparr>
      | None \<Rightarrow> T\<lparr>tb_allow := (tb_allow T)(allow_key a \<mapsto> a\<lparr>a_ID := tb_next T\<rparr>), tb_next := tb_next T + 1\<rparr>)"

text \<open>One call: a fault of the driver, or of any statement of a transaction, leaves everything as it was.\<close>

fun tables_step :: "tables \<Rightarrow> store_op \<Rightarrow> tables" where
  "tables_step T (OpUpsertGroup f g) = (if f = None then put_group g T else T)"
| "tables_step T (OpDeleteGroup f j) = (if f = None then remove_group j T else T)"
| "tables_step T (OpStoreMessage f m) = (if f = None then T\<lparr>tb_message := put_message m (tb_message T)\<rparr> else T)"
| "tables_step T (OpStoreBatch f1 f2 f3 ms) =
     (if f1 = None \<and> f2 = None \<and> f3 = None \<and> list_all (\<lambda>(m, f). f = None) ms
      then T\<lparr>tb_message := fold (\<lambda>(m, f). put_message m) ms (tb_message T)\<rparr> else T)"
| "tables_step T (OpDeleteMessage f i j) = (if f = None then T\<lparr>tb_message := (tb_message T)((i, j) := None)\<rparr> else T)"
| "tables_step T (OpUpsertChat f c) = (if f = None then T\<lparr>tb_chat := put_chat c (tb_chat T)\<rparr> else T)"
| "tables_step T (OpCreateTask f t) = (if f = None then new_task t T else T)"
| "tables_step T (OpUpdateTask f t) = (if f = None then change_task t T else T)"
| "tables_step T (OpDeleteTask f i folder) = (if f = None then remove_task i folder T else T)"
| "tables_step T (OpLogTaskRun f l) = T"
| "tables_step T (OpUpsertSession f s) = (if f = None then T\<lparr>tb_session := (tb_session T)(s_GroupFolder s \<mapsto> s)\<rparr> else T)"
| "tables_step T (OpDeleteSession f folder) = (if f = None then T\<lparr>tb_session := (tb_session T)(folder := None)\<rparr> else T)"
| "tables_step T (OpSetState f k v) = (if f = None then T\<lparr>tb_state := (tb_state T)(k \<mapsto> v)\<rparr> else T)"
| "tables_step T (OpUpsertAllowlistEntry f a) = (if f = None then put_allow a T else T)"
| "tables_step T (OpDeleteAllowlistEntry f i) = (if f = None then T\<lparr>tb_allow := drop_rows (\<lambda>a. a_ID a = i) (tb_allow T)\<rparr> else T)"
| "tables_step T (OpMarkGroupActive f1 f2 f3 now j) =
     (if f1 = None \<and> tb_group T j \<noteq> None then T\<lparr>tb_active := (tb_active T)(j := True)\<rparr> else T)"
| "tables_step T (OpMarkGroupInactive f1 f2 f3 j) = (if f1 = None then T\<lparr>tb_active := (tb_active T)(j := False)\<rparr> else T)"

section \<open>Rows under a key\<close>

lemma lookup_Some: "lookup K rs k = Some r \<Longrightarrow> r \<in> set rs \<and> K r = k"
  by (auto simp: lookup_def find_Some_iff in_set_conv_nth)

lemma lookup_None: "lookup K rs k = None \<longleftrightarrow> k \<notin> K ` set rs"
  by (auto simp: lookup_def find_None_iff)

lemma list_ex_key: "list_ex (\<lambda>r. K r = k) rs \<longleftrightarrow> lookup K rs k \<noteq> None"
  unfolding lookup_None list_ex_iff by (metis image_iff)

lemma lookup_mem: "distinct (map K rs) \<Longrightarrow> r \<in> set rs \<Longrightarrow> lookup K rs (K r) = Some r"
  unfolding lookup_def by (induction rs) (auto simp: image_iff)

lemma rows_of_key: "distinct (map K rs) \<Longrightarrow> set (filter (\<lambda>r. K r = k) rs) = set_option (lookup K rs k)"
  using lookup_Some lookup_mem by (cases "lookup K rs k") (force simp: lookup_None, fastforce)

lemma ran_lookup: "distinct (map K rs) \<Longrightarrow> ran (lookup K rs) = set rs"
  using lookup_Some lookup_mem by (fastforce simp: ran_def)

lemma lookup_append: "lookup K (rs @ [r]) = (if K r \<in> K ` set rs then lookup K rs else (lookup K rs)(K r \<mapsto> r))"
  unfolding lookup_def by (induction rs) (auto simp: fun_eq_iff)

lemma lookup_filter:
  assumes "distinct (map K rs)"
  shows "lookup K (filter P rs) = drop_rows (\<lambda>r. \<not> P r) (lookup K rs)"
proof
  fix k
  have d: "distinct (map K (filter P rs))" using assms by (simp add: distinct_map_filter)
  show "lookup K (filter P rs) k = drop_rows (\<lambda>r. \<not> P r) (lookup K rs) k"
  proof (cases "lookup K rs k")
    case None
    moreover from this have "lookup K (filter P rs) k = None" by (auto simp: lookup_None)
    ultimately show ?thesis by (simp add: drop_rows_def)
  next
    case (Some r)
    then have r: "r \<in> set rs" "K r = k" using lookup_Some by metis+
    show ?thesis
    proof (cases "P r")
      case True
      then show ?thesis using Some r lookup_mem [OF d, of r] by (simp add: drop_rows_def)
    next
      case False
      then have "k \<notin> K ` set (filter P rs)" using r assms by (auto simp: distinct_map dest: inj_onD)
      then have "lookup K (filter P rs) k = None" by (simp only: lookup_None) simp
      then show ?thesis using Some False by (simp add: drop_rows_def)
    qed
  qed
qed

lemma lookup_without: "lookup K (filter (\<lambda>r. K r \<noteq> key) rs) = (lookup K rs)(key := None)"
  unfolding lookup_def by (induction rs) (auto simp: fun_eq_iff)

lemma lookup_replace: "K r = key \<Longrightarrow> lookup K (filter (\<lambda>s. K s \<noteq> key) rs @ [r]) = (lookup K rs)(key \<mapsto> r)"
  by (subst lookup_append) (auto simp: lookup_without)

lemma lookup_update_where:
  "(\<And>r. P r \<Longrightarrow> K (h r) = K r) \<Longrightarrow> lookup K (update_where P h rs) = alter P h (lookup K rs)"
  unfolding lookup_def alter_def fun_eq_iff by (intro allI find_update_where) simp

lemma lookup_update_key:
  assumes "\<And>r. K (h r) = K r"
  shows "lookup K (update_where (\<lambda>r. K r = key) h rs) = (lookup K rs)(key := map_option h (lookup K rs key))"
proof
  fix k
  show "lookup K (update_where (\<lambda>r. K r = key) h rs) k = ((lookup K rs)(key := map_option h (lookup K rs key))) k"
    by (cases "lookup K rs k") (auto simp: lookup_update_where assms alter_def dest: lookup_Some)
qed

lemma alter_map: "(\<And>r. P (F r) = Q r) \<Longrightarrow> (\<And>r. F (if Q r then h r else r) = (if Q r then h' (F r) else F r)) \<Longrightarrow>
    (\<lambda>k. map_option F (alter Q h m k)) = alter P h' (\<lambda>k. map_option F (m k))"
  by (auto simp: alter_def fun_eq_iff option.map_comp comp_def intro!: option.map_cong)

section \<open>Each statement refines its specification\<close>

lemma tables_of_sel [simp]:
  "tb_group (tables_of d) = (\<lambda>j. map_option r_group (lookup row_jid (db_groups d) j))" "tb_active (tables_of d) = active_in d"
  "tb_message (tables_of d) = lookup message_key (db_messages d)" "tb_chat (tables_of d) = lookup c_JID (db_chats d)"
  "tb_task (tables_of d) = lookup t_ID (db_tasks d)" "tb_session (tables_of d) = lookup s_GroupFolder (db_sessions d)"
  "tb_state (tables_of d) = map_of (db_state d)" "tb_allow (tables_of d) = lookup allow_key (db_allow d)"
  "tb_next (tables_of d) = db_next_allow d"
  by (simp_all add: tables_of_def)

lemma wf_keys:
  assumes "db_wf d"
  shows "distinct (map row_jid (db_groups d))" "distinct (map row_folder (db_groups d))" "distinct (map message_key (db_messages d))"
    "distinct (map c_JID (db_chats d))" "distinct (map t_ID (db_tasks d))" "distinct (map s_GroupFolder (db_sessions d))"
    "distinct (map fst (db_state d))" "distinct (map allow_key (db_allow d))"
  using assms by (simp_all add: db_wf_def groups_wf_def msgs_wf_def tasks_wf_def allow_wf_def message_key_def [abs_def] allow_key_def [abs_def])

lemma ran_map_option: "ran (\<lambda>k. map_option F (m k)) = F ` ran m"
  by (force simp: ran_def)

lemma ran_rows: "distinct (map K rs) \<Longrightarrow> ran (\<lambda>k. map_option F (lookup K rs k)) = F ` set rs"
  by (simp add: ran_map_option ran_lookup)

lemma folder_used_rows:
  assumes "db_wf d"
  shows "folder_used (tb_group (tables_of d)) folder \<longleftrightarrow> folder \<in> row_folder ` set (db_groups d)"
  using ran_rows [OF wf_keys(1) [OF assms], of r_group] by (simp add: folder_used_def image_image)

lemma folder_used_others:
  assumes "db_wf d"
  shows "folder_used ((tb_group (tables_of d))(j := None)) folder \<longleftrightarrow> (\<exists>r\<in>set (db_groups d). row_jid r \<noteq> j \<and> row_folder r = folder)"
proof -
  let ?rs = "filter (\<lambda>r. row_jid r \<noteq> j) (db_groups d)"
  have "(tb_group (tables_of d))(j := None) = (\<lambda>k. map_option r_group (lookup row_jid ?rs k))"
    by (auto simp: lookup_without fun_eq_iff)
  moreover have "ran (\<lambda>k. map_option r_group (lookup row_jid ?rs k)) = r_group ` set ?rs"
    by (rule ran_rows) (simp add: wf_keys(1) [OF assms] distinct_map_filter)
  ultimately show ?thesis by (auto simp: folder_used_def)
qed

lemma named_cols_jid [simp]: "g_JID (named_cols g h) = g_JID h"
  by (simp add: named_cols_def)

lemma named_cols_row: "r_group (set_group_cols g r) = named_cols g (r_group r)"
  by (simp add: set_group_cols_def named_cols_def)

lemma message_key_replace: "same_key m n \<longleftrightarrow> message_key n = message_key m"
  by (auto simp: same_key_def message_key_def)

lemma lookup_replace_message: "lookup message_key (replace_message m ms) = put_message m (lookup message_key ms)"
  unfolding replace_message_def message_key_replace put_message_def
  by (subst lookup_replace) (simp_all add: message_key_def)

lemma lookup_batch:
  "batch_insert ms old = Inr new \<Longrightarrow> list_all (\<lambda>(m, f). f = None) ms \<and>
     lookup message_key new = fold (\<lambda>(m, f). put_message m) ms (lookup message_key old)"
  by (induction ms old rule: batch_insert.induct) (auto simp: lookup_replace_message split: option.splits)

lemma batch_fails: "batch_insert ms old = Inl e \<Longrightarrow> \<not> list_all (\<lambda>(m, f). f = None) ms"
  by (induction ms old rule: batch_insert.induct) (auto split: option.splits)

lemma active_in_cols:
  "(\<And>r. P r \<Longrightarrow> r_is_active (h r) = r_is_active r) \<Longrightarrow> (\<And>r. P r \<Longrightarrow> row_jid (h r) = row_jid r) \<Longrightarrow>
     db_groups e = update_where P h (db_groups d) \<Longrightarrow> active_in e = active_in d"
  unfolding active_in_def fun_eq_iff by (simp add: bex_update_where if_distrib cong: if_cong)

lemma group_lookup_folder:
  "(\<lambda>j. map_option r_group (lookup row_jid (update_where (\<lambda>r. row_folder r = x) (set_group_cols g) rs) j)) =
     alter (\<lambda>h. g_Folder h = x) (named_cols g) (\<lambda>j. map_option r_group (lookup row_jid rs j))"
  by (subst lookup_update_where) (auto intro!: alter_map simp: named_cols_row)

lemma group_lookup_jid:
  "lookup row_jid rs (g_JID g) = Some old \<Longrightarrow>
   (\<lambda>j. map_option r_group (lookup row_jid (update_where (\<lambda>r. row_jid r = g_JID g) (set_group_cols g) rs) j)) =
     (\<lambda>j. map_option r_group (lookup row_jid rs j))(g_JID g \<mapsto> named_cols g (r_group old))"
  by (subst lookup_update_key) (auto simp: named_cols_row fun_eq_iff)

lemma lookup_cascade:
  "lookup t_ID (cascade_folder a b ts) = alter (\<lambda>t. t_GroupFolder t = a) (\<lambda>t. t\<lparr>t_GroupFolder := b\<rparr>) (lookup t_ID ts)"
  unfolding cascade_folder_def by (rule lookup_update_where) simp

lemma refine_UpsertGroup:
  assumes wf: "db_wf d"
  shows "tables_of (snd (UpsertGroup None g d)) = put_group g (tables_of d)"
proof (cases "lookup row_jid (db_groups d) (g_JID g)")
  case None
  then have f: "find (\<lambda>r. row_jid r = g_JID g) (db_groups d) = None" by (simp add: lookup_def)
  have new: "g_JID g \<notin> row_jid ` set (db_groups d)" using None by (simp only: lookup_None not_False_eq_True)
  show ?thesis
  proof (cases "g_Folder g \<in> row_folder ` set (db_groups d)")
    case True
    let ?d = "d\<lparr>db_groups := update_where (\<lambda>r. row_folder r = g_Folder g) (set_group_cols g) (db_groups d)\<rparr>"
    have run: "UpsertGroup None g d = (Inr (), ?d)" using True f by (auto simp: UpsertGroup_def list_ex_iff)
    have act: "active_in ?d = active_in d" by (rule active_in_cols [where P = "\<lambda>r. row_folder r = g_Folder g" and h = "set_group_cols g"]) simp_all
    have "put_group g (tables_of d) = (tables_of d)\<lparr>tb_group := alter (\<lambda>h. g_Folder h = g_Folder g) (named_cols g) (tb_group (tables_of d))\<rparr>"
      unfolding put_group_def folder_used_rows [OF wf] using None True by simp
    then show ?thesis using run act by (simp add: tables_of_def group_lookup_folder)
  next
    case False
    let ?r = "\<lparr>r_group = g\<lparr>g_AddedAt := db_time0 (g_AddedAt g)\<rparr>, r_is_active = False, r_last_active_at = None\<rparr>"
    have run: "UpsertGroup None g d = (Inr (), d\<lparr>db_groups := db_groups d @ [?r]\<rparr>)" 
      using False f by (simp add: UpsertGroup_def list_ex_iff) (metis image_eqI)
    have act: "active_in (d\<lparr>db_groups := db_groups d @ [?r]\<rparr>) = active_in d" by (auto simp: active_in_def fun_eq_iff)
    have "put_group g (tables_of d) = (tables_of d)\<lparr>tb_group := (tb_group (tables_of d))(g_JID g \<mapsto> g\<lparr>g_AddedAt := db_time0 (g_AddedAt g)\<rparr>)\<rparr>"
      unfolding put_group_def folder_used_rows [OF wf] using None False by simp
    then show ?thesis using run act new by (simp add: tables_of_def lookup_append fun_eq_iff)
  qed
next
  case (Some old)
  then have f: "find (\<lambda>r. row_jid r = g_JID g) (db_groups d) = Some old" by (simp add: lookup_def)
  let ?gs = "update_where (\<lambda>r. row_jid r = g_JID g) (set_group_cols g) (db_groups d)"
  let ?d = "d\<lparr>db_groups := ?gs, db_tasks := cascade_folder (row_folder old) (g_Folder g) (db_tasks d)\<rparr>"
  have act: "active_in ?d = active_in d" by (rule active_in_cols [where P = "\<lambda>r. row_jid r = g_JID g" and h = "set_group_cols g"]) simp_all
  show ?thesis
    unfolding put_group_def folder_used_others [OF wf] using Some f act
    by (simp add: UpsertGroup_def list_ex_iff) (simp add: tables_of_def group_lookup_jid lookup_cascade, blast)
qed

lemma refine_DeleteGroup:
  assumes wf: "db_wf d"
  shows "tables_of (snd (DeleteGroup None j d)) = remove_group j (tables_of d)"
proof -
  let ?gs = "filter (\<lambda>r. row_jid r \<noteq> j) (db_groups d)"
  have gone: "t_GroupFolder t \<notin> set (map row_folder (filter (\<lambda>r. row_jid r = j) (db_groups d))) \<longleftrightarrow>
      \<not> Some (t_GroupFolder t) = map_option g_Folder (map_option r_group (lookup row_jid (db_groups d) j))" for t
    using rows_of_key [OF wf_keys(1) [OF wf], of j] by (cases "lookup row_jid (db_groups d) j") simp_all
  have act: "active_in (d\<lparr>db_groups := ?gs, db_tasks := ts, db_logs := ls\<rparr>) = (active_in d)(j := False)" for ts ls
    by (auto simp: active_in_def fun_eq_iff)
  show ?thesis
    unfolding DeleteGroup_def Let_def gone
    by (simp add: act remove_group_def tables_of_def lookup_without lookup_filter [OF wf_keys(5) [OF wf]] fun_eq_iff)
qed

lemma active_in_upd [simp]:
  "active_in (d\<lparr>db_messages := ms\<rparr>) = active_in d" "active_in (d\<lparr>db_chats := cs\<rparr>) = active_in d"
  "active_in (d\<lparr>db_tasks := ts\<rparr>) = active_in d" "active_in (d\<lparr>db_logs := ls\<rparr>) = active_in d"
  "active_in (d\<lparr>db_sessions := ss\<rparr>) = active_in d" "active_in (d\<lparr>db_state := kv\<rparr>) = active_in d"
  "active_in (d\<lparr>db_allow := as\<rparr>) = active_in d" "active_in (d\<lparr>db_next_allow := n\<rparr>) = active_in d"
  "active_in (d\<lparr>db_next_log := n\<rparr>) = active_in d"
  by (simp_all add: active_in_def fun_eq_iff)

lemma tables_of_upd:
  "tables_of (d\<lparr>db_tasks := ts\<rparr>) = (tables_of d)\<lparr>tb_task := lookup t_ID ts\<rparr>"
  "tables_of (d\<lparr>db_logs := ls\<rparr>) = tables_of d" "tables_of (d\<lparr>db_next_log := n\<rparr>) = tables_of d"
  "tables_of (d\<lparr>db_sessions := ss\<rparr>) = (tables_of d)\<lparr>tb_session := lookup s_GroupFolder ss\<rparr>"
  "tables_of (d\<lparr>db_state := kv\<rparr>) = (tables_of d)\<lparr>tb_state := map_of kv\<rparr>"
  "tables_of (d\<lparr>db_allow := as\<rparr>) = (tables_of d)\<lparr>tb_allow := lookup allow_key as\<rparr>"
  "tables_of (d\<lparr>db_next_allow := n\<rparr>) = (tables_of d)\<lparr>tb_next := n\<rparr>"
  by (simp_all add: tables_of_def)

lemma refine_messages:
  "tables_of (snd (StoreMessage f m d)) = tables_step (tables_of d) (OpStoreMessage f m)"
  "tables_of (snd (DeleteMessage f i j d)) = tables_step (tables_of d) (OpDeleteMessage f i j)"
proof -
  show "tables_of (snd (StoreMessage f m d)) = tables_step (tables_of d) (OpStoreMessage f m)"
    by (cases f) (simp_all add: StoreMessage_def tables_of_def lookup_replace_message)
  have "filter (\<lambda>m. \<not> (m_ID m = i \<and> m_ChatJID m = j)) ms = filter (\<lambda>m. message_key m \<noteq> (i, j)) ms" for ms
    by (simp add: message_key_def)
  then show "tables_of (snd (DeleteMessage f i j d)) = tables_step (tables_of d) (OpDeleteMessage f i j)"
    by (cases f) (simp_all add: DeleteMessage_def tables_of_def lookup_without)
qed

lemma refine_StoreBatch: "tables_of (snd (StoreBatch f1 f2 f3 ms d)) = tables_step (tables_of d) (OpStoreBatch f1 f2 f3 ms)"
proof (cases "batch_insert ms (db_messages d)")
  case (Inl e)
  then show ?thesis using batch_fails [OF Inl] by (cases f1; cases f2) (simp_all add: StoreBatch_def)
next
  case (Inr new)
  show ?thesis
  proof (cases "f1 = None \<and> f2 = None \<and> f3 = None")
    case True
    then have "snd (StoreBatch f1 f2 f3 ms d) = d\<lparr>db_messages := new\<rparr>" using Inr by (auto simp: StoreBatch_def)
    moreover have "tables_of (d\<lparr>db_messages := new\<rparr>) = (tables_of d)\<lparr>tb_message := lookup message_key new\<rparr>"
      by (simp add: tables_of_def)
    ultimately show ?thesis using True lookup_batch [OF Inr] by simp
  next
    case False
    then have "snd (StoreBatch f1 f2 f3 ms d) = d" using Inr by (auto simp: StoreBatch_def split: option.split)
    then show ?thesis using False by auto
  qed
qed

lemma refine_UpsertChat: "tables_of (snd (UpsertChat f c d)) = tables_step (tables_of d) (OpUpsertChat f c)"
proof (cases "f = None")
  case True
  show ?thesis
  proof (cases "lookup c_JID (db_chats d) (c_JID c)")
    case None
    then have "c_JID c \<notin> c_JID ` set (db_chats d)" by (simp only: lookup_None not_False_eq_True)
    then show ?thesis using True None
      by (simp add: UpsertChat_def list_ex_key put_chat_def tables_of_def lookup_append)
  next
    case (Some r)
    then have r: "c_JID r = c_JID c" using lookup_Some by metis
    let ?h = "\<lambda>r. r\<lparr>c_Name := c_Name c, c_Channel := c_Channel c, c_IsGroup := c_IsGroup c,
                      c_LastMessageTime := max (c_LastMessageTime r) (db_time6 (c_LastMessageTime c))\<rparr>"
    have "?h r = c\<lparr>c_LastMessageTime := max (c_LastMessageTime r) (db_time6 (c_LastMessageTime c))\<rparr>" using r by simp
    then have "lookup c_JID (update_where (\<lambda>r. c_JID r = c_JID c) ?h (db_chats d)) = put_chat c (lookup c_JID (db_chats d))"
      using Some by (subst lookup_update_key) (simp_all add: put_chat_def)
    then show ?thesis using True Some by (simp add: UpsertChat_def list_ex_key tables_of_def)
  qed
qed (auto simp: UpsertChat_def)

lemma find_task_in:
  "db_wf d \<Longrightarrow> find (task_in i folder) (db_tasks d) = task_of (tables_of d) i folder"
proof -
  assume wf: "db_wf d"
  let ?t = "lookup t_ID (filter (\<lambda>t. t_GroupFolder t = folder) (db_tasks d)) i"
  have "find (task_in i folder) ts = lookup t_ID (filter (\<lambda>t. t_GroupFolder t = folder) ts) i" for ts
    by (induction ts) (auto simp: lookup_def task_in_def)
  then show ?thesis
    by (simp add: lookup_filter [OF wf_keys(5) [OF wf]] drop_rows_def task_of_def split: option.split)
qed

lemma task_in_ex: "db_wf d \<Longrightarrow> list_ex (task_in i folder) (db_tasks d) \<longleftrightarrow> task_of (tables_of d) i folder \<noteq> None"
  using find_task_in [of d i folder] find_None_iff [of "task_in i folder" "db_tasks d"] by (auto simp: list_ex_iff)

lemma refine_CreateTask:
  assumes wf: "db_wf d"
  shows "tables_of (snd (CreateTask None t d)) = new_task t (tables_of d)"
proof -
  have known: "list_ex (\<lambda>r. row_folder r = t_GroupFolder t) (db_groups d) \<longleftrightarrow> folder_used (tb_group (tables_of d)) (t_GroupFolder t)"
    unfolding folder_used_rows [OF wf] list_ex_iff by (metis image_iff)
  show ?thesis
    unfolding CreateTask_def new_task_def list_ex_key [of t_ID] known
    by (auto simp: lookup_None [symmetric]) (auto simp: tables_of_def lookup_append lookup_None)
qed

lemma refine_UpdateTask:
  assumes wf: "db_wf d"
  shows "tables_of (snd (UpdateTask None t d)) = change_task t (tables_of d)"
proof (cases "task_of (tables_of d) (t_ID t) (t_GroupFolder t)")
  case None
  then have "\<forall>u\<in>set (db_tasks d). \<not> task_in (t_ID t) (t_GroupFolder t) u"
    using task_in_ex [OF wf, of "t_ID t" "t_GroupFolder t"] by (simp add: list_ex_iff)
  then show ?thesis using None by (simp add: UpdateTask_def change_task_def list_ex_iff update_where_none)
next
  case (Some u)
  then have u: "lookup t_ID (db_tasks d) (t_ID t) = Some u" "t_GroupFolder u = t_GroupFolder t" "t_ID u = t_ID t"
    using lookup_Some [of t_ID] by (auto simp: task_of_def split: option.splits if_splits)
  have "lookup t_ID (update_where (task_in (t_ID t) (t_GroupFolder t)) (set_task_cols t) (db_tasks d)) =
      alter (task_in (t_ID t) (t_GroupFolder t)) (set_task_cols t) (lookup t_ID (db_tasks d))"
    by (rule lookup_update_where) simp
  also have "\<dots> = (lookup t_ID (db_tasks d))(t_ID t \<mapsto> set_task_cols t u)"
  proof
    fix i
    show "alter (task_in (t_ID t) (t_GroupFolder t)) (set_task_cols t) (lookup t_ID (db_tasks d)) i =
        ((lookup t_ID (db_tasks d))(t_ID t \<mapsto> set_task_cols t u)) i"
      using u by (cases "lookup t_ID (db_tasks d) i") (auto simp: alter_def task_in_def dest: lookup_Some)
  qed
  also have "set_task_cols t u = t\<lparr>t_ChatJID := t_ChatJID u, t_CreatedAt := t_CreatedAt u,
      t_NextRun := map_option db_time0 (t_NextRun t), t_LastRun := map_option db_time0 (t_LastRun t)\<rparr>"
    using u by (simp add: set_task_cols_def)
  finally show ?thesis
    using Some task_in_ex [OF wf, of "t_ID t" "t_GroupFolder t"]
    by (auto simp: UpdateTask_def change_task_def tables_of_upd fun_upd_def)
qed

lemma refine_DeleteTask:
  assumes wf: "db_wf d"
  shows "tables_of (snd (DeleteTask None i folder d)) = remove_task i folder (tables_of d)"
proof -
  have "lookup t_ID (filter (\<lambda>t. \<not> task_in i folder t) (db_tasks d)) = tb_task (remove_task i folder (tables_of d))"
  proof
    fix k
    show "lookup t_ID (filter (\<lambda>t. \<not> task_in i folder t) (db_tasks d)) k = tb_task (remove_task i folder (tables_of d)) k"
      unfolding lookup_filter [OF wf_keys(5) [OF wf]] using lookup_Some [of t_ID "db_tasks d" k]
      by (cases "lookup t_ID (db_tasks d) k"; cases "lookup t_ID (db_tasks d) i")
        (auto simp: drop_rows_def remove_task_def task_of_def task_in_def)
  qed
  then show ?thesis by (simp add: DeleteTask_def Let_def tables_of_upd) (simp add: remove_task_def)
qed

lemma refine_LogTaskRun: "tables_of (snd (LogTaskRun f l d)) = tables_of d"
  by (simp add: LogTaskRun_def tables_of_upd split: option.split)

lemma refine_sessions:
  "tables_of (snd (UpsertSession f s d)) = tables_step (tables_of d) (OpUpsertSession f s)"
  "tables_of (snd (DeleteSession f j d)) = tables_step (tables_of d) (OpDeleteSession f j)"
  by (cases f; simp add: UpsertSession_def DeleteSession_def tables_of_upd lookup_replace lookup_without)+

lemma map_of_replace: "map_of (filter (\<lambda>kv. fst kv \<noteq> k) kvs @ [(k, v)]) = (map_of kvs)(k \<mapsto> v)"
  by (induction kvs) (auto simp: map_add_def fun_eq_iff split: option.splits)

lemma refine_SetState: "tables_of (snd (SetState f k v d)) = tables_step (tables_of d) (OpSetState f k v)"
  by (cases f) (simp_all add: SetState_def tables_of_upd map_of_replace del: map_of_append)

lemma same_pattern_key: "same_pattern a = (\<lambda>b. allow_key b = allow_key a)"
  by (auto simp: same_pattern_def allow_key_def fun_eq_iff)

lemma refine_UpsertAllow: "tables_of (snd (UpsertAllowlistEntry None a d)) = put_allow a (tables_of d)"
proof (cases "lookup allow_key (db_allow d) (allow_key a)")
  case None
  then have "allow_key a \<notin> allow_key ` set (db_allow d)" by (simp only: lookup_None not_False_eq_True)
  moreover have "allow_key (a\<lparr>a_ID := n\<rparr>) = allow_key a" for n by (simp add: allow_key_def)
  ultimately show ?thesis using None
    by (simp add: UpsertAllowlistEntry_def same_pattern_key list_ex_key put_allow_def tables_of_upd lookup_append)
next
  case (Some b)
  have "lookup allow_key (update_where (\<lambda>b. allow_key b = allow_key a) (\<lambda>b. b\<lparr>a_Mode := a_Mode a\<rparr>) (db_allow d)) =
      (lookup allow_key (db_allow d))(allow_key a \<mapsto> b\<lparr>a_Mode := a_Mode a\<rparr>)"
    using Some by (subst lookup_update_key) (simp_all add: allow_key_def)
  then show ?thesis using Some
    by (simp add: UpsertAllowlistEntry_def same_pattern_key list_ex_key put_allow_def tables_of_upd)
qed

lemma refine_DeleteAllow:
  "db_wf d \<Longrightarrow> tables_of (snd (DeleteAllowlistEntry f i d)) = tables_step (tables_of d) (OpDeleteAllowlistEntry f i)"
  by (cases f) (simp_all add: DeleteAllowlistEntry_def tables_of_upd lookup_filter [OF wf_keys(8)])

lemma tables_mark:
  assumes "\<And>r. r_group (h r) = r_group r"
  shows "tables_of (update_rows j h d) = (tables_of d)\<lparr>tb_active := active_in (update_rows j h d)\<rparr>"
proof -
  have "(\<lambda>k. map_option r_group (lookup row_jid (update_where (\<lambda>r. row_jid r = j) h (db_groups d)) k)) =
      (\<lambda>k. map_option r_group (lookup row_jid (db_groups d) k))"
    by (subst lookup_update_key) (auto simp: assms fun_eq_iff option.map_comp comp_def)
  then show ?thesis by (simp add: tables_of_def update_rows_def)
qed

lemma refine_mark:
  "tables_of (snd (MarkGroupActive f1 f2 f3 now j d)) = tables_step (tables_of d) (OpMarkGroupActive f1 f2 f3 now j)"
  "tables_of (snd (MarkGroupInactive f1 f2 f3 j d)) = tables_step (tables_of d) (OpMarkGroupInactive f1 f2 f3 j)"
proof -
  have row: "(\<exists>r\<in>set (db_groups d). row_jid r = j) \<longleftrightarrow> lookup row_jid (db_groups d) j \<noteq> None"
    using list_ex_key [of row_jid j] by (simp add: list_ex_iff)
  have "\<not> active_in d j" if "lookup row_jid (db_groups d) j = None"
    using that row by (auto simp: active_in_def)
  then have act: "active_in (update_rows j (mark_active now) d) = (if lookup row_jid (db_groups d) j = None then active_in d else (active_in d)(j := True))"
    unfolding fun_eq_iff by (simp add: active_update_rows [where b = True] row)
  show "tables_of (snd (MarkGroupActive f1 f2 f3 now j d)) = tables_step (tables_of d) (OpMarkGroupActive f1 f2 f3 now j)"
    by (simp add: snd_Mark tables_mark act)
  have "active_in (update_rows j mark_inactive d) = (active_in d)(j := False)"
    by (simp add: fun_eq_iff active_update_rows [where b = False])
  then show "tables_of (snd (MarkGroupInactive f1 f2 f3 j d)) = tables_step (tables_of d) (OpMarkGroupInactive f1 f2 f3 j)"
    by (simp add: snd_Mark tables_mark)
qed

lemmas refine_statements = refine_UpsertGroup refine_DeleteGroup refine_messages refine_StoreBatch refine_UpsertChat refine_CreateTask
  refine_UpdateTask refine_DeleteTask refine_LogTaskRun refine_sessions refine_SetState refine_UpsertAllow refine_DeleteAllow refine_mark

lemma faulty_statements:
  "snd (UpsertGroup (Some e) g d) = d" "snd (DeleteGroup (Some e) j d) = d" "snd (CreateTask (Some e) t d) = d"
  "snd (UpdateTask (Some e) t d) = d" "snd (DeleteTask (Some e) i j d) = d" "snd (UpsertAllowlistEntry (Some e) a d) = d"
  by (simp_all add: UpsertGroup_def DeleteGroup_def CreateTask_def UpdateTask_def DeleteTask_def UpsertAllowlistEntry_def)

lemma refine_store_step:
  assumes "db_wf d"
  shows "tables_of (store_step d x) = tables_step (tables_of d) x"
proof (cases x)
  case (OpUpsertGroup f g)
  then show ?thesis using assms by (cases f) (simp_all add: refine_UpsertGroup faulty_statements)
next
  case (OpDeleteGroup f g)
  then show ?thesis using assms by (cases f) (simp_all add: refine_DeleteGroup faulty_statements)
next
  case (OpCreateTask f g)
  then show ?thesis using assms by (cases f) (simp_all add: refine_CreateTask faulty_statements)
next
  case (OpUpdateTask f g)
  then show ?thesis using assms by (cases f) (simp_all add: refine_UpdateTask faulty_statements)
next
  case (OpDeleteTask f i g)
  then show ?thesis using assms by (cases f) (simp_all add: refine_DeleteTask faulty_statements)
next
  case (OpUpsertAllowlistEntry f a)
  then show ?thesis using assms by (cases f) (simp_all add: refine_UpsertAllow faulty_statements)
qed (use assms in \<open>simp_all only: store_step.simps refine_statements, simp_all\<close>)

lemma refine_store_run: "db_wf d \<Longrightarrow> tables_of (store_run d ops) = foldl tables_step (tables_of d) ops \<and> db_wf (store_run d ops)"
  by (induction ops arbitrary: d) (simp_all add: store_run_def refine_store_step store_step_wf)

lemma empty_db_wf: "db_wf empty_db"
  by (simp add: empty_db_def db_wf_def groups_wf_def msgs_wf_def tasks_wf_def logs_wf_def allow_wf_def)

lemma tables_of_empty: "tables_of empty_db = no_tables"
  by (simp add: empty_db_def tables_of_def no_tables_def lookup_def active_in_def fun_eq_iff)

section \<open>Reads\<close>

text \<open>What the reads return when the driver does not fail, said on the maps.\<close>

definition reads_agree :: "db \<Rightarrow> tables \<Rightarrow> bool" where
  "reads_agree d T \<longleftrightarrow>
     (\<forall>j. GetGroup None j d = Inr (tb_group T j)) \<and>
     (\<forall>j. IsGroupActive None j d = Inr (tb_active T j)) \<and>
     (\<forall>j. GetChat None j d = Inr (tb_chat T j)) \<and>
     (\<forall>i folder. GetTask None i folder d = Inr (task_of T i folder)) \<and>
     (\<forall>folder. \<exists>ts. ListTasksByGroup None folder d = Inr ts \<and> set ts = {t \<in> ran (tb_task T). t_GroupFolder t = folder} \<and> distinct ts) \<and>
     (\<forall>folder. GetSession None folder d = Inr (tb_session T folder)) \<and>
     (\<forall>k. GetState None k d = Inr (case tb_state T k of None \<Rightarrow> [] | Some v \<Rightarrow> v)) \<and>
     (\<forall>j. \<exists>as. GetAllowlist None j d = Inr as \<and> set as = {a \<in> ran (tb_allow T). a_ChatJID a = j} \<and> distinct as) \<and>
     (\<forall>j since n. \<exists>ms. GetMessagesSince None j since (int n) d = Inr ms \<and> sorted (map m_Timestamp ms) \<and>
        length ms = min n (card {m \<in> ran (tb_message T). m_ChatJID m = j \<and> since < m_Timestamp m \<and> visible m}) \<and>
        set ms \<subseteq> {m \<in> ran (tb_message T). m_ChatJID m = j \<and> since < m_Timestamp m \<and> visible m})"

lemma distinct_rows: "distinct (map K rs) \<Longrightarrow> distinct rs"
  by (simp add: distinct_map)

lemma reads_of_tables:
  assumes wf: "db_wf d"
  shows "reads_agree d (tables_of d)"
proof -
  have tasks: "\<exists>ts. ListTasksByGroup None folder d = Inr ts \<and> set ts = {t \<in> ran (tb_task (tables_of d)). t_GroupFolder t = folder} \<and> distinct ts" for folder
    using distinct_rows [OF wf_keys(5) [OF wf]] ran_lookup [OF wf_keys(5) [OF wf]]
    by (auto simp: ListTasksByGroup_def)
  have allow: "\<exists>as. GetAllowlist None j d = Inr as \<and> set as = {a \<in> ran (tb_allow (tables_of d)). a_ChatJID a = j} \<and> distinct as" for j
    using distinct_rows [OF wf_keys(8) [OF wf]] ran_lookup [OF wf_keys(8) [OF wf]]
    by (auto simp: GetAllowlist_def)
  have msgs: "\<exists>ms. GetMessagesSince None j since (int n) d = Inr ms \<and> sorted (map m_Timestamp ms) \<and>
        length ms = min n (card {m \<in> ran (tb_message (tables_of d)). m_ChatJID m = j \<and> since < m_Timestamp m \<and> visible m}) \<and>
        set ms \<subseteq> {m \<in> ran (tb_message (tables_of d)). m_ChatJID m = j \<and> since < m_Timestamp m \<and> visible m}" for j since n
  proof -
    let ?p = "filter (\<lambda>m. m_ChatJID m = j \<and> m_Timestamp m > since \<and> visible m) (db_messages d)"
    have r: "{m \<in> ran (tb_message (tables_of d)). m_ChatJID m = j \<and> since < m_Timestamp m \<and> visible m} = set ?p"
      using ran_lookup [OF wf_keys(3) [OF wf]] by auto
    have "distinct ?p" using distinct_rows [OF wf_keys(3) [OF wf]] by simp
    then have "card (set ?p) = length ?p" by (rule distinct_card)
    then show ?thesis unfolding r using newest_subset [of n ?p] sorted_newest [of n ?p]
      by (simp add: GetMessagesSince_def)
  qed
  have active: "IsGroupActive None j d = Inr (active_in d j)" for j
  proof (cases "lookup row_jid (db_groups d) j")
    case None
    moreover from this have "\<not> active_in d j" using list_ex_key [of row_jid j "db_groups d"] by (auto simp: active_in_def list_ex_iff)
    ultimately show ?thesis by (simp add: IsGroupActive_def lookup_def)
  next
    case (Some r)
    moreover have "active_in d j \<longleftrightarrow> (\<exists>r\<in>set (filter (\<lambda>r. row_jid r = j) (db_groups d)). r_is_active r)" by (auto simp: active_in_def)
    ultimately show ?thesis unfolding rows_of_key [OF wf_keys(1) [OF wf]] by (simp add: IsGroupActive_def lookup_def)
  qed
  show ?thesis
    unfolding reads_agree_def using tasks allow msgs active find_task_in [OF wf]
    by (simp add: GetGroup_def GetChat_def GetTask_def GetSession_def GetState_def flip: lookup_def)
qed

section \<open>Property\<close>


end
