(* ===== verification/Sched_Loop.thy ===== *)
theory Sched_Loop
  imports Scheduler_Model
begin

text \<open>
  The concurrent frame of \<open>internal/scheduler/scheduler.go\<close>: the construction, the loop of
  \<open>Start\<close> with its ticker, and the goroutines of a poll, which share a weighted semaphore and
  are awaited before the loop goes on. \<open>Scheduler_Model\<close> has what a single task does; here its
  run is one event. A ticker drops ticks while its channel of one element is full and
  refuses an interval that is not positive by a panic.
\<close>

definition maxConcurrentTasks :: nat where "maxConcurrentTasks = 3"

record Scheduler =
  sc_pollInterval :: duration
  sc_semaphore :: nat

definition Scheduler_New :: "bool \<Rightarrow> bool \<Rightarrow> duration \<Rightarrow> Scheduler result" where
  "Scheduler_New has_store has_executor pollInterval =
     (if \<not> has_store then Inl (Errorf ''scheduler: task store is required'')
      else if \<not> has_executor then Inl (Errorf ''scheduler: executor is required'')
      else Inr \<lparr>sc_pollInterval = pollInterval, sc_semaphore = maxConcurrentTasks\<rparr>)"

section \<open>State\<close>

datatype worker_stage = Awaiting | Executing | Refused | Executed

datatype sched_phase = Fetching | Working | Selecting | StartReturned | StartPanicked

record sched_state =
  ss_phase :: sched_phase
  ss_workers :: "(ScheduledTask \<times> worker_stage) list"
  ss_permits :: nat
  ss_tick :: bool
  ss_cancelled :: bool

datatype sched_event =
    Fetched "ScheduledTask list result"
  | Acquired nat
  | AcquireCancelled nat
  | TaskEnded nat
  | AllDone
  | TickerFires
  | TakeTick
  | TakeDone
  | CtxCancelled

definition sched_start :: "Scheduler \<Rightarrow> sched_state" where
  "sched_start s = \<lparr>ss_phase = (if sc_pollInterval s \<le> 0 then StartPanicked else Fetching), ss_workers = [],
     ss_permits = sc_semaphore s, ss_tick = False, ss_cancelled = False\<rparr>"

section \<open>Steps\<close>

definition stage_of :: "sched_state \<Rightarrow> nat \<Rightarrow> worker_stage option" where
  "stage_of st i = (if i < length (ss_workers st) then Some (snd (ss_workers st ! i)) else None)"

definition set_stage :: "nat \<Rightarrow> worker_stage \<Rightarrow> sched_state \<Rightarrow> sched_state" where
  "set_stage i x st = st\<lparr>ss_workers := (ss_workers st)[i := (fst (ss_workers st ! i), x)]\<rparr>"

fun sched_step :: "sched_event \<Rightarrow> sched_state \<Rightarrow> sched_state" where
  "sched_step (Fetched r) st =
     (if ss_phase st \<noteq> Fetching then st
      else case r of
        Inl err \<Rightarrow> st\<lparr>ss_phase := Selecting\<rparr>
      | Inr tasks \<Rightarrow> st\<lparr>ss_phase := Working, ss_workers := map (\<lambda>t. (t, Awaiting)) tasks\<rparr>)"
| "sched_step (Acquired i) st =
     (if stage_of st i = Some Awaiting \<and> 0 < ss_permits st
      then set_stage i Executing (st\<lparr>ss_permits := ss_permits st - 1\<rparr>) else st)"
| "sched_step (AcquireCancelled i) st =
     (if stage_of st i = Some Awaiting \<and> ss_cancelled st then set_stage i Refused st else st)"
| "sched_step (TaskEnded i) st =
     (if stage_of st i = Some Executing then set_stage i Executed (st\<lparr>ss_permits := Suc (ss_permits st)\<rparr>) else st)"
| "sched_step AllDone st =
     (if ss_phase st = Working \<and> (\<forall>w\<in>set (ss_workers st). snd w \<in> {Refused, Executed})
      then st\<lparr>ss_phase := Selecting\<rparr> else st)"
| "sched_step TickerFires st = st\<lparr>ss_tick := True\<rparr>"
| "sched_step TakeTick st =
     (if ss_phase st = Selecting \<and> ss_tick st then st\<lparr>ss_phase := Fetching, ss_tick := False\<rparr> else st)"
| "sched_step TakeDone st =
     (if ss_phase st = Selecting \<and> ss_cancelled st then st\<lparr>ss_phase := StartReturned\<rparr> else st)"
| "sched_step CtxCancelled st = st\<lparr>ss_cancelled := True\<rparr>"

definition sched_run :: "sched_event list \<Rightarrow> sched_state \<Rightarrow> sched_state" where
  "sched_run es st = fold sched_step es st"

section \<open>Properties\<close>

definition executing :: "sched_state \<Rightarrow> nat" where
  "executing st = length (filter (\<lambda>w. snd w = Executing) (ss_workers st))"

definition awaiting :: "sched_state \<Rightarrow> nat" where
  "awaiting st = length (filter (\<lambda>w. snd w = Awaiting) (ss_workers st))"

text \<open>Outside a poll no goroutine is left, and the permits are those nobody uses.\<close>

definition sched_ok :: "sched_state \<Rightarrow> bool" where
  "sched_ok st \<longleftrightarrow> executing st + ss_permits st = maxConcurrentTasks \<and>
     (ss_phase st \<noteq> Working \<longrightarrow> (\<forall>w\<in>set (ss_workers st). snd w \<in> {Refused, Executed})) \<and>
     ((\<exists>w\<in>set (ss_workers st). snd w = Refused) \<longrightarrow> ss_cancelled st) \<and>
     (ss_phase st = StartReturned \<longrightarrow> ss_cancelled st)"

lemma count_update:
  assumes "i < length ws" and "snd (ws ! i) = a"
  shows "length (filter (\<lambda>w. snd w = s) (ws[i := (y, x)])) + (if a = s then 1 else 0) =
    length (filter (\<lambda>w. snd w = s) ws) + (if x = s then 1 else 0)"
  using assms by (induction ws arbitrary: i) (auto simp: less_Suc_eq_0_disj split: if_splits)

lemma set_stage_workers: "ss_workers (set_stage i x st) = (ss_workers st)[i := (fst (ss_workers st ! i), x)]"
  by (simp add: set_stage_def)

lemma set_stage_counts:
  assumes "stage_of st i = Some a"
  shows "executing (set_stage i x st) + (if a = Executing then 1 else 0) = executing st + (if x = Executing then 1 else 0)"
    and "awaiting (set_stage i x st) + (if a = Awaiting then 1 else 0) = awaiting st + (if x = Awaiting then 1 else 0)"
proof -
  have i: "i < length (ss_workers st)" "snd (ss_workers st ! i) = a" using assms by (auto simp: stage_of_def split: if_splits)
  show "executing (set_stage i x st) + (if a = Executing then 1 else 0) = executing st + (if x = Executing then 1 else 0)"
    "awaiting (set_stage i x st) + (if a = Awaiting then 1 else 0) = awaiting st + (if x = Awaiting then 1 else 0)"
    using count_update [OF i, of Executing "fst (ss_workers st ! i)" x] count_update [OF i, of Awaiting "fst (ss_workers st ! i)" x]
    by (simp_all only: set_stage_workers executing_def awaiting_def)
qed

lemma set_stage_simps [simp]:
  "ss_phase (set_stage i x st) = ss_phase st" "ss_permits (set_stage i x st) = ss_permits st"
  "ss_cancelled (set_stage i x st) = ss_cancelled st" "ss_tick (set_stage i x st) = ss_tick st"
  by (simp_all add: set_stage_def)

lemma frame_simps [simp]:
  "stage_of (st\<lparr>ss_permits := n\<rparr>) = stage_of st" "executing (st\<lparr>ss_permits := n\<rparr>) = executing st" "awaiting (st\<lparr>ss_permits := n\<rparr>) = awaiting st"
  "executing (st\<lparr>ss_phase := p\<rparr>) = executing st" "executing (st\<lparr>ss_tick := b\<rparr>) = executing st" "executing (st\<lparr>ss_cancelled := b\<rparr>) = executing st"
  by (simp_all add: stage_of_def executing_def awaiting_def fun_eq_iff)

lemma stage_in: "stage_of st i = Some a \<Longrightarrow> \<exists>w\<in>set (ss_workers st). snd w = a"
  by (auto simp: stage_of_def split: if_splits)

lemma set_stage_in:
  assumes "w \<in> set (ss_workers (set_stage i x st))"
  shows "w \<in> set (ss_workers st) \<or> snd w = x"
  using assms set_update_subset_insert [of "ss_workers st" i] by (fastforce simp: set_stage_def)

lemma sched_ok_stage:
  assumes ok: "sched_ok st" and a: "stage_of st i = Some a" "a \<in> {Awaiting, Executing}"
    and n: "executing (set_stage i x st) + n = maxConcurrentTasks" and x: "x = Refused \<Longrightarrow> ss_cancelled st"
  shows "sched_ok (set_stage i x (st\<lparr>ss_permits := n\<rparr>))"
proof -
  obtain w where "w \<in> set (ss_workers st)" "snd w = a" using stage_in [OF a(1)] by (elim bexE)
  then have "ss_phase st = Working" using ok a(2) unfolding sched_ok_def by auto
  moreover have "executing (set_stage i x (st\<lparr>ss_permits := n\<rparr>)) = executing (set_stage i x st)"
    by (simp add: executing_def set_stage_def)
  moreover have "\<And>w. w \<in> set (ss_workers (set_stage i x (st\<lparr>ss_permits := n\<rparr>))) \<Longrightarrow> w \<in> set (ss_workers st) \<or> snd w = x"
    using set_stage_in [of _ i x st] by (simp add: set_stage_def)
  ultimately show ?thesis using ok n x unfolding sched_ok_def by auto
qed

lemma sched_ok_step:
  assumes ok: "sched_ok st"
  shows "sched_ok (sched_step ev st)"
proof (cases ev)
  case (Acquired i)
  then show ?thesis
    using ok set_stage_counts(1) [of st i Awaiting Executing] sched_ok_stage [OF ok, of i Awaiting Executing "ss_permits st - 1"]
    by (auto simp: sched_ok_def [of st])
next
  case (AcquireCancelled i)
  then show ?thesis
    using ok set_stage_counts(1) [of st i Awaiting Refused] sched_ok_stage [OF ok, of i Awaiting Refused "ss_permits st"]
    by (auto simp: sched_ok_def [of st])
next
  case (TaskEnded i)
  then show ?thesis
    using ok set_stage_counts(1) [of st i Executing Executed] sched_ok_stage [OF ok, of i Executing Executed "Suc (ss_permits st)"]
    by (auto simp: sched_ok_def [of st])
next
  case (Fetched r)
  have "executing st = 0" if "ss_phase st = Fetching"
    using ok that unfolding sched_ok_def executing_def by (auto simp: filter_empty_conv)
  then show ?thesis
    using ok Fetched by (auto simp: sched_ok_def executing_def filter_empty_conv split: sum.split)
qed (use ok in \<open>auto simp: sched_ok_def\<close>)

lemma sched_ok_run:
  assumes "Scheduler_New has_store has_executor interval = Inr s"
  shows "sched_ok (sched_run es (sched_start s))"
proof -
  have "sched_ok st \<Longrightarrow> sched_ok (fold sched_step es st)" for st
    by (induction es arbitrary: st) (simp_all add: sched_ok_step)
  moreover have "sched_ok (sched_start s)"
    using assms by (auto simp: Scheduler_New_def sched_ok_def sched_start_def executing_def split: if_splits)
  ultimately show ?thesis by (simp add: sched_run_def)
qed

text \<open>
  In every interleaving at most three tasks run at the same time; between two polls no task is
  running and every permit is free; \<open>Start\<close> returns only after the context was cancelled; and
  a task that got no permit was cancelled.
\<close>

theorem sched_bounded:
  assumes "Scheduler_New has_store has_executor interval = Inr s"
  shows "let st = sched_run es (sched_start s)
         in executing st \<le> 3 \<and>
            (ss_phase st \<noteq> Working \<longrightarrow> executing st = 0 \<and> ss_permits st = 3) \<and>
            (ss_phase st = StartReturned \<longrightarrow> ss_cancelled st) \<and>
            (\<not> ss_cancelled st \<longrightarrow> Refused \<notin> snd ` set (ss_workers st))"
proof -
  let ?st = "sched_run es (sched_start s)"
  have ok: "sched_ok ?st" by (rule sched_ok_run [OF assms])
  then have sum: "executing ?st + ss_permits ?st = 3" by (simp add: sched_ok_def maxConcurrentTasks_def)
  have idle: "executing ?st = 0" if "ss_phase ?st \<noteq> Working"
    using ok that unfolding sched_ok_def executing_def by (auto simp: filter_empty_conv)
  have "ss_phase ?st = StartReturned \<Longrightarrow> ss_cancelled ?st" "\<not> ss_cancelled ?st \<Longrightarrow> Refused \<notin> snd ` set (ss_workers ?st)"
    using ok unfolding sched_ok_def by auto
  then show ?thesis using sum idle by (auto simp: Let_def)
qed

text \<open>A poll cannot get stuck: while a task waits or runs, one of them can go on, and it takes two events per task.\<close>

lemma poll_progress:
  assumes ok: "sched_ok st" and busy: "0 < 2 * awaiting st + executing st"
  shows "\<exists>ev. 2 * awaiting (sched_step ev st) + executing (sched_step ev st) < 2 * awaiting st + executing st \<and>
    ss_phase (sched_step ev st) = ss_phase st"
proof (cases "executing st = 0")
  case False
  then obtain w where "w \<in> set (ss_workers st)" "snd w = Executing"
    by (auto simp: executing_def filter_empty_conv)
  then obtain i where i: "stage_of st i = Some Executing" unfolding stage_of_def in_set_conv_nth by metis
  then show ?thesis
    using set_stage_counts [OF i, of Executed]
    by (intro exI [of _ "TaskEnded i"]) (simp add: set_stage_def executing_def awaiting_def)
next
  case True
  then have free: "0 < ss_permits st" using ok by (simp add: sched_ok_def maxConcurrentTasks_def)
  obtain w where "w \<in> set (ss_workers st)" "snd w = Awaiting"
    using True busy by (auto simp: awaiting_def filter_empty_conv)
  then obtain i where i: "stage_of st i = Some Awaiting" unfolding stage_of_def in_set_conv_nth by metis
  then show ?thesis
    using set_stage_counts [OF i, of Executing] free
    by (intro exI [of _ "Acquired i"]) (simp add: set_stage_def executing_def awaiting_def)
qed

theorem poll_finishes:
  assumes "sched_ok st" and "ss_phase st = Working"
  shows "\<exists>es. length es \<le> Suc (2 * awaiting st + executing st) \<and> ss_phase (sched_run es st) = Selecting"
  using assms
proof (induction "2 * awaiting st + executing st" arbitrary: st rule: less_induct)
  case less
  show ?case
  proof (cases "2 * awaiting st + executing st = 0")
    case True
    then have "\<forall>w\<in>set (ss_workers st). snd w \<noteq> Awaiting \<and> snd w \<noteq> Executing"
      by (auto simp: awaiting_def executing_def filter_empty_conv)
    then have "\<forall>w\<in>set (ss_workers st). snd w \<in> {Refused, Executed}" using worker_stage.exhaust by blast
    then show ?thesis using less.prems by (intro exI [of _ "[AllDone]"]) (simp add: sched_run_def)
  next
    case False
    then obtain ev where ev: "2 * awaiting (sched_step ev st) + executing (sched_step ev st) < 2 * awaiting st + executing st"
      "ss_phase (sched_step ev st) = Working"
      using poll_progress [OF less.prems(1)] less.prems(2) by auto
    obtain es where "length es \<le> Suc (2 * awaiting (sched_step ev st) + executing (sched_step ev st))"
      "ss_phase (sched_run es (sched_step ev st)) = Selecting"
      using less.hyps [OF ev(1) sched_ok_step [OF less.prems(1)] ev(2)] by blast
    then show ?thesis using ev(1) by (intro exI [of _ "ev # es"]) (simp add: sched_run_def)
  qed
qed

text \<open>An interval that is not positive is accepted by the constructor and makes \<open>Start\<close> panic.\<close>

lemma sched_interval_panics:
  "Scheduler_New True True 0 = Inr \<lparr>sc_pollInterval = 0, sc_semaphore = maxConcurrentTasks\<rparr>"
  "ss_phase (sched_start \<lparr>sc_pollInterval = 0, sc_semaphore = maxConcurrentTasks\<rparr>) = StartPanicked"
  by (simp_all add: Scheduler_New_def sched_start_def)

end
