(* ===== verification/Nats_Life.thy ===== *)
theory Nats_Life
  imports Agent_Ipc Queue_Model
begin

text \<open>
  The life of what stands on a NATS connection: the constructors and \<open>Close\<close> of the queue
  (\<open>internal/queue/nats_queue.go\<close>) and of the broker (\<open>internal/ipc/nats_broker.go\<close>), the two
  goroutines of \<open>consume\<close> and how they end, and the reader of the agent's client, which is
  started once (\<open>pkg/agent/ipc.go\<close>).
\<close>

section \<open>Construction and closing\<close>

record queue_handle =
  qh_closed :: bool

text \<open>\<open>js\<close> is the answer of \<open>jetstream.New\<close>; the flags say whether an argument is not nil.\<close>

definition NewNATSQueue :: "bool \<Rightarrow> bool \<Rightarrow> unit result \<Rightarrow> queue_handle result" where
  "NewNATSQueue has_conn has_gas js =
     (if \<not> has_conn then Inl (Errorf ''nats queue: connection is required'')
      else if \<not> has_gas then Inl (Errorf ''nats queue: groupActiveStore is required'')
      else case js of
        Inl err \<Rightarrow> Inl (Wrapf ''nats queue: jetstream'' err)
      | Inr _ \<Rightarrow> Inr \<lparr>qh_closed = False\<rparr>)"

definition Queue_Close :: "queue_handle \<Rightarrow> unit result \<times> queue_handle" where
  "Queue_Close q = (if qh_closed q then (Inr (), q) else (Inr (), q\<lparr>qh_closed := True\<rparr>))"

definition NewNATSBroker :: "bool \<Rightarrow> unit result \<Rightarrow> consumers result" where
  "NewNATSBroker has_conn js =
     (if \<not> has_conn then Inl (Errorf ''nats broker: connection is required'')
      else case js of
        Inl err \<Rightarrow> Inl (Wrapf ''nats broker: jetstream'' err)
      | Inr _ \<Rightarrow> Inr \<lparr>cn_closed = False, cn_nextID = 0, cn_cleanups = [], cn_cancelled = [], cn_stopped = [], cn_closedCh = False\<rparr>)"

definition ConnectNATS :: "(string \<Rightarrow> string \<Rightarrow> string \<Rightarrow> 'c result) \<Rightarrow> string \<Rightarrow> string \<Rightarrow> string \<Rightarrow> 'c result" where
  "ConnectNATS connect url user pass =
     (case connect url user pass of Inl err \<Rightarrow> Inl (Wrapf ''connect nats'' err) | Inr nc \<Rightarrow> Inr nc)"

lemma closing_twice:
  "fst (Queue_Close q) = Inr ()" "snd (Queue_Close (snd (Queue_Close q))) = snd (Queue_Close q)"
  "fst (broker_Close c) = Inr ()" "snd (broker_Close (snd (broker_Close c))) = snd (broker_Close c)"
  by (simp_all add: Queue_Close_def broker_Close_def)

lemma new_broker_inv: "NewNATSBroker has_conn js = Inr c \<Longrightarrow> consumers_inv c"
  by (auto simp: NewNATSBroker_def consumers_inv_def split: if_splits sum.splits)

section \<open>The goroutines of a subscription\<close>

text \<open>
  The consumer is at the top of its loop, waits in \<open>iter.Next\<close>, hands a message over, or has
  ended. The watcher waits for the context, for the closing of the broker or for the end of
  the consumer, and stops the iterator in the first case.
\<close>

datatype consumer_at = AtTop | InNext | Handing | ConsumerEnded

record subscription =
  su_consumer :: consumer_at
  su_watching :: bool
  su_ctx :: bool
  su_closed :: bool
  su_iterStopped :: bool
  su_done :: bool

datatype sub_event = TopOfLoop | NextMessage | NextFails | HandedOver | HandOverStops | AckFails | WatcherWakes | CtxEnds | BrokerCloses

definition sub_start :: subscription where
  "sub_start = \<lparr>su_consumer = AtTop, su_watching = True, su_ctx = False, su_closed = False, su_iterStopped = False, su_done = False\<rparr>"

text \<open>The deferred calls of the consumer: stop the iterator, cancel the context, close the channels.\<close>

definition consumer_returns :: "subscription \<Rightarrow> subscription" where
  "consumer_returns s = s\<lparr>su_consumer := ConsumerEnded, su_iterStopped := True, su_ctx := True, su_done := True\<rparr>"

fun sub_step :: "sub_event \<Rightarrow> subscription \<Rightarrow> subscription" where
  "sub_step TopOfLoop s =
     (if su_consumer s \<noteq> AtTop then s
      else if su_ctx s \<or> su_closed s then consumer_returns s else s\<lparr>su_consumer := InNext\<rparr>)"
| "sub_step NextMessage s = (if su_consumer s = InNext \<and> \<not> su_iterStopped s then s\<lparr>su_consumer := Handing\<rparr> else s)"
| "sub_step NextFails s = (if su_consumer s = InNext then consumer_returns s else s)"
| "sub_step HandedOver s = (if su_consumer s = Handing then s\<lparr>su_consumer := AtTop\<rparr> else s)"
| "sub_step HandOverStops s = (if su_consumer s = Handing \<and> (su_ctx s \<or> su_closed s) then consumer_returns s else s)"
| "sub_step AckFails s = (if su_consumer s = Handing then consumer_returns s else s)"
| "sub_step WatcherWakes s =
     (if \<not> su_watching s then s
      else if su_ctx s then s\<lparr>su_watching := False, su_iterStopped := True\<rparr>
      else if su_closed s \<or> su_done s then s\<lparr>su_watching := False\<rparr> else s)"
| "sub_step CtxEnds s = s\<lparr>su_ctx := True\<rparr>"
| "sub_step BrokerCloses s = s\<lparr>su_closed := True, su_ctx := True, su_iterStopped := True\<rparr>"

definition sub_run :: "sub_event list \<Rightarrow> subscription \<Rightarrow> subscription" where
  "sub_run es s = fold sub_step es s"

text \<open>An iterator is stopped only when the context has ended, so that the consumer ends without an error message.\<close>

definition sub_ok :: "subscription \<Rightarrow> bool" where
  "sub_ok s \<longleftrightarrow> (su_iterStopped s \<longrightarrow> su_ctx s) \<and> (su_closed s \<longrightarrow> su_ctx s \<and> su_iterStopped s) \<and>
     (su_done s \<longleftrightarrow> su_consumer s = ConsumerEnded) \<and> (su_done s \<longrightarrow> su_ctx s \<and> su_iterStopped s) \<and>
     (\<not> su_watching s \<longrightarrow> su_ctx s \<and> su_iterStopped s)"

lemma sub_ok_step: "sub_ok s \<Longrightarrow> sub_ok (sub_step ev s)"
  by (cases ev) (auto simp: sub_ok_def consumer_returns_def)

lemma sub_ok_run: "sub_ok (sub_run es sub_start)"
proof -
  have "sub_ok s \<Longrightarrow> sub_ok (fold sub_step es s)" for s
    by (induction es arbitrary: s) (simp_all add: sub_ok_step)
  moreover have "sub_ok sub_start" by (simp add: sub_ok_def sub_start_def)
  ultimately show ?thesis by (simp add: sub_run_def)
qed

text \<open>How many steps the two goroutines have left once the context has ended.\<close>

definition steps_left :: "subscription \<Rightarrow> nat" where
  "steps_left s = (case su_consumer s of Handing \<Rightarrow> 2 | AtTop \<Rightarrow> 1 | InNext \<Rightarrow> 3 | ConsumerEnded \<Rightarrow> 0) + (if su_watching s then 1 else 0)"

text \<open>
  What the goroutines do by themselves; \<open>iter.Next\<close> returns when the iterator is stopped, and the
  channel of a reader that is gone is left by the end of the context.
\<close>

fun own_step :: "subscription \<Rightarrow> sub_event option" where
  "own_step s =
     (if su_watching s \<and> (su_ctx s \<or> su_closed s \<or> su_done s) then Some WatcherWakes
      else case su_consumer s of
        AtTop \<Rightarrow> Some TopOfLoop
      | InNext \<Rightarrow> if su_iterStopped s then Some NextFails else None
      | Handing \<Rightarrow> if su_ctx s \<or> su_closed s then Some HandOverStops else None
      | ConsumerEnded \<Rightarrow> None)"

text \<open>
  No goroutine is left behind: in every interleaving, once the context has ended or the broker was
  closed, at most four steps of the two goroutines, which wait for nothing outside, end both.
\<close>

theorem subscription_ends:
  assumes "su_ctx (sub_run es sub_start)"
  shows "\<exists>fs. length fs \<le> 4 \<and> (let s = sub_run (es @ fs) sub_start in su_consumer s = ConsumerEnded \<and> \<not> su_watching s)"
proof -
  have own: "\<exists>fs. length fs \<le> steps_left s \<and> su_consumer (sub_run fs s) = ConsumerEnded \<and> \<not> su_watching (sub_run fs s)"
    if "sub_ok s" "su_ctx s" for s
    using that
  proof (induction "steps_left s" arbitrary: s rule: less_induct)
    case less
    show ?case
    proof (cases "own_step s")
      case None
      then have "su_consumer s = ConsumerEnded \<and> \<not> su_watching s"
        using less.prems by (auto simp: sub_ok_def split: if_splits consumer_at.splits)
      then show ?thesis by (intro exI [of _ "[]"]) (simp add: sub_run_def)
    next
      case (Some ev)
      have "steps_left (sub_step ev s) < steps_left s" "su_ctx (sub_step ev s)"
        using Some less.prems
        by (auto simp: steps_left_def sub_ok_def consumer_returns_def split: if_splits consumer_at.splits)
      then obtain fs where "length fs \<le> steps_left (sub_step ev s)" "su_consumer (sub_run fs (sub_step ev s)) = ConsumerEnded"
          "\<not> su_watching (sub_run fs (sub_step ev s))"
        using less.hyps [of "sub_step ev s"] sub_ok_step [OF less.prems(1)] by blast
      then show ?thesis
        using \<open>steps_left (sub_step ev s) < steps_left s\<close> by (intro exI [of _ "ev # fs"]) (simp add: sub_run_def)
    qed
  qed
  have "steps_left s \<le> 4" for s by (simp add: steps_left_def split: consumer_at.split)
  moreover obtain fs where "length fs \<le> steps_left (sub_run es sub_start)"
      "su_consumer (sub_run fs (sub_run es sub_start)) = ConsumerEnded" "\<not> su_watching (sub_run fs (sub_run es sub_start))"
    using own [OF sub_ok_run assms] by blast
  ultimately show ?thesis by (intro exI [of _ fs]) (auto simp: sub_run_def Let_def intro: le_trans)
qed

section \<open>The reader of the agent\<close>

record reader_once =
  ro_done :: bool
  ro_err :: fault
  ro_starts :: nat

text \<open>\<open>readOnce.Do\<close>: the first call starts the reader, every call answers with its outcome; the channels are those of the first.\<close>

definition ReadInput_once :: "unit result \<Rightarrow> reader_once \<Rightarrow> unit result \<times> reader_once" where
  "ReadInput_once started r =
     (let r = (if ro_done r then r
               else r\<lparr>ro_done := True, ro_starts := Suc (ro_starts r), ro_err := (case started of Inl err \<Rightarrow> Some err | Inr _ \<Rightarrow> None)\<rparr>)
      in (case ro_err r of Some err \<Rightarrow> Inl err | None \<Rightarrow> Inr (), r))"

fun reads_once :: "unit result list \<Rightarrow> reader_once \<Rightarrow> unit result list \<times> reader_once" where
  "reads_once [] r = ([], r)"
| "reads_once (s # ss) r =
     (case ReadInput_once s r of (a, r) \<Rightarrow> (case reads_once ss r of (as, r) \<Rightarrow> (a # as, r)))"

lemma reads_after:
  assumes "ro_done r"
  shows "reads_once ss r = (replicate (length ss) (case ro_err r of Some err \<Rightarrow> Inl err | None \<Rightarrow> Inr ()), r)"
  using assms by (induction ss) (simp_all add: ReadInput_once_def)

text \<open>However often the input is read, one reader is started and every call gets the answer of the first.\<close>

lemma reader_started_once:
  assumes "\<not> ro_done r"
  shows "case reads_once (s # ss) r of (as, r') \<Rightarrow> as = replicate (Suc (length ss)) s \<and> ro_starts r' = Suc (ro_starts r)"
  using assms by (cases s) (simp_all add: ReadInput_once_def reads_after)

end
