(* ===== verification/Chatgpt_Wire.thy ===== *)
theory Chatgpt_Wire
  imports Chatgpt_Auth Complex_Main
begin

text \<open>
  The wire formats and error texts of \<open>internal/auth/chatgpt\<close>: the configuration of the client, the
  polling interval the issuer sends as a number or as a string (\<open>device_flow.go\<close>), and the
  accessors and text of \<open>RefreshError\<close> (\<open>refresh.go\<close>). The number parsers of \<open>encoding/json\<close> and
  \<open>strconv\<close> are a parameter; a number is its exact value, and the conversion to a
  \<open>time.Duration\<close> cuts off the fraction.
\<close>

section \<open>Configuration\<close>

record chatgpt_Config =
  cfg_Issuer :: string
  cfg_ClientID :: string
  cfg_PollTimeout :: duration
  cfg_PollInterval :: duration

definition NewClient_of :: "chatgpt_Config \<Rightarrow> Client result" where
  "NewClient_of cfg = NewClient (cfg_Issuer cfg) (cfg_ClientID cfg) (cfg_PollTimeout cfg) (cfg_PollInterval cfg)"

lemma NewClient_of_defaults:
  "NewClient_of \<lparr>cfg_Issuer = [], cfg_ClientID = [], cfg_PollTimeout = 0, cfg_PollInterval = 0\<rparr> =
     Inr \<lparr>cg_issuer = DefaultIssuer, cg_clientID = ClientID, cg_pollTimeout = DefaultPollTimeout, cg_pollOverride = 0\<rparr>"
  by code_simp

section \<open>The interval\<close>

record number_lib =
  nl_String :: "string \<Rightarrow> string result"
  nl_Float :: "string \<Rightarrow> rat result"
  nl_ParseFloat :: "string \<Rightarrow> rat result"

definition cut_fraction :: "rat \<Rightarrow> int" where
  "cut_fraction x = (if 0 \<le> x then \<lfloor>x\<rfloor> else \<lceil>x\<rceil>)"

text \<open>\<open>i\<close> is the value before; it is kept for \<open>null\<close> and for an empty string.\<close>

definition interval_UnmarshalJSON :: "number_lib \<Rightarrow> string \<Rightarrow> duration \<Rightarrow> duration result" where
  "interval_UnmarshalJSON l b i =
     (if b = [] \<or> b = ''null'' then Inr i
      else case (if hd b = CHR 0x22
                 then (case nl_String l b of
                         Inl err \<Rightarrow> Inl err
                       | Inr s \<Rightarrow> if s = [] then Inr None
                                  else map_sum (Wrapf ''chatgpt: parse interval'') Some (nl_ParseFloat l s))
                 else map_sum (Wrapf ''chatgpt: parse interval'') Some (nl_Float l b)) of
        Inl err \<Rightarrow> Inl err
      | Inr None \<Rightarrow> Inr i
      | Inr (Some secs) \<Rightarrow> Inr (cut_fraction (secs * of_int Second)))"

record userCodeResponse =
  uc_DeviceAuthID :: string
  uc_UserCode :: string
  uc_UserCodeAlt :: string
  uc_Interval :: "string option"

text \<open>The decoder of the envelope, over one that gives the bytes of the interval when it is there.\<close>

definition decode_userCode :: "number_lib \<Rightarrow> (string \<Rightarrow> userCodeResponse result) \<Rightarrow> string \<Rightarrow> (string \<times> string \<times> string \<times> duration) result" where
  "decode_userCode l envelope body =
     (case envelope body of
        Inl err \<Rightarrow> Inl err
      | Inr r \<Rightarrow>
          (case (case uc_Interval r of None \<Rightarrow> Inr 0 | Some b \<Rightarrow> interval_UnmarshalJSON l b 0) of
             Inl err \<Rightarrow> Inl err
           | Inr i \<Rightarrow> Inr (uc_DeviceAuthID r, uc_UserCode r, uc_UserCodeAlt r, i)))"

lemma cut_fraction_int [simp]: "cut_fraction (of_int n) = n"
  by (simp add: cut_fraction_def)

text \<open>The issuer may send a number or the same number in quotes; both give the same interval.\<close>

theorem interval_forms_agree:
  assumes "nl_Float l b = Inr x" and "b \<noteq> []" and "b \<noteq> ''null''" and "hd b \<noteq> CHR 0x22"
    and "nl_String l q = Inr b" and "hd q = CHR 0x22" and "q \<noteq> []" and "nl_ParseFloat l b = Inr x"
  shows "interval_UnmarshalJSON l b i = interval_UnmarshalJSON l q i"
    and "interval_UnmarshalJSON l b i = Inr (cut_fraction (x * of_int Second))"
  using assms by (auto simp: interval_UnmarshalJSON_def)

text \<open>
  Whatever the issuer sends as interval, a missing, a negative or a fractional one, a device code
  that is accepted has a positive interval, so that the polling loop waits between its requests.
\<close>

theorem device_interval_positive:
  assumes "RequestDeviceCode (js\<lparr>js_userCode := decode_userCode l envelope\<rparr>) c a = Inr dc"
  shows "0 < dc_Interval dc"
  using assms
  by (auto simp: RequestDeviceCode_def Let_def DefaultPollInterval_def
      split: http_answer.splits sum.splits if_splits)

section \<open>RefreshError\<close>

definition RefreshError_Permanent :: "RefreshError \<Rightarrow> bool" where
  "RefreshError_Permanent e \<longleftrightarrow> re_kind e = RefreshErrorPermanent"

fun reason_text :: "RefreshFailureReason \<Rightarrow> string" where
  "reason_text RefreshFailureExpired = ''refresh_token_expired''"
| "reason_text RefreshFailureReused = ''refresh_token_reused''"
| "reason_text RefreshFailureRevoked = ''refresh_token_invalidated''"
| "reason_text RefreshFailureUnknown = ''unknown''"

definition RefreshError_Error :: "RefreshError \<Rightarrow> string" where
  "RefreshError_Error e =
     ''chatgpt: refresh failed (kind='' @ (if re_kind e = RefreshErrorPermanent then ''permanent'' else ''transient'') @
     '', status='' @ show_nat (re_status e) @ '', reason='' @ reason_text (re_reason e) @ ''): '' @
     (case re_cause e of Some err \<Rightarrow> error_text err | None \<Rightarrow> truncate_text (re_body e) 200)"

lemma reason_text_inj: "inj reason_text"
proof (rule injI)
  fix x y assume "reason_text x = reason_text y"
  then show "x = y" by (cases x; cases y) simp_all
qed

text \<open>The text of an error without a cause quotes at most 200 bytes of the body and the mark of the cut.\<close>

lemma RefreshError_text_bounded:
  assumes "re_cause e = None"
  shows "length (RefreshError_Error e) \<le> 295 + length (show_nat (re_status e))"
proof -
  have "length (truncate_text (re_body e) 200) \<le> 203" by (simp add: truncate_text_def)
  moreover have "length (reason_text (re_reason e)) \<le> 25" by (cases "re_reason e") simp_all
  ultimately show ?thesis using assms by (simp add: RefreshError_Error_def)
qed

text \<open>Only a permanent error asks for a new sign-in, and \<open>Refresh\<close> makes one only for a classified answer of the issuer.\<close>

lemma refresh_kinds:
  "newTransientRefresh status body cause = Refreshing e \<Longrightarrow> \<not> RefreshError_Permanent e \<and> re_reason e = RefreshFailureUnknown"
  "newPermanentRefresh status body reason = Refreshing e \<Longrightarrow> RefreshError_Permanent e \<and> re_reason e = reason"
  by (auto simp: newTransientRefresh_def newPermanentRefresh_def RefreshError_Permanent_def)

end
