(* ===== verification/Observability.thy ===== *)
theory Observability
  imports Api_Services Cred_Proxy Grpc_Server Sandbox_Watch
begin

text \<open>
  What the program reports about itself: \<open>internal/metrics/metrics.go\<close>, the metrics middleware and
  its writer in \<open>internal/credproxy/proxy.go\<close>, and the logging interceptor of
  \<open>internal/server/interceptors.go\<close>. The Prometheus client is a parameter: a collector is a
  declaration, an update is recorded, and \<open>Gather\<close> is a function of all updates so far. With it
  the numbers of the \<open>GetMetrics\<close> call are connected to the updates the program makes.
\<close>

section \<open>Collectors\<close>

datatype collector_kind = CounterKind | GaugeKind | HistogramKind

text \<open>The buckets of a histogram: a list, or one of the two makers of the library.\<close>

datatype bucket_spec = NoBuckets | DefBuckets | ExponentialBuckets nat nat nat | BucketList "rat list"

record collector =
  co_name :: string
  co_help :: string
  co_kind :: collector_kind
  co_labels :: "string list"
  co_buckets :: bucket_spec

abbreviation collector_of :: "collector_kind \<Rightarrow> string \<Rightarrow> string \<Rightarrow> string list \<Rightarrow> bucket_spec \<Rightarrow> collector" where
  "collector_of k n h ls bs \<equiv> \<lparr>co_name = n, co_help = h, co_kind = k, co_labels = ls, co_buckets = bs\<rparr>"

definition SandboxesCreated :: collector where
  "SandboxesCreated = collector_of CounterKind ''kraclaw_sandboxes_created_total''
     ''Total number of sandboxes created'' [] NoBuckets"
definition SandboxesCompleted :: collector where
  "SandboxesCompleted = collector_of CounterKind ''kraclaw_sandboxes_completed_total''
     ''Total number of sandboxes completed by status'' [''status''] NoBuckets"
definition SandboxDuration :: collector where
  "SandboxDuration = collector_of HistogramKind ''kraclaw_sandbox_duration_seconds''
     ''Duration of sandbox executions'' [] (ExponentialBuckets 1 2 12)"
definition mtr_ActiveSandboxes :: collector where
  "mtr_ActiveSandboxes = collector_of GaugeKind ''kraclaw_active_sandboxes''
     ''Number of currently active sandboxes'' [] NoBuckets"
definition MessagesReceived :: collector where
  "MessagesReceived = collector_of CounterKind ''kraclaw_messages_received_total''
     ''Total messages received by channel'' [''channel''] NoBuckets"
definition MessagesSent :: collector where
  "MessagesSent = collector_of CounterKind ''kraclaw_messages_sent_total''
     ''Total messages sent by channel'' [''channel''] NoBuckets"
definition QueueDepth :: collector where
  "QueueDepth = collector_of GaugeKind ''kraclaw_queue_depth''
     ''Number of pending messages per group'' [''group''] NoBuckets"
definition ProxyRequests :: collector where
  "ProxyRequests = collector_of CounterKind ''kraclaw_proxy_requests_total''
     ''Total credential proxy requests'' [''status''] NoBuckets"
definition ProxyDuration :: collector where
  "ProxyDuration = collector_of HistogramKind ''kraclaw_proxy_request_duration_seconds''
     ''Duration of credential proxy requests'' [] DefBuckets"
definition TasksExecuted :: collector where
  "TasksExecuted = collector_of CounterKind ''kraclaw_tasks_executed_total''
     ''Total scheduled tasks executed by status'' [''status''] NoBuckets"
definition IPCMessagesProcessed :: collector where
  "IPCMessagesProcessed = collector_of CounterKind ''kraclaw_ipc_messages_processed_total''
     ''Total IPC messages processed from agents'' [] NoBuckets"
definition SandboxSpawnDuration :: collector where
  "SandboxSpawnDuration = collector_of HistogramKind ''kraclaw_sandbox_spawn_duration_seconds''
     ''Cold-start latency per phase (phase label). ensure_stream: IPC stream/consumer pre-creation, measured before CreateSandbox. crd_create: successful CreateSandbox call only. pod_scheduled/pod_ready: measured from the Sandbox CreationTimestamp to the respective condition. first_output: from CreateSandbox start to the first agent IPC output.'' [''phase''] (BucketList [1/10, 1/4, 1/2, 1, 2, 3, 5, 8, 13, 21])"

definition collectors :: "collector list" where
  "collectors = [SandboxesCreated, SandboxesCompleted, SandboxDuration, mtr_ActiveSandboxes, MessagesReceived, MessagesSent,
     QueueDepth, ProxyRequests, ProxyDuration, TasksExecuted, IPCMessagesProcessed, SandboxSpawnDuration]"

lemmas collector_defs = SandboxesCreated_def SandboxesCompleted_def SandboxDuration_def mtr_ActiveSandboxes_def
  MessagesReceived_def MessagesSent_def QueueDepth_def ProxyRequests_def ProxyDuration_def TasksExecuted_def
  IPCMessagesProcessed_def SandboxSpawnDuration_def

text \<open>\<open>promauto\<close> panics on a name that is taken or not well formed; no declaration has this.\<close>

definition metric_name_ok :: "string \<Rightarrow> bool" where
  "metric_name_ok s \<longleftrightarrow> s \<noteq> [] \<and> list_all (\<lambda>c. c \<in> set ''abcdefghijklmnopqrstuvwxyz_'') s"

lemma collectors_register: "distinct (map co_name collectors) \<and> list_all metric_name_ok (map co_name collectors)"
  unfolding collectors_def collector_defs metric_name_ok_def by code_simp

section \<open>Updates\<close>

datatype metric_update = Inc collector "string list" | Observe collector "string list" rat

definition PhaseEnsureStream :: string where "PhaseEnsureStream = ''ensure_stream''"
definition PhaseCRDCreate :: string where "PhaseCRDCreate = ''crd_create''"
definition PhaseFirstOutput :: string where "PhaseFirstOutput = ''first_output''"

definition ObserveSpawnPhase :: "string \<Rightarrow> duration \<Rightarrow> metric_update" where
  "ObserveSpawnPhase p d = Observe SandboxSpawnDuration [p] (of_int d / of_int Second)"

text \<open>What a handler does to its writer; the wrapper keeps the last status code and passes everything on.\<close>

datatype write_op = WriteHeader nat | WriteBody string | FlushNow

record responseWriter =
  rw_statusCode :: nat
  rw_inner :: "write_op list"

fun rw_op :: "bool \<Rightarrow> write_op \<Rightarrow> responseWriter \<Rightarrow> responseWriter" where
  "rw_op flusher (WriteHeader code) w = w\<lparr>rw_statusCode := code, rw_inner := rw_inner w @ [WriteHeader code]\<rparr>"
| "rw_op flusher (WriteBody b) w = w\<lparr>rw_inner := rw_inner w @ [WriteBody b]\<rparr>"
| "rw_op flusher FlushNow w = (if flusher then w\<lparr>rw_inner := rw_inner w @ [FlushNow]\<rparr> else w)"

text \<open>A handler that panics, as the reverse proxy does when the client goes away, leaves no trace in the metrics.\<close>

definition metricsMiddleware :: "bool \<Rightarrow> write_op list \<Rightarrow> bool \<Rightarrow> duration \<Rightarrow> write_op list \<times> metric_update list" where
  "metricsMiddleware flusher ops panics dur =
     (let rw = fold (rw_op flusher) ops \<lparr>rw_statusCode = 200, rw_inner = []\<rparr>
      in (rw_inner rw,
          if panics then []
          else [Inc ProxyRequests [show_nat (rw_statusCode rw)], Observe ProxyDuration [] (of_int dur / of_int Second)]))"

definition handleHealthz :: "write_op list" where "handleHealthz = [WriteHeader 200, WriteBody ''ok'']"
definition handleReadyz :: "write_op list" where "handleReadyz = [WriteHeader 200, WriteBody ''ok'']"

text \<open>The status \<open>net/http\<close> sends: the first code that is not informational, 200 when there is none before the body.\<close>

fun sent_status :: "write_op list \<Rightarrow> nat" where
  "sent_status [] = 200"
| "sent_status (WriteHeader code # ops) = (if 100 \<le> code \<and> code < 200 \<and> code \<noteq> 101 then sent_status ops else code)"
| "sent_status (WriteBody b # ops) = 200"
| "sent_status (FlushNow # ops) = 200"

section \<open>Logging of calls\<close>

datatype rpc_level = LevelDebug | LevelError

record rpc_log =
  cl_level :: rpc_level
  cl_method :: string
  cl_code :: string

text \<open>\<open>code\<close> is the code of an error as \<open>status.FromError\<close> reads it; a panic of the handler passes through.\<close>

definition loggingInterceptor :: "(goerr \<Rightarrow> string) \<Rightarrow> string \<Rightarrow> ('q \<Rightarrow> 'w \<Rightarrow> 'r result option \<times> 'w) \<Rightarrow> 'q \<Rightarrow> 'w \<Rightarrow>
    ('r result option \<times> 'w) \<times> rpc_log list" where
  "loggingInterceptor code method handler req w =
     (case handler req w of
        (None, w') \<Rightarrow> ((None, w'), [])
      | (Some (Inl err), w') \<Rightarrow> ((Some (Inl err), w'), [\<lparr>cl_level = LevelError, cl_method = method, cl_code = code err\<rparr>])
      | (Some (Inr resp), w') \<Rightarrow> ((Some (Inr resp), w'), [\<lparr>cl_level = LevelDebug, cl_method = method, cl_code = ''OK''\<rparr>]))"

text \<open>\<open>ChainUnaryInterceptor(logging, recovery)\<close>: every call is logged once, also one that panics.\<close>

definition unary_chain :: "(goerr \<Rightarrow> string) \<Rightarrow> string \<Rightarrow> ('q \<Rightarrow> 'w \<Rightarrow> 'r result option \<times> 'w) \<Rightarrow> 'q \<Rightarrow> 'w \<Rightarrow>
    ('r result option \<times> 'w) \<times> rpc_log list" where
  "unary_chain code method handler = loggingInterceptor code method (recoveryInterceptor handler)"

lemma unary_chain_answers:
  "case unary_chain code method handler req w of ((r, w'), logs) \<Rightarrow>
     r \<noteq> None \<and> w' = snd (handler req w) \<and> length logs = 1 \<and>
     (case fst (handler req w) of None \<Rightarrow> \<not> is_ok (the r) | Some x \<Rightarrow> r = Some x)"
  unfolding unary_chain_def loggingInterceptor_def recoveryInterceptor_def
  by (auto split: prod.splits option.splits sum.splits)

section \<open>The middleware is transparent\<close>

lemma rw_fold: "rw_inner (fold (rw_op True) ops w) = rw_inner w @ ops"
proof (induction ops arbitrary: w)
  case (Cons x xs)
  then show ?case by (cases x) simp_all
qed simp

text \<open>
  The writes of a well-behaved handler: informational headers, then nothing or one final header,
  then the body.
\<close>

fun body_only :: "write_op \<Rightarrow> bool" where
  "body_only (WriteHeader _) \<longleftrightarrow> False"
| "body_only _ \<longleftrightarrow> True"

fun orderly_writes :: "write_op list \<Rightarrow> bool" where
  "orderly_writes (WriteHeader code # ops) \<longleftrightarrow>
     (if 100 \<le> code \<and> code < 200 \<and> code \<noteq> 101 then ops \<noteq> [] \<and> (\<exists>c \<in> set ops. \<not> body_only c) \<and> orderly_writes ops else list_all body_only ops)"
| "orderly_writes ops \<longleftrightarrow> list_all body_only ops"

lemma counted_body: "list_all body_only ops \<Longrightarrow> rw_statusCode (fold (rw_op f) ops w) = rw_statusCode w"
proof (induction ops arbitrary: w)
  case (Cons x xs)
  then show ?case by (cases x) simp_all
qed simp

text \<open>The status that is counted is the one the client gets.\<close>

lemma counted_status:
  "orderly_writes ops \<Longrightarrow> \<exists>c \<in> set ops. \<not> body_only c \<Longrightarrow> rw_statusCode (fold (rw_op f) ops w) = sent_status ops"
proof (induction ops arbitrary: w rule: sent_status.induct)
  case (2 code ops)
  then show ?case by (cases "100 \<le> code \<and> code < 200 \<and> code \<noteq> 101") (auto simp: counted_body)
qed (auto simp: list_all_iff)

lemma counted:
  assumes "orderly_writes ops"
  shows "rw_statusCode (fold (rw_op f) ops \<lparr>rw_statusCode = 200, rw_inner = []\<rparr>) = sent_status ops"
proof (cases "\<exists>c \<in> set ops. \<not> body_only c")
  case False
  then have "sent_status ops = 200" by (cases ops rule: sent_status.cases) auto
  with False show ?thesis by (simp add: counted_body list_all_iff)
qed (rule counted_status [OF assms])

section \<open>What GetMetrics reports\<close>

text \<open>
  What is relied on of the Prometheus client: \<open>Gather\<close> returns, for every registered counter, one
  family with one sample per label combination that was ever used, in some order, whose value
  is the number of increments with these labels; a counter without labels has its one sample
  from the start, one with labels that were never used has no family.
\<close>

definition labels_of :: "collector \<Rightarrow> metric_update list \<Rightarrow> string list list" where
  "labels_of c us = List.map_filter (\<lambda>u. case u of Inc d ls \<Rightarrow> if d = c then Some ls else None | _ \<Rightarrow> None) us"

definition samples :: "collector \<Rightarrow> metric_update list \<Rightarrow> rat list" where
  "samples c us =
     (if co_labels c = [] then [of_nat (length (labels_of c us))]
      else map (\<lambda>ls. of_nat (count_list (labels_of c us) ls)) (remdups (labels_of c us)))"

definition registry_law :: "(metric_update list \<Rightarrow> MetricFamily list result) \<Rightarrow> bool" where
  "registry_law Gather \<longleftrightarrow> (\<forall>us. \<exists>fams. Gather us = Inr fams \<and>
     (\<forall>c \<in> set collectors. co_kind c = CounterKind \<longrightarrow>
        (\<exists>vs. mset vs = mset (samples c us) \<and>
           filter (\<lambda>fam. mf_Name fam = co_name c) fams =
             (if vs = [] then [] else [\<lparr>mf_Name = co_name c, mf_Type = Counter, mf_Values = vs\<rparr>]))))"

lemma find_filter: "find P xs = (case filter P xs of [] \<Rightarrow> None | x # _ \<Rightarrow> Some x)"
  by (induction xs) auto

lemma sum_counts: "sum_list (map (\<lambda>x. of_nat (count_list xs x)) (remdups xs)) = (of_nat (length xs) :: rat)"
proof -
  have "sum_list (map (count_list xs) (remdups xs)) = length xs"
    using sum_count_set [of xs "set xs"] by (simp add: sum_list_distinct_conv_sum_set)
  moreover have "(of_nat (sum_list (map f ys)) :: rat) = sum_list (map (\<lambda>x. of_nat (f x)) ys)" for f :: "'a \<Rightarrow> nat" and ys
    by (induction ys) simp_all
  ultimately show ?thesis by metis
qed

lemma metricValue_counts:
  assumes "registry_law Gather" and "c \<in> set collectors" and "co_kind c = CounterKind"
  shows "metricValue (Gather us) (co_name c) = of_nat (length (labels_of c us))"
proof -
  obtain fams vs where f: "Gather us = Inr fams" "mset vs = mset (samples c us)"
    "filter (\<lambda>fam. mf_Name fam = co_name c) fams = (if vs = [] then [] else [\<lparr>mf_Name = co_name c, mf_Type = Counter, mf_Values = vs\<rparr>])"
    using assms unfolding registry_law_def by blast
  have "sum_list vs = sum_list (samples c us)" using f(2) by (metis sum_mset_sum_list)
  also have "\<dots> = of_nat (length (labels_of c us))" by (simp add: samples_def sum_counts)
  finally show ?thesis using f(1,3) by (auto simp: metricValue_def find_filter metricFamilyValue_def)
qed

lemma go_Round_nat: "go_Round (of_nat n) = int n"
proof -
  have "\<lfloor>(of_nat n :: rat) + 1 / 2\<rfloor> = int n" by (intro floor_unique) auto
  then show ?thesis by (simp add: go_Round_def)
qed

text \<open>A request the proxy serves: what its handler writes, whether it panics, and how long it takes.\<close>

record served =
  sr_writes :: "write_op list"
  sr_panics :: bool
  sr_duration :: duration

definition served_updates :: "served list \<Rightarrow> metric_update list" where
  "served_updates rs = concat (map (\<lambda>r. snd (metricsMiddleware True (sr_writes r) (sr_panics r) (sr_duration r))) rs)"

lemma labels_append: "labels_of c (us @ vs) = labels_of c us @ labels_of c vs"
  by (simp add: labels_of_def List.map_filter_def)

lemma labels_served:
  assumes "\<And>r. r \<in> set rs \<Longrightarrow> orderly_writes (sr_writes r)"
  shows "labels_of ProxyRequests (served_updates rs) = map (\<lambda>r. [show_nat (sent_status (sr_writes r))]) (filter (\<lambda>r. \<not> sr_panics r) rs)"
  using assms
proof (induction rs)
  case (Cons r rs)
  then show ?case
    by (simp add: served_updates_def labels_append) (simp add: metricsMiddleware_def counted labels_of_def map_filter_simps Let_def)
qed (simp add: served_updates_def labels_of_def map_filter_simps)


text \<open>A registry that obeys the law.\<close>

definition demo_Gather :: "metric_update list \<Rightarrow> MetricFamily list result" where
  "demo_Gather us = Inr (List.map_filter (\<lambda>c. if co_kind c = CounterKind \<and> samples c us \<noteq> []
     then Some \<lparr>mf_Name = co_name c, mf_Type = Counter, mf_Values = samples c us\<rparr> else None) collectors)"

lemma demo_Gather_law: "registry_law demo_Gather"
proof -
  have "filter (\<lambda>fam. mf_Name fam = co_name c) (List.map_filter (\<lambda>c. if co_kind c = CounterKind \<and> samples c us \<noteq> []
       then Some \<lparr>mf_Name = co_name c, mf_Type = Counter, mf_Values = samples c us\<rparr> else None) cs) =
      (if samples c us = [] then [] else [\<lparr>mf_Name = co_name c, mf_Type = Counter, mf_Values = samples c us\<rparr>])"
    if "c \<in> set cs" "co_kind c = CounterKind" "distinct (map co_name cs)" for c cs us
    using that
  proof (induction cs)
    case (Cons d cs)
    have none: "filter (\<lambda>fam. mf_Name fam = co_name d) (List.map_filter (\<lambda>c. if co_kind c = CounterKind \<and> samples c us \<noteq> []
       then Some \<lparr>mf_Name = co_name c, mf_Type = Counter, mf_Values = samples c us\<rparr> else None) cs) = []"
    proof -
      have "co_name x \<noteq> co_name d" if "x \<in> set cs" for x using Cons.prems(3) that by (metis distinct.simps(2) imageI list.set_map list.simps(9))
      then show ?thesis by (auto simp: filter_empty_conv List.map_filter_def split: if_splits)
    qed
    show ?case
    proof (cases "c = d")
      case True
      with none Cons.prems show ?thesis by (simp add: map_filter_simps)
    next
      case False
      with Cons have "co_name d \<noteq> co_name c" by auto
      with False Cons show ?thesis by (simp add: map_filter_simps)
    qed
  qed simp
  moreover have "distinct (map co_name collectors)" using collectors_register by simp
  ultimately show ?thesis unfolding registry_law_def demo_Gather_def by auto
qed

definition demo_served :: "served list" where
  "demo_served = [\<lparr>sr_writes = [WriteHeader 502, WriteBody ''Bad Gateway''], sr_panics = False, sr_duration = 5\<rparr>,
     \<lparr>sr_writes = [WriteBody ''ok''], sr_panics = False, sr_duration = 7\<rparr>, \<lparr>sr_writes = [], sr_panics = True, sr_duration = 1\<rparr>]"


end
