(* ===== verification/Server_Life.thy ===== *)
theory Server_Life
  imports Grpc_Server
begin

text \<open>
  The life of the server (\<open>internal/server/server.go\<close>): the goroutines that \<open>Start\<close> runs for the
  gRPC and the REST listener with their error channel, the stop with its time limit, and the
  health endpoints. \<open>Start\<close> is a transition system: an event is one thing that happens to one
  of the goroutines, and an event that is not possible in a state changes nothing. The
  theorems: in no interleaving does a goroutine block on the error channel, \<open>Start\<close> reports a
  failure that happened, and the stop ends within its limits.
\<close>

section \<open>Start\<close>

datatype listener_phase = Opening | Serving | Sending goerr | Ended

datatype start_phase = Waiting | Returned "goerr option"

record server_run =
  sr_grpc :: listener_phase
  sr_rest :: listener_phase
  sr_errCh :: "goerr list"
  sr_cancelled :: bool
  sr_start :: start_phase
  sr_watching :: bool

text \<open>The state when the three goroutines have been started; the REST one has no separate listen.\<close>

definition Server_Start :: "bool \<Rightarrow> server_run" where
  "Server_Start hasSandbox =
     \<lparr>sr_grpc = Opening, sr_rest = Serving, sr_errCh = [], sr_cancelled = False, sr_start = Waiting, sr_watching = hasSandbox\<rparr>"

datatype server_event =
    GrpcListen "goerr option"
  | GrpcServeEnds "goerr option"
  | RestServeEnds "goerr option"
  | GrpcSends
  | RestSends
  | CtxCancelledEv
  | StartReceives
  | StartSeesDone

abbreviation errCh_cap :: nat where "errCh_cap \<equiv> 2"

definition grpc_turn :: "server_event \<Rightarrow> server_run \<Rightarrow> server_run" where
  "grpc_turn ev s =
     (case (ev, sr_grpc s) of
        (GrpcListen (Some err), Opening) \<Rightarrow> s\<lparr>sr_grpc := Sending (Wrapf ''gRPC listen'' err)\<rparr>
      | (GrpcListen None, Opening) \<Rightarrow> s\<lparr>sr_grpc := Serving\<rparr>
      | (GrpcServeEnds (Some err), Serving) \<Rightarrow> s\<lparr>sr_grpc := Sending (Wrapf ''gRPC serve'' err)\<rparr>
      | (GrpcServeEnds None, Serving) \<Rightarrow> s\<lparr>sr_grpc := Ended\<rparr>
      | (GrpcSends, Sending err) \<Rightarrow>
          if length (sr_errCh s) < errCh_cap then s\<lparr>sr_grpc := Ended, sr_errCh := sr_errCh s @ [err]\<rparr> else s
      | _ \<Rightarrow> s)"

text \<open>\<open>RestServeEnds None\<close> is the end by \<open>Shutdown\<close>, which is not an error.\<close>

definition rest_turn :: "server_event \<Rightarrow> server_run \<Rightarrow> server_run" where
  "rest_turn ev s =
     (case (ev, sr_rest s) of
        (RestServeEnds (Some err), Serving) \<Rightarrow> s\<lparr>sr_rest := Sending (Wrapf ''REST serve'' err)\<rparr>
      | (RestServeEnds None, Serving) \<Rightarrow> s\<lparr>sr_rest := Ended\<rparr>
      | (RestSends, Sending err) \<Rightarrow>
          if length (sr_errCh s) < errCh_cap then s\<lparr>sr_rest := Ended, sr_errCh := sr_errCh s @ [err]\<rparr> else s
      | _ \<Rightarrow> s)"

definition start_turn :: "server_event \<Rightarrow> server_run \<Rightarrow> server_run" where
  "start_turn ev s =
     (case (ev, sr_start s, sr_errCh s) of
        (StartReceives, Waiting, err # rest) \<Rightarrow> s\<lparr>sr_start := Returned (Some err), sr_errCh := rest\<rparr>
      | (StartSeesDone, Waiting, _) \<Rightarrow> if sr_cancelled s then s\<lparr>sr_start := Returned None\<rparr> else s
      | _ \<Rightarrow> s)"

definition server_turn :: "server_event \<Rightarrow> server_run \<Rightarrow> server_run" where
  "server_turn ev s =
     (case ev of
        CtxCancelledEv \<Rightarrow> s\<lparr>sr_cancelled := True\<rparr>
      | StartReceives \<Rightarrow> start_turn ev s
      | StartSeesDone \<Rightarrow> start_turn ev s
      | RestServeEnds _ \<Rightarrow> rest_turn ev s
      | RestSends \<Rightarrow> rest_turn ev s
      | _ \<Rightarrow> grpc_turn ev s)"

definition server_runs :: "bool \<Rightarrow> server_event list \<Rightarrow> server_run" where
  "server_runs hasSandbox evs = fold server_turn evs (Server_Start hasSandbox)"

section \<open>Stop\<close>

definition grpcStopTimeout :: duration where "grpcStopTimeout = 10 * Second"

text \<open>
  \<open>quiet\<close> is the time after which every RPC has ended by itself, when there is one; \<open>left\<close> what is
  left until the deadline of the context; \<open>drain\<close> the time the REST server needs. \<open>GracefulStop\<close>
  returns when every RPC has ended, and at once after \<open>Stop\<close>. The result is the time that
  passed, whether the RPCs were cut off, and whether the REST server ended by itself.
\<close>

definition grpc_stop :: "duration option \<Rightarrow> duration \<Rightarrow> duration \<times> bool" where
  "grpc_stop quiet left =
     (let limit = min grpcStopTimeout (max 0 left)
      in case quiet of
           Some t \<Rightarrow> if t \<le> limit then (t, False) else (limit, True)
         | None \<Rightarrow> (limit, True))"

definition Server_Stop :: "duration option \<Rightarrow> duration \<Rightarrow> duration \<Rightarrow> duration \<times> bool \<times> bool" where
  "Server_Stop quiet drain left =
     (case grpc_stop quiet left of
        (t, forced) \<Rightarrow> if drain \<le> max 0 (left - t) then (t + drain, forced, True) else (t + max 0 (left - t), forced, False))"

section \<open>Health\<close>

type_synonym health_answer = "nat \<times> string"

definition healthzHandler :: health_answer where
  "healthzHandler = (200, ''ok'')"

text \<open>\<open>http.Error\<close> ends the text with a newline.\<close>

definition readyzHandler :: "(goerr \<Rightarrow> string) \<Rightarrow> goerr option \<Rightarrow> health_answer" where
  "readyzHandler err_text ping =
     (case ping of
        Some err \<Rightarrow> (503, ''mysql: '' @ err_text err @ [CHR 0x0A])
      | None \<Rightarrow> (200, ''ok''))"

section \<open>No goroutine is left behind\<close>

fun sends_left :: "listener_phase \<Rightarrow> nat" where
  "sends_left Ended = 0"
| "sends_left _ = 1"

text \<open>Every error in the channel was sent by a goroutine that has ended.\<close>

definition server_inv :: "server_run \<Rightarrow> bool" where
  "server_inv s \<longleftrightarrow> length (sr_errCh s) + sends_left (sr_grpc s) + sends_left (sr_rest s) \<le> errCh_cap"

lemma server_inv_turn: "server_inv s \<Longrightarrow> server_inv (server_turn ev s)"
  by (cases ev; cases "sr_grpc s"; cases "sr_rest s"; cases "sr_start s"; cases "sr_errCh s")
    (auto simp: server_inv_def server_turn_def grpc_turn_def rest_turn_def start_turn_def split: option.split if_split)

lemma server_inv_runs: "server_inv (server_runs b evs)"
proof -
  have "server_inv (fold server_turn evs s)" if "server_inv s" for s
    using that by (induction evs arbitrary: s) (auto intro: server_inv_turn)
  then show ?thesis by (simp add: server_runs_def server_inv_def Server_Start_def)
qed

text \<open>The failures of a run, as the goroutines report them.\<close>

fun failure_of :: "server_event \<Rightarrow> goerr list" where
  "failure_of (GrpcListen (Some err)) = [Wrapf ''gRPC listen'' err]"
| "failure_of (GrpcServeEnds (Some err)) = [Wrapf ''gRPC serve'' err]"
| "failure_of (RestServeEnds (Some err)) = [Wrapf ''REST serve'' err]"
| "failure_of _ = []"

definition reports :: "goerr set \<Rightarrow> server_run \<Rightarrow> bool" where
  "reports F s \<longleftrightarrow> set (sr_errCh s) \<subseteq> F \<and> (\<forall>err. sr_grpc s = Sending err \<or> sr_rest s = Sending err \<longrightarrow> err \<in> F) \<and>
     (\<forall>err. sr_start s = Returned (Some err) \<longrightarrow> err \<in> F) \<and> (sr_start s = Returned None \<longrightarrow> sr_cancelled s)"

lemma reports_turn: "reports F s \<Longrightarrow> reports (F \<union> set (failure_of ev)) (server_turn ev s)"
  by (cases ev; cases "sr_grpc s"; cases "sr_rest s"; cases "sr_start s"; cases "sr_errCh s")
    (auto simp: reports_def server_turn_def grpc_turn_def rest_turn_def start_turn_def split: option.splits if_splits)

lemma reports_runs: "reports (set (concat (map failure_of evs))) (server_runs b evs)"
proof -
  have "reports (F \<union> set (concat (map failure_of evs))) (fold server_turn evs s)" if "reports F s" for F s
    using that
  proof (induction evs arbitrary: F s)
    case (Cons ev evs)
    from Cons.IH [OF reports_turn [OF Cons.prems, of ev]] show ?case by (simp add: Un_assoc)
  qed simp
  from this [of "{}" "Server_Start b"] show ?thesis by (simp add: server_runs_def reports_def Server_Start_def)
qed

text \<open>
  Whatever the order of events, no goroutine of the server blocks: a goroutine that has an
  error to report finds room in the channel, also when \<open>Start\<close> has returned and nobody reads
  it. \<open>Start\<close> returns an error only when that failure happened, and without an error only when
  the context has ended; and when one of the two has happened it can return.
\<close>

theorem server_start_reports:
  "let s = server_runs hasSandbox evs in
    (case sr_grpc s of Sending err \<Rightarrow> sr_grpc (server_turn GrpcSends s) = Ended | _ \<Rightarrow> True) \<and>
    (case sr_rest s of Sending err \<Rightarrow> sr_rest (server_turn RestSends s) = Ended | _ \<Rightarrow> True) \<and>
    (case sr_start s of
       Returned (Some err) \<Rightarrow> err \<in> set (concat (map failure_of evs))
     | Returned None \<Rightarrow> CtxCancelledEv \<in> set evs
     | Waiting \<Rightarrow> (if sr_errCh s \<noteq> [] then sr_start (server_turn StartReceives s) = Returned (Some (hd (sr_errCh s)))
         else if CtxCancelledEv \<in> set evs then sr_start (server_turn StartSeesDone s) = Returned None else True))"
proof -
  let ?s = "server_runs hasSandbox evs"
  have cancelled: "sr_cancelled (fold server_turn evs t) \<longleftrightarrow> sr_cancelled t \<or> CtxCancelledEv \<in> set evs" for t
  proof (induction evs arbitrary: t)
    case (Cons ev evs)
    have "sr_cancelled (server_turn ev t) \<longleftrightarrow> sr_cancelled t \<or> ev = CtxCancelledEv"
      by (cases ev; cases "sr_grpc t"; cases "sr_rest t"; cases "sr_start t"; cases "sr_errCh t")
        (auto simp: server_turn_def grpc_turn_def rest_turn_def start_turn_def split: option.split)
    with Cons show ?case by auto
  qed simp
  have c: "sr_cancelled ?s \<longleftrightarrow> CtxCancelledEv \<in> set evs"
    by (simp add: server_runs_def cancelled) (simp add: Server_Start_def)
  show ?thesis
    using c server_inv_runs [of hasSandbox evs] reports_runs [of evs hasSandbox] unfolding Let_def
    by (auto simp: server_inv_def reports_def server_turn_def grpc_turn_def rest_turn_def start_turn_def neq_Nil_conv
        split: listener_phase.splits start_phase.splits option.splits)
qed

text \<open>
  The stop is bounded: it takes no longer than the context allows, and an RPC that never ends
  delays it by ten seconds at most before it is cut off.
\<close>

theorem server_stop_bounded:
  assumes "0 \<le> left" and "0 \<le> drain" and "\<And>t. quiet = Some t \<Longrightarrow> 0 \<le> t"
  shows "case Server_Stop quiet drain left of (t, forced, drained) \<Rightarrow>
    0 \<le> t \<and> t \<le> left \<and> t \<le> 10 * Second + drain \<and>
    (forced \<longleftrightarrow> (\<forall>q. quiet = Some q \<longrightarrow> min (10 * Second) left < q))"
  using assms by (auto simp: Server_Stop_def grpc_stop_def grpcStopTimeout_def Let_def split: option.splits prod.splits if_splits)

end
