(* ===== verification/Store_Setup.thy ===== *)
theory Store_Setup
  imports Prelude Go_Strings
begin

text \<open>
  The construction of the store (\<open>internal/store/mysql.go\<close>): the normalised data source name, the
  retry loop, and the migration runner with its take-over of the version table of an older
  tool. The MySQL driver, the migration library and its lock are the fields of \<open>mig_env\<close>,
  arbitrary functions on the state \<open>'d\<close> of the database server; what the theorems rely on of
  them is \<open>mig_laws\<close>.
\<close>

section \<open>The data source name\<close>

text \<open>The fields of the driver's configuration that the code reads or sets; \<open>'r\<close> holds the others.\<close>

record 'r mysql_config =
  mc_ParseTime :: bool
  mc_Loc :: string
  mc_Params :: "(string \<rightharpoonup> string) option"
  mc_rest :: 'r

definition normalizeDSN :: "(string \<Rightarrow> 'r mysql_config result) \<Rightarrow> ('r mysql_config \<Rightarrow> string) \<Rightarrow> string \<Rightarrow> string result" where
  "normalizeDSN parseDSN formatDSN dsn =
     (case parseDSN dsn of
        Inl err \<Rightarrow> Inl (Wrapf ''normalize dsn'' err)
      | Inr cfg \<Rightarrow>
          (let cfg = cfg\<lparr>mc_ParseTime := True, mc_Loc := ''UTC''\<rparr>;
               params = (case mc_Params cfg of None \<Rightarrow> Map.empty | Some m \<Rightarrow> m)
           in Inr (formatDSN (cfg\<lparr>mc_Params := Some (params(''time_zone'' \<mapsto> [CHR 0x27] @ ''+00:00'' @ [CHR 0x27]))\<rparr>))))"

section \<open>Retries\<close>

text \<open>A \<open>time.Duration\<close> is a 64-bit integer whose product wraps around.\<close>

definition wrap64 :: "int \<Rightarrow> int" where
  "wrap64 x = (x + 2 ^ 63) mod 2 ^ 64 - 2 ^ 63"

definition retry_delay :: "duration \<Rightarrow> nat \<Rightarrow> duration" where
  "retry_delay baseDelay i = (let delay = wrap64 (baseDelay * 2 ^ i) in if delay > 30 * Second then 30 * Second else delay)"

text \<open>
  The loop from turn \<open>i\<close> on, with the error of the turn before: the result, the pauses and the
  state that \<open>fn\<close> leaves. A pause that is not positive ends at once.
\<close>

function retry_from :: "nat \<Rightarrow> duration \<Rightarrow> string \<Rightarrow> ('s \<Rightarrow> goerr option \<times> 's) \<Rightarrow> nat \<Rightarrow> goerr option \<Rightarrow> 's \<Rightarrow> goerr option \<times> duration list \<times> 's" where
  "retry_from attempts baseDelay operation fn i err s =
     (if i \<ge> attempts then (Some (case err of None \<Rightarrow> Errorf operation | Some e \<Rightarrow> Wrapf operation e), [], s)
      else case fn s of
        (None, s') \<Rightarrow> (None, [], s')
      | (Some e, s') \<Rightarrow>
          if i = attempts - 1 then (Some (Wrapf operation e), [], s')
          else (case retry_from attempts baseDelay operation fn (Suc i) (Some e) s' of
                  (r, pauses, s'') \<Rightarrow> (r, retry_delay baseDelay i # pauses, s'')))"
  by pat_completeness auto
termination by (relation "measure (\<lambda>(attempts, _, _, _, i, _, _). attempts - i)") auto

declare retry_from.simps [simp del]

definition retryWithBackoff :: "nat \<Rightarrow> duration \<Rightarrow> string \<Rightarrow> ('s \<Rightarrow> goerr option \<times> 's) \<Rightarrow> 's \<Rightarrow> goerr option \<times> duration list \<times> 's" where
  "retryWithBackoff attempts baseDelay operation fn s = retry_from attempts baseDelay operation fn 0 None s"

section \<open>Migrations\<close>

record 'd mig_env =
  me_Open :: "string \<Rightarrow> 'd \<Rightarrow> unit result \<times> 'd"
  me_Ping :: "'d \<Rightarrow> goerr option \<times> 'd"
  me_NewLocker :: "unit result"
  me_Lock :: "'d \<Rightarrow> unit result \<times> 'd"
  me_Unlock :: "'d \<Rightarrow> unit result \<times> 'd"
  me_NewProvider :: "unit result"
  me_ListSources :: "int list"
  me_Up :: "'d \<Rightarrow> goerr option \<times> 'd"
  me_NewStore :: "unit result"
  me_TableQuery :: "string \<Rightarrow> 'd \<Rightarrow> bool result \<times> 'd"
  me_GetLatestVersion :: "'d \<Rightarrow> int option result \<times> 'd"
  me_LegacyQuery :: "'d \<Rightarrow> (int \<times> bool) result \<times> 'd"
  me_CreateVersionTable :: "'d \<Rightarrow> unit result \<times> 'd"
  me_Insert :: "int \<Rightarrow> 'd \<Rightarrow> unit result \<times> 'd"

abbreviation gooseTable :: string where "gooseTable \<equiv> ''goose_db_version''"
abbreviation legacyTable :: string where "legacyTable \<equiv> ''schema_migrations''"

definition tableExists :: "'d mig_env \<Rightarrow> string \<Rightarrow> 'd \<Rightarrow> bool result \<times> 'd" where
  "tableExists e name d =
     (case me_TableQuery e name d of
        (Inl err, d) \<Rightarrow> (Inl (Wrapf ''query information_schema'' err), d)
      | (Inr b, d) \<Rightarrow> (Inr b, d))"

text \<open>The inserts of the seed: every known version up to the legacy one.\<close>

fun seed_versions :: "'d mig_env \<Rightarrow> int \<Rightarrow> int list \<Rightarrow> 'd \<Rightarrow> unit result \<times> 'd" where
  "seed_versions e legacyVersion [] d = (Inr (), d)"
| "seed_versions e legacyVersion (v # vs) d =
     (if v > legacyVersion then seed_versions e legacyVersion vs d
      else case me_Insert e v d of
        (Inl err, d) \<Rightarrow> (Inl (Wrapf ''seed migration version'' err), d)
      | (Inr _, d) \<Rightarrow> seed_versions e legacyVersion vs d)"

definition seed_from_legacy :: "'d mig_env \<Rightarrow> bool \<Rightarrow> int list \<Rightarrow> 'd \<Rightarrow> unit result \<times> 'd" where
  "seed_from_legacy e gooseExists versions d =
     (case me_LegacyQuery e d of
        (Inl err, d) \<Rightarrow> (Inl (Wrapf ''read legacy migration version'' err), d)
      | (Inr (legacyVersion, dirty), d) \<Rightarrow>
          if dirty then (Inl (Errorf ''dirty migration state detected at legacy version''), d)
          else (case (if gooseExists then (Inr (), d) else me_CreateVersionTable e d) of
                  (Inl err, d) \<Rightarrow> (Inl (Wrapf ''create goose_db_version table'' err), d)
                | (Inr _, d) \<Rightarrow> seed_versions e legacyVersion versions d))"

definition seedLegacyMigrations :: "'d mig_env \<Rightarrow> int list \<Rightarrow> 'd \<Rightarrow> unit result \<times> 'd" where
  "seedLegacyMigrations e versions d =
     (case me_NewStore e of
        Inl err \<Rightarrow> (Inl (Wrapf ''create migration store'' err), d)
      | Inr _ \<Rightarrow>
        (case tableExists e gooseTable d of
           (Inl err, d) \<Rightarrow> (Inl (Wrapf ''check goose_db_version exists'' err), d)
         | (Inr gooseExists, d) \<Rightarrow>
           (case tableExists e legacyTable d of
              (Inl err, d) \<Rightarrow> (Inl (Wrapf ''check schema_migrations exists'' err), d)
            | (Inr legacyExists, d) \<Rightarrow>
                if gooseExists then
                  if \<not> legacyExists then (Inr (), d)
                  else (case me_GetLatestVersion e d of
                          (Inr (Some _), d) \<Rightarrow> (Inr (), d)
                        | (Inr None, d) \<Rightarrow> seed_from_legacy e gooseExists versions d
                        | (Inl err, d) \<Rightarrow> (Inl (Wrapf ''read goose_db_version version'' err), d))
                else if \<not> legacyExists then (Inr (), d)
                else seed_from_legacy e gooseExists versions d)))"

definition with_multi_statements :: "string \<Rightarrow> string" where
  "with_multi_statements dsn = (if Contains dsn ''?'' then dsn @ ''&multiStatements=true'' else dsn @ ''?multiStatements=true'')"

definition migrate_locked :: "'d mig_env \<Rightarrow> 'd \<Rightarrow> unit result \<times> 'd" where
  "migrate_locked e d =
     (case me_NewProvider e of
        Inl err \<Rightarrow> (Inl (Wrapf ''create migration provider'' err), d)
      | Inr _ \<Rightarrow>
        (case seedLegacyMigrations e (me_ListSources e) d of
           (Inl err, d) \<Rightarrow> (Inl (Wrapf ''seed legacy migrations'' err), d)
         | (Inr _, d) \<Rightarrow>
           (case retryWithBackoff 5 (1 * Second) ''migrate up'' (me_Up e) d of
              (Some err, _, d) \<Rightarrow> (Inl (Wrapf ''migrate up'' err), d)
            | (None, _, d) \<Rightarrow> (Inr (), d))))"

text \<open>The deferred release of the lock runs on every path after it was taken; its error is only logged.\<close>

definition runMigrations :: "'d mig_env \<Rightarrow> string \<Rightarrow> 'd \<Rightarrow> unit result \<times> 'd" where
  "runMigrations e dsn d =
     (case me_Open e (with_multi_statements dsn) d of
        (Inl err, d) \<Rightarrow> (Inl (Wrapf ''open migration db'' err), d)
      | (Inr _, d) \<Rightarrow>
        (case me_NewLocker e of
           Inl err \<Rightarrow> (Inl (Wrapf ''create migration locker'' err), d)
         | Inr _ \<Rightarrow>
           (case me_Lock e d of
              (Inl err, d) \<Rightarrow> (Inl (Wrapf ''acquire migration lock'' err), d)
            | (Inr _, d) \<Rightarrow> (case migrate_locked e d of (r, d) \<Rightarrow> (r, snd (me_Unlock e d))))))"

text \<open>The result says whether there is a store; the pool is closed on the two later failures.\<close>

definition NewMySQLStore ::
  "(string \<Rightarrow> 'r mysql_config result) \<Rightarrow> ('r mysql_config \<Rightarrow> string) \<Rightarrow> 'd mig_env \<Rightarrow> string \<Rightarrow> 'd \<Rightarrow> unit result \<times> 'd" where
  "NewMySQLStore parseDSN formatDSN e dsn d =
     (case normalizeDSN parseDSN formatDSN dsn of
        Inl err \<Rightarrow> (Inl (Wrapf ''normalize dsn'' err), d)
      | Inr normalizedDSN \<Rightarrow>
        (case me_Open e normalizedDSN d of
           (Inl err, d) \<Rightarrow> (Inl (Wrapf ''open mysql'' err), d)
         | (Inr _, d) \<Rightarrow>
           (case retryWithBackoff 5 (1 * Second) ''ping mysql'' (me_Ping e) d of
              (Some err, _, d) \<Rightarrow> (Inl err, d)
            | (None, _, d) \<Rightarrow>
              (case runMigrations e normalizedDSN d of
                 (Inl err, d) \<Rightarrow> (Inl (Wrapf ''run migrations'' err), d)
               | (Inr _, d) \<Rightarrow> (Inr (), d)))))"

section \<open>Properties of the set-up\<close>

text \<open>The store reads and writes times in UTC whatever the data source name says.\<close>

lemma normalizeDSN_utc:
  assumes "normalizeDSN parseDSN formatDSN dsn = Inr s" and "\<And>c. parseDSN (formatDSN c) = Inr c"
  shows "\<exists>c m. parseDSN s = Inr c \<and> mc_ParseTime c \<and> mc_Loc c = ''UTC'' \<and> mc_Params c = Some m \<and>
    m ''time_zone'' = Some ([CHR 0x27] @ ''+00:00'' @ [CHR 0x27])"
  using assms by (auto simp: normalizeDSN_def Let_def split: sum.splits)

lemma retry_pauses:
  assumes "i < attempts"
  shows "length (fst (snd (retry_from attempts b op fn i err s))) < attempts - i \<and>
    (\<forall>k < length (fst (snd (retry_from attempts b op fn i err s))). fst (snd (retry_from attempts b op fn i err s)) ! k = retry_delay b (i + k))"
  using assms
proof (induction attempts b op fn i err s rule: retry_from.induct)
  case (1 attempts b op fn i err s)
  show ?case
  proof (cases "fn s")
    case (Pair r s')
    show ?thesis
    proof (cases "r = None \<or> i = attempts - 1")
      case True
      with 1(2) Pair show ?thesis by (subst (1 2 3) retry_from.simps) (auto split: option.split)
    next
      case False
      then obtain e where r: "r = Some e" by auto
      have lt: "Suc i < attempts" using 1(2) False by auto
      from 1(1) [OF _ Pair [symmetric] r _ lt] lt False show ?thesis
        by (subst (1 2 3) retry_from.simps) (auto simp: Pair r nth_Cons split: prod.split nat.split)
    qed
  qed
qed

text \<open>Connecting waits at most fifteen seconds: five attempts with pauses of 1, 2, 4 and 8 seconds.\<close>

lemma retry_delay_small: "i < 4 \<Longrightarrow> retry_delay (1 * Second) i = 2 ^ i * Second"
  by (auto simp: retry_delay_def wrap64_def less_Suc_eq numeral_eq_Suc Let_def)

section \<open>The take-over of a legacy version table\<close>

text \<open>
  What is relied on of the database and the migration library, in terms of three observations:
  the recorded versions (\<open>None\<close> when there is no such table), the row of the legacy table and the
  migrations whose execution was begun, in order and with repetitions. Queries and locks change none
  of them. \<open>Up\<close> executes pending sources in their order and records each after it was executed; it
  may fail between the two, since MySQL commits a change of the schema at once, and then the last
  one that was begun is not recorded. When it reports success all sources are recorded. An
  insert whose answer is an error may have been made.
\<close>

record 'd mig_view =
  mv_rows :: "'d \<Rightarrow> int list option"
  mv_legacy :: "'d \<Rightarrow> (int \<times> bool) option"
  mv_ran :: "'d \<Rightarrow> int list"

definition recorded :: "'d mig_view \<Rightarrow> 'd \<Rightarrow> int list" where
  "recorded v d = (case mv_rows v d of None \<Rightarrow> [] | Some vs \<Rightarrow> vs)"

definition same_view :: "'d mig_view \<Rightarrow> 'd \<Rightarrow> 'd \<Rightarrow> bool" where
  "same_view v d d' \<longleftrightarrow> mv_rows v d' = mv_rows v d \<and> mv_legacy v d' = mv_legacy v d \<and> mv_ran v d' = mv_ran v d"

definition unapplied :: "'d mig_env \<Rightarrow> 'd mig_view \<Rightarrow> 'd \<Rightarrow> int list" where
  "unapplied e v d = filter (\<lambda>s. s \<notin> set (recorded v d)) (me_ListSources e)"

definition up_law :: "'d mig_env \<Rightarrow> 'd mig_view \<Rightarrow> bool" where
  "up_law e v \<longleftrightarrow> (\<forall>d r d'. me_Up e d = (r, d') \<longrightarrow> mv_legacy v d' = mv_legacy v d \<and>
     (\<exists>j k. j \<le> k \<and> k \<le> Suc j \<and> mv_ran v d' = mv_ran v d @ take k (unapplied e v d) \<and>
       (\<forall>s \<in> set (me_ListSources e). s \<in> set (recorded v d') \<longleftrightarrow> s \<in> set (recorded v d) \<or> s \<in> set (take j (unapplied e v d))) \<and>
       (r = None \<longrightarrow> length (unapplied e v d) \<le> j)))"

definition mig_laws :: "'d mig_env \<Rightarrow> 'd mig_view \<Rightarrow> bool" where
  "mig_laws e v \<longleftrightarrow> distinct (me_ListSources e) \<and> up_law e v \<and>
     (\<forall>dsn d r d'. me_Open e dsn d = (r, d') \<longrightarrow> same_view v d d') \<and>
     (\<forall>d r d'. me_Lock e d = (r, d') \<longrightarrow> same_view v d d') \<and>
     (\<forall>d r d'. me_Unlock e d = (r, d') \<longrightarrow> same_view v d d') \<and>
     (\<forall>n d r d'. me_TableQuery e n d = (r, d') \<longrightarrow> same_view v d d' \<and>
        (\<forall>b. r = Inr b \<longrightarrow> (n = gooseTable \<longrightarrow> b = (mv_rows v d \<noteq> None)) \<and> (n = legacyTable \<longrightarrow> b = (mv_legacy v d \<noteq> None)))) \<and>
     (\<forall>d r d'. me_GetLatestVersion e d = (r, d') \<longrightarrow> same_view v d d' \<and> (\<forall>x. r = Inr x \<longrightarrow> (x = None \<longleftrightarrow> recorded v d = []))) \<and>
     (\<forall>d r d'. me_LegacyQuery e d = (r, d') \<longrightarrow> same_view v d d' \<and> (\<forall>x. r = Inr x \<longrightarrow> mv_legacy v d = Some x)) \<and>
     (\<forall>d r d'. me_CreateVersionTable e d = (r, d') \<longrightarrow>
        recorded v d' = (if r = Inr () then [] else recorded v d) \<and> mv_legacy v d' = mv_legacy v d \<and> mv_ran v d' = mv_ran v d) \<and>
     (\<forall>s d r d'. me_Insert e s d = (r, d') \<longrightarrow>
        recorded v d' \<in> (if r = Inr () then {} else {recorded v d}) \<union> {recorded v d @ [s]} \<and> mv_legacy v d' = mv_legacy v d \<and> mv_ran v d' = mv_ran v d)"

lemma mig_lawsD:
  assumes "mig_laws e v"
  shows "distinct (me_ListSources e)" "up_law e v"
    "me_Open e dsn d = (ro, d') \<Longrightarrow> same_view v d d'" "me_Lock e d = (ro, d') \<Longrightarrow> same_view v d d'" "me_Unlock e d = (ro, d') \<Longrightarrow> same_view v d d'"
    "me_TableQuery e n d = (rt, d') \<Longrightarrow> same_view v d d'"
    "me_TableQuery e gooseTable d = (Inr b, d') \<Longrightarrow> b = (mv_rows v d \<noteq> None)"
    "me_TableQuery e legacyTable d = (Inr b, d') \<Longrightarrow> b = (mv_legacy v d \<noteq> None)"
    "me_GetLatestVersion e d = (rl, d') \<Longrightarrow> same_view v d d'"
    "me_GetLatestVersion e d = (Inr x, d') \<Longrightarrow> x = None \<longleftrightarrow> recorded v d = []"
    "me_LegacyQuery e d = (rq, d') \<Longrightarrow> same_view v d d'"
    "me_LegacyQuery e d = (Inr (ver, dirt), d') \<Longrightarrow> mv_legacy v d = Some (ver, dirt)"
    "me_CreateVersionTable e d = (rc, d') \<Longrightarrow> recorded v d' = (if rc = Inr () then [] else recorded v d) \<and> mv_ran v d' = mv_ran v d"
    "me_Insert e s d = (rc, d') \<Longrightarrow> mv_ran v d' = mv_ran v d \<and> (rc = Inr () \<longrightarrow> recorded v d' = recorded v d @ [s])"
  using assms unfolding mig_laws_def by - (auto split: if_splits)

lemma filter_not_taken: "distinct xs \<Longrightarrow> filter (\<lambda>x. x \<notin> set (take k xs)) xs = drop k xs"
proof -
  assume d: "distinct xs"
  have disj: "set (take k xs) \<inter> set (drop k xs) = {}" using d by (simp add: set_take_disj_set_drop_if_distinct)
  have "filter (\<lambda>x. x \<notin> set (take k xs)) (take k xs @ drop k xs) = drop k xs"
    unfolding filter_append using disj by (auto simp: filter_id_conv filter_empty_conv)
  then show ?thesis by simp
qed

lemma unapplied_after:
  assumes "distinct (me_ListSources e)"
    and "\<forall>s \<in> set (me_ListSources e). s \<in> set (recorded v d') \<longleftrightarrow> s \<in> set (recorded v d) \<or> s \<in> set (take k (unapplied e v d))"
  shows "unapplied e v d' = drop k (unapplied e v d)"
proof -
  have "unapplied e v d' = filter (\<lambda>s. s \<notin> set (take k (unapplied e v d))) (unapplied e v d)"
    using assms(2) unfolding unapplied_def by (auto simp: filter_filter intro!: filter_cong)
  also have "\<dots> = drop k (unapplied e v d)"
    using assms(1) by (intro filter_not_taken) (simp add: unapplied_def)
  finally show ?thesis .
qed

text \<open>The migrations \<open>us\<close> in their order, each begun at least once.\<close>

definition in_order :: "'a list \<Rightarrow> 'a list \<Rightarrow> bool" where
  "in_order us begun \<longleftrightarrow> (\<exists>ns. length ns = length us \<and> (\<forall>n \<in> set ns. 0 < n) \<and> begun = concat (map2 replicate ns us))"

lemma in_order_all: "in_order us us"
proof -
  have "us = concat (map2 replicate (replicate (length us) 1) us)" by (induction us) simp_all
  then show ?thesis unfolding in_order_def by (intro exI [of _ "replicate (length us) 1"]) auto
qed

lemma in_order_append: "in_order us xs \<Longrightarrow> in_order vs ys \<Longrightarrow> in_order (us @ vs) (xs @ ys)"
proof -
  assume "in_order us xs" "in_order vs ys"
  then obtain ns ms where "length ns = length us" "\<forall>n \<in> set ns. 0 < n" "xs = concat (map2 replicate ns us)"
    "length ms = length vs" "\<forall>n \<in> set ms. 0 < n" "ys = concat (map2 replicate ms vs)"
    unfolding in_order_def by blast
  then show ?thesis unfolding in_order_def by (intro exI [of _ "ns @ ms"]) auto
qed

lemma in_order_again: "in_order (u # us) xs \<Longrightarrow> in_order (u # us) (u # xs)"
proof -
  assume "in_order (u # us) xs"
  then obtain ns where ns: "length ns = Suc (length us)" "\<forall>n \<in> set ns. 0 < n" "xs = concat (map2 replicate ns (u # us))"
    unfolding in_order_def by auto
  then obtain n ms where "ns = n # ms" by (cases ns) simp_all
  with ns show ?thesis unfolding in_order_def by (intro exI [of _ "Suc n # ms"]) auto
qed

lemma in_order_retry:
  assumes "j \<le> k" and "k \<le> Suc j" and "in_order (drop j us) xs"
  shows "in_order us (take k us @ xs)"
proof (cases "k = j \<or> length us \<le> j")
  case True
  then have "take k us = take j us" using assms(1) by auto
  then show ?thesis using in_order_append [OF in_order_all assms(3), of "take j us"] by simp
next
  case False
  then have k: "k = Suc j" and j: "j < length us" using assms by auto
  then have d: "drop j us = us ! j # drop k us" by (simp add: Cons_nth_drop_Suc)
  have "in_order (take j us @ drop j us) (take j us @ us ! j # xs)"
    using assms(3) unfolding d by (intro in_order_append in_order_all in_order_again)
  then show ?thesis using j k by (simp add: take_Suc_conv_app_nth)
qed

text \<open>A loop of \<open>Up\<close> begins pending migrations only; when it ends well it has begun all of them in order.\<close>

lemma retry_up:
  assumes "distinct (me_ListSources e)" and "up_law e v"
    and "retry_from attempts b op (me_Up e) i err d = (r, pauses, d')"
  shows "\<exists>begun. mv_ran v d' = mv_ran v d @ begun \<and> set begun \<subseteq> set (unapplied e v d) \<and>
    (r = None \<longrightarrow> in_order (unapplied e v d) begun \<and> set (me_ListSources e) \<subseteq> set (recorded v d'))"
  using assms(3)
proof (induction attempts b op "me_Up e" i err d arbitrary: pauses rule: retry_from.induct)
  case (1 attempts b op i err d)
  let ?us = "unapplied e v d"
  obtain q d1 where up: "me_Up e d = (q, d1)" by fastforce
  with assms(2) obtain j k where k: "j \<le> k" "k \<le> Suc j" "mv_ran v d1 = mv_ran v d @ take k ?us"
    "\<forall>s \<in> set (me_ListSources e). s \<in> set (recorded v d1) \<longleftrightarrow> s \<in> set (recorded v d) \<or> s \<in> set (take j ?us)"
    "q = None \<longrightarrow> length ?us \<le> j"
    unfolding up_law_def by blast
  note later = unapplied_after [OF assms(1) k(4)]
  consider "attempts \<le> i" | "\<not> attempts \<le> i" "q = None" | x where "\<not> attempts \<le> i" "q = Some x" "i = attempts - 1"
    | x where "\<not> attempts \<le> i" "q = Some x" "i \<noteq> attempts - 1" by (cases q) auto
  then show ?case
  proof cases
    case 1
    then show ?thesis using "1.prems" by (subst (asm) retry_from.simps) auto
  next
    case 2
    then have "r = None" "d' = d1" using "1.prems" up by (subst (asm) retry_from.simps; simp)+
    moreover have "take k ?us = ?us" "set (me_ListSources e) \<subseteq> set (recorded v d1)"
      using k 2 by (auto simp: unapplied_def)
    ultimately show ?thesis using k(3) in_order_all [of ?us] by (intro exI [of _ ?us]) simp
  next
    case 3
    then have "r \<noteq> None" "d' = d1" using "1.prems" up by (subst (asm) retry_from.simps; auto)+
    then show ?thesis using k(3) by (intro exI [of _ "take k ?us"]) (auto dest: in_set_takeD)
  next
    case 4
    then obtain ps where "retry_from attempts b op (me_Up e) (Suc i) (Some x) d1 = (r, ps, d')"
      using "1.prems" up by (subst (asm) retry_from.simps) (auto split: prod.splits)
    from "1.hyps" [OF 4(1) up [symmetric] 4(2,3) this] obtain begun where
      b: "mv_ran v d' = mv_ran v d1 @ begun" "set begun \<subseteq> set (drop j ?us)"
        "r = None \<longrightarrow> in_order (drop j ?us) begun \<and> set (me_ListSources e) \<subseteq> set (recorded v d')"
      unfolding later by blast
    then show ?thesis using k(3) in_order_retry [OF k(1,2), of ?us begun]
      by (intro exI [of _ "take k ?us @ begun"]) (auto dest: in_set_takeD in_set_dropD)
  qed
qed

lemma seed_versions_rows:
  assumes "mig_laws e v" and "seed_versions e L vs d = (r, d')"
  shows "mv_ran v d' = mv_ran v d \<and> (r = Inr () \<longrightarrow> recorded v d' = recorded v d @ filter (\<lambda>s. s \<le> L) vs)"
  using assms(2)
proof (induction vs arbitrary: d)
  case (Cons x vs)
  obtain q d1 where i: "me_Insert e x d = (q, d1)" by fastforce
  from mig_lawsD(14) [OF assms(1) i] Cons i show ?case by (auto split: if_splits sum.splits)
qed simp

lemma seed_from_legacy_rows:
  assumes "mig_laws e v" and "mv_legacy v d = Some (L, dirty)" and "recorded v d = []" and "seed_from_legacy e ex vs d = (r, d')"
  shows "mv_ran v d' = mv_ran v d \<and> (if dirty then r \<noteq> Inr () \<and> recorded v d' = [] else r = Inr () \<longrightarrow> recorded v d' = filter (\<lambda>s. s \<le> L) vs)"
proof -
  obtain q d1 where q: "me_LegacyQuery e d = (q, d1)" by fastforce
  obtain c d2 where c: "(if ex then (Inr (), d1) else me_CreateVersionTable e d1) = (c, d2)" by fastforce
  have 1: "recorded v d1 = []" "mv_ran v d1 = mv_ran v d"
    using mig_lawsD(11) [OF assms(1) q] assms(3) by (simp_all add: same_view_def recorded_def)
  have 2: "recorded v d2 = []" "mv_ran v d2 = mv_ran v d"
    using c 1 mig_lawsD(13) [OF assms(1), of d1 c d2] by (auto split: if_splits)
  have row: "q = Inr (x, y) \<Longrightarrow> x = L \<and> y = dirty" for x y
    using mig_lawsD(12) [OF assms(1), of d x y d1] q assms(2) by simp
  show ?thesis
  proof (cases q)
    case (Inl err)
    then show ?thesis using assms(4) q 1 by (auto simp: seed_from_legacy_def)
  next
    case (Inr p)
    then have p: "q = Inr (L, dirty)" using row by (cases p) simp
    show ?thesis
    proof (cases "\<not> dirty \<and> c = Inr ()")
      case True
      then have "seed_versions e L vs d2 = (r, d')" using assms(4) q c p by (simp add: seed_from_legacy_def)
      from seed_versions_rows [OF assms(1) this] True 2 show ?thesis by simp
    next
      case False
      then show ?thesis using assms(4) q c p 1 2 by (cases c) (auto simp: seed_from_legacy_def split: if_splits)
    qed
  qed
qed

lemma seedLegacy_rows:
  assumes "mig_laws e v" and "mv_legacy v d = Some (L, dirty)" and "recorded v d = []" and "seedLegacyMigrations e vs d = (r, d')"
  shows "mv_ran v d' = mv_ran v d \<and> (if dirty then r \<noteq> Inr () \<and> recorded v d' = [] else r = Inr () \<longrightarrow> recorded v d' = filter (\<lambda>s. s \<le> L) vs)"
proof -
  obtain g d1 where g: "me_TableQuery e gooseTable d = (g, d1)" by fastforce
  obtain l d2 where l: "me_TableQuery e legacyTable d1 = (l, d2)" by fastforce
  obtain q d3 where q: "me_GetLatestVersion e d2 = (q, d3)" by fastforce
  have 1: "same_view v d d1" "same_view v d d2" "same_view v d d3"
    using mig_lawsD(6) [OF assms(1) g] mig_lawsD(6) [OF assms(1) l] mig_lawsD(9) [OF assms(1) q] by (simp_all add: same_view_def)
  then have views: "recorded v d1 = []" "recorded v d2 = []" "recorded v d3 = []" "mv_ran v d1 = mv_ran v d" "mv_ran v d2 = mv_ran v d"
    "mv_ran v d3 = mv_ran v d" "mv_legacy v d1 = Some (L, dirty)" "mv_legacy v d2 = Some (L, dirty)" "mv_legacy v d3 = Some (L, dirty)"
    using assms(2,3) by (simp_all add: same_view_def recorded_def)
  have "l = Inr b \<Longrightarrow> b" for b using mig_lawsD(8) [OF assms(1), of d1 b d2] l views by simp
  moreover have "q \<noteq> Inr (Some x)" for x using mig_lawsD(10) [OF assms(1), of d2 "Some x" d3] q views by auto
  ultimately show ?thesis
    using assms(3,4) g l q views seed_from_legacy_rows [OF assms(1) views(8,2), of _ vs r d'] seed_from_legacy_rows [OF assms(1) views(9,3), of _ vs r d']
    by (auto simp: seedLegacyMigrations_def tableExists_def split: sum.splits if_splits option.splits)
qed

definition taken_over :: "'d mig_env \<Rightarrow> 'd mig_view \<Rightarrow> int \<Rightarrow> bool \<Rightarrow> 'd \<Rightarrow> unit result \<Rightarrow> 'd \<Rightarrow> bool" where
  "taken_over e v L dirty d r d' \<longleftrightarrow>
     (dirty \<longrightarrow> r \<noteq> Inr () \<and> mv_ran v d' = mv_ran v d \<and> recorded v d' = []) \<and>
     (\<exists>begun. mv_ran v d' = mv_ran v d @ begun \<and> set begun \<subseteq> {s \<in> set (me_ListSources e). L < s} \<and>
        (r = Inr () \<longrightarrow> in_order (filter (\<lambda>s. L < s) (me_ListSources e)) begun \<and> set (me_ListSources e) \<subseteq> set (recorded v d')))"

lemma migrate_locked_rows:
  assumes "mig_laws e v" and "mv_legacy v d = Some (L, dirty)" and "recorded v d = []" and "migrate_locked e d = (r, d')"
  shows "taken_over e v L dirty d r d'"
proof -
  obtain s d1 where s: "seedLegacyMigrations e (me_ListSources e) d = (s, d1)" by fastforce
  obtain u ps d2 where u: "retryWithBackoff 5 (1 * Second) ''migrate up'' (me_Up e) d1 = (u, ps, d2)" by (metis prod_cases3)
  note seeded = seedLegacy_rows [OF assms(1-3) s]
  show ?thesis
  proof (cases "is_ok (me_NewProvider e) \<and> s = Inr ()")
    case True
    then have run: "d' = d2" "r = Inr () \<longleftrightarrow> u = None"
      using assms(4) s u by (auto simp: migrate_locked_def is_ok_iff split: sum.splits option.splits)
    have clean: "\<not> dirty" "mv_ran v d1 = mv_ran v d" using seeded True by (auto split: if_splits)
    have "unapplied e v d1 = filter (\<lambda>x. L < x) (me_ListSources e)"
      using seeded True by (auto simp: unapplied_def intro!: filter_cong split: if_splits)
    with retry_up [OF mig_lawsD(1,2) [OF assms(1)], of 5 "1 * Second" "''migrate up''" 0 None d1 u ps d2] u run clean
    show ?thesis by (auto simp: retryWithBackoff_def taken_over_def)
  next
    case False
    then have "r \<noteq> Inr () \<and> (d' = d \<or> d' = d1 \<and> s \<noteq> Inr ())"
      using assms(4) s by (auto simp: migrate_locked_def is_ok_iff split: sum.splits option.splits)
    then show ?thesis
      using assms(3) seeded by (auto simp: taken_over_def split: if_splits)
  qed
qed

text \<open>
  C37: The take-over of a database of the older migration tool. Its version table says that version
  \<open>L\<close> was reached, and no version is recorded in the new table yet. However the run ends, it begins
  no migration up to \<open>L\<close>; when it succeeds it has begun exactly the later ones, in order, and all
  are recorded. A migration may be begun again within the run, when an attempt failed before it
  was recorded. When the old table says that a migration failed half-way, the run is refused,
  and nothing is executed or recorded.
\<close>

theorem legacy_take_over:
  assumes "mig_laws e v" and "mv_legacy v d = Some (L, dirty)" and "recorded v d = []" and "runMigrations e dsn d = (r, d')"
  shows "(dirty \<longrightarrow> r \<noteq> Inr () \<and> mv_ran v d' = mv_ran v d \<and> recorded v d' = []) \<and>
    (\<exists>begun. mv_ran v d' = mv_ran v d @ begun \<and> set begun \<subseteq> {s \<in> set (me_ListSources e). L < s} \<and>
       (r = Inr () \<longrightarrow> in_order (filter (\<lambda>s. L < s) (me_ListSources e)) begun \<and> set (me_ListSources e) \<subseteq> set (recorded v d')))"
proof -
  obtain op d1 where op: "me_Open e (with_multi_statements dsn) d = (op, d1)" by fastforce
  obtain l d2 where l: "me_Lock e d1 = (l, d2)" by fastforce
  obtain q d3 where q: "migrate_locked e d2 = (q, d3)" by fastforce
  obtain k d4 where k: "me_Unlock e d3 = (k, d4)" by fastforce
  have views: "same_view v d d1" "same_view v d1 d2" "same_view v d3 d4"
    using mig_lawsD(3) [OF assms(1) op] mig_lawsD(4) [OF assms(1) l] mig_lawsD(5) [OF assms(1) k] by simp_all
  have "mv_legacy v d2 = Some (L, dirty)" "recorded v d2 = []"
    using views assms(2,3) by (simp_all add: same_view_def recorded_def)
  from migrate_locked_rows [OF assms(1) this q] have t: "taken_over e v L dirty d2 q d3" .
  have "taken_over e v L dirty d r d'"
  proof (cases "r = q \<and> d' = d4")
    case True
    with t views assms(3) show ?thesis by (auto simp: taken_over_def same_view_def recorded_def)
  next
    case False
    then have "r \<noteq> Inr () \<and> (d' = d1 \<or> d' = d2)"
      using assms(4) op l q k by (auto simp: runMigrations_def split: sum.splits)
    with views assms(3) show ?thesis by (auto simp: taken_over_def same_view_def recorded_def)
  qed
  then show ?thesis by (simp add: taken_over_def)
qed

text \<open>
  A take-over that was interrupted is not resumed. When an insert of the seed failed after others
  had succeeded, the next run finds a recorded version and does not seed: it executes the
  migrations that are not recorded, also those the old tool had executed.
\<close>

theorem interrupted_seed_reruns:
  assumes "mig_laws e v" and "mv_legacy v d = Some (L, False)" and "mv_rows v d = Some (x # xs)" and "migrate_locked e d = (Inr (), d')"
  shows "\<exists>begun. mv_ran v d' = mv_ran v d @ begun \<and> in_order (filter (\<lambda>s. s \<notin> set (x # xs)) (me_ListSources e)) begun"
proof -
  obtain s d1 where s: "seedLegacyMigrations e (me_ListSources e) d = (s, d1)" by fastforce
  obtain u ps d2 where u: "retryWithBackoff 5 (1 * Second) ''migrate up'' (me_Up e) d1 = (u, ps, d2)" by (metis prod_cases3)
  have run: "s = Inr ()" "u = None" "d' = d2"
    using assms(4) s u by (auto simp: migrate_locked_def split: sum.splits option.splits)
  obtain g da where g: "me_TableQuery e gooseTable d = (g, da)" by fastforce
  obtain l db where l: "me_TableQuery e legacyTable da = (l, db)" by fastforce
  obtain q dc where q: "me_GetLatestVersion e db = (q, dc)" by fastforce
  have views: "same_view v d da" "same_view v da db" "same_view v db dc"
    using mig_lawsD(6) [OF assms(1) g] mig_lawsD(6) [OF assms(1) l] mig_lawsD(9) [OF assms(1) q] by simp_all
  have "g = Inr b \<Longrightarrow> b" for b using mig_lawsD(7) [OF assms(1), of d b da] g assms(3) by simp
  moreover have "mv_legacy v da \<noteq> None" using views(1) assms(2) by (simp add: same_view_def)
  then have "l = Inr b \<Longrightarrow> b" for b using mig_lawsD(8) [OF assms(1), of da b db] l by blast
  moreover have "q \<noteq> Inr None"
    using mig_lawsD(10) [OF assms(1), of db None dc] q views assms(3) by (auto simp: same_view_def recorded_def)
  ultimately have "d1 = dc"
    using s run(1) g l q by (auto simp: seedLegacyMigrations_def tableExists_def split: sum.splits if_splits option.splits)
  then have "mv_ran v d1 = mv_ran v d" "unapplied e v d1 = filter (\<lambda>s. s \<notin> set (x # xs)) (me_ListSources e)"
    using views assms(3) by (simp_all add: same_view_def unapplied_def recorded_def)
  with retry_up [OF mig_lawsD(1,2) [OF assms(1)], of 5 "1 * Second" "''migrate up''" 0 None d1 u ps d2] u run
  show ?thesis by (auto simp: retryWithBackoff_def)
qed

text \<open>A server with four migrations: the recorded versions, the old table, and what was executed.\<close>

type_synonym demo_mig_db = "int list option \<times> (int \<times> bool) option \<times> int list"

definition demo_mig_view :: "demo_mig_db mig_view" where
  "demo_mig_view = \<lparr>mv_rows = fst, mv_legacy = fst \<circ> snd, mv_ran = snd \<circ> snd\<rparr>"

fun demo_up :: "demo_mig_db \<Rightarrow> goerr option \<times> demo_mig_db" where
  "demo_up (rows, old, done_so_far) =
     (let vs = (case rows of None \<Rightarrow> [] | Some vs \<Rightarrow> vs); p = filter (\<lambda>s. s \<notin> set vs) [1, 2, 3, 4] in (None, Some (vs @ p), old, done_so_far @ p))"

definition demo_mig :: "demo_mig_db mig_env" where
  "demo_mig = \<lparr>me_Open = (\<lambda>_ d. (Inr (), d)), me_Ping = Pair None, me_NewLocker = Inr (), me_Lock = Pair (Inr ()), me_Unlock = Pair (Inr ()),
     me_NewProvider = Inr (), me_ListSources = [1, 2, 3, 4], me_Up = demo_up, me_NewStore = Inr (),
     me_TableQuery = (\<lambda>n d. (Inr (if n = gooseTable then fst d \<noteq> None else fst (snd d) \<noteq> None), d)),
     me_GetLatestVersion = (\<lambda>d. (Inr (case fst d of Some (x # xs) \<Rightarrow> Some x | _ \<Rightarrow> None), d)),
     me_LegacyQuery = (\<lambda>d. (case fst (snd d) of None \<Rightarrow> Inl (Errorf ''no rows'') | Some x \<Rightarrow> Inr x, d)),
     me_CreateVersionTable = (\<lambda>d. (Inr (), Some [], snd d)),
     me_Insert = (\<lambda>x d. (Inr (), Some ((case fst d of None \<Rightarrow> [] | Some vs \<Rightarrow> vs) @ [x]), snd d))\<rparr>"

lemma demo_mig_laws: "mig_laws demo_mig demo_mig_view"
proof -
  have "demo_up d = (None, Some (recorded demo_mig_view d @ unapplied demo_mig demo_mig_view d), fst (snd d), snd (snd d) @ unapplied demo_mig demo_mig_view d)" for d
    by (cases d) (simp add: demo_mig_def demo_mig_view_def unapplied_def recorded_def Let_def)
  then have up: "me_Up demo_mig d = (None, Some (recorded demo_mig_view d @ unapplied demo_mig demo_mig_view d), fst (snd d),
      snd (snd d) @ unapplied demo_mig demo_mig_view d)" for d
    by (simp add: demo_mig_def)
  have sel: "mv_legacy demo_mig_view d = fst (snd d)" "mv_ran demo_mig_view d = snd (snd d)" "recorded demo_mig_view (Some vs, x) = vs" for d vs x
    by (simp_all add: demo_mig_view_def recorded_def)
  have "up_law demo_mig demo_mig_view"
    unfolding up_law_def up
  proof (intro allI impI, elim Pair_inject)
    fix d r d' assume d': "(Some (recorded demo_mig_view d @ unapplied demo_mig demo_mig_view d), fst (snd d), snd (snd d) @ unapplied demo_mig demo_mig_view d) = d'"
    show "mv_legacy demo_mig_view d' = mv_legacy demo_mig_view d \<and>
       (\<exists>j k. j \<le> k \<and> k \<le> Suc j \<and> mv_ran demo_mig_view d' = mv_ran demo_mig_view d @ take k (unapplied demo_mig demo_mig_view d) \<and>
         (\<forall>s \<in> set (me_ListSources demo_mig). s \<in> set (recorded demo_mig_view d') \<longleftrightarrow>
            s \<in> set (recorded demo_mig_view d) \<or> s \<in> set (take j (unapplied demo_mig demo_mig_view d))) \<and>
         (r = None \<longrightarrow> length (unapplied demo_mig demo_mig_view d) \<le> j))"
      unfolding d' [symmetric] by (intro conjI exI [where x = "length (unapplied demo_mig demo_mig_view d)"]) (simp_all add: sel)
  qed
  then show ?thesis
    by (auto simp: mig_laws_def demo_mig_def demo_mig_view_def same_view_def recorded_def split: option.splits list.splits)
qed

theorem legacy_take_over_witness:
  "case runMigrations demo_mig ''db'' (None, Some (2, False), []) of (r, d') \<Rightarrow> r = Inr () \<and> set (mv_ran demo_mig_view d') \<subseteq> {3, 4} \<and>
     in_order [3, 4] (mv_ran demo_mig_view d')"
proof -
  let ?d = "(None, Some (2, False), []) :: demo_mig_db"
  let ?r = "runMigrations demo_mig ''db'' ?d"
  have ok: "fst ?r = Inr ()" by code_simp
  have "mv_legacy demo_mig_view ?d = Some (2, False)" "recorded demo_mig_view ?d = []" by (simp_all add: demo_mig_view_def recorded_def)
  from legacy_take_over [OF demo_mig_laws this, of "''db''" "fst ?r" "snd ?r", OF prod.collapse [symmetric]] ok obtain begun where
    "mv_ran demo_mig_view (snd ?r) = mv_ran demo_mig_view ?d @ begun" "set begun \<subseteq> {s \<in> set (me_ListSources demo_mig). 2 < s}"
    "in_order (filter (\<lambda>s. 2 < s) (me_ListSources demo_mig)) begun"
    by auto
  moreover have "me_ListSources demo_mig = [1, 2, 3, 4]" "mv_ran demo_mig_view ?d = []"
    by (simp_all add: demo_mig_def demo_mig_view_def)
  ultimately show ?thesis using ok by (auto simp: split_beta)
qed

end
