(* ===== verification/Main_Wiring.thy ===== *)
theory Main_Wiring
  imports Orch_Loops Server_Life Store_Setup Cred_Models Chatgpt_Auth
begin

text \<open>
  The process (\<open>cmd/kraclaw/main.go\<close>): what it constructs in which order, what it hands to each
  component, when it ends with which status, and in which order it shuts down. What lies
  outside (the environment variables, the answers of MySQL, NATS and Kubernetes, the ends of
  the long-running goroutines) are the fields of \<open>main_env\<close>; the constructors of the
  repository are their own models. The result is the list of what the process did and its
  exit status. The theorems: it serves only when everything it needs is up, and it closes
  what it opened in the reverse order, unless it ends by \<open>os.Exit\<close>, which runs no deferred call.
\<close>

section \<open>Helpers of main\<close>

datatype log_level = LevelDebug | LevelInfo | LevelWarn | LevelError

definition setupLogger :: "string \<Rightarrow> string \<Rightarrow> log_level \<times> bool" where
  "setupLogger level format =
     ((if level = ''debug'' then LevelDebug else if level = ''warn'' then LevelWarn else if level = ''error'' then LevelError else LevelInfo),
      format \<noteq> ''text'')"

text \<open>The result and whether the connection is open: a failed flush closes it again.\<close>

definition connectNATS :: "unit result \<Rightarrow> unit result \<Rightarrow> unit result \<times> bool" where
  "connectNATS connect flush =
     (case connect of
        Inl err \<Rightarrow> (Inl (Wrapf ''connect'' err), False)
      | Inr _ \<Rightarrow> (case flush of Inl err \<Rightarrow> (Inl (Wrapf ''flush'' err), False) | Inr _ \<Rightarrow> (Inr (), True)))"

definition connectKubernetes :: "bool \<Rightarrow> unit result \<Rightarrow> unit result \<Rightarrow> unit result \<Rightarrow> unit result" where
  "connectKubernetes inCluster inClusterConfig clientConfig newForConfig =
     (case (if inCluster then inClusterConfig else clientConfig) of
        Inl err \<Rightarrow> Inl err
      | Inr _ \<Rightarrow> (case newForConfig of Inl err \<Rightarrow> Inl err | Inr _ \<Rightarrow> Inr ()))"

definition agent_images :: "K8sConfig \<Rightarrow> (string \<times> string) list" where
  "agent_images k =
     (if k8_AgentImageAnthropic k \<noteq> [] then [(ProviderAnthropic, k8_AgentImageAnthropic k)] else []) @
     (if k8_AgentImageOpenAI k \<noteq> [] then [(ProviderOpenAI, k8_AgentImageOpenAI k)] else [])"

text \<open>\<open>sandbox.New\<close>; the clientset is the only argument it tests.\<close>

definition Sandbox_New :: "'k option \<Rightarrow> string \<Rightarrow> (string \<times> string) list \<Rightarrow> string \<Rightarrow> string \<Rightarrow> string \<Rightarrow> bool \<Rightarrow> Controller result" where
  "Sandbox_New clientset namespace images natsURL proxyURL natsAuthSecret fastStart =
     (case clientset of
        None \<Rightarrow> Inl (Errorf ''sandbox: kubernetes clientset is required'')
      | Some _ \<Rightarrow> Inr \<lparr>k_namespace = namespace, k_agentImages = images, k_natsURL = natsURL, k_proxyURL = proxyURL,
          k_natsAuthSecret = natsAuthSecret, k_fastStartEnabled = fastStart\<rparr>)"

section \<open>The process\<close>

datatype resource = RStore | RNats | RBroker | RQueue

text \<open>\<open>ServerStarted\<close> carries what the server gets: the sandbox controller, the model lister, the sign-in.\<close>

datatype main_act =
    Opened resource
  | Closed resource
  | OrchStarted
  | ProxyStarted
  | ServerStarted "Controller option" bool bool
  | ServerEnded "unit result"
  | ServerStopped
  | OrchStopped
  | ProxyStopped
  | Cancelled

text \<open>
  \<open>mn_orchEarly\<close> and \<open>mn_proxyEarly\<close> say what \<open>main\<close> sees while it waits for an early failure: nothing
  until its time is over, or the end of the goroutine with its error, and whether the
  context had ended then.
\<close>

record main_env =
  mn_process :: "Config result"
  mn_loadLocation :: "string \<Rightarrow> unit result"
  mn_store :: "unit result"
  mn_connect :: "unit result"
  mn_flush :: "unit result"
  mn_broker :: "unit result"
  mn_queue :: "unit result"
  mn_natsURL :: string
  mn_natsAuthSecret :: string
  mn_inClusterConfig :: "unit result"
  mn_clientConfig :: "unit result"
  mn_newForConfig :: "unit result"
  mn_newWithWatch :: "unit result"
  mn_newCipher :: "string \<Rightarrow> aead result result"
  mn_probe :: "string option"
  mn_get :: "aead \<Rightarrow> string \<Rightarrow> Credential option result"
  mn_parse :: "string \<Rightarrow> URL result"
  mn_issuer :: string
  mn_orchConfig :: orch_config
  mn_orchEarly :: "(goerr option \<times> bool) option"
  mn_proxyEarly :: "(goerr option \<times> bool) option"
  mn_server :: "Controller option \<Rightarrow> bool \<Rightarrow> bool \<Rightarrow> unit result"
  mn_serverRun :: "unit result"

text \<open>A stage ends the process with a status (\<open>Inl\<close>) or goes on with a value.\<close>

type_synonym 'a stage = "main_act list \<times> (int + 'a)"

definition then_stage :: "'a stage \<Rightarrow> ('a \<Rightarrow> 'b stage) \<Rightarrow> 'b stage" where
  "then_stage s f = (case s of (acts, Inl code) \<Rightarrow> (acts, Inl code) | (acts, Inr x) \<Rightarrow> (case f x of (acts', r) \<Rightarrow> (acts @ acts', r)))"

text \<open>A constructor whose failure ends the process by \<open>os.Exit(1)\<close>.\<close>

definition or_exit :: "'a result \<Rightarrow> main_act list \<Rightarrow> 'a stage" where
  "or_exit r acts = (case r of Inl _ \<Rightarrow> ([], Inl 1) | Inr x \<Rightarrow> (acts, Inr x))"

definition main_open :: "main_env \<Rightarrow> Config stage" where
  "main_open e =
     then_stage (or_exit (Config_Load (mn_process e) (mn_loadLocation e)) []) (\<lambda>cfg.
     then_stage (or_exit (mn_store e) [Opened RStore]) (\<lambda>_.
     then_stage (or_exit (fst (connectNATS (mn_connect e) (mn_flush e))) [Opened RNats]) (\<lambda>_.
     then_stage (or_exit (mn_broker e) [Opened RBroker]) (\<lambda>_.
     then_stage (or_exit (mn_queue e) [Opened RQueue]) (\<lambda>_. ([], Inr cfg))))))"

text \<open>Without Kubernetes the process goes on without a sandbox controller.\<close>

definition main_sandbox :: "main_env \<Rightarrow> Config \<Rightarrow> Controller option result" where
  "main_sandbox e cfg =
     (case connectKubernetes (k8_InCluster (cf_K8s cfg)) (mn_inClusterConfig e) (mn_clientConfig e) (mn_newForConfig e) of
        Inl _ \<Rightarrow> Inr None
      | Inr k8sClient \<Rightarrow>
          (case mn_newWithWatch e of
             Inl _ \<Rightarrow> Inr None
           | Inr _ \<Rightarrow>
               (case Sandbox_New (Some k8sClient) (k8_Namespace (cf_K8s cfg)) (agent_images (cf_K8s cfg)) (mn_natsURL e)
                       (k8_SandboxProxyURL (cf_K8s cfg)) (mn_natsAuthSecret e) (k8_FastStartEnabled (cf_K8s cfg)) of
                  Inl err \<Rightarrow> Inl err
                | Inr c \<Rightarrow> Inr (Some c))))"

definition needsMultiProvider :: "ProxyConfig \<Rightarrow> bool" where
  "needsMultiProvider p \<longleftrightarrow> pc_CredentialEncryptionKey p \<noteq> [] \<or> pc_OpenAIAPIKey p \<noteq> []"

text \<open>The cipher of the credential store, when there is one, and the resolver, when there is one.\<close>

definition main_credentials :: "main_env \<Rightarrow> ProxyConfig \<Rightarrow> (aead option \<times> CredentialResolver option) stage" where
  "main_credentials e p =
     (if needsMultiProvider p then
        if pc_CredentialEncryptionKey p \<noteq> [] then
          then_stage (or_exit (NewEncryptor (mn_newCipher e) (pc_CredentialEncryptionKey p)) []) (\<lambda>enc.
          then_stage (or_exit (NewCredentialStore True (Some enc) (mn_probe e)) []) (\<lambda>ae.
          ([], Inr (Some ae, Some (Resolve (Some (mn_get e ae)) p)))))
        else ([], Inr (None, Some (Resolve None p)))
      else ([], Inr (None, None)))"

text \<open>The wait for an early end of a goroutine: an error exits unless the context has ended.\<close>

definition early_failure :: "(goerr option \<times> bool) option \<Rightarrow> unit stage" where
  "early_failure early = (case early of Some (Some _, False) \<Rightarrow> ([], Inl 1) | _ \<Rightarrow> ([], Inr ()))"

definition main_proxy :: "main_env \<Rightarrow> ProxyConfig \<Rightarrow> CredentialResolver option \<Rightarrow> unit stage" where
  "main_proxy e p resolver =
     then_stage (or_exit (case resolver of Some res \<Rightarrow> NewMultiProviderProxy (mn_parse e) p res | None \<Rightarrow> Proxy_New (mn_parse e) p) [ProxyStarted])
       (\<lambda>_. early_failure (mn_proxyEarly e))"

definition main_serve :: "main_env \<Rightarrow> Controller option \<Rightarrow> aead option \<times> CredentialResolver option \<Rightarrow> unit stage" where
  "main_serve e ctrl creds =
     then_stage (or_exit (NewClient (mn_issuer e) [] 0 0) []) (\<lambda>_.
     let auth = (fst creds \<noteq> None); lister = (snd creds \<noteq> None)
     in then_stage (or_exit (mn_server e ctrl lister auth) [ServerStarted ctrl lister auth]) (\<lambda>_.
        ([ServerEnded (mn_serverRun e), ServerStopped, OrchStopped, ProxyStopped], Inr ())))"

text \<open>The deferred calls, in the reverse order of their \<open>defer\<close> statements.\<close>

definition main_defers :: "main_act list" where
  "main_defers = [Closed RQueue, Closed RBroker, Closed RNats, Closed RStore, Cancelled]"

text \<open>A \<open>return\<close> of \<open>main\<close> runs the deferred calls and ends with status 0.\<close>

definition main_return :: "unit stage \<Rightarrow> main_act list \<times> int" where
  "main_return s = (case s of (acts, Inl code) \<Rightarrow> (acts, code) | (acts, Inr _) \<Rightarrow> (acts @ main_defers, 0))"

definition main_process :: "main_env \<Rightarrow> main_act list \<times> int" where
  "main_process e = main_return (then_stage (main_open e) (\<lambda>cfg.
     case main_sandbox e cfg of
       Inl _ \<Rightarrow> ([], Inr ())
     | Inr ctrl \<Rightarrow>
         then_stage (main_credentials e (cf_Proxy cfg)) (\<lambda>creds.
         case Orchestrator_New (Some (mn_orchConfig e)) (Some ()) (Some ()) (Some ()) ctrl (Some ()) (Some ()) (snd creds) () of
           Inl _ \<Rightarrow> ([], Inr ())
         | Inr _ \<Rightarrow>
             then_stage (then_stage ([OrchStarted], Inr ()) (\<lambda>_. early_failure (mn_orchEarly e))) (\<lambda>_.
             then_stage (main_proxy e (cf_Proxy cfg) (snd creds)) (\<lambda>_. main_serve e ctrl creds)))))"

section \<open>Order of start and shutdown\<close>

definition start_acts :: "Controller option \<Rightarrow> bool \<Rightarrow> bool \<Rightarrow> main_act list" where
  "start_acts ctrl lister auth = [Opened RStore, Opened RNats, Opened RBroker, Opened RQueue, OrchStarted, ProxyStarted, ServerStarted ctrl lister auth]"

definition stop_acts :: "unit result \<Rightarrow> main_act list" where
  "stop_acts r = [ServerEnded r, ServerStopped, OrchStopped, ProxyStopped, Closed RQueue, Closed RBroker, Closed RNats, Closed RStore, Cancelled]"

lemma then_stage_simps [simp]:
  "then_stage (acts, Inl code) f = (acts, Inl code)"
  "then_stage (acts, Inr x) f = (acts @ fst (f x), snd (f x))"
  by (simp_all add: then_stage_def split_beta)

lemma or_exit_simps [simp]: "or_exit (Inl err) acts = ([], Inl 1)" "or_exit (Inr x) acts = (acts, Inr x)"
  by (simp_all add: or_exit_def)

lemma connectNATS_result: "fst (connectNATS c f) = (case c of Inl err \<Rightarrow> Inl (Wrapf ''connect'' err) | Inr _ \<Rightarrow> (case f of Inl err \<Rightarrow> Inl (Wrapf ''flush'' err) | Inr _ \<Rightarrow> Inr ()))"
  by (simp add: connectNATS_def split: sum.split)

text \<open>The stages on their own: how far each gets.\<close>

lemma main_open_cases:
  "(\<exists>n \<le> 3. main_open e = (take n (start_acts None False False), Inl 1)) \<or>
   (\<exists>cfg. Config_Load (mn_process e) (mn_loadLocation e) = Inr cfg \<and> main_open e = (take 4 (start_acts None False False), Inr cfg))"
proof -
  let ?a = "start_acts None False False"
  have "main_open e = (take 0 ?a, Inl 1) \<or> main_open e = (take 1 ?a, Inl 1) \<or> main_open e = (take 2 ?a, Inl 1) \<or> main_open e = (take 3 ?a, Inl 1) \<or>
    (\<exists>cfg. Config_Load (mn_process e) (mn_loadLocation e) = Inr cfg \<and> main_open e = (take 4 ?a, Inr cfg))"
    by (cases "Config_Load (mn_process e) (mn_loadLocation e)"; cases "mn_store e"; cases "fst (connectNATS (mn_connect e) (mn_flush e))";
        cases "mn_broker e"; cases "mn_queue e") (simp_all add: main_open_def start_acts_def)
  moreover have "0 \<le> (3 :: nat)" "1 \<le> (3 :: nat)" "2 \<le> (3 :: nat)" by simp_all
  ultimately show ?thesis by blast
qed

lemma main_sandbox_ok: "\<exists>ctrl. main_sandbox e cfg = Inr ctrl \<and> (case ctrl of None \<Rightarrow> True | Some c \<Rightarrow> k_agentImages c = agent_images (cf_K8s cfg))"
  by (simp add: main_sandbox_def Sandbox_New_def split: sum.split)

lemma main_credentials_cases:
  "main_credentials e p = ([], Inl 1) \<or>
   (\<exists>store res. main_credentials e p = ([], Inr (store, res)) \<and> (store \<noteq> None \<longleftrightarrow> pc_CredentialEncryptionKey p \<noteq> []) \<and>
      (res \<noteq> None \<longleftrightarrow> needsMultiProvider p))"
proof (cases "pc_CredentialEncryptionKey p = []")
  case False
  then show ?thesis
  proof (cases "NewEncryptor (mn_newCipher e) (pc_CredentialEncryptionKey p)")
    case (Inr enc)
    with False show ?thesis by (cases "NewCredentialStore True (Some enc) (mn_probe e)") (simp_all add: main_credentials_def needsMultiProvider_def)
  qed (simp add: main_credentials_def needsMultiProvider_def)
qed (simp add: main_credentials_def needsMultiProvider_def)

lemma early_failure_cases: "early_failure x = ([], Inl 1) \<or> early_failure x = ([], Inr ())"
  by (auto simp: early_failure_def split: option.split bool.split)

lemma main_proxy_cases: "main_proxy e p res = ([], Inl 1) \<or> main_proxy e p res = ([ProxyStarted], Inl 1) \<or> main_proxy e p res = ([ProxyStarted], Inr ())"
proof -
  let ?r = "case res of Some res \<Rightarrow> NewMultiProviderProxy (mn_parse e) p res | None \<Rightarrow> Proxy_New (mn_parse e) p"
  show ?thesis
    using early_failure_cases [of "mn_proxyEarly e"] unfolding main_proxy_def by (cases ?r) auto
qed

lemma main_serve_cases:
  "main_serve e ctrl (store, res) = ([], Inl 1) \<or>
   main_serve e ctrl (store, res) = ([ServerStarted ctrl (res \<noteq> None) (store \<noteq> None), ServerEnded (mn_serverRun e), ServerStopped, OrchStopped, ProxyStopped], Inr ())"
  by (cases "NewClient (mn_issuer e) [] 0 0"; cases "mn_server e ctrl (res \<noteq> None) (store \<noteq> None)")
    (simp_all add: main_serve_def Let_def)

text \<open>What follows the opening, for a configuration: the rest of the process as one stage.\<close>

definition main_rest :: "main_env \<Rightarrow> Config \<Rightarrow> unit stage" where
  "main_rest e cfg =
     (case main_sandbox e cfg of
       Inl _ \<Rightarrow> ([], Inr ())
     | Inr ctrl \<Rightarrow>
         then_stage (main_credentials e (cf_Proxy cfg)) (\<lambda>creds.
         case Orchestrator_New (Some (mn_orchConfig e)) (Some ()) (Some ()) (Some ()) ctrl (Some ()) (Some ()) (snd creds) () of
           Inl _ \<Rightarrow> ([], Inr ())
         | Inr _ \<Rightarrow>
             then_stage (then_stage ([OrchStarted], Inr ()) (\<lambda>_. early_failure (mn_orchEarly e))) (\<lambda>_.
             then_stage (main_proxy e (cf_Proxy cfg) (snd creds)) (\<lambda>_. main_serve e ctrl creds))))"

lemma main_process_rest: "main_process e = main_return (then_stage (main_open e) (main_rest e))"
  unfolding main_process_def main_rest_def ..

lemma main_rest_cases:
  obtains (failed) n where "n \<le> 2" "main_rest e cfg = (take n [OrchStarted, ProxyStarted], Inl 1)"
  | (served) ctrl where "case ctrl of None \<Rightarrow> True | Some c \<Rightarrow> k_agentImages c = agent_images (cf_K8s cfg)"
    "main_rest e cfg = ([OrchStarted, ProxyStarted, ServerStarted ctrl
         (needsMultiProvider (cf_Proxy cfg)) (pc_CredentialEncryptionKey (cf_Proxy cfg) \<noteq> []),
       ServerEnded (mn_serverRun e), ServerStopped, OrchStopped, ProxyStopped], Inr ())"
proof -
  obtain ctrl where ctrl: "main_sandbox e cfg = Inr ctrl" "case ctrl of None \<Rightarrow> True | Some c \<Rightarrow> k_agentImages c = agent_images (cf_K8s cfg)"
    using main_sandbox_ok by blast
  show ?thesis
  proof (cases "main_credentials e (cf_Proxy cfg) = ([], Inl 1)")
    case True
    with ctrl failed [of 0] show ?thesis by (simp add: main_rest_def)
  next
    case False
    then obtain store res where c: "main_credentials e (cf_Proxy cfg) = ([], Inr (store, res))"
      "store \<noteq> None \<longleftrightarrow> pc_CredentialEncryptionKey (cf_Proxy cfg) \<noteq> []"
      "res \<noteq> None \<longleftrightarrow> needsMultiProvider (cf_Proxy cfg)"
      using main_credentials_cases [of e "cf_Proxy cfg"] by blast
    have rest: "main_rest e cfg = then_stage (then_stage ([OrchStarted], Inr ()) (\<lambda>_. early_failure (mn_orchEarly e))) (\<lambda>_.
        then_stage (main_proxy e (cf_Proxy cfg) res) (\<lambda>_. main_serve e ctrl (store, res)))"
      by (simp add: main_rest_def ctrl(1) c(1) Orchestrator_New_def)
    from early_failure_cases [of "mn_orchEarly e"] main_proxy_cases [of e "cf_Proxy cfg" res] main_serve_cases [of e ctrl store res]
    consider "main_rest e cfg = ([OrchStarted], Inl 1)" | "main_rest e cfg = ([OrchStarted, ProxyStarted], Inl 1)"
      | "main_rest e cfg = ([OrchStarted, ProxyStarted, ServerStarted ctrl (res \<noteq> None) (store \<noteq> None), ServerEnded (mn_serverRun e), ServerStopped, OrchStopped, ProxyStopped], Inr ())"
      unfolding rest by (elim disjE) simp_all
    then show ?thesis
    proof cases
      case 1 then show ?thesis using failed [of 1] by simp
    next
      case 2 then show ?thesis using failed [of 2] by simp
    next
      case 3 then show ?thesis using served [OF ctrl(2)] c(2,3) by simp
    qed
  qed
qed

text \<open>
  The order of start and shutdown. The process ends with status 0 only after it has served: it
  opened the store, NATS, the broker and the queue, started the orchestrator, the proxy and
  the server, in this order; and when the server ends it stops server, orchestrator and
  proxy and closes what it opened in the reverse order. Sign-in is offered exactly when there
  is an encryption key, dynamic models when there is a resolver, and the sandboxes use the
  configured images. Otherwise the status is 1, the process stopped at the step that failed,
  and nothing was closed.
\<close>

theorem main_order:
  "case main_process e of (acts, code) \<Rightarrow>
     if code = 0 then (\<exists>cfg ctrl. Config_Load (mn_process e) (mn_loadLocation e) = Inr cfg \<and>
       (case ctrl of None \<Rightarrow> True | Some c \<Rightarrow> k_agentImages c = agent_images (cf_K8s cfg)) \<and>
       acts = start_acts ctrl (needsMultiProvider (cf_Proxy cfg))
                (pc_CredentialEncryptionKey (cf_Proxy cfg) \<noteq> []) @ stop_acts (mn_serverRun e))
     else code = 1 \<and> (\<exists>n. n < 7 \<and> acts = take n (start_acts None False False))"
proof (cases "\<exists>n \<le> 3. main_open e = (take n (start_acts None False False), Inl 1)")
  case True
  then obtain n where "n \<le> 3" "main_open e = (take n (start_acts None False False), Inl 1)" by blast
  then show ?thesis by (auto simp: main_process_rest main_return_def intro: exI [where x = n])
next
  case False
  then obtain cfg where cfg: "Config_Load (mn_process e) (mn_loadLocation e) = Inr cfg"
    and opened: "main_open e = (take 4 (start_acts None False False), Inr cfg)"
    using main_open_cases [of e] by blast
  show ?thesis
  proof (cases rule: main_rest_cases [of e cfg])
    case (failed n)
    then show ?thesis
      using opened by (auto simp: main_process_rest main_return_def start_acts_def numeral_eq_Suc le_Suc_eq intro: exI [where x = "4 + n"])
  next
    case (served ctrl)
    then show ?thesis
      using opened cfg by (auto simp: main_process_rest main_return_def main_defers_def start_acts_def stop_acts_def)
  qed
qed

end
