(* ===== verification/Main_Monitors.thy ===== *)
theory Main_Monitors
  imports Main_Wiring
begin

text \<open>
  The running phase of \<open>cmd/kraclaw/main.go\<close>: the orchestrator and the credential proxy run in
  goroutines that put their result into a channel of one element, a monitor for each takes it
  and cancels the context on a failure, and \<open>main\<close> waits for the server, whose \<open>Start\<close> returns
  when the context ends or a listener fails. \<open>Main_Wiring\<close> has what happens before and after.
\<close>

record running =
  rn_ctx :: bool
  rn_orchErr :: "unit result option"
  rn_orchEnded :: bool
  rn_orchMonitor :: bool
  rn_proxyErr :: "unit result option"
  rn_proxyEnded :: bool
  rn_proxyMonitor :: bool
  rn_serving :: bool

datatype running_event =
    OrchEnds "unit result"
  | ProxyEnds "unit result"
  | OrchMonitor
  | ProxyMonitor
  | SignalArrives
  | ListenerFails
  | ServerReturns

definition running0 :: running where
  "running0 = \<lparr>rn_ctx = False, rn_orchErr = None, rn_orchEnded = False, rn_orchMonitor = True, rn_proxyErr = None,
     rn_proxyEnded = False, rn_proxyMonitor = True, rn_serving = True\<rparr>"

text \<open>\<open>err != nil && ctx.Err() == nil\<close>: the monitor cancels the context.\<close>

definition monitor_cancels :: "unit result \<Rightarrow> bool \<Rightarrow> bool" where
  "monitor_cancels r ctx \<longleftrightarrow> \<not> is_ok r \<and> \<not> ctx"

fun running_step :: "running_event \<Rightarrow> running \<Rightarrow> running" where
  "running_step (OrchEnds r) s = (if rn_orchEnded s then s else s\<lparr>rn_orchEnded := True, rn_orchErr := Some r\<rparr>)"
| "running_step (ProxyEnds r) s = (if rn_proxyEnded s then s else s\<lparr>rn_proxyEnded := True, rn_proxyErr := Some r\<rparr>)"
| "running_step OrchMonitor s =
     (case rn_orchErr s of
        Some r \<Rightarrow> if rn_orchMonitor s
                  then s\<lparr>rn_orchErr := None, rn_orchMonitor := False, rn_ctx := (rn_ctx s \<or> monitor_cancels r (rn_ctx s))\<rparr> else s
      | None \<Rightarrow> s)"
| "running_step ProxyMonitor s =
     (case rn_proxyErr s of
        Some r \<Rightarrow> if rn_proxyMonitor s
                  then s\<lparr>rn_proxyErr := None, rn_proxyMonitor := False, rn_ctx := (rn_ctx s \<or> monitor_cancels r (rn_ctx s))\<rparr> else s
      | None \<Rightarrow> s)"
| "running_step SignalArrives s = s\<lparr>rn_ctx := True\<rparr>"
| "running_step ListenerFails s = s\<lparr>rn_serving := False\<rparr>"
| "running_step ServerReturns s = (if rn_ctx s then s\<lparr>rn_serving := False\<rparr> else s)"

definition running_run :: "running_event list \<Rightarrow> running \<Rightarrow> running" where
  "running_run es s = fold running_step es s"

definition channels_ok :: "running \<Rightarrow> bool" where
  "channels_ok s \<longleftrightarrow> (rn_orchErr s \<noteq> None \<longrightarrow> rn_orchMonitor s \<and> rn_orchEnded s) \<and>
     (rn_proxyErr s \<noteq> None \<longrightarrow> rn_proxyMonitor s \<and> rn_proxyEnded s) \<and>
     (\<not> rn_orchEnded s \<longrightarrow> rn_orchMonitor s) \<and> (\<not> rn_proxyEnded s \<longrightarrow> rn_proxyMonitor s)"

lemma channels_ok_step: "channels_ok s \<Longrightarrow> channels_ok (running_step ev s)"
  by (cases ev) (auto simp: channels_ok_def split: option.split)

lemma channels_ok_run: "channels_ok (running_run es running0)"
proof -
  have "channels_ok s \<Longrightarrow> channels_ok (fold running_step es s)" for s
    by (induction es arbitrary: s) (simp_all add: channels_ok_step)
  moreover have "channels_ok running0" by (simp add: channels_ok_def running0_def)
  ultimately show ?thesis by (simp add: running_run_def)
qed

text \<open>
  A service that dies takes the process down: at any time at which the orchestrator or the proxy
  ends with an error, its monitor and the server, by themselves, bring \<open>main\<close> to its shutdown.
\<close>

theorem late_failure_stops:
  assumes "\<not> rn_orchEnded (running_run es running0)" and "\<not> rn_proxyEnded (running_run fs running0)"
  shows "\<not> rn_serving (running_run (es @ [OrchEnds (Inl err), OrchMonitor, ServerReturns]) running0)"
    and "\<not> rn_serving (running_run (fs @ [ProxyEnds (Inl err), ProxyMonitor, ServerReturns]) running0)"
  using assms channels_ok_run [of es] channels_ok_run [of fs]
  by (simp_all add: running_run_def channels_ok_def monitor_cancels_def)

text \<open>A monitor cancels nothing else: while nothing failed and no signal came the server goes on.\<close>

fun harmless :: "running_event \<Rightarrow> bool" where
  "harmless (OrchEnds r) = is_ok r"
| "harmless (ProxyEnds r) = is_ok r"
| "harmless SignalArrives = False"
| "harmless ListenerFails = False"
| "harmless ev = True"

definition calm :: "running \<Rightarrow> bool" where
  "calm s \<longleftrightarrow> rn_serving s \<and> \<not> rn_ctx s \<and> pred_option is_ok (rn_orchErr s) \<and> pred_option is_ok (rn_proxyErr s)"

lemma calm_step: "calm s \<Longrightarrow> harmless ev \<Longrightarrow> calm (running_step ev s)"
  by (cases ev) (auto simp: calm_def monitor_cancels_def split: option.split)

lemma no_failure_no_stop:
  assumes "list_all harmless es"
  shows "rn_serving (running_run es running0)"
proof -
  have "calm s \<Longrightarrow> calm (fold running_step es s)" for s
    using assms by (induction es arbitrary: s) (simp_all add: calm_step)
  from this [of running0] show ?thesis by (simp add: running_run_def running0_def calm_def)
qed

end
