(* ===== verification/Tui_Client.thy ===== *)
theory Tui_Client
  imports Provider_Registry Router_Model
begin

text \<open>
  The terminal client \<open>cmd/kraclaw-tui\<close>: the model of \<open>main.go\<close>, \<open>chat.go\<close>, \<open>auth.go\<close>,
  \<open>modelpicker.go\<close>, \<open>providerpicker.go\<close> and \<open>theme.go\<close> as a state machine. \<open>Update\<close> takes a message and
  returns the new model and the commands the runtime is to execute, which answer with
  messages later; commands are data here and their answers are the relation \<open>answers\<close> of the
  next theory. A panic is \<open>None\<close>. Widgets of the UI libraries are values of an arbitrary type
  \<open>'u\<close> with the operations \<open>ui\<close>; RPC streams and their cancel functions are numbers.
\<close>

section \<open>Data\<close>

record tui_ServerStatus =
  sv_Version :: string
  sv_ActiveSandboxes :: int
  sv_ConnectedChannels :: int
  sv_PendingMessages :: int
  sv_ActiveTasks :: int
  sv_UptimeSince :: string
  sv_MysqlConnected :: bool
  sv_K8sConnected :: bool

record SandboxInfo =
  si_Name :: string
  si_GroupFolder :: string
  si_GroupJID :: string
  si_State :: string
  si_StartTime :: string
  si_EndTime :: string
  si_SessionID :: string

record GroupInfo =
  gi_JID :: string
  gi_Name :: string
  gi_Folder :: string
  gi_TriggerPattern :: string
  gi_IsMain :: bool

record TaskInfo =
  ti_ID :: string
  ti_GroupFolder :: string
  ti_ChatJID :: string
  ti_Prompt :: string
  ti_ScheduleType :: string
  ti_ScheduleValue :: string
  ti_NextRun :: string
  ti_Status :: string

record EventInfo =
  ei_Timestamp :: string
  ei_Type :: string
  ei_Source :: string
  ei_Message :: string

datatype chatState = SelectGroup | SelectProvider | SelectModel | OAuth | Connecting | Chatting

record chatMessage =
  cm_sender :: string
  cm_content :: string

record modelOption =
  mp_ID :: string
  mp_Label :: string
  mp_Current :: bool

record modelPickerState =
  mp_Open :: bool
  mp_Loading :: bool
  mp_Options :: "modelOption list"
  mp_Cursor :: int
  mp_LastError :: string

record creationPickerItem =
  cp_id :: string
  cp_label :: string

record creationPickerState =
  cp_items :: "creationPickerItem list"
  cp_cursor :: int

record oauthState =
  oa_provider :: string
  oa_groupJID :: string
  oa_pendingGroupName :: string
  oa_userCode :: string
  oa_verificationURL :: string
  oa_elapsed :: int
  oa_err :: "goerr option"
  oa_openURLErr :: "goerr option"
  oa_stream :: "nat option"
  oa_cancel :: "nat option"

definition no_picker :: creationPickerState where
  "no_picker = \<lparr>cp_items = [], cp_cursor = 0\<rparr>"

definition no_oauth :: oauthState where
  "no_oauth = \<lparr>oa_provider = [], oa_groupJID = [], oa_pendingGroupName = [], oa_userCode = [], oa_verificationURL = [], oa_elapsed = 0,
     oa_err = None, oa_openURLErr = None, oa_stream = None, oa_cancel = None\<rparr>"

definition tabDashboard :: int where "tabDashboard = 0"
definition tabSandboxes :: int where "tabSandboxes = 1"
definition tabGroups :: int where "tabGroups = 2"
definition tabTasks :: int where "tabTasks = 3"
definition tabEvents :: int where "tabEvents = 4"
definition tabMessages :: int where "tabMessages = 5"
definition tabChannels :: int where "tabChannels = 6"
definition tabConfig :: int where "tabConfig = 7"

lemmas tab_defs = tabDashboard_def tabSandboxes_def tabGroups_def tabTasks_def tabEvents_def tabMessages_def tabChannels_def tabConfig_def

definition tabLabels :: "string list" where
  "tabLabels = [''dashboard'', ''sandboxes'', ''groups'', ''tasks'', ''events'', ''messages'', ''channels'', ''config'']"

text \<open>
  What the model has done to the outside: contexts it cancelled, the themes it wrote to its
  configuration file and the addresses it opened in a browser.
\<close>

datatype tui_effect = Cancelled nat | Persisted string | Browsed string

record 'u model =
  mo_activeTab :: int
  mo_tabs :: "string list"
  mo_width :: int
  mo_height :: int
  mo_serverAddr :: string
  mo_useTLS :: bool
  mo_status :: "tui_ServerStatus option"
  mo_statusErr :: "goerr option"
  mo_sandboxes :: "SandboxInfo list"
  mo_sandboxesErr :: "goerr option"
  mo_sandboxCursor :: int
  mo_sandboxDetailOpen :: bool
  mo_groups :: "GroupInfo list"
  mo_groupsErr :: "goerr option"
  mo_groupsCursor :: int
  mo_tasks :: "TaskInfo list"
  mo_tasksErr :: "goerr option"
  mo_tasksCursor :: int
  mo_tasksFilterFolder :: string
  mo_events :: "EventInfo list"
  mo_eventsErr :: "goerr option"
  mo_spinner :: 'u
  mo_loading :: bool
  mo_now :: time
  mo_eventStream :: "nat option"
  mo_chatState :: chatState
  mo_chatGroupCursor :: int
  mo_chatGroup :: "GroupInfo option"
  mo_chatMessages :: "chatMessage list"
  mo_chatInput :: 'u
  mo_chatViewport :: 'u
  mo_chatErr :: "goerr option"
  mo_chatCancel :: "nat option"
  mo_inboundStream :: "nat option"
  mo_chatRegInput :: 'u
  mo_chatModel :: string
  mo_chatWaitingForAgent :: bool
  mo_modelPicker :: modelPickerState
  mo_creationFlowID :: int
  mo_creationPendingGroupName :: string
  mo_creationSelectedProvider :: string
  mo_creationSelectedModelID :: string
  mo_creationProviders :: "ProviderInfo list"
  mo_creationPicker :: creationPickerState
  mo_creationProvidersLoaded :: bool
  mo_oauth :: oauthState
  mo_mdRenderer :: "'u option"
  mo_mdRendererWidth :: int
  mo_theme :: string
  mo_effects :: "tui_effect list"

text \<open>The operations of the UI libraries; \<open>ui_code\<close> is the name of \<open>status.Code\<close> of an error.\<close>

record 'u ui =
  ui_Value :: "'u \<Rightarrow> string"
  ui_SetValue :: "string \<Rightarrow> 'u \<Rightarrow> 'u"
  ui_Reset :: "'u \<Rightarrow> 'u"
  ui_Focus :: "'u \<Rightarrow> 'u"
  ui_Blur :: "'u \<Rightarrow> 'u"
  ui_Focused :: "'u \<Rightarrow> bool"
  ui_Key :: "string \<Rightarrow> 'u \<Rightarrow> 'u"
  ui_Mouse :: "'u \<Rightarrow> 'u"
  ui_Spin :: "'u \<Rightarrow> 'u"
  ui_Width :: "'u \<Rightarrow> int"
  ui_SetWidth :: "int \<Rightarrow> 'u \<Rightarrow> 'u"
  ui_SetHeight :: "int \<Rightarrow> 'u \<Rightarrow> 'u"
  ui_SetContent :: "string \<Rightarrow> 'u \<Rightarrow> 'u"
  ui_AtBottom :: "'u \<Rightarrow> bool"
  ui_GotoBottom :: "'u \<Rightarrow> 'u"
  ui_HalfPageUp :: "'u \<Rightarrow> 'u"
  ui_HalfPageDown :: "'u \<Rightarrow> 'u"
  ui_NewTermRenderer :: "int \<Rightarrow> 'u result"
  ui_RenderMarkdown :: "'u \<Rightarrow> string \<Rightarrow> string result"
  ui_style :: "string \<Rightarrow> string \<Rightarrow> string \<Rightarrow> string"
  ui_view :: "'u \<Rightarrow> string"
  ui_cells :: "string \<Rightarrow> int"
  ui_code :: "goerr \<Rightarrow> string"
  ui_OpenURL :: "string \<Rightarrow> unit result"

section \<open>Messages and commands\<close>

datatype device_event = DeviceCode string string | AuthTick int | AuthSuccess | AuthError string string | UnknownEvent

record tui_inbound =
  ti_Content :: string
  ti_Model :: string

datatype tea_msg =
    KeyPress string
  | MouseMsg
  | WindowSize int int
  | TickMsg time
  | StatusMsg "tui_ServerStatus option" "goerr option"
  | SandboxesMsg "SandboxInfo list" "goerr option"
  | GroupsMsg "GroupInfo list" "goerr option"
  | TasksMsg "TaskInfo list" "goerr option"
  | EventStreamOpened "nat result"
  | EventReceived "EventInfo result"
  | ProvidersLoaded int "ProviderInfo list result"
  | GroupRegistered "GroupInfo result"
  | StreamOpened "nat result"
  | ChannelOutput "tui_inbound result"
  | InputSent "goerr option"
  | AuthStarted "nat result"
  | AuthEvent "device_event option result"
  | SpinnerTick

datatype tea_cmd =
    CmdQuit
  | CmdSpin
  | CmdTick
  | FetchStatus
  | FetchSandboxes
  | FetchGroups
  | FetchTasks
  | OpenEventStream
  | ReadEvent "nat option"
  | FetchProviders int "string option"
  | RegisterGroupCmd string string string
  | OpenInbound string
  | ReadInbound nat
  | SendMessageCmd "string option" string
  | StartOAuth string string
  | AuthEventLoop "nat option"
  | WidgetCmd

definition EOF :: goerr where "EOF = Errorf ''EOF''"

definition fetchAll :: "tea_cmd list" where
  "fetchAll = [FetchStatus, FetchSandboxes, FetchGroups, FetchTasks]"

section \<open>Lists and pickers\<close>

definition index :: "'a list \<Rightarrow> int \<Rightarrow> 'a option" where
  "index xs i = (if 0 \<le> i \<and> i < int (length xs) then Some (xs ! nat i) else None)"

definition clampCursor :: "int \<Rightarrow> int \<Rightarrow> int" where
  "clampCursor n sz = (if sz = 0 then 0 else if n < 0 then 0 else if n \<ge> sz then sz - 1 else n)"

definition filteredTasks :: "'u model \<Rightarrow> TaskInfo list" where
  "filteredTasks m = (if mo_tasksFilterFolder m = [] then mo_tasks m
     else filter (\<lambda>t. ti_GroupFolder t = mo_tasksFilterFolder m) (mo_tasks m))"

definition moveCursor :: "int \<Rightarrow> 'u model \<Rightarrow> 'u model" where
  "moveCursor delta m =
     (if mo_activeTab m = tabSandboxes then m\<lparr>mo_sandboxCursor := clampCursor (mo_sandboxCursor m + delta) (int (length (mo_sandboxes m)))\<rparr>
      else if mo_activeTab m = tabGroups then m\<lparr>mo_groupsCursor := clampCursor (mo_groupsCursor m + delta) (int (length (mo_groups m)))\<rparr>
      else if mo_activeTab m = tabTasks then m\<lparr>mo_tasksCursor := clampCursor (mo_tasksCursor m + delta) (int (length (filteredTasks m)))\<rparr>
      else m)"

fun position :: "'a \<Rightarrow> 'a list \<Rightarrow> nat option" where
  "position x [] = None"
| "position x (y # ys) = (if x = y then Some 0 else map_option Suc (position x ys))"

definition cycleTaskFilter :: "'u model \<Rightarrow> 'u model" where
  "cycleTaskFilter m =
     (let folders = sort_Strings (rev (remdups (rev (map ti_GroupFolder (mo_tasks m)))))
      in if folders = [] then m\<lparr>mo_tasksFilterFolder := []\<rparr>
         else let idx = (case position (mo_tasksFilterFolder m) folders of None \<Rightarrow> 0 | Some i \<Rightarrow> Suc i)
           in m\<lparr>mo_tasksFilterFolder := (if idx \<ge> length folders then [] else folders ! idx), mo_tasksCursor := 0\<rparr>)"

definition add_provider_item :: "string \<Rightarrow> ProviderInfo \<Rightarrow> creationPickerItem list \<times> int \<Rightarrow> creationPickerItem list \<times> int" where
  "add_provider_item selectedID p acc =
     (if pi_Models p = [] then acc
      else let items = fst acc @ [\<lparr>cp_id = pi_ID p, cp_label = pi_DisplayName p\<rparr>]
        in (items, if selectedID \<noteq> [] \<and> pi_ID p = selectedID then int (length items) - 1 else snd acc))"

definition buildProviderItems :: "ProviderInfo list \<Rightarrow> string \<Rightarrow> creationPickerItem list \<times> int" where
  "buildProviderItems providers selectedID = fold (add_provider_item selectedID) providers ([], 0)"

definition buildModelItems :: "ProviderInfo list \<Rightarrow> string \<Rightarrow> creationPickerItem list" where
  "buildModelItems providers providerID =
     (case find (\<lambda>p. pi_ID p = providerID) providers of
        None \<Rightarrow> []
      | Some p \<Rightarrow> map (\<lambda>x. \<lparr>cp_id = mi_ID x, cp_label = mi_DisplayName x\<rparr>) (pi_Models p))"

definition lookupAuthMode :: "ProviderInfo list \<Rightarrow> string \<Rightarrow> ProviderAuthMode option" where
  "lookupAuthMode providers pid = map_option pi_AuthMode (find (\<lambda>p. pi_ID p = pid) providers)"

definition isAuthCommand :: "string \<Rightarrow> bool" where
  "isAuthCommand input \<longleftrightarrow> (case Fields input of [] \<Rightarrow> False | w # _ \<Rightarrow> w = '':auth'')"

definition HasSuffix :: "string \<Rightarrow> string \<Rightarrow> bool" where
  "HasSuffix s suf \<longleftrightarrow> HasPrefix (rev s) (rev suf)"

definition TrimSuffix :: "string \<Rightarrow> string \<Rightarrow> string" where
  "TrimSuffix s suf = (if HasSuffix s suf then take (length s - length suf) s else s)"

definition parse_model_line :: "string \<Rightarrow> modelOption option" where
  "parse_model_line raw =
     (let line = TrimSpace raw
      in if \<not> HasPrefix line ''- '' then None
         else let line = TrimSpace (TrimPrefix line ''- '')
           in if line = [] then None
              else let current = HasSuffix line '' (current)'';
                       line = (if current then TrimSpace (TrimSuffix line '' (current)'') else line);
                       ident = (case str_Index line '' ('' of Some i \<Rightarrow> if i > 0 then take i line else line | None \<Rightarrow> line)
                in if ident = [] then None else Some \<lparr>mp_ID = ident, mp_Label = line, mp_Current = current\<rparr>)"

definition parseModelList :: "string \<Rightarrow> modelOption list" where
  "parseModelList content = List.map_filter parse_model_line (Split content (CHR 0x0A))"

definition translateListProvidersErr :: "'u ui \<Rightarrow> goerr \<Rightarrow> goerr" where
  "translateListProvidersErr u err =
     (let dash = [CHR '' '', CHR 0xE2, CHR 0x80, CHR 0x94, CHR '' '']
      in if ui_code u err = ''DeadlineExceeded'' then Errorf (''timed out contacting server'' @ dash @ ''check your connection'')
         else if ui_code u err = ''Unavailable'' then Errorf (''server unavailable'' @ dash @ ''is kraclaw running?'')
         else if ui_code u err = ''Unimplemented'' then Errorf ''server does not support provider listing; upgrade kraclaw''
         else Wrapf ''failed to load providers'' err)"

section \<open>Layout, theme and formatting\<close>

definition tui_styled :: "'u ui \<Rightarrow> 'u model \<Rightarrow> string \<Rightarrow> string \<Rightarrow> string" where
  "tui_styled u m style txt = ui_style u (mo_theme m) style txt"

definition renderSenderLabel :: "'u ui \<Rightarrow> 'u model \<Rightarrow> string \<Rightarrow> string" where
  "renderSenderLabel u m sender =
     (if sender = ''you'' then tui_styled u m ''userLabel'' ''you''
      else if sender = ''agent'' then tui_styled u m ''agentLabel'' ''kraclaw''
      else tui_styled u m ''systemLabel'' sender)"

definition renderMarkdown :: "'u ui \<Rightarrow> 'u option \<Rightarrow> string \<Rightarrow> string" where
  "renderMarkdown u r content =
     (case r of
        None \<Rightarrow> content
      | Some r \<Rightarrow> (case ui_RenderMarkdown u r content of Inl _ \<Rightarrow> content | Inr rendered \<Rightarrow> TrimRight rendered [CHR 0x0A]))"

definition format_line :: "'u ui \<Rightarrow> 'u model \<Rightarrow> string \<Rightarrow> string" where
  "format_line u m line =
     (if HasPrefix line [CHR 0xC2, CHR 0xBB, CHR '' ''] then ''    '' @ tui_styled u m ''dim'' line @ newline
      else if line = [] then newline
      else ''    '' @ line @ newline)"

fun format_from :: "'u ui \<Rightarrow> 'u model \<Rightarrow> bool \<Rightarrow> string \<Rightarrow> chatMessage list \<Rightarrow> string" where
  "format_from u m first prevSender [] = []"
| "format_from u m first prevSender (msg # msgs) =
     (if cm_sender msg \<noteq> prevSender
      then (if first then [] else newline) @ ''  '' @ renderSenderLabel u m (cm_sender msg) @ newline else []) @
     concat (map (format_line u m) (Split (if cm_sender msg = ''agent'' then renderMarkdown u (mo_mdRenderer m) (cm_content msg) else cm_content msg) (CHR 0x0A))) @
     format_from u m False (cm_sender msg) msgs"

definition formatChatMessages :: "'u ui \<Rightarrow> 'u model \<Rightarrow> string" where
  "formatChatMessages u m = TrimRight (format_from u m True [] (mo_chatMessages m)) [CHR 0x0A]"

definition chat_contentWidth :: "'u ui \<Rightarrow> 'u model \<Rightarrow> int" where
  "chat_contentWidth u m = max 10 (ui_Width u (mo_chatViewport m) - 6)"

definition ensureMarkdownRenderer :: "'u ui \<Rightarrow> int \<Rightarrow> 'u model \<Rightarrow> 'u model" where
  "ensureMarkdownRenderer u width m =
     (if mo_mdRenderer m \<noteq> None \<and> mo_mdRendererWidth m = width then m
      else case ui_NewTermRenderer u width of Inl _ \<Rightarrow> m | Inr r \<Rightarrow> m\<lparr>mo_mdRenderer := Some r, mo_mdRendererWidth := width\<rparr>)"

text \<open>The block that shows the messages anew, which the source repeats.\<close>

definition show_messages :: "'u ui \<Rightarrow> 'u model \<Rightarrow> 'u model" where
  "show_messages u m =
     (let m = ensureMarkdownRenderer u (chat_contentWidth u m) m
      in m\<lparr>mo_chatViewport := ui_SetContent u (formatChatMessages u m) (mo_chatViewport m)\<rparr>)"

definition goto_bottom :: "'u ui \<Rightarrow> 'u model \<Rightarrow> 'u model" where
  "goto_bottom u m = m\<lparr>mo_chatViewport := ui_GotoBottom u (mo_chatViewport m)\<rparr>"

definition refreshChatViewportContent :: "'u ui \<Rightarrow> 'u model \<Rightarrow> 'u model" where
  "refreshChatViewportContent u m =
     (if mo_chatState m \<noteq> Chatting then m else show_messages u (m\<lparr>mo_mdRenderer := None\<rparr>))"

record layoutDims =
  ld_viewportWidth :: int
  ld_viewportHeight :: int
  ld_inputWidth :: int

definition calculateLayout :: "'u model \<Rightarrow> layoutDims" where
  "calculateLayout m =
     (let reservedVertical = (if mo_activeTab m = tabMessages \<and> mo_chatState m = Chatting then 11 else 4)
      in \<lparr>ld_viewportWidth = (if mo_width m < 20 then 20 else mo_width m),
          ld_viewportHeight = (if mo_height m - reservedVertical < 3 then 3 else mo_height m - reservedVertical),
          ld_inputWidth = (if mo_width m - 6 < 20 then 20 else mo_width m - 6)\<rparr>)"

definition applyLayout :: "'u ui \<Rightarrow> 'u model \<Rightarrow> 'u model" where
  "applyLayout u m =
     (let d = calculateLayout m;
          m = m\<lparr>mo_chatViewport := ui_SetHeight u (ld_viewportHeight d) (ui_SetWidth u (ld_viewportWidth d) (mo_chatViewport m)),
                mo_chatInput := ui_SetWidth u (ld_inputWidth d) (mo_chatInput m), mo_mdRenderer := None\<rparr>
      in if mo_chatState m = Chatting then show_messages u m else m)"

definition applyThemeName :: "string \<Rightarrow> string" where
  "applyThemeName name = (if name = ''light'' then ''light'' else ''dark'')"

definition setTheme :: "string \<Rightarrow> 'u model \<Rightarrow> 'u model" where
  "setTheme name m = m\<lparr>mo_theme := applyThemeName name\<rparr>"

definition persist_theme :: "string \<Rightarrow> 'u model \<Rightarrow> 'u model" where
  "persist_theme name m = m\<lparr>mo_effects := mo_effects m @ [Persisted name]\<rparr>"

definition handleLocalCommand :: "string \<Rightarrow> 'u model \<Rightarrow> bool \<times> 'u model" where
  "handleLocalCommand txt m =
     (if \<not> HasPrefix txt '':'' then (False, m)
      else case Fields txt of
        [] \<Rightarrow> (False, m)
      | w # args \<Rightarrow>
          if w \<noteq> '':theme'' then (False, m)
          else let next1 = (case args of a # _ \<Rightarrow> ToLower a | [] \<Rightarrow> if mo_theme m = ''dark'' then ''light'' else ''dark'');
                   next2 = (if next1 \<noteq> ''light'' \<and> next1 \<noteq> ''dark'' then ''dark'' else next1)
            in (True, persist_theme next2 (setTheme next2 m)))"

section \<open>Sign-in\<close>

definition call_cancel :: "nat option \<Rightarrow> 'u model \<Rightarrow> 'u model" where
  "call_cancel c m = (case c of None \<Rightarrow> m | Some n \<Rightarrow> m\<lparr>mo_effects := mo_effects m @ [Cancelled n]\<rparr>)"

type_synonym 'u step = "('u model \<times> tea_cmd list) option"

definition handleAuthStarted :: "nat result \<Rightarrow> 'u model \<Rightarrow> 'u step" where
  "handleAuthStarted r m =
     (case r of
        Inl err \<Rightarrow> Some (m\<lparr>mo_oauth := (mo_oauth m)\<lparr>oa_err := Some err\<rparr>\<rparr>, [])
      | Inr n \<Rightarrow> Some (m\<lparr>mo_oauth := (mo_oauth m)\<lparr>oa_stream := Some n, oa_cancel := Some n\<rparr>\<rparr>, [AuthEventLoop (Some n)]))"

definition auth_failed :: "goerr \<Rightarrow> 'u model \<Rightarrow> 'u step" where
  "auth_failed err m = Some ((call_cancel (oa_cancel (mo_oauth m)) m)\<lparr>mo_oauth := (mo_oauth m)\<lparr>oa_err := Some err\<rparr>\<rparr>, [])"

definition handleAuthEvent :: "'u ui \<Rightarrow> device_event option result \<Rightarrow> 'u model \<Rightarrow> 'u step" where
  "handleAuthEvent u r m =
     (case r of
        Inl err \<Rightarrow> auth_failed err m
      | Inr None \<Rightarrow> auth_failed (Errorf ''auth stream closed unexpectedly'') m
      | Inr (Some (DeviceCode userCode url)) \<Rightarrow>
          (let oa = (mo_oauth m)\<lparr>oa_userCode := userCode, oa_verificationURL := url\<rparr>;
               oa = (case ui_OpenURL u url of Inl err \<Rightarrow> oa\<lparr>oa_openURLErr := Some err\<rparr> | Inr _ \<Rightarrow> oa)
           in Some (m\<lparr>mo_oauth := oa, mo_effects := mo_effects m @ [Browsed url]\<rparr>, [AuthEventLoop (oa_stream oa)]))
      | Inr (Some (AuthTick n)) \<Rightarrow> Some (m\<lparr>mo_oauth := (mo_oauth m)\<lparr>oa_elapsed := n\<rparr>\<rparr>, [AuthEventLoop (oa_stream (mo_oauth m))])
      | Inr (Some AuthSuccess) \<Rightarrow>
          (let m1 = call_cancel (oa_cancel (mo_oauth m)) m
           in if oa_pendingGroupName (mo_oauth m) \<noteq> []
              then Some (m1\<lparr>mo_oauth := no_oauth, mo_chatState := SelectModel, mo_creationProvidersLoaded := False,
                            mo_creationPicker := no_picker, mo_creationSelectedModelID := []\<rparr>,
                         [FetchProviders (mo_creationFlowID m) (Some (oa_groupJID (mo_oauth m)))])
              else Some (m1\<lparr>mo_oauth := no_oauth, mo_chatState := Chatting\<rparr>, []))
      | Inr (Some (AuthError code msg)) \<Rightarrow> auth_failed (Errorf (''oauth '' @ code @ '': '' @ msg)) m
      | Inr (Some UnknownEvent) \<Rightarrow> auth_failed (Errorf ''unknown auth event variant'') m)"

definition clear_creation :: "'u model \<Rightarrow> 'u model" where
  "clear_creation m = m\<lparr>mo_creationPendingGroupName := [], mo_creationSelectedProvider := [], mo_creationProviders := [],
     mo_creationPicker := no_picker, mo_creationProvidersLoaded := False\<rparr>"

definition handleEscOAuth :: "'u model \<Rightarrow> 'u step" where
  "handleEscOAuth m =
     (let wasReauth = (oa_pendingGroupName (mo_oauth m) = []);
          m = (clear_creation (call_cancel (oa_cancel (mo_oauth m)) m))\<lparr>mo_oauth := no_oauth, mo_creationSelectedModelID := []\<rparr>
      in if wasReauth \<and> (case mo_chatGroup m of None \<Rightarrow> False | Some g \<Rightarrow> gi_JID g \<noteq> [])
         then Some (m\<lparr>mo_chatState := Chatting\<rparr>, [])
         else Some (m\<lparr>mo_chatState := SelectGroup\<rparr>, []))"

section \<open>Keys in the messages tab\<close>

definition next_tab :: "'u model \<Rightarrow> 'u model" where
  "next_tab m = m\<lparr>mo_activeTab := (mo_activeTab m + 1) mod int (length (mo_tabs m))\<rparr>"

definition prev_tab :: "'u model \<Rightarrow> 'u model" where
  "prev_tab m = m\<lparr>mo_activeTab := (mo_activeTab m - 1 + int (length (mo_tabs m))) mod int (length (mo_tabs m))\<rparr>"

definition picker_down :: "'u model \<Rightarrow> 'u model" where
  "picker_down m = (let p = mo_creationPicker m in
     if cp_cursor p < int (length (cp_items p)) - 1 then m\<lparr>mo_creationPicker := p\<lparr>cp_cursor := cp_cursor p + 1\<rparr>\<rparr> else m)"

definition picker_up :: "'u model \<Rightarrow> 'u model" where
  "picker_up m = (let p = mo_creationPicker m in
     if 0 < cp_cursor p then m\<lparr>mo_creationPicker := p\<lparr>cp_cursor := cp_cursor p - 1\<rparr>\<rparr> else m)"

definition key_new_group :: "'u ui \<Rightarrow> string \<Rightarrow> 'u model \<Rightarrow> 'u step" where
  "key_new_group u k m =
     (let cleared = m\<lparr>mo_chatRegInput := ui_SetValue u [] (ui_Blur u (mo_chatRegInput m))\<rparr>
      in if k = ''ctrl+c'' then Some (m, [CmdQuit])
         else if k = ''esc'' then Some (cleared, [])
         else if k = ''enter'' then
           (let name = TrimSpace (ui_Value u (mo_chatRegInput m))
            in if name = [] then Some (m, [])
               else let m = cleared\<lparr>mo_creationPendingGroupName := name, mo_chatErr := None, mo_chatState := SelectProvider,
                      mo_creationPicker := no_picker, mo_creationProvidersLoaded := False, mo_creationFlowID := mo_creationFlowID m + 1\<rparr>
                 in Some (m, [FetchProviders (mo_creationFlowID m) None]))
         else Some (m\<lparr>mo_chatRegInput := ui_Key u k (mo_chatRegInput m)\<rparr>, [WidgetCmd]))"

definition key_select_group :: "'u ui \<Rightarrow> string \<Rightarrow> 'u model \<Rightarrow> 'u step" where
  "key_select_group u k m =
     (if ui_Focused u (mo_chatRegInput m) then key_new_group u k m
      else if k = ''ctrl+c'' \<or> k = ''q'' then Some (m, [CmdQuit])
      else if k = ''tab'' then Some (next_tab m, [])
      else if k = ''shift+tab'' then Some (prev_tab m, [])
      else if k = ''n'' then Some (m\<lparr>mo_chatRegInput := ui_Focus u (mo_chatRegInput m)\<rparr>, [])
      else if k = ''j'' \<or> k = ''down'' then
        Some (if mo_groups m \<noteq> [] \<and> mo_chatGroupCursor m < int (length (mo_groups m)) - 1
              then m\<lparr>mo_chatGroupCursor := mo_chatGroupCursor m + 1\<rparr> else m, [])
      else if k = ''k'' \<or> k = ''up'' then
        Some (if 0 < mo_chatGroupCursor m then m\<lparr>mo_chatGroupCursor := mo_chatGroupCursor m - 1\<rparr> else m, [])
      else if k = ''enter'' then
        (if mo_groups m = [] then Some (m, [])
         else case index (mo_groups m) (mo_chatGroupCursor m) of
           None \<Rightarrow> None
         | Some g \<Rightarrow> Some (m\<lparr>mo_chatGroup := Some g, mo_chatState := Connecting, mo_chatErr := None, mo_chatMessages := [], mo_chatModel := []\<rparr>,
             [OpenInbound (gi_JID g)]))
      else Some (m, []))"

definition no_models_err :: "string \<Rightarrow> string \<Rightarrow> goerr" where
  "no_models_err pid what = Errorf (''provider '' @ Quote pid @ '' has no models configured '' @ [CHR 0xE2, CHR 0x80, CHR 0x94] @ what)"

definition pick_provider :: "creationPickerItem \<Rightarrow> 'u model \<Rightarrow> 'u step" where
  "pick_provider selected m =
     (if lookupAuthMode (mo_creationProviders m) (cp_id selected) = Some AuthModeChatGPT
      then let groupJID = ''tui:'' @ mo_creationPendingGroupName m
        in Some (m\<lparr>mo_creationSelectedProvider := cp_id selected, mo_creationSelectedModelID := [],
              mo_oauth := no_oauth\<lparr>oa_provider := cp_id selected, oa_groupJID := groupJID, oa_pendingGroupName := mo_creationPendingGroupName m\<rparr>,
              mo_chatState := OAuth\<rparr>, [StartOAuth (cp_id selected) groupJID])
      else let modelItems = buildModelItems (mo_creationProviders m) (cp_id selected)
        in if modelItems = []
           then Some (m\<lparr>mo_chatErr := Some (no_models_err (cp_id selected) '' select a different provider or press Esc to cancel'')\<rparr>, [])
           else Some (m\<lparr>mo_creationSelectedProvider := cp_id selected, mo_creationPicker := \<lparr>cp_items = modelItems, cp_cursor = 0\<rparr>,
                        mo_chatState := SelectModel\<rparr>, []))"

definition key_select_provider :: "string \<Rightarrow> 'u model \<Rightarrow> 'u step" where
  "key_select_provider k m =
     (if k = ''ctrl+c'' then Some (m, [CmdQuit])
      else if k = ''esc'' then Some (m\<lparr>mo_chatState := SelectGroup, mo_chatErr := None, mo_creationPendingGroupName := [],
             mo_creationPicker := no_picker, mo_creationProvidersLoaded := False\<rparr>, [])
      else if k = ''j'' \<or> k = ''down'' then Some (picker_down m, [])
      else if k = ''k'' \<or> k = ''up'' then Some (picker_up m, [])
      else if k = ''enter'' then
        (if \<not> mo_creationProvidersLoaded m \<or> cp_items (mo_creationPicker m) = [] then Some (m, [])
         else case index (cp_items (mo_creationPicker m)) (cp_cursor (mo_creationPicker m)) of
           None \<Rightarrow> None
         | Some selected \<Rightarrow> pick_provider selected m)
      else Some (m, []))"

definition key_select_model :: "string \<Rightarrow> 'u model \<Rightarrow> 'u step" where
  "key_select_model k m =
     (if k = ''ctrl+c'' then Some (m, [CmdQuit])
      else if k = ''esc'' then
        (case buildProviderItems (mo_creationProviders m) (mo_creationSelectedProvider m) of
           (items, cursor) \<Rightarrow> Some (m\<lparr>mo_chatState := SelectProvider, mo_creationPicker := \<lparr>cp_items = items, cp_cursor = cursor\<rparr>\<rparr>, []))
      else if k = ''j'' \<or> k = ''down'' then Some (picker_down m, [])
      else if k = ''k'' \<or> k = ''up'' then Some (picker_up m, [])
      else if k = ''enter'' then
        (if cp_items (mo_creationPicker m) = [] then Some (m, [])
         else case index (cp_items (mo_creationPicker m)) (cp_cursor (mo_creationPicker m)) of
           None \<Rightarrow> None
         | Some selected \<Rightarrow>
             Some ((clear_creation m)\<lparr>mo_creationSelectedModelID := cp_id selected, mo_chatState := Connecting, mo_chatMessages := []\<rparr>,
               [RegisterGroupCmd (mo_creationPendingGroupName m) (mo_creationSelectedProvider m) (cp_id selected)]))
      else Some (m, []))"

definition chat_send :: "'u model \<Rightarrow> string \<Rightarrow> tea_cmd" where
  "chat_send m txt = SendMessageCmd (map_option gi_JID (mo_chatGroup m)) txt"

definition key_model_picker :: "string \<Rightarrow> 'u model \<Rightarrow> 'u step option" where
  "key_model_picker k m =
     (let p = mo_modelPicker m; closed = m\<lparr>mo_modelPicker := p\<lparr>mp_Open := False, mp_Loading := False\<rparr>\<rparr>
      in if \<not> mp_Open p then None
         else if k = ''esc'' then Some (Some (closed, []))
         else if k = ''j'' \<or> k = ''down'' then
           Some (Some (if mp_Cursor p < int (length (mp_Options p)) - 1 then m\<lparr>mo_modelPicker := p\<lparr>mp_Cursor := mp_Cursor p + 1\<rparr>\<rparr> else m, []))
         else if k = ''k'' \<or> k = ''up'' then
           Some (Some (if 0 < mp_Cursor p then m\<lparr>mo_modelPicker := p\<lparr>mp_Cursor := mp_Cursor p - 1\<rparr>\<rparr> else m, []))
         else if k = ''enter'' then
           (case index (mp_Options p) (mp_Cursor p) of
              None \<Rightarrow> Some (Some (m, []))
            | Some selected \<Rightarrow> Some (Some (closed, [chat_send m (''/model '' @ mp_ID selected)])))
         else None)"

definition clear_input :: "'u ui \<Rightarrow> 'u model \<Rightarrow> 'u model" where
  "clear_input u m = m\<lparr>mo_chatInput := ui_SetValue u [] (ui_Reset u (mo_chatInput m))\<rparr>"

definition send_input :: "'u ui \<Rightarrow> string \<Rightarrow> 'u model \<Rightarrow> 'u step" where
  "send_input u input m =
     (if isAuthCommand input then
        (case Fields input of
           _ # provider # _ \<Rightarrow>
             (case mo_chatGroup m of
                None \<Rightarrow> None
              | Some g \<Rightarrow>
                  Some ((clear_input u m)\<lparr>mo_oauth := no_oauth\<lparr>oa_provider := provider, oa_groupJID := gi_JID g\<rparr>, mo_chatState := OAuth, mo_chatErr := None\<rparr>,
                    [StartOAuth provider (gi_JID g)]))
         | _ \<Rightarrow> Some (m\<lparr>mo_chatErr := Some (Errorf ''usage: :auth <provider>'')\<rparr>, []))
      else if input = [] then Some (m, [])
      else case handleLocalCommand input m of
        (True, m) \<Rightarrow> Some (refreshChatViewportContent u (clear_input u m), [])
      | (False, m) \<Rightarrow>
          Some ((goto_bottom u (show_messages u (clear_input u (m\<lparr>mo_chatMessages := mo_chatMessages m @ [\<lparr>cm_sender = ''you'', cm_content = input\<rparr>]\<rparr>))))
                 \<lparr>mo_chatWaitingForAgent := True\<rparr>, [chat_send m input]))"

definition leave_chat :: "'u ui \<Rightarrow> 'u model \<Rightarrow> 'u model" where
  "leave_chat u m =
     (call_cancel (mo_chatCancel m) m)\<lparr>mo_chatState := SelectGroup, mo_chatWaitingForAgent := False,
        mo_modelPicker := (mo_modelPicker m)\<lparr>mp_Open := False, mp_Loading := False\<rparr>,
        mo_chatInput := ui_Blur u (mo_chatInput m), mo_chatCancel := None, mo_inboundStream := None\<rparr>"

definition key_chatting :: "'u ui \<Rightarrow> string \<Rightarrow> 'u model \<Rightarrow> 'u step" where
  "key_chatting u k m =
     (case key_model_picker k m of
        Some r \<Rightarrow> r
      | None \<Rightarrow>
          if k = ''ctrl+c'' then Some (m, [CmdQuit])
          else if k = ''esc'' then Some (leave_chat u m, [])
          else if k = ''enter'' then send_input u (TrimSpace (ui_Value u (mo_chatInput m))) m
          else if k = ''ctrl+m'' then
            Some (m\<lparr>mo_modelPicker := \<lparr>mp_Open = True, mp_Loading = True, mp_Options = [], mp_Cursor = 0, mp_LastError = []\<rparr>\<rparr>, [chat_send m ''/models''])
          else if k = ''ctrl+u'' \<or> k = ''pgup'' then Some (m\<lparr>mo_chatViewport := ui_HalfPageUp u (mo_chatViewport m)\<rparr>, [])
          else if k = ''ctrl+d'' \<or> k = ''pgdown'' then Some (m\<lparr>mo_chatViewport := ui_HalfPageDown u (mo_chatViewport m)\<rparr>, [])
          else Some (m\<lparr>mo_chatInput := ui_Key u k (mo_chatInput m)\<rparr>, [WidgetCmd]))"

definition updateChat :: "'u ui \<Rightarrow> string \<Rightarrow> 'u model \<Rightarrow> 'u step" where
  "updateChat u k m =
     (case mo_chatState m of
        SelectGroup \<Rightarrow> key_select_group u k m
      | SelectProvider \<Rightarrow> key_select_provider k m
      | SelectModel \<Rightarrow> key_select_model k m
      | OAuth \<Rightarrow>
          if k = ''ctrl+c'' then Some (call_cancel (oa_cancel (mo_oauth m)) m, [CmdQuit])
          else if k = ''esc'' then handleEscOAuth m
          else Some (m, [])
      | Connecting \<Rightarrow>
          if k = ''ctrl+c'' then Some (m, [CmdQuit])
          else if k = ''esc'' then Some (m\<lparr>mo_chatState := SelectGroup\<rparr>, [])
          else Some (m, [])
      | Chatting \<Rightarrow> key_chatting u k m)"

section \<open>Update\<close>

definition open_if_none :: "'u model \<Rightarrow> tea_cmd list" where
  "open_if_none m = (if mo_eventStream m = None then [OpenEventStream] else [])"

definition toggle_theme :: "'u ui \<Rightarrow> 'u model \<Rightarrow> 'u model" where
  "toggle_theme u m =
     (let next1 = (if mo_theme m = ''light'' then ''dark'' else ''light'')
      in refreshChatViewportContent u (persist_theme next1 (setTheme next1 m)))"

definition tab_key :: "string \<Rightarrow> int option" where
  "tab_key k = map_of [(''1'', tabDashboard), (''2'', tabSandboxes), (''3'', tabGroups), (''4'', tabTasks), (''5'', tabEvents),
     (''6'', tabMessages), (''7'', tabChannels), (''8'', tabConfig)] k"

definition update_key :: "'u ui \<Rightarrow> string \<Rightarrow> 'u model \<Rightarrow> 'u step" where
  "update_key u k m =
     (if k = ''ctrl+t'' then Some (toggle_theme u m, [])
      else if mo_activeTab m = tabMessages then updateChat u k m
      else if k = ''ctrl+c'' \<or> k = ''q'' then Some (m, [CmdQuit])
      else if k = ''tab'' then Some (next_tab m, [])
      else if k = ''shift+tab'' then Some (prev_tab m, [])
      else case tab_key k of
        Some t \<Rightarrow> Some (m\<lparr>mo_activeTab := t\<rparr>, [])
      | None \<Rightarrow>
          if k = ''r'' then Some (m\<lparr>mo_loading := True\<rparr>, fetchAll @ open_if_none m)
          else if k = ''j'' \<or> k = ''down'' then Some (moveCursor 1 m, [])
          else if k = ''k'' \<or> k = ''up'' then Some (moveCursor (- 1) m, [])
          else if k = ''enter'' then
            Some (if mo_activeTab m = tabSandboxes \<and> mo_sandboxes m \<noteq> [] then m\<lparr>mo_sandboxDetailOpen := True\<rparr> else m, [])
          else if k = ''esc'' then Some (m\<lparr>mo_sandboxDetailOpen := False\<rparr>, [])
          else if k = ''g'' then Some (if mo_activeTab m = tabTasks then cycleTaskFilter m else m, [])
          else Some (m, []))"

definition update_sandboxes :: "SandboxInfo list \<Rightarrow> goerr option \<Rightarrow> 'u model \<Rightarrow> 'u model" where
  "update_sandboxes sbs err m =
     (let m = m\<lparr>mo_sandboxes := sbs, mo_sandboxesErr := err\<rparr>
      in if mo_sandboxCursor m \<ge> int (length sbs) then m\<lparr>mo_sandboxCursor := 0, mo_sandboxDetailOpen := False\<rparr> else m)"

definition update_groups :: "GroupInfo list \<Rightarrow> goerr option \<Rightarrow> 'u model \<Rightarrow> 'u model" where
  "update_groups gs err m =
     (let m = m\<lparr>mo_groups := gs, mo_groupsErr := err\<rparr>
      in if mo_groupsCursor m \<ge> int (length gs) then m\<lparr>mo_groupsCursor := 0\<rparr> else m)"

definition update_tasks :: "TaskInfo list \<Rightarrow> goerr option \<Rightarrow> 'u model \<Rightarrow> 'u model" where
  "update_tasks ts err m =
     (let m = m\<lparr>mo_tasks := ts, mo_tasksErr := err\<rparr>
      in if mo_tasksCursor m \<ge> int (length (filteredTasks m)) then m\<lparr>mo_tasksCursor := 0\<rparr> else m)"

text \<open>A stream that ended or was cancelled is no error to show.\<close>

definition real_error :: "'u ui \<Rightarrow> goerr \<Rightarrow> bool" where
  "real_error u err \<longleftrightarrow> \<not> errors_Is err EOF \<and> ui_code u err \<noteq> ''Canceled''"

definition update_event :: "'u ui \<Rightarrow> EventInfo result \<Rightarrow> 'u model \<Rightarrow> 'u model \<times> tea_cmd list" where
  "update_event u r m =
     (case r of
        Inl err \<Rightarrow> ((if real_error u err then m\<lparr>mo_eventsErr := Some err\<rparr> else m)\<lparr>mo_eventStream := None\<rparr>, [])
      | Inr ev \<Rightarrow> (m\<lparr>mo_eventsErr := None, mo_events := take 200 (ev # mo_events m)\<rparr>, [ReadEvent (mo_eventStream m)]))"

definition update_providers :: "int \<Rightarrow> ProviderInfo list result \<Rightarrow> 'u model \<Rightarrow> 'u model" where
  "update_providers flowID r m =
     (if mo_chatState m \<noteq> SelectProvider \<and> mo_chatState m \<noteq> SelectModel \<or> flowID \<noteq> mo_creationFlowID m then m
      else case r of
        Inl err \<Rightarrow> (clear_creation m)\<lparr>mo_chatErr := Some err, mo_chatState := SelectGroup\<rparr>
      | Inr providers \<Rightarrow>
          (let m = m\<lparr>mo_creationProviders := providers\<rparr>;
               m = (if mo_chatState m = SelectModel \<and> mo_creationSelectedProvider m \<noteq> []
                    then let items = buildModelItems providers (mo_creationSelectedProvider m)
                      in m\<lparr>mo_creationPicker := \<lparr>cp_items = items, cp_cursor = 0\<rparr>,
                           mo_chatErr := (if items = [] then Some (no_models_err (mo_creationSelectedProvider m) '' press Esc to cancel'') else None)\<rparr>
                    else m\<lparr>mo_creationPicker := \<lparr>cp_items = fst (buildProviderItems providers []), cp_cursor = 0\<rparr>\<rparr>)
           in m\<lparr>mo_creationProvidersLoaded := True\<rparr>))"

definition update_registered :: "GroupInfo result \<Rightarrow> 'u model \<Rightarrow> 'u model \<times> tea_cmd list" where
  "update_registered r m =
     (case r of
        Inl err \<Rightarrow> ((clear_creation m)\<lparr>mo_chatErr := Some err, mo_chatState := SelectGroup\<rparr>, [FetchGroups])
      | Inr group' \<Rightarrow>
          (let g = group'\<lparr>gi_TriggerPattern := []\<rparr>
           in (m\<lparr>mo_chatGroup := Some g, mo_chatState := Connecting, mo_chatErr := None, mo_chatMessages := [], mo_chatModel := []\<rparr>,
               [FetchGroups, OpenInbound (gi_JID g)])))"

definition update_stream :: "'u ui \<Rightarrow> nat result \<Rightarrow> 'u model \<Rightarrow> 'u model \<times> tea_cmd list" where
  "update_stream u r m =
     (case r of
        Inl err \<Rightarrow> (m\<lparr>mo_chatErr := Some err, mo_chatWaitingForAgent := False, mo_chatState := SelectGroup\<rparr>, [])
      | Inr n \<Rightarrow>
          (applyLayout u (m\<lparr>mo_inboundStream := Some n, mo_chatCancel := Some n, mo_chatState := Chatting, mo_chatErr := None,
             mo_chatInput := ui_Focus u (mo_chatInput m)\<rparr>), [ReadInbound n]))"

definition picker_answer :: "string \<Rightarrow> modelPickerState \<Rightarrow> modelPickerState" where
  "picker_answer content p =
     (if \<not> mp_Open p then p
      else if HasPrefix content ''Failed to fetch models:'' then p\<lparr>mp_LastError := content, mp_Loading := False\<rparr>
      else if HasPrefix content ''Models'' then
        (let parsed = parseModelList content; p = p\<lparr>mp_Loading := False, mp_LastError := []\<rparr>
         in if parsed \<noteq> []
            then let c = max 0 (mp_Cursor p)
              in p\<lparr>mp_Options := parsed, mp_Cursor := (if c \<ge> int (length parsed) then int (length parsed) - 1 else c)\<rparr>
            else p\<lparr>mp_Options := [], mp_Cursor := 0\<rparr>)
      else p)"

definition disconnected_note :: chatMessage where
  "disconnected_note = \<lparr>cm_sender = ''system'', cm_content = ''[stream disconnected. press esc to return.]''\<rparr>"

definition update_output :: "'u ui \<Rightarrow> tui_inbound result \<Rightarrow> 'u model \<Rightarrow> 'u model \<times> tea_cmd list" where
  "update_output u r m =
     (case r of
        Inl err \<Rightarrow>
          (let m = m\<lparr>mo_chatWaitingForAgent := False\<rparr>;
               m = (if real_error u err then m\<lparr>mo_chatErr := Some err\<rparr> else m);
               m = m\<lparr>mo_inboundStream := None, mo_chatMessages := mo_chatMessages m @ [disconnected_note]\<rparr>
           in (goto_bottom u (show_messages u m), []))
      | Inr msg \<Rightarrow>
          (let m = (if ti_Model msg \<noteq> [] then m\<lparr>mo_chatModel := ti_Model msg\<rparr> else m);
               m = m\<lparr>mo_modelPicker := picker_answer (ti_Content msg) (mo_modelPicker m)\<rparr>;
               m = (if ti_Content msg \<noteq> []
                    then let wasAtBottom = ui_AtBottom u (mo_chatViewport m);
                             m = show_messages u (m\<lparr>mo_chatWaitingForAgent := False,
                                   mo_chatMessages := mo_chatMessages m @ [\<lparr>cm_sender = ''agent'', cm_content = ti_Content msg\<rparr>]\<rparr>)
                      in if wasAtBottom then goto_bottom u m else m
                    else m)
           in (m, case mo_inboundStream m of None \<Rightarrow> [] | Some n \<Rightarrow> [ReadInbound n])))"

definition Update :: "'u ui \<Rightarrow> tea_msg \<Rightarrow> 'u model \<Rightarrow> 'u step" where
  "Update u msg m =
     (case msg of
        KeyPress k \<Rightarrow> update_key u k m
      | MouseMsg \<Rightarrow>
          if mo_activeTab m = tabMessages \<and> mo_chatState m = Chatting
          then Some (m\<lparr>mo_chatViewport := ui_Mouse u (mo_chatViewport m)\<rparr>, [WidgetCmd]) else Some (m, [])
      | WindowSize w h \<Rightarrow> Some (applyLayout u (m\<lparr>mo_width := w, mo_height := h\<rparr>), [])
      | TickMsg t \<Rightarrow> (let m = m\<lparr>mo_now := t\<rparr> in Some (m, fetchAll @ [CmdTick] @ open_if_none m))
      | StatusMsg st err \<Rightarrow> Some (m\<lparr>mo_loading := False, mo_status := st, mo_statusErr := err\<rparr>, [])
      | SandboxesMsg sbs err \<Rightarrow> Some (update_sandboxes sbs err m, [])
      | GroupsMsg gs err \<Rightarrow> Some (update_groups gs err m, [])
      | TasksMsg ts err \<Rightarrow> Some (update_tasks ts err m, [])
      | EventStreamOpened (Inl err) \<Rightarrow> Some (m\<lparr>mo_eventsErr := Some err, mo_eventStream := None\<rparr>, [])
      | EventStreamOpened (Inr n) \<Rightarrow> Some (m\<lparr>mo_eventsErr := None, mo_eventStream := Some n\<rparr>, [ReadEvent (Some n)])
      | EventReceived r \<Rightarrow> Some (update_event u r m)
      | ProvidersLoaded flowID r \<Rightarrow> Some (update_providers flowID r m, [])
      | GroupRegistered r \<Rightarrow> Some (update_registered r m)
      | StreamOpened r \<Rightarrow> Some (update_stream u r m)
      | ChannelOutput r \<Rightarrow> Some (update_output u r m)
      | InputSent err \<Rightarrow> Some (if err \<noteq> None then m\<lparr>mo_chatErr := err\<rparr> else m, [])
      | AuthStarted r \<Rightarrow> handleAuthStarted r m
      | AuthEvent r \<Rightarrow> handleAuthEvent u r m
      | SpinnerTick \<Rightarrow> Some (m\<lparr>mo_spinner := ui_Spin u (mo_spinner m)\<rparr>, [CmdSpin]))"

definition tui_Init :: "tea_cmd list" where
  "tui_Init = CmdSpin # fetchAll @ [OpenEventStream, CmdTick]"

text \<open>The widgets of the initial model are the ones of \<open>w\<close>, in the order spinner, input, viewport, group name.\<close>

definition initialModel :: "string \<Rightarrow> string \<Rightarrow> time \<Rightarrow> 'u \<times> 'u \<times> 'u \<times> 'u \<Rightarrow> 'u model" where
  "initialModel serverAddr theme now w =
     (case w of (spin, inp, vp, reg) \<Rightarrow>
        \<lparr>mo_activeTab = tabMessages, mo_tabs = tabLabels, mo_width = 0, mo_height = 0, mo_serverAddr = serverAddr, mo_useTLS = False,
         mo_status = None, mo_statusErr = None, mo_sandboxes = [], mo_sandboxesErr = None, mo_sandboxCursor = 0, mo_sandboxDetailOpen = False,
         mo_groups = [], mo_groupsErr = None, mo_groupsCursor = 0, mo_tasks = [], mo_tasksErr = None, mo_tasksCursor = 0, mo_tasksFilterFolder = [],
         mo_events = [], mo_eventsErr = None, mo_spinner = spin, mo_loading = True, mo_now = now, mo_eventStream = None,
         mo_chatState = SelectGroup, mo_chatGroupCursor = 0, mo_chatGroup = None, mo_chatMessages = [], mo_chatInput = inp, mo_chatViewport = vp,
         mo_chatErr = None, mo_chatCancel = None, mo_inboundStream = None, mo_chatRegInput = reg, mo_chatModel = [], mo_chatWaitingForAgent = False,
         mo_modelPicker = \<lparr>mp_Open = False, mp_Loading = False, mp_Options = [], mp_Cursor = 0, mp_LastError = []\<rparr>,
         mo_creationFlowID = 0, mo_creationPendingGroupName = [], mo_creationSelectedProvider = [], mo_creationSelectedModelID = [],
         mo_creationProviders = [], mo_creationPicker = no_picker, mo_creationProvidersLoaded = False, mo_oauth = no_oauth,
         mo_mdRenderer = None, mo_mdRendererWidth = 0, mo_theme = theme, mo_effects = []\<rparr>)"

end
