(* ===== verification/Tui_Client_Props.thy ===== *)
theory Tui_Client_Props
  imports Tui_Client
begin

text \<open>
  The runtime of the terminal client and what holds of its states: commands run concurrently
  and answer in any order, the user types in between. The invariants hold in every reachable
  state; the last section shows, by runs of the same machine, the states the client does not
  exclude.
\<close>

section \<open>The runtime\<close>

text \<open>What a command may answer. A command on a missing stream or group has no answer: it panics.\<close>

inductive answers :: "tea_cmd \<Rightarrow> tea_msg \<Rightarrow> bool" where
  "answers CmdSpin SpinnerTick"
| "answers CmdTick (TickMsg t)"
| "answers FetchStatus (StatusMsg (Some st) None)"
| "answers FetchStatus (StatusMsg None (Some err))"
| "answers FetchSandboxes (SandboxesMsg sbs None)"
| "answers FetchSandboxes (SandboxesMsg [] (Some err))"
| "answers FetchGroups (GroupsMsg gs None)"
| "answers FetchGroups (GroupsMsg [] (Some err))"
| "answers FetchTasks (TasksMsg ts None)"
| "answers FetchTasks (TasksMsg [] (Some err))"
| "answers OpenEventStream (EventStreamOpened r)"
| "answers (ReadEvent (Some n)) (EventReceived ev)"
| "answers (FetchProviders flowID jid) (ProvidersLoaded flowID ps)"
| "answers (RegisterGroupCmd name provider modelID) (GroupRegistered g)"
| "answers (OpenInbound jid) (StreamOpened r)"
| "answers (ReadInbound n) (ChannelOutput out)"
| "answers (SendMessageCmd (Some jid) txt) (InputSent e)"
| "answers (StartOAuth provider jid) (AuthStarted r)"
| "answers (AuthEventLoop (Some n)) (AuthEvent dev)"

inductive_cases answersE: "answers c msg"

definition from_user :: "tea_msg \<Rightarrow> bool" where
  "from_user msg \<longleftrightarrow> (case msg of KeyPress _ \<Rightarrow> True | MouseMsg \<Rightarrow> True | WindowSize _ _ \<Rightarrow> True | _ \<Rightarrow> False)"

inductive client_step :: "'u ui \<Rightarrow> 'u model \<times> tea_cmd list \<Rightarrow> 'u model \<times> tea_cmd list \<Rightarrow> bool" where
  input: "from_user msg \<Longrightarrow> Update u msg m = Some (m', cs) \<Longrightarrow> client_step u (m, p) (m', p @ cs)"
| answer: "c \<in> set p \<Longrightarrow> answers c msg \<Longrightarrow> Update u msg m = Some (m', cs) \<Longrightarrow> client_step u (m, p) (m', remove1 c p @ cs)"

inductive client_reachable :: "'u ui \<Rightarrow> 'u model \<times> tea_cmd list \<Rightarrow> bool" for u where
  init: "client_reachable u ((initialModel addr (applyThemeName theme) now w)\<lparr>mo_useTLS := tls\<rparr>, tui_Init)"
| step: "client_reachable u s \<Longrightarrow> client_step u s s' \<Longrightarrow> client_reachable u s'"

section \<open>Cursors and buffers\<close>

definition in_list :: "int \<Rightarrow> 'a list \<Rightarrow> bool" where
  "in_list c xs \<longleftrightarrow> c = 0 \<or> 0 < c \<and> c < int (length xs)"

definition filter_tasks :: "string \<Rightarrow> TaskInfo list \<Rightarrow> TaskInfo list" where
  "filter_tasks folder ts = (if folder = [] then ts else filter (\<lambda>t. ti_GroupFolder t = folder) ts)"

lemma filteredTasks_eq: "filteredTasks m = filter_tasks (mo_tasksFilterFolder m) (mo_tasks m)"
  by (simp add: filteredTasks_def filter_tasks_def)

definition lists_ok :: "'u model \<Rightarrow> bool" where
  "lists_ok m \<longleftrightarrow> mo_tabs m = tabLabels \<and> 0 \<le> mo_activeTab m \<and> mo_activeTab m < 8 \<and>
     in_list (mo_sandboxCursor m) (mo_sandboxes m) \<and> (mo_sandboxDetailOpen m \<longrightarrow> mo_sandboxes m \<noteq> []) \<and>
     in_list (mo_groupsCursor m) (mo_groups m) \<and> in_list (mo_tasksCursor m) (filter_tasks (mo_tasksFilterFolder m) (mo_tasks m)) \<and>
     length (mo_events m) \<le> 200"

definition chat_ok :: "'u model \<Rightarrow> bool" where
  "chat_ok m \<longleftrightarrow> 0 \<le> mo_chatGroupCursor m \<and> in_list (cp_cursor (mo_creationPicker m)) (cp_items (mo_creationPicker m)) \<and>
     in_list (mp_Cursor (mo_modelPicker m)) (mp_Options (mo_modelPicker m)) \<and> mo_theme m \<in> {''light'', ''dark''}"

lemma in_list_zero [simp]: "in_list 0 xs"
  by (simp add: in_list_def)

lemma in_list_clamp [simp]: "in_list (clampCursor n (int (length xs))) xs"
  by (cases xs) (auto simp: in_list_def clampCursor_def)

lemma in_list_index: "in_list c xs \<Longrightarrow> xs \<noteq> [] \<Longrightarrow> \<exists>x. index xs c = Some x"
  by (auto simp: in_list_def index_def)

lemma length_tabLabels [simp]: "length tabLabels = 8"
  by (simp add: tabLabels_def)

lemma tab_key_range: "tab_key k = Some t \<Longrightarrow> 0 \<le> t \<and> t < 8"
  by (auto simp: tab_key_def tab_defs split: if_splits)

lemma add_provider_item_cursor: "in_list (snd acc) (fst acc) \<Longrightarrow> in_list (snd (add_provider_item sel p acc)) (fst (add_provider_item sel p acc))"
  by (auto simp: add_provider_item_def in_list_def Let_def)

lemma buildProviderItems_cursor: "buildProviderItems ps sel = (items, c) \<Longrightarrow> in_list c items"
proof -
  have "in_list (snd acc) (fst acc) \<Longrightarrow> in_list (snd (fold (add_provider_item sel) ps acc)) (fst (fold (add_provider_item sel) ps acc))" for acc
    by (induction ps arbitrary: acc) (simp_all add: add_provider_item_cursor)
  from this [of "([], 0)"] show "buildProviderItems ps sel = (items, c) \<Longrightarrow> in_list c items"
    by (simp add: buildProviderItems_def)
qed

lemma show_messages_parts:
  "lists_ok (show_messages u m) = lists_ok m" "chat_ok (show_messages u m) = chat_ok m"
  by (simp_all add: show_messages_def ensureMarkdownRenderer_def Let_def lists_ok_def chat_ok_def split: sum.split)

lemma goto_bottom_parts [simp]: "lists_ok (goto_bottom u m) = lists_ok m" "chat_ok (goto_bottom u m) = chat_ok m"
  by (simp_all add: goto_bottom_def lists_ok_def chat_ok_def)

lemma call_cancel_parts [simp]: "lists_ok (call_cancel c m) = lists_ok m" "chat_ok (call_cancel c m) = chat_ok m"
  by (simp_all add: call_cancel_def lists_ok_def chat_ok_def split: option.split)

definition client_ok :: "'u model \<Rightarrow> bool" where
  "client_ok m \<longleftrightarrow> lists_ok m \<and> chat_ok m"

lemmas parts_defs = lists_ok_def chat_ok_def no_picker_def

lemma client_ok_parts [simp]:
  "client_ok (goto_bottom u m) = client_ok m" "client_ok (call_cancel c m) = client_ok m" "client_ok (show_messages u m) = client_ok m"
  by (simp_all add: client_ok_def show_messages_parts)

lemma refresh_ok: "client_ok m \<Longrightarrow> client_ok (refreshChatViewportContent u m)"
  by (simp add: refreshChatViewportContent_def) (simp add: client_ok_def parts_defs)

lemma applyLayout_ok: "client_ok m \<Longrightarrow> client_ok (applyLayout u m)"
  by (simp add: applyLayout_def Let_def) (simp add: client_ok_def parts_defs)

lemma theme_ok: "client_ok m \<Longrightarrow> client_ok (persist_theme n (setTheme t m))"
  by (simp add: client_ok_def parts_defs persist_theme_def setTheme_def applyThemeName_def)

lemma tabs_ok: "client_ok m \<Longrightarrow> client_ok (next_tab m)" "client_ok m \<Longrightarrow> client_ok (prev_tab m)"
  by (simp_all add: client_ok_def parts_defs next_tab_def prev_tab_def)

lemma picker_ok: "client_ok m \<Longrightarrow> client_ok (picker_down m)" "client_ok m \<Longrightarrow> client_ok (picker_up m)"
  by (auto simp: client_ok_def parts_defs picker_down_def picker_up_def Let_def in_list_def)

lemma clear_creation_ok: "client_ok m \<Longrightarrow> client_ok (clear_creation m)"
  by (simp add: client_ok_def parts_defs clear_creation_def)

text \<open>Updates of fields the invariant does not mention.\<close>

lemma client_ok_upd [simp]:
  "client_ok (m\<lparr>mo_chatRegInput := x1\<rparr>) = client_ok m" "client_ok (m\<lparr>mo_chatInput := x1\<rparr>) = client_ok m"
  "client_ok (m\<lparr>mo_chatViewport := x1\<rparr>) = client_ok m" "client_ok (m\<lparr>mo_chatErr := x2\<rparr>) = client_ok m"
  "client_ok (m\<lparr>mo_chatState := x3\<rparr>) = client_ok m" "client_ok (m\<lparr>mo_chatMessages := x4\<rparr>) = client_ok m"
  "client_ok (m\<lparr>mo_oauth := x5\<rparr>) = client_ok m" "client_ok (m\<lparr>mo_chatGroup := x6\<rparr>) = client_ok m"
  "client_ok (m\<lparr>mo_chatModel := x7\<rparr>) = client_ok m" "client_ok (m\<lparr>mo_chatWaitingForAgent := x8\<rparr>) = client_ok m"
  "client_ok (m\<lparr>mo_creationPendingGroupName := x7\<rparr>) = client_ok m" "client_ok (m\<lparr>mo_creationSelectedProvider := x7\<rparr>) = client_ok m"
  "client_ok (m\<lparr>mo_creationSelectedModelID := x7\<rparr>) = client_ok m" "client_ok (m\<lparr>mo_creationProvidersLoaded := x8\<rparr>) = client_ok m"
  "client_ok (m\<lparr>mo_creationFlowID := x9\<rparr>) = client_ok m" "client_ok (m\<lparr>mo_creationProviders := x10\<rparr>) = client_ok m"
  "client_ok (m\<lparr>mo_chatCancel := x11\<rparr>) = client_ok m" "client_ok (m\<lparr>mo_inboundStream := x11\<rparr>) = client_ok m"
  "client_ok (m\<lparr>mo_eventStream := x11\<rparr>) = client_ok m" "client_ok (m\<lparr>mo_eventsErr := x2\<rparr>) = client_ok m"
  "client_ok (m\<lparr>mo_effects := x12\<rparr>) = client_ok m" "client_ok (m\<lparr>mo_loading := x8\<rparr>) = client_ok m"
  "client_ok (m\<lparr>mo_now := x13\<rparr>) = client_ok m" "client_ok (m\<lparr>mo_status := x14\<rparr>) = client_ok m"
  "client_ok (m\<lparr>mo_statusErr := x2\<rparr>) = client_ok m" "client_ok (m\<lparr>mo_spinner := x1\<rparr>) = client_ok m"
  "client_ok (m\<lparr>mo_width := x9\<rparr>) = client_ok m" "client_ok (m\<lparr>mo_height := x9\<rparr>) = client_ok m"
  by (simp_all add: client_ok_def parts_defs)

lemma set_picker_ok [simp]:
  "client_ok m \<Longrightarrow> client_ok (m\<lparr>mo_creationPicker := p\<rparr>) = in_list (cp_cursor p) (cp_items p)"
  "client_ok m \<Longrightarrow> client_ok (m\<lparr>mo_modelPicker := q\<rparr>) = in_list (mp_Cursor q) (mp_Options q)"
  by (auto simp: client_ok_def parts_defs)

lemma no_picker_ok [simp]: "in_list (cp_cursor no_picker) (cp_items no_picker)"
  by (simp add: no_picker_def)

section \<open>Every update keeps them\<close>

definition keeps_ok :: "'u model \<Rightarrow> 'u step \<Rightarrow> bool" where
  "keeps_ok m s \<longleftrightarrow> (client_ok m \<longrightarrow> (\<forall>m' cs. s = Some (m', cs) \<longrightarrow> client_ok m'))"

lemma keeps_okI: "(\<And>m' cs. client_ok m \<Longrightarrow> s = Some (m', cs) \<Longrightarrow> client_ok m') \<Longrightarrow> keeps_ok m s"
  by (auto simp: keeps_ok_def)

lemma keeps_ok_Some [simp]: "keeps_ok m (Some (m', cs)) \<longleftrightarrow> (client_ok m \<longrightarrow> client_ok m')" "keeps_ok m None"
  by (auto simp: keeps_ok_def)

lemma keeps_ok_if: "keeps_ok m s \<Longrightarrow> keeps_ok m t \<Longrightarrow> keeps_ok m (if b then s else t)"
  by simp

lemma chatGroupCursor_ok [simp]: "client_ok m \<Longrightarrow> client_ok (m\<lparr>mo_chatGroupCursor := c\<rparr>) = (0 \<le> c)"
  by (auto simp: client_ok_def parts_defs)

lemma activeTab_ok [simp]: "client_ok m \<Longrightarrow> client_ok (m\<lparr>mo_activeTab := t\<rparr>) = (0 \<le> t \<and> t < 8)"
  by (auto simp: client_ok_def parts_defs)

lemma in_list_move [simp]: "in_list c xs \<Longrightarrow> c < int (length xs) - 1 \<Longrightarrow> in_list (c + 1) xs" "in_list c xs \<Longrightarrow> 0 < c \<Longrightarrow> in_list (c - 1) xs"
  by (auto simp: in_list_def)

lemma client_okD:
  "client_ok m \<Longrightarrow> in_list (cp_cursor (mo_creationPicker m)) (cp_items (mo_creationPicker m))"
  "client_ok m \<Longrightarrow> in_list (mp_Cursor (mo_modelPicker m)) (mp_Options (mo_modelPicker m))"
  "client_ok m \<Longrightarrow> 0 \<le> mo_chatGroupCursor m"
  by (simp_all add: client_ok_def parts_defs)

lemma auth_keeps: "keeps_ok m (handleAuthStarted r m)" "keeps_ok m (handleAuthEvent u ev m)" "keeps_ok m (handleEscOAuth m)"
  by (simp_all add: handleAuthStarted_def handleAuthEvent_def auth_failed_def handleEscOAuth_def Let_def clear_creation_ok
      split: sum.split option.split device_event.split)

lemma key_new_group_keeps: "keeps_ok m (key_new_group u k m)"
  by (simp add: key_new_group_def Let_def)

lemma key_select_group_keeps: "keeps_ok m (key_select_group u k m)"
  unfolding key_select_group_def
  by (intro keeps_ok_if) (auto simp: key_new_group_keeps tabs_ok client_okD split: option.split)

lemma pick_provider_keeps: "keeps_ok m (pick_provider sel m)"
  by (simp add: pick_provider_def Let_def)

lemma key_select_provider_keeps: "keeps_ok m (key_select_provider k m)"
  unfolding key_select_provider_def
  by (intro keeps_ok_if) (auto simp: pick_provider_keeps picker_ok split: option.split)

lemma key_select_model_keeps: "keeps_ok m (key_select_model k m)"
  unfolding key_select_model_def
  by (intro keeps_ok_if) (auto simp: picker_ok clear_creation_ok dest: buildProviderItems_cursor split: option.split prod.split)

definition keeps_opt :: "'u model \<Rightarrow> 'u step option \<Rightarrow> bool" where
  "keeps_opt m o1 \<longleftrightarrow> (case o1 of None \<Rightarrow> True | Some s \<Rightarrow> keeps_ok m s)"

lemma keeps_opt_simps [simp]: "keeps_opt m None" "keeps_opt m (Some s) = keeps_ok m s"
  by (simp_all add: keeps_opt_def)

lemma keeps_opt_if: "keeps_opt m s \<Longrightarrow> keeps_opt m t \<Longrightarrow> keeps_opt m (if b then s else t)"
  by simp

lemma key_model_picker_keeps: "keeps_opt m (key_model_picker k m)"
  unfolding key_model_picker_def Let_def by (intro keeps_opt_if) (auto simp: client_okD split: option.split)

lemma handleLocalCommand_ok: "client_ok m \<Longrightarrow> handleLocalCommand txt m = (b, m') \<Longrightarrow> client_ok m'"
  by (auto simp: handleLocalCommand_def theme_ok Let_def split: if_splits list.splits)

lemma send_input_keeps: "keeps_ok m (send_input u input m)"
  unfolding send_input_def
  by (intro keeps_ok_if)
    (auto simp: clear_input_def dest: handleLocalCommand_ok intro!: refresh_ok split: list.split option.split prod.split bool.split)

lemma key_chatting_keeps: "keeps_ok m (key_chatting u k m)"
proof (cases "key_model_picker k m")
  case None
  have "keeps_ok m (Some (leave_chat u m, []))"
    by (simp add: leave_chat_def client_okD)
  then show ?thesis
    unfolding key_chatting_def None option.case by (intro keeps_ok_if) (auto simp: send_input_keeps)
next
  case (Some s)
  then show ?thesis
    using key_model_picker_keeps [of m k] by (simp add: key_chatting_def)
qed

lemma updateChat_keeps: "keeps_ok m (updateChat u k m)"
  by (cases "mo_chatState m")
    (simp_all add: updateChat_def key_select_group_keeps key_select_provider_keeps key_select_model_keeps key_chatting_keeps auth_keeps)

lemma sort_Strings_Nil [simp]: "sort_Strings xs = [] \<longleftrightarrow> xs = []"
proof -
  have "insert_str x ys \<noteq> []" for x ys
    by (cases ys) simp_all
  then show ?thesis
    by (cases xs) (simp_all add: sort_Strings_def)
qed

lemma cycleTaskFilter_ok:
  assumes "client_ok m"
  shows "client_ok (cycleTaskFilter m)"
proof (cases "mo_tasks m = []")
  case True
  then have "filter_tasks f (mo_tasks m) = []" for f
    by (simp add: filter_tasks_def)
  then show ?thesis
    using assms True by (simp add: cycleTaskFilter_def client_ok_def parts_defs)
next
  case False
  then show ?thesis
    using assms by (simp add: cycleTaskFilter_def client_ok_def parts_defs Let_def)
qed

lemma events_ok [simp]: "client_ok m \<Longrightarrow> client_ok (m\<lparr>mo_events := es\<rparr>) = (length es \<le> 200)"
  by (auto simp: client_ok_def parts_defs)

lemma update_key_keeps: "keeps_ok m (update_key u k m)"
proof (cases "tab_key k")
  case None
  have "keeps_ok m (Some (cycleTaskFilter m, []))"
    by (simp add: cycleTaskFilter_ok)
  moreover have "keeps_ok m (Some (moveCursor d m, []))" for d
    by (auto simp: client_ok_def parts_defs moveCursor_def filteredTasks_eq)
  moreover have "mo_sandboxes m \<noteq> [] \<Longrightarrow> keeps_ok m (Some (m\<lparr>mo_sandboxDetailOpen := b\<rparr>, []))" "keeps_ok m (Some (m\<lparr>mo_sandboxDetailOpen := False\<rparr>, []))" for b
    by (auto simp: client_ok_def parts_defs)
  moreover have "keeps_ok m (Some (toggle_theme u m, []))"
    by (simp add: toggle_theme_def Let_def refresh_ok theme_ok)
  ultimately show ?thesis
    unfolding update_key_def None option.case by (intro keeps_ok_if) (auto simp: updateChat_keeps tabs_ok)
next
  case (Some t)
  have "keeps_ok m (Some (toggle_theme u m, []))"
    by (simp add: toggle_theme_def Let_def refresh_ok theme_ok)
  then show ?thesis
    unfolding update_key_def Some option.case using tab_key_range [OF Some]
    by (intro keeps_ok_if) (auto simp: updateChat_keeps tabs_ok)
qed

lemma update_lists_ok:
  "client_ok m \<Longrightarrow> client_ok (update_sandboxes sbs err m)" "client_ok m \<Longrightarrow> client_ok (update_groups gs err m)"
  "client_ok m \<Longrightarrow> client_ok (update_tasks ts err m)"
  by (auto simp: client_ok_def parts_defs update_sandboxes_def update_groups_def update_tasks_def Let_def filteredTasks_eq in_list_def)

lemma update_event_ok: "client_ok m \<Longrightarrow> client_ok (fst (update_event u r m))"
  by (simp add: update_event_def split: sum.split)

lemma picker_answer_ok: "in_list (mp_Cursor p) (mp_Options p) \<Longrightarrow> in_list (mp_Cursor (picker_answer c p)) (mp_Options (picker_answer c p))"
  by (cases "parseModelList c") (auto simp: picker_answer_def Let_def in_list_def max_def)

lemma update_providers_ok: "client_ok m \<Longrightarrow> client_ok (update_providers flow r m)"
  by (auto simp: update_providers_def Let_def clear_creation_ok split: sum.split)

lemma update_rpc_ok:
  "client_ok m \<Longrightarrow> client_ok (fst (update_registered g m))" "client_ok m \<Longrightarrow> client_ok (fst (update_stream u st m))"
  "client_ok m \<Longrightarrow> client_ok (fst (update_output u out m))"
  by (auto simp: update_registered_def update_stream_def update_output_def Let_def clear_creation_ok applyLayout_ok picker_answer_ok client_okD split: sum.split)

lemma keeps_ok_pair: "(client_ok m \<Longrightarrow> client_ok (fst p)) \<Longrightarrow> keeps_ok m (Some p)"
  by (cases p) simp

lemma Update_keeps: "keeps_ok m (Update u msg m)"
  by (cases msg)
    (auto simp: Update_def update_key_keeps auth_keeps update_lists_ok update_providers_ok applyLayout_ok Let_def
      intro!: keeps_ok_pair update_event_ok update_rpc_ok split: sum.split)

lemma reachable_ok: "client_reachable u s \<Longrightarrow> client_ok (fst s)"
proof (induction rule: client_reachable.induct)
  case (init tls addr theme now w)
  then show ?case
    by (cases w) (simp add: client_ok_def parts_defs initialModel_def applyThemeName_def tab_defs)
next
  case (step s s')
  from step(2) show ?case
  proof cases
    case (input msg m m' cs p)
    then show ?thesis
      using Update_keeps [of m u msg] step.IH by (simp add: keeps_ok_def)
  next
    case (answer c p msg m m' cs)
    then show ?thesis
      using Update_keeps [of m u msg] step.IH by (simp add: keeps_ok_def)
  qed
qed

section \<open>When the client panics\<close>

lemma picker_total:
  assumes "client_ok m" and "cp_items (mo_creationPicker m) \<noteq> []"
  obtains x where "index (cp_items (mo_creationPicker m)) (cp_cursor (mo_creationPicker m)) = Some x"
  using in_list_index [OF client_okD(1) [OF assms(1)] assms(2)] by blast

definition not_none :: "'a option \<Rightarrow> bool" where
  "not_none x \<longleftrightarrow> x \<noteq> None"

lemma not_none_simps [simp]: "not_none (Some y)" "\<not> not_none None"
  by (simp_all add: not_none_def)

lemma not_none_if: "(b \<Longrightarrow> not_none s) \<Longrightarrow> (\<not> b \<Longrightarrow> not_none t) \<Longrightarrow> not_none (if b then s else t)"
  by simp

lemma auth_total: "not_none (handleAuthStarted r m)" "not_none (handleAuthEvent u ev m)" "not_none (handleEscOAuth m)"
  by (simp_all add: handleAuthStarted_def handleAuthEvent_def auth_failed_def handleEscOAuth_def Let_def
      split: sum.split option.split device_event.split)

lemma auth_not_None [simp]: "handleAuthStarted r m \<noteq> None" "handleAuthEvent u ev m \<noteq> None"
  using auth_total(1) [of r m] auth_total(2) [of u ev m] by (simp_all only: not_none_def not_False_eq_True)

lemma key_new_group_total: "not_none (key_new_group u k m)"
  by (simp add: key_new_group_def Let_def)

lemma pick_provider_total: "not_none (pick_provider sel m)"
  by (simp add: pick_provider_def Let_def)

lemma key_pickers_total:
  assumes "client_ok m"
  shows "not_none (key_select_provider k m)" "not_none (key_select_model k m)"
  unfolding key_select_provider_def key_select_model_def
  by (intro not_none_if; auto simp: pick_provider_total split: option.split prod.split elim: picker_total [OF assms])+

text \<open>The two places where a panic is possible.\<close>

definition stale_group_cursor :: "'u model \<Rightarrow> bool" where
  "stale_group_cursor m \<longleftrightarrow> mo_chatState m = SelectGroup \<and> mo_groups m \<noteq> [] \<and> int (length (mo_groups m)) \<le> mo_chatGroupCursor m"

definition chat_without_group :: "'u model \<Rightarrow> bool" where
  "chat_without_group m \<longleftrightarrow> mo_chatState m = Chatting \<and> mo_chatGroup m = None"

lemma key_select_group_total:
  assumes "client_ok m" and "k = ''enter'' \<Longrightarrow> mo_groups m \<noteq> [] \<Longrightarrow> mo_chatGroupCursor m < int (length (mo_groups m))"
  shows "not_none (key_select_group u k m)"
  unfolding key_select_group_def using client_okD(3) [OF assms(1)]
  by (intro not_none_if) (auto simp: key_new_group_total index_def dest: assms(2) split: option.split)

lemma send_input_total: "mo_chatGroup m \<noteq> None \<Longrightarrow> not_none (send_input u input m)"
  unfolding send_input_def by (intro not_none_if) (auto split: list.split prod.split bool.split)

lemma key_model_picker_total: "key_model_picker k m \<noteq> Some None"
  by (simp add: key_model_picker_def Let_def split: option.split)

lemma key_chatting_total:
  assumes "k = ''enter'' \<Longrightarrow> mo_chatGroup m \<noteq> None"
  shows "not_none (key_chatting u k m)"
proof (cases "key_model_picker k m")
  case None
  show ?thesis
    unfolding key_chatting_def None option.case by (intro not_none_if) (auto intro: send_input_total dest: assms)
next
  case (Some s)
  then show ?thesis
    using key_model_picker_total [of k m] by (auto simp: key_chatting_def not_none_def)
qed

lemma updateChat_total:
  assumes "client_ok m" and "k = ''enter'' \<Longrightarrow> \<not> stale_group_cursor m \<and> \<not> chat_without_group m"
  shows "not_none (updateChat u k m)"
  using assms
  by (cases "mo_chatState m")
    (auto simp: updateChat_def stale_group_cursor_def chat_without_group_def key_pickers_total auth_total
      intro!: key_select_group_total key_chatting_total)

lemma update_key_total:
  assumes "client_ok m" and "k = ''enter'' \<Longrightarrow> mo_activeTab m = tabMessages \<Longrightarrow> \<not> stale_group_cursor m \<and> \<not> chat_without_group m"
  shows "not_none (update_key u k m)"
  unfolding update_key_def
  by (intro not_none_if) (auto simp: assms(1) dest: assms(2) intro!: updateChat_total split: option.split)

lemma Update_total:
  assumes "client_ok m" and "Update u msg m = None"
  shows "msg = KeyPress ''enter'' \<and> mo_activeTab m = tabMessages \<and> (stale_group_cursor m \<or> chat_without_group m)"
proof (cases msg)
  case (KeyPress k)
  then show ?thesis
    using assms update_key_total [OF assms(1), of k u] by (fastforce simp: Update_def not_none_def)
qed (use assms(2) in \<open>simp_all add: Update_def Let_def split: sum.splits if_splits\<close>)

text \<open>
  C20: In every state the terminal client reaches, whatever the user types and in whatever order
  its calls to the server answer: the cursors of the sandbox, group and task lists and of both
  pickers point into their lists, at most 200 events are kept, the active tab is one of the
  eight; and an update can panic only for the Enter key in the messages tab, when the
  cursor of the chat list is beyond a list that has shrunk or when a chat is shown that has
  no group.
\<close>

theorem tui_client_invariant:
  assumes "client_reachable u (m, p)"
  shows "in_list (mo_sandboxCursor m) (mo_sandboxes m) \<and> in_list (mo_groupsCursor m) (mo_groups m) \<and>
    in_list (mo_tasksCursor m) (filteredTasks m) \<and> in_list (cp_cursor (mo_creationPicker m)) (cp_items (mo_creationPicker m)) \<and>
    in_list (mp_Cursor (mo_modelPicker m)) (mp_Options (mo_modelPicker m)) \<and> length (mo_events m) \<le> 200 \<and>
    0 \<le> mo_activeTab m \<and> mo_activeTab m < int (length tabLabels) \<and> (mo_sandboxDetailOpen m \<longrightarrow> mo_sandboxes m \<noteq> []) \<and>
    (Update u msg m = None \<longrightarrow> msg = KeyPress ''enter'' \<and> mo_activeTab m = tabMessages \<and> (stale_group_cursor m \<or> chat_without_group m))"
proof -
  have ok: "client_ok m"
    using reachable_ok [OF assms] by simp
  then show ?thesis
    using Update_total [OF ok, of u msg] by (simp add: client_ok_def parts_defs filteredTasks_eq)
qed

section \<open>Runs\<close>

text \<open>A run is the list of what happens: input of the user, or the answer of a pending command.\<close>

datatype client_event = UserInput tea_msg | Answer tea_cmd tea_msg

definition event_ok :: "client_event \<Rightarrow> bool" where
  "event_ok e \<longleftrightarrow> (case e of UserInput msg \<Rightarrow> from_user msg | Answer c msg \<Rightarrow> answers c msg)"

fun client_run :: "'u ui \<Rightarrow> client_event list \<Rightarrow> 'u model \<times> tea_cmd list \<Rightarrow> ('u model \<times> tea_cmd list) option" where
  "client_run u [] s = Some s"
| "client_run u (UserInput msg # es) (m, p) =
     (case Update u msg m of None \<Rightarrow> None | Some (m', cs) \<Rightarrow> client_run u es (m', p @ cs))"
| "client_run u (Answer c msg # es) (m, p) =
     (if c \<in> set p then (case Update u msg m of None \<Rightarrow> None | Some (m', cs) \<Rightarrow> client_run u es (m', remove1 c p @ cs)) else None)"

lemma run_reachable: "client_reachable u s \<Longrightarrow> list_all event_ok es \<Longrightarrow> client_run u es s = Some s' \<Longrightarrow> client_reachable u s'"
proof (induction u es s rule: client_run.induct)
  case (2 u msg es m p)
  then show ?case
    by (auto simp: event_ok_def split: option.splits prod.splits dest: client_reachable.step [OF _ client_step.input])
next
  case (3 u c msg es m p)
  then show ?case
    by (auto simp: event_ok_def split: option.splits prod.splits if_splits dest: client_reachable.step [OF _ client_step.answer])
qed simp

text \<open>Text fields with their content and focus; everything else of the UI is inert.\<close>

definition demo_ui :: "(string \<times> bool) ui" where
  "demo_ui = \<lparr>ui_Value = fst, ui_SetValue = (\<lambda>s w. (s, snd w)), ui_Reset = (\<lambda>w. ([], snd w)), ui_Focus = (\<lambda>w. (fst w, True)),
     ui_Blur = (\<lambda>w. (fst w, False)), ui_Focused = snd, ui_Key = (\<lambda>k w. (fst w @ k, snd w)), ui_Mouse = (\<lambda>w. w), ui_Spin = (\<lambda>w. w),
     ui_Width = (\<lambda>_. 80), ui_SetWidth = (\<lambda>_ w. w), ui_SetHeight = (\<lambda>_ w. w), ui_SetContent = (\<lambda>_ w. w), ui_AtBottom = (\<lambda>_. True),
     ui_GotoBottom = (\<lambda>w. w), ui_HalfPageUp = (\<lambda>w. w), ui_HalfPageDown = (\<lambda>w. w), ui_NewTermRenderer = (\<lambda>_. Inl (Errorf ''none'')),
     ui_RenderMarkdown = (\<lambda>_ c. Inr c), ui_style = (\<lambda>_ _ t. t), ui_view = fst, ui_cells = (\<lambda>s. int (length s)), ui_code = (\<lambda>_. ''Unknown''),
     ui_OpenURL = (\<lambda>_. Inr ())\<rparr>"

definition demo_start :: "(string \<times> bool) model \<times> tea_cmd list" where
  "demo_start = (initialModel ''localhost:50051'' (applyThemeName ''dark'') 0 (([], False), ([], False), ([], False), ([], False)), tui_Init)"

definition run_shows :: "client_event list \<Rightarrow> ((string \<times> bool) model \<Rightarrow> tea_cmd list \<Rightarrow> bool) \<Rightarrow> bool" where
  "run_shows es P \<longleftrightarrow> (case client_run demo_ui es demo_start of None \<Rightarrow> False | Some (m, p) \<Rightarrow> P m p)"

lemma initial_reachable: "client_reachable u (initialModel addr (applyThemeName theme) now w, tui_Init)"
proof -
  have "(initialModel addr (applyThemeName theme) now w)\<lparr>mo_useTLS := False\<rparr> = initialModel addr (applyThemeName theme) now w"
    by (simp add: initialModel_def split: prod.split)
  with client_reachable.init [of u False addr theme now w] show ?thesis
    by simp
qed

lemma run_shows_reachable: "run_shows es P \<Longrightarrow> list_all event_ok es \<Longrightarrow> \<exists>m p. client_reachable demo_ui (m, p) \<and> P m p"
  unfolding run_shows_def demo_start_def
  by (auto split: option.splits dest: run_reachable [OF initial_reachable])

lemmas event_simps = event_ok_def from_user_def answers.simps

definition tui_group :: "string \<Rightarrow> GroupInfo" where
  "tui_group n = \<lparr>gi_JID = ''tui:'' @ n, gi_Name = n, gi_Folder = n, gi_TriggerPattern = [], gi_IsMain = True\<rparr>"

abbreviation key :: "string \<Rightarrow> client_event" where
  "key k \<equiv> UserInput (KeyPress k)"

text \<open>
  The group list is refreshed every second but the cursor of the chat list is not: when the
  list shrinks, the Enter key indexes beyond it.
\<close>

definition shrink_run :: "client_event list" where
  "shrink_run = [Answer FetchGroups (GroupsMsg [tui_group ''a'', tui_group ''b''] None), key ''j'', Answer CmdTick (TickMsg 1),
     Answer FetchGroups (GroupsMsg [tui_group ''a''] None)]"

theorem shrunk_list_panics:
  "\<exists>m p. client_reachable demo_ui (m, p) \<and> Update demo_ui (KeyPress ''enter'') m = None"
  by (rule run_shows_reachable [of shrink_run]) (code_simp, simp add: shrink_run_def event_simps)

text \<open>
  While the first event stream is being opened the ticker opens a second one. When one of them
  fails, the next event of the other makes the client read from no stream.
\<close>

definition two_streams_run :: "client_event list" where
  "two_streams_run = [Answer CmdTick (TickMsg 1), Answer OpenEventStream (EventStreamOpened (Inr 1)), Answer OpenEventStream (EventStreamOpened (Inr 2)),
     Answer (ReadEvent (Some 2)) (EventReceived (Inl EOF)),
     Answer (ReadEvent (Some 1)) (EventReceived (Inr \<lparr>ei_Timestamp = [], ei_Type = [], ei_Source = [], ei_Message = ''x''\<rparr>))]"

theorem two_event_streams_panic:
  "\<exists>m p. client_reachable demo_ui (m, p) \<and> ReadEvent None \<in> set p"
  by (rule run_shows_reachable [of two_streams_run]) (code_simp, simp add: two_streams_run_def event_simps)

text \<open>
  Leaving the sign-in before its stream is open does not stop it: when the user approves it
  later, the client shows a chat although no group was chosen.
\<close>

definition demo_provider :: ProviderInfo where
  "demo_provider = \<lparr>pi_ID = ''openai'', pi_DisplayName = ''OpenAI'', pi_Models = [\<lparr>mi_ID = ''gpt'', mi_DisplayName = ''GPT''\<rparr>], pi_DefaultModel = ''gpt'',
     pi_AuthMode = AuthModeChatGPT\<rparr>"

definition abandoned_run :: "client_event list" where
  "abandoned_run = [key ''n'', key ''x'', key ''enter'', Answer (FetchProviders 1 None) (ProvidersLoaded 1 (Inr [demo_provider])), key ''enter'', key ''esc'',
     Answer (StartOAuth ''openai'' ''tui:x'') (AuthStarted (Inr 7)), Answer (AuthEventLoop (Some 7)) (AuthEvent (Inr (Some AuthSuccess)))]"

theorem abandoned_sign_in_opens_chat:
  "\<exists>m p. client_reachable demo_ui (m, p) \<and> chat_without_group m"
  by (rule run_shows_reachable [of abandoned_run]) (code_simp, simp add: abandoned_run_def event_simps)

text \<open>
  A stream that is opened late belongs to the chat that was left: its messages are shown, and
  answered, in the chat chosen since.
\<close>

definition late_stream_run :: "client_event list" where
  "late_stream_run = [Answer FetchGroups (GroupsMsg [tui_group ''a'', tui_group ''b''] None), key ''enter'', key ''esc'', key ''j'', key ''enter'',
     Answer (OpenInbound ''tui:a'') (StreamOpened (Inr 1)), Answer (ReadInbound 1) (ChannelOutput (Inr \<lparr>ti_Content = ''for a'', ti_Model = []\<rparr>))]"

theorem late_stream_crosses_chats:
  "\<exists>m p. client_reachable demo_ui (m, p) \<and> mo_chatState m = Chatting \<and> map_option gi_JID (mo_chatGroup m) = Some ''tui:b'' \<and>
     mo_chatMessages m = [\<lparr>cm_sender = ''agent'', cm_content = ''for a''\<rparr>]"
  by (rule run_shows_reachable [of late_stream_run]) (code_simp, simp add: late_stream_run_def event_simps)

theorem tui_client_invariant_witness:
  "\<exists>m p. client_reachable demo_ui (m, p) \<and> mo_groups m \<noteq> [] \<and> in_list (mo_groupsCursor m) (mo_groups m)"
proof -
  have "run_shows late_stream_run (\<lambda>m p. mo_groups m \<noteq> [])" "list_all event_ok late_stream_run"
    by code_simp (simp add: late_stream_run_def event_simps)
  from run_shows_reachable [OF this] obtain m p where "client_reachable demo_ui (m, p)" "mo_groups m \<noteq> []"
    by blast
  with tui_client_invariant [OF this(1)] show ?thesis
    by blast
qed

section \<open>Creating a group and chatting in it\<close>

lemma run_append: "client_run u (es @ fs) s = (case client_run u es s of None \<Rightarrow> None | Some s' \<Rightarrow> client_run u fs s')"
  by (induction u es s rule: client_run.induct) (auto split: option.splits prod.splits)

definition in_picker :: "'u model \<Rightarrow> bool" where
  "in_picker m \<longleftrightarrow> mo_activeTab m = tabMessages \<and> (mo_chatState m = SelectProvider \<or> mo_chatState m = SelectModel)"

lemma press_down:
  "in_picker m \<Longrightarrow> mo_creationPicker m = \<lparr>cp_items = items, cp_cursor = int c\<rparr> \<Longrightarrow> c + k < length items \<Longrightarrow>
   client_run u (replicate k (key ''j'')) (m, p) = Some (m\<lparr>mo_creationPicker := \<lparr>cp_items = items, cp_cursor = int (c + k)\<rparr>\<rparr>, p)"
proof (induction k arbitrary: m c)
  case 0
  then show ?case by (simp add: surjective)
next
  case (Suc k)
  have "updateChat u ''j'' m = Some (m\<lparr>mo_creationPicker := \<lparr>cp_items = items, cp_cursor = int (Suc c)\<rparr>\<rparr>, [])"
    using Suc.prems by (auto simp: in_picker_def updateChat_def key_select_provider_def key_select_model_def picker_down_def)
  then have "Update u (KeyPress ''j'') m = Some (m\<lparr>mo_creationPicker := \<lparr>cp_items = items, cp_cursor = int (Suc c)\<rparr>\<rparr>, [])"
    using Suc.prems(1) by (simp add: Update_def update_key_def in_picker_def)
  then show ?case
    using Suc.IH [of "m\<lparr>mo_creationPicker := \<lparr>cp_items = items, cp_cursor = int (Suc c)\<rparr>\<rparr>" "Suc c"] Suc.prems by (simp add: in_picker_def)
qed

end
