(* ===== verification/Tui_Requests.thy ===== *)
theory Tui_Requests
  imports Tui_Client_Props Api_Services Api_Auth
begin

text \<open>
  The commands of the terminal client as calls of the server: the functions of \<open>main.go\<close>,
  \<open>chat.go\<close>, \<open>auth.go\<close> and \<open>providerpicker.go\<close> that return a \<open>tea.Cmd\<close>, over the RPC stubs of
  \<open>apiClient\<close>, and the set-up of the connection. The second part puts client and server
  together. The state \<open>'s\<close> is what the stubs act on; a deadline that passes is one of the
  errors a stub may return.
\<close>

section \<open>The connection\<close>

record client_tls_lib =
  tl_ReadFile :: "string \<Rightarrow> string result"
  tl_AppendCertsFromPEM :: "string \<Rightarrow> bool"
  tl_LoadX509KeyPair :: "string \<Rightarrow> string \<Rightarrow> string result"
  tl_SplitHostPort :: "string \<Rightarrow> (string \<times> string) result"

record tls_Config =
  tls_MinVersion :: int
  tls_ServerName :: string
  tls_RootCAs :: string
  tls_Certificates :: "string list"

definition VersionTLS13 :: int where "VersionTLS13 = 0x0304"

definition loadClientTLSConfig :: "client_tls_lib \<Rightarrow> string \<Rightarrow> string \<Rightarrow> string \<Rightarrow> string \<Rightarrow> string \<Rightarrow> tls_Config result" where
  "loadClientTLSConfig l serverAddr caCertFile clientCertFile clientKeyFile serverName =
     (if caCertFile = [] \<or> clientCertFile = [] \<or> clientKeyFile = [] then Inl (Errorf ''ca-cert, client-cert, and client-key must all be set'')
      else case tl_ReadFile l caCertFile of
        Inl err \<Rightarrow> Inl (Wrapf ''read CA certificate'' err)
      | Inr caPEM \<Rightarrow>
          if \<not> tl_AppendCertsFromPEM l caPEM then Inl (Errorf ''parse CA certificate bundle'')
          else case tl_LoadX509KeyPair l clientCertFile clientKeyFile of
            Inl err \<Rightarrow> Inl (Wrapf ''load client certificate'' err)
          | Inr cert \<Rightarrow>
              Inr \<lparr>tls_MinVersion = VersionTLS13,
                   tls_ServerName = (if serverName \<noteq> [] then serverName
                     else case tl_SplitHostPort l serverAddr of Inl _ \<Rightarrow> serverAddr | Inr (host, _) \<Rightarrow> host),
                   tls_RootCAs = caPEM, tls_Certificates = [cert]\<rparr>)"

text \<open>The credentials of the connection are none for an insecure one; \<open>dial\<close> is \<open>grpc.NewClient\<close>.\<close>

definition newAPIClient :: "client_tls_lib \<Rightarrow> (string \<Rightarrow> tls_Config option \<Rightarrow> 'c result) \<Rightarrow> string \<Rightarrow> string \<Rightarrow> string \<Rightarrow> string \<Rightarrow> string \<Rightarrow> bool \<Rightarrow> 'c result" where
  "newAPIClient l dial serverAddr caCertFile clientCertFile clientKeyFile serverName insecure =
     (case (if insecure then Inr None else map_sum id Some (loadClientTLSConfig l serverAddr caCertFile clientCertFile clientKeyFile serverName)) of
        Inl err \<Rightarrow> Inl err
      | Inr creds \<Rightarrow> (case dial serverAddr creds of Inl err \<Rightarrow> Inl (Wrapf ''dial gRPC server'' err) | Inr conn \<Rightarrow> Inr conn))"

text \<open>
  The start of the program after the flags are read: a client that cannot be built ends it;
  otherwise the initial model remembers whether the connection has TLS.
\<close>

definition tui_main :: "client_tls_lib \<Rightarrow> (string \<Rightarrow> tls_Config option \<Rightarrow> 'c result) \<Rightarrow> string \<Rightarrow> string \<Rightarrow> string \<Rightarrow> string \<Rightarrow> string \<Rightarrow> bool \<Rightarrow>
    string \<Rightarrow> time \<Rightarrow> 'u \<times> 'u \<times> 'u \<times> 'u \<Rightarrow> ('c \<times> 'u model \<times> tea_cmd list) result" where
  "tui_main l dial serverAddr caCertFile clientCertFile clientKeyFile serverName insecure theme now w =
     (case newAPIClient l dial serverAddr caCertFile clientCertFile clientKeyFile serverName insecure of
        Inl err \<Rightarrow> Inl err
      | Inr api \<Rightarrow> Inr (api, (initialModel serverAddr (applyThemeName theme) now w)\<lparr>mo_useTLS := \<not> insecure\<rparr>, tui_Init))"

text \<open>Without the insecure flag a client that starts has a connection that presents a certificate, checks the server's and is TLS 1.3.\<close>

lemma client_connection_secure:
  assumes "tui_main l dial addr ca cert key' name False theme now w = Inr (conn, m, cs)"
  shows "\<exists>cfg. dial addr (Some cfg) = Inr conn \<and> tls_MinVersion cfg = VersionTLS13 \<and> tls_Certificates cfg \<noteq> [] \<and> mo_useTLS m \<and> client_reachable u (m, cs)"
proof -
  have "client_reachable u (m, cs)" "mo_useTLS m"
    using assms client_reachable.init [of u True addr theme now w] by (auto simp: tui_main_def split: sum.splits)
  moreover obtain cfg where "loadClientTLSConfig l addr ca cert key' name = Inr cfg" "dial addr (Some cfg) = Inr conn"
    using assms by (auto simp: tui_main_def newAPIClient_def map_sum_def split: sum.splits)
  ultimately show ?thesis
    by (auto simp: loadClientTLSConfig_def split: if_splits sum.splits)
qed

section \<open>The calls\<close>

text \<open>\<open>ac_time\<close> is the local time in the layout of the client, \<open>ac_FromError\<close> the code and text of a status error.\<close>

record 's apiClient =
  ac_GetStatus :: "'s \<Rightarrow> ServerStatus result \<times> 's"
  ac_ListSandboxes :: "'s \<Rightarrow> SandboxProto list result \<times> 's"
  ac_ListGroups :: "'s \<Rightarrow> GroupProto list result \<times> 's"
  ac_ListTasks :: "'s \<Rightarrow> TaskProto list result \<times> 's"
  ac_StreamEvents :: "'s \<Rightarrow> nat result \<times> 's"
  ac_RecvEvent :: "nat \<Rightarrow> 's \<Rightarrow> Event result \<times> 's"
  ac_ListProviders :: "string \<Rightarrow> 's \<Rightarrow> ProviderInfo list result \<times> 's"
  ac_RegisterGroup :: "RegisterGroupRequest \<Rightarrow> 's \<Rightarrow> GroupProto result \<times> 's"
  ac_StreamInbound :: "string \<Rightarrow> 's \<Rightarrow> nat result \<times> 's"
  ac_RecvInbound :: "nat \<Rightarrow> 's \<Rightarrow> InboundProto result \<times> 's"
  ac_SendMessage :: "SendMessageRequest \<Rightarrow> 's \<Rightarrow> unit result \<times> 's"
  ac_StartDeviceAuth :: "string \<Rightarrow> string \<Rightarrow> 's \<Rightarrow> nat result \<times> 's"
  ac_RecvAuth :: "nat \<Rightarrow> 's \<Rightarrow> device_event result \<times> 's"
  ac_Marshal :: "string \<Rightarrow> string \<Rightarrow> string result"
  ac_FromError :: "goerr \<Rightarrow> (string \<times> string) option"
  ac_time :: "time \<Rightarrow> string"
  ac_now :: "'s \<Rightarrow> time"

definition formatProtoTime :: "(time \<Rightarrow> string) \<Rightarrow> time option \<Rightarrow> string" where
  "formatProtoTime fmt ts = (case ts of None \<Rightarrow> [] | Some t \<Rightarrow> if IsZero t then [] else fmt t)"

definition status_info :: "(time \<Rightarrow> string) \<Rightarrow> ServerStatus \<Rightarrow> tui_ServerStatus" where
  "status_info fmt r =
     \<lparr>sv_Version = ss_Version r, sv_ActiveSandboxes = int (ss_ActiveSandboxes r), sv_ConnectedChannels = int (ss_ConnectedChannels r),
      sv_PendingMessages = ss_PendingMessages r, sv_ActiveTasks = int (ss_ActiveTasks r), sv_UptimeSince = formatProtoTime fmt (Some (ss_UptimeSince r)),
      sv_MysqlConnected = ss_MysqlConnected r, sv_K8sConnected = ss_K8SConnected r\<rparr>"

definition fetchStatus :: "'s apiClient \<Rightarrow> 's \<Rightarrow> tea_msg \<times> 's" where
  "fetchStatus c s =
     (case ac_GetStatus c s of
        (Inl err, s) \<Rightarrow> (StatusMsg None (Some err), s)
      | (Inr resp, s) \<Rightarrow> (StatusMsg (Some (status_info (ac_time c) resp)) None, s))"

definition sandbox_info :: "(time \<Rightarrow> string) \<Rightarrow> SandboxProto \<Rightarrow> SandboxInfo" where
  "sandbox_info fmt sb =
     \<lparr>si_Name = xp_Name sb, si_GroupFolder = xp_GroupFolder sb, si_GroupJID = xp_GroupJid sb, si_State = xp_State sb,
      si_StartTime = formatProtoTime fmt (xp_StartTime sb), si_EndTime = formatProtoTime fmt (xp_EndTime sb), si_SessionID = xp_SessionId sb\<rparr>"

definition fetchSandboxes :: "'s apiClient \<Rightarrow> 's \<Rightarrow> tea_msg \<times> 's" where
  "fetchSandboxes c s =
     (case ac_ListSandboxes c s of
        (Inl err, s) \<Rightarrow> (SandboxesMsg [] (Some err), s)
      | (Inr sbs, s) \<Rightarrow> (SandboxesMsg (map (sandbox_info (ac_time c)) sbs) None, s))"

definition group_info :: "GroupProto \<Rightarrow> GroupInfo" where
  "group_info g = \<lparr>gi_JID = gp_Jid g, gi_Name = gp_Name g, gi_Folder = gp_Folder g, gi_TriggerPattern = gp_TriggerPattern g, gi_IsMain = gp_IsMain g\<rparr>"

definition fetchGroups :: "'s apiClient \<Rightarrow> 's \<Rightarrow> tea_msg \<times> 's" where
  "fetchGroups c s =
     (case ac_ListGroups c s of
        (Inl err, s) \<Rightarrow> (GroupsMsg [] (Some err), s)
      | (Inr gs, s) \<Rightarrow> (GroupsMsg (map group_info gs) None, s))"

definition task_info :: "(time \<Rightarrow> string) \<Rightarrow> TaskProto \<Rightarrow> TaskInfo" where
  "task_info fmt t =
     \<lparr>ti_ID = tp_Id t, ti_GroupFolder = tp_GroupFolder t, ti_ChatJID = tp_ChatJid t, ti_Prompt = tp_Prompt t, ti_ScheduleType = tp_ScheduleType t,
      ti_ScheduleValue = tp_ScheduleValue t, ti_NextRun = formatProtoTime fmt (tp_NextRun t), ti_Status = tp_Status t\<rparr>"

definition fetchTasks :: "'s apiClient \<Rightarrow> 's \<Rightarrow> tea_msg \<times> 's" where
  "fetchTasks c s =
     (case ac_ListTasks c s of
        (Inl err, s) \<Rightarrow> (TasksMsg [] (Some err), s)
      | (Inr ts, s) \<Rightarrow> (TasksMsg (map (task_info (ac_time c)) ts) None, s))"

definition openEventStream :: "'s apiClient \<Rightarrow> 's \<Rightarrow> tea_msg \<times> 's" where
  "openEventStream c s = (case ac_StreamEvents c s of (r, s) \<Rightarrow> (EventStreamOpened r, s))"

definition event_info :: "(time \<Rightarrow> string) \<Rightarrow> Event \<Rightarrow> EventInfo" where
  "event_info fmt e = \<lparr>ei_Timestamp = formatProtoTime fmt (Some (pe_Timestamp e)), ei_Type = pe_Type e, ei_Source = pe_Source e, ei_Message = pe_Message e\<rparr>"

definition readEventCmd :: "'s apiClient \<Rightarrow> nat \<Rightarrow> 's \<Rightarrow> tea_msg \<times> 's" where
  "readEventCmd c stream s =
     (case ac_RecvEvent c stream s of
        (Inl err, s) \<Rightarrow> (EventReceived (Inl err), s)
      | (Inr evt, s) \<Rightarrow> (EventReceived (Inr (event_info (ac_time c) evt)), s))"

definition fetchProvidersCmd :: "'u ui \<Rightarrow> 's apiClient \<Rightarrow> int \<Rightarrow> string option \<Rightarrow> 's \<Rightarrow> tea_msg \<times> 's" where
  "fetchProvidersCmd u c flowID groupJID s =
     (case ac_ListProviders c (case groupJID of None \<Rightarrow> [] | Some j \<Rightarrow> j) s of
        (Inl err, s) \<Rightarrow> (ProvidersLoaded flowID (Inl (translateListProvidersErr u err)), s)
      | (Inr ps, s) \<Rightarrow> (ProvidersLoaded flowID (Inr ps), s))"

definition register_request :: "string \<Rightarrow> RegisterGroupRequest" where
  "register_request name =
     \<lparr>rg_Jid = ''tui:'' @ name, rg_Name = name, rg_Folder = name, rg_TriggerPattern = [], rg_IsMain = True, rg_RequiresTrigger = False,
      rg_ContainerConfigJson = []\<rparr>"

definition registerGroupCmd :: "'s apiClient \<Rightarrow> string \<Rightarrow> string \<Rightarrow> string \<Rightarrow> 's \<Rightarrow> tea_msg \<times> 's" where
  "registerGroupCmd c name provider modelID s =
     (case (if provider \<noteq> []
            then map_sum id (\<lambda>b. (register_request name)\<lparr>rg_ContainerConfigJson := b\<rparr>) (ac_Marshal c provider modelID)
            else Inr (register_request name)) of
        Inl err \<Rightarrow> (GroupRegistered (Inl (Errorf (''internal error preparing group configuration '' @ [CHR 0xE2, CHR 0x80, CHR 0x94] @ '' please try again''))), s)
      | Inr req \<Rightarrow>
          (case ac_RegisterGroup c req s of
             (Inl err, s) \<Rightarrow> (GroupRegistered (Inl err), s)
           | (Inr g, s) \<Rightarrow> (GroupRegistered (Inr (group_info g)), s)))"

definition openInboundStreamCmd :: "'s apiClient \<Rightarrow> string \<Rightarrow> 's \<Rightarrow> tea_msg \<times> 's" where
  "openInboundStreamCmd c chatJID s = (case ac_StreamInbound c chatJID s of (r, s) \<Rightarrow> (StreamOpened r, s))"

definition readInboundCmd :: "'s apiClient \<Rightarrow> nat \<Rightarrow> 's \<Rightarrow> tea_msg \<times> 's" where
  "readInboundCmd c stream s =
     (case ac_RecvInbound c stream s of
        (Inl err, s) \<Rightarrow> (ChannelOutput (Inl err), s)
      | (Inr msg, s) \<Rightarrow> (ChannelOutput (Inr \<lparr>ti_Content = ip_Content msg, ti_Model = ip_Model msg\<rparr>), s))"

definition sendMessageCmd :: "'s apiClient \<Rightarrow> string \<Rightarrow> string \<Rightarrow> 's \<Rightarrow> tea_msg \<times> 's" where
  "sendMessageCmd c jid txt s =
     (case ac_SendMessage c \<lparr>sm_ChatJid = jid, sm_Sender = ''tui-user'', sm_SenderName = ''TUI User'', sm_Text = txt\<rparr> s of
        (Inl err, s) \<Rightarrow> (InputSent (Some err), s)
      | (Inr _, s) \<Rightarrow> (InputSent None, s))"

definition startOAuthCmd :: "'s apiClient \<Rightarrow> string \<Rightarrow> string \<Rightarrow> 's \<Rightarrow> tea_msg \<times> 's" where
  "startOAuthCmd c provider groupJID s =
     (case ac_StartDeviceAuth c groupJID provider s of
        (Inl err, s) \<Rightarrow> (AuthStarted (Inl (Wrapf ''start chatgpt device auth'' err)), s)
      | (Inr n, s) \<Rightarrow> (AuthStarted (Inr n), s))"

definition authEventLoopCmd :: "'s apiClient \<Rightarrow> nat \<Rightarrow> 's \<Rightarrow> tea_msg \<times> 's" where
  "authEventLoopCmd c stream s =
     (case ac_RecvAuth c stream s of
        (Inl err, s) \<Rightarrow>
          (AuthEvent (if errors_Is err EOF then Inr None
             else case ac_FromError c err of
               Some (code, msg) \<Rightarrow> Inl (Errorf (''auth stream '' @ code @ '': '' @ msg))
             | None \<Rightarrow> Inl (Wrapf ''auth stream recv'' err)), s)
      | (Inr ev, s) \<Rightarrow> (AuthEvent (Inr (Some ev)), s))"

section \<open>Running commands\<close>

text \<open>
  A command ends with a message, with none (it quits the program or moves a widget), or with a
  panic, when its stream or its group is nil.
\<close>

datatype cmd_end = Msg tea_msg | NoMsg | CmdPanics

definition msg_end :: "tea_msg \<times> 's \<Rightarrow> cmd_end \<times> 's" where
  "msg_end r = (Msg (fst r), snd r)"

fun run_cmd :: "'u ui \<Rightarrow> 's apiClient \<Rightarrow> tea_cmd \<Rightarrow> 's \<Rightarrow> cmd_end \<times> 's" where
  "run_cmd u c CmdQuit s = (NoMsg, s)"
| "run_cmd u c WidgetCmd s = (NoMsg, s)"
| "run_cmd u c CmdSpin s = (Msg SpinnerTick, s)"
| "run_cmd u c CmdTick s = (Msg (TickMsg (ac_now c s)), s)"
| "run_cmd u c FetchStatus s = msg_end (fetchStatus c s)"
| "run_cmd u c FetchSandboxes s = msg_end (fetchSandboxes c s)"
| "run_cmd u c FetchGroups s = msg_end (fetchGroups c s)"
| "run_cmd u c FetchTasks s = msg_end (fetchTasks c s)"
| "run_cmd u c OpenEventStream s = msg_end (openEventStream c s)"
| "run_cmd u c (ReadEvent None) s = (CmdPanics, s)"
| "run_cmd u c (ReadEvent (Some n)) s = msg_end (readEventCmd c n s)"
| "run_cmd u c (FetchProviders flowID jid) s = msg_end (fetchProvidersCmd u c flowID jid s)"
| "run_cmd u c (RegisterGroupCmd name provider modelID) s = msg_end (registerGroupCmd c name provider modelID s)"
| "run_cmd u c (OpenInbound jid) s = msg_end (openInboundStreamCmd c jid s)"
| "run_cmd u c (ReadInbound n) s = msg_end (readInboundCmd c n s)"
| "run_cmd u c (SendMessageCmd None txt) s = (CmdPanics, s)"
| "run_cmd u c (SendMessageCmd (Some jid) txt) s = msg_end (sendMessageCmd c jid txt s)"
| "run_cmd u c (StartOAuth provider jid) s = msg_end (startOAuthCmd c provider jid s)"
| "run_cmd u c (AuthEventLoop None) s = (CmdPanics, s)"
| "run_cmd u c (AuthEventLoop (Some n)) s = msg_end (authEventLoopCmd c n s)"

lemmas cmd_defs = fetchStatus_def fetchSandboxes_def fetchGroups_def fetchTasks_def openEventStream_def readEventCmd_def fetchProvidersCmd_def
  registerGroupCmd_def openInboundStreamCmd_def readInboundCmd_def sendMessageCmd_def startOAuthCmd_def authEventLoopCmd_def

text \<open>The relation \<open>answers\<close>, over which the invariant of the client is proved, covers every server.\<close>

lemma run_cmd_answers: "run_cmd u c cmd s = (Msg msg, s') \<Longrightarrow> answers cmd msg"
  by (cases "(u, c, cmd, s)" rule: run_cmd.cases)
    (auto simp: msg_end_def cmd_defs intro: answers.intros split: prod.splits sum.splits)

end
