(* ===== verification/Tui_Debug.thy ===== *)
theory Tui_Debug
  imports Tui_Requests
begin

text \<open>
  The start of the terminal client with its flags and the diagnostics of \<open>runDebugChecks\<close> in
  \<open>cmd/kraclaw-tui/main.go\<close>. The diagnostics are the lines they print; files, certificates and
  connections are the parameters \<open>debug_lib\<close> and \<open>client_tls_lib\<close>.
\<close>

record cert_info =
  ci_Subject :: string
  ci_Issuer :: string
  ci_NotAfter :: string
  ci_DNSNames :: string
  ci_IPAddresses :: string

record tls_state =
  ts_Version :: nat
  ts_CipherSuite :: nat
  ts_PeerSubjects :: "string list"

record debug_lib =
  dl_Stat :: "string \<Rightarrow> int result"
  dl_DecodePEM :: "string \<Rightarrow> string option"
  dl_ParseCertificate :: "string \<Rightarrow> cert_info result"
  dl_DialTCP :: "string \<Rightarrow> unit result"
  dl_DialTLS :: "string \<Rightarrow> tls_Config \<Rightarrow> tls_state result"

definition hex4 :: "nat \<Rightarrow> string" where
  "hex4 n = hex_encode [n div 256, n mod 256]"

section \<open>The diagnostics\<close>

definition file_check :: "debug_lib \<Rightarrow> string \<times> string \<Rightarrow> string" where
  "file_check d f =
     (case f of (name, path) \<Rightarrow>
        ''  '' @ name @ '' ('' @ path @ ''): '' @
        (case dl_Stat d path of Inl err \<Rightarrow> error_text err | Inr n \<Rightarrow> show_int n @ '' bytes''))"

text \<open>The details of a certificate file; \<open>what\<close> is its name in the messages and \<open>sans\<close> says whether the alternative names are listed.\<close>

definition cert_details :: "client_tls_lib \<Rightarrow> debug_lib \<Rightarrow> string \<Rightarrow> bool \<Rightarrow> string \<Rightarrow> string list" where
  "cert_details l d what sans path =
     (case tl_ReadFile l path of
        Inl err \<Rightarrow> [''  failed to read '' @ what @ '' cert: '' @ error_text err]
      | Inr pem \<Rightarrow>
          (case dl_DecodePEM d pem of
             None \<Rightarrow> [''  failed to decode '' @ what @ '' PEM'']
           | Some block \<Rightarrow>
               (case dl_ParseCertificate d block of
                  Inl err \<Rightarrow> [''  failed to parse '' @ what @ '' cert: '' @ error_text err]
                | Inr cert \<Rightarrow>
                    [''  Subject: '' @ ci_Subject cert, ''  Issuer:  '' @ ci_Issuer cert, ''  NotAfter: '' @ ci_NotAfter cert] @
                    (if sans then [''  DNS SANs: '' @ ci_DNSNames cert, ''  IP SANs:  '' @ ci_IPAddresses cert] else []))))"

definition handshake_lines :: "tls_state result \<Rightarrow> string list" where
  "handshake_lines r =
     (case r of
        Inl err \<Rightarrow> [''  TLS handshake failed: '' @ error_text err]
      | Inr st \<Rightarrow>
          (''  TLS handshake OK (version: 0x'' @ hex4 (ts_Version st) @ '', cipher: 0x'' @ hex4 (ts_CipherSuite st) @ '')'') #
          (case ts_PeerSubjects st of [] \<Rightarrow> [] | s # _ \<Rightarrow> [''  Server cert subject: '' @ s]))"

definition tls_checks :: "client_tls_lib \<Rightarrow> debug_lib \<Rightarrow> string \<Rightarrow> string \<Rightarrow> string \<Rightarrow> string \<Rightarrow> string \<Rightarrow> string list" where
  "tls_checks l d serverAddr caCert clientCert clientKey serverName =
     ''=== TLS handshake ==='' #
     (case loadClientTLSConfig l serverAddr caCert clientCert clientKey serverName of
        Inl err \<Rightarrow> [''  failed to build TLS config: '' @ error_text err]
      | Inr cfg \<Rightarrow> handshake_lines (dl_DialTLS d serverAddr cfg) @
                   [''=== Diagnostics complete, proceeding with normal startup ===''])"

definition tcp_checks :: "client_tls_lib \<Rightarrow> debug_lib \<Rightarrow> string \<Rightarrow> string \<Rightarrow> string \<Rightarrow> string \<Rightarrow> string \<Rightarrow> string list" where
  "tcp_checks l d serverAddr caCert clientCert clientKey serverName =
     ''=== TCP connectivity ==='' #
     (case dl_DialTCP d serverAddr of
        Inl err \<Rightarrow> [''  TCP dial '' @ serverAddr @ '' failed: '' @ error_text err, ''Stopping diagnostics '' @ [CHR 0xE2, CHR 0x80, CHR 0x94] @ '' server not reachable.'']
      | Inr _ \<Rightarrow> (''  TCP dial '' @ serverAddr @ '': OK'') # tls_checks l d serverAddr caCert clientCert clientKey serverName)"

definition runDebugChecks :: "client_tls_lib \<Rightarrow> debug_lib \<Rightarrow> string \<Rightarrow> string \<Rightarrow> string \<Rightarrow> string \<Rightarrow> string \<Rightarrow> string list" where
  "runDebugChecks l d serverAddr caCert clientCert clientKey serverName =
     map (\<lambda>s. ''[debug] '' @ s)
       ([''=== Certificate file checks ===''] @
        map (file_check d) [(''CA cert'', caCert), (''Client cert'', clientCert), (''Client key'', clientKey)] @
        [''=== CA certificate details ===''] @ cert_details l d ''CA'' False caCert @
        [''=== Client certificate details ===''] @ cert_details l d ''client'' True clientCert @
        tcp_checks l d serverAddr caCert clientCert clientKey serverName)"

section \<open>The start with its flags\<close>

record tui_flags =
  fl_server :: string
  fl_ca_cert :: string
  fl_client_cert :: string
  fl_client_key :: string
  fl_server_name :: string
  fl_debug :: bool
  fl_insecure :: bool

definition default_flags :: tui_flags where
  "default_flags =
     \<lparr>fl_server = ''localhost:50051'', fl_ca_cert = ''/var/run/kraclaw/grpc-client-tls/ca.crt'',
      fl_client_cert = ''/var/run/kraclaw/grpc-client-tls/tls.crt'', fl_client_key = ''/var/run/kraclaw/grpc-client-tls/tls.key'',
      fl_server_name = ''kraclaw-grpc.kraclaw.svc.cluster.local'', fl_debug = False, fl_insecure = False\<rparr>"

definition tui_start :: "client_tls_lib \<Rightarrow> debug_lib \<Rightarrow> (string \<Rightarrow> tls_Config option \<Rightarrow> 'c result) \<Rightarrow> tui_flags \<Rightarrow> string \<Rightarrow> time \<Rightarrow>
    'u \<times> 'u \<times> 'u \<times> 'u \<Rightarrow> string list \<times> ('c \<times> 'u model \<times> tea_cmd list) result" where
  "tui_start l d dial f theme now w =
     ((if fl_debug f
       then runDebugChecks l d (fl_server f) (fl_ca_cert f) (fl_client_cert f) (fl_client_key f) (fl_server_name f) else []),
      tui_main l dial (fl_server f) (fl_ca_cert f) (fl_client_cert f) (fl_client_key f) (fl_server_name f) (fl_insecure f) theme now w)"

lemma last_runDebugChecks:
  "last (runDebugChecks l d serverAddr caCert clientCert clientKey serverName) =
     ''[debug] '' @ last (tcp_checks l d serverAddr caCert clientCert clientKey serverName)"
proof -
  have "tcp_checks l d serverAddr caCert clientCert clientKey serverName \<noteq> []" by (simp add: tcp_checks_def)
  then show ?thesis by (simp add: runDebugChecks_def last_map)
qed

text \<open>
  The diagnostics never keep the client from starting and never change how it connects. They end
  with the note of completion exactly when the server can be reached and the TLS
  configuration can be built, and that is the configuration the client then connects with.
\<close>

theorem diagnostics_faithful:
  fixes dial :: "string \<Rightarrow> tls_Config option \<Rightarrow> 'c result"
  shows "snd (tui_start l d dial f theme now w) = snd (tui_start l d dial (f\<lparr>fl_debug := b\<rparr>) theme now w)"
    and "last (runDebugChecks l d addr ca cert key' name) = ''[debug] === Diagnostics complete, proceeding with normal startup ===''
         \<longleftrightarrow> is_ok (dl_DialTCP d addr) \<and> is_ok (loadClientTLSConfig l addr ca cert key' name)"
    and "is_ok (newAPIClient l dial addr ca cert key' name False) \<Longrightarrow> is_ok (loadClientTLSConfig l addr ca cert key' name)"
proof -
  show "snd (tui_start l d dial f theme now w) = snd (tui_start l d dial (f\<lparr>fl_debug := b\<rparr>) theme now w)"
    by (simp add: tui_start_def)
  show "last (runDebugChecks l d addr ca cert key' name) = ''[debug] === Diagnostics complete, proceeding with normal startup ===''
         \<longleftrightarrow> is_ok (dl_DialTCP d addr) \<and> is_ok (loadClientTLSConfig l addr ca cert key' name)"
    by (auto simp: last_runDebugChecks tcp_checks_def tls_checks_def split: sum.splits)
  show "is_ok (loadClientTLSConfig l addr ca cert key' name)" if "is_ok (newAPIClient l dial addr ca cert key' name False)"
    using that by (cases "loadClientTLSConfig l addr ca cert key' name") (simp_all add: newAPIClient_def)
qed

end
