(* ===== verification/Tui_Flow.thy ===== *)
theory Tui_Flow
  imports Tui_Client_Props Orch_Commands
begin

text \<open>
  The terminal client together with the server: the list of models the server prints for
  \<open>/models\<close> and the picker that reads it.
\<close>

section \<open>The model picker reads what the server prints\<close>

lemma newline_char [simp]: "newline = [CHR 0x0A]"
  by (simp add: newline_def)

lemma Split_lines:
  assumes "\<forall>l \<in> set ls. CHR 0x0A \<notin> set l"
  shows "Split (concat (map (\<lambda>l. l @ newline) ls) @ t) (CHR 0x0A) = ls @ Split t (CHR 0x0A)"
  using assms by (induction ls) (simp_all add: Split_Cons_sep)

lemma TrimRight_end: "t \<noteq> [] \<Longrightarrow> last t \<notin> set cs \<Longrightarrow> TrimRight (s @ t) cs = s @ t"
  by (induction t rule: rev_induct) (simp_all add: TrimRight_def)

lemma TrimRight_newline: "t \<noteq> [] \<Longrightarrow> last t \<noteq> CHR 0x0A \<Longrightarrow> TrimRight (s @ t @ newline) newline = s @ t"
  by (induction t rule: rev_induct) (simp_all add: TrimRight_def)

text \<open>What the names of models are like: identifiers without blanks and brackets, names without line breaks and brackets.\<close>

definition id_char :: "char \<Rightarrow> bool" where
  "id_char c \<longleftrightarrow> \<not> is_space c \<and> c \<noteq> CHR ''(''"

definition listable :: "ModelInfo \<Rightarrow> bool" where
  "listable m \<longleftrightarrow> mi_ID m \<noteq> [] \<and> list_all id_char (mi_ID m) \<and> list_all (\<lambda>c. c \<noteq> CHR 0x0A \<and> c \<noteq> CHR ''('') (mi_DisplayName m) \<and> mi_DisplayName m \<noteq> ''current''"

definition row_label :: "ModelInfo \<Rightarrow> string" where
  "row_label m = (if mi_DisplayName m \<noteq> [] then mi_ID m @ '' ('' @ mi_DisplayName m @ '')'' else mi_ID m)"

definition model_row :: "string \<Rightarrow> ModelInfo \<Rightarrow> string" where
  "model_row current m = ''- '' @ row_label m @ (if mi_ID m = current then '' (current)'' else [])"

lemma model_line_row: "model_line current m = model_row current m @ newline"
  by (simp add: model_line_def model_row_def row_label_def)

lemma dropWhile_tight: "s \<noteq> [] \<Longrightarrow> \<not> P (hd s) \<Longrightarrow> dropWhile P s = s"
  by (cases s) simp_all

lemma TrimSpace_tight: "s \<noteq> [] \<Longrightarrow> \<not> is_space (hd s) \<Longrightarrow> \<not> is_space (last s) \<Longrightarrow> TrimSpace s = s"
  by (simp add: TrimSpace_def dropWhile_tight hd_rev)

lemma space_chars [simp]: "is_space (CHR '' '')" "\<not> is_space (CHR ''-'')" "\<not> is_space (CHR '')'')" "is_space (CHR 0x0A)"
  by (simp_all add: is_space_def)

lemma id_no_blank: "list_all id_char s \<Longrightarrow> CHR '' '' \<notin> set s" "list_all id_char s \<Longrightarrow> CHR 0x0A \<notin> set s" "list_all id_char s \<Longrightarrow> CHR ''('' \<notin> set s"
  by (induction s) (auto simp: id_char_def)

lemma Index_blank: "CHR '' '' \<notin> set s \<Longrightarrow> str_Index (s @ '' ('' @ r) '' ('' = Some (length s)"
  by (induction s) auto

lemma Index_none: "CHR '' '' \<notin> set s \<Longrightarrow> str_Index s '' ('' = None"
  by (induction s) auto

lemma row_label_ends:
  assumes "listable m"
  shows "row_label m \<noteq> []" "\<not> is_space (hd (row_label m))" "\<not> is_space (last (row_label m))"
  using assms by (auto simp: listable_def row_label_def list_all_iff id_char_def hd_append)

lemma row_label_not_current:
  assumes "listable m"
  shows "\<not> HasSuffix (row_label m) '' (current)''"
proof (cases "mi_DisplayName m = []")
  case True
  have "CHR '' '' \<in> set (rev s)" if "HasSuffix s '' (current)''" for s
    using that by (auto simp: HasSuffix_def HasPrefix_iff simp del: set_rev)
  then show ?thesis
    using assms True id_no_blank(1) [of "mi_ID m"] by (auto simp: listable_def row_label_def)
next
  case False
  let ?d = "rev (mi_DisplayName m)"
  have "\<forall>c \<in> set ?d. c \<noteq> CHR ''(''"
    using assms by (auto simp: listable_def list_all_iff)
  then have "takeWhile (\<lambda>c. c \<noteq> CHR ''('') (?d @ CHR ''('' # r) = ?d" for r
    using takeWhile_append2 [of ?d "\<lambda>c. c \<noteq> CHR ''(''"] by simp
  moreover have "takeWhile (\<lambda>c. c \<noteq> CHR ''('') (?d @ CHR ''('' # r) = ''tnerruc''"
    if "?d @ CHR ''('' # r = ''tnerruc('' @ r'" for r r'
    by (simp add: that)
  moreover have "\<exists>r r'. ?d @ CHR ''('' # r = ''tnerruc('' @ r'" if "HasSuffix (row_label m) '' (current)''"
    using that False by (auto simp: HasSuffix_def row_label_def HasPrefix_iff)
  ultimately have "?d = ''tnerruc''" if "HasSuffix (row_label m) '' (current)''"
    using that by metis
  then show ?thesis
    using assms by (auto simp: listable_def rev_swap)
qed

lemma HasSuffix_append [simp]: "HasSuffix (s @ t) t"
  by (simp add: HasSuffix_def)

lemma TrimSuffix_append [simp]: "TrimSuffix (s @ t) t = s"
  by (simp add: TrimSuffix_def)

lemma parse_model_row:
  assumes "listable m"
  shows "parse_model_line (model_row current m) = Some \<lparr>mp_ID = mi_ID m, mp_Label = row_label m, mp_Current = (mi_ID m = current)\<rparr>"
proof -
  let ?marked = "row_label m @ (if mi_ID m = current then '' (current)'' else [])"
  note ends = row_label_ends [OF assms]
  have marked: "?marked \<noteq> []" "\<not> is_space (hd ?marked)" "\<not> is_space (last ?marked)"
    using ends by auto
  then have trim: "TrimSpace (model_row current m) = model_row current m" "TrimSpace ?marked = ?marked" "TrimSpace (row_label m) = row_label m"
    using ends by (intro TrimSpace_tight; auto simp: model_row_def)+
  have pre: "HasPrefix (model_row current m) ''- ''" "TrimPrefix (model_row current m) ''- '' = ?marked"
    by (simp_all add: model_row_def TrimPrefix_def)
  have ident: "(case str_Index (row_label m) '' ('' of Some i \<Rightarrow> if i > 0 then take i (row_label m) else row_label m | None \<Rightarrow> row_label m) = mi_ID m"
    using assms id_no_blank(1) [of "mi_ID m"] Index_blank [of "mi_ID m"] Index_none [of "mi_ID m"]
    by (auto simp: row_label_def listable_def)
  show ?thesis
  proof (cases "mi_ID m = current")
    case True
    have t: "HasSuffix (row_label m @ '' (current)'') '' (current)''" "TrimSuffix (row_label m @ '' (current)'') '' (current)'' = row_label m"
      by (rule HasSuffix_append, rule TrimSuffix_append)
    show ?thesis
      using pre trim t ends(1) ident assms True by (simp add: parse_model_line_def Let_def listable_def cong: if_cong option.case_cong del: append.simps)
  next
    case False
    then show ?thesis
      using pre trim ends(1) ident assms row_label_not_current [OF assms] by (simp add: parse_model_line_def Let_def listable_def)
  qed
qed

text \<open>Everything else in the text is no row.\<close>

lemma no_row: "\<not> is_space c \<Longrightarrow> c \<noteq> CHR ''-'' \<Longrightarrow> parse_model_line (c # s) = None"
proof -
  assume c: "\<not> is_space c" "c \<noteq> CHR ''-''"
  have "\<exists>t. TrimSpace (c # s) = c # t"
    using c(1) by (simp add: TrimSpace_def) (metis (no_types) append_Cons append_eq_append_conv2 dropWhile_append3 rev.simps(2) rev_append rev_rev_ident)
  then show ?thesis
    using c(2) by (auto simp: parse_model_line_def Let_def)
qed

text \<open>
  The client's model picker and the server's \<open>/models\<close> command fit together: the picker shows one
  row for every model the server lists, in the server's order, with the identifier the server
  understands and the mark on the current model, and selecting a row sends that identifier.
\<close>

theorem model_picker_roundtrip:
  assumes "\<forall>m \<in> set models. listable m" and "CHR 0x0A \<notin> set (pi_DisplayName p)" and "CHR 0x0A \<notin> set (pi_DefaultModel p)"
  shows "parseModelList (models_text p models current) =
    map (\<lambda>m. \<lparr>mp_ID = mi_ID m, mp_Label = row_label m, mp_Current = (mi_ID m = current)\<rparr>) models"
proof -
  let ?head = "''Models ('' @ pi_DisplayName p @ ''):''" and ?rows = "map (model_row current) models"
  let ?tail = "if current = [] then [''Current: '' @ pi_DefaultModel p @ '' (default)''] else []"
  have lines: "\<forall>l \<in> set (?head # ?rows). CHR 0x0A \<notin> set l"
    using assms id_no_blank(2) by (auto simp: model_row_def row_label_def listable_def list_all_iff)
  have body: "''Models ('' @ pi_DisplayName p @ ''):'' @ newline @ concat (map (model_line current) models) =
      concat (map (\<lambda>l. l @ newline) (?head # ?rows))"
    by (simp add: model_line_row [abs_def] comp_def)
  have "Split (models_text p models current) (CHR 0x0A) = ?head # ?rows @ ?tail"
  proof (cases "current = []")
    case True
    have "models_text p models current = concat (map (\<lambda>l. l @ newline) (?head # ?rows)) @ ''Current: '' @ pi_DefaultModel p @ '' (default)''"
      unfolding models_text_def body [symmetric] using True
        TrimRight_end [of "''Current: '' @ pi_DefaultModel p @ '' (default)''" newline "''Models ('' @ pi_DisplayName p @ ''):'' @ newline @ concat (map (model_line current) models)"]
      by simp
    then show ?thesis
      using Split_lines [OF lines] True assms(3) by (simp add: Split_no_sep)
  next
    case False
    obtain ls l where ls: "?head # ?rows = ls @ [l]"
      by (metis list.distinct(1) rev_exhaust)
    have rest: "\<forall>l \<in> set ls. CHR 0x0A \<notin> set l"
      using lines by (simp only: ls) simp
    have "l \<in> set (?head # ?rows)"
      by (simp only: ls) simp
    then have "l \<noteq> []" "CHR 0x0A \<notin> set l"
      using lines by (auto simp: model_row_def)
    moreover from this have "last l \<noteq> CHR 0x0A"
      by (metis last_in_set)
    ultimately have "TrimRight (concat (map (\<lambda>l. l @ newline) (ls @ [l]))) newline = concat (map (\<lambda>l. l @ newline) ls) @ l"
      using TrimRight_newline [of l "concat (map (\<lambda>l. l @ newline) ls)"] by (simp del: newline_char)
    moreover have "models_text p models current = TrimRight (concat (map (\<lambda>l. l @ newline) (ls @ [l]))) newline"
      using False by (simp only: models_text_def ls [symmetric] body [symmetric] if_False append_Nil2)
    ultimately have "models_text p models current = concat (map (\<lambda>l. l @ newline) ls) @ l"
      by simp
    then show ?thesis
      using Split_lines [OF rest, of l] \<open>CHR 0x0A \<notin> set l\<close> False ls by (simp add: Split_no_sep)
  qed
  moreover have "parse_model_line ?head = None" "parse_model_line (''Current: '' @ x) = None" for x
    using no_row by (simp_all add: is_space_def)
  moreover have "List.map_filter parse_model_line ?rows = map (\<lambda>m. \<lparr>mp_ID = mi_ID m, mp_Label = row_label m, mp_Current = (mi_ID m = current)\<rparr>) models"
    using assms(1) by (induction models) (simp_all add: map_filter_simps parse_model_row)
  ultimately show ?thesis
    by (cases "current = []") (simp_all add: parseModelList_def List.map_filter_def)
qed

theorem model_picker_roundtrip_witness:
  "parseModelList (models_text \<lparr>pi_ID = ''openai'', pi_DisplayName = ''OpenAI'', pi_Models = [], pi_DefaultModel = ''gpt-5'', pi_AuthMode = AuthModeAPIKey\<rparr>
       [\<lparr>mi_ID = ''gpt-5'', mi_DisplayName = ''GPT-5''\<rparr>, \<lparr>mi_ID = ''o3'', mi_DisplayName = []\<rparr>] ''o3'') =
     [\<lparr>mp_ID = ''gpt-5'', mp_Label = ''gpt-5 (GPT-5)'', mp_Current = False\<rparr>, \<lparr>mp_ID = ''o3'', mp_Label = ''o3'', mp_Current = True\<rparr>]"
proof -
  let ?models = "[\<lparr>mi_ID = ''gpt-5'', mi_DisplayName = ''GPT-5''\<rparr>, \<lparr>mi_ID = ''o3'', mi_DisplayName = []\<rparr>] :: ModelInfo list"
  have "\<forall>m \<in> set ?models. listable m"
    by (simp add: listable_def id_char_def is_space_def)
  then show ?thesis
    by (subst model_picker_roundtrip) (simp_all add: row_label_def)
qed

end
