(* ===== verification/Tui_System.thy ===== *)
theory Tui_System
  imports Tui_Requests
begin

text \<open>
  The terminal client connected to the server: the stubs of the group, provider, task and
  message RPCs are the server's own definitions on the world of the orchestrator, the
  remaining stubs are arbitrary. A run interleaves what the user types with the execution of
  pending commands.
\<close>

section \<open>The connected client\<close>

text \<open>\<open>st\<close> is the error gRPC hands the client for a status; \<open>f\<close> the answers of the driver.\<close>

definition on_system :: "(rpc_error \<Rightarrow> goerr) \<Rightarrow> (nat \<Rightarrow> fault) \<Rightarrow> (string \<Rightarrow> ContainerConfig result) \<Rightarrow> ProviderRegistry \<Rightarrow> lister \<Rightarrow> (string list \<Rightarrow> string list) \<Rightarrow>
    time \<times> time \<times> time \<Rightarrow> sys orch_env \<Rightarrow> sys model_lister \<Rightarrow> sys world apiClient \<Rightarrow> sys world apiClient" where
  "on_system st f decode reg models rng clock e dyn c =
     c\<lparr>ac_ListGroups := (\<lambda>w. (map_sum st id (api_ListGroups f (Some (y_db (ext w)))), w)),
       ac_ListTasks := (\<lambda>w. (map_sum st id (api_ListTasks f [] (Some (y_db (ext w)))), w)),
       ac_ListProviders := (\<lambda>jid w. (map_sum st id (ListProviders None (Some reg) rng models jid), w)),
       ac_RegisterGroup := (\<lambda>req w. case RegisterGroup f decode reg models req (Some (y_db (ext w))) of
          (r, d) \<Rightarrow> (map_sum st id r, case d of None \<Rightarrow> w | Some d \<Rightarrow> w\<lparr>ext := (ext w)\<lparr>y_db := d\<rparr>\<rparr>)),
       ac_SendMessage := (\<lambda>req w. case SendMessage (Some (system_tui e dyn reg)) (Some (system_authz e)) clock req w of
          (r, w) \<Rightarrow> (map_sum st id r, w))\<rparr>"

datatype sys_event = Types tea_msg | Runs tea_cmd

fun sys_run :: "'u ui \<Rightarrow> 's apiClient \<Rightarrow> sys_event list \<Rightarrow> 'u model \<times> tea_cmd list \<times> 's \<Rightarrow> ('u model \<times> tea_cmd list \<times> 's) option" where
  "sys_run u c [] x = Some x"
| "sys_run u c (Types msg # es) (m, p, s) =
     (case Update u msg m of None \<Rightarrow> None | Some (m', cs) \<Rightarrow> sys_run u c es (m', p @ cs, s))"
| "sys_run u c (Runs cmd # es) (m, p, s) =
     (if cmd \<notin> set p then None
      else case run_cmd u c cmd s of
        (Msg msg, s') \<Rightarrow> (case Update u msg m of None \<Rightarrow> None | Some (m', cs) \<Rightarrow> sys_run u c es (m', remove1 cmd p @ cs, s'))
      | (NoMsg, s') \<Rightarrow> sys_run u c es (m, remove1 cmd p, s')
      | (CmdPanics, _) \<Rightarrow> None)"

definition typed :: "sys_event \<Rightarrow> bool" where
  "typed e \<longleftrightarrow> (case e of Types msg \<Rightarrow> from_user msg | Runs _ \<Rightarrow> True)"

text \<open>Whatever server the client is connected to, its states are states of the client's own machine.\<close>

lemma sys_run_reachable:
  "sys_run u c es (m, p, s) = Some (m', p', s') \<Longrightarrow> list_all typed es \<Longrightarrow> client_reachable u (m, q) \<Longrightarrow> mset p \<subseteq># mset q \<Longrightarrow>
   \<exists>q'. client_reachable u (m', q') \<and> mset p' \<subseteq># mset q'"
proof (induction u c es "(m, p, s)" arbitrary: m p s q rule: sys_run.induct)
  case (2 u c msg es m p s)
  then obtain m1 cs where up: "Update u msg m = Some (m1, cs)" "sys_run u c es (m1, p @ cs, s) = Some (m', p', s')"
    by (auto split: option.splits)
  have "client_reachable u (m1, q @ cs)"
    using 2(3,4) up(1) by (auto simp: typed_def intro: client_reachable.step client_step.input)
  from 2(1) [OF up(1) refl up(2) _ this] 2(3,5) show ?case
    by simp
next
  case (3 u c cmd es m p s)
  show ?case
  proof (cases "run_cmd u c cmd s")
    case (Pair r s1)
    have mem: "cmd \<in> set p" "cmd \<in> set q"
      using 3(3,6) by (auto split: if_splits dest: mset_subset_eqD [of _ _ cmd])
    have rest: "mset (remove1 cmd p) \<subseteq># mset (remove1 cmd q)"
      using 3(6) mem by (simp add: subset_eq_diff_conv)
    show ?thesis
    proof (cases r)
      case (Msg msg)
      then obtain m1 cs where up: "Update u msg m = Some (m1, cs)" "sys_run u c es (m1, remove1 cmd p @ cs, s1) = Some (m', p', s')"
        using 3(3) Pair mem by (auto split: option.splits)
      have "answers cmd msg"
        using Pair Msg by (simp add: run_cmd_answers)
      then have "client_reachable u (m1, remove1 cmd q @ cs)"
        by (rule client_reachable.step [OF 3(5) client_step.answer [OF mem(2) _ up(1)]])
      moreover have "mset (remove1 cmd p @ cs) \<subseteq># mset (remove1 cmd q @ cs)"
        using rest unfolding mset_append by (rule subset_mset.add_right_mono)
      ultimately show ?thesis
        using 3(1) [OF _ Pair [symmetric] Msg up(1) refl up(2)] 3(4) mem(1) by simp
    next
      case NoMsg
      have "mset (remove1 cmd p) \<subseteq># mset q"
        using 3(6) by (metis diff_subset_eq_self mset_remove1 subset_mset.order_trans)
      with 3(2) [OF _ Pair [symmetric] NoMsg _ _ 3(5)] show ?thesis
        using 3(3,4) Pair NoMsg mem by simp
    next
      case CmdPanics
      then show ?thesis
        using 3(3) Pair by (simp split: if_splits)
    qed
  qed
qed auto

section \<open>Creating a group\<close>

lemma sys_run_append: "sys_run u c (es @ fs) x = (case sys_run u c es x of None \<Rightarrow> None | Some y \<Rightarrow> sys_run u c fs y)"
  by (induction u c es x rule: sys_run.induct) (auto split: option.splits prod.splits cmd_end.splits)

lemma sys_run_typed:
  "sys_run u c (map Types msgs) (m, p, s) = map_option (\<lambda>(m, p). (m, p, s)) (client_run u (map UserInput msgs) (m, p))"
  by (induction msgs arbitrary: m p) (auto split: option.splits prod.splits)

lemma sys_press_down:
  assumes "in_picker m" and "mo_creationPicker m = \<lparr>cp_items = items, cp_cursor = 0\<rparr>" and "k < length items"
  shows "sys_run u c (replicate k (Types (KeyPress ''j''))) (m, p, s) = Some (m\<lparr>mo_creationPicker := \<lparr>cp_items = items, cp_cursor = int k\<rparr>\<rparr>, p, s)"
  using sys_run_typed [of u c "replicate k (KeyPress ''j'')" m p s] press_down [of m items 0 k u p] assms by simp

text \<open>The providers a client is offered and the check of the server when it asks for one of them.\<close>

definition keyed :: "ProviderRegistry \<Rightarrow> bool" where
  "keyed reg \<longleftrightarrow> list_all (\<lambda>(k, p). pi_ID p = k) reg"

lemma keyed_Get: "keyed reg \<Longrightarrow> Provider_Get reg k = Some p \<Longrightarrow> pi_ID p = k"
  by (auto simp: keyed_def list_all_iff Provider_Get_def dest: map_of_SomeD)

lemma offered_model_accepted:
  assumes "keyed reg" and "ListProviders None (Some reg) rng models jid = Inr ps" and "it \<in> set (buildModelItems ps prov)"
    and "prov \<noteq> ProviderOpenAI \<or> models = None"
  shows "validateModel reg models j prov (cp_id it) = Inr ()"
proof -
  have same: "provider_proto models jid p = p" if "pi_ID p = prov" for p
    using assms(4) that by (auto simp: provider_proto_def split: option.split)
  obtain p where p: "find (\<lambda>p. pi_ID p = prov) ps = Some p" "it \<in> set (map (\<lambda>x. \<lparr>cp_id = mi_ID x, cp_label = mi_DisplayName x\<rparr>) (pi_Models p))"
    using assms(3) by (cases "find (\<lambda>p. pi_ID p = prov) ps") (simp_all add: buildModelItems_def)
  then have "p \<in> set ps" "pi_ID p = prov"
    by (auto simp: find_Some_iff)
  then obtain q k where q: "p = provider_proto models jid q" "Provider_Get reg k = Some q"
    using assms(2) by (auto simp: ListProviders_def List.map_filter_def)
  then have "pi_ID q = prov"
    using \<open>pi_ID p = prov\<close> by (auto simp: provider_proto_def split: option.splits if_splits sum.splits list.splits)
  then have "map_of reg prov = Some p"
    using q same keyed_Get [OF assms(1) q(2)] by (simp add: Provider_Get_def)
  then have "ValidateModel reg prov (cp_id it) = Inr ()"
    using p(2) by (auto simp: ValidateModel_Inr)
  then show ?thesis
    using assms(4) by (auto simp: validateModel_def)
qed

lemma find_append: "find P (xs @ ys) = (case find P xs of None \<Rightarrow> find P ys | Some x \<Rightarrow> Some x)"
  by (induction xs) auto

lemma register_new_group:
  assumes "\<And>n. f n = None" and "name \<noteq> []" and "decode json = Inr cc" and "json \<noteq> []"
    and "cc_Provider cc \<noteq> [] \<Longrightarrow> validateModel reg models (''tui:'' @ name) (cc_Provider cc) (cc_Model cc) = Inr ()"
    and "\<forall>r \<in> set (db_groups d). row_jid r \<noteq> ''tui:'' @ name \<and> row_folder r \<noteq> name"
  shows "\<exists>gp g d'. RegisterGroup f decode reg models ((register_request name)\<lparr>rg_ContainerConfigJson := json\<rparr>) (Some d) = (Inr gp, Some d') \<and>
    group_info gp = \<lparr>gi_JID = ''tui:'' @ name, gi_Name = name, gi_Folder = name, gi_TriggerPattern = [], gi_IsMain = True\<rparr> \<and>
    GetGroup None (''tui:'' @ name) d' = Inr (Some g) \<and> g_ContainerConfig g = Some cc \<and> g_Folder g = name \<and> \<not> g_RequiresTrigger g \<and>
    d' = d\<lparr>db_groups := db_groups d @ drop (length (db_groups d)) (db_groups d')\<rparr>"
proof -
  let ?g = "(requested_group (register_request name))\<lparr>g_ContainerConfig := Some cc\<rparr>"
  let ?row = "\<lparr>r_group = ?g\<lparr>g_AddedAt := db_time0 (g_AddedAt ?g)\<rparr>, r_is_active = False, r_last_active_at = None\<rparr>"
  have none: "find (\<lambda>r. row_jid r = ''tui:'' @ name) (db_groups d) = None" "\<not> list_ex (\<lambda>r. row_folder r = name) (db_groups d)"
    using assms(6) by (auto simp: find_None_iff list_ex_iff)
  have jid: "g_JID ?g = ''tui:'' @ name" "g_Folder ?g = name"
    by (simp_all add: requested_group_def register_request_def)
  have up: "UpsertGroup None ?g d = (Inr (), d\<lparr>db_groups := db_groups d @ [?row]\<rparr>)"
    unfolding UpsertGroup_def jid none using none(2) by simp
  have get: "GetGroup None (''tui:'' @ name) (d\<lparr>db_groups := db_groups d @ [?row]\<rparr>) = Inr (Some (r_group ?row))"
    using none(1) jid by (simp add: GetGroup_def find_append)
  have req: "requested_group ((register_request name)\<lparr>rg_ContainerConfigJson := json\<rparr>) = requested_group (register_request name)"
    by (simp add: requested_group_def)
  have "RegisterGroup f decode reg models ((register_request name)\<lparr>rg_ContainerConfigJson := json\<rparr>) (Some d) = store_group f ?g d"
    using assms(2-5) by (simp add: RegisterGroup_def req ParseContainerConfig_def Group_Validate_def Let_def) (simp add: register_request_def requested_group_def)
  also have "\<dots> = (Inr (group_proto ?g (g_AddedAt (r_group ?row))), Some (d\<lparr>db_groups := db_groups d @ [?row]\<rparr>))"
    using up get jid by (simp add: store_group_def assms(1))
  finally show ?thesis
    using get by (auto simp: group_info_def group_proto_def requested_group_def register_request_def)
qed

text \<open>The states of the client on the way: the name is entered, the providers arrive, a provider and a model are picked.\<close>

definition with_name :: "'u ui \<Rightarrow> string \<Rightarrow> 'u model \<Rightarrow> 'u model" where
  "with_name u name m = m\<lparr>mo_chatRegInput := ui_SetValue u [] (ui_Blur u (mo_chatRegInput m)), mo_creationPendingGroupName := name, mo_chatErr := None,
     mo_chatState := SelectProvider, mo_creationPicker := no_picker, mo_creationProvidersLoaded := False, mo_creationFlowID := mo_creationFlowID m + 1\<rparr>"

definition with_providers :: "ProviderInfo list \<Rightarrow> int \<Rightarrow> 'u model \<Rightarrow> 'u model" where
  "with_providers ps i m = m\<lparr>mo_creationProviders := ps, mo_creationProvidersLoaded := True,
     mo_creationPicker := \<lparr>cp_items = fst (buildProviderItems ps []), cp_cursor = i\<rparr>\<rparr>"

definition with_models :: "string \<Rightarrow> creationPickerItem list \<Rightarrow> int \<Rightarrow> 'u model \<Rightarrow> 'u model" where
  "with_models prov items j m = m\<lparr>mo_creationSelectedProvider := prov, mo_chatState := SelectModel, mo_creationPicker := \<lparr>cp_items = items, cp_cursor = j\<rparr>\<rparr>"

definition naming :: "'u ui \<Rightarrow> string \<Rightarrow> 'u model \<Rightarrow> bool" where
  "naming u name m \<longleftrightarrow> mo_activeTab m = tabMessages \<and> mo_chatState m = SelectGroup \<and> ui_Focused u (mo_chatRegInput m) \<and>
     TrimSpace (ui_Value u (mo_chatRegInput m)) = name \<and> name \<noteq> []"

lemma enter_name:
  "naming u name m \<Longrightarrow> Update u (KeyPress ''enter'') m = Some (with_name u name m, [FetchProviders (mo_creationFlowID m + 1) None])"
  by (simp add: naming_def Update_def update_key_def updateChat_def key_select_group_def key_new_group_def with_name_def Let_def)

lemma providers_arrive:
  "Update u (ProvidersLoaded (mo_creationFlowID m + 1) (Inr ps)) (with_name u name m) = Some (with_providers ps 0 (with_name u name m), [])"
  by (simp add: Update_def update_providers_def with_name_def with_providers_def Let_def)

lemma enter_provider:
  assumes "mo_activeTab m = tabMessages" and "i < length (fst (buildProviderItems ps []))" and "cp_id (fst (buildProviderItems ps []) ! i) = prov"
    and "lookupAuthMode ps prov \<noteq> Some AuthModeChatGPT" and "buildModelItems ps prov \<noteq> []"
  shows "Update u (KeyPress ''enter'') (with_providers ps (int i) (with_name u name m)) =
    Some (with_models prov (buildModelItems ps prov) 0 (with_providers ps (int i) (with_name u name m)), [])"
  using assms
  by (auto simp: Update_def update_key_def updateChat_def key_select_provider_def pick_provider_def index_def Let_def
      with_providers_def with_name_def with_models_def)

lemma enter_model:
  assumes "mo_activeTab m = tabMessages" and "j < length items"
  shows "\<exists>m'. Update u (KeyPress ''enter'') (with_models prov items (int j) (with_providers ps i (with_name u name m))) =
    Some (m', [RegisterGroupCmd name prov (cp_id (items ! j))]) \<and> mo_activeTab m' = tabMessages"
  using assms
  by (auto simp: Update_def update_key_def updateChat_def key_select_model_def index_def Let_def clear_creation_def
      with_providers_def with_name_def with_models_def)

definition create_group_events :: "int \<Rightarrow> string \<Rightarrow> string \<Rightarrow> string \<Rightarrow> nat \<Rightarrow> nat \<Rightarrow> sys_event list" where
  "create_group_events flow name prov modelID i j =
     [Types (KeyPress ''enter''), Runs (FetchProviders flow None)] @ replicate i (Types (KeyPress ''j'')) @ [Types (KeyPress ''enter'')] @
     replicate j (Types (KeyPress ''j'')) @ [Types (KeyPress ''enter''), Runs (RegisterGroupCmd name prov modelID)]"

text \<open>
  C27: Creating a group in the terminal client, for a provider that needs no ChatGPT sign-in and
  whose models do not depend on the group, which in the program's own registry is Anthropic. The
  user enters a name that no group has as its identifier or folder, moves down the list of
  providers the server answers, picks such a provider, moves down its models and picks one.
  With a store in which no statement fails and a codec that encodes and decodes the
  configuration, the server accepts what was picked: it has a new group with that name as its
  folder, the chosen provider and model in its configuration and no trigger, every other group
  is as it was, and the client opens the message stream of that group.
\<close>

theorem group_created_from_client:
  assumes "naming u name m" and "keyed reg" and "\<And>n. f n = None"
    and "ListProviders None (Some reg) rng models [] = Inr ps"
    and "i < length (fst (buildProviderItems ps []))" and "cp_id (fst (buildProviderItems ps []) ! i) = prov"
    and "lookupAuthMode ps prov \<noteq> Some AuthModeChatGPT" and "prov \<noteq> ProviderOpenAI \<or> models = None" and "prov \<noteq> []"
    and "j < length (buildModelItems ps prov)" and "modelID = cp_id (buildModelItems ps prov ! j)"
    and "ac_Marshal c prov modelID = Inr json" and "json \<noteq> []"
    and "decode json = Inr (empty_ContainerConfig\<lparr>cc_Provider := prov, cc_Model := modelID\<rparr>)"
    and "\<forall>r \<in> set (db_groups (y_db (ext w))). row_jid r \<noteq> ''tui:'' @ name \<and> row_folder r \<noteq> name"
  shows "\<exists>m' p' w' g. sys_run u (on_system st f decode reg models rng clock e dyn c)
      (create_group_events (mo_creationFlowID m + 1) name prov modelID i j) (m, p, w) = Some (m', p', w') \<and>
    GetGroup None (''tui:'' @ name) (y_db (ext w')) = Inr (Some g) \<and> g_Folder g = name \<and> \<not> g_RequiresTrigger g \<and>
    g_ContainerConfig g = Some (empty_ContainerConfig\<lparr>cc_Provider := prov, cc_Model := modelID\<rparr>) \<and>
    take (length (db_groups (y_db (ext w)))) (db_groups (y_db (ext w'))) = db_groups (y_db (ext w)) \<and>
    mo_chatState m' = Connecting \<and> map_option gi_JID (mo_chatGroup m') = Some (''tui:'' @ name) \<and> OpenInbound (''tui:'' @ name) \<in> set p'"
proof -
  let ?c = "on_system st f decode reg models rng clock e dyn c"
  let ?items = "buildModelItems ps prov"
  let ?m2 = "\<lambda>i. with_providers ps (int i) (with_name u name m)"
  let ?m3 = "\<lambda>j. with_models prov ?items (int j) (?m2 i)"
  have tab: "mo_activeTab m = tabMessages"
    using assms(1) by (simp add: naming_def)
  have downs: "sys_run u ?c (replicate i (Types (KeyPress ''j''))) (?m2 0, q, w) = Some (?m2 i, q, w)"
    "sys_run u ?c (replicate j (Types (KeyPress ''j''))) (?m3 0, q, w) = Some (?m3 j, q, w)" for q
    using tab assms(5,10) by (subst sys_press_down; simp add: in_picker_def with_providers_def with_name_def with_models_def)+
  have provs: "run_cmd u ?c (FetchProviders (mo_creationFlowID m + 1) None) w = (Msg (ProvidersLoaded (mo_creationFlowID m + 1) (Inr ps)), w)"
    using assms(4) by (simp add: msg_end_def fetchProvidersCmd_def on_system_def)
  obtain m4 where m4: "Update u (KeyPress ''enter'') (?m3 j) = Some (m4, [RegisterGroupCmd name prov modelID])"
    using enter_model [OF tab assms(10)] assms(11) by blast
  have "validateModel reg models (''tui:'' @ name) prov modelID = Inr ()"
    using offered_model_accepted [OF assms(2,4) nth_mem [OF assms(10)]] assms(8,11) by simp
  then obtain gp g d' where reg: "RegisterGroup f decode reg models ((register_request name)\<lparr>rg_ContainerConfigJson := json\<rparr>) (Some (y_db (ext w))) = (Inr gp, Some d')"
    "group_info gp = \<lparr>gi_JID = ''tui:'' @ name, gi_Name = name, gi_Folder = name, gi_TriggerPattern = [], gi_IsMain = True\<rparr>"
    "GetGroup None (''tui:'' @ name) d' = Inr (Some g)" "g_ContainerConfig g = Some (empty_ContainerConfig\<lparr>cc_Provider := prov, cc_Model := modelID\<rparr>)"
    "g_Folder g = name" "\<not> g_RequiresTrigger g" "d' = (y_db (ext w))\<lparr>db_groups := db_groups (y_db (ext w)) @ drop (length (db_groups (y_db (ext w)))) (db_groups d')\<rparr>"
    using register_new_group [of f name decode json "empty_ContainerConfig\<lparr>cc_Provider := prov, cc_Model := modelID\<rparr>" reg models "y_db (ext w)"]
      assms(1,3,13-15) by (auto simp: naming_def)
  have rg: "run_cmd u ?c (RegisterGroupCmd name prov modelID) w = (Msg (GroupRegistered (Inr (group_info gp))), w\<lparr>ext := (ext w)\<lparr>y_db := d'\<rparr>\<rparr>)"
    using reg(1) assms(9,12) by (simp add: msg_end_def registerGroupCmd_def on_system_def)
  obtain m5 where m5: "Update u (GroupRegistered (Inr (group_info gp))) m4 = Some (m5, [FetchGroups, OpenInbound (''tui:'' @ name)])"
    "mo_chatState m5 = Connecting" "map_option gi_JID (mo_chatGroup m5) = Some (''tui:'' @ name)"
    using reg(2) by (simp add: Update_def update_registered_def)
  have "?items \<noteq> []"
    using assms(10) by auto
  note steps = enter_name [OF assms(1)] providers_arrive [of u m ps name] enter_provider [OF tab assms(5-7) this, of u name]
  have "\<exists>p'. sys_run u ?c (create_group_events (mo_creationFlowID m + 1) name prov modelID i j) (m, p, w) = Some (m5, p', w\<lparr>ext := (ext w)\<lparr>y_db := d'\<rparr>\<rparr>) \<and>
      OpenInbound (''tui:'' @ name) \<in> set p'"
    using downs steps m4 m5(1)
    by (simp add: create_group_events_def sys_run_append provs rg del: run_cmd.simps)
  moreover have "take (length (db_groups (y_db (ext w)))) (db_groups d') = db_groups (y_db (ext w))"
    by (subst reg(7)) simp
  ultimately show ?thesis
    using reg(3-6) m5(2,3) by (intro exI [of _ m5]) auto
qed

definition demo_stubs :: "'s apiClient" where
  "demo_stubs = 
     \<lparr>ac_GetStatus = (\<lambda>s. (Inl (Errorf ''unavailable''), s)), ac_ListSandboxes = (\<lambda>s. (Inl (Errorf ''unavailable''), s)),
      ac_ListGroups = (\<lambda>s. (Inl (Errorf ''unavailable''), s)), ac_ListTasks = (\<lambda>s. (Inl (Errorf ''unavailable''), s)),
      ac_StreamEvents = (\<lambda>s. (Inr 1, s)), ac_RecvEvent = (\<lambda>n s. (Inl EOF, s)), ac_ListProviders = (\<lambda>j s. (Inr [], s)),
      ac_RegisterGroup = (\<lambda>r s. (Inl (Errorf ''unavailable''), s)), ac_StreamInbound = (\<lambda>j s. (Inr 2, s)), ac_RecvInbound = (\<lambda>n s. (Inl EOF, s)),
      ac_SendMessage = (\<lambda>r s. (Inr (), s)), ac_StartDeviceAuth = (\<lambda>j p s. (Inr 3, s)), ac_RecvAuth = (\<lambda>n s. (Inl EOF, s)),
      ac_Marshal = (\<lambda>p m. Inr m), ac_FromError = (\<lambda>_. None), ac_time = (\<lambda>_. []), ac_now = (\<lambda>_. 0)\<rparr>"

theorem group_created_from_client_witness:
  "\<exists>m' p' w' g. sys_run demo_ui (on_system (\<lambda>_. EOF) (\<lambda>_. None) (\<lambda>m. Inr (empty_ContainerConfig\<lparr>cc_Provider := ProviderAnthropic, cc_Model := m\<rparr>))
       NewRegistry None id (0, 0, 0) demo_env None demo_stubs)
       (create_group_events 1 ''x'' ProviderAnthropic ''claude-sonnet-4-6'' 0 1)
       (initialModel [] ''dark'' 0 (([], False), ([], False), ([], False), (''x'', True)), [], demo_world False [] 0 0) = Some (m', p', w') \<and>
     GetGroup None ''tui:x'' (y_db (ext w')) = Inr (Some g) \<and> mo_chatState m' = Connecting \<and> OpenInbound ''tui:x'' \<in> set p'"
proof -
  let ?m = "initialModel [] ''dark'' 0 (([], False), ([], False), ([], False), (''x'', True)) :: (string \<times> bool) model"
  let ?ps = "map snd NewRegistry" and ?a = ProviderAnthropic
  have naming: "naming demo_ui ''x'' ?m"
    by (simp add: naming_def initialModel_def demo_ui_def TrimSpace_def is_space_def)
  have keyed: "keyed NewRegistry"
    by (simp add: keyed_def NewRegistry_def)
  have ps: "ListProviders None (Some NewRegistry) id None [] = Inr ?ps"
    by (simp add: ListProviders_def NewRegistry_def Provider_Get_def provider_proto_def ProviderAnthropic_def ProviderOpenAI_def map_filter_simps)
  have first: "0 < length (fst (buildProviderItems ?ps []))" "cp_id (fst (buildProviderItems ?ps []) ! 0) = ?a"
    by (simp_all add: buildProviderItems_def add_provider_item_def NewRegistry_def Let_def)
  have auth: "lookupAuthMode ?ps ?a \<noteq> Some AuthModeChatGPT" "?a \<noteq> ProviderOpenAI \<or> (None :: lister) = None" "?a \<noteq> []"
    by (simp_all add: lookupAuthMode_def NewRegistry_def ProviderAnthropic_def ProviderOpenAI_def)
  have model: "1 < length (buildModelItems ?ps ?a)" "''claude-sonnet-4-6'' = cp_id (buildModelItems ?ps ?a ! 1)"
    by (simp_all add: buildModelItems_def NewRegistry_def ProviderAnthropic_def)
  have marshal: "ac_Marshal demo_stubs ?a ''claude-sonnet-4-6'' = Inr ''claude-sonnet-4-6''" "''claude-sonnet-4-6'' \<noteq> []"
    by (simp_all add: demo_stubs_def)
  have free: "\<forall>r \<in> set (db_groups (y_db (ext (demo_world False [] 0 0)))). row_jid r \<noteq> ''tui:'' @ ''x'' \<and> row_folder r \<noteq> ''x''"
    by (simp add: demo_sys_defs)
  have flow: "mo_creationFlowID ?m + 1 = 1"
    by (simp add: initialModel_def)
  have none: "(\<lambda>_. None) n = (None :: fault)" for n :: nat
    by simp
  show ?thesis
    using group_created_from_client [OF naming keyed none ps first auth model marshal _ free,
      where decode = "\<lambda>m. Inr (empty_ContainerConfig\<lparr>cc_Provider := ProviderAnthropic, cc_Model := m\<rparr>)", OF refl,
      where st = "\<lambda>_. EOF" and clock = "(0, 0, 0)" and e = demo_env and dyn = None and p = "[]"]
    unfolding flow by auto
qed

section \<open>A conversation\<close>

definition chatting_in :: "string \<Rightarrow> 'u model \<Rightarrow> bool" where
  "chatting_in jid m \<longleftrightarrow> mo_activeTab m = tabMessages \<and> mo_chatState m = Chatting \<and> \<not> mp_Open (mo_modelPicker m) \<and> map_option gi_JID (mo_chatGroup m) = Some jid"

lemma kept_by_display [simp]:
  "mo_chatMessages (show_messages u m) = mo_chatMessages m" "mo_chatMessages (goto_bottom u m) = mo_chatMessages m"
  "mo_chatErr (show_messages u m) = mo_chatErr m" "mo_chatErr (goto_bottom u m) = mo_chatErr m"
  "mo_inboundStream (show_messages u m) = mo_inboundStream m" "mo_inboundStream (goto_bottom u m) = mo_inboundStream m"
  "mo_chatModel (show_messages u m) = mo_chatModel m" "mo_chatModel (goto_bottom u m) = mo_chatModel m"
  by (simp_all add: show_messages_def goto_bottom_def ensureMarkdownRenderer_def Let_def split: sum.split)

lemma enter_text:
  assumes "chatting_in jid m" and "TrimSpace (ui_Value u (mo_chatInput m)) = txt" and "txt \<noteq> []" and "\<not> isAuthCommand txt" and "\<not> HasPrefix txt '':''"
  shows "\<exists>m'. Update u (KeyPress ''enter'') m = Some (m', [SendMessageCmd (Some jid) txt]) \<and> mo_chatErr m' = mo_chatErr m \<and>
    mo_chatMessages m' = mo_chatMessages m @ [\<lparr>cm_sender = ''you'', cm_content = txt\<rparr>]"
  using assms
  by (simp add: chatting_in_def Update_def update_key_def updateChat_def key_chatting_def key_model_picker_def send_input_def handleLocalCommand_def
      chat_send_def clear_input_def Let_def)

text \<open>
  C17: What the user types in a chat reaches the server's store, when nothing stands in its way: the
  text is not empty, does not start with a colon, which would make it a command of the client,
  nor with a slash, which would make it a command of the server; it is within the size limit;
  the allowlist of the chat admits the terminal user; the rate limiter of the chat has a token,
  or is new; and no statement of the store fails. Then the text is shown as the user's message,
  and when the client's command has run, the store has the message with the chat's identifier,
  the name of the terminal user and the typed text, and the orchestrator is woken.
\<close>

theorem typed_message_stored:
  assumes "chatting_in jid m" and "TrimSpace (ui_Value u (mo_chatInput m)) = txt" and "txt \<noteq> []" and "\<not> isAuthCommand txt" and "\<not> HasPrefix txt '':''"
    and "\<not> HasPrefix (TrimSpace txt) ''/''" and "jid \<noteq> []"
    and "e = sys_env cfg codec lib rng sb o1" and "\<And>n. or_fault o1 n = None"
    and "oc_MaxMessageSizeBytes cfg \<le> 0 \<or> int (length txt) \<le> oc_MaxMessageSizeBytes cfg"
    and "IsAllowed (\<lambda>j. GetAllowlist None j (y_db (ext w))) jid ''tui-user'' = Inr True"
    and "case rateLimiters w jid of
      Some l \<Rightarrow> fst (TryAcquire (or_now o1 (Suc (y_tick (ext w)))) l)
    | None \<Rightarrow> 1 \<le> oc_RateLimitTokensPerSec cfg \<and> or_now o1 (Suc (y_tick (ext w))) \<le> or_now o1 (Suc (Suc (y_tick (ext w))))"
  shows "\<exists>m' p' w'. sys_run u (on_system st f decode reg models rng' (now1, now2, now3) e dyn c)
      [Types (KeyPress ''enter''), Runs (SendMessageCmd (Some jid) txt)] (m, p, w) = Some (m', p', w') \<and>
    mo_chatMessages m' = mo_chatMessages m @ [\<lparr>cm_sender = ''you'', cm_content = txt\<rparr>] \<and> mo_chatErr m' = mo_chatErr m \<and> notify w' \<and>
    api_message now1 now2 \<lparr>sm_ChatJid = jid, sm_Sender = ''tui-user'', sm_SenderName = ''TUI User'', sm_Text = txt\<rparr> \<in> set (db_messages (y_db (ext w')))"
proof -
  let ?req = "\<lparr>sm_ChatJid = jid, sm_Sender = ''tui-user'', sm_SenderName = ''TUI User'', sm_Text = txt\<rparr>"
  obtain m1 where m1: "Update u (KeyPress ''enter'') m = Some (m1, [SendMessageCmd (Some jid) txt])" "mo_chatErr m1 = mo_chatErr m"
    "mo_chatMessages m1 = mo_chatMessages m @ [\<lparr>cm_sender = ''you'', cm_content = txt\<rparr>]"
    using enter_text [OF assms(1-5)] by blast
  obtain r w' where run: "SendMessage (Some (system_tui e dyn reg)) (Some (system_authz e)) (now1, now2, now3) ?req w = (r, w')"
    by fastforce
  have stored: "r = Inr () \<and> api_message now1 now2 ?req \<in> set (db_messages (y_db (ext w'))) \<and> notify w'"
    by (rule SendMessage_stores [OF assms(8,9) _ _ _ _ _ _ run]) (use assms in simp_all)
  then have "run_cmd u (on_system st f decode reg models rng' (now1, now2, now3) e dyn c) (SendMessageCmd (Some jid) txt) w = (Msg (InputSent None), w')"
    using run by (simp add: msg_end_def sendMessageCmd_def on_system_def)
  then show ?thesis
    using m1 stored by (simp add: Update_def del: run_cmd.simps)
qed

text \<open>
  The client's side of a stream: \<open>inbox s\<close> are the messages the transport has for the stream \<open>n\<close>.
\<close>

definition delivers :: "'s apiClient \<Rightarrow> nat \<Rightarrow> ('s \<Rightarrow> InboundProto list) \<Rightarrow> bool" where
  "delivers c n inbox \<longleftrightarrow> (\<forall>s x xs. inbox s = x # xs \<longrightarrow> (\<exists>s'. ac_RecvInbound c n s = (Inr x, s') \<and> inbox s' = xs))"

lemma inbox_shown:
  assumes "delivers c n inbox"
  shows "inbox s = msgs \<Longrightarrow> mo_inboundStream m = Some n \<Longrightarrow>
    \<exists>m' s'. sys_run u c (replicate (length msgs) (Runs (ReadInbound n))) (m, [ReadInbound n], s) = Some (m', [ReadInbound n], s') \<and> inbox s' = [] \<and>
      mo_chatMessages m' = mo_chatMessages m @ map (\<lambda>x. \<lparr>cm_sender = ''agent'', cm_content = x\<rparr>) (filter (\<lambda>x. x \<noteq> []) (map ip_Content msgs))"
proof (induction msgs arbitrary: m s)
  case (Cons x msgs)
  obtain s1 where s1: "ac_RecvInbound c n s = (Inr x, s1)" "inbox s1 = msgs"
    using assms Cons.prems(1) unfolding delivers_def by blast
  obtain m1 where m1: "Update u (ChannelOutput (Inr \<lparr>ti_Content = ip_Content x, ti_Model = ip_Model x\<rparr>)) m = Some (m1, [ReadInbound n])"
    "mo_inboundStream m1 = Some n" "mo_chatMessages m1 = mo_chatMessages m @ (if ip_Content x = [] then [] else [\<lparr>cm_sender = ''agent'', cm_content = ip_Content x\<rparr>])"
    using Cons.prems(2) by (simp add: Update_def update_output_def Let_def)
  from Cons.IH [OF s1(2) m1(2)] show ?case
    using s1(1) m1(1,3) by (auto simp: msg_end_def readInboundCmd_def)
qed simp

text \<open>
  C32: The replies of the agent appear in the chat. The orchestrator sends messages to a chat a
  client is listening to; the first 64 that the server buffers are streamed to the client, and
  when it has read the stream, its chat shows exactly those of them that have a text, in
  their order, after what it showed before.
\<close>

theorem replies_shown_in_chat:
  assumes "tui_step\<^sup>*\<^sup>* TUI_New t" and "jid \<noteq> []"
    and "StreamInbound True jid g None (map (\<lambda>m. Others (\<lambda>t. snd (TUI_SendMessage jid m t))) msgs @
      replicate (length msgs) (InboundRead g None) @ [InboundDone]) t = (r, sent, t')"
    and "delivers c n inbox" and "inbox s = sent" and "mo_inboundStream m = Some n"
  shows "\<exists>m' s'. sys_run u c (replicate (length sent) (Runs (ReadInbound n))) (m, [ReadInbound n], s) = Some (m', [ReadInbound n], s') \<and>
    mo_chatMessages m' = mo_chatMessages m @ map (\<lambda>x. \<lparr>cm_sender = ''agent'', cm_content = x\<rparr>) (filter (\<lambda>x. x \<noteq> []) (take 64 msgs))"
proof -
  have "map ip_Content sent = (if lookupModel g = [] then [] else [[]]) @ take 64 msgs"
    using StreamInbound_sends [OF assms(1-3)] by (simp add: comp_def)
  then have "filter (\<lambda>x. x \<noteq> []) (map ip_Content sent) = filter (\<lambda>x. x \<noteq> []) (take 64 msgs)"
    by simp
  with inbox_shown [OF assms(4,5,6), of u] show ?thesis
    by auto
qed

text \<open>A chat with \<open>g\<close> in which \<open>hi\<close> is typed; the stubs hold the messages of the stream as their state.\<close>

definition demo_chat :: "(string \<times> bool) model" where
  "demo_chat = (initialModel [] ''dark'' 0 (([], False), (''hi'', True), ([], False), ([], False)))
     \<lparr>mo_chatState := Chatting, mo_chatGroup := Some \<lparr>gi_JID = ''g'', gi_Name = ''g'', gi_Folder = ''g'', gi_TriggerPattern = [], gi_IsMain = True\<rparr>, mo_inboundStream := Some 2\<rparr>"

theorem typed_message_stored_witness:
  "\<exists>m' p' w'. sys_run demo_ui (on_system (\<lambda>_. EOF) (\<lambda>_. None) (\<lambda>_. Inl EOF) NewRegistry None id (1, 2000, 3) demo_env None demo_stubs)
       [Types (KeyPress ''enter''), Runs (SendMessageCmd (Some ''g'') ''hi'')] (demo_chat, [], demo_world False [] 0 0) = Some (m', p', w') \<and>
     mo_chatMessages m' = [\<lparr>cm_sender = ''you'', cm_content = ''hi''\<rparr>] \<and>
     api_message 1 2000 \<lparr>sm_ChatJid = ''g'', sm_Sender = ''tui-user'', sm_SenderName = ''TUI User'', sm_Text = ''hi''\<rparr> \<in> set (db_messages (y_db (ext w')))"
proof -
  let ?w = "demo_world False [] 0 0"
  have chat: "chatting_in ''g'' demo_chat" "TrimSpace (ui_Value demo_ui (mo_chatInput demo_chat)) = ''hi''" "mo_chatMessages demo_chat = []"
    by (simp_all add: chatting_in_def demo_chat_def initialModel_def demo_ui_def TrimSpace_def is_space_def)
  have plain: "\<not> isAuthCommand ''hi''" "\<not> HasPrefix ''hi'' '':''" "\<not> HasPrefix (TrimSpace ''hi'') ''/''"
    by code_simp+
  have "IsAllowed (\<lambda>j. GetAllowlist None j (y_db (ext ?w))) ''g'' ''tui-user'' = Inr True"
    by (simp add: IsAllowed_def GetAllowlist_def demo_sys_defs)
  moreover have "or_fault demo_outcomes n = None" "''hi'' \<noteq> []" "''g'' \<noteq> []" for n
    by (simp_all add: demo_outcomes_def)
  moreover have "oc_MaxMessageSizeBytes demo_cfg \<le> 0 \<or> int (length ''hi'') \<le> oc_MaxMessageSizeBytes demo_cfg"
    by (simp add: demo_cfg_def)
  moreover have "case rateLimiters ?w ''g'' of
      Some l \<Rightarrow> fst (TryAcquire (or_now demo_outcomes (Suc (y_tick (ext ?w)))) l)
    | None \<Rightarrow> 1 \<le> oc_RateLimitTokensPerSec demo_cfg \<and> or_now demo_outcomes (Suc (y_tick (ext ?w))) \<le> or_now demo_outcomes (Suc (Suc (y_tick (ext ?w))))"
    by (simp add: demo_sys_defs)
  ultimately show ?thesis
    using typed_message_stored [OF chat(1,2) _ plain _ refl, of demo_outcomes demo_cfg ?w "\<lambda>_. EOF" "\<lambda>_. None" "\<lambda>_. Inl EOF" NewRegistry None id 1 2000 3
        demo_orch_codec demo_lib id True None demo_stubs "[]"] chat(3)
    by (simp del: sys_run.simps) blast
qed

theorem replies_shown_in_chat_witness:
  "\<exists>m' s'. sys_run demo_ui (demo_stubs\<lparr>ac_RecvInbound := (\<lambda>n s. case s of [] \<Rightarrow> (Inl EOF, s) | x # xs \<Rightarrow> (Inr x, xs))\<rparr>) [Runs (ReadInbound 2)]
       (demo_chat, [ReadInbound 2], [\<lparr>ip_Content = ''hi'', ip_ChatJid = ''g'', ip_Channel = ''tui'', ip_Model = []\<rparr>]) = Some (m', [ReadInbound 2], s') \<and>
     mo_chatMessages m' = [\<lparr>cm_sender = ''agent'', cm_content = ''hi''\<rparr>]"
proof -
  let ?c = "demo_stubs\<lparr>ac_RecvInbound := (\<lambda>n s. case s of [] \<Rightarrow> (Inl EOF, s) | x # xs \<Rightarrow> (Inr x, xs))\<rparr>"
  obtain r sent t' where run: "StreamInbound True ''g'' None None (map (\<lambda>m. Others (\<lambda>t. snd (TUI_SendMessage ''g'' m t))) [''hi''] @
      replicate (length [''hi'']) (InboundRead None None) @ [InboundDone]) TUI_New = (r, sent, t')"
    by (metis surj_pair)
  have sent: "sent = [\<lparr>ip_Content = ''hi'', ip_ChatJid = ''g'', ip_Channel = ''tui'', ip_Model = []\<rparr>]"
    using StreamInbound_sends [OF rtranclp.rtrancl_refl _ run] by (simp add: lookupModel_def)
  have "delivers ?c 2 (\<lambda>s. s)" "mo_inboundStream demo_chat = Some 2" "mo_chatMessages demo_chat = []"
    by (simp_all add: delivers_def demo_chat_def initialModel_def)
  with replies_shown_in_chat [OF rtranclp.rtrancl_refl _ run this(1) refl this(2)] show ?thesis
    by (simp add: sent)
qed

end
