(* ===== verification/Tui_View.thy ===== *)
theory Tui_View
  imports Tui_Client_Props Go_Runes
begin

text \<open>
  What the terminal client draws: \<open>widgets.go\<close> and the render functions of \<open>main.go\<close>, \<open>chat.go\<close> and
  \<open>auth.go\<close>, as strings. Styles are named after the variables of \<open>theme.go\<close> and applied by the
  styling library (\<open>ui_style\<close>); its other layout functions are the record \<open>view_lib\<close>. A panic of
  a render function is \<open>None\<close>.
\<close>

section \<open>The layout library\<close>

record 'u view_lib =
  vl_JoinHorizontal :: "string list \<Rightarrow> string"
  vl_JoinVertical :: "string list \<Rightarrow> string"
  vl_MaxWidth :: "int \<Rightarrow> string \<Rightarrow> string"
  vl_Box :: "int \<Rightarrow> string \<Rightarrow> string"
  vl_CharLimit :: "'u \<Rightarrow> int"
  vl_Username :: "string result"
  vl_Hostname :: "string result"

text \<open>The characters of the screen that are no ASCII, in UTF-8.\<close>

definition mid_dot :: string where "mid_dot = [CHR 0xC2, CHR 0xB7]"
definition em_dash :: string where "em_dash = [CHR 0xE2, CHR 0x80, CHR 0x94]"
definition ellipsis :: string where "ellipsis = [CHR 0xE2, CHR 0x80, CHR 0xA6]"
definition angle_quote :: string where "angle_quote = [CHR 0xE2, CHR 0x80, CHR 0xBA]"
definition return_sign :: string where "return_sign = [CHR 0xE2, CHR 0x8F, CHR 0x8E]"
definition h_line :: string where "h_line = [CHR 0xE2, CHR 0x94, CHR 0x80]"
definition v_line :: string where "v_line = [CHR 0xE2, CHR 0x94, CHR 0x82]"
definition left_block :: string where "left_block = [CHR 0xE2, CHR 0x96, CHR 0x8C]"
definition bullet :: string where "bullet = [CHR 0xE2, CHR 0x97, CHR 0x8F]"

section \<open>Widgets\<close>

definition sectionRule :: "'u ui \<Rightarrow> 'u model \<Rightarrow> int \<Rightarrow> string \<Rightarrow> string" where
  "sectionRule u m width label =
     (let rule = tui_styled u m ''sectionRule''; line = (\<lambda>n. concat (replicate (nat n) h_line));
          leftPad = 2; labelText = '' '' @ label @ '' ''; lblLen = int (length labelText)
      in if width \<le> 0 then []
         else if label = [] \<or> leftPad + lblLen + 1 \<ge> width then rule (line width)
         else rule (line leftPad) @ tui_styled u m ''coral'' labelText @ rule (line (width - leftPad - lblLen)))"

definition keyBar :: "'u ui \<Rightarrow> 'u model \<Rightarrow> (string \<times> string) list \<Rightarrow> int \<Rightarrow> string" where
  "keyBar u m hints width =
     (if hints = [] then []
      else let parts = map (\<lambda>(k, l). tui_styled u m ''keyHintKey'' k @ '' '' @ tui_styled u m ''keyHintLabel'' l) hints;
               joined = '' '' @ Join parts ''  ''
        in if 0 < width \<and> ui_cells u joined < width then joined @ replicate (nat (width - ui_cells u joined)) (CHR '' '') else joined)"

definition statusLine :: "'u ui \<Rightarrow> 'u view_lib \<Rightarrow> 'u model \<Rightarrow> string list \<Rightarrow> int \<Rightarrow> string" where
  "statusLine u v m cells width =
     (if cells = [] \<or> width \<le> 0 then []
      else let joined = Join (map (\<lambda>c. tui_styled u m ''statusLine'' ('' '' @ c @ '' '')) cells) (tui_styled u m ''statusLineSep'' v_line);
               visible = ui_cells u joined
        in if visible > width then vl_MaxWidth v width joined
           else if visible < width then joined @ tui_styled u m ''statusLine'' (replicate (nat (width - visible)) (CHR '' ''))
           else joined)"

definition bigMetric :: "'u ui \<Rightarrow> 'u view_lib \<Rightarrow> 'u model \<Rightarrow> string \<Rightarrow> string \<Rightarrow> string \<Rightarrow> string" where
  "bigMetric u v m val unt caption =
     vl_JoinVertical v [tui_styled u m ''bigMetricValue'' val @ (if unt \<noteq> [] then tui_styled u m ''bigMetricUnit'' unt else []),
       tui_styled u m ''dim'' caption]"

definition dotIndicator :: "'u ui \<Rightarrow> 'u model \<Rightarrow> string \<Rightarrow> string" where
  "dotIndicator u m state = tui_styled u m (if state \<in> {''ok'', ''warn'', ''err''} then state else ''dim'') bullet"

definition boolState :: "bool \<Rightarrow> string" where
  "boolState ok = (if ok then ''ok'' else ''err'')"

definition padRight :: "'u ui \<Rightarrow> string \<Rightarrow> int \<Rightarrow> string" where
  "padRight u s n = (if ui_cells u s \<ge> n then s else s @ replicate (nat (n - ui_cells u s)) (CHR '' ''))"

definition truncateWidth :: "'u ui \<Rightarrow> string \<Rightarrow> int \<Rightarrow> string" where
  "truncateWidth u s n =
     (if n \<le> 0 then []
      else if ui_cells u s \<le> n then s
      else if n = 1 then ellipsis
      else concat (take (nat (n - 1)) (runes s)) @ ellipsis)"

text \<open>
  \<open>formatCount\<close> divides in 64-bit floating point: the quotient is rounded to a multiple of
  \<open>2\<^sup>-\<^sup>5\<^sup>2\<close> of its magnitude before it is printed with one digit. Exact for counts below \<open>2\<^sup>5\<^sup>3\<close>.
\<close>

definition round_even :: "nat \<Rightarrow> nat \<Rightarrow> nat" where
  "round_even a b = (let q = a div b; r = a mod b in if 2 * r < b \<or> 2 * r = b \<and> even q then q else Suc q)"

fun log2 :: "nat \<Rightarrow> nat" where
  "log2 n = (if n < 2 then 0 else Suc (log2 (n div 2)))"

declare log2.simps [simp del]

definition tenths_of_float :: "nat \<Rightarrow> nat" where
  "tenths_of_float n =
     (let k = 52 - log2 (n div 1000); mantissa = round_even (n * 2 ^ k) 1000
      in round_even (mantissa * 10) (2 ^ k))"

definition formatCount :: "int \<Rightarrow> string" where
  "formatCount n =
     (if n < 1000 then show_int n
      else let t = tenths_of_float (nat n) in show_nat (t div 10) @ ''.'' @ show_nat (t mod 10) @ ''k'')"

definition renderInputBox :: "'u ui \<Rightarrow> 'u view_lib \<Rightarrow> 'u model \<Rightarrow> string \<Rightarrow> int \<Rightarrow> string" where
  "renderInputBox u v m inputView width = vl_Box v width (tui_styled u m ''composerPrompt'' (left_block @ '' '') @ inputView)"

section \<open>Small formats\<close>

definition contentWidth :: "'u model \<Rightarrow> int" where
  "contentWidth m = (if mo_width m > 4 then mo_width m - 2 else mo_width m)"

definition shortTime :: "string \<Rightarrow> string" where
  "shortTime ts = (if length ts \<ge> 19 then take 8 (drop 11 ts) else ts)"

definition stateStyle :: "string \<Rightarrow> string" where
  "stateStyle state =
     (let s = ToLower state
      in if s \<in> {''running'', ''ready'', ''completed''} then ''ok''
         else if s \<in> {''failed'', ''error'', ''errored''} then ''err''
         else if s \<in> {''starting'', ''pending'', ''paused'', ''waiting''} then ''warn''
         else ''fg'')"

definition yesNo :: "bool \<Rightarrow> string" where
  "yesNo b = (if b then ''yes'' else ''no'')"

definition coalesce :: "string \<Rightarrow> string \<Rightarrow> string" where
  "coalesce s fallback = (if s = [] then fallback else s)"

definition userAtHost :: "'u view_lib \<Rightarrow> string" where
  "userAtHost v =
     (let un = (case vl_Username v of Inr n \<Rightarrow> if n \<noteq> [] then n else ''user'' | Inl _ \<Rightarrow> ''user'');
          h = (case vl_Hostname v of Inl _ \<Rightarrow> ''local'' | Inr h \<Rightarrow> if h = [] then ''local'' else h);
          h = (case str_Index h ''.'' of Some i \<Rightarrow> if i > 0 then take i h else h | None \<Rightarrow> h)
      in un @ ''@'' @ h)"

text \<open>The clock of the status bar, \<open>15:04:05\<close> in UTC.\<close>

definition clock_text :: "time \<Rightarrow> string" where
  "clock_text t =
     (let s = nat ((t div Second) mod 86400)
      in pad_nat 2 (s div 3600) @ '':'' @ pad_nat 2 (s div 60 mod 60) @ '':'' @ pad_nat 2 (s mod 60))"

text \<open>A field of an inspector: a dim name, the value and a line break.\<close>

definition field :: "'u ui \<Rightarrow> 'u model \<Rightarrow> string \<Rightarrow> string \<Rightarrow> string \<Rightarrow> string" where
  "field u m name style val = ''  '' @ tui_styled u m ''dim'' name @ tui_styled u m style val @ newline"

definition para :: "'u ui \<Rightarrow> 'u model \<Rightarrow> string \<Rightarrow> string \<Rightarrow> string" where
  "para u m style t = ''  '' @ tui_styled u m style t @ newline"

definition heading :: "'u ui \<Rightarrow> 'u model \<Rightarrow> string \<Rightarrow> string \<Rightarrow> string" where
  "heading u m title rest = '' '' @ tui_styled u m ''coral'' title @ '' '' @ tui_styled u m ''dim'' (mid_dot @ '' '' @ rest)"

definition row_at :: "'u ui \<Rightarrow> 'u model \<Rightarrow> int \<Rightarrow> int \<Rightarrow> nat \<times> string \<Rightarrow> string" where
  "row_at u m cursor w ir =
     (case ir of (i, row) \<Rightarrow> (if int i = cursor then tui_styled u m ''selStrong'' (padRight u row w) else tui_styled u m ''fg'' row) @ newline)"

section \<open>The tabs\<close>

definition dashboard_event :: "'u ui \<Rightarrow> 'u model \<Rightarrow> int \<Rightarrow> EventInfo \<Rightarrow> string" where
  "dashboard_event u m w e =
     ''  '' @ tui_styled u m ''dim'' (shortTime (ei_Timestamp e)) @ ''  '' @ tui_styled u m ''kraken'' (padRight u (truncateWidth u (ei_Source e) 14) 14) @ ''  '' @
     truncateWidth u (ei_Message e) (w - 30) @ newline"

definition renderDashboard :: "'u ui \<Rightarrow> 'u view_lib \<Rightarrow> 'u model \<Rightarrow> string" where
  "renderDashboard u v m =
     (let w = contentWidth m;
          top = '' '' @ tui_styled u m ''coral'' ''overview'' @ tui_styled u m ''dim'' ('' '' @ mid_dot @ '' '' @ mo_serverAddr m) @ newline @ newline
      in case mo_statusErr m of
           Some err \<Rightarrow> top @ para u m ''err'' (''connection error: '' @ error_text err) @ para u m ''dim'' ''server may be offline. press 'r' to retry.''
         | None \<Rightarrow>
             (case mo_status m of
                None \<Rightarrow> top @ (if mo_loading m then ''  '' @ ui_view u (mo_spinner m) @ '' connecting to server...'' @ newline
                  else para u m ''dim'' ''no status data available.'')
              | Some s \<Rightarrow>
                  (let big = (\<lambda>n caption. bigMetric u v m (formatCount n) [] caption);
                       sep = ''   '' @ tui_styled u m ''dim'' v_line @ ''   '';
                       dot = (\<lambda>ok name. dotIndicator u m (boolState ok) @ '' '' @ name);
                       limit = min 6 (length (mo_events m))
                   in top @ ''  '' @ vl_JoinHorizontal v [big (sv_ActiveSandboxes s) ''active sandboxes'', sep, big (sv_PendingMessages s) ''queued'', sep,
                          big (sv_ConnectedChannels s) ''channels'', sep, big (sv_ActiveTasks s) ''active tasks''] @ newline @ newline @
                      sectionRule u m w ''systems'' @ newline @ ''  '' @
                      Join [dot True ''grpc'', dot (mo_eventStream m \<noteq> None \<and> mo_eventsErr m = None) ''events'', dot (sv_MysqlConnected s) ''mysql'',
                            dot (sv_K8sConnected s) ''k8s''] ''    '' @ newline @ newline @
                      sectionRule u m w ''recent'' @ newline @
                      (if limit = 0 then para u m ''dim'' ''no events yet.'' else []) @
                      concat (map (dashboard_event u m w) (take limit (mo_events m))))))"

definition sandbox_cols :: "string \<Rightarrow> string \<Rightarrow> string \<Rightarrow> string \<Rightarrow> string \<Rightarrow> string" where
  "sandbox_cols a b c d e = ''  '' @ pad_verb 10 a @ '' '' @ pad_verb 18 b @ '' '' @ pad_verb 10 c @ '' '' @ pad_verb 10 d @ '' '' @ pad_verb 10 e"

definition sandbox_line :: "'u ui \<Rightarrow> SandboxInfo \<Rightarrow> string" where
  "sandbox_line u s = sandbox_cols (truncateWidth u (si_Name s) 10) (truncateWidth u (si_GroupFolder s) 18) (truncateWidth u (si_State s) 10)
     (truncateWidth u (shortTime (si_StartTime s)) 10) (truncateWidth u (si_SessionID s) 10)"

definition sandbox_inspector :: "'u ui \<Rightarrow> 'u model \<Rightarrow> SandboxInfo \<Rightarrow> string" where
  "sandbox_inspector u m s =
     field u m ''id        '' ''fg'' (si_Name s) @
     ''  '' @ tui_styled u m ''dim'' ''group     '' @ tui_styled u m ''fg'' (si_GroupFolder s) @ ''  '' @ tui_styled u m ''dim'' (si_GroupJID s) @ newline @
     field u m ''state     '' (stateStyle (si_State s)) (si_State s) @ field u m ''started   '' ''fg'' (si_StartTime s) @
     (if si_EndTime s \<noteq> [] then field u m ''ended     '' ''fg'' (si_EndTime s) else []) @ field u m ''session   '' ''fg'' (si_SessionID s)"

definition renderSandboxes :: "'u ui \<Rightarrow> 'u model \<Rightarrow> string option" where
  "renderSandboxes u m =
     (let w = contentWidth m; sbs = mo_sandboxes m; rule = sectionRule u m w [] @ newline;
          running = length (filter (\<lambda>s. ToLower (si_State s) = ''running'') sbs);
          top = heading u m ''sandboxes'' (show_nat running @ '' running '' @ mid_dot @ '' '' @ show_nat (length sbs - running) @ '' other'') @ newline @ newline
      in case mo_sandboxesErr m of
           Some err \<Rightarrow> Some (top @ para u m ''err'' (''error: '' @ error_text err))
         | None \<Rightarrow>
             if sbs = [] then Some (top @ rule @ para u m ''dim'' ''no sandboxes running.'')
             else
               (let table = rule @ tui_styled u m ''dim'' (sandbox_cols ''ID'' ''GROUP'' ''STATE'' ''STARTED'' ''SESSION'') @ newline @ rule @
                      concat (map (row_at u m (mo_sandboxCursor m) w) (enumerate 0 (map (sandbox_line u) sbs))) @ newline @ sectionRule u m w ''inspector'' @ newline
                in if mo_sandboxCursor m < int (length sbs)
                   then map_option (\<lambda>s. top @ table @ sandbox_inspector u m s) (index sbs (mo_sandboxCursor m))
                   else Some (top @ table)))"

definition renderSandboxDetail :: "'u ui \<Rightarrow> 'u model \<Rightarrow> string option" where
  "renderSandboxDetail u m =
     (let w = contentWidth m; sect = (\<lambda>t. sectionRule u m w t @ newline); none = (\<lambda>name. para u m ''dim'' (name @ em_dash))
      in map_option (\<lambda>name. '' '' @ tui_styled u m ''coral'' ''sandbox'' @ '' '' @ mid_dot @ '' '' @ tui_styled u m ''fg'' name @ newline @ newline @
           sect ''resources'' @ none ''cpu       '' @ none ''memory    '' @ none ''node      '' @ newline @
           sect ''ipc'' @ none ''inbound   '' @ none ''outbound  '' @ newline @ sect ''log tail'' @ none [] @ newline @
           para u m ''stubMessage'' ''needs GetSandboxDetail + StreamLogs RPCs on AdminService'')
         (if mo_sandboxCursor m < int (length (mo_sandboxes m)) then map_option si_Name (index (mo_sandboxes m) (mo_sandboxCursor m)) else Some ''(none)''))"

definition group_name :: "GroupInfo \<Rightarrow> string" where
  "group_name g = (if gi_Name g = [] then gi_Folder g else gi_Name g)"

definition group_line :: "'u ui \<Rightarrow> 'u model \<Rightarrow> int \<Rightarrow> nat \<times> GroupInfo \<Rightarrow> string" where
  "group_line u m listW ig =
     tui_styled u m (if int (fst ig) = mo_groupsCursor m then ''selStrong'' else ''fg'')
       (padRight u (''  '' @ truncateWidth u (group_name (snd ig)) (listW - 2)) listW) @ newline"

definition sandbox_of :: "'u model \<Rightarrow> string \<Rightarrow> SandboxInfo option" where
  "sandbox_of m jid = find (\<lambda>s. si_GroupJID s = jid) (mo_sandboxes m)"

definition group_detail :: "'u ui \<Rightarrow> 'u model \<Rightarrow> int \<Rightarrow> GroupInfo \<Rightarrow> string" where
  "group_detail u m detailW sel =
     sectionRule u m detailW ''identity'' @ newline @ field u m ''name     '' ''fg'' (group_name sel) @ field u m ''folder   '' ''fg'' (gi_Folder sel) @
     field u m ''jid      '' ''fg'' (gi_JID sel) @ (if gi_TriggerPattern sel \<noteq> [] then field u m ''trigger  '' ''fg'' (gi_TriggerPattern sel) else []) @
     field u m ''main     '' ''fg'' (yesNo (gi_IsMain sel)) @ newline @ sectionRule u m detailW ''active sandbox'' @ newline @
     (case sandbox_of m (gi_JID sel) of
        None \<Rightarrow> para u m ''dim'' ''none'' @ newline
      | Some sb \<Rightarrow> field u m ''id       '' ''fg'' (si_Name sb) @ field u m ''state    '' (stateStyle (si_State sb)) (si_State sb) @
          field u m ''started  '' ''fg'' (si_StartTime sb) @ newline)"

definition renderGroups :: "'u ui \<Rightarrow> 'u view_lib \<Rightarrow> 'u model \<Rightarrow> string option" where
  "renderGroups u v m =
     (let w = contentWidth m; top = heading u m ''groups'' (show_nat (length (mo_groups m)) @ '' registered'') @ newline @ newline
      in case mo_groupsErr m of
           Some err \<Rightarrow> Some (top @ para u m ''err'' (''error: '' @ error_text err))
         | None \<Rightarrow>
             if mo_groups m = [] then Some (top @ para u m ''dim'' ''no groups registered.'')
             else let listW = min 28 (sgn w * (\<bar>w\<bar> div 3))
               in map_option (\<lambda>sel. vl_JoinHorizontal v [concat (map (group_line u m listW) (enumerate 0 (mo_groups m))), ''  '', group_detail u m (w - listW - 2) sel])
                    (index (mo_groups m) (mo_groupsCursor m)))"

definition task_cols :: "string \<Rightarrow> string \<Rightarrow> string \<Rightarrow> string \<Rightarrow> string \<Rightarrow> string \<Rightarrow> string" where
  "task_cols a b c d e f = ''  '' @ pad_verb 10 a @ '' '' @ pad_verb 14 b @ '' '' @ pad_verb 8 c @ '' '' @ pad_verb 14 d @ '' '' @ pad_verb 8 e @ '' '' @ pad_verb 18 f"

definition task_line :: "'u ui \<Rightarrow> TaskInfo \<Rightarrow> string" where
  "task_line u t = task_cols (truncateWidth u (ti_ID t) 10) (truncateWidth u (ti_GroupFolder t) 14) (truncateWidth u (ti_ScheduleType t) 8)
     (truncateWidth u (ti_ScheduleValue t) 14) (truncateWidth u (ti_Status t) 8) (truncateWidth u (shortTime (ti_NextRun t)) 18)"

definition task_inspector :: "'u ui \<Rightarrow> 'u model \<Rightarrow> int \<Rightarrow> TaskInfo \<Rightarrow> string" where
  "task_inspector u m w t =
     field u m ''id       '' ''fg'' (ti_ID t) @ field u m ''group    '' ''fg'' (ti_GroupFolder t) @ field u m ''chat     '' ''fg'' (ti_ChatJID t) @
     field u m ''schedule '' ''fg'' (ti_ScheduleType t @ '' '' @ ti_ScheduleValue t) @ field u m ''next run '' ''fg'' (ti_NextRun t) @
     (if ti_Prompt t \<noteq> [] then field u m ''prompt   '' ''fg'' (truncateWidth u (ti_Prompt t) (w - 12)) else [])"

definition renderTasks :: "'u ui \<Rightarrow> 'u model \<Rightarrow> string option" where
  "renderTasks u m =
     (let w = contentWidth m; rule = sectionRule u m w [] @ newline; tasks = filteredTasks m;
          filterChip = (if mo_tasksFilterFolder m \<noteq> [] then mo_tasksFilterFolder m else ''all groups'');
          top = heading u m ''tasks'' (show_nat (length (mo_tasks m)) @ '' scheduled'') @ ''  '' @ tui_styled u m ''dim'' ''filter:'' @ '' '' @
            tui_styled u m ''coral'' filterChip @ newline @ newline
      in case mo_tasksErr m of
           Some err \<Rightarrow> Some (top @ para u m ''err'' (''error: '' @ error_text err))
         | None \<Rightarrow>
             (let top = top @ rule @ tui_styled u m ''dim'' (task_cols ''ID'' ''GROUP'' ''TYPE'' ''SCHEDULE'' ''STATUS'' ''NEXT RUN'') @ newline @ rule
              in if tasks = [] then Some (top @ para u m ''dim'' ''no tasks scheduled.'')
                 else
                   (let table = top @ concat (map (row_at u m (mo_tasksCursor m) w) (enumerate 0 (map (task_line u) tasks))) @ newline @
                          sectionRule u m w ''inspector'' @ newline
                    in if mo_tasksCursor m < int (length tasks)
                       then map_option (\<lambda>t. table @ task_inspector u m w t) (index tasks (mo_tasksCursor m))
                       else Some table)))"

definition event_style :: "string \<Rightarrow> string" where
  "event_style ty =
     (let typ = ToLower ty
      in if Contains typ ''error'' \<or> Contains typ ''fail'' then ''err''
         else if Contains typ ''warn'' then ''warn''
         else if Contains typ ''ok'' \<or> Contains typ ''ready'' then ''ok''
         else ''fg'')"

definition event_line :: "'u ui \<Rightarrow> 'u model \<Rightarrow> int \<Rightarrow> EventInfo \<Rightarrow> string" where
  "event_line u m w e =
     ''  '' @ tui_styled u m ''dim'' (shortTime (ei_Timestamp e)) @ ''  '' @ tui_styled u m ''kraken'' (padRight u (truncateWidth u (ei_Source e) 14) 14) @ ''  '' @
     tui_styled u m (event_style (ei_Type e)) (padRight u (truncateWidth u (ei_Type e) 12) 12) @ ''  '' @ truncateWidth u (ei_Message e) (w - 42) @ newline"

definition renderEvents :: "'u ui \<Rightarrow> 'u model \<Rightarrow> string" where
  "renderEvents u m =
     (let w = contentWidth m; top = heading u m ''events'' (show_nat (length (mo_events m)) @ '' buffered'') @ newline @ newline
      in case mo_eventsErr m of
           Some err \<Rightarrow> top @ para u m ''err'' (''stream error: '' @ error_text err) @ para u m ''dim'' ''waiting to reconnect...''
         | None \<Rightarrow> top @ sectionRule u m w [] @ newline @
             (if mo_events m = [] then para u m ''dim'' ''no events recorded yet.'' else concat (map (event_line u m w) (mo_events m))))"

definition renderChannels :: "'u ui \<Rightarrow> 'u model \<Rightarrow> string" where
  "renderChannels u m =
     (let w = contentWidth m
      in heading u m ''channels'' ''platform adapters'' @ newline @ newline @ sectionRule u m w ''adapters'' @ newline @
         para u m ''dim'' (pad_verb 12 ''NAME'' @ '' '' @ pad_verb 10 ''STATE'' @ '' '' @ pad_verb 10 ''LAG'' @ '' '' @ pad_verb 10 ''LAST SEEN'') @
         sectionRule u m w [] @ newline @ para u m ''dim'' em_dash @ newline @
         para u m ''stubMessage'' ''needs ListChannels RPC + heartbeat metrics on Channel interface'')"

definition renderConfig :: "'u ui \<Rightarrow> 'u model \<Rightarrow> string" where
  "renderConfig u m =
     heading u m ''config'' ''resolved environment'' @ newline @ newline @
     concat (map (\<lambda>sect. sectionRule u m (contentWidth m) sect @ newline @ para u m ''dim'' em_dash @ newline)
       [''core'', ''grpc'', ''nats'', ''mysql'', ''kubernetes'', ''credproxy'']) @
     para u m ''stubMessage'' ''needs GetConfig RPC returning redacted envconfig''"

section \<open>The messages tab\<close>

definition renderPickerRow :: "'u ui \<Rightarrow> 'u model \<Rightarrow> string \<Rightarrow> bool \<Rightarrow> int \<Rightarrow> string" where
  "renderPickerRow u m label selected width =
     (let raw = ''  '' @ label
      in (if selected then tui_styled u m ''selStrong'' (padRight u raw width) else tui_styled u m ''fg'' raw) @ newline)"

definition renderModelPicker :: "'u ui \<Rightarrow> 'u model \<Rightarrow> int \<Rightarrow> string" where
  "renderModelPicker u m width =
     (let p = mo_modelPicker m
      in sectionRule u m width ''model'' @ newline @
         (if mp_Loading p then ''  '' @ ui_view u (mo_spinner m) @ '' '' @ tui_styled u m ''dim'' ''loading models...'' @ newline else []) @
         (if mp_LastError p \<noteq> [] then para u m ''err'' (mp_LastError p) else []) @
         (if \<not> mp_Loading p \<and> mp_LastError p = [] \<and> mp_Options p = []
          then para u m ''err'' ''No models available'' @
            para u m ''dim'' (''Check your agent configuration or retry '' @ [CHR 0x60] @ ''/models'' @ [CHR 0x60] @ '' to load available models.'') else []) @
         concat (map (\<lambda>(i, opt). renderPickerRow u m (mp_Label opt @ (if mp_Current opt then '' (current)'' else [])) (int i = mp_Cursor p) width)
           (enumerate 0 (mp_Options p))) @
         para u m ''dim'' (return_sign @ '' apply '' @ mid_dot @ '' esc close''))"

definition renderComposerMeta :: "'u ui \<Rightarrow> 'u view_lib \<Rightarrow> 'u model \<Rightarrow> string \<Rightarrow> string" where
  "renderComposerMeta u v m groupName =
     (let limit = (if vl_CharLimit v (mo_chatInput m) \<le> 0 then 4000 else vl_CharLimit v (mo_chatInput m));
          used = length (ui_Value u (mo_chatInput m))
      in ''  '' @ tui_styled u m ''composerMeta''
           (groupName @ '' '' @ mid_dot @ '' markdown '' @ mid_dot @ '' '' @ show_nat used @ ''/'' @ show_int limit))"

definition auth_url_text :: "oauthState \<Rightarrow> string" where
  "auth_url_text s = ''Open this URL in a browser and enter the code:'' @ newline @ newline @ ''  '' @ oa_verificationURL s @ newline @ newline @
     ''  code: '' @ oa_userCode s @ newline @ newline"

definition no_browser_text :: "oauthState \<Rightarrow> string" where
  "no_browser_text s = (if oa_openURLErr s \<noteq> None then newline @ newline @ ''  (couldn't open browser '' @ em_dash @ '' copy the URL above)'' else [])"

definition renderOAuth :: "'u ui \<Rightarrow> 'u model \<Rightarrow> oauthState \<Rightarrow> string" where
  "renderOAuth u m s =
     (case oa_err s of
        Some err \<Rightarrow>
          (let failed = ''ChatGPT auth failed: '' @ error_text err @ newline @ newline
           in if oa_userCode s \<noteq> [] then tui_styled u m ''err'' (failed @ auth_url_text s @ ''Press Esc to return.'' @ no_browser_text s)
              else tui_styled u m ''err'' (failed @ ''Press Esc to return.''))
      | None \<Rightarrow>
          if oa_userCode s = [] then tui_styled u m ''dim'' (''starting OAuth'' @ ellipsis)
          else tui_styled u m ''fg'' (auth_url_text s @ ''  elapsed: '' @ show_int (oa_elapsed s) @ ''s '' @ em_dash @ '' waiting for approval'' @ ellipsis @ no_browser_text s))"

text \<open>The rows of the two creation pickers.\<close>

definition picker_rows :: "'u ui \<Rightarrow> 'u model \<Rightarrow> int \<Rightarrow> string \<Rightarrow> string \<Rightarrow> string" where
  "picker_rows u m w loading none =
     (if \<not> mo_creationProvidersLoaded m then ''  '' @ ui_view u (mo_spinner m) @ '' '' @ tui_styled u m ''dim'' loading @ newline
      else if cp_items (mo_creationPicker m) = [] then para u m ''err'' none @ para u m ''dim'' ''press esc to go back.''
      else concat (map (\<lambda>(i, it). renderPickerRow u m (cp_label it) (int i = cp_cursor (mo_creationPicker m)) w) (enumerate 0 (cp_items (mo_creationPicker m)))))"

definition chat_error :: "'u ui \<Rightarrow> 'u model \<Rightarrow> string \<Rightarrow> string" where
  "chat_error u m after = (case mo_chatErr m of None \<Rightarrow> [] | Some err \<Rightarrow> para u m ''err'' (''error: '' @ error_text err) @ after)"

definition chat_group_line :: "'u ui \<Rightarrow> 'u model \<Rightarrow> int \<Rightarrow> nat \<times> GroupInfo \<Rightarrow> string" where
  "chat_group_line u m w ig =
     (case ig of (i, g) \<Rightarrow>
        (let name = pad_verb 24 (truncateWidth u (group_name g) 24)
         in (if int i = mo_chatGroupCursor m then tui_styled u m ''selStrong'' (padRight u (''  '' @ name @ '' '' @ gi_JID g) w)
             else tui_styled u m ''fg'' (''  '' @ name @ '' '' @ tui_styled u m ''dim'' (gi_JID g))) @ newline))"

definition render_select_group :: "'u ui \<Rightarrow> 'u model \<Rightarrow> string" where
  "render_select_group u m =
     (let w = contentWidth m; top = heading u m ''messages'' ''select a group'' @ newline @ newline @ chat_error u m newline
      in if ui_Focused u (mo_chatRegInput m)
         then top @ sectionRule u m w ''new group'' @ newline @ ''  '' @ tui_styled u m ''composerPrompt'' (left_block @ '' '') @ ui_view u (mo_chatRegInput m) @ newline @ newline @
           para u m ''dim'' (return_sign @ '' create '' @ mid_dot @ '' esc cancel'')
         else top @ sectionRule u m w ''groups'' @ newline @
           (if mo_groups m = []
            then ''  '' @ tui_styled u m ''dim'' ''no groups yet. press '' @ tui_styled u m ''coral'' ''n'' @ tui_styled u m ''dim'' '' to create one.'' @ newline
            else concat (map (chat_group_line u m w) (enumerate 0 (mo_groups m)))))"

definition chat_header :: "'u ui \<Rightarrow> 'u model \<Rightarrow> GroupInfo \<Rightarrow> string" where
  "chat_header u m g =
     (let dot = tui_styled u m ''dim'' (mid_dot @ '' '');
          (sbxID, sbxState) = (case sandbox_of m (gi_JID g) of None \<Rightarrow> ([], []) | Some sb \<Rightarrow> (si_Name sb, si_State sb))
      in Join ([tui_styled u m ''groupHeader'' (''groups '' @ angle_quote), tui_styled u m ''fg'' (group_name g),
                tui_styled u m ''dim'' (mid_dot @ '' tui''), tui_styled u m ''dim'' (mid_dot @ '' '' @ coalesce (mo_chatModel m) ''default'')] @
               (if sbxID \<noteq> [] then [dot @ tui_styled u m ''coral'' sbxID] else []) @
               (if sbxState \<noteq> [] then [dot @ tui_styled u m (stateStyle sbxState) sbxState] else []) @
               (if mo_chatWaitingForAgent m then [dot @ tui_styled u m ''coral'' (''typing '' @ ui_view u (mo_spinner m))] else [])) '' '')"

definition renderChat :: "'u ui \<Rightarrow> 'u view_lib \<Rightarrow> 'u model \<Rightarrow> string option" where
  "renderChat u v m =
     (let w = contentWidth m
      in case mo_chatState m of
           SelectGroup \<Rightarrow> Some (render_select_group u m)
         | SelectProvider \<Rightarrow>
             Some (heading u m ''messages'' ''select provider'' @ newline @ newline @ field u m ''new group '' ''fg'' (Quote (mo_creationPendingGroupName m)) @ newline @
               chat_error u m newline @ sectionRule u m w ''providers'' @ newline @ picker_rows u m w ''loading providers...'' ''No providers are configured on this server.'')
         | SelectModel \<Rightarrow>
             Some (heading u m ''messages'' ''select model'' @ newline @ newline @ field u m ''provider '' ''fg'' (mo_creationSelectedProvider m) @ newline @
               chat_error u m newline @ sectionRule u m w ''models'' @ newline @ picker_rows u m w ''loading models...'' ''No models are configured for this provider.'')
         | OAuth \<Rightarrow> Some (sectionRule u m w ''chatgpt oauth'' @ newline @ renderOAuth u m (mo_oauth m) @ newline @ ''  '' @ tui_styled u m ''dim'' ''Esc: cancel'')
         | Connecting \<Rightarrow>
             Some (heading u m ''messages'' ''connecting'' @ newline @ newline @ ''  '' @ ui_view u (mo_spinner m) @ '' '' @ tui_styled u m ''dim'' ''connecting to '' @
               tui_styled u m ''fg'' (case mo_chatGroup m of None \<Rightarrow> [] | Some g \<Rightarrow> group_name g) @ tui_styled u m ''dim'' ''...'' @ newline)
         | Chatting \<Rightarrow>
             map_option (\<lambda>g. chat_header u m g @ newline @ chat_error u m [] @ ui_view u (mo_chatViewport m) @
                 (if mp_Open (mo_modelPicker m) then newline @ renderModelPicker u m w else []) @ newline @
                 renderInputBox u v m (ui_view u (mo_chatInput m)) (mo_width m) @ newline @ renderComposerMeta u v m (group_name g))
               (mo_chatGroup m))"

section \<open>The screen\<close>

definition renderTabBarWithLabels :: "'u ui \<Rightarrow> 'u view_lib \<Rightarrow> 'u model \<Rightarrow> string list \<Rightarrow> string" where
  "renderTabBarWithLabels u v m labels =
     vl_JoinHorizontal v (map (\<lambda>(i, t).
       (let num = ''['' @ show_nat (i + 1) @ '']''
        in if int i = mo_activeTab m then tui_styled u m ''activeTabNum'' num @ tui_styled u m ''activeTab'' t
           else tui_styled u m ''inactiveTabNum'' num @ tui_styled u m ''inactiveTab'' t)) (enumerate 0 labels))"

definition renderTabBar :: "'u ui \<Rightarrow> 'u view_lib \<Rightarrow> 'u model \<Rightarrow> string" where
  "renderTabBar u v m =
     (let full = renderTabBarWithLabels u v m (mo_tabs m);
          compact = renderTabBarWithLabels u v m [''dash'', ''sbx'', ''grp'', ''tsk'', ''evt'', ''msg'', ''chn'', ''cfg'']
      in if mo_width m \<le> 0 \<or> ui_cells u full \<le> mo_width m then full
         else if ui_cells u compact > mo_width m then vl_MaxWidth v (mo_width m) compact
         else compact)"

definition renderContent :: "'u ui \<Rightarrow> 'u view_lib \<Rightarrow> 'u model \<Rightarrow> string option" where
  "renderContent u v m =
     (if mo_activeTab m = tabDashboard then Some (renderDashboard u v m)
      else if mo_activeTab m = tabSandboxes then (if mo_sandboxDetailOpen m then renderSandboxDetail u m else renderSandboxes u m)
      else if mo_activeTab m = tabGroups then renderGroups u v m
      else if mo_activeTab m = tabTasks then renderTasks u m
      else if mo_activeTab m = tabEvents then Some (renderEvents u m)
      else if mo_activeTab m = tabMessages then renderChat u v m
      else if mo_activeTab m = tabChannels then Some (renderChannels u m)
      else if mo_activeTab m = tabConfig then Some (renderConfig u m)
      else Some [])"

definition messagesKeyHints :: "'u model \<Rightarrow> (string \<times> string) list" where
  "messagesKeyHints m =
     (let enter = ''['' @ return_sign @ '']'' in case mo_chatState m of
        Chatting \<Rightarrow> [(enter, ''send''), (''[^m]'', ''model''), (''[esc]'', ''back''), (''[^t]'', ''theme''), (''[^c]'', ''quit'')]
      | SelectGroup \<Rightarrow> [(enter, ''select''), (''[n]'', ''new''), (''[j/k]'', ''nav''), (''[^t]'', ''theme''), (''[q]'', ''quit'')]
      | _ \<Rightarrow> [(enter, ''ok''), (''[esc]'', ''back''), (''[^t]'', ''theme''), (''[^c]'', ''quit'')])"

definition keyHints :: "'u model \<Rightarrow> (string \<times> string) list" where
  "keyHints m =
     (let enter = ''['' @ return_sign @ '']''; tail = [(''[r]'', ''refresh''), (''[^t]'', ''theme''), (''[q]'', ''quit'')]
      in if mo_activeTab m = tabDashboard then (''[1-8]'', ''switch'') # tail
         else if mo_activeTab m = tabSandboxes then
           (if mo_sandboxDetailOpen m then [(''[esc]'', ''back''), (''[r]'', ''refresh''), (''[q]'', ''quit'')]
            else [(enter, ''detail''), (''[j/k]'', ''nav'')] @ tail)
         else if mo_activeTab m = tabGroups then (''[j/k]'', ''nav'') # tail
         else if mo_activeTab m = tabTasks then [(''[j/k]'', ''nav''), (''[g]'', ''filter'')] @ tail
         else if mo_activeTab m = tabEvents then tail
         else if mo_activeTab m = tabMessages then messagesKeyHints m
         else if mo_activeTab m = tabChannels \<or> mo_activeTab m = tabConfig then [(''[1-8]'', ''switch''), (''[^t]'', ''theme''), (''[q]'', ''quit'')]
         else [])"

definition renderKeyBar :: "'u ui \<Rightarrow> 'u model \<Rightarrow> string" where
  "renderKeyBar u m = keyBar u m (keyHints m) (mo_width m)"

definition renderStatusBar :: "'u ui \<Rightarrow> 'u view_lib \<Rightarrow> 'u model \<Rightarrow> string" where
  "renderStatusBar u v m =
     statusLine u v m
       [tui_styled u m ''coralBold'' ''kraclaw'' @ '' ctl'', ''grpc://'' @ mo_serverAddr m,
        (if mo_useTLS m then tui_styled u m ''ok'' (bullet @ '' TLS'') else tui_styled u m ''dim'' (bullet @ '' insecure'')),
        userAtHost v, ''UTC '' @ clock_text (mo_now m), ''theme:'' @ mo_theme m] (mo_width m)"

definition newlines :: "string \<Rightarrow> nat" where
  "newlines s = length (filter (\<lambda>c. c = CHR 0x0A) s)"

text \<open>The part of the screen above the key bar.\<close>

definition upper_part :: "'u ui \<Rightarrow> 'u view_lib \<Rightarrow> 'u model \<Rightarrow> string \<Rightarrow> string" where
  "upper_part u v m rendered =
     (let contentHeight = max 3 (mo_height m - 4);
          top = renderTabBar u v m @ newline @ newline @ Join (take (nat contentHeight) (Split rendered (CHR 0x0A))) newline
      in top @ concat (replicate (nat (mo_height m - 2 - int (newlines top + 1))) newline))"

definition View :: "'u ui \<Rightarrow> 'u view_lib \<Rightarrow> 'u model \<Rightarrow> string option" where
  "View u v m =
     (if mo_width m = 0 then Some ''loading...''
      else map_option (\<lambda>rendered. upper_part u v m rendered @ renderKeyBar u m @ newline @ renderStatusBar u v m) (renderContent u v m))"

section \<open>Drawing does not panic\<close>

lemma in_list_bound: "in_list c xs \<Longrightarrow> xs \<noteq> [] \<Longrightarrow> c < int (length xs)"
  by (auto simp: in_list_def)

lemma index_None: "index xs c = None \<longleftrightarrow> \<not> (0 \<le> c \<and> c < int (length xs))"
  by (simp add: index_def)

lemma client_ok_cursors:
  assumes "client_ok m"
  shows "mo_sandboxCursor m < int (length (mo_sandboxes m)) \<Longrightarrow> \<exists>x. index (mo_sandboxes m) (mo_sandboxCursor m) = Some x"
    and "mo_groups m \<noteq> [] \<Longrightarrow> \<exists>x. index (mo_groups m) (mo_groupsCursor m) = Some x"
    and "mo_tasksCursor m < int (length (filteredTasks m)) \<Longrightarrow> \<exists>x. index (filteredTasks m) (mo_tasksCursor m) = Some x"
  using assms by (auto simp: client_ok_def lists_ok_def filteredTasks_eq in_list_def index_def)

lemma renderContent_None:
  assumes "client_ok m"
  shows "renderContent u v m = None \<longleftrightarrow> mo_activeTab m = tabMessages \<and> chat_without_group m"
proof -
  have "renderSandboxDetail u m \<noteq> None" "renderSandboxes u m \<noteq> None" "renderGroups u v m \<noteq> None" "renderTasks u m \<noteq> None"
    using client_ok_cursors [OF assms]
    by (auto simp: renderSandboxDetail_def renderSandboxes_def renderGroups_def renderTasks_def Let_def split: option.split)
  moreover have "renderChat u v m = None \<longleftrightarrow> chat_without_group m"
    by (auto simp: renderChat_def chat_without_group_def Let_def split: chatState.split)
  ultimately show ?thesis
    by (simp add: renderContent_def tab_defs)
qed

text \<open>
  Drawing never fails in a reachable state of the client, with one exception: once the
  terminal has told its size, the screen cannot be drawn when the messages tab shows a chat that
  has no group.
\<close>

theorem view_panics_only_without_group:
  assumes "client_reachable u (m, p)"
  shows "View u v m = None \<longleftrightarrow> mo_width m \<noteq> 0 \<and> mo_activeTab m = tabMessages \<and> chat_without_group m"
  using renderContent_None [of m u v] reachable_ok [OF assms] by (simp add: View_def)

section \<open>The lines of the screen\<close>

definition one_line :: "string \<Rightarrow> bool" where
  "one_line s \<longleftrightarrow> CHR 0x0A \<notin> set s"

lemma one_line_simps [simp]: "one_line []" "one_line (s @ t) \<longleftrightarrow> one_line s \<and> one_line t" "one_line (c # s) \<longleftrightarrow> c \<noteq> CHR 0x0A \<and> one_line s"
    "one_line (replicate n c) \<longleftrightarrow> n = 0 \<or> c \<noteq> CHR 0x0A"
  by (auto simp: one_line_def)

lemma one_line_Join: "list_all one_line (sep # xs) \<Longrightarrow> one_line (Join xs sep)"
  by (induction xs sep rule: Join.induct) simp_all

lemma newlines_append [simp]: "newlines (s @ t) = newlines s + newlines t"
  by (simp add: newlines_def)

lemma newlines_one_line: "one_line s \<Longrightarrow> newlines s = 0"
  by (auto simp: newlines_def one_line_def filter_empty_conv)

lemma newlines_newline [simp]: "newlines newline = 1"
  by (simp add: newlines_def newline_def)

lemma newlines_Join: "list_all one_line xs \<Longrightarrow> newlines (Join xs newline) = length xs - 1"
  by (induction xs newline rule: Join.induct) (simp_all add: newlines_one_line)

lemma Split_one_line: "list_all one_line (Split s (CHR 0x0A))"
  by (induction s "CHR 0x0A" rule: Split.induct) (auto simp: one_line_def split: list.splits)

lemma Split_Join: "xs \<noteq> [] \<Longrightarrow> list_all one_line xs \<Longrightarrow> Split (Join xs newline) (CHR 0x0A) = xs"
  by (induction xs newline rule: Join.induct) (simp_all add: Split_no_sep Split_Cons_sep one_line_def newline_def)

lemma Join_snoc: "Join (xs @ [x]) sep @ y = Join (xs @ [x @ y]) sep"
  by (induction xs sep rule: Join.induct) (auto simp: neq_Nil_conv)

lemma Join_last_two: "Join (xs @ [x @ y @ sep @ z]) sep = Join (xs @ [x @ y, z]) sep"
  by (induction xs sep rule: Join.induct) (auto simp: neq_Nil_conv)

lemma Join_blank: "xs \<noteq> [] \<Longrightarrow> Join xs newline @ concat (replicate j newline) = Join (xs @ replicate j []) newline"
proof (induction j)
  case (Suc j)
  have "Join ys newline @ newline = Join (ys @ [[]]) newline" if "ys \<noteq> []" for ys
    using that by (induction ys newline rule: Join.induct) auto
  from this [of "xs @ replicate j []"] Suc show ?case
    by (simp add: replicate_append_same [symmetric] flip: append_assoc)
qed simp

text \<open>What the drawing relies on: the libraries do not break a line, and neither the address nor the names of user and host have line breaks.\<close>

definition keeps_lines :: "'u ui \<Rightarrow> 'u view_lib \<Rightarrow> bool" where
  "keeps_lines u v \<longleftrightarrow> (\<forall>th st t. one_line t \<longrightarrow> one_line (ui_style u th st t)) \<and>
     (\<forall>xs. list_all one_line xs \<longrightarrow> one_line (vl_JoinHorizontal v xs)) \<and> (\<forall>w t. one_line t \<longrightarrow> one_line (vl_MaxWidth v w t))"

definition plain_names :: "'u view_lib \<Rightarrow> 'u model \<Rightarrow> bool" where
  "plain_names v m \<longleftrightarrow> one_line (mo_serverAddr m) \<and> one_line (userAtHost v)"

lemma keeps_lines_styled: "keeps_lines u v \<Longrightarrow> one_line t \<Longrightarrow> one_line (tui_styled u m st t)"
  by (simp add: keeps_lines_def tui_styled_def)

lemma one_line_show_nat [simp]: "one_line (show_nat n)" "one_line (pad_nat w n)"
  using show_nat_digits pad_nat_digits by (force simp: one_line_def is_digit_def)+

lemma one_line_chars [simp]: "one_line mid_dot" "one_line return_sign" "one_line v_line" "one_line bullet"
  by (simp_all add: mid_dot_def return_sign_def v_line_def bullet_def)

lemma tab_bar_line:
  assumes "keeps_lines u v" and "client_ok m"
  shows "one_line (renderTabBar u v m)"
proof -
  have "one_line (renderTabBarWithLabels u v m labels)" if "list_all one_line labels" for labels
  proof -
    have "list_all one_line (map (\<lambda>(i, t). (let num = ''['' @ show_nat (i + 1) @ '']''
        in if int i = mo_activeTab m then tui_styled u m ''activeTabNum'' num @ tui_styled u m ''activeTab'' t
           else tui_styled u m ''inactiveTabNum'' num @ tui_styled u m ''inactiveTab'' t)) (enumerate n labels))" for n
      using that by (induction labels arbitrary: n) (simp_all add: keeps_lines_styled [OF assms(1)] Let_def)
    then show ?thesis
      using assms(1) by (simp add: renderTabBarWithLabels_def keeps_lines_def)
  qed
  from this [of tabLabels] this [of "[''dash'', ''sbx'', ''grp'', ''tsk'', ''evt'', ''msg'', ''chn'', ''cfg'']"] show ?thesis
    using assms by (simp add: renderTabBar_def keeps_lines_def client_ok_def lists_ok_def Let_def tabLabels_def)
qed

lemma key_bar_line:
  assumes "keeps_lines u v"
  shows "one_line (renderKeyBar u m)"
proof -
  have "list_all (\<lambda>(k, l). one_line k \<and> one_line l) (keyHints m)"
    by (simp add: keyHints_def messagesKeyHints_def Let_def split: chatState.split)
  then have "list_all one_line (map (\<lambda>(k, l). tui_styled u m ''keyHintKey'' k @ '' '' @ tui_styled u m ''keyHintLabel'' l) (keyHints m))"
    by (auto simp: list_all_iff keeps_lines_styled [OF assms])
  then have "one_line (Join (map (\<lambda>(k, l). tui_styled u m ''keyHintKey'' k @ '' '' @ tui_styled u m ''keyHintLabel'' l) (keyHints m)) ''  '')"
    by (intro one_line_Join) simp
  then show ?thesis
    by (simp add: renderKeyBar_def keyBar_def Let_def)
qed

lemma status_bar_line:
  assumes "keeps_lines u v" and "plain_names v m" and "client_ok m"
  shows "one_line (renderStatusBar u v m)"
proof -
  have "one_line (mo_theme m)"
    using assms(3) by (auto simp: client_ok_def chat_ok_def)
  then have "one_line (statusLine u v m cells w)" if "list_all one_line cells" for cells w
    using that assms(1) one_line_Join [of "tui_styled u m ''statusLineSep'' v_line" "map (\<lambda>c. tui_styled u m ''statusLine'' ('' '' @ c @ '' '')) cells"]
    by (auto simp: statusLine_def Let_def list_all_iff keeps_lines_styled [OF assms(1)]) (simp add: keeps_lines_def)
  then show ?thesis
    unfolding renderStatusBar_def using assms \<open>one_line (mo_theme m)\<close> by (simp add: plain_names_def clock_text_def keeps_lines_styled [OF assms(1)] Let_def)
qed

text \<open>The lines above the status bar, before the key bar is added to the last of them.\<close>

definition upper_lines :: "'u ui \<Rightarrow> 'u view_lib \<Rightarrow> 'u model \<Rightarrow> string \<Rightarrow> string list" where
  "upper_lines u v m rendered =
     (let k = nat (mo_height m - 4); shown = take k (Split rendered (CHR 0x0A))
      in [renderTabBar u v m, []] @ shown @ replicate (k - length shown) [])"

lemma upper_part_lines:
  assumes "keeps_lines u v" and "client_ok m" and "7 \<le> mo_height m"
  shows "upper_part u v m rendered = Join (upper_lines u v m rendered) newline" and "list_all one_line (upper_lines u v m rendered)"
    and "length (upper_lines u v m rendered) = nat (mo_height m - 2)"
proof -
  let ?k = "nat (mo_height m - 4)"
  let ?shown = "take ?k (Split rendered (CHR 0x0A))"
  have lines: "list_all one_line ([renderTabBar u v m, []] @ ?shown)"
    using tab_bar_line [OF assms(1,2)] Split_one_line [of rendered] by (auto simp: list_all_iff dest: in_set_takeD)
  have join: "renderTabBar u v m @ newline @ newline @ Join ?shown newline = Join ([renderTabBar u v m, []] @ ?shown) newline"
    using assms(3) by (cases ?shown) auto
  have k: "nat (max 3 (mo_height m - 4)) = ?k"
    using assms(3) by simp
  have pad: "nat (mo_height m - 2 - int (newlines (Join ([renderTabBar u v m, []] @ ?shown) newline) + 1)) = ?k - length ?shown"
    unfolding newlines_Join [OF lines] using assms(3) by simp
  show "upper_part u v m rendered = Join (upper_lines u v m rendered) newline"
    unfolding upper_part_def upper_lines_def Let_def k join pad by (subst Join_blank) simp_all
  show "list_all one_line (upper_lines u v m rendered)"
    using lines by (simp add: upper_lines_def Let_def) (simp add: list_all_iff)
  show "length (upper_lines u v m rendered) = nat (mo_height m - 2)"
    using assms(3) by (simp add: upper_lines_def Let_def)
qed

text \<open>
  The layout of the screen. On a terminal with at least seven rows the client draws exactly
  one row less than the terminal has, so that nothing scrolls: the tab bar, an empty row, the
  first rows of the content, and the status bar in the last row. The key bar is in the row
  above it; when the content is as long as the space for it, that row is the last row of the
  content with the key bar behind it.
\<close>

theorem view_layout:
  assumes "client_reachable u (m, p)" and "keeps_lines u v" and "plain_names v m" and "7 \<le> mo_height m" and "mo_width m \<noteq> 0"
    and "renderContent u v m = Some rendered"
  shows "\<exists>ls. map_option (\<lambda>s. Split s (CHR 0x0A)) (View u v m) = Some ls \<and> int (length ls) = mo_height m - 1 \<and>
    ls ! 0 = renderTabBar u v m \<and> ls ! 1 = [] \<and> last ls = renderStatusBar u v m \<and>
    (\<forall>i < length (Split rendered (CHR 0x0A)). int i < mo_height m - 5 \<longrightarrow> ls ! (i + 2) = Split rendered (CHR 0x0A) ! i) \<and>
    ls ! nat (mo_height m - 3) = (if mo_height m - 4 \<le> int (length (Split rendered (CHR 0x0A)))
      then Split rendered (CHR 0x0A) ! nat (mo_height m - 5) else []) @ renderKeyBar u m"
proof -
  let ?R = "Split rendered (CHR 0x0A)" and ?k = "nat (mo_height m - 4)"
  have ok: "client_ok m"
    using reachable_ok [OF assms(1)] by simp
  let ?U = "upper_lines u v m rendered"
  let ?ls = "butlast ?U @ [last ?U @ renderKeyBar u m, renderStatusBar u v m]"
  note up = upper_part_lines [OF assms(2) ok assms(4), of rendered]
  have ne: "?U \<noteq> []"
    by (simp add: upper_lines_def Let_def)
  have lines: "list_all one_line ?ls"
    using up(2) ne key_bar_line [OF assms(2)] status_bar_line [OF assms(2,3) ok] by (auto simp: list_all_iff dest: in_set_butlastD)
  have "upper_part u v m rendered @ renderKeyBar u m @ newline @ renderStatusBar u v m = Join ?ls newline"
    using Join_snoc [of "butlast ?U" "last ?U" newline "renderKeyBar u m @ newline @ renderStatusBar u v m"] ne
    by (simp add: up(1) Join_last_two)
  then have view: "map_option (\<lambda>s. Split s (CHR 0x0A)) (View u v m) = Some ?ls"
    using assms(5,6) Split_Join [OF _ lines] by (simp add: View_def)
  obtain n where n: "mo_height m = int n + 7"
    using assms(4) zle_iff_zadd by (metis add.commute)
  then have nats: "nat (mo_height m - 2) = n + 5" "nat (mo_height m - 3) = n + 4" "nat (mo_height m - 4) = n + 3" "nat (mo_height m - 5) = n + 2"
    by simp_all
  have len: "length ?U = n + 5"
    using up(3) by (simp add: nats)
  have U: "?ls ! i = ?U ! i" if "i < n + 4" for i
    using that len by (simp add: nth_append nth_butlast)
  have "?ls ! 0 = renderTabBar u v m" "?ls ! 1 = []"
    using U [of 0] U [of 1] by (simp_all add: upper_lines_def Let_def)
  moreover have "?ls ! (i + 2) = ?R ! i" if "i < length ?R" "int i < mo_height m - 5" for i
  proof -
    have "i < n + 2"
      using that(2) n by simp
    then have "?U ! (i + 2) = ?R ! i"
      using that(1) by (simp add: upper_lines_def Let_def nats nth_append)
    then show ?thesis
      using U [of "i + 2"] \<open>i < n + 2\<close> by simp
  qed
  moreover have "?ls ! (n + 4) = (if mo_height m - 4 \<le> int (length ?R) then ?R ! (n + 2) else []) @ renderKeyBar u m"
  proof -
    have "last ?U = ?U ! (n + 4)"
      using len ne by (simp add: last_conv_nth add.commute)
    also have "\<dots> = (if n + 3 \<le> length ?R then ?R ! (n + 2) else [])"
      by (auto simp: upper_lines_def Let_def nats nth_append nth_Cons')
    also have "n + 3 \<le> length ?R \<longleftrightarrow> mo_height m - 4 \<le> int (length ?R)"
      using n by arith
    finally show ?thesis
      using len by (simp add: nth_append)
  qed
  moreover have "int (length ?ls) = mo_height m - 1" "last ?ls = renderStatusBar u v m"
    using len n by simp_all
  ultimately show ?thesis
    unfolding nats using view by (intro exI [of _ ?ls] conjI allI impI) iprover+
qed

definition demo_view :: "(string \<times> bool) view_lib" where
  "demo_view = \<lparr>vl_JoinHorizontal = concat, vl_JoinVertical = (\<lambda>xs. Join xs newline), vl_MaxWidth = (\<lambda>w s. take (nat w) s), vl_Box = (\<lambda>_ s. s),
     vl_CharLimit = (\<lambda>_. 4096), vl_Username = Inr ''me'', vl_Hostname = Inr ''host''\<rparr>"

lemma demo_keeps_lines: "keeps_lines demo_ui demo_view"
  by (auto simp: keeps_lines_def demo_ui_def demo_view_def one_line_def list_all_iff dest: in_set_takeD)

text \<open>The first screen after the terminal has told its size, and the one of the abandoned sign-in.\<close>

definition sized_run :: "client_event list" where
  "sized_run = [UserInput (WindowSize 60 7)]"

theorem view_layout_witness:
  "\<exists>m p ls. client_reachable demo_ui (m, p) \<and> mo_height m = 7 \<and> map_option (\<lambda>s. Split s (CHR 0x0A)) (View demo_ui demo_view m) = Some ls \<and> length ls = 6"
proof -
  have "run_shows sized_run (\<lambda>m p. mo_height m = 7 \<and> mo_width m = 60 \<and> mo_chatState m = SelectGroup \<and> mo_serverAddr m = ''localhost:50051'')"
    "list_all event_ok sized_run"
    by code_simp (simp add: sized_run_def event_simps)
  from run_shows_reachable [OF this] obtain m p where m: "client_reachable demo_ui (m, p)" "mo_height m = 7" "mo_width m = 60" "mo_chatState m = SelectGroup"
    "mo_serverAddr m = ''localhost:50051''"
    by blast
  have "renderContent demo_ui demo_view m \<noteq> None"
    using renderContent_None [of m demo_ui demo_view] reachable_ok [OF m(1)] m(4) by (simp add: chat_without_group_def)
  then obtain rendered where r: "renderContent demo_ui demo_view m = Some rendered"
    by blast
  have names: "plain_names demo_view m"
    using m(5) by (simp add: plain_names_def userAtHost_def demo_view_def)
  from view_layout [OF m(1) demo_keeps_lines names _ _ r] m(2,3) obtain ls where
    "map_option (\<lambda>s. Split s (CHR 0x0A)) (View demo_ui demo_view m) = Some ls" "int (length ls) = 6"
    by auto
  with m(1,2) show ?thesis
    by (intro exI conjI) auto
qed

theorem view_panics_only_without_group_witness:
  "\<exists>m p. client_reachable demo_ui (m, p) \<and> View demo_ui demo_view m = None"
proof -
  have "run_shows (UserInput (WindowSize 80 24) # abandoned_run) (\<lambda>m p. mo_width m \<noteq> 0 \<and> mo_activeTab m = tabMessages \<and> chat_without_group m)"
    "list_all event_ok (UserInput (WindowSize 80 24) # abandoned_run)"
    by code_simp (simp add: abandoned_run_def event_simps)
  from run_shows_reachable [OF this] obtain m p where "client_reachable demo_ui (m, p)" "mo_width m \<noteq> 0" "mo_activeTab m = tabMessages" "chat_without_group m"
    by blast
  with view_panics_only_without_group [OF this(1)] show ?thesis
    by blast
qed

section \<open>Columns\<close>

text \<open>
  When every rune is one cell wide, a truncated text fits its column. A rune may be two cells
  wide; then the text can be wider than the column, because the runes are counted and not
  their cells.
\<close>

definition narrow :: "'u ui \<Rightarrow> bool" where
  "narrow u \<longleftrightarrow> (\<forall>s. ui_cells u s = int (length (runes s)))"

text \<open>
  The columns of the tables line up: with one-cell runes a text that is truncated and padded to
  a width has exactly that width, and a text that was cut starts like the original and ends
  in an ellipsis.
\<close>

theorem columns_line_up:
  assumes "narrow u" and "0 < n"
  shows "ui_cells u (padRight u (truncateWidth u s n) n) = n \<and>
    (truncateWidth u s n = s \<or> (\<exists>k. truncateWidth u s n = concat (take k (runes s)) @ ellipsis))"
proof -
  have dots: "length (runes ellipsis) = 1"
    by code_simp
  have fits: "ui_cells u (truncateWidth u s n) \<le> n"
    using assms dots by (auto simp: narrow_def truncateWidth_def runes_prefix)
  then have "ui_cells u (padRight u (truncateWidth u s n) n) = n"
    using assms(1) by (simp add: padRight_def narrow_def runes_spaces)
  moreover have "truncateWidth u s n = s \<or> (\<exists>k. truncateWidth u s n = concat (take k (runes s)) @ ellipsis)"
    using assms(2) by (auto simp: truncateWidth_def intro: exI [of _ 0])
  ultimately show ?thesis
    by simp
qed

text \<open>With a character that takes two cells the truncated text is wider than its column.\<close>

definition wide_ui :: "(string \<times> bool) ui" where
  "wide_ui = demo_ui\<lparr>ui_cells := (\<lambda>s. int (sum_list (map (\<lambda>r. if HasPrefix r [CHR 0xE4] then 2 else 1) (runes s))))\<rparr>"

theorem wide_text_overflows:
  "\<exists>s. valid_utf8 s \<and> ui_cells wide_ui (truncateWidth wide_ui s 4) = 7"
  by (rule exI [of _ "concat (replicate 4 [CHR 0xE4, CHR 0xB8, CHR 0xAD])"]) code_simp

end
