(* ===== verification/Tui_Theme.thy ===== *)
theory Tui_Theme
  imports Tui_Client_Props
begin

text \<open>
  \<open>theme.go\<close> and \<open>openurl.go\<close> of the terminal client: the two palettes, the styles built from the
  active one, the configuration file that keeps the choice, and the command that opens a
  browser. The file system is a map from paths to contents; whether a call fails is part of
  the environment, as are the JSON functions.
\<close>

section \<open>Palettes and styles\<close>

record Palette =
  pl_Name :: string
  pl_Bg :: string
  pl_BgPanel :: string
  pl_Fg :: string
  pl_FgDim :: string
  pl_Muted :: string
  pl_MutedSoft :: string
  pl_Kraken :: string
  pl_KrakenLight :: string
  pl_Coral :: string
  pl_CoralDim :: string
  pl_Ok :: string
  pl_Warn :: string
  pl_Err :: string
  pl_SelBg :: string
  pl_SelStrongBg :: string
  pl_SelStrongFg :: string
  pl_InverseBg :: string
  pl_InverseFg :: string

definition paletteDark :: Palette where
  "paletteDark =
     \<lparr>pl_Name = ''dark'', pl_Bg = ''#0B1220'', pl_BgPanel = ''#111A2E'', pl_Fg = ''#E8EDF5'', pl_FgDim = ''#A8B3C7'', pl_Muted = ''#6B7A99'',
      pl_MutedSoft = ''#8B9BB8'', pl_Kraken = ''#2F4A7A'', pl_KrakenLight = ''#89B0D9'', pl_Coral = ''#E8704A'', pl_CoralDim = ''#B8543A'',
      pl_Ok = ''#7FB685'', pl_Warn = ''#E8B84A'', pl_Err = ''#E06C5C'', pl_SelBg = ''#3A2218'', pl_SelStrongBg = ''#E8704A'',
      pl_SelStrongFg = ''#0B1220'', pl_InverseBg = ''#111A2E'', pl_InverseFg = ''#E8EDF5''\<rparr>"

definition paletteLight :: Palette where
  "paletteLight =
     \<lparr>pl_Name = ''light'', pl_Bg = ''#EAF1F8'', pl_BgPanel = ''#D7E3F0'', pl_Fg = ''#1F3558'', pl_FgDim = ''#3B527A'', pl_Muted = ''#7B8DA8'',
      pl_MutedSoft = ''#5A6F8E'', pl_Kraken = ''#2F4A7A'', pl_KrakenLight = ''#4A6FA5'', pl_Coral = ''#B8543A'', pl_CoralDim = ''#B8543A'',
      pl_Ok = ''#4E8E5A'', pl_Warn = ''#B48A2E'', pl_Err = ''#B94234'', pl_SelBg = ''#DCE5F0'', pl_SelStrongBg = ''#2F4A7A'',
      pl_SelStrongFg = ''#EAF1F8'', pl_InverseBg = ''#1F3558'', pl_InverseFg = ''#EAF1F8''\<rparr>"

text \<open>The palette that \<open>applyThemeName\<close> makes the active one; its name is what the model keeps.\<close>

definition palette_named :: "string \<Rightarrow> Palette" where
  "palette_named name = (if name = ''light'' then paletteLight else paletteDark)"

record Style =
  sy_Bold :: bool
  sy_Foreground :: "string option"
  sy_Background :: "string option"
  sy_PaddingH :: nat

definition NewStyle :: Style where
  "NewStyle = \<lparr>sy_Bold = False, sy_Foreground = None, sy_Background = None, sy_PaddingH = 0\<rparr>"

definition coloured :: "string \<Rightarrow> Style" where
  "coloured c = NewStyle\<lparr>sy_Foreground := Some c\<rparr>"

definition on_panel :: "string \<Rightarrow> string \<Rightarrow> Style" where
  "on_panel fg bg = (coloured fg)\<lparr>sy_Background := Some bg\<rparr>"

definition bold :: "Style \<Rightarrow> Style" where
  "bold s = s\<lparr>sy_Bold := True\<rparr>"

definition rebuildStyles :: "Palette \<Rightarrow> (string \<times> Style) list" where
  "rebuildStyles p =
     [(''activeTab'', (bold (on_panel (pl_Fg p) (pl_BgPanel p)))\<lparr>sy_PaddingH := 2\<rparr>), (''inactiveTab'', (coloured (pl_FgDim p))\<lparr>sy_PaddingH := 2\<rparr>),
      (''activeTabNum'', bold (on_panel (pl_Coral p) (pl_BgPanel p))), (''inactiveTabNum'', coloured (pl_Coral p)),
      (''sectionRule'', coloured (pl_Muted p)), (''statusLine'', on_panel (pl_InverseFg p) (pl_InverseBg p)),
      (''statusLineSep'', on_panel (pl_MutedSoft p) (pl_InverseBg p)), (''keyHintKey'', coloured (pl_Coral p)), (''keyHintLabel'', coloured (pl_Muted p)),
      (''selStrong'', on_panel (pl_SelStrongFg p) (pl_SelStrongBg p)), (''inputBox'', NewStyle\<lparr>sy_PaddingH := 1\<rparr>),
      (''composerPrompt'', bold (coloured (pl_Coral p))), (''composerMeta'', coloured (pl_Muted p)),
      (''userLabel'', bold (coloured (pl_KrakenLight p))), (''agentLabel'', bold (coloured (pl_Coral p))), (''systemLabel'', coloured (pl_Muted p)),
      (''ok'', coloured (pl_Ok p)), (''err'', coloured (pl_Err p)), (''warn'', coloured (pl_Warn p)), (''dim'', coloured (pl_Muted p)),
      (''fg'', coloured (pl_Fg p)), (''kraken'', coloured (pl_KrakenLight p)), (''coral'', coloured (pl_Coral p)), (''coralBold'', bold (coloured (pl_Coral p))),
      (''bigMetricValue'', bold (coloured (pl_Fg p))), (''bigMetricUnit'', coloured (pl_Muted p)), (''spinner'', coloured (pl_Coral p)),
      (''stubMessage'', coloured (pl_Coral p)), (''groupHeader'', coloured (pl_FgDim p))]"

text \<open>Both palettes know themselves by name, and no style has its text in the colour of its background.\<close>

lemma palettes_readable:
  "pl_Name (palette_named name) = applyThemeName name \<and>
   list_all (\<lambda>(_, s). sy_Background s = None \<or> sy_Foreground s \<noteq> sy_Background s) (rebuildStyles (palette_named name)) \<and>
   distinct (map fst (rebuildStyles (palette_named name)))"
  by (simp add: palette_named_def applyThemeName_def rebuildStyles_def paletteDark_def paletteLight_def coloured_def on_panel_def bold_def NewStyle_def)

section \<open>The configuration file\<close>

text \<open>\<open>path.Clean\<close> on the components of a path, and \<open>filepath.Join\<close> of elements that are not empty.\<close>

definition clean_step :: "bool \<Rightarrow> string \<Rightarrow> string list \<Rightarrow> string list" where
  "clean_step rooted c stack =
     (if c = [] \<or> c = ''.'' then stack
      else if c \<noteq> ''..'' then stack @ [c]
      else if stack \<noteq> [] \<and> last stack \<noteq> ''..'' then butlast stack
      else if rooted then stack
      else stack @ [c])"

definition path_Clean :: "string \<Rightarrow> string" where
  "path_Clean p =
     (let rooted = HasPrefix p ''/''; stack = fold (clean_step rooted) (Split p (CHR ''/'')) []
      in if rooted then ''/'' @ Join stack ''/'' else if stack = [] then ''.'' else Join stack ''/'')"

definition path_Join :: "string list \<Rightarrow> string" where
  "path_Join elems = path_Clean (Join elems ''/'')"

definition path_Dir :: "string \<Rightarrow> string" where
  "path_Dir p = path_Clean (rev (dropWhile (\<lambda>c. c \<noteq> CHR ''/'') (rev p)))"

text \<open>
  A failing write leaves the file with some other content. \<open>os_mkdir\<close> is the answer of
  \<open>MkdirAll\<close> for a directory.
\<close>

record tui_os =
  os_XDG :: string
  os_Home :: "string result"
  os_ThemeVar :: string
  os_mkdir :: "string \<Rightarrow> goerr option"
  os_write :: "(goerr \<times> string) option"
  os_Marshal :: "string \<Rightarrow> string result"
  os_Unmarshal :: "string \<Rightarrow> string result"

type_synonym tui_files = "string \<rightharpoonup> string"

definition configPath :: "tui_os \<Rightarrow> string result" where
  "configPath e =
     (if os_XDG e \<noteq> [] then Inr (path_Join [os_XDG e, ''kraclaw'', ''tui.json''])
      else case os_Home e of
        Inl err \<Rightarrow> Inl err
      | Inr home \<Rightarrow> Inr (path_Join [path_Join [home, ''.config''], ''kraclaw'', ''tui.json'']))"

definition loadSavedThemeName :: "tui_os \<Rightarrow> tui_files \<Rightarrow> string" where
  "loadSavedThemeName e fs =
     (case configPath e of
        Inl _ \<Rightarrow> []
      | Inr path \<Rightarrow>
          (case fs path of
             None \<Rightarrow> []
           | Some b \<Rightarrow> (case os_Unmarshal e b of Inl _ \<Rightarrow> [] | Inr theme \<Rightarrow> theme)))"

definition loadInitialTheme :: "tui_os \<Rightarrow> tui_files \<Rightarrow> string" where
  "loadInitialTheme e fs =
     (let name = loadSavedThemeName e fs in applyThemeName (if name = [] then os_ThemeVar e else name))"

definition persistTheme :: "tui_os \<Rightarrow> string \<Rightarrow> tui_files \<Rightarrow> unit result \<times> tui_files" where
  "persistTheme e name fs =
     (case configPath e of
        Inl err \<Rightarrow> (Inl err, fs)
      | Inr path \<Rightarrow>
          (case os_mkdir e (path_Dir path) of
             Some err \<Rightarrow> (Inl err, fs)
           | None \<Rightarrow>
               (case os_Marshal e name of
                  Inl err \<Rightarrow> (Inl err, fs)
                | Inr b \<Rightarrow>
                    (case os_write e of
                       Some (err, left) \<Rightarrow> (Inl err, fs(path \<mapsto> left))
                     | None \<Rightarrow> (Inr (), fs(path \<mapsto> b))))))"

section \<open>The browser\<close>

text \<open>The error carries the cause as text; no caller looks at it.\<close>

definition openURLFor :: "string \<Rightarrow> string \<Rightarrow> (string \<Rightarrow> string list \<Rightarrow> goerr option) \<Rightarrow> unit result" where
  "openURLFor goos url run =
     (let go = (\<lambda>name args hint. case run name args of
                  Some err \<Rightarrow> Inl (Errorf (''openurl on '' @ goos @ '': '' @ error_text err @ '' ('' @ hint @ '')''))
                | None \<Rightarrow> Inr ())
      in if goos = ''linux'' then go ''xdg-open'' [url] ''install xdg-open or copy the URL manually''
         else if goos = ''darwin'' then go ''open'' [url] ''copy the URL manually''
         else if goos = ''windows'' then go ''cmd'' [''/c'', ''start'', [], url] ''copy the URL manually''
         else Inl (Errorf (''openurl: unsupported OS '' @ Quote goos)))"

section \<open>The choice survives\<close>

text \<open>The theme that the effects of a run leave in the file, and the invariant that ties it to the model.\<close>

definition saved_theme :: "string \<Rightarrow> tui_effect list \<Rightarrow> string" where
  "saved_theme th effs = fold (\<lambda>e t. case e of Persisted n \<Rightarrow> n | _ \<Rightarrow> t) effs th"

definition themes_only :: "tui_effect list \<Rightarrow> bool" where
  "themes_only effs \<longleftrightarrow> list_all (\<lambda>e. case e of Persisted n \<Rightarrow> n \<in> {''light'', ''dark''} | _ \<Rightarrow> True) effs"

definition themed :: "string \<Rightarrow> 'u model \<Rightarrow> bool" where
  "themed th m \<longleftrightarrow> saved_theme th (mo_effects m) = mo_theme m \<and> themes_only (mo_effects m)"

definition keeps_theme :: "string \<Rightarrow> 'u step \<Rightarrow> bool" where
  "keeps_theme th s \<longleftrightarrow> (\<forall>m' cs. s = Some (m', cs) \<longrightarrow> themed th m')"

lemma keeps_theme_simps [simp]: "keeps_theme th (Some (m', cs)) = themed th m'" "keeps_theme th None"
  by (auto simp: keeps_theme_def)

lemma keeps_theme_if: "(b \<Longrightarrow> keeps_theme th s) \<Longrightarrow> (\<not> b \<Longrightarrow> keeps_theme th t) \<Longrightarrow> keeps_theme th (if b then s else t)"
  by simp

lemma saved_append [simp]: "saved_theme th (es @ [e]) = (case e of Persisted n \<Rightarrow> n | _ \<Rightarrow> saved_theme th es)"
  by (simp add: saved_theme_def split: tui_effect.split)

lemma themes_only_append [simp]: "themes_only (es @ [e]) \<longleftrightarrow> themes_only es \<and> (case e of Persisted n \<Rightarrow> n \<in> {''light'', ''dark''} | _ \<Rightarrow> True)"
  by (auto simp: themes_only_def)

lemma same_theme:
  "mo_theme (show_messages u m) = mo_theme m" "mo_effects (show_messages u m) = mo_effects m"
  "mo_theme (goto_bottom u m) = mo_theme m" "mo_effects (goto_bottom u m) = mo_effects m"
  "mo_theme (refreshChatViewportContent u m) = mo_theme m" "mo_effects (refreshChatViewportContent u m) = mo_effects m"
  "mo_theme (applyLayout u m) = mo_theme m" "mo_effects (applyLayout u m) = mo_effects m"
  "mo_theme (clear_creation m) = mo_theme m" "mo_effects (clear_creation m) = mo_effects m"
  "mo_theme (clear_input u m) = mo_theme m" "mo_effects (clear_input u m) = mo_effects m"
  "mo_theme (moveCursor d m) = mo_theme m" "mo_effects (moveCursor d m) = mo_effects m"
  "mo_theme (cycleTaskFilter m) = mo_theme m" "mo_effects (cycleTaskFilter m) = mo_effects m"
  "mo_theme (next_tab m) = mo_theme m" "mo_effects (next_tab m) = mo_effects m" "mo_theme (prev_tab m) = mo_theme m" "mo_effects (prev_tab m) = mo_effects m"
  "mo_theme (picker_down m) = mo_theme m" "mo_effects (picker_down m) = mo_effects m" "mo_theme (picker_up m) = mo_theme m" "mo_effects (picker_up m) = mo_effects m"
  by (simp_all add: show_messages_def goto_bottom_def refreshChatViewportContent_def applyLayout_def clear_creation_def clear_input_def moveCursor_def
      cycleTaskFilter_def next_tab_def prev_tab_def picker_down_def picker_up_def ensureMarkdownRenderer_def Let_def split: sum.split option.split)

lemma themed_cong: "mo_theme m' = mo_theme m \<Longrightarrow> mo_effects m' = mo_effects m \<Longrightarrow> themed th m' = themed th m"
  by (simp add: themed_def)

lemma themed_cancel [simp]: "mo_theme (call_cancel c m) = mo_theme m" "saved_theme th (mo_effects (call_cancel c m)) = saved_theme th (mo_effects m)"
    "themes_only (mo_effects (call_cancel c m)) = themes_only (mo_effects m)"
  by (simp_all add: call_cancel_def split: option.split)

lemma themed_set: "themed th m \<Longrightarrow> next \<in> {''light'', ''dark''} \<Longrightarrow> themed th (persist_theme next (setTheme next m))"
  by (auto simp: themed_def persist_theme_def setTheme_def applyThemeName_def)

lemmas theme_simps = themed_def same_theme

lemma auth_theme:
  assumes "themed th m"
  shows "keeps_theme th (handleAuthStarted r m)" "keeps_theme th (handleAuthEvent u ev m)" "keeps_theme th (handleEscOAuth m)"
  using assms
  by (simp_all add: handleAuthStarted_def handleAuthEvent_def auth_failed_def handleEscOAuth_def Let_def theme_simps
      split: sum.split option.split device_event.split)

lemma pickers_theme:
  assumes "themed th m"
  shows "keeps_theme th (key_select_group u k m)" "keeps_theme th (key_select_provider k m)" "keeps_theme th (key_select_model k m)"
proof -
  have "keeps_theme th (key_new_group u k m)" "keeps_theme th (pick_provider sel m)" for sel
    using assms by (simp_all add: key_new_group_def pick_provider_def Let_def theme_simps)
  then show "keeps_theme th (key_select_group u k m)" "keeps_theme th (key_select_provider k m)" "keeps_theme th (key_select_model k m)"
    using assms unfolding key_select_group_def key_select_provider_def key_select_model_def
    by (intro keeps_theme_if; simp add: theme_simps split: option.split prod.split)+
qed

lemma local_command_theme: "themed th m \<Longrightarrow> themed th (snd (handleLocalCommand txt m))"
  by (auto simp: handleLocalCommand_def Let_def themed_set split: list.split)

lemma send_input_theme:
  assumes "themed th m"
  shows "keeps_theme th (send_input u input m)"
proof -
  obtain b m1 where b: "handleLocalCommand input m = (b, m1)"
    by fastforce
  then have "themed th m1"
    using local_command_theme [OF assms, of input] by simp
  then show ?thesis
    using assms b unfolding send_input_def
    by (intro keeps_theme_if) (auto simp: theme_simps split: list.split option.split bool.split)
qed

lemma model_picker_theme: "themed th m \<Longrightarrow> (case key_model_picker k m of None \<Rightarrow> True | Some s \<Rightarrow> keeps_theme th s)"
  unfolding key_model_picker_def Let_def by (simp add: theme_simps split: option.split)

lemma chatting_theme:
  assumes "themed th m"
  shows "keeps_theme th (key_chatting u k m)"
proof (cases "key_model_picker k m")
  case None
  have "themed th (leave_chat u m)"
    using assms by (simp add: leave_chat_def theme_simps)
  then show ?thesis
    unfolding key_chatting_def None option.case using assms send_input_theme [OF assms]
    by (intro keeps_theme_if) (simp_all add: theme_simps)
next
  case (Some s)
  then have "keeps_theme th s"
    using model_picker_theme [OF assms, of k] by simp
  then show ?thesis
    by (simp add: key_chatting_def Some)
qed

lemma update_key_theme:
  assumes "themed th m"
  shows "keeps_theme th (update_key u k m)"
proof -
  have "keeps_theme th (updateChat u k m)"
    using assms pickers_theme [OF assms] auth_theme [OF assms] chatting_theme [OF assms]
    by (simp add: updateChat_def theme_simps split: chatState.split)
  moreover have "themed th (toggle_theme u m)"
    using themed_set [OF assms] by (simp add: toggle_theme_def Let_def themed_cong [OF same_theme(5,6)])
  ultimately show ?thesis
    unfolding update_key_def using assms
    by (intro keeps_theme_if) (simp_all add: theme_simps split: option.split)
qed

lemma Update_theme:
  assumes "themed th m"
  shows "keeps_theme th (Update u msg m)"
proof (cases msg)
  case (KeyPress k)
  then show ?thesis
    using update_key_theme [OF assms] by (simp add: Update_def)
next
  case (ChannelOutput r)
  have "themed th (fst (update_output u r m))"
    using assms by (simp add: update_output_def Let_def theme_simps split: sum.split)
  then show ?thesis
    using ChannelOutput by (cases "update_output u r m") (simp add: Update_def)
qed (use assms auth_theme [OF assms] in \<open>simp_all add: Update_def update_sandboxes_def update_groups_def update_tasks_def update_event_def
       update_providers_def update_registered_def update_stream_def theme_simps Let_def split: sum.split option.split\<close>)

lemma run_theme: "client_run u es (m, p) = Some (m', p') \<Longrightarrow> themed th m \<Longrightarrow> themed th m'"
proof (induction u es "(m, p)" arbitrary: m p rule: client_run.induct)
  case (2 u msg es m p)
  then show ?case
    using Update_theme [of th m u msg] by (auto simp: keeps_theme_def split: option.splits)
next
  case (3 u c msg es m p)
  then show ?case
    using Update_theme [of th m u msg] by (auto simp: keeps_theme_def split: option.splits if_splits)
qed simp

text \<open>The writes of the effects of a run, one after the other.\<close>

definition persist_effects :: "tui_os \<Rightarrow> tui_effect list \<Rightarrow> tui_files \<Rightarrow> tui_files" where
  "persist_effects e effs fs = fold (\<lambda>x fs. case x of Persisted n \<Rightarrow> snd (persistTheme e n fs) | _ \<Rightarrow> fs) effs fs"

definition disk_works :: "tui_os \<Rightarrow> bool" where
  "disk_works e \<longleftrightarrow> (\<exists>path. configPath e = Inr path \<and> os_mkdir e (path_Dir path) = None) \<and> os_write e = None \<and>
     (\<forall>n. \<exists>b. os_Marshal e n = Inr b \<and> os_Unmarshal e b = Inr n)"

lemma load_after_persist:
  assumes "disk_works e" and "n \<noteq> []"
  shows "loadInitialTheme e (snd (persistTheme e n fs)) = applyThemeName n"
proof -
  obtain path where "configPath e = Inr path" "os_mkdir e (path_Dir path) = None" "os_write e = None"
    using assms(1) by (auto simp: disk_works_def)
  moreover obtain b where "os_Marshal e n = Inr b" "os_Unmarshal e b = Inr n"
    using assms(1) unfolding disk_works_def by blast
  ultimately have "configPath e = Inr path" "os_mkdir e (path_Dir path) = None" "os_write e = None" "os_Marshal e n = Inr b" "os_Unmarshal e b = Inr n"
    by simp_all
  then show ?thesis
    using assms(2) by (simp add: loadInitialTheme_def loadSavedThemeName_def persistTheme_def)
qed

lemma applyThemeName_twice [simp]: "applyThemeName (applyThemeName n) = applyThemeName n"
  by (simp add: applyThemeName_def)

lemma saved_named: "themes_only effs \<Longrightarrow> applyThemeName th = th \<Longrightarrow> applyThemeName (saved_theme th effs) = saved_theme th effs"
  by (induction effs rule: rev_induct) (auto simp: saved_theme_def applyThemeName_def themes_only_def split: tui_effect.splits)

lemma load_effects:
  assumes "disk_works e"
  shows "themes_only effs \<Longrightarrow>
    loadInitialTheme e (persist_effects e effs fs) = applyThemeName (saved_theme (loadInitialTheme e fs) effs)"
proof (induction effs rule: rev_induct)
  case Nil
  then show ?case
    by (auto simp: persist_effects_def saved_theme_def loadInitialTheme_def applyThemeName_def Let_def)
next
  case (snoc x effs)
  then show ?case
    using load_after_persist [OF assms] by (auto simp: persist_effects_def split: tui_effect.split)
qed

text \<open>
  The theme survives a restart. Whatever happens in a session of the terminal client, with a
  working disk the next session starts with the theme this one ended with, and with the
  theme it started with when none was chosen; the environment variable does not override a
  choice that was made.
\<close>

theorem theme_survives_restart:
  assumes "disk_works e" and "client_run u es (initialModel addr (loadInitialTheme e fs) now w, tui_Init) = Some (m, p)"
  shows "loadInitialTheme e (persist_effects e (mo_effects m) fs) = mo_theme m"
proof -
  have "themed (loadInitialTheme e fs) (initialModel addr (loadInitialTheme e fs) now w)"
    by (simp add: themed_def saved_theme_def themes_only_def initialModel_def split: prod.split)
  then have "themed (loadInitialTheme e fs) m"
    by (rule run_theme [OF assms(2)])
  moreover have "applyThemeName (mo_theme m) = mo_theme m"
    using calculation saved_named [of "mo_effects m" "loadInitialTheme e fs"] by (simp add: themed_def loadInitialTheme_def Let_def)
  ultimately show ?thesis
    using load_effects [OF assms(1)] by (simp add: themed_def)
qed

definition demo_os :: tui_os where
  "demo_os = \<lparr>os_XDG = [], os_Home = Inr ''/home/me'', os_ThemeVar = ''light'', os_mkdir = (\<lambda>_. None), os_write = None, os_Marshal = Inr, os_Unmarshal = Inr\<rparr>"

theorem theme_survives_restart_witness:
  "\<exists>m p. client_run demo_ui [key ''ctrl+t'', key ''ctrl+t'', key ''ctrl+t''] (initialModel [] (loadInitialTheme demo_os Map.empty) 0 (([], False), ([], False), ([], False), ([], False)), tui_Init) =
     Some (m, p) \<and> mo_theme m = ''dark'' \<and> loadInitialTheme demo_os (persist_effects demo_os (mo_effects m) Map.empty) = ''dark''"
proof -
  let ?s = "(initialModel [] (loadInitialTheme demo_os Map.empty) 0 (([], False), ([], False), ([], False), ([], False)), tui_Init)"
  have theme: "loadInitialTheme demo_os Map.empty = ''light''"
    by (simp add: loadInitialTheme_def loadSavedThemeName_def demo_os_def applyThemeName_def split: sum.split)
  have "case client_run demo_ui [key ''ctrl+t'', key ''ctrl+t'', key ''ctrl+t''] (initialModel [] ''light'' 0 (([], False), ([], False), ([], False), ([], False)), tui_Init) of
      None \<Rightarrow> False | Some (m, p) \<Rightarrow> mo_theme m = ''dark''"
    by code_simp
  then obtain m p where run: "client_run demo_ui [key ''ctrl+t'', key ''ctrl+t'', key ''ctrl+t''] ?s = Some (m, p)" "mo_theme m = ''dark''"
    unfolding theme by (auto split: option.splits)
  have "disk_works demo_os"
    by (simp add: disk_works_def demo_os_def configPath_def)
  from theme_survives_restart [OF this run(1)] run show ?thesis
    by simp
qed

end
