(* ===== verification/Spec2Isabelle.thy ===== *)
theory Spec2Isabelle
  imports Orch_Poll_Props Orch_Dispatch_Props Orch_Watch_Props Orch_Commands Api_Auth Api_Services Grpc_Server Agent_Main Chat_Channels Sandbox_Watch Orch_Admission Orch_Redeliver Store_Rows Store_Maps Sched_Loop Nats_Life Chatgpt_Wire Observability Main_Monitors Tui_Debug Tui_Flow Tui_System Tui_View Tui_Theme
begin

text \<open>
  \<^bold>\<open>The program.\<close> Kraclaw runs one AI agent per chat group. Chat channels (Discord, Telegram and
  a terminal client behind a gRPC server) hand messages to the orchestrator, which stores
  them in MySQL, polls for new ones, starts a sandbox on Kubernetes per group and exchanges
  messages with the agent in it over NATS JetStream. Agents reach the AI providers only
  through a credential proxy that adds the group's key to each request. A scheduler puts
  the prompts of scheduled tasks into the same path. The development models the server
  side of the Go sources under \<open>src/internal\<close>, the client library under \<open>src/pkg/agent\<close>, the
  agents and the terminal client; every definition carries the name of the Go function it translates, a prefix where two
  packages share a name.

  \<^bold>\<open>Conventions\<close> (\<open>Prelude\<close>, \<open>Go_Strings\<close>, \<open>Go_Encoding\<close>, \<open>Go_Chan\<close>). A Go error is a tree of messages
  and causes (\<open>goerr\<close>), a fallible call returns \<open>goerr + 'a\<close>, an instant is the number of
  nanoseconds since Go's zero time. A map that Go iterates in an unspecified order is an
  association list together with a function that reorders its keys; theorems assume only
  that it enumerates them (\<open>range_ok\<close>). The handlers that call many services are written in
  the state monad with the collections \<open>keeps_intro\<close> (invariants) and \<open>wp_intro\<close> (results); the
  others pass their state explicitly. \<open>Go_Encoding\<close> has hexadecimal and base64 with their
  round trips, \<open>Go_Chan\<close> buffered channels whose double close and send after close are
  recorded as panics, with the interface \<open>panic_free\<close>.

  \<^bold>\<open>Storage.\<close> \<open>Store_Types\<close>: the records and validators of \<open>store.go\<close>. \<open>Mysql_Store\<close>: every statement
  of \<open>mysql.go\<close> as a function on tables, with the keys, foreign keys and enumerations of the
  migrations; a driver failure is the first argument of each operation. \<open>Store_Props\<close>: the
  schema invariant \<open>db_wf\<close> and its preservation, and the message queries. \<open>Store_Maps\<close>: the same
  calls specified on one map per table, the refinement and the reads. \<open>Store_Rows\<close>: the reads at
  the grain of rows: whatever fails, a list is complete or an error. \<open>Store_Setup\<close>: the retries, the
  migration runner and the take-over of an older version table. \<open>Queue_Model\<close>:
  \<open>nats_queue.go\<close>, a queue per group on JetStream, of which it is shown what it publishes, fetches and
  acknowledges whatever the server answers, and the set of active groups on the store, which
  refines a set (interface \<open>active_store\<close>).

  \<^bold>\<open>Routing and policy.\<close> \<open>Router_Model\<close>: \<open>router.go\<close> and the channel registry: XML escaping, the
  removal of internal tags (a loop that may not end, hence an option), routing to the first
  owner. \<open>Auth_Model\<close>: \<open>auth.go\<close>. \<open>Rate_Limit\<close>: the token bucket, on rationals where Go has
  floats. \<open>Provider_Registry\<close>: providers and models. \<open>Scheduler_Model\<close>: \<open>scheduler.go\<close> with any
  sequence of polls; \<open>Sched_Loop\<close>: its loop and the goroutines of a poll, of which at most three
  run and which always finish. \<open>Sandbox_Model\<close>: the Kubernetes resources, creation with retries, status,
  cleanup and watch events; \<open>Sandbox_Watch\<close>: the watch goroutine and its reader. \<open>Ipc_Model\<close>: \<open>nats_broker.go\<close> and \<open>pkg/agent/ipc.go\<close>: subjects,
  streams, publishing, the consume loop and the client's names.

  \<^bold>\<open>Orchestrator\<close> (\<open>orchestrator.go\<close>, \<open>commands.go\<close>). \<open>Orch_State\<close>: the record \<open>world\<close> of its fields, the
  environment \<open>orch_env\<close> of the services it calls, cursors, persistence. \<open>Orch_Dispatch\<close>: polling,
  dispatch, spawning, inbound messages. \<open>Orch_Watch\<close>: the watcher of an agent, its messages,
  deactivation, recovery, reconciliation, start-up. \<open>Orch_System\<close>: the environment on the
  store's own definitions, with a log of every other call and arbitrary answers of the
  other services. \<open>Orch_Dispatch_Props\<close>, \<open>Orch_Poll_Props\<close>, \<open>Orch_Watch_Props\<close>: a message is
  delivered to an agent that is started for it, a failed start leaves the cursor where it
  was, slots are given back, an agent can touch only its own group's tasks, a reply that the
  router took confirms what was sent, cursors survive a restart. \<open>Orch_Loops\<close>: construction, the background
  loops with their waits, and the path of a message from a channel to an agent. \<open>Orch_Redeliver\<close>: the
  messages an agent leaves unanswered, from its end over the recovery to the next agent.
  \<open>Orch_Admission\<close>: the admission of agents as interleavings of its accesses to shared state: slots
  are exclusive and given back, the limit on agents is passed at most twofold; and the runs in
  which the limit is passed or a second agent starts. \<open>Orch_Commands\<close>: the slash commands and
  what they may change.

  \<^bold>\<open>Credentials.\<close> \<open>Cred_Store\<close>: encryption and the table of credentials. \<open>Cred_Proxy\<close>: the resolver and
  the proxy: a forwarded request carries the resolved credential and nothing of another
  group. \<open>Cred_Models\<close>: the model lister and the wiring of \<open>main.go\<close>. \<open>Config_Model\<close>: \<open>config.go\<close>.
  \<open>Chatgpt_Auth\<close>: the device sign-in of \<open>auth/chatgpt\<close> with its polling loop, which is a total
  function because each turn waits at least one nanosecond of a fixed budget; \<open>Chatgpt_Wire\<close>: the interval
  on the wire and the texts of errors. \<open>Api_Auth\<close>: the
  RPC that runs it.

  \<^bold>\<open>Server.\<close> \<open>Grpc_Server\<close>: the connection allow list, byte by byte, and the construction of the
  server. \<open>Tui_Channel\<close>, \<open>Event_Hub\<close>: the two hubs over Go channels, as transition systems whose
  interpretation of \<open>panic_free\<close> shows that no interleaving panics. \<open>Api_Channel\<close>, \<open>Api_Services\<close>:
  the RPCs, and their composition with the orchestrator and the store. \<open>Server_Life\<close>: start and stop of
  the listeners. \<open>Main_Wiring\<close>: the process, its constructors in order, exit status and shutdown;
  \<open>Main_Monitors\<close>: a service that dies takes the process down. \<open>Observability\<close>: the collectors, the
  middleware and the interceptor that report, and what \<open>GetMetrics\<close> makes of the requests counted.

  \<^bold>\<open>Agents.\<close> \<open>Agent_Ipc\<close>: the subscriptions and the closing of the broker, a step relation whose
  invariant shows that no goroutine outlives it, and the agents' side of the exchange with
  the life cycle \<open>Run\<close>. \<open>Nats_Life\<close>: construction and closing of queue and broker, and the two
  goroutines of a subscription, which end by themselves once the context has ended. \<open>Agent_Main\<close>: the loops of the two agents, the requests and the stream
  parser of the OpenAI one: one reply per message, well-formed requests, authenticated by
  the proxy with the group's own credential.

  \<^bold>\<open>Chat channels.\<close> \<open>Chat_Channels\<close>: the Discord and Telegram channels over their bot libraries, with
  the interface \<open>platform\<close> for what the two share.

  \<^bold>\<open>Terminal client\<close> (\<open>cmd/kraclaw-tui\<close>). \<open>Tui_Client\<close>: the model, its \<open>Update\<close> with every message and key, the
  pickers, the sign-in, layout and formatting, over the operations of the widget libraries.
  \<open>Tui_Client_Props\<close>: the runtime, in which commands answer in any order, the invariant of all
  reachable states, and runs that reach the states the client does not exclude. \<open>Tui_Flow\<close>: the
  model picker reads what the server prints. \<open>Tui_Requests\<close>: the commands as RPC calls and the
  set-up of the connection; \<open>Tui_Debug\<close>: the flags and the diagnostics. \<open>Tui_System\<close>: client, RPCs, orchestrator and store together: a group
  is created, a typed message is stored, replies are shown. \<open>Go_Runes\<close>, \<open>Tui_View\<close>: UTF-8 runes, the
  widgets and the rendering of every tab: which states cannot be drawn, and what is in each
  row of the screen. \<open>Tui_Theme\<close>: palettes, styles and the file that keeps the choice of theme,
  which a restart finds again.

  \<^bold>\<open>Interfaces\<close> are locales, each interpreted on the definitions of the component that provides
  it: the active groups and the router state on the store, panic freedom on the two hubs, and the ones named in the theories.

  \<^bold>\<open>Parameters.\<close> Code outside the repository is an argument: JetStream, the Kubernetes API, AES-GCM
  (assumed to decrypt what it encrypted), SHA-256, JSON, cron and time layouts, URLs, IPv6
  addresses, the answers of HTTP servers, clocks and random identifiers. Loops that wait for
  events take the list of the events they see.

  \<^bold>\<open>Bounds.\<close> The sizes of buffers (64 events, 4096 bytes of an error body, 1 MiB of a response), the
  three attempts of a sandbox creation and the time limits are those of the source. Counters
  of the status RPC are unbounded where Go has \<open>int32\<close>, token counts rational.

  \<^bold>\<open>Not modelled:\<close> log lines, except those of the interceptor; the durations of tickers, where only the
  turns of a loop matter; the locks of the orchestrator, whose handlers run one after the other
  in \<open>Orch_Dispatch\<close> and \<open>Orch_Watch\<close>, except for the slots and the activity of groups,
  which \<open>Orch_Admission\<close> interleaves; the interleaving of the statements of two
  scheduled tasks, which touch different rows; accessors that return a field, interface
  declarations, generated protocol code and test helpers.
\<close>

end
